(* ===== verification/Go_Prelude.thy ===== *)
theory Go_Prelude
  imports Main "HOL-Library.Char_ord" "HOL-Library.List_Lexorder" "HOL-Library.AList"
begin

text \<open>
  Shared ground of the development: Go strings as byte lists, the parts of the packages
  \<open>strings\<close>, \<open>slices\<close>, \<open>unicode/utf8\<close> and \<open>strconv\<close> that the modelled code calls, and
  the list lemmas the components share. A Go string is a sequence of bytes and HOL's
  \<open>char\<close> is a byte, so \<^typ>\<open>string\<close> is exactly Go's string type; a Go map is an
  association list read with \<open>map_of\<close>, and a Go slice is a list (nil and the empty slice
  are the same value, as every reader in the modelled code treats them).
\<close>

named_theorems go_strings \<open>characterisations of the string functions\<close>
named_theorems go_defs \<open>definitions that evaluate closed terms\<close>

section \<open>Bytes\<close>

definition byte :: "char \<Rightarrow> int" where
  "byte c = of_char c"

definition byte_in :: "int \<Rightarrow> int \<Rightarrow> char \<Rightarrow> bool" where
  "byte_in lo hi c \<longleftrightarrow> lo \<le> byte c \<and> byte c \<le> hi"

definition is_lower :: "char \<Rightarrow> bool" where
  "is_lower c \<longleftrightarrow> byte_in 97 122 c"

definition is_upper :: "char \<Rightarrow> bool" where
  "is_upper c \<longleftrightarrow> byte_in 65 90 c"

definition is_digit :: "char \<Rightarrow> bool" where
  "is_digit c \<longleftrightarrow> byte_in 48 57 c"

lemmas byte_class_defs = byte_def byte_in_def is_lower_def is_upper_def is_digit_def

declare byte_class_defs [go_defs]

lemma byte_inject: "byte c = byte d \<longleftrightarrow> c = d"
  by (simp add: byte_def)

text \<open>
  \<open>unicode.IsSpace(rune(b))\<close> for a single byte, as the lexer calls it: the Latin-1 rune
  with the byte's value, so 0x85 and 0xA0 count as spaces as well.
\<close>

definition IsSpace_byte :: "char \<Rightarrow> bool" where
  "IsSpace_byte c \<longleftrightarrow> byte c \<in> {9, 10, 11, 12, 13, 32, 133, 160}"

declare IsSpace_byte_def [go_defs]

section \<open>Package strings: prefixes, suffixes, substrings\<close>

fun HasPrefix :: "string \<Rightarrow> string \<Rightarrow> bool" where
  "HasPrefix s [] = True"
| "HasPrefix [] (p # ps) = False"
| "HasPrefix (x # xs) (p # ps) = (x = p \<and> HasPrefix xs ps)"

definition HasSuffix :: "string \<Rightarrow> string \<Rightarrow> bool" where
  "HasSuffix s p = HasPrefix (rev s) (rev p)"

definition TrimPrefix :: "string \<Rightarrow> string \<Rightarrow> string" where
  "TrimPrefix s p = (if HasPrefix s p then drop (length p) s else s)"

definition TrimSuffix :: "string \<Rightarrow> string \<Rightarrow> string" where
  "TrimSuffix s p = (if HasSuffix s p then take (length s - length p) s else s)"

fun Contains :: "string \<Rightarrow> string \<Rightarrow> bool" where
  "Contains [] p = (p = [])"
| "Contains (x # xs) p = (HasPrefix (x # xs) p \<or> Contains xs p)"

text \<open>\<open>strings.Cut\<close> at a one-byte separator: the text before it and the text after it.\<close>

definition Cut_before :: "char \<Rightarrow> string \<Rightarrow> string" where
  "Cut_before sep s = takeWhile (\<lambda>c. c \<noteq> sep) s"

definition Cut_after :: "char \<Rightarrow> string \<Rightarrow> string" where
  "Cut_after sep s = drop (Suc (length (Cut_before sep s))) s"

declare HasSuffix_def [go_defs] TrimPrefix_def [go_defs] TrimSuffix_def [go_defs]
declare Cut_before_def [go_defs] Cut_after_def [go_defs]

lemma HasPrefix_iff [go_strings]: "HasPrefix s p \<longleftrightarrow> (\<exists>t. s = p @ t)"
  by (induction s p rule: HasPrefix.induct) auto

lemma HasPrefix_append [simp]: "HasPrefix (p @ t) p"
  by (auto simp: HasPrefix_iff)

lemma HasPrefix_self [simp]: "HasPrefix p p"
  by (auto simp: HasPrefix_iff)

lemma HasPrefix_drop: "HasPrefix s p \<Longrightarrow> p @ drop (length p) s = s"
  by (auto simp: HasPrefix_iff)

lemma TrimPrefix_append [simp]: "TrimPrefix (p @ t) p = t"
  by (simp add: TrimPrefix_def)

lemma HasSuffix_iff [go_strings]: "HasSuffix s p \<longleftrightarrow> (\<exists>t. s = t @ p)"
proof -
  have "HasSuffix s p \<longleftrightarrow> (\<exists>t. rev s = rev p @ t)"
    by (simp add: HasSuffix_def HasPrefix_iff)
  also have "\<dots> \<longleftrightarrow> (\<exists>t. s = t @ p)"
    by (metis rev_append rev_rev_ident)
  finally show ?thesis .
qed

lemma Contains_iff [go_strings]: "Contains s p \<longleftrightarrow> (\<exists>a b. s = a @ p @ b)"
proof (induction s)
  case Nil
  then show ?case by auto
next
  case (Cons x xs)
  have "(\<exists>a b. x # xs = a @ p @ b) \<longleftrightarrow> (\<exists>b. x # xs = p @ b) \<or> (\<exists>a b. xs = a @ p @ b)"
    by (metis append_Cons append_eq_Cons_conv append_Nil)
  with Cons show ?case by (simp add: HasPrefix_iff)
qed

lemma Contains_append_left: "Contains s p \<Longrightarrow> Contains (a @ s) p"
  by (metis Contains_iff append_assoc)

lemma Contains_append_right: "Contains s p \<Longrightarrow> Contains (s @ b) p"
  by (metis Contains_iff append_assoc)

section \<open>Package strings: joining and splitting\<close>

fun Join :: "'a list list \<Rightarrow> 'a list \<Rightarrow> 'a list" where
  "Join [] sep = []"
| "Join [x] sep = x"
| "Join (x # y # ys) sep = x @ sep @ Join (y # ys) sep"

text \<open>\<open>strings.Split\<close> at a one-byte separator: one part more than there are separators.\<close>

fun Split :: "string \<Rightarrow> char \<Rightarrow> string list" where
  "Split [] sep = [[]]"
| "Split (x # xs) sep =
     (if x = sep then [] # Split xs sep
      else (case Split xs sep of [] \<Rightarrow> [[x]] | p # ps \<Rightarrow> (x # p) # ps))"

lemma Split_not_Nil [simp]: "Split s sep \<noteq> []"
  by (induction s) (auto split: list.splits)

lemma Join_Cons: "Join (x # xs) sep = x @ (if xs = [] then [] else sep @ Join xs sep)"
  by (cases xs) auto

lemma Join_append:
  "xs \<noteq> [] \<Longrightarrow> ys \<noteq> [] \<Longrightarrow> Join (xs @ ys) sep = Join xs sep @ sep @ Join ys sep"
  by (induction xs sep rule: Join.induct) (auto simp: Join_Cons)

lemma Join_concat: "Join (x # xs) sep = x @ concat (map (\<lambda>y. sep @ y) xs)"
  by (induction xs arbitrary: x) auto

lemma Join_Split [simp]: "Join (Split s sep) [sep] = s"
  by (induction s) (auto simp: Join_Cons split: list.splits if_splits)

lemma Split_free: "sep \<notin> set s \<Longrightarrow> Split s sep = [s]"
  by (induction s) auto

lemma Split_append_sep: "sep \<notin> set s \<Longrightarrow> Split (s @ sep # t) sep = s # Split t sep"
  by (induction s) auto

lemma Split_Join:
  "xs \<noteq> [] \<Longrightarrow> (\<And>x. x \<in> set xs \<Longrightarrow> sep \<notin> set x) \<Longrightarrow> Split (Join xs [sep]) sep = xs"
  by (induction xs "[sep]" rule: Join.induct) (auto simp: Split_free Split_append_sep)

section \<open>White space\<close>

text \<open>
  The UTF-8 encodings of the white-space runes of \<open>unicode.IsSpace\<close>. \<open>strings.TrimSpace\<close>
  removes a leading (trailing) rune exactly while the string starts (ends) with one of
  these encodings: no encoding is a continuation of another rune, so testing bytes and
  decoding runes agree.
\<close>

definition space_runes :: "string list" where
  "space_runes =
     [
      [CHR 0x09], [CHR 0x0A], [CHR 0x0B],
      [CHR 0x0C], [CHR 0x0D], [CHR 0x20],
      [CHR 0xC2, CHR 0x85], [CHR 0xC2, CHR 0xA0], [CHR 0xE1, CHR 0x9A, CHR 0x80],
      [CHR 0xE2, CHR 0x80, CHR 0x80], [CHR 0xE2, CHR 0x80, CHR 0x81], [CHR 0xE2, CHR 0x80, CHR 0x82],
      [CHR 0xE2, CHR 0x80, CHR 0x83], [CHR 0xE2, CHR 0x80, CHR 0x84], [CHR 0xE2, CHR 0x80, CHR 0x85],
      [CHR 0xE2, CHR 0x80, CHR 0x86], [CHR 0xE2, CHR 0x80, CHR 0x87], [CHR 0xE2, CHR 0x80, CHR 0x88],
      [CHR 0xE2, CHR 0x80, CHR 0x89], [CHR 0xE2, CHR 0x80, CHR 0x8A], [CHR 0xE2, CHR 0x80, CHR 0xA8],
      [CHR 0xE2, CHR 0x80, CHR 0xA9], [CHR 0xE2, CHR 0x80, CHR 0xAF], [CHR 0xE2, CHR 0x81, CHR 0x9F],
      [CHR 0xE3, CHR 0x80, CHR 0x80]]"

lemma Nil_not_space_rune [simp]: "[] \<notin> set space_runes"
  by (auto simp: space_runes_def)

fun strip_front :: "string list \<Rightarrow> nat \<Rightarrow> string \<Rightarrow> string" where
  "strip_front ps 0 s = s"
| "strip_front ps (Suc n) s =
     (case find (HasPrefix s) ps of None \<Rightarrow> s | Some p \<Rightarrow> strip_front ps n (drop (length p) s))"

text \<open>
  Every removed rune is at least one byte long, so as many rounds as the string has bytes
  remove all of them (\<open>strip_front_done\<close>).
\<close>

definition TrimLeft_space :: "string \<Rightarrow> string" where
  "TrimLeft_space s = strip_front space_runes (length s) s"

definition TrimRight_space :: "string \<Rightarrow> string" where
  "TrimRight_space s = rev (strip_front (map rev space_runes) (length s) (rev s))"

definition TrimSpace :: "string \<Rightarrow> string" where
  "TrimSpace s = TrimRight_space (TrimLeft_space s)"

declare TrimLeft_space_def [go_defs] TrimRight_space_def [go_defs] TrimSpace_def [go_defs]
declare space_runes_def [go_defs]

lemma strip_front_done:
  assumes "[] \<notin> set ps" and "length s \<le> n"
  shows "find (HasPrefix (strip_front ps n s)) ps = None"
  using assms
proof (induction n arbitrary: s)
  case 0
  have "\<not> HasPrefix [] p" if "p \<in> set ps" for p
    using that "0.prems"(1) by (cases p rule: list.exhaust) auto
  with 0 show ?case by (auto simp: find_None_iff)
next
  case (Suc n)
  show ?case
  proof (cases "find (HasPrefix s) ps")
    case None
    then show ?thesis by simp
  next
    case (Some p)
    then have "p \<in> set ps" and "HasPrefix s p"
      by (auto simp: find_Some_iff)
    with Suc.prems have "p \<noteq> []" by auto
    then have "1 \<le> length p" by (cases p) auto
    then have "length (drop (length p) s) \<le> n"
      using Suc.prems(2) unfolding length_drop by arith
    with Suc.IH [of "drop (length p) s"] Suc.prems(1) Some show ?thesis by simp
  qed
qed

lemma strip_front_suffix: "\<exists>a. s = a @ strip_front ps n s"
proof (induction n arbitrary: s)
  case 0
  show ?case by simp
next
  case (Suc n)
  show ?case
  proof (cases "find (HasPrefix s) ps")
    case None
    then show ?thesis by simp
  next
    case (Some p)
    from Suc.IH [of "drop (length p) s"] obtain a
      where a: "drop (length p) s = a @ strip_front ps n (drop (length p) s)" by blast
    have "s = (take (length p) s @ a) @ strip_front ps n (drop (length p) s)"
      using a by (metis append_assoc append_take_drop_id)
    moreover have "strip_front ps (Suc n) s = strip_front ps n (drop (length p) s)"
      using Some by simp
    ultimately show ?thesis by metis
  qed
qed

lemma strip_front_id: "find (HasPrefix s) ps = None \<Longrightarrow> strip_front ps n s = s"
  by (cases n) auto

lemma TrimSpace_infix: "\<exists>a b. s = a @ TrimSpace s @ b"
proof -
  obtain a where a: "s = a @ TrimLeft_space s"
    unfolding TrimLeft_space_def using strip_front_suffix by blast
  obtain b where b: "rev (TrimLeft_space s) = b @ rev (TrimSpace s)"
    unfolding TrimSpace_def TrimRight_space_def using strip_front_suffix by (metis rev_rev_ident)
  have "TrimLeft_space s = TrimSpace s @ rev b"
    using b by (metis rev_append rev_rev_ident)
  with a show ?thesis by (metis append_assoc)
qed

lemma TrimSpace_set: "set (TrimSpace s) \<subseteq> set s"
  using TrimSpace_infix [of s] by (metis set_append sup_ge1 sup_ge2 order_trans)

lemma TrimSpace_Nil [simp]: "TrimSpace [] = []"
  by (simp add: TrimSpace_def TrimLeft_space_def TrimRight_space_def)

text \<open>A string of printable ASCII bytes without blanks has nothing to trim.\<close>

lemma space_runes_first: "p \<in> set space_runes \<Longrightarrow> \<not> byte_in 33 126 (hd p)"
  by (auto simp: space_runes_def byte_class_defs)

lemma space_runes_last: "p \<in> set space_runes \<Longrightarrow> \<not> byte_in 33 126 (last p)"
  by (auto simp: space_runes_def byte_class_defs)

lemma no_space_front:
  assumes "\<And>p. p \<in> set ps \<Longrightarrow> p \<noteq> [] \<and> \<not> byte_in 33 126 (hd p)" and "s = [] \<or> byte_in 33 126 (hd s)"
  shows "strip_front ps n s = s"
proof -
  have "\<not> HasPrefix s p" if "p \<in> set ps" for p
    using assms(1) [OF that] assms(2) by (cases p; cases s) auto
  then have "find (HasPrefix s) ps = None" by (auto simp: find_None_iff)
  then show ?thesis by (rule strip_front_id)
qed

lemma TrimSpace_id:
  assumes "s = [] \<or> byte_in 33 126 (hd s) \<and> byte_in 33 126 (last s)"
  shows "TrimSpace s = s"
proof -
  have "TrimLeft_space s = s"
    unfolding TrimLeft_space_def
    using assms by (intro no_space_front) (auto simp: space_runes_first)
  moreover have "TrimRight_space s = s"
  proof -
    have "strip_front (map rev space_runes) (length s) (rev s) = rev s"
      using assms by (intro no_space_front)
        (auto simp: space_runes_last hd_rev)
    then show ?thesis by (simp add: TrimRight_space_def)
  qed
  ultimately show ?thesis by (simp add: TrimSpace_def)
qed


section \<open>Package unicode/utf8\<close>

text \<open>
  The width in bytes of the first rune of a non-empty string, as \<open>utf8.DecodeRuneInString\<close>
  computes it: an invalid or truncated encoding has width 1.
\<close>

definition rune_width :: "string \<Rightarrow> nat" where
  "rune_width s =
     (let b = (\<lambda>i. if i < length s then byte (s ! i) else 0);
          cont = (\<lambda>i. 128 \<le> b i \<and> b i \<le> 191)
      in if 194 \<le> b 0 \<and> b 0 \<le> 223 then (if cont 1 then 2 else 1)
         else if 224 \<le> b 0 \<and> b 0 \<le> 239 then
           (if (b 0 = 224 \<longrightarrow> 160 \<le> b 1) \<and> (b 0 = 237 \<longrightarrow> b 1 \<le> 159) \<and> cont 1 \<and> cont 2 then 3 else 1)
         else if 240 \<le> b 0 \<and> b 0 \<le> 244 then
           (if (b 0 = 240 \<longrightarrow> 144 \<le> b 1) \<and> (b 0 = 244 \<longrightarrow> b 1 \<le> 143) \<and> cont 1 \<and> cont 2 \<and> cont 3
            then 4 else 1)
         else 1)"

lemma rune_width_pos [simp]: "0 < rune_width s"
  by (simp add: rune_width_def Let_def)

function runes :: "string \<Rightarrow> string list" where
  "runes s = (if s = [] then [] else take (rune_width s) s # runes (drop (rune_width s) s))"
  by pat_completeness auto
termination
proof (relation "measure length")
  show "wf (measure length)" by simp
next
  fix s :: string
  assume "s \<noteq> []"
  then have "0 < length s" by simp
  then show "(drop (rune_width s) s, s) \<in> measure length"
    using rune_width_pos [of s] unfolding in_measure length_drop by arith
qed

declare runes.simps [simp del]

definition RuneCount :: "string \<Rightarrow> nat" where
  "RuneCount s = length (runes s)"

lemma runes_concat: "concat (runes s) = s"
  by (induction s rule: runes.induct) (subst runes.simps, simp)

lemma runes_ASCII: "(\<And>c. c \<in> set s \<Longrightarrow> byte c < 128) \<Longrightarrow> runes s = map (\<lambda>c. [c]) s"
proof (induction s)
  case Nil
  show ?case by (simp add: runes.simps)
next
  case (Cons c s)
  from Cons.prems [of c] have "byte c < 128" by simp
  then have "rune_width (c # s) = 1" by (simp add: rune_width_def)
  with Cons show ?case by (subst runes.simps) simp
qed

lemma RuneCount_le_length: "RuneCount s \<le> length s"
proof (induction s rule: runes.induct)
  case (1 s)
  show ?case
  proof (cases s)
    case Nil
    then show ?thesis by (simp add: RuneCount_def runes.simps)
  next
    case (Cons x xs)
    then have "s \<noteq> []" by simp
    with 1 have "RuneCount (drop (rune_width s) s) \<le> length s - rune_width s" by simp
    moreover have "RuneCount s = Suc (RuneCount (drop (rune_width s) s))"
      using \<open>s \<noteq> []\<close> by (simp add: RuneCount_def runes.simps [of s])
    moreover have "0 < length s" using \<open>s \<noteq> []\<close> by simp
    ultimately show ?thesis using rune_width_pos [of s] by arith
  qed
qed

section \<open>Replacement\<close>

text \<open>
  \<open>strings.ReplaceAll\<close>: left to right, non-overlapping; an empty \<open>old\<close> matches before every
  rune and at the end.
\<close>

function replace_nonempty :: "string \<Rightarrow> string \<Rightarrow> string \<Rightarrow> string" where
  "replace_nonempty [] old new = []"
| "replace_nonempty (x # xs) old new =
     (if old \<noteq> [] \<and> HasPrefix (x # xs) old
      then new @ replace_nonempty (drop (length old) (x # xs)) old new
      else x # replace_nonempty xs old new)"
  by pat_completeness auto
termination
proof (relation "measure (length \<circ> fst)", goal_cases)
  case (2 x xs old new)
  then have "0 < length old" by simp
  then show ?case unfolding in_measure by (simp add: less_Suc_eq_le del: length_greater_0_conv)
qed auto

definition ReplaceAll :: "string \<Rightarrow> string \<Rightarrow> string \<Rightarrow> string" where
  "ReplaceAll s old new =
     (if old = [] then new @ concat (map (\<lambda>r. r @ new) (runes s)) else replace_nonempty s old new)"

lemma replace_nonempty_absent: "\<not> Contains s old \<Longrightarrow> replace_nonempty s old new = s"
  by (induction s) auto

section \<open>Numbers, ordering, case\<close>

fun itoa :: "nat \<Rightarrow> string" where
  "itoa n = (if n < 10 then [char_of (48 + n)] else itoa (n div 10) @ [char_of (48 + n mod 10)])"

declare itoa.simps [simp del]

lemma byte_char_of_digit:
  assumes "(n::nat) < 10" shows "byte (char_of (48 + n)) = 48 + int n"
proof -
  have "byte (char_of (48 + n)) = int (of_char (char_of (48 + n)))"
    unfolding byte_def by (rule of_nat_of_char [symmetric])
  with assms show ?thesis by simp
qed

lemma is_digit_char_of: "(n::nat) < 10 \<Longrightarrow> is_digit (char_of (48 + n))"
  by (simp add: is_digit_def byte_in_def byte_char_of_digit)

lemma itoa_digits: "c \<in> set (itoa n) \<Longrightarrow> is_digit c"
proof (induction n rule: itoa.induct)
  case (1 n)
  then show ?case
    by (subst (asm) itoa.simps) (auto simp: is_digit_char_of split: if_splits)
qed

lemma itoa_not_Nil [simp]: "itoa n \<noteq> []"
  by (subst itoa.simps) simp

text \<open>\<open>slices.Sort\<close> orders strings bytewise, which is the order of \<open>List_Lexorder\<close>.\<close>

definition Compact :: "'a list \<Rightarrow> 'a list" where
  "Compact xs = remdups_adj xs"

definition to_lower_byte :: "char \<Rightarrow> char" where
  "to_lower_byte c = (if is_upper c then char_of (byte c + 32) else c)"

text \<open>
  \<open>strings.ToLower\<close> on ASCII. The names it is applied to in the modelled code (policy field
  names, query words) are ASCII; a byte outside ASCII is kept.
\<close>

definition ToLower :: "string \<Rightarrow> string" where
  "ToLower s = map to_lower_byte s"

declare Compact_def [go_defs] to_lower_byte_def [go_defs] ToLower_def [go_defs]

lemma to_lower_byte_fix: "\<not> is_upper c \<Longrightarrow> to_lower_byte c = c"
  by (simp add: to_lower_byte_def)

lemma ToLower_fix: "(\<And>c. c \<in> set s \<Longrightarrow> \<not> is_upper c) \<Longrightarrow> ToLower s = s"
  unfolding ToLower_def by (induction s) (auto simp: to_lower_byte_fix)

section \<open>Sorted lists without duplicates\<close>

lemma sorted_remdups_adj_strict:
  fixes xs :: "'a :: linorder list"
  shows "sorted xs \<Longrightarrow> sorted_wrt (<) (remdups_adj xs)"
proof (induction xs rule: remdups_adj.induct)
  case (3 x y xs)
  then show ?case by (auto simp: less_le)
qed auto

lemma strict_sorted_unique:
  fixes xs ys :: "'a :: linorder list"
  assumes "sorted_wrt (<) xs" and "sorted_wrt (<) ys" and "set xs = set ys"
  shows "xs = ys"
  using assms strict_sorted_equal by blast

lemma sorted_wrt_less_remdups_adj:
  fixes xs :: "'a :: linorder list"
  shows "sorted_wrt (<) xs \<Longrightarrow> remdups_adj xs = xs"
  by (induction xs rule: remdups_adj.induct) auto

lemma sorted_wrt_less_sort:
  fixes xs :: "'a :: linorder list"
  shows "sorted_wrt (<) xs \<Longrightarrow> sort xs = xs"
  by (simp add: sorted_sort_id strict_sorted_imp_sorted)

end
