(* ===== verification/Rsql_Lexer.thy ===== *)
theory Rsql_Lexer
  imports Go_Prelude
begin

text \<open>
  The query language's syntax tree (\<open>internal/search/ast.go\<close>) and its lexer
  (\<open>internal/search/lexer.go\<close>). The lexer's state is the unread input \<open>input[pos:]\<close>, the
  position and the tokens so far; an error return is an \<open>Inl\<close>. The Go helpers end in
  \<open>return l.lex()\<close>: that tail call and another round of the main loop are the same, so
  each helper here returns the state it hands to \<open>lex\<close>.
\<close>

section \<open>Syntax tree\<close>

datatype Operator = OpEq | OpNeq | OpGt | OpGte | OpLt | OpLte | OpIn | OpOut

text \<open>\<open>ComparisonNode.Value\<close> holds a string, or a list of strings for IN and OUT.\<close>

datatype Value = VStr string | VList "string list"

datatype Node =
    ComparisonNode string Operator Value
  | AndNode "Node list"
  | OrNode "Node list"

definition opInText :: string where "opInText = ''=in=''"
definition opOutText :: string where "opOutText = ''=out=''"

fun Operator_String :: "Operator \<Rightarrow> string" where
  "Operator_String OpEq = ''==''"
| "Operator_String OpNeq = ''!=''"
| "Operator_String OpGt = ''>''"
| "Operator_String OpGte = ''>=''"
| "Operator_String OpLt = ''<''"
| "Operator_String OpLte = ''<=''"
| "Operator_String OpIn = opInText"
| "Operator_String OpOut = opOutText"

section \<open>Tokens and the lexer's state\<close>

datatype TokenType =
    TokenField | TokenOp | TokenValue | TokenValues | TokenAnd | TokenOr | TokenLParen
  | TokenRParen | TokenEOF

record Token =
  tok_Type :: TokenType
  tok_Value :: string
  tok_Values :: "string list"
  tok_Pos :: nat

record Lexer =
  lx_rest :: string
  lx_pos :: nat
  lx_tokens :: "Token list"

datatype LexError =
    UnexpectedChar char nat
  | ExpectedValue nat
  | UnexpectedEnd nat
  | UnexpectedEq nat
  | ExpectedNeq nat
  | UnexpectedOpChar char nat
  | UnterminatedString nat
  | UnterminatedValueList nat

definition mk_token :: "TokenType \<Rightarrow> string \<Rightarrow> string list \<Rightarrow> nat \<Rightarrow> Token" where
  "mk_token ty v vs p = \<lparr>tok_Type = ty, tok_Value = v, tok_Values = vs, tok_Pos = p\<rparr>"

definition emit :: "TokenType \<Rightarrow> string \<Rightarrow> string list \<Rightarrow> nat \<Rightarrow> Lexer \<Rightarrow> Lexer" where
  "emit ty v vs p l = l\<lparr>lx_tokens := lx_tokens l @ [mk_token ty v vs p]\<rparr>"

definition advance :: "nat \<Rightarrow> Lexer \<Rightarrow> Lexer" where
  "advance n l = l\<lparr>lx_rest := drop n (lx_rest l), lx_pos := lx_pos l + n\<rparr>"

section \<open>Character classes\<close>

definition isIdentStart :: "char \<Rightarrow> bool" where
  "isIdentStart ch \<longleftrightarrow> is_lower ch \<or> is_upper ch \<or> ch = CHR ''_'' \<or> ch = CHR ''.'' \<or> ch = CHR ''@''"

definition isIdentChar :: "char \<Rightarrow> bool" where
  "isIdentChar ch \<longleftrightarrow> isIdentStart ch \<or> is_digit ch \<or> ch = CHR ''-''"

definition isSeparator :: "char \<Rightarrow> bool" where
  "isSeparator ch \<longleftrightarrow> ch = CHR '';'' \<or> ch = CHR '','' \<or> ch = CHR '')'' \<or> ch = CHR '' ''"

definition is_quote :: "char \<Rightarrow> bool" where
  "is_quote ch \<longleftrightarrow> ch = CHR 0x22 \<or> ch = CHR 0x27"

definition is_op_start :: "char \<Rightarrow> bool" where
  "is_op_start ch \<longleftrightarrow> ch \<in> {CHR ''='', CHR ''!'', CHR ''>'', CHR ''<''}"

section \<open>The lexer\<close>

definition skipWhitespace :: "Lexer \<Rightarrow> Lexer" where
  "skipWhitespace l = advance (length (takeWhile IsSpace_byte (lx_rest l))) l"

definition lastTokenIsSetOp :: "Lexer \<Rightarrow> bool" where
  "lastTokenIsSetOp l \<longleftrightarrow>
     lx_tokens l \<noteq> [] \<and>
     (let t = last (lx_tokens l)
      in tok_Type t = TokenOp \<and> (tok_Value t = opInText \<or> tok_Value t = opOutText))"

definition lexField :: "Lexer \<Rightarrow> Lexer" where
  "lexField l =
     (let name = takeWhile isIdentChar (lx_rest l)
      in emit TokenField name [] (lx_pos l) (advance (length name) l))"

definition readOperator :: "Lexer \<Rightarrow> LexError + (string \<times> Lexer)" where
  "readOperator l =
     (case lx_rest l of
        [] \<Rightarrow> Inl (UnexpectedEnd (lx_pos l))
      | ch # _ \<Rightarrow>
          if take 2 (lx_rest l) \<in> {''=='', ''!='', ''>='', ''<=''}
          then Inr (take 2 (lx_rest l), advance 2 l)
          else if ch = CHR ''>'' \<or> ch = CHR ''<'' then Inr ([ch], advance 1 l)
          else if ch = CHR ''='' then
            (if HasPrefix (lx_rest l) opInText then Inr (opInText, advance (length opInText) l)
             else if HasPrefix (lx_rest l) opOutText then Inr (opOutText, advance (length opOutText) l)
             else Inl (UnexpectedEq (lx_pos l)))
          else if ch = CHR ''!'' then Inl (ExpectedNeq (lx_pos l))
          else Inl (UnexpectedOpChar ch (lx_pos l)))"

definition lexQuotedValue :: "Lexer \<Rightarrow> LexError + Lexer" where
  "lexQuotedValue l =
     (let quote = hd (lx_rest l);
          l1 = advance 1 l;
          start = lx_pos l1;
          v = takeWhile (\<lambda>c. c \<noteq> quote) (lx_rest l1);
          l2 = advance (length v) l1
      in if lx_rest l2 = [] then Inl (UnterminatedString (start - 1))
         else Inr (advance 1 (emit TokenValue v [] start l2)))"

text \<open>
  The loop of \<open>lexValueList\<close>: \<open>seg\<close> is \<open>input[start:pos]\<close>. It returns the values, the start
  of the last segment (the token's position), the unread input and the position.
\<close>

fun valueListLoop ::
  "string \<Rightarrow> nat \<Rightarrow> string \<Rightarrow> nat \<Rightarrow> string list \<Rightarrow> LexError + (string list \<times> nat \<times> string \<times> nat)"
where
  "valueListLoop [] p seg start values = Inl (UnterminatedValueList start)"
| "valueListLoop (ch # r) p seg start values =
     (let val = TrimSpace seg;
          values' = (if val \<noteq> [] then values @ [val] else values)
      in if ch = CHR '')'' then Inr (values', start, r, p + 1)
         else if ch = CHR '','' then valueListLoop r (p + 1) [] (p + 1) values'
         else valueListLoop r (p + 1) (seg @ [ch]) start values)"

definition lexValueList :: "Lexer \<Rightarrow> LexError + Lexer" where
  "lexValueList l =
     (let l1 = advance 1 l
      in case valueListLoop (lx_rest l1) (lx_pos l1) [] (lx_pos l1) [] of
           Inl e \<Rightarrow> Inl e
         | Inr (values, start, r, p) \<Rightarrow>
             Inr (emit TokenValues [] values start (l1\<lparr>lx_rest := r, lx_pos := p\<rparr>)))"

definition lexOperatorAndValue :: "Lexer \<Rightarrow> LexError + Lexer" where
  "lexOperatorAndValue l =
     (case readOperator l of
        Inl e \<Rightarrow> Inl e
      | Inr (op, l1) \<Rightarrow>
          (let l2 = emit TokenOp op [] (lx_pos l) l1
           in if op = opInText \<or> op = opOutText then Inr l2
              else (let l3 = skipWhitespace l2
                    in case lx_rest l3 of
                         [] \<Rightarrow> Inl (ExpectedValue (lx_pos l3))
                       | ch # _ \<Rightarrow>
                           if is_quote ch then lexQuotedValue l3
                           else (let v = takeWhile (\<lambda>c. \<not> isSeparator c) (lx_rest l3)
                                 in if v = [] then Inl (ExpectedValue (lx_pos l3))
                                    else Inr (emit TokenValue v [] (lx_pos l3) (advance (length v) l3))))))"

text \<open>One round of the main loop, at a byte that is not white space.\<close>

definition lex_step :: "Lexer \<Rightarrow> LexError + Lexer" where
  "lex_step l =
     (let ch = hd (lx_rest l)
      in if ch = CHR '';'' then Inr (advance 1 (emit TokenAnd '';'' [] (lx_pos l) l))
         else if ch = CHR '','' then Inr (advance 1 (emit TokenOr '','' [] (lx_pos l) l))
         else if ch = CHR ''('' then
           (if lastTokenIsSetOp l then lexValueList l
            else Inr (advance 1 (emit TokenLParen ''('' [] (lx_pos l) l)))
         else if ch = CHR '')'' then Inr (advance 1 (emit TokenRParen '')'' [] (lx_pos l) l))
         else if is_op_start ch then lexOperatorAndValue l
         else if is_quote ch then lexQuotedValue l
         else if isIdentStart ch then Inr (lexField l)
         else Inl (UnexpectedChar ch (lx_pos l)))"

lemmas lexer_defs = mk_token_def emit_def advance_def skipWhitespace_def lastTokenIsSetOp_def
  lexField_def readOperator_def lexQuotedValue_def lexValueList_def lexOperatorAndValue_def
  lex_step_def isIdentStart_def isIdentChar_def isSeparator_def is_quote_def is_op_start_def
  opInText_def opOutText_def

subsection \<open>Every round reads at least one byte\<close>

lemma rest_advance [simp]: "lx_rest (advance n l) = drop n (lx_rest l)"
  and pos_advance [simp]: "lx_pos (advance n l) = lx_pos l + n"
  and tokens_advance [simp]: "lx_tokens (advance n l) = lx_tokens l"
  by (simp_all add: advance_def)

lemma rest_emit [simp]: "lx_rest (emit ty v vs p l) = lx_rest l"
  and pos_emit [simp]: "lx_pos (emit ty v vs p l) = lx_pos l"
  and tokens_emit [simp]: "lx_tokens (emit ty v vs p l) = lx_tokens l @ [mk_token ty v vs p]"
  by (simp_all add: emit_def)

lemma rest_skipWhitespace_le [simp]: "length (lx_rest (skipWhitespace l)) \<le> length (lx_rest l)"
  by (simp add: skipWhitespace_def)

lemma tokens_skipWhitespace [simp]: "lx_tokens (skipWhitespace l) = lx_tokens l"
  by (simp add: skipWhitespace_def)

lemma valueListLoop_shrinks:
  "valueListLoop r p seg start vs = Inr (vs', start', r', p') \<Longrightarrow> length r' < length r"
  by (induction r p seg start vs rule: valueListLoop.induct)
     (auto simp: Let_def less_Suc_eq split: if_splits)

lemma readOperator_shrinks:
  assumes "readOperator l = Inr (op, l')"
  shows "length (lx_rest l') < length (lx_rest l)"
proof -
  from assms have "lx_rest l \<noteq> []" by (auto simp: readOperator_def)
  then have "0 < length (lx_rest l)" by simp
  with assms show ?thesis
    by (auto simp: readOperator_def opInText_def opOutText_def split: list.splits if_splits)
qed

lemma readOperator_tokens: "readOperator l = Inr (op, l') \<Longrightarrow> lx_tokens l' = lx_tokens l"
  by (auto simp: readOperator_def split: list.splits if_splits)

lemma lexQuotedValue_shrinks:
  "lx_rest l \<noteq> [] \<Longrightarrow> lexQuotedValue l = Inr l' \<Longrightarrow> length (lx_rest l') < length (lx_rest l)"
  by (cases "lx_rest l") (auto simp: lexQuotedValue_def Let_def less_Suc_eq_le split: if_splits)

lemma lexValueList_shrinks:
  assumes "lx_rest l \<noteq> []" and "lexValueList l = Inr l'"
  shows "length (lx_rest l') < length (lx_rest l)"
proof -
  from assms(2) obtain vs st r p
    where "valueListLoop (drop 1 (lx_rest l)) (lx_pos l + 1) [] (lx_pos l + 1) [] = Inr (vs, st, r, p)"
      and "lx_rest l' = r"
    by (auto simp: lexValueList_def Let_def split: sum.splits prod.splits)
  then have "length (lx_rest l') < length (drop 1 (lx_rest l))"
    using valueListLoop_shrinks by metis
  then show ?thesis by simp
qed

lemma takeWhile_nonempty_shrinks:
  "takeWhile P xs \<noteq> [] \<Longrightarrow> length (drop (length (takeWhile P xs)) xs) < length xs"
  by (cases xs) (auto simp: less_Suc_eq_le split: if_splits)

lemma lexOperatorAndValue_shrinks:
  assumes "lexOperatorAndValue l = Inr l'"
  shows "length (lx_rest l') < length (lx_rest l)"
proof -
  from assms obtain op l1 where ro: "readOperator l = Inr (op, l1)"
    by (auto simp: lexOperatorAndValue_def split: sum.splits)
  define l3 where "l3 = skipWhitespace (emit TokenOp op [] (lx_pos l) l1)"
  have le: "length (lx_rest l3) \<le> length (lx_rest l1)"
    unfolding l3_def using rest_skipWhitespace_le [of "emit TokenOp op [] (lx_pos l) l1"] by simp
  have "length (lx_rest l') \<le> length (lx_rest l1)"
  proof (cases "op = opInText \<or> op = opOutText")
    case True
    with assms ro show ?thesis by (auto simp: lexOperatorAndValue_def)
  next
    case False
    then obtain ch r where rest: "lx_rest l3 = ch # r"
      using assms ro by (cases "lx_rest l3") (auto simp: lexOperatorAndValue_def l3_def Let_def)
    show ?thesis
    proof (cases "is_quote ch")
      case True
      with assms ro False rest have "lexQuotedValue l3 = Inr l'"
        by (simp add: lexOperatorAndValue_def l3_def Let_def)
      with lexQuotedValue_shrinks [of l3 l'] rest le show ?thesis by simp
    next
      case noquote: False
      define v where "v = takeWhile (\<lambda>c. \<not> isSeparator c) (ch # r)"
      from assms ro False rest noquote have "lx_rest l' = drop (length v) (ch # r)"
        by (auto simp: lexOperatorAndValue_def l3_def v_def Let_def split: if_splits)
      with rest le show ?thesis by simp
    qed
  qed
  with readOperator_shrinks [OF ro] show ?thesis by simp
qed

lemma lex_step_shrinks:
  assumes "lx_rest l \<noteq> []" and "lex_step l = Inr l'"
  shows "length (lx_rest l') < length (lx_rest l)"
proof -
  have field: "length (lx_rest (lexField l)) < length (lx_rest l)" if "isIdentStart (hd (lx_rest l))"
    using that assms(1) by (cases "lx_rest l") (auto simp: lexField_def Let_def isIdentChar_def less_Suc_eq_le)
  from assms field show ?thesis
    by (auto simp: lex_step_def Let_def lexQuotedValue_shrinks lexValueList_shrinks
        lexOperatorAndValue_shrinks split: if_splits)
qed

subsection \<open>The main loop\<close>

function lex :: "Lexer \<Rightarrow> LexError + Lexer" where
  "lex l =
     (let l1 = skipWhitespace l
      in if lx_rest l1 = [] then Inr (emit TokenEOF [] [] (lx_pos l1) l1)
         else (case lex_step l1 of Inl e \<Rightarrow> Inl e | Inr l2 \<Rightarrow> lex l2))"
  by pat_completeness auto
termination
proof (relation "measure (length \<circ> lx_rest)", goal_cases)
  case (2 l l1 l2)
  then show ?case
    using lex_step_shrinks [of l1 l2] rest_skipWhitespace_le [of l]
    by (simp del: rest_skipWhitespace_le)
qed simp

declare lex.simps [simp del]

definition Lex :: "string \<Rightarrow> LexError + Token list" where
  "Lex input =
     (case lex \<lparr>lx_rest = input, lx_pos = 0, lx_tokens = []\<rparr> of
        Inl e \<Rightarrow> Inl e
      | Inr l \<Rightarrow> Inr (lx_tokens l))"

lemmas lex_eval = Lex_def lex.simps lexer_defs go_defs Let_def

section \<open>What the lexer produces\<close>

text \<open>Every round appends tokens, none of them the end marker, and advances the position.\<close>

definition appends :: "Lexer \<Rightarrow> Lexer \<Rightarrow> bool" where
  "appends l l' \<longleftrightarrow>
     (\<exists>ts. lx_tokens l' = lx_tokens l @ ts \<and> (\<forall>t \<in> set ts. tok_Type t \<noteq> TokenEOF))"

lemma appends_refl [simp]: "appends l l"
  by (simp add: appends_def)

lemma appends_trans: "appends a b \<Longrightarrow> appends b c \<Longrightarrow> appends a c"
  unfolding appends_def by (metis append_assoc Un_iff set_append)

lemma appends_emit [simp]: "ty \<noteq> TokenEOF \<Longrightarrow> appends l m \<Longrightarrow> appends l (emit ty v vs p m)"
  by (auto simp: appends_def mk_token_def)

lemma appends_same_tokens [simp]:
  "appends l (advance n m) = appends l m" "appends l (skipWhitespace m) = appends l m"
  "appends l (m\<lparr>lx_rest := r, lx_pos := p\<rparr>) = appends l m"
  by (simp_all add: appends_def)

lemma lexQuotedValue_appends: "lexQuotedValue l = Inr l' \<Longrightarrow> appends l l'"
  by (auto simp: lexQuotedValue_def Let_def split: if_splits)

lemma lexValueList_appends: "lexValueList l = Inr l' \<Longrightarrow> appends l l'"
  by (auto simp: lexValueList_def Let_def split: sum.splits)

lemma readOperator_appends: "readOperator l = Inr (op, l') \<Longrightarrow> appends l l'"
  by (auto simp: appends_def dest: readOperator_tokens)

lemma lexOperatorAndValue_appends:
  assumes "lexOperatorAndValue l = Inr l'" shows "appends l l'"
proof -
  from assms obtain op l1 where ro: "readOperator l = Inr (op, l1)"
    by (auto simp: lexOperatorAndValue_def split: sum.splits)
  define l2 where "l2 = emit TokenOp op [] (lx_pos l) l1"
  have "appends l (skipWhitespace l2)"
    using readOperator_appends [OF ro] by (auto simp: l2_def)
  moreover have "appends l l'" if "lexQuotedValue (skipWhitespace l2) = Inr l'"
    using calculation lexQuotedValue_appends [OF that] by (rule appends_trans)
  ultimately show ?thesis
    using assms ro by (auto simp: lexOperatorAndValue_def l2_def [symmetric] Let_def
        split: list.splits if_splits)
qed

lemma lex_step_appends: "lex_step l = Inr l' \<Longrightarrow> appends l l'"
  by (auto simp: lex_step_def Let_def lexField_def dest: lexValueList_appends lexQuotedValue_appends
      lexOperatorAndValue_appends split: if_splits)

lemma lex_result:
  "lex l = Inr l' \<Longrightarrow> \<exists>ts p. lx_tokens l' = lx_tokens l @ ts @ [mk_token TokenEOF [] [] p] \<and>
     (\<forall>t \<in> set ts. tok_Type t \<noteq> TokenEOF)"
proof (induction l rule: lex.induct)
  case (1 l)
  define l1 where "l1 = skipWhitespace l"
  have same: "lx_tokens l1 = lx_tokens l" by (simp add: l1_def)
  show ?case
  proof (cases "lx_rest l1 = []")
    case True
    with "1.prems" same show ?thesis by (auto simp: lex.simps [of l] l1_def [symmetric] Let_def)
  next
    case False
    then obtain l2 where st: "lex_step l1 = Inr l2" and "lex l2 = Inr l'"
      using "1.prems" by (auto simp: lex.simps [of l] l1_def [symmetric] Let_def split: sum.splits)
    with "1.IH" [OF l1_def False st] lex_step_appends [OF st] same show ?thesis
      by (auto simp: appends_def ball_Un)
  qed
qed

text \<open>
  The lexer always stops, and whenever it accepts the input its token list is a list of
  tokens other than the end marker followed by exactly one end marker: what the parser's
  \<open>peek\<close> relies on.
\<close>

theorem lex_ends_with_eof:
  "Lex input = Inr ts \<Longrightarrow>
     \<exists>body p. ts = body @ [mk_token TokenEOF [] [] p] \<and> (\<forall>t \<in> set body. tok_Type t \<noteq> TokenEOF)"
  unfolding Lex_def using lex_result [of "\<lparr>lx_rest = input, lx_pos = 0, lx_tokens = []\<rparr>"]
  by (fastforce split: sum.splits)

theorem lex_ends_with_eof_witness:
  "\<exists>ts. Lex ''type==note;tag=in=(a, b)'' = Inr ts \<and> map tok_Type ts =
       [TokenField, TokenOp, TokenValue, TokenAnd, TokenField, TokenOp, TokenValues, TokenEOF] \<and>
     (\<exists>body p. ts = body @ [mk_token TokenEOF [] [] p] \<and> (\<forall>t \<in> set body. tok_Type t \<noteq> TokenEOF))"
proof -
  have "\<exists>ts. Lex ''type==note;tag=in=(a, b)'' = Inr ts \<and> map tok_Type ts =
       [TokenField, TokenOp, TokenValue, TokenAnd, TokenField, TokenOp, TokenValues, TokenEOF]"
    by (simp add: lex_eval)
  with lex_ends_with_eof show ?thesis by meson
qed

end
