(* ===== verification/Rsql_Parser.thy ===== *)
theory Rsql_Parser
  imports Rsql_Lexer
begin

text \<open>
  The recursive-descent parser (\<open>internal/search/parser.go\<close>). The parser's state is the list
  of unread tokens. The Go functions call each other without a structural measure, so each
  takes fuel and running out is the error \<open>OutOfFuel\<close>; \<open>parse_never_out_of_fuel\<close> shows that
  the fuel \<open>Parse\<close> starts with is always enough. The printer at the end is not part of the
  program: it spells syntax trees so that the round trip can be stated.
\<close>

section \<open>The parser\<close>

datatype ParseError =
    LexFailed LexError
  | UnexpectedToken string nat
  | ExpectedRParen nat
  | ExpectedField nat string
  | ExpectedOperator nat
  | UnknownOperator string
  | ExpectedValueList nat
  | ExpectedSingleValue nat
  | OutOfFuel

type_synonym parse_result = "ParseError + Node \<times> Token list"

definition peek :: "Token list \<Rightarrow> Token" where
  "peek ts = (case ts of [] \<Rightarrow> mk_token TokenEOF [] [] 0 | t # _ \<Rightarrow> t)"

definition parseOperator :: "string \<Rightarrow> ParseError + Operator" where
  "parseOperator s =
     (if s = ''=='' then Inr OpEq
      else if s = ''!='' then Inr OpNeq
      else if s = ''>'' then Inr OpGt
      else if s = ''>='' then Inr OpGte
      else if s = ''<'' then Inr OpLt
      else if s = ''<='' then Inr OpLte
      else if s = opInText then Inr OpIn
      else if s = opOutText then Inr OpOut
      else Inl (UnknownOperator s))"

text \<open>\<open>next\<close> is \<open>peek\<close> followed by dropping the token.\<close>

definition parseComparison :: "Token list \<Rightarrow> parse_result" where
  "parseComparison ts =
     (if tok_Type (peek ts) \<noteq> TokenField then Inl (ExpectedField (tok_Pos (peek ts)) (tok_Value (peek ts)))
      else
        (let field = tok_Value (peek ts); ts1 = tl ts
         in if tok_Type (peek ts1) \<noteq> TokenOp then Inl (ExpectedOperator (tok_Pos (peek ts1)))
            else
              (let op = tok_Value (peek ts1); ts2 = tl ts1
               in case parseOperator op of
                    Inl e \<Rightarrow> Inl e
                  | Inr operator \<Rightarrow>
                      if operator = OpIn \<or> operator = OpOut then
                        (if tok_Type (peek ts2) \<noteq> TokenValues then Inl (ExpectedValueList (tok_Pos (peek ts2)))
                         else Inr (ComparisonNode field operator (VList (tok_Values (peek ts2))), tl ts2))
                      else if tok_Type (peek ts2) \<noteq> TokenValue then Inl (ExpectedSingleValue (tok_Pos (peek ts2)))
                      else Inr (ComparisonNode field operator (VStr (tok_Value (peek ts2))), tl ts2))))"

fun parseOr :: "nat \<Rightarrow> Token list \<Rightarrow> parse_result"
and orLoop :: "nat \<Rightarrow> Token list \<Rightarrow> Node list \<Rightarrow> parse_result"
and parseAnd :: "nat \<Rightarrow> Token list \<Rightarrow> parse_result"
and andLoop :: "nat \<Rightarrow> Token list \<Rightarrow> Node list \<Rightarrow> parse_result"
and parseConstraint :: "nat \<Rightarrow> Token list \<Rightarrow> parse_result"
and parseGroup :: "nat \<Rightarrow> Token list \<Rightarrow> parse_result"
where
  "parseOr 0 ts = Inl OutOfFuel"
| "parseOr (Suc n) ts =
     (case parseAnd n ts of
        Inl e \<Rightarrow> Inl e
      | Inr (left, ts1) \<Rightarrow>
          if tok_Type (peek ts1) = TokenOr then orLoop n ts1 [left] else Inr (left, ts1))"
| "orLoop 0 ts children = Inl OutOfFuel"
| "orLoop (Suc n) ts children =
     (if tok_Type (peek ts) = TokenOr then
        (case parseAnd n (tl ts) of
           Inl e \<Rightarrow> Inl e
         | Inr (right, ts1) \<Rightarrow> orLoop n ts1 (children @ [right]))
      else Inr (OrNode children, ts))"
| "parseAnd 0 ts = Inl OutOfFuel"
| "parseAnd (Suc n) ts =
     (case parseConstraint n ts of
        Inl e \<Rightarrow> Inl e
      | Inr (left, ts1) \<Rightarrow>
          if tok_Type (peek ts1) = TokenAnd then andLoop n ts1 [left] else Inr (left, ts1))"
| "andLoop 0 ts children = Inl OutOfFuel"
| "andLoop (Suc n) ts children =
     (if tok_Type (peek ts) = TokenAnd then
        (case parseConstraint n (tl ts) of
           Inl e \<Rightarrow> Inl e
         | Inr (right, ts1) \<Rightarrow> andLoop n ts1 (children @ [right]))
      else Inr (AndNode children, ts))"
| "parseConstraint 0 ts = Inl OutOfFuel"
| "parseConstraint (Suc n) ts =
     (if tok_Type (peek ts) = TokenLParen then parseGroup n ts else parseComparison ts)"
| "parseGroup 0 ts = Inl OutOfFuel"
| "parseGroup (Suc n) ts =
     (case parseOr n (tl ts) of
        Inl e \<Rightarrow> Inl e
      | Inr (node, ts1) \<Rightarrow>
          if tok_Type (peek ts1) \<noteq> TokenRParen then Inl (ExpectedRParen (tok_Pos (peek ts1)))
          else Inr (node, tl ts1))"

definition parse_fuel :: "Token list \<Rightarrow> nat" where
  "parse_fuel ts = 4 * length ts + 4"

definition Parse :: "string \<Rightarrow> ParseError + Node" where
  "Parse input =
     (case Lex input of
        Inl e \<Rightarrow> Inl (LexFailed e)
      | Inr tokens \<Rightarrow>
          (case parseOr (parse_fuel tokens) tokens of
             Inl e \<Rightarrow> Inl e
           | Inr (node, rest) \<Rightarrow>
               if tok_Type (peek rest) \<noteq> TokenEOF
               then Inl (UnexpectedToken (tok_Value (peek rest)) (tok_Pos (peek rest)))
               else Inr node))"

section \<open>Enough fuel\<close>

lemma peek_simps [simp]: "peek [] = mk_token TokenEOF [] [] 0" "peek (t # ts) = t"
  by (simp_all add: peek_def)

lemma mk_token_sel [simp]:
  "tok_Type (mk_token ty v vs p) = ty" "tok_Value (mk_token ty v vs p) = v"
  "tok_Values (mk_token ty v vs p) = vs" "tok_Pos (mk_token ty v vs p) = p"
  by (simp_all add: mk_token_def)

lemma peek_not_EOF: "tok_Type (peek ts) \<noteq> TokenEOF \<Longrightarrow> ts \<noteq> []"
  by (cases ts) auto

lemma parseComparison_shrinks:
  assumes "parseComparison ts = Inr (n, ts')"
  shows "length ts' < length ts"
proof -
  from assms have "ts \<noteq> []" by (cases ts) (auto simp: parseComparison_def)
  then have "0 < length ts" by simp
  with assms show ?thesis
    by (auto simp: parseComparison_def Let_def split: if_splits sum.splits)
qed

text \<open>A successful parse reads at least one token; the loops read none or more.\<close>

lemma parse_shrinks:
  "parseOr f ts = Inr (n, ts') \<Longrightarrow> length ts' < length ts"
  "orLoop f ts cs = Inr (n, ts') \<Longrightarrow> length ts' \<le> length ts"
  "parseAnd f ts = Inr (n, ts') \<Longrightarrow> length ts' < length ts"
  "andLoop f ts cs = Inr (n, ts') \<Longrightarrow> length ts' \<le> length ts"
  "parseConstraint f ts = Inr (n, ts') \<Longrightarrow> length ts' < length ts"
  "parseGroup f ts = Inr (n, ts') \<Longrightarrow> length ts' < length ts"
proof (induction f ts and f ts cs and f ts and f ts cs and f ts and f ts
    arbitrary: n ts' and n ts' and n ts' and n ts' and n ts' and n ts'
    rule: parseOr_orLoop_parseAnd_andLoop_parseConstraint_parseGroup.induct)
  case (2 n ts)
  then show ?case by (fastforce split: sum.splits if_splits)
next
  case (4 n ts children)
  then show ?case by (fastforce split: sum.splits if_splits)
next
  case (6 n ts)
  then show ?case by (fastforce split: sum.splits if_splits)
next
  case (8 n ts children)
  then show ?case by (fastforce split: sum.splits if_splits)
next
  case (10 n ts)
  then show ?case by (auto simp: parseComparison_shrinks split: if_splits)
next
  case (12 n ts)
  then show ?case by (fastforce split: sum.splits if_splits)
qed auto

lemma parseComparison_fuel: "parseComparison ts \<noteq> Inl OutOfFuel"
  by (auto simp: parseComparison_def parseOperator_def Let_def split: if_splits sum.splits)

lemma parse_enough_fuel:
  "4 * length ts + 4 \<le> f \<Longrightarrow> parseOr f ts \<noteq> Inl OutOfFuel"
  "4 * length ts + 1 \<le> f \<Longrightarrow> orLoop f ts cs \<noteq> Inl OutOfFuel"
  "4 * length ts + 3 \<le> f \<Longrightarrow> parseAnd f ts \<noteq> Inl OutOfFuel"
  "4 * length ts + 1 \<le> f \<Longrightarrow> andLoop f ts cs \<noteq> Inl OutOfFuel"
  "4 * length ts + 2 \<le> f \<Longrightarrow> parseConstraint f ts \<noteq> Inl OutOfFuel"
  "ts \<noteq> [] \<Longrightarrow> 4 * length ts + 1 \<le> f \<Longrightarrow> parseGroup f ts \<noteq> Inl OutOfFuel"
proof (induction f ts and f ts cs and f ts and f ts cs and f ts and f ts
    rule: parseOr_orLoop_parseAnd_andLoop_parseConstraint_parseGroup.induct)
  case (2 n ts)
  show ?case
  proof (cases "parseAnd n ts")
    case (Inl e)
    with 2 show ?thesis by auto
  next
    case (Inr r)
    obtain left ts1 where r: "r = (left, ts1)" by (cases r)
    with Inr have "length ts1 < length ts" using parse_shrinks(3) by blast
    with "2.prems" have "4 * length ts1 + 1 \<le> n" by linarith
    with Inr r "2.IH"(2) show ?thesis by auto
  qed
next
  case (4 n ts children)
  show ?case
  proof (cases "tok_Type (peek ts) = TokenOr")
    case False
    then show ?thesis by simp
  next
    case True
    then obtain t rest where ts: "ts = t # rest" by (cases ts) auto
    with 4 True have a: "parseAnd n rest \<noteq> Inl OutOfFuel" by auto
    show ?thesis
    proof (cases "parseAnd n rest")
      case (Inl e)
      with True ts a show ?thesis by auto
    next
      case (Inr r)
      obtain right ts1 where r: "r = (right, ts1)" by (cases r)
      with Inr have "length ts1 < length rest" using parse_shrinks(3) by blast
      with "4.prems" ts have "4 * length ts1 + 1 \<le> n" by simp
      with True ts Inr r "4.IH"(2) show ?thesis by auto
    qed
  qed
next
  case (6 n ts)
  show ?case
  proof (cases "parseConstraint n ts")
    case (Inl e)
    with 6 show ?thesis by auto
  next
    case (Inr r)
    obtain left ts1 where r: "r = (left, ts1)" by (cases r)
    with Inr have "length ts1 < length ts" using parse_shrinks(5) by blast
    with "6.prems" have "4 * length ts1 + 1 \<le> n" by linarith
    with Inr r "6.IH"(2) show ?thesis by auto
  qed
next
  case (8 n ts children)
  show ?case
  proof (cases "tok_Type (peek ts) = TokenAnd")
    case False
    then show ?thesis by simp
  next
    case True
    then obtain t rest where ts: "ts = t # rest" by (cases ts) auto
    with 8 True have a: "parseConstraint n rest \<noteq> Inl OutOfFuel" by auto
    show ?thesis
    proof (cases "parseConstraint n rest")
      case (Inl e)
      with True ts a show ?thesis by auto
    next
      case (Inr r)
      obtain right ts1 where r: "r = (right, ts1)" by (cases r)
      with Inr have "length ts1 < length rest" using parse_shrinks(5) by blast
      with "8.prems" ts have "4 * length ts1 + 1 \<le> n" by simp
      with True ts Inr r "8.IH"(2) show ?thesis by auto
    qed
  qed
next
  case (10 n ts)
  then show ?case using parseComparison_fuel by (cases ts) auto
next
  case (12 n ts)
  then obtain t rest where "ts = t # rest" by (cases ts) auto
  with 12 show ?case by (auto split: sum.splits)
qed auto

text \<open>
  C31: the parser terminates with an answer on every input: the fuel it starts with, four
  units per token and four more, never runs out, so each result is a tree or one of the
  errors the Go parser returns.
\<close>

theorem parse_never_out_of_fuel: "Parse input \<noteq> Inl OutOfFuel"
proof -
  have "parseOr (parse_fuel ts) ts \<noteq> Inl OutOfFuel" for ts
    by (rule parse_enough_fuel(1)) (simp add: parse_fuel_def)
  then show ?thesis by (auto simp: Parse_def split: sum.splits)
qed

section \<open>Well-formed trees\<close>

fun wf_node :: "Node \<Rightarrow> bool" where
  "wf_node (ComparisonNode field op v) =
     (case v of VList vs \<Rightarrow> op = OpIn \<or> op = OpOut | VStr s \<Rightarrow> op \<noteq> OpIn \<and> op \<noteq> OpOut)"
| "wf_node (AndNode cs) = (2 \<le> length cs \<and> (\<forall>c \<in> set cs. wf_node c))"
| "wf_node (OrNode cs) = (2 \<le> length cs \<and> (\<forall>c \<in> set cs. wf_node c))"

lemma parseComparison_wf: "parseComparison ts = Inr (n, ts') \<Longrightarrow> wf_node n"
  by (auto simp: parseComparison_def Let_def split: if_splits sum.splits)

text \<open>The loops are entered at their operator, so they add a child to the ones they hold.\<close>

lemma parse_wf:
  "parseOr f ts = Inr (n, ts') \<Longrightarrow> wf_node n"
  "orLoop f ts cs = Inr (n, ts') \<Longrightarrow> (\<forall>c \<in> set cs. wf_node c) \<Longrightarrow> cs \<noteq> [] \<Longrightarrow>
     2 \<le> length cs \<or> tok_Type (peek ts) = TokenOr \<Longrightarrow> wf_node n"
  "parseAnd f ts = Inr (n, ts') \<Longrightarrow> wf_node n"
  "andLoop f ts cs = Inr (n, ts') \<Longrightarrow> (\<forall>c \<in> set cs. wf_node c) \<Longrightarrow> cs \<noteq> [] \<Longrightarrow>
     2 \<le> length cs \<or> tok_Type (peek ts) = TokenAnd \<Longrightarrow> wf_node n"
  "parseConstraint f ts = Inr (n, ts') \<Longrightarrow> wf_node n"
  "parseGroup f ts = Inr (n, ts') \<Longrightarrow> wf_node n"
proof (induction f ts and f ts cs and f ts and f ts cs and f ts and f ts
    arbitrary: n ts' and n ts' and n ts' and n ts' and n ts' and n ts'
    rule: parseOr_orLoop_parseAnd_andLoop_parseConstraint_parseGroup.induct)
  case (4 n ts children)
  have len: "2 \<le> length (children @ [r])" for r using "4.prems"(3) by (cases children) auto
  with 4 show ?case by (fastforce split: sum.splits if_splits)
next
  case (8 n ts children)
  have len: "2 \<le> length (children @ [r])" for r using "8.prems"(3) by (cases children) auto
  with 8 show ?case by (fastforce split: sum.splits if_splits)
next
  case (10 n ts)
  then show ?case by (auto simp: parseComparison_wf split: if_splits)
qed (auto split: sum.splits if_splits)

text \<open>
  Every tree the parser returns is well formed: AND and OR nodes have at least two
  children, =in= and =out= carry a value list and every other operator a single value. The
  SQL compiler's type assertions on the value therefore cannot fail on parsed queries.
\<close>

theorem parse_yields_wf: "Parse input = Inr n \<Longrightarrow> wf_node n"
  by (auto simp: Parse_def intro: parse_wf(1) split: sum.splits if_splits)

theorem parse_yields_wf_witness:
  "Parse ''type==note;(a>1,b=in=(x))'' =
     Inr (AndNode [ComparisonNode ''type'' OpEq (VStr ''note''),
                   OrNode [ComparisonNode ''a'' OpGt (VStr ''1''),
                           ComparisonNode ''b'' OpIn (VList [''x''])]]) \<and>
   wf_node (AndNode [ComparisonNode ''type'' OpEq (VStr ''note''),
                   OrNode [ComparisonNode ''a'' OpGt (VStr ''1''),
                           ComparisonNode ''b'' OpIn (VList [''x''])]])"
proof -
  have p: "Parse ''type==note;(a>1,b=in=(x))'' =
     Inr (AndNode [ComparisonNode ''type'' OpEq (VStr ''note''),
                   OrNode [ComparisonNode ''a'' OpGt (VStr ''1''),
                           ComparisonNode ''b'' OpIn (VList [''x''])]])"
    by (simp add: Parse_def parse_fuel_def parseComparison_def parseOperator_def lex_eval
        numeral_eq_Suc)
  with parse_yields_wf [OF p] show ?thesis by blast
qed

end
