(* ===== verification/Rsql_Roundtrip.thy ===== *)
theory Rsql_Roundtrip
  imports Rsql_Parser
begin

text \<open>
  The lexer and the parser together invert a printer of syntax trees. The printer is the
  specification side: it quotes every value and puts every compound child in parentheses.
  The proof goes through the token list a tree stands for (\<open>ctoks\<close>, tokens without their
  positions): lexing the printed tree yields those tokens, and parsing them yields the tree.
\<close>

section \<open>Printing\<close>

definition ident :: "string \<Rightarrow> bool" where
  "ident s \<longleftrightarrow> s \<noteq> [] \<and> isIdentStart (hd s) \<and> list_all isIdentChar s"

definition list_value :: "string \<Rightarrow> bool" where
  "list_value v \<longleftrightarrow> v \<noteq> [] \<and> TrimSpace v = v \<and> CHR '','' \<notin> set v \<and> CHR '')'' \<notin> set v"

definition quote_for :: "string \<Rightarrow> char" where
  "quote_for s = (if CHR 0x22 \<in> set s then CHR 0x27 else CHR 0x22)"

fun show_value :: "Value \<Rightarrow> string" where
  "show_value (VStr s) = quote_for s # s @ [quote_for s]"
| "show_value (VList vs) = ''('' @ Join vs '','' @ '')''"

definition in_parens :: "'a list \<Rightarrow> 'a list \<Rightarrow> Node \<Rightarrow> 'a list \<Rightarrow> 'a list" where
  "in_parens lp rp c s = (case c of ComparisonNode _ _ _ \<Rightarrow> s | _ \<Rightarrow> lp @ s @ rp)"

fun show_node :: "Node \<Rightarrow> string" where
  "show_node (ComparisonNode f op v) = f @ Operator_String op @ show_value v"
| "show_node (AndNode cs) = Join (map (\<lambda>c. in_parens ''('' '')'' c (show_node c)) cs) '';''"
| "show_node (OrNode cs) = Join (map (\<lambda>c. in_parens ''('' '')'' c (show_node c)) cs) '',''"

fun printable :: "Node \<Rightarrow> bool" where
  "printable (ComparisonNode f op v) =
     (ident f \<and> (case v of VStr s \<Rightarrow> \<not> (CHR 0x22 \<in> set s \<and> CHR 0x27 \<in> set s)
                 | VList vs \<Rightarrow> list_all list_value vs))"
| "printable (AndNode cs) = (\<forall>c \<in> set cs. printable c)"
| "printable (OrNode cs) = (\<forall>c \<in> set cs. printable c)"

section \<open>The tokens of a tree\<close>

type_synonym ctoken = "TokenType \<times> string \<times> string list"

definition core :: "Token \<Rightarrow> ctoken" where
  "core t = (tok_Type t, tok_Value t, tok_Values t)"

abbreviation ctok_lparen :: "ctoken list" where "ctok_lparen \<equiv> [(TokenLParen, ''('', [])]"
abbreviation ctok_rparen :: "ctoken list" where "ctok_rparen \<equiv> [(TokenRParen, '')'', [])]"
abbreviation ctok_and :: "ctoken list" where "ctok_and \<equiv> [(TokenAnd, '';'', [])]"
abbreviation ctok_or :: "ctoken list" where "ctok_or \<equiv> [(TokenOr, '','', [])]"

fun ctoks :: "Node \<Rightarrow> ctoken list" where
  "ctoks (ComparisonNode f op v) =
     [(TokenField, f, []), (TokenOp, Operator_String op, []),
      (case v of VStr s \<Rightarrow> (TokenValue, s, []) | VList vs \<Rightarrow> (TokenValues, [], vs))]"
| "ctoks (AndNode cs) = Join (map (\<lambda>c. in_parens ctok_lparen ctok_rparen c (ctoks c)) cs) ctok_and"
| "ctoks (OrNode cs) = Join (map (\<lambda>c. in_parens ctok_lparen ctok_rparen c (ctoks c)) cs) ctok_or"

lemma core_mk_token [simp]: "core (mk_token ty v vs p) = (ty, v, vs)"
  by (simp add: core_def)

section \<open>Lexing a printed tree\<close>

text \<open>
  \<open>lexes s ts\<close>: from any state that is not waiting for a value list, the loop reads \<open>s\<close> and
  appends tokens that spell \<open>ts\<close>, whatever follows.
\<close>

definition lexes :: "string \<Rightarrow> ctoken list \<Rightarrow> bool" where
  "lexes s ts \<longleftrightarrow>
     (\<forall>l r. lx_rest l = s @ r \<longrightarrow> \<not> lastTokenIsSetOp l \<longrightarrow>
        (\<exists>l'. lex l = lex l' \<and> lx_rest l' = r \<and>
              map core (lx_tokens l') = map core (lx_tokens l) @ ts \<and> \<not> lastTokenIsSetOp l'))"

lemma lexes_Nil [simp]: "lexes [] []"
  unfolding lexes_def by auto

lemma lexes_append:
  assumes "lexes s ts" and "lexes s' ts'"
  shows "lexes (s @ s') (ts @ ts')"
  unfolding lexes_def
proof (intro allI impI)
  fix l r
  assume "lx_rest l = (s @ s') @ r" and "\<not> lastTokenIsSetOp l"
  with assms(1) obtain l1 where l1: "lex l = lex l1" "lx_rest l1 = s' @ r" "\<not> lastTokenIsSetOp l1"
    "map core (lx_tokens l1) = map core (lx_tokens l) @ ts"
    unfolding lexes_def by (metis append_assoc)
  with assms(2) obtain l2 where "lex l1 = lex l2" "lx_rest l2 = r" "\<not> lastTokenIsSetOp l2"
    "map core (lx_tokens l2) = map core (lx_tokens l1) @ ts'"
    unfolding lexes_def by metis
  with l1 show "\<exists>l'. lex l = lex l' \<and> lx_rest l' = r \<and>
      map core (lx_tokens l') = map core (lx_tokens l) @ ts @ ts' \<and> \<not> lastTokenIsSetOp l'"
    by (intro exI [of _ l2]) simp
qed

lemma lexes_concat:
  "(\<And>x. x \<in> set xs \<Longrightarrow> lexes (f x) (g x)) \<Longrightarrow> lexes (concat (map f xs)) (concat (map g xs))"
  by (induction xs) (auto intro: lexes_append)

lemma lexes_Join:
  assumes "\<And>x. x \<in> set xs \<Longrightarrow> lexes (f x) (g x)" and "lexes sep csep"
  shows "lexes (Join (map f xs) sep) (Join (map g xs) csep)"
proof (cases xs)
  case Nil
  then show ?thesis by simp
next
  case (Cons y ys)
  have "lexes (f y @ concat (map (\<lambda>x. sep @ f x) ys)) (g y @ concat (map (\<lambda>x. csep @ g x) ys))"
    using assms Cons by (intro lexes_append lexes_concat) auto
  then show ?thesis using Cons by (simp add: Join_concat comp_def)
qed

text \<open>One round of the loop at a byte that is not white space.\<close>

lemma lex_round:
  assumes "lx_rest l = ch # r" and "\<not> IsSpace_byte ch"
  shows "lex l = (case lex_step l of Inl e \<Rightarrow> Inl e | Inr l' \<Rightarrow> lex l')"
proof -
  have "skipWhitespace l = l"
    using assms by (simp add: skipWhitespace_def advance_def)
  with assms show ?thesis by (simp add: lex.simps [of l] Let_def)
qed

lemma lexes_stepI:
  assumes "\<And>l r. lx_rest l = s @ r \<Longrightarrow> \<not> lastTokenIsSetOp l \<Longrightarrow>
     lex_step l = Inr (advance 1 (emit ty v [] (lx_pos l) l))"
    and "s = [ch]" and "\<not> IsSpace_byte ch" and "ty \<noteq> TokenOp"
  shows "lexes s [(ty, v, [])]"
  unfolding lexes_def
proof (intro allI impI)
  fix l r
  assume l: "lx_rest l = s @ r" "\<not> lastTokenIsSetOp l"
  let ?l = "advance 1 (emit ty v [] (lx_pos l) l)"
  have "lex l = lex ?l" using lex_round [of l ch r] assms l by simp
  moreover have "\<not> lastTokenIsSetOp ?l" using assms(4) by (simp add: lastTokenIsSetOp_def)
  ultimately show "\<exists>l'. lex l = lex l' \<and> lx_rest l' = r \<and>
      map core (lx_tokens l') = map core (lx_tokens l) @ [(ty, v, [])] \<and> \<not> lastTokenIsSetOp l'"
    using l assms(2) by (intro exI [of _ ?l]) simp
qed

lemma lexes_punctuation:
  "lexes '';'' ctok_and" "lexes '','' ctok_or" "lexes ''('' ctok_lparen" "lexes '')'' ctok_rparen"
proof -
  note eval = lex_step_def IsSpace_byte_def byte_def Let_def
  show "lexes '';'' ctok_and" by (rule lexes_stepI [where ch = "CHR '';''"]) (simp_all add: eval)
  show "lexes '','' ctok_or" by (rule lexes_stepI [where ch = "CHR '',''"]) (simp_all add: eval)
  show "lexes ''('' ctok_lparen" by (rule lexes_stepI [where ch = "CHR ''(''"]) (simp_all add: eval)
  show "lexes '')'' ctok_rparen" by (rule lexes_stepI [where ch = "CHR '')''"]) (simp_all add: eval)
qed

subsection \<open>Comparisons\<close>

lemma takeWhile_ident:
  assumes "list_all isIdentChar f" and "\<not> isIdentChar c"
  shows "takeWhile isIdentChar (f @ c # r) = f"
  using assms by (simp add: list_all_iff takeWhile_append2)

lemma ident_start_facts:
  assumes "isIdentStart c"
  shows "\<not> IsSpace_byte c" and "c \<noteq> CHR '';''" and "c \<noteq> CHR '',''" and "c \<noteq> CHR ''(''"
    and "c \<noteq> CHR '')''" and "\<not> is_op_start c" and "\<not> is_quote c"
  using assms by (auto simp: isIdentStart_def byte_class_defs IsSpace_byte_def is_op_start_def is_quote_def)

lemma op_start_facts:
  assumes "is_op_start c"
  shows "\<not> IsSpace_byte c" and "c \<noteq> CHR '';''" and "c \<noteq> CHR '',''" and "c \<noteq> CHR ''(''"
    and "c \<noteq> CHR '')''" and "\<not> isIdentChar c"
  using assms by (auto simp: isIdentChar_def isIdentStart_def byte_class_defs IsSpace_byte_def is_op_start_def)

lemma Operator_String_start: "\<exists>c cs. Operator_String op = c # cs \<and> is_op_start c"
  by (cases op) (auto simp: opInText_def opOutText_def is_op_start_def)

lemma quote_for_quote: "is_quote (quote_for s)"
  by (simp add: quote_for_def is_quote_def)

lemma quote_facts: "is_quote c \<Longrightarrow> \<not> IsSpace_byte c" "is_quote c \<Longrightarrow> c \<noteq> CHR ''=''"
  by (auto simp: is_quote_def IsSpace_byte_def byte_def)

text \<open>The field.\<close>

lemma lex_field:
  assumes "ident f" and "lx_rest l = f @ c # r" and "\<not> isIdentChar c"
  shows "lex l = lex (emit TokenField f [] (lx_pos l) (advance (length f) l))"
proof -
  from assms(1) obtain x xs where f: "f = x # xs" and "isIdentStart x"
    by (cases f) (auto simp: ident_def)
  have name: "takeWhile isIdentChar (lx_rest l) = f"
    using assms takeWhile_ident by (simp add: ident_def)
  have "lex_step l = Inr (lexField l)"
    using f assms(2) ident_start_facts [OF \<open>isIdentStart x\<close>] \<open>isIdentStart x\<close>
    by (simp add: lex_step_def Let_def)
  also have "lexField l = emit TokenField f [] (lx_pos l) (advance (length f) l)"
    by (simp add: lexField_def name Let_def)
  finally show ?thesis
    using lex_round [of l x] f assms(2) ident_start_facts(1) [OF \<open>isIdentStart x\<close>] by simp
qed

text \<open>The operator; a single-value operator is followed by a quote in the printed form.\<close>

lemma readOperator_single:
  assumes "op \<noteq> OpIn" and "op \<noteq> OpOut" and "is_quote q" and "lx_rest l = Operator_String op @ q # r"
  shows "readOperator l = Inr (Operator_String op, advance (length (Operator_String op)) l)"
  using assms quote_facts(2) [OF assms(3)]
  by (cases op) (auto simp: readOperator_def numeral_2_eq_2)

lemma readOperator_set:
  assumes "op = OpIn \<or> op = OpOut" and "lx_rest l = Operator_String op @ r"
  shows "readOperator l = Inr (Operator_String op, advance (length (Operator_String op)) l)"
  using assms by (auto simp: readOperator_def opInText_def opOutText_def numeral_2_eq_2)

lemma Operator_String_set: "Operator_String op \<in> {opInText, opOutText} \<longleftrightarrow> op = OpIn \<or> op = OpOut"
  by (cases op) (auto simp: opInText_def opOutText_def)

lemma lexQuotedValue_quoted:
  assumes "lx_rest l = q # s @ q # r" and "q \<notin> set s"
  shows "lexQuotedValue l =
    Inr (advance 1 (emit TokenValue s [] (lx_pos l + 1) (advance (length s) (advance 1 l))))"
proof -
  have "takeWhile (\<lambda>c. c \<noteq> q) (s @ q # r) = s"
    using assms(2) by (induction s) auto
  with assms(1) show ?thesis by (simp add: lexQuotedValue_def Let_def)
qed

lemma valueListLoop_segment:
  "CHR '','' \<notin> set v \<Longrightarrow> CHR '')'' \<notin> set v \<Longrightarrow>
     valueListLoop (v @ r) p seg st acc = valueListLoop r (p + length v) (seg @ v) st acc"
  by (induction v arbitrary: p seg) (auto simp: Let_def)

lemma valueListLoop_list:
  assumes "list_all list_value (v # vs)"
  shows "\<exists>st' p'. valueListLoop (Join (v # vs) '','' @ CHR '')'' # r) p [] st acc =
           Inr (acc @ v # vs, st', r, p')"
  using assms
proof (induction vs arbitrary: v p st acc)
  case Nil
  then show ?case
    by (auto simp: list_value_def valueListLoop_segment Let_def)
next
  case (Cons w ws)
  then have v: "list_value v" and ws: "list_all list_value (w # ws)" by auto
  from Cons.IH [OF ws, of "p + length v + 1" "p + length v + 1" "acc @ [v]"] v
  show ?case by (simp add: list_value_def valueListLoop_segment Let_def)
qed

lemma lexValueList_list:
  assumes "list_all list_value vs" and "lx_rest l = CHR ''('' # Join vs '','' @ CHR '')'' # r"
  shows "\<exists>st p. lexValueList l =
    Inr (emit TokenValues [] vs st ((advance 1 l)\<lparr>lx_rest := r, lx_pos := p\<rparr>))"
proof -
  have "\<exists>st p. valueListLoop (Join vs '','' @ CHR '')'' # r) (lx_pos l + 1) [] (lx_pos l + 1) [] =
      Inr (vs, st, r, p)"
  proof (cases vs)
    case Nil
    then show ?thesis by (simp add: Let_def)
  next
    case (Cons v vs')
    with valueListLoop_list [of v vs' r "lx_pos l + 1" "lx_pos l + 1" "[]"] assms(1)
    show ?thesis by simp
  qed
  with assms(2) show ?thesis by (force simp: lexValueList_def Let_def)
qed

lemma lexes_comparison_single:
  assumes "ident f" and "op \<noteq> OpIn" and "op \<noteq> OpOut" and "quote_for s \<notin> set s"
  shows "lexes (f @ Operator_String op @ show_value (VStr s))
           [(TokenField, f, []), (TokenOp, Operator_String op, []), (TokenValue, s, [])]"
  unfolding lexes_def
proof (intro allI impI)
  fix l :: Lexer and r :: string
  let ?q = "quote_for s"
  obtain c cs where op: "Operator_String op = c # cs" and c: "is_op_start c"
    using Operator_String_start by blast
  assume l: "lx_rest l = (f @ Operator_String op @ show_value (VStr s)) @ r"
  define l1 where "l1 = emit TokenField f [] (lx_pos l) (advance (length f) l)"
  have "lex l = lex l1"
    unfolding l1_def using assms(1) l op op_start_facts(6) [OF c] by (intro lex_field [of _ _ c]) auto
  have r1: "lx_rest l1 = Operator_String op @ ?q # s @ ?q # r" using l by (simp add: l1_def)
  define l2 where
    "l2 = emit TokenOp (Operator_String op) [] (lx_pos l1) (advance (length (Operator_String op)) l1)"
  have r2: "lx_rest l2 = ?q # s @ ?q # r" using r1 by (simp add: l2_def)
  define l3 where "l3 = advance 1 (emit TokenValue s [] (lx_pos l2 + 1) (advance (length s) (advance 1 l2)))"
  have skip: "skipWhitespace l2 = l2"
    using r2 quote_facts(1) [OF quote_for_quote] by (simp add: skipWhitespace_def advance_def)
  have "lexOperatorAndValue l1 = Inr l3"
    using readOperator_single [OF assms(2,3) quote_for_quote r1] Operator_String_set [of op] assms(2,3)
      skip r2 quote_for_quote [of s] lexQuotedValue_quoted [OF r2 assms(4)]
    by (simp add: lexOperatorAndValue_def l2_def [symmetric] l3_def Let_def)
  then have "lex_step l1 = Inr l3"
    using r1 op c op_start_facts [OF c] by (simp add: lex_step_def Let_def)
  then have "lex l1 = lex l3"
    using lex_round [of l1 c] r1 op op_start_facts(1) [OF c] by simp
  moreover have "lx_rest l3 = r" using r2 by (simp add: l3_def)
  moreover have "lx_tokens l3 = lx_tokens l @ [mk_token TokenField f [] (lx_pos l),
      mk_token TokenOp (Operator_String op) [] (lx_pos l1), mk_token TokenValue s [] (lx_pos l2 + 1)]"
    by (simp add: l3_def l2_def l1_def)
  ultimately show "\<exists>l'. lex l = lex l' \<and> lx_rest l' = r \<and> map core (lx_tokens l') =
      map core (lx_tokens l) @ [(TokenField, f, []), (TokenOp, Operator_String op, []), (TokenValue, s, [])] \<and>
      \<not> lastTokenIsSetOp l'"
    using \<open>lex l = lex l1\<close> by (intro exI [of _ l3]) (simp add: lastTokenIsSetOp_def)
qed

lemma lexes_comparison_set:
  assumes "ident f" and "op = OpIn \<or> op = OpOut" and "list_all list_value vs"
  shows "lexes (f @ Operator_String op @ show_value (VList vs))
           [(TokenField, f, []), (TokenOp, Operator_String op, []), (TokenValues, [], vs)]"
  unfolding lexes_def
proof (intro allI impI)
  fix l :: Lexer and r :: string
  obtain c cs where op: "Operator_String op = c # cs" and c: "is_op_start c"
    using Operator_String_start by blast
  assume l: "lx_rest l = (f @ Operator_String op @ show_value (VList vs)) @ r"
  define l1 where "l1 = emit TokenField f [] (lx_pos l) (advance (length f) l)"
  have "lex l = lex l1"
    unfolding l1_def using assms(1) l op op_start_facts(6) [OF c] by (intro lex_field [of _ _ c]) auto
  have r1: "lx_rest l1 = Operator_String op @ CHR ''('' # Join vs '','' @ CHR '')'' # r"
    using l by (simp add: l1_def)
  define l2 where
    "l2 = emit TokenOp (Operator_String op) [] (lx_pos l1) (advance (length (Operator_String op)) l1)"
  have r2: "lx_rest l2 = CHR ''('' # Join vs '','' @ CHR '')'' # r" using r1 by (simp add: l2_def)
  have "lexOperatorAndValue l1 = Inr l2"
    using readOperator_set [OF assms(2) r1] Operator_String_set [of op] assms(2)
    by (simp add: lexOperatorAndValue_def l2_def Let_def)
  then have "lex_step l1 = Inr l2"
    using r1 op c op_start_facts [OF c] by (simp add: lex_step_def Let_def)
  then have "lex l1 = lex l2"
    using lex_round [of l1 c] r1 op op_start_facts(1) [OF c] by simp
  obtain st p where vl: "lexValueList l2 =
      Inr (emit TokenValues [] vs st ((advance 1 l2)\<lparr>lx_rest := r, lx_pos := p\<rparr>))"
    using lexValueList_list [OF assms(3) r2] by blast
  define l3 where "l3 = emit TokenValues [] vs st ((advance 1 l2)\<lparr>lx_rest := r, lx_pos := p\<rparr>)"
  have "lastTokenIsSetOp l2"
    using Operator_String_set [of op] assms(2) by (simp add: lastTokenIsSetOp_def l2_def)
  then have "lex_step l2 = Inr l3"
    using r2 vl by (simp add: lex_step_def l3_def Let_def)
  then have "lex l2 = lex l3"
    using lex_round [of l2 "CHR ''(''"] r2 by (simp add: IsSpace_byte_def byte_def)
  moreover have "lx_rest l3 = r" by (simp add: l3_def)
  moreover have "lx_tokens l3 = lx_tokens l @ [mk_token TokenField f [] (lx_pos l),
      mk_token TokenOp (Operator_String op) [] (lx_pos l1), mk_token TokenValues [] vs st]"
    by (simp add: l3_def l2_def l1_def)
  ultimately show "\<exists>l'. lex l = lex l' \<and> lx_rest l' = r \<and> map core (lx_tokens l') =
      map core (lx_tokens l) @ [(TokenField, f, []), (TokenOp, Operator_String op, []), (TokenValues, [], vs)] \<and>
      \<not> lastTokenIsSetOp l'"
    using \<open>lex l = lex l1\<close> \<open>lex l1 = lex l2\<close> by (intro exI [of _ l3]) (simp add: lastTokenIsSetOp_def)
qed

lemma quote_for_free: "\<not> (CHR 0x22 \<in> set s \<and> CHR 0x27 \<in> set s) \<Longrightarrow> quote_for s \<notin> set s"
  by (auto simp: quote_for_def)

lemma lexes_in_parens:
  "lexes s ts \<Longrightarrow> lexes (in_parens ''('' '')'' c s) (in_parens ctok_lparen ctok_rparen c ts)"
  unfolding in_parens_def
  by (cases c) (auto simp del: append.simps intro!: lexes_append lexes_punctuation)

lemma lexes_show_node: "wf_node n \<Longrightarrow> printable n \<Longrightarrow> lexes (show_node n) (ctoks n)"
proof (induction n)
  case (ComparisonNode f op v)
  show ?case
  proof (cases v)
    case (VStr s)
    with ComparisonNode lexes_comparison_single [of f op s] quote_for_free [of s]
    show ?thesis by simp
  next
    case (VList vs)
    with ComparisonNode lexes_comparison_set [of f op vs] show ?thesis by simp
  qed
next
  case (AndNode cs)
  then show ?case
    by (auto intro!: lexes_Join lexes_in_parens lexes_punctuation)
next
  case (OrNode cs)
  then show ?case
    by (auto intro!: lexes_Join lexes_in_parens lexes_punctuation)
qed

lemma Lex_show_node:
  assumes "wf_node n" and "printable n"
  obtains body p where "Lex (show_node n) = Inr (body @ [mk_token TokenEOF [] [] p])"
    and "map core body = ctoks n"
proof -
  let ?l = "\<lparr>lx_rest = show_node n, lx_pos = 0, lx_tokens = []\<rparr>"
  have "\<not> lastTokenIsSetOp ?l" by (simp add: lastTokenIsSetOp_def)
  with lexes_show_node [OF assms] obtain l' where "lex ?l = lex l'" and "lx_rest l' = []"
    and "map core (lx_tokens l') = ctoks n"
    unfolding lexes_def by (force dest: spec [of _ ?l] spec [of _ "[]"])
  moreover have "lex l' = Inr (emit TokenEOF [] [] (lx_pos l') l')"
    using \<open>lx_rest l' = []\<close> by (simp add: lex.simps [of l'] skipWhitespace_def advance_def)
  ultimately show ?thesis by (intro that [of "lx_tokens l'" "lx_pos l'"]) (simp_all add: Lex_def)
qed

section \<open>Parsing the tokens of a tree\<close>

text \<open>
  \<open>parses_arg c\<close>: wherever a token list starts with tokens spelling \<open>c\<close> as a child,
  \<open>parseConstraint\<close> reads exactly them and returns \<open>c\<close>. \<open>parses_top n\<close>: \<open>parseOr\<close> reads
  exactly the tokens of \<open>n\<close> when no operator follows.
\<close>

definition parses_arg :: "Node \<Rightarrow> bool" where
  "parses_arg c \<longleftrightarrow>
     (\<forall>ts rest f. map core ts = in_parens ctok_lparen ctok_rparen c (ctoks c) \<longrightarrow>
        4 * length (ts @ rest) + 2 \<le> f \<longrightarrow> parseConstraint f (ts @ rest) = Inr (c, rest))"

definition parses_top :: "Node \<Rightarrow> bool" where
  "parses_top n \<longleftrightarrow>
     (\<forall>ts rest f. map core ts = ctoks n \<longrightarrow> tok_Type (peek rest) \<notin> {TokenAnd, TokenOr} \<longrightarrow>
        4 * length (ts @ rest) + 4 \<le> f \<longrightarrow> parseOr f (ts @ rest) = Inr (n, rest))"

lemma parseOperator_String: "parseOperator (Operator_String op) = Inr op"
  by (cases op) (auto simp: parseOperator_def opInText_def opOutText_def)

lemma map_core_Cons:
  "map core ts = c # cs \<longleftrightarrow> (\<exists>t ts'. ts = t # ts' \<and> core t = c \<and> map core ts' = cs)"
  by (cases ts) auto

lemma core_type: "core t = (ty, v, vs) \<longleftrightarrow> tok_Type t = ty \<and> tok_Value t = v \<and> tok_Values t = vs"
  by (auto simp: core_def)

lemma parseComparison_tokens:
  assumes "wf_node (ComparisonNode f op v)" and "map core ts = ctoks (ComparisonNode f op v)"
  shows "parseComparison (ts @ rest) = Inr (ComparisonNode f op v, rest)"
    and "tok_Type (peek (ts @ rest)) = TokenField"
  using assms
  by (auto simp: parseComparison_def map_core_Cons core_type parseOperator_String Let_def
      split: Value.splits)

lemma parses_arg_comparison:
  assumes "wf_node (ComparisonNode f op v)"
  shows "parses_arg (ComparisonNode f op v)"
  unfolding parses_arg_def
proof (intro allI impI)
  fix ts rest fuel
  assume ts: "map core ts = in_parens ctok_lparen ctok_rparen (ComparisonNode f op v) (ctoks (ComparisonNode f op v))"
    and f: "4 * length (ts @ rest) + 2 \<le> fuel"
  then have "map core ts = ctoks (ComparisonNode f op v)" by (simp add: in_parens_def)
  note c = parseComparison_tokens [OF assms this]
  from f obtain k where "fuel = Suc k" by (cases fuel) auto
  with c show "parseConstraint fuel (ts @ rest) = Inr (ComparisonNode f op v, rest)" by simp
qed

lemma parses_arg_group:
  assumes "parses_top n" and "\<And>f op v. n \<noteq> ComparisonNode f op v"
  shows "parses_arg n"
  unfolding parses_arg_def
proof (intro allI impI)
  fix ts rest f
  assume ts: "map core ts = in_parens ctok_lparen ctok_rparen n (ctoks n)"
    and f: "4 * length (ts @ rest) + 2 \<le> f"
  from ts assms(2) have "map core ts = (TokenLParen, ''('', []) # ctoks n @ ctok_rparen"
    by (cases n) (auto simp: in_parens_def)
  then obtain lp inner rp where t: "ts = lp # inner @ [rp]" and lp: "tok_Type lp = TokenLParen"
    and inner: "map core inner = ctoks n" and rp: "tok_Type rp = TokenRParen"
    by (auto simp: map_core_Cons map_eq_append_conv core_def)
  from f t obtain k where k: "f = Suc (Suc k)" and "4 * length (inner @ rp # rest) + 4 \<le> k"
    by (cases f; cases "f - 1") auto
  with assms(1) inner rp have "parseOr k (inner @ rp # rest) = Inr (n, rp # rest)"
    unfolding parses_top_def by simp
  with t k lp rp show "parseConstraint f (ts @ rest) = Inr (n, rest)" by simp
qed

text \<open>The loops read the remaining children, each after its operator.\<close>

lemma andLoop_children:
  assumes "\<And>c. c \<in> set cs \<Longrightarrow> parses_arg c"
    and "map core ts = concat (map (\<lambda>c. ctok_and @ in_parens ctok_lparen ctok_rparen c (ctoks c)) cs)"
    and "tok_Type (peek rest) \<noteq> TokenAnd" and "4 * length (ts @ rest) + 1 \<le> f"
  shows "andLoop f (ts @ rest) acc = Inr (AndNode (acc @ cs), rest)"
  using assms
proof (induction cs arbitrary: ts acc f)
  case Nil
  then obtain k where "f = Suc k" by (cases f) auto
  with Nil show ?case by simp
next
  case (Cons c cs)
  from Cons.prems(2) obtain t a b where ts: "ts = t # a @ b" and t: "tok_Type t = TokenAnd"
    and a: "map core a = in_parens ctok_lparen ctok_rparen c (ctoks c)"
    and b: "map core b = concat (map (\<lambda>c. ctok_and @ in_parens ctok_lparen ctok_rparen c (ctoks c)) cs)"
    by (auto simp: map_core_Cons core_type map_eq_append_conv)
  from Cons.prems(4) obtain k where k: "f = Suc k" by (cases f) auto
  have "parseConstraint k (a @ b @ rest) = Inr (c, b @ rest)"
    using Cons.prems(1) [of c] a Cons.prems(4) k ts unfolding parses_arg_def by simp
  moreover have "andLoop k (b @ rest) (acc @ [c]) = Inr (AndNode ((acc @ [c]) @ cs), rest)"
    using Cons.prems k ts b by (intro Cons.IH) auto
  ultimately show ?case using ts t k by simp
qed

lemma parseAnd_one:
  assumes "parses_arg c" and "map core ts = in_parens ctok_lparen ctok_rparen c (ctoks c)"
    and "tok_Type (peek rest) \<noteq> TokenAnd" and "4 * length (ts @ rest) + 3 \<le> f"
  shows "parseAnd f (ts @ rest) = Inr (c, rest)"
proof -
  from assms(4) obtain k where "f = Suc k" by (cases f) auto
  with assms show ?thesis by (simp add: parses_arg_def)
qed

lemma orLoop_children:
  assumes "\<And>c. c \<in> set cs \<Longrightarrow> parses_arg c"
    and "map core ts = concat (map (\<lambda>c. ctok_or @ in_parens ctok_lparen ctok_rparen c (ctoks c)) cs)"
    and "tok_Type (peek rest) \<notin> {TokenAnd, TokenOr}" and "4 * length (ts @ rest) + 1 \<le> f"
  shows "orLoop f (ts @ rest) acc = Inr (OrNode (acc @ cs), rest)"
  using assms
proof (induction cs arbitrary: ts acc f)
  case Nil
  then obtain k where "f = Suc k" by (cases f) auto
  with Nil show ?case by simp
next
  case (Cons c cs)
  from Cons.prems(2) obtain t a b where ts: "ts = t # a @ b" and t: "tok_Type t = TokenOr"
    and a: "map core a = in_parens ctok_lparen ctok_rparen c (ctoks c)"
    and b: "map core b = concat (map (\<lambda>c. ctok_or @ in_parens ctok_lparen ctok_rparen c (ctoks c)) cs)"
    by (auto simp: map_core_Cons core_type map_eq_append_conv)
  from Cons.prems(4) obtain k where k: "f = Suc k" by (cases f) auto
  have "tok_Type (peek (b @ rest)) \<noteq> TokenAnd"
    using b Cons.prems(3) by (cases cs) (auto simp: map_core_Cons core_type)
  then have "parseAnd k (a @ b @ rest) = Inr (c, b @ rest)"
    using Cons.prems(1,4) a k ts by (intro parseAnd_one) auto
  moreover have "orLoop k (b @ rest) (acc @ [c]) = Inr (OrNode ((acc @ [c]) @ cs), rest)"
    using Cons.prems k ts b by (intro Cons.IH) auto
  ultimately show ?case using ts t k by simp
qed

lemma parses_top_comparison:
  assumes "wf_node (ComparisonNode f op v)"
  shows "parses_top (ComparisonNode f op v)"
  unfolding parses_top_def
proof (intro allI impI)
  fix ts rest fuel
  assume ts: "map core ts = ctoks (ComparisonNode f op v)"
    and r: "tok_Type (peek rest) \<notin> {TokenAnd, TokenOr}" and f: "4 * length (ts @ rest) + 4 \<le> fuel"
  then obtain k where k: "fuel = Suc k" by (cases fuel) auto
  have "parseAnd k (ts @ rest) = Inr (ComparisonNode f op v, rest)"
    using parses_arg_comparison [OF assms] ts r f k by (intro parseAnd_one) (auto simp: in_parens_def)
  with r k show "parseOr fuel (ts @ rest) = Inr (ComparisonNode f op v, rest)" by simp
qed

lemma parses_top_AndNode:
  assumes "\<And>c. c \<in> set cs \<Longrightarrow> parses_arg c" and "2 \<le> length cs"
  shows "parses_top (AndNode cs)"
  unfolding parses_top_def
proof (intro allI impI)
  fix ts rest f
  assume ts: "map core ts = ctoks (AndNode cs)"
    and r: "tok_Type (peek rest) \<notin> {TokenAnd, TokenOr}" and f: "4 * length (ts @ rest) + 4 \<le> f"
  from assms(2) obtain c1 c2 cs' where cs: "cs = c1 # c2 # cs'"
    by (cases cs; cases "tl cs") auto
  from ts obtain a b where ab: "ts = a @ b" and a: "map core a = in_parens ctok_lparen ctok_rparen c1 (ctoks c1)"
    and b: "map core b = concat (map (\<lambda>c. ctok_and @ in_parens ctok_lparen ctok_rparen c (ctoks c)) (c2 # cs'))"
    by (auto simp: cs Join_concat map_eq_append_conv comp_def simp del: Join.simps)
  from f obtain k where k: "f = Suc (Suc k)" by (cases f; cases "f - 1") auto
  have "parseConstraint k (a @ b @ rest) = Inr (c1, b @ rest)"
    using assms(1) [of c1] cs a f k ab unfolding parses_arg_def by simp
  moreover have "tok_Type (peek (b @ rest)) = TokenAnd"
    using b by (auto simp: map_core_Cons core_type)
  moreover have "andLoop k (b @ rest) [c1] = Inr (AndNode ([c1] @ c2 # cs'), rest)"
    using assms(1) cs b r f k ab by (intro andLoop_children) auto
  ultimately show "parseOr f (ts @ rest) = Inr (AndNode cs, rest)" using r k ab cs by simp
qed

lemma parses_top_OrNode:
  assumes "\<And>c. c \<in> set cs \<Longrightarrow> parses_arg c" and "2 \<le> length cs"
  shows "parses_top (OrNode cs)"
  unfolding parses_top_def
proof (intro allI impI)
  fix ts rest f
  assume ts: "map core ts = ctoks (OrNode cs)"
    and r: "tok_Type (peek rest) \<notin> {TokenAnd, TokenOr}" and f: "4 * length (ts @ rest) + 4 \<le> f"
  from assms(2) obtain c1 c2 cs' where cs: "cs = c1 # c2 # cs'"
    by (cases cs; cases "tl cs") auto
  from ts obtain a b where ab: "ts = a @ b" and a: "map core a = in_parens ctok_lparen ctok_rparen c1 (ctoks c1)"
    and b: "map core b = concat (map (\<lambda>c. ctok_or @ in_parens ctok_lparen ctok_rparen c (ctoks c)) (c2 # cs'))"
    by (auto simp: cs Join_concat map_eq_append_conv comp_def simp del: Join.simps)
  from f obtain k where k: "f = Suc k" by (cases f) auto
  have o: "tok_Type (peek (b @ rest)) = TokenOr"
    using b by (auto simp: map_core_Cons core_type)
  then have "parseAnd k (a @ b @ rest) = Inr (c1, b @ rest)"
    using assms(1) cs a f k ab by (intro parseAnd_one) auto
  moreover have "orLoop k (b @ rest) [c1] = Inr (OrNode ([c1] @ c2 # cs'), rest)"
    using assms(1) cs b r f k ab by (intro orLoop_children) auto
  ultimately show "parseOr f (ts @ rest) = Inr (OrNode cs, rest)" using o k ab cs by simp
qed

lemma parses_wf: "wf_node n \<Longrightarrow> parses_arg n \<and> parses_top n"
proof (induction n)
  case (ComparisonNode f op v)
  then show ?case by (simp add: parses_arg_comparison parses_top_comparison del: wf_node.simps)
next
  case (AndNode cs)
  then have "parses_top (AndNode cs)" by (intro parses_top_AndNode) auto
  then show ?case by (simp add: parses_arg_group)
next
  case (OrNode cs)
  then have "parses_top (OrNode cs)" by (intro parses_top_OrNode) auto
  then show ?case by (simp add: parses_arg_group)
qed

section \<open>The round trip\<close>

text \<open>
  C30: parsing inverts printing. Every well-formed tree whose field names are identifiers,
  whose single values do not mix both quote characters and whose list values are non-empty,
  trimmed and free of commas and closing parentheses is recovered exactly by \<open>Parse\<close> from
  its printed form, whatever its nesting. The grammar \<open>a;b\<close> binds tighter than \<open>a,b\<close> and
  parentheses group.
\<close>

theorem parse_show_roundtrip:
  assumes "wf_node n" and "printable n"
  shows "Parse (show_node n) = Inr n"
proof -
  obtain body p where lx: "Lex (show_node n) = Inr (body @ [mk_token TokenEOF [] [] p])"
    and body: "map core body = ctoks n"
    using Lex_show_node [OF assms] .
  let ?eof = "[mk_token TokenEOF [] [] p]"
  have "parseOr (parse_fuel (body @ ?eof)) (body @ ?eof) = Inr (n, ?eof)"
    using parses_wf [OF assms(1)] body unfolding parses_top_def by (simp add: parse_fuel_def)
  with lx show ?thesis by (simp add: Parse_def)
qed

theorem parse_show_roundtrip_witness:
  "let n = OrNode [AndNode [ComparisonNode ''type'' OpEq (VStr ''contact''),
                            ComparisonNode ''tag'' OpIn (VList [''work'', ''client''])],
                   ComparisonNode ''created_at'' OpGte (VStr ''2024-01-01'')]
   in wf_node n \<and> printable n \<and> Parse (show_node n) = Inr n"
proof -
  let ?n = "OrNode [AndNode [ComparisonNode ''type'' OpEq (VStr ''contact''),
                            ComparisonNode ''tag'' OpIn (VList [''work'', ''client''])],
                   ComparisonNode ''created_at'' OpGte (VStr ''2024-01-01'')]"
  have wf: "wf_node ?n" by simp
  have pr: "printable ?n"
    by (simp add: ident_def list_value_def isIdentStart_def isIdentChar_def go_defs)
  show ?thesis using wf pr parse_show_roundtrip [OF wf pr] by (simp only: Let_def)
qed

end
