(* ===== verification/Object_Model.thy ===== *)
theory Object_Model
  imports Go_Prelude
begin

text \<open>
  The data every other component works on: knowledge objects and their graphs
  (\<open>internal/storage/types.go\<close>), content classes (\<open>internal/storage/classes.go\<close>), node
  identity (\<open>internal/storage/node_identity.go\<close>), mention provenance
  (\<open>internal/storage/mention_provenance.go\<close>), the list filter's closed SQL choices and
  blob references.

  Representation. A Go \<open>any\<close> that came from JSON or from a pipeline step is a
  \<open>gval\<close>. A \<open>float64\<close> is kept as its JSON text, since no modelled function computes with
  one. An instant is a number of nanoseconds from Go's zero time, so \<open>IsZero\<close> is equality
  with 0 and \<open>UTC()\<close> changes nothing. A \<open>uri.URI\<close> (a third-party type) is kept as what
  its \<open>String()\<close> returns, the only thing the modelled code reads from it. A nil pointer is
  \<open>None\<close>.
\<close>

section \<open>Values, objects, graphs\<close>

datatype gval =
    GNil
  | GBool bool
  | GNum string
  | GStr string
  | GStrs "string list"
  | GArr "gval list"
  | GObj "(string \<times> gval) list"

type_synonym metadata = "(string \<times> gval) list"
type_synonym time = int
type_synonym float64 = string

abbreviation meta_get :: "metadata \<Rightarrow> string \<Rightarrow> gval" where
  "meta_get m k \<equiv> (case map_of m k of None \<Rightarrow> GNil | Some v \<Rightarrow> v)"

text \<open>A type assertion \<open>v.(string)\<close> and its ok flag.\<close>

definition as_string :: "gval \<Rightarrow> string option" where
  "as_string v = (case v of GStr s \<Rightarrow> Some s | _ \<Rightarrow> None)"

record Section =
  sec_Title :: string
  sec_Content :: string
  sec_Order :: int
  sec_Metadata :: metadata

record Tag =
  tag_Label :: string
  tag_Weight :: float64
  tag_Source :: string

record Decision =
  dec_Title :: string
  dec_Status :: string
  dec_Impact :: string

record Task =
  task_Title :: string
  task_Status :: string

record GraphNode =
  node_ID :: string
  node_NodeType :: string
  node_Label :: string
  node_Content :: string
  node_Order :: int
  node_Metadata :: metadata

record GraphEdge =
  gedge_ID :: string
  gedge_FromID :: string
  gedge_ToID :: string
  gedge_EdgeType :: string
  gedge_Weight :: float64

record ObjectGraph =
  graph_Nodes :: "GraphNode list"
  graph_Edges :: "GraphEdge list"

record KnowledgeObject =
  ko_ID :: string
  ko_Type :: string
  ko_Subtype :: string
  ko_RawContent :: string
  ko_TextContent :: string
  ko_ContentType :: string
  ko_Metadata :: metadata
  ko_Summaries :: "string list"
  ko_Sections :: "Section list"
  ko_Tags :: "Tag list"
  ko_Mentions :: "string list"
  ko_Decisions :: "Decision list"
  ko_Tasks :: "Task list"
  ko_Vectors :: "gval list"
  ko_Pipeline :: string
  ko_Source :: string
  ko_RegistryInfluences :: "string list"
  ko_ContentHash :: string
  ko_SourceKey :: string
  ko_Status :: string
  ko_InboxNote :: string
  ko_ReinforcementCount :: int
  ko_LastReinforcedAt :: "time option"
  ko_RemindAt :: "time option"
  ko_RemindedAt :: "time option"
  ko_CreatedAt :: time
  ko_UpdatedAt :: time
  ko_FTSIndexed :: bool
  ko_ProfileID :: string
  ko_Classes :: "string list"
  ko_AttachmentIDs :: "string list"
  ko_Graph :: "ObjectGraph option"
  ko_ChangeSeq :: int
  ko_BlobContent :: "(string \<times> string) list"

text \<open>The zero value of the struct, which \<open>&storage.KnowledgeObject{...}\<close> starts from.\<close>

definition zero_object :: KnowledgeObject where
  "zero_object = \<lparr>ko_ID = [], ko_Type = [], ko_Subtype = [], ko_RawContent = [],
     ko_TextContent = [], ko_ContentType = [], ko_Metadata = [], ko_Summaries = [],
     ko_Sections = [], ko_Tags = [], ko_Mentions = [], ko_Decisions = [], ko_Tasks = [],
     ko_Vectors = [], ko_Pipeline = [], ko_Source = [], ko_RegistryInfluences = [],
     ko_ContentHash = [], ko_SourceKey = [], ko_Status = [], ko_InboxNote = [],
     ko_ReinforcementCount = 0, ko_LastReinforcedAt = None, ko_RemindAt = None,
     ko_RemindedAt = None, ko_CreatedAt = 0, ko_UpdatedAt = 0, ko_FTSIndexed = False,
     ko_ProfileID = [], ko_Classes = [], ko_AttachmentIDs = [], ko_Graph = None,
     ko_ChangeSeq = 0, ko_BlobContent = []\<rparr>"

definition FindNode :: "ObjectGraph option \<Rightarrow> string \<Rightarrow> GraphNode option" where
  "FindNode g i = (case g of None \<Rightarrow> None | Some og \<Rightarrow> find (\<lambda>n. node_ID n = i) (graph_Nodes og))"

section \<open>Content classes\<close>

definition ClassPersonal :: string where
  "ClassPersonal = ''personal''"

definition ClassContactDetails :: string where
  "ClassContactDetails = ''contact_details''"

definition NodeMetadataClasses :: string where
  "NodeMetadataClasses = ''classes''"

text \<open>\<open>classNamePattern\<close>: \<open>^[a-z][a-z0-9_-]{0,63}$\<close>.\<close>

definition class_char :: "char \<Rightarrow> bool" where
  "class_char c \<longleftrightarrow> is_lower c \<or> is_digit c \<or> c = CHR ''_'' \<or> c = CHR ''-''"

definition ValidateClassName :: "string \<Rightarrow> bool" where
  "ValidateClassName name \<longleftrightarrow>
     (case name of [] \<Rightarrow> False
      | c # cs \<Rightarrow> is_lower c \<and> length cs \<le> 63 \<and> list_all class_char cs)"

definition NormalizeClasses :: "string list \<Rightarrow> string list" where
  "NormalizeClasses classes =
     Compact (sort (filter (\<lambda>c. c \<noteq> []) (map TrimSpace classes)))"

definition NodeClasses :: "GraphNode \<Rightarrow> string list" where
  "NodeClasses n =
     (case meta_get (node_Metadata n) NodeMetadataClasses of
        GStrs v \<Rightarrow> NormalizeClasses v
      | GArr v \<Rightarrow> NormalizeClasses (List.map_filter as_string v)
      | _ \<Rightarrow> [])"

definition SetNodeClasses :: "GraphNode \<Rightarrow> string list \<Rightarrow> GraphNode" where
  "SetNodeClasses n classes =
     (let norm = NormalizeClasses classes
      in if norm = [] then n\<lparr>node_Metadata := AList.delete NodeMetadataClasses (node_Metadata n)\<rparr>
         else n\<lparr>node_Metadata := AList.update NodeMetadataClasses (GStrs norm) (node_Metadata n)\<rparr>)"

subsection \<open>Normalised class lists\<close>

lemma set_NormalizeClasses:
  "set (NormalizeClasses cs) = {c. c \<noteq> [] \<and> (\<exists>x \<in> set cs. c = TrimSpace x)}"
  by (auto simp: NormalizeClasses_def Compact_def)

lemma NormalizeClasses_strict: "sorted_wrt (<) (NormalizeClasses cs)"
  unfolding NormalizeClasses_def Compact_def by (intro sorted_remdups_adj_strict) simp

lemma NormalizeClasses_distinct [simp]: "distinct (NormalizeClasses cs)"
  using NormalizeClasses_strict strict_sorted_iff by blast

lemma Nil_notin_NormalizeClasses [simp]: "[] \<notin> set (NormalizeClasses cs)"
  by (simp add: set_NormalizeClasses)

lemma NormalizeClasses_Nil [simp]: "NormalizeClasses [] = []"
  by (simp add: NormalizeClasses_def Compact_def)

text \<open>The result depends on the set of trimmed names alone.\<close>

lemma NormalizeClasses_cong:
  "TrimSpace ` set as \<union> {[]} = TrimSpace ` set bs \<union> {[]} \<Longrightarrow> NormalizeClasses as = NormalizeClasses bs"
  by (rule strict_sorted_unique) (auto simp: NormalizeClasses_strict set_NormalizeClasses)

lemma class_char_printable: "class_char c \<Longrightarrow> byte_in 33 126 c"
  by (auto simp: class_char_def byte_class_defs)

lemma ValidateClassName_printable:
  assumes "ValidateClassName c"
  shows "c \<noteq> [] \<and> (\<forall>x \<in> set c. byte_in 33 126 x)"
proof -
  from assms obtain x xs where c: "c = x # xs" and "is_lower x" and "list_all class_char xs"
    by (auto simp: ValidateClassName_def split: list.splits)
  then have "byte_in 33 126 x" by (auto simp: byte_class_defs)
  with c \<open>list_all class_char xs\<close> show ?thesis
    by (auto simp: list_all_iff class_char_printable)
qed

lemma ValidateClassName_trim:
  assumes "ValidateClassName c" shows "TrimSpace c = c"
  using ValidateClassName_printable [OF assms] by (intro TrimSpace_id) auto

lemma set_NormalizeClasses_valid:
  "list_all ValidateClassName cs \<Longrightarrow> set (NormalizeClasses cs) = set cs"
  using ValidateClassName_trim ValidateClassName_printable
  by (fastforce simp: set_NormalizeClasses list_all_iff)

lemma NodeClasses_SetNodeClasses:
  "list_all ValidateClassName cs \<Longrightarrow> set (NodeClasses (SetNodeClasses n cs)) = set cs"
proof -
  assume v: "list_all ValidateClassName cs"
  then have norm: "set (NormalizeClasses cs) = set cs" by (rule set_NormalizeClasses_valid)
  with v have "list_all ValidateClassName (NormalizeClasses cs)" by (simp add: list_all_iff)
  then have "set (NormalizeClasses (NormalizeClasses cs)) = set (NormalizeClasses cs)"
    by (rule set_NormalizeClasses_valid)
  with norm show ?thesis
    by (auto simp: NodeClasses_def SetNodeClasses_def Let_def delete_conv update_conv)
qed

section \<open>Node identity\<close>

definition NodeTypeSection :: string where
  "NodeTypeSection = ''section''"

definition NodeTypeTag :: string where
  "NodeTypeTag = ''tag''"

definition NodeTypeEntityMention :: string where
  "NodeTypeEntityMention = ''entity_mention''"

definition NodeTypeSummary :: string where
  "NodeTypeSummary = ''summary''"

record NodeRef =
  ref_ObjectID :: string
  ref_NodeType :: string
  ref_Ordinal :: int

text \<open>\<open>strings.SplitN\<close> at a one-byte separator, for a positive limit.\<close>

fun SplitN :: "string \<Rightarrow> char \<Rightarrow> nat \<Rightarrow> string list" where
  "SplitN s sep 0 = []"
| "SplitN s sep (Suc 0) = [s]"
| "SplitN s sep (Suc (Suc n)) =
     (if sep \<in> set s then Cut_before sep s # SplitN (Cut_after sep s) sep (Suc n) else [s])"

text \<open>
  \<open>strconv.Atoi\<close>: an optional sign and at least one decimal digit, within the range of a
  64-bit int; anything else is an error.
\<close>

definition digits_value :: "string \<Rightarrow> int" where
  "digits_value ds = foldl (\<lambda>a d. 10 * a + (byte d - 48)) 0 ds"

definition Atoi :: "string \<Rightarrow> int option" where
  "Atoi s =
     (let neg = (s \<noteq> [] \<and> hd s = CHR ''-'');
          ds = (case s of [] \<Rightarrow> [] | c # t \<Rightarrow> if c = CHR ''-'' \<or> c = CHR ''+'' then t else s);
          v = (if neg then - digits_value ds else digits_value ds)
      in if ds \<noteq> [] \<and> list_all is_digit ds \<and> - (2 ^ 63) \<le> v \<and> v < 2 ^ 63 then Some v else None)"

definition Itoa :: "int \<Rightarrow> string" where
  "Itoa i = (if i < 0 then CHR ''-'' # itoa (nat (- i)) else itoa (nat i))"

text \<open>\<open>NewNodeID\<close> and \<open>NodeURI\<close> panic on a programmer error; \<open>None\<close> is the panic.\<close>

definition NewNodeID :: "string \<Rightarrow> string \<Rightarrow> int \<Rightarrow> string option" where
  "NewNodeID objectID nodeType ordinal =
     (if objectID = [] \<or> nodeType = [] then None
      else if Contains objectID ''/'' then None
      else if ordinal < 0 then None
      else Some (objectID @ ''/'' @ nodeType @ ''/'' @ Itoa ordinal))"

definition ParseNodeID :: "string \<Rightarrow> NodeRef option" where
  "ParseNodeID i =
     (case SplitN i (CHR ''/'') 3 of
        [o', t, ordtext] \<Rightarrow>
          (case Atoi ordtext of
             None \<Rightarrow> None
           | Some ord \<Rightarrow>
               (if o' = [] \<or> t = [] then None
                else if ord < 0 then None
                else Some \<lparr>ref_ObjectID = o', ref_NodeType = t, ref_Ordinal = ord\<rparr>))
      | _ \<Rightarrow> None)"

definition node_uri_prefix :: string where
  "node_uri_prefix = ''ctxt:node/''"

definition NodeURI :: "string \<Rightarrow> string \<Rightarrow> int \<Rightarrow> string option" where
  "NodeURI objectID nodeType ordinal =
     (if objectID = [] \<or> nodeType = [] then None
      else if Contains objectID ''/'' then None
      else if ordinal < 0 then None
      else Some (node_uri_prefix @ objectID @ ''/'' @ nodeType @ ''/'' @ Itoa ordinal))"

definition ParseNodeURI :: "string \<Rightarrow> NodeRef option" where
  "ParseNodeURI uri =
     (if \<not> HasPrefix uri node_uri_prefix then None else ParseNodeID (TrimPrefix uri node_uri_prefix))"

subsection \<open>Decimal round trip\<close>

lemma digits_value_snoc: "digits_value (ds @ [d]) = 10 * digits_value ds + (byte d - 48)"
  by (simp add: digits_value_def)

lemma digits_value_itoa: "digits_value (itoa n) = int n"
proof (induction n rule: itoa.induct)
  case (1 n)
  show ?case
  proof (cases "n < 10")
    case True
    then show ?thesis
      by (subst itoa.simps) (simp add: digits_value_def byte_char_of_digit)
  next
    case False
    then have "digits_value (itoa (n div 10)) = int (n div 10)" using 1 by simp
    with False show ?thesis
      by (subst itoa.simps) (simp add: digits_value_snoc byte_char_of_digit zdiv_int zmod_int)
  qed
qed

lemma sign_not_digit: "\<not> is_digit (CHR ''-'')" "\<not> is_digit (CHR ''+'')" "\<not> is_digit (CHR ''/'')"
  by (simp_all add: byte_class_defs)

lemma Atoi_itoa:
  assumes "int n < 2 ^ 63"
  shows "Atoi (itoa n) = Some (int n)"
proof -
  obtain c t where ct: "itoa n = c # t" using itoa_not_Nil by (cases "itoa n") auto
  then have "is_digit c" using itoa_digits [of c n] by simp
  then have "c \<noteq> CHR ''-''" and "c \<noteq> CHR ''+''" using sign_not_digit by auto
  moreover have "list_all is_digit (itoa n)" using itoa_digits by (auto simp: list_all_iff)
  ultimately show ?thesis
    using ct assms digits_value_itoa [of n] by (simp add: Atoi_def Let_def)
qed

lemma Cut_before_append: "sep \<notin> set s \<Longrightarrow> Cut_before sep (s @ sep # t) = s"
  by (auto simp: Cut_before_def takeWhile_tail)

lemma Cut_after_append: "sep \<notin> set s \<Longrightarrow> Cut_after sep (s @ sep # t) = t"
  by (simp add: Cut_after_def Cut_before_append)

lemma Contains_slash: "Contains s [c] \<longleftrightarrow> c \<in> set s"
  by (auto simp: Contains_iff in_set_conv_decomp)

section \<open>Mention provenance\<close>

definition ProvenanceSourceField :: string where
  "ProvenanceSourceField = ''source_field''"

definition ProvenanceSourceNode :: string where
  "ProvenanceSourceNode = ''source_node''"

definition MentionSourceMentions :: string where
  "MentionSourceMentions = ''mentions''"

definition MentionNode :: "ObjectGraph option \<Rightarrow> string \<Rightarrow> GraphNode option" where
  "MentionNode g mention =
     (case g of None \<Rightarrow> None
      | Some og \<Rightarrow> find (\<lambda>n. node_NodeType n = NodeTypeEntityMention \<and> node_Label n = mention) (graph_Nodes og))"

definition MentionProvenance :: "ObjectGraph option \<Rightarrow> string \<Rightarrow> metadata" where
  "MentionProvenance g mention =
     (case MentionNode g mention of
        None \<Rightarrow> [(ProvenanceSourceNode, GStr []), (ProvenanceSourceField, GStr MentionSourceMentions)]
      | Some node \<Rightarrow>
          (let field = (case as_string (meta_get (node_Metadata node) ProvenanceSourceField) of
                          None \<Rightarrow> [] | Some s \<Rightarrow> s);
               field' = (if field = [] then MentionSourceMentions else field)
           in [(ProvenanceSourceNode, GStr (node_ID node)), (ProvenanceSourceField, GStr field')]))"

section \<open>Object filters\<close>

definition ObjectStatusActive :: string where
  "ObjectStatusActive = ''active''"

definition ObjectStatusAll :: string where
  "ObjectStatusAll = ''all''"

text \<open>\<open>ObjectFilter\<close>: the members \<open>StatusScope\<close> and \<open>ListOrder\<close> read.\<close>

record ObjectFilter =
  f_ProfileID :: string
  f_Limit :: int
  f_Offset :: int
  f_Sort :: string
  f_Dir :: string
  f_Status :: string
  f_ChangedAfter :: "int option"

definition StatusScope :: "ObjectFilter \<Rightarrow> string option" where
  "StatusScope f =
     (if f_Status f = [] then Some ObjectStatusActive
      else if f_Status f = ObjectStatusAll then None
      else Some (f_Status f))"

definition ListOrder :: "ObjectFilter \<Rightarrow> string" where
  "ListOrder f =
     (if f_ChangedAfter f \<noteq> None then ''change_seq ASC''
      else (let sortCol = (if f_Sort f = ''updated_at'' then ''updated_at'' else ''created_at'');
                dir = (if f_Dir f = ''asc'' then ''ASC'' else ''DESC'')
            in sortCol @ '' '' @ dir))"

definition OwnerPrincipal :: string where
  "OwnerPrincipal = ''owner''"

definition PrincipalKindOwner :: string where
  "PrincipalKindOwner = ''owner''"

definition PrincipalOrOwner :: "string \<Rightarrow> string" where
  "PrincipalOrOwner p = (if p = [] then OwnerPrincipal else p)"

section \<open>Blob references and LIKE patterns\<close>

definition blob_Prefix :: string where
  "blob_Prefix = ''blob://''"

definition blobref_Is :: "string \<Rightarrow> bool" where
  "blobref_Is s \<longleftrightarrow> HasPrefix s blob_Prefix \<and> length s > length blob_Prefix"

definition blobref_Key :: "string \<Rightarrow> string option" where
  "blobref_Key s = (if \<not> blobref_Is s then None else Some (drop (length blob_Prefix) s))"

definition blobref_For :: "string \<Rightarrow> string" where
  "blobref_For key = blob_Prefix @ key"

text \<open>\<open>likeEscaper\<close>: one pass over the text, so an inserted backslash is not escaped again.\<close>

definition likeEscape :: "string \<Rightarrow> string" where
  "likeEscape s = concat (map (\<lambda>c. if c \<in> {CHR 0x5C, CHR ''%'', CHR ''_''} then [CHR 0x5C, c] else [c]) s)"

definition ContainsPattern :: "string \<Rightarrow> string" where
  "ContainsPattern q = ''%'' @ likeEscape (ToLower q) @ ''%''"


section \<open>Properties\<close>

lemma SplitN_node_id:
  assumes "CHR ''/'' \<notin> set a" and "CHR ''/'' \<notin> set b"
  shows "SplitN (a @ CHR ''/'' # b @ CHR ''/'' # c) (CHR ''/'') 3 = [a, b, c]"
  using assms by (simp add: numeral_3_eq_3 Cut_before_append Cut_after_append)

lemma SplitN_node_id_deep:
  assumes "CHR ''/'' \<notin> set a" and "CHR ''/'' \<in> set b"
  obtains b1 b2 where
    "SplitN (a @ CHR ''/'' # b @ CHR ''/'' # c) (CHR ''/'') 3 = [a, b1, b2 @ CHR ''/'' # c]"
proof -
  from assms(2) obtain b1 b2 where b: "b = b1 @ CHR ''/'' # b2" and "CHR ''/'' \<notin> set b1"
    by (meson split_list_first)
  then have "SplitN (a @ CHR ''/'' # b @ CHR ''/'' # c) (CHR ''/'') 3 = [a, b1, b2 @ CHR ''/'' # c]"
    using assms(1) SplitN_node_id [of a b1 "b2 @ CHR ''/'' # c"] by simp
  then show ?thesis by (rule that)
qed

lemma NewNodeID_SomeD:
  "NewNodeID obj t n = Some i \<Longrightarrow>
     obj \<noteq> [] \<and> t \<noteq> [] \<and> CHR ''/'' \<notin> set obj \<and> 0 \<le> n \<and> i = obj @ CHR ''/'' # t @ CHR ''/'' # itoa (nat n)"
  by (auto simp: NewNodeID_def Itoa_def Contains_slash split: if_splits)

text \<open>
  Node identifiers round-trip exactly when the node type has no slash. Whatever
  \<open>NewNodeID\<close> builds (it does not panic) for an ordinal in the range of a 64-bit int parses
  back with \<open>ParseNodeID\<close> to the same object, type and ordinal if the type holds no slash,
  and is rejected by \<open>ParseNodeID\<close> if it holds one.
\<close>

theorem node_id_roundtrip:
  assumes "NewNodeID obj t n = Some i" and "n < 2 ^ 63"
  shows "ParseNodeID i =
    (if CHR ''/'' \<in> set t then None
     else Some \<lparr>ref_ObjectID = obj, ref_NodeType = t, ref_Ordinal = n\<rparr>)"
proof (cases "CHR ''/'' \<in> set t")
  case False
  note new = NewNodeID_SomeD [OF assms(1)]
  then have "Atoi (itoa (nat n)) = Some n" using Atoi_itoa [of "nat n"] assms(2) by simp
  with False new show ?thesis by (simp add: ParseNodeID_def SplitN_node_id)
next
  case True
  note new = NewNodeID_SomeD [OF assms(1)]
  then obtain b1 b2 where sp: "SplitN i (CHR ''/'') 3 = [obj, b1, b2 @ CHR ''/'' # itoa (nat n)]"
    using SplitN_node_id_deep [of obj t "itoa (nat n)"] True by metis
  have "Atoi (b2 @ CHR ''/'' # itoa (nat n)) = None"
    by (cases b2) (auto simp: Atoi_def Let_def sign_not_digit)
  with sp True show ?thesis by (simp add: ParseNodeID_def)
qed

theorem node_id_roundtrip_witness:
  "NewNodeID ''obj1'' ''section'' 12 = Some ''obj1/section/12'' \<and>
   ParseNodeID ''obj1/section/12'' =
     Some \<lparr>ref_ObjectID = ''obj1'', ref_NodeType = ''section'', ref_Ordinal = 12\<rparr>"
proof -
  have h: "NewNodeID ''obj1'' ''section'' 12 = Some ''obj1/section/12''" by code_simp
  show ?thesis using h node_id_roundtrip [OF h] by simp
qed

text \<open>
  \<open>NormalizeClasses\<close> returns the distinct non-empty trimmed names in strictly ascending
  order, adds and loses no name, does nothing to a list it already returned for valid class
  names, and \<open>NodeClasses\<close> reads back what \<open>SetNodeClasses\<close> wrote for valid names.
\<close>

theorem normalize_classes_canonical:
  "sorted_wrt (<) (NormalizeClasses cs) \<and>
   set (NormalizeClasses cs) = {c. c \<noteq> [] \<and> (\<exists>x \<in> set cs. c = TrimSpace x)} \<and>
   (list_all ValidateClassName cs \<longrightarrow>
      set (NormalizeClasses cs) = set cs \<and>
      NormalizeClasses (NormalizeClasses cs) = NormalizeClasses cs \<and>
      NodeClasses (SetNodeClasses n cs) = NormalizeClasses cs)"
proof (intro conjI impI)
  show "sorted_wrt (<) (NormalizeClasses cs)" by (rule NormalizeClasses_strict)
  show "set (NormalizeClasses cs) = {c. c \<noteq> [] \<and> (\<exists>x \<in> set cs. c = TrimSpace x)}"
    by (rule set_NormalizeClasses)
  assume v: "list_all ValidateClassName cs"
  then show same: "set (NormalizeClasses cs) = set cs" by (rule set_NormalizeClasses_valid)
  with v have "list_all ValidateClassName (NormalizeClasses cs)" by (simp add: list_all_iff)
  then have "set (NormalizeClasses (NormalizeClasses cs)) = set (NormalizeClasses cs)"
    by (rule set_NormalizeClasses_valid)
  then show idem: "NormalizeClasses (NormalizeClasses cs) = NormalizeClasses cs"
    by (intro strict_sorted_unique NormalizeClasses_strict)
  then show "NodeClasses (SetNodeClasses n cs) = NormalizeClasses cs"
    by (auto simp: NodeClasses_def SetNodeClasses_def Let_def delete_conv update_conv)
qed

theorem normalize_classes_canonical_witness:
  "list_all ValidateClassName [''personal'', ''legal'', ''personal''] \<and>
   NormalizeClasses [''personal'', ''legal'', ''personal''] = [''legal'', ''personal''] \<and>
   NormalizeClasses [''legal'', ''personal''] = [''legal'', ''personal'']"
proof -
  have v: "list_all ValidateClassName [''personal'', ''legal'', ''personal'']"
    by code_simp
  have n: "NormalizeClasses [''personal'', ''legal'', ''personal''] = [''legal'', ''personal'']"
    by code_simp
  show ?thesis
    using v n normalize_classes_canonical [of "[''personal'', ''legal'', ''personal'']"] by simp
qed

end
