(* ===== verification/Share_Fields.thy ===== *)
theory Share_Fields
  imports Object_Model
begin

text \<open>
  Policy field names, the projected field set and the derived rule
  (\<open>internal/sharing/fields.go\<close>, with the step contract of \<open>render.go\<close>). A Go
  \<open>map[string]bool\<close> that is only asked for membership is the list of its keys.
\<close>

section \<open>Field names\<close>

definition FieldTitle :: string where "FieldTitle = ''title''"
definition FieldSummary :: string where "FieldSummary = ''summary''"
definition FieldContent :: string where "FieldContent = ''content''"
definition FieldSections :: string where "FieldSections = ''sections''"
definition FieldDecisions :: string where "FieldDecisions = ''decisions''"
definition FieldTasks :: string where "FieldTasks = ''tasks''"
definition FieldMentions :: string where "FieldMentions = ''mentions''"
definition FieldGraph :: string where "FieldGraph = ''graph''"
definition FieldTags :: string where "FieldTags = ''tags''"
definition FieldMetadata :: string where "FieldMetadata = ''metadata''"
definition FieldSource :: string where "FieldSource = ''source''"
definition FieldAll :: string where "FieldAll = ''*''"

lemmas field_names = FieldTitle_def FieldSummary_def FieldContent_def FieldSections_def
  FieldDecisions_def FieldTasks_def FieldMentions_def FieldGraph_def FieldTags_def
  FieldMetadata_def FieldSource_def FieldAll_def

definition fieldAliases :: "(string \<times> string) list" where
  "fieldAliases =
     [(''summaries'', FieldSummary), (''text'', FieldContent), (''raw_content'', FieldContent),
      (''text_content'', FieldContent), (''body'', FieldContent), (''nodes'', FieldGraph),
      (''graph_nodes'', FieldGraph), (''mention'', FieldMentions), (''tag'', FieldTags),
      (''decision'', FieldDecisions), (''task'', FieldTasks), (''section'', FieldSections)]"

definition canonicalField :: "string \<Rightarrow> string" where
  "canonicalField f =
     (let f' = ToLower (TrimSpace f)
      in case map_of fieldAliases f' of Some c \<Rightarrow> c | None \<Rightarrow> f')"

record fieldSet =
  fs_all :: bool
  fs_fields :: "string list"

definition newFieldSet :: "string list \<Rightarrow> fieldSet" where
  "newFieldSet flds =
     \<lparr>fs_all = (\<exists>f \<in> set flds. canonicalField f = FieldAll), fs_fields = map canonicalField flds\<rparr>"

definition fs_has :: "fieldSet \<Rightarrow> string \<Rightarrow> bool" where
  "fs_has fs f \<longleftrightarrow> fs_all fs \<or> f \<in> set (fs_fields fs)"

section \<open>Step contracts\<close>

record StepContract =
  step_Name :: string
  step_Requires :: "string list"
  step_Produces :: "string list"

definition koRawContent :: string where "koRawContent = ''RawContent''"
definition koTextContent :: string where "koTextContent = ''TextContent''"
definition koContentType :: string where "koContentType = ''ContentType''"
definition koMetadata :: string where "koMetadata = ''Metadata''"
definition koSummaries :: string where "koSummaries = ''Summaries''"
definition koSections :: string where "koSections = ''Sections''"
definition koTags :: string where "koTags = ''Tags''"
definition koMentions :: string where "koMentions = ''Mentions''"
definition koDecisions :: string where "koDecisions = ''Decisions''"
definition koTasks :: string where "koTasks = ''Tasks''"
definition koGraph :: string where "koGraph = ''Graph''"
definition koSource :: string where "koSource = ''Source''"
definition koVectors :: string where "koVectors = ''Vectors''"

lemmas ko_names = koRawContent_def koTextContent_def koContentType_def koMetadata_def
  koSummaries_def koSections_def koTags_def koMentions_def koDecisions_def koTasks_def koGraph_def
  koSource_def koVectors_def

definition contractAliases :: "(string \<times> string) list" where
  "contractAliases =
     [(''text'', koRawContent), (''content_type'', koContentType), (''type'', ''Type''),
      (''subtype'', ''Subtype''), (''sections'', koSections), (''tags'', koTags),
      (''mentions'', koMentions), (''metadata'', koMetadata)]"

definition canonicalContractKey :: "string \<Rightarrow> string" where
  "canonicalContractKey key =
     (if \<not> Contains key ''.'' then (case map_of contractAliases key of Some c \<Rightarrow> c | None \<Rightarrow> key)
      else key)"

definition derivedOnly :: "string list" where
  "derivedOnly = [koSummaries, koSections, koDecisions, koTasks, koGraph, koMentions]"

definition alwaysKept :: "string list" where
  "alwaysKept = [''ID'', ''Type'', ''Subtype'', ''Status'', ''Pipeline'', ''ProfileID'', ''CreatedAt'', ''UpdatedAt'']"

section \<open>What a field set projects\<close>

definition field_ko :: "string \<Rightarrow> string list" where
  "field_ko f =
     (if f = FieldContent then [koRawContent, koTextContent, koContentType]
      else if f = FieldTitle then [koMetadata @ ''.title'']
      else if f = FieldMetadata then [koMetadata]
      else if f = FieldSummary then [koSummaries]
      else if f = FieldSections then [koSections]
      else if f = FieldTags then [koTags]
      else if f = FieldMentions then [koMentions]
      else if f = FieldDecisions then [koDecisions]
      else if f = FieldTasks then [koTasks]
      else if f = FieldGraph then [koGraph]
      else if f = FieldSource then [koSource]
      else [])"

definition visibleKO :: "fieldSet \<Rightarrow> string list" where
  "visibleKO fs =
     alwaysKept @
     (if fs_all fs then
        [koRawContent, koTextContent, koContentType, koMetadata, koSummaries, koSections, koTags,
         koMentions, koDecisions, koTasks, koGraph, koSource, koVectors, ''Classes'']
      else concat (map field_ko (fs_fields fs)))"

definition requireSatisfied :: "string \<Rightarrow> string list \<Rightarrow> bool" where
  "requireSatisfied key vis =
     (let key' = canonicalContractKey key
      in if key' \<in> set vis then True
         else if HasPrefix key' (koMetadata @ ''.'') then koMetadata \<in> set vis
         else False)"

definition produces :: "StepContract \<Rightarrow> string \<Rightarrow> bool" where
  "produces s ko \<longleftrightarrow> (\<exists>p \<in> set (step_Produces s). canonicalContractKey p = ko)"

text \<open>The loop of \<open>derivedOK\<close>: \<open>None\<close> is the early \<open>return false\<close>, \<open>Some\<close> the flag \<open>produced\<close>.\<close>

fun derived_loop :: "string \<Rightarrow> string list \<Rightarrow> StepContract list \<Rightarrow> bool \<Rightarrow> bool option" where
  "derived_loop ko vis [] produced = Some produced"
| "derived_loop ko vis (s # ss) produced =
     (if \<not> produces s ko then derived_loop ko vis ss produced
      else if list_all (\<lambda>r. requireSatisfied r vis) (step_Requires s) then derived_loop ko vis ss True
      else None)"

definition derivedOK :: "string \<Rightarrow> fieldSet \<Rightarrow> string list \<Rightarrow> StepContract list \<Rightarrow> bool" where
  "derivedOK ko fs vis steps =
     (if fs_all fs then True
      else case derived_loop ko vis steps False of
             None \<Rightarrow> False
           | Some produced \<Rightarrow> if \<not> produced then ko \<notin> set derivedOnly else True)"

section \<open>Lemmas\<close>

lemma derived_loop_char:
  "derived_loop ko vis steps produced =
     (if \<exists>s \<in> set steps. produces s ko \<and> \<not> list_all (\<lambda>r. requireSatisfied r vis) (step_Requires s)
      then None else Some (produced \<or> (\<exists>s \<in> set steps. produces s ko)))"
  by (induction steps arbitrary: produced) auto

lemma derivedOK_iff:
  "derivedOK ko fs vis steps \<longleftrightarrow>
     fs_all fs \<or>
     (\<forall>s \<in> set steps. produces s ko \<longrightarrow> (\<forall>r \<in> set (step_Requires s). requireSatisfied r vis)) \<and>
     (ko \<in> set derivedOnly \<longrightarrow> (\<exists>s \<in> set steps. produces s ko))"
  by (auto simp: derivedOK_def derived_loop_char list_all_iff)

lemma requireSatisfied_mono: "set vis \<subseteq> set vis' \<Longrightarrow> requireSatisfied r vis \<Longrightarrow> requireSatisfied r vis'"
  by (auto simp: requireSatisfied_def Let_def split: if_splits)

lemma alwaysKept_visible: "set alwaysKept \<subseteq> set (visibleKO fs)"
  by (simp add: visibleKO_def)

text \<open>
  A field whose name, once canonical, is one the render layer copies makes exactly its own
  KnowledgeObject fields available to derived fields.
\<close>

lemma visibleKO_partial:
  "\<not> fs_all fs \<Longrightarrow> set (visibleKO fs) = set alwaysKept \<union> (\<Union>f \<in> set (fs_fields fs). set (field_ko f))"
  by (simp add: visibleKO_def)

lemma field_ko_all: "set (field_ko f) \<subseteq> insert (koMetadata @ ''.title'') (set (visibleKO \<lparr>fs_all = True, fs_fields = fs\<rparr>))"
  by (auto simp: field_ko_def visibleKO_def)

lemma ToLower_simple:
  assumes "\<And>c. c \<in> set f \<Longrightarrow> is_lower c \<or> is_digit c \<or> c = CHR ''_'' \<or> c = CHR ''*''"
  shows "ToLower f = f"
proof (rule ToLower_fix)
  fix c assume "c \<in> set f"
  from assms [OF this] show "\<not> is_upper c" by (auto simp: byte_class_defs)
qed

lemma canonicalField_plain:
  assumes "\<And>c. c \<in> set f \<Longrightarrow> is_lower c \<or> is_digit c \<or> c = CHR ''_'' \<or> c = CHR ''*''"
  shows "canonicalField f = (case map_of fieldAliases f of Some c \<Rightarrow> c | None \<Rightarrow> f)"
proof -
  have p: "byte_in 33 126 c" if "c \<in> set f" for c
    using assms [OF that] by (auto simp: byte_class_defs)
  have "TrimSpace f = f" using p by (intro TrimSpace_id) (cases "f = []", auto)
  moreover have "ToLower f = f" using assms by (rule ToLower_simple)
  ultimately show ?thesis by (simp add: canonicalField_def)
qed

lemma canonicalField_FieldAll [simp]: "canonicalField FieldAll = FieldAll"
  by (subst canonicalField_plain) (auto simp: field_names fieldAliases_def)

lemma fs_has_mono:
  assumes "set flds \<subseteq> set flds'" and "fs_has (newFieldSet flds) f"
  shows "fs_has (newFieldSet flds') f"
  using assms by (auto simp: fs_has_def newFieldSet_def)

text \<open>Satisfied requirements grow with the field list, the step to a full projection included.\<close>

lemma require_mono:
  assumes "set flds \<subseteq> set flds'" and "requireSatisfied r (visibleKO (newFieldSet flds))"
    and "\<not> fs_all (newFieldSet flds')"
  shows "requireSatisfied r (visibleKO (newFieldSet flds'))"
proof (rule requireSatisfied_mono)
  have "\<not> fs_all (newFieldSet flds)" using assms(1,3) by (auto simp: newFieldSet_def)
  then show "set (visibleKO (newFieldSet flds)) \<subseteq> set (visibleKO (newFieldSet flds'))"
    using assms(1,3) by (auto simp: visibleKO_partial newFieldSet_def)
qed (rule assms(2))

section \<open>Properties\<close>

text \<open>
  The derived rule. For a viewer that does not project every field, a derived field is
  rendered exactly when every step of the pipeline that produces it requires projected keys
  only, and, for the fields that only steps write, some step of the pipeline is known to
  produce it; and projecting more fields never turns an allowed derived field away.
\<close>

theorem derived_rule:
  "(\<not> fs_all fs \<longrightarrow>
     derivedOK ko fs (visibleKO fs) steps =
       ((\<forall>s \<in> set steps. (\<exists>p \<in> set (step_Produces s). canonicalContractKey p = ko) \<longrightarrow>
           (\<forall>r \<in> set (step_Requires s). requireSatisfied r (visibleKO fs))) \<and>
        (ko \<in> set derivedOnly \<longrightarrow>
           (\<exists>s \<in> set steps. \<exists>p \<in> set (step_Produces s). canonicalContractKey p = ko)))) \<and>
   (set flds \<subseteq> set flds' \<longrightarrow>
     derivedOK ko (newFieldSet flds) (visibleKO (newFieldSet flds)) steps \<longrightarrow>
     derivedOK ko (newFieldSet flds') (visibleKO (newFieldSet flds')) steps)"
proof (intro conjI impI)
  show "\<not> fs_all fs \<Longrightarrow> derivedOK ko fs (visibleKO fs) steps =
       ((\<forall>s \<in> set steps. (\<exists>p \<in> set (step_Produces s). canonicalContractKey p = ko) \<longrightarrow>
           (\<forall>r \<in> set (step_Requires s). requireSatisfied r (visibleKO fs))) \<and>
        (ko \<in> set derivedOnly \<longrightarrow>
           (\<exists>s \<in> set steps. \<exists>p \<in> set (step_Produces s). canonicalContractKey p = ko)))"
    by (simp add: derivedOK_iff produces_def)
next
  assume sub: "set flds \<subseteq> set flds'"
    and ok: "derivedOK ko (newFieldSet flds) (visibleKO (newFieldSet flds)) steps"
  show "derivedOK ko (newFieldSet flds') (visibleKO (newFieldSet flds')) steps"
  proof (cases "fs_all (newFieldSet flds')")
    case True
    then show ?thesis by (simp add: derivedOK_def)
  next
    case False
    then have "\<not> fs_all (newFieldSet flds)" using sub by (auto simp: newFieldSet_def)
    with ok False sub show ?thesis unfolding derivedOK_iff by (metis require_mono)
  qed
qed

theorem derived_rule_witness:
  "let steps = [\<lparr>step_Name = ''summarise'', step_Requires = [''text''], step_Produces = [''Summaries'']\<rparr>];
       few = newFieldSet [''summary'']; more = newFieldSet [''summary'', ''body'']
   in \<not> derivedOK koSummaries few (visibleKO few) steps \<and>
      derivedOK koSummaries more (visibleKO more) steps \<and>
      derivedOK koSummaries (newFieldSet [''summary'', ''body'', ''tags''])
        (visibleKO (newFieldSet [''summary'', ''body'', ''tags''])) steps"
proof -
  let ?steps = "[\<lparr>step_Name = ''summarise'', step_Requires = [''text''], step_Produces = [''Summaries'']\<rparr>]"
  let ?few = "newFieldSet [''summary'']" and ?more = "newFieldSet [''summary'', ''body'']"
  have few: "\<not> derivedOK koSummaries ?few (visibleKO ?few) ?steps" by code_simp
  have more: "derivedOK koSummaries ?more (visibleKO ?more) ?steps" by code_simp
  have "derivedOK koSummaries (newFieldSet [''summary'', ''body'', ''tags''])
        (visibleKO (newFieldSet [''summary'', ''body'', ''tags''])) ?steps"
    using derived_rule [of ?more koSummaries ?steps "[''summary'', ''body'']" "[''summary'', ''body'', ''tags'']"]
      more by auto
  with few more show ?thesis by simp
qed

end
