(* ===== verification/Share_Registry.thy ===== *)
theory Share_Registry
  imports Object_Model
begin

text \<open>
  The rows of the sharing registry and their preparation before a write
  (\<open>internal/storage/sharing.go\<close>): audiences, memberships, policies, grants and the read
  audit. A fresh identifier (\<open>NewULID\<close> is time and randomness) is a parameter of the
  operation that may assign one. A policy's \<open>Spec\<close> is kept as the JSON value its text
  denotes, \<open>None\<close> when the text is not JSON. The SQL of the drivers is not modelled here.
\<close>

section \<open>Rows\<close>

record Audience =
  aud_ID :: string
  aud_Name :: string
  aud_CreatedAt :: time

record AudienceMember =
  mem_AudienceID :: string
  mem_PrincipalID :: string
  mem_ExpiresAt :: "time option"
  mem_AddedBy :: string
  mem_AddedAt :: time

record SharePolicy =
  sp_ID :: string
  sp_Name :: string
  sp_Version :: int
  sp_Spec :: "gval option"
  sp_UpdatedAt :: time

record ShareGrant =
  grant_ID :: string
  grant_AudienceID :: string
  grant_PolicyID :: string
  grant_ExpiresAt :: "time option"
  grant_CreatedBy :: string
  grant_CreatedAt :: time
  grant_RevokedAt :: "time option"

record ActiveGrant =
  ag_Grant :: ShareGrant
  ag_Audience :: Audience
  ag_Policy :: SharePolicy

record AccessEntry =
  acc_ID :: string
  acc_At :: time
  acc_PrincipalID :: string
  acc_IdentityID :: string
  acc_Route :: string
  acc_PolicyVersions :: string
  acc_ObjectCount :: int
  acc_EntityCount :: int
  acc_ObjectIDs :: "string list"

definition unexpired :: "time option \<Rightarrow> time \<Rightarrow> bool" where
  "unexpired e now = (case e of None \<Rightarrow> True | Some t \<Rightarrow> now < t)"

definition Member_ActiveAt :: "AudienceMember option \<Rightarrow> time \<Rightarrow> bool" where
  "Member_ActiveAt m now = (case m of None \<Rightarrow> False | Some r \<Rightarrow> unexpired (mem_ExpiresAt r) now)"

definition Grant_ActiveAt :: "ShareGrant option \<Rightarrow> time \<Rightarrow> bool" where
  "Grant_ActiveAt g now =
     (case g of None \<Rightarrow> False
      | Some r \<Rightarrow> grant_RevokedAt r = None \<and> unexpired (grant_ExpiresAt r) now)"

section \<open>Validation and preparation\<close>

datatype RegistryError =
    NilRow
  | BadName string
  | MissingIDs
  | MissingAddedBy
  | MissingCreatedBy
  | SpecNotObject
  | MissingPrincipalOrRoute

text \<open>\<open>sharingNamePattern\<close>: \<open>^[a-z0-9][a-z0-9._-]{0,63}$\<close>.\<close>

definition name_char :: "char \<Rightarrow> bool" where
  "name_char c \<longleftrightarrow> is_lower c \<or> is_digit c \<or> c = CHR ''.'' \<or> c = CHR ''_'' \<or> c = CHR ''-''"

definition ValidateSharingName :: "string \<Rightarrow> bool" where
  "ValidateSharingName name \<longleftrightarrow>
     (case name of [] \<Rightarrow> False
      | c # cs \<Rightarrow> (is_lower c \<or> is_digit c) \<and> length cs \<le> 63 \<and> list_all name_char cs)"

definition PrepareNewAudience :: "string \<Rightarrow> Audience option \<Rightarrow> time \<Rightarrow> RegistryError + Audience" where
  "PrepareNewAudience fresh a now =
     (case a of
        None \<Rightarrow> Inl NilRow
      | Some r \<Rightarrow>
          (let name = TrimSpace (aud_Name r)
           in if \<not> ValidateSharingName name then Inl (BadName name)
              else Inr (r\<lparr>aud_Name := name,
                         aud_ID := (if aud_ID r = [] then fresh else aud_ID r),
                         aud_CreatedAt := (if aud_CreatedAt r = 0 then now else aud_CreatedAt r)\<rparr>)))"

definition PrepareNewMember :: "AudienceMember option \<Rightarrow> time \<Rightarrow> RegistryError + AudienceMember" where
  "PrepareNewMember m now =
     (case m of
        None \<Rightarrow> Inl NilRow
      | Some r \<Rightarrow>
          (if mem_AudienceID r = [] \<or> mem_PrincipalID r = [] then Inl MissingIDs
           else if mem_AddedBy r = [] then Inl MissingAddedBy
           else Inr (r\<lparr>mem_AddedAt := (if mem_AddedAt r = 0 then now else mem_AddedAt r)\<rparr>)))"

definition ValidatePolicySpec :: "gval option \<Rightarrow> bool" where
  "ValidatePolicySpec spec = (case spec of Some (GObj _) \<Rightarrow> True | _ \<Rightarrow> False)"

definition PrepareNewSharePolicy :: "string \<Rightarrow> SharePolicy option \<Rightarrow> time \<Rightarrow> RegistryError + SharePolicy" where
  "PrepareNewSharePolicy fresh p now =
     (case p of
        None \<Rightarrow> Inl NilRow
      | Some r \<Rightarrow>
          (let name = TrimSpace (sp_Name r)
           in if \<not> ValidateSharingName name then Inl (BadName name)
              else if \<not> ValidatePolicySpec (sp_Spec r) then Inl SpecNotObject
              else Inr (r\<lparr>sp_Name := name,
                         sp_ID := (if sp_ID r = [] then fresh else sp_ID r),
                         sp_Version := 1,
                         sp_UpdatedAt := (if sp_UpdatedAt r = 0 then now else sp_UpdatedAt r)\<rparr>)))"

definition PrepareNewShareGrant :: "string \<Rightarrow> ShareGrant option \<Rightarrow> time \<Rightarrow> RegistryError + ShareGrant" where
  "PrepareNewShareGrant fresh g now =
     (case g of
        None \<Rightarrow> Inl NilRow
      | Some r \<Rightarrow>
          (if grant_AudienceID r = [] \<or> grant_PolicyID r = [] then Inl MissingIDs
           else if grant_CreatedBy r = [] then Inl MissingCreatedBy
           else Inr (r\<lparr>grant_ID := (if grant_ID r = [] then fresh else grant_ID r),
                      grant_CreatedAt := (if grant_CreatedAt r = 0 then now else grant_CreatedAt r),
                      grant_RevokedAt := None\<rparr>)))"

definition PrepareAccessEntry :: "string \<Rightarrow> AccessEntry option \<Rightarrow> time \<Rightarrow> RegistryError + AccessEntry" where
  "PrepareAccessEntry fresh e now =
     (case e of
        None \<Rightarrow> Inl NilRow
      | Some r \<Rightarrow>
          (if acc_PrincipalID r = [] \<or> acc_Route r = [] then Inl MissingPrincipalOrRoute
           else Inr (r\<lparr>acc_ID := (if acc_ID r = [] then fresh else acc_ID r),
                      acc_At := (if acc_At r = 0 then now else acc_At r)\<rparr>)))"

section \<open>Lemmas\<close>

lemma ValidateSharingName_printable:
  assumes "ValidateSharingName n" shows "n \<noteq> [] \<and> (\<forall>x \<in> set n. byte_in 33 126 x)"
proof -
  from assms obtain x xs where n: "n = x # xs" and x: "is_lower x \<or> is_digit x" and xs: "list_all name_char xs"
    by (auto simp: ValidateSharingName_def split: list.splits)
  have "byte_in 33 126 y" if "name_char y" for y
    using that by (auto simp: name_char_def byte_class_defs)
  moreover have "byte_in 33 126 x" using x by (auto simp: byte_class_defs)
  ultimately show ?thesis using n xs by (auto simp: list_all_iff)
qed

lemma ValidateSharingName_trim: "ValidateSharingName n \<Longrightarrow> TrimSpace n = n"
  using ValidateSharingName_printable by (intro TrimSpace_id) auto

text \<open>
  A preparation is a validating default filler: what it returns is accepted again and left
  alone, whatever fresh identifier and time the second round has.
\<close>

locale preparation =
  fixes prepare :: "string \<Rightarrow> 'r option \<Rightarrow> time \<Rightarrow> RegistryError + 'r"
    and row_id :: "'r \<Rightarrow> string"
    and stamp :: "'r \<Rightarrow> time"
  assumes prepare_nil: "prepare fresh None now = Inl NilRow"
    and prepare_id: "prepare fresh (Some r) now = Inr r' \<Longrightarrow> row_id r' = (if row_id r = [] then fresh else row_id r)"
    and prepare_stamp: "prepare fresh (Some r) now = Inr r' \<Longrightarrow> stamp r' = (if stamp r = 0 then now else stamp r)"
    and prepare_again:
      "prepare fresh (Some r) now = Inr r' \<Longrightarrow> row_id r' \<noteq> [] \<Longrightarrow> stamp r' \<noteq> 0 \<Longrightarrow>
       prepare fresh' (Some r') now' = Inr r'"
begin

lemma prepared_is_fixed:
  assumes "prepare fresh (Some r) now = Inr r'" and "fresh \<noteq> []" and "now \<noteq> 0"
  shows "prepare fresh' (Some r') now' = Inr r'"
  using prepare_again [OF assms(1)] prepare_id [OF assms(1)] prepare_stamp [OF assms(1)] assms(2,3)
  by (auto split: if_splits)

lemma prepared_has_id:
  assumes "prepare fresh (Some r) now = Inr r'" and "fresh \<noteq> []"
  shows "row_id r' \<noteq> []"
  using prepare_id [OF assms(1)] assms(2) by (auto split: if_splits)

end

interpretation audiences: preparation PrepareNewAudience aud_ID aud_CreatedAt
  by unfold_locales
     (auto simp: PrepareNewAudience_def Let_def ValidateSharingName_trim split: option.splits if_splits)

interpretation policies: preparation PrepareNewSharePolicy sp_ID sp_UpdatedAt
  by unfold_locales
     (auto simp: PrepareNewSharePolicy_def Let_def ValidateSharingName_trim split: option.splits if_splits)

interpretation grants: preparation PrepareNewShareGrant grant_ID grant_CreatedAt
  by unfold_locales (auto simp: PrepareNewShareGrant_def split: option.splits if_splits)

interpretation accesses: preparation PrepareAccessEntry acc_ID acc_At
  by unfold_locales (auto simp: PrepareAccessEntry_def split: option.splits if_splits)

section \<open>Properties\<close>

text \<open>
  Preparing a row is idempotent. An audience, policy, grant or audit row that its
  \<open>Prepare\<close> function accepted, with a non-empty fresh identifier at a non-zero time, has an
  identifier, and a second preparation accepts it and changes nothing.
\<close>

theorem prepare_idempotent:
  assumes "fresh \<noteq> []" and "now \<noteq> 0"
  shows
    "(PrepareNewAudience fresh (Some a) now = Inr a' \<longrightarrow>
        aud_ID a' \<noteq> [] \<and> PrepareNewAudience fresh2 (Some a') now2 = Inr a') \<and>
     (PrepareNewSharePolicy fresh (Some p) now = Inr p' \<longrightarrow>
        sp_ID p' \<noteq> [] \<and> PrepareNewSharePolicy fresh2 (Some p') now2 = Inr p') \<and>
     (PrepareNewShareGrant fresh (Some g) now = Inr g' \<longrightarrow>
        grant_ID g' \<noteq> [] \<and> PrepareNewShareGrant fresh2 (Some g') now2 = Inr g') \<and>
     (PrepareAccessEntry fresh (Some e) now = Inr e' \<longrightarrow>
        acc_ID e' \<noteq> [] \<and> PrepareAccessEntry fresh2 (Some e') now2 = Inr e')"
  using assms by (auto dest: audiences.prepared_is_fixed policies.prepared_is_fixed
      grants.prepared_is_fixed accesses.prepared_is_fixed audiences.prepared_has_id
      policies.prepared_has_id grants.prepared_has_id accesses.prepared_has_id)

theorem prepare_idempotent_witness:
  "PrepareNewAudience ''aud_1'' (Some \<lparr>aud_ID = [], aud_Name = '' colleagues '', aud_CreatedAt = 0\<rparr>) 7 =
     Inr \<lparr>aud_ID = ''aud_1'', aud_Name = ''colleagues'', aud_CreatedAt = 7\<rparr> \<and>
   PrepareNewAudience ''aud_2'' (Some \<lparr>aud_ID = ''aud_1'', aud_Name = ''colleagues'', aud_CreatedAt = 7\<rparr>) 8 =
     Inr \<lparr>aud_ID = ''aud_1'', aud_Name = ''colleagues'', aud_CreatedAt = 7\<rparr>"
proof -
  have h: "PrepareNewAudience ''aud_1'' (Some \<lparr>aud_ID = [], aud_Name = '' colleagues '', aud_CreatedAt = 0\<rparr>) 7 =
     Inr \<lparr>aud_ID = ''aud_1'', aud_Name = ''colleagues'', aud_CreatedAt = 7\<rparr>" by code_simp
  show ?thesis using h prepare_idempotent [of "''aud_1''" 7] by auto
qed

text \<open>
  A newly prepared grant is in force exactly until it expires: whatever revocation the
  caller passed is cleared, and a grant or membership stays inactive once its expiry has
  passed, at every later time.
\<close>

theorem grant_active_until_expiry:
  assumes "PrepareNewShareGrant fresh (Some g) now = Inr g'"
  shows "(Grant_ActiveAt (Some g') t \<longleftrightarrow> (\<forall>e. grant_ExpiresAt g = Some e \<longrightarrow> t < e)) \<and>
    (\<not> Grant_ActiveAt (Some g') t \<longrightarrow> t \<le> t' \<longrightarrow> \<not> Grant_ActiveAt (Some g') t') \<and>
    \<not> Grant_ActiveAt (Some (g'\<lparr>grant_RevokedAt := Some r\<rparr>)) t"
  using assms
  by (auto simp: PrepareNewShareGrant_def Grant_ActiveAt_def unexpired_def split: if_splits option.splits)

theorem grant_active_until_expiry_witness:
  "let g = \<lparr>grant_ID = [], grant_AudienceID = ''aud_1'', grant_PolicyID = ''pol_1'',
            grant_ExpiresAt = Some 20, grant_CreatedBy = ''owner'', grant_CreatedAt = 0,
            grant_RevokedAt = Some 3\<rparr>;
       g' = g\<lparr>grant_ID := ''grt_1'', grant_CreatedAt := 5, grant_RevokedAt := None\<rparr>
   in PrepareNewShareGrant ''grt_1'' (Some g) 5 = Inr g' \<and>
      Grant_ActiveAt (Some g') 19 \<and> \<not> Grant_ActiveAt (Some g') 20"
proof -
  define g :: ShareGrant where
    "g = \<lparr>grant_ID = [], grant_AudienceID = ''aud_1'', grant_PolicyID = ''pol_1'',
            grant_ExpiresAt = Some 20, grant_CreatedBy = ''owner'', grant_CreatedAt = 0,
            grant_RevokedAt = Some 3\<rparr>"
  have h: "PrepareNewShareGrant ''grt_1'' (Some g) 5 =
      Inr (g\<lparr>grant_ID := ''grt_1'', grant_CreatedAt := 5, grant_RevokedAt := None\<rparr>)"
    by (simp add: g_def PrepareNewShareGrant_def)
  show ?thesis
    using h grant_active_until_expiry [OF h, of 19] grant_active_until_expiry [OF h, of 20] unfolding g_def Let_def by simp
qed

end
