(* ===== verification/Rsql_Compiler.thy ===== *)
theory Rsql_Compiler
  imports Rsql_Lexer
begin

text \<open>
  The compiler from syntax trees to SQL predicates (\<open>internal/search/compiler.go\<close>), the
  dialect switch (\<open>internal/search/dialect.go\<close>) and the scope record the compiler reads
  (\<open>internal/storage/scope.go\<close>). Each Go method returns SQL text, bound arguments and an
  error; here a \<open>CompileError + string \<times> Value list\<close>. The SQL text is the program's, byte
  for byte. What an engine does with it is not modelled here.

  The lemmas show that every placeholder has exactly one bound argument, that no value and
  no metadata key reaches the SQL text, that renumbering for Postgres keeps the order, and
  which comparisons each dialect accepts.
\<close>

section \<open>Dialects and scopes\<close>

datatype Dialect = DialectSQLite | DialectPostgres

text \<open>
  \<open>DialectFor\<close>: \<open>None\<close> is a driver that does not implement \<open>SQLDialect\<close>.
\<close>

definition DialectFor :: "string option \<Rightarrow> Dialect" where
  "DialectFor reported = (if reported = Some ''postgres'' then DialectPostgres else DialectSQLite)"

record Scope =
  sc_SQL :: string
  sc_Args :: "Value list"
  sc_Entities :: bool
  sc_Principal :: string

datatype CompileError =
    UnknownField string
  | InOutNeedsList
  | ClassNeedsString
  | ClassNeedsList
  | ClassOperator Operator
  | ClassEmpty Operator
  | MetadataKey string
  | TagNeedsList
  | TagOperator Operator
  | MentionOperator
  | RelatedOperator
  | SimilarOperator

type_synonym compiled = "CompileError + string \<times> Value list"

section \<open>Field tables\<close>

definition directColumns :: "string list" where
  "directColumns = [''type'', ''subtype'', ''pipeline'', ''source'']"

definition dateColumns :: "string list" where
  "dateColumns = [''created_at'', ''updated_at'']"

definition columnAliases :: "(string \<times> string) list" where
  "columnAliases = [(''profile'', ''profile_id'')]"

definition metadataPrefix :: string where
  "metadataPrefix = ''metadata.''"

definition key_char :: "char \<Rightarrow> bool" where
  "key_char c \<longleftrightarrow> is_lower c \<or> is_upper c \<or> is_digit c \<or> c = CHR ''_'' \<or> c = CHR ''-''"

text \<open>\<open>metadataKeyPattern\<close>: non-empty runs of key characters joined by dots.\<close>

definition metadataKeyPattern :: "string \<Rightarrow> bool" where
  "metadataKeyPattern key \<longleftrightarrow> list_all (\<lambda>p. p \<noteq> [] \<and> list_all key_char p) (Split key (CHR ''.''))"

section \<open>Comparisons\<close>

definition sqlOperator :: "Operator \<Rightarrow> string" where
  "sqlOperator op =
     (case op of OpEq \<Rightarrow> ''='' | OpNeq \<Rightarrow> ''!='' | OpGt \<Rightarrow> ''>'' | OpGte \<Rightarrow> ''>='' | OpLt \<Rightarrow> ''<''
      | OpLte \<Rightarrow> ''<='' | OpIn \<Rightarrow> ''IN'' | OpOut \<Rightarrow> ''NOT IN'')"

definition placeholders :: "string list \<Rightarrow> string" where
  "placeholders vals = Join (replicate (length vals) ''?'') '',''"

definition compileColumn :: "string \<Rightarrow> Operator \<Rightarrow> Value \<Rightarrow> Value list \<Rightarrow> compiled" where
  "compileColumn expr op v pathArgs =
     (if op = OpIn \<or> op = OpOut then
        (case v of
           VStr _ \<Rightarrow> Inl InOutNeedsList
         | VList vals \<Rightarrow>
             Inr (expr @ '' '' @ (if op = OpOut then ''NOT '' else []) @ ''IN ('' @ placeholders vals @ '')'',
                  pathArgs @ map VStr vals))
      else Inr (expr @ '' '' @ sqlOperator op @ '' ?'', pathArgs @ [v]))"

definition class_values :: "Operator \<Rightarrow> Value \<Rightarrow> CompileError + string list" where
  "class_values op v =
     (if op = OpEq \<or> op = OpNeq then (case v of VStr s \<Rightarrow> Inr [s] | VList _ \<Rightarrow> Inl ClassNeedsString)
      else if op = OpIn \<or> op = OpOut then (case v of VList vs \<Rightarrow> Inr vs | VStr _ \<Rightarrow> Inl ClassNeedsList)
      else Inl (ClassOperator op))"

definition compileClass :: "Dialect \<Rightarrow> Operator \<Rightarrow> Value \<Rightarrow> compiled" where
  "compileClass d op v =
     (let jsonFunc = (if d = DialectPostgres then ''jsonb_array_elements_text(classes) AS c''
                      else ''json_each(classes)'');
          member = (if d = DialectPostgres then ''c'' else ''json_each.value'')
      in case class_values op v of
           Inl e \<Rightarrow> Inl e
         | Inr vals \<Rightarrow>
             (if vals = [] then Inl (ClassEmpty op)
              else Inr ((if op = OpNeq \<or> op = OpOut then ''NOT '' else []) @ ''EXISTS (SELECT 1 FROM '' @ jsonFunc
                        @ '' WHERE '' @ member @ '' IN ('' @ placeholders vals @ ''))'',
                        map VStr vals)))"

definition compileMetadata :: "Dialect \<Rightarrow> string \<Rightarrow> Operator \<Rightarrow> Value \<Rightarrow> compiled" where
  "compileMetadata d field op v =
     (let key = TrimPrefix field metadataPrefix
      in if \<not> metadataKeyPattern key then Inl (MetadataKey key)
         else if d = DialectPostgres then
           compileColumn ''(metadata #>> ?::text[])'' op v [VStr (''{'' @ ReplaceAll key ''.'' '','' @ ''}'')]
         else compileColumn ''json_extract(metadata, ?)'' op v [VStr (''$.'' @ key)])"

text \<open>A quoted SQL word.\<close>

definition quoted :: "string \<Rightarrow> string" where
  "quoted w = [CHR 0x27] @ w @ [CHR 0x27]"

definition compileTag :: "Dialect \<Rightarrow> Operator \<Rightarrow> Value \<Rightarrow> compiled" where
  "compileTag d op v =
     (let jsonFunc = (if d = DialectPostgres then ''jsonb_array_elements(tags)'' else ''json_each(tags)'');
          rowAlias = (if d = DialectPostgres then ''value->>'' else ''json_each.value->>'') @ quoted ''label''
      in if op = OpIn then
           (case v of
              VStr _ \<Rightarrow> Inl TagNeedsList
            | VList vals \<Rightarrow>
                Inr (''EXISTS (SELECT 1 FROM '' @ jsonFunc @ '' WHERE '' @ rowAlias @ '' IN ('' @
                     placeholders vals @ ''))'', map VStr vals))
         else if op = OpEq then
           Inr (''EXISTS (SELECT 1 FROM '' @ jsonFunc @ '' WHERE '' @ rowAlias @ '' = ?)'', [v])
         else if op = OpNeq then
           Inr (''NOT EXISTS (SELECT 1 FROM '' @ jsonFunc @ '' WHERE '' @ rowAlias @ '' = ?)'', [v])
         else Inl (TagOperator op))"

definition visibleObjects :: "Scope option \<Rightarrow> string \<Rightarrow> string \<times> Value list" where
  "visibleObjects scope col =
     (case scope of
        None \<Rightarrow> ([], [])
      | Some sc \<Rightarrow>
          ('' AND '' @ col @ '' IN (SELECT id FROM objects WHERE '' @ sc_SQL sc @ '')'', sc_Args sc))"

definition mention :: "Scope option \<Rightarrow> Operator \<Rightarrow> Value \<Rightarrow> compiled" where
  "mention scope op v =
     (if op \<noteq> OpEq then Inl MentionOperator
      else
        (let (vis, vargs) = visibleObjects scope ''from_id''
         in Inr (''id IN (SELECT from_id FROM edges WHERE from_type = 'object' AND to_type = 'entity' AND edge_type = 'mentions' AND to_id = ?''
                 @ vis @ '')'', v # vargs)))"

text \<open>A line break of the query literal with its indentation.\<close>

definition line_break :: "nat \<Rightarrow> string" where
  "line_break tabs = CHR 0x0A # replicate tabs (CHR 0x09)"

definition related :: "Scope option \<Rightarrow> Operator \<Rightarrow> Value \<Rightarrow> compiled" where
  "related scope op v =
     (if op \<noteq> OpEq then Inl RelatedOperator
      else
        (let (e1, args1) = visibleObjects scope ''e1.from_id'';
             (e2, args2) = visibleObjects scope ''e2.from_id'';
             sql = ''id IN ('' @ line_break 2 @ ''SELECT DISTINCT e2.from_id'' @ line_break 2 @
               ''FROM edges e1'' @ line_break 2 @ ''JOIN edges e2 ON e1.to_id = e2.to_id'' @ line_break 2 @
               ''WHERE e1.from_type = '' @ quoted ''object'' @ line_break 2 @
               ''  AND e1.to_type = '' @ quoted ''entity'' @ line_break 2 @
               ''  AND e1.to_id = ?'' @ line_break 2 @
               ''  AND e1.edge_type = '' @ quoted ''mentions'' @ line_break 2 @
               ''  AND e2.from_type = '' @ quoted ''object'' @ line_break 2 @
               ''  AND e2.from_id != e1.from_id'' @ line_break 2 @
               ''  AND e2.edge_type = '' @ quoted ''mentions'' @ e1 @ e2 @
               line_break 1 @ '')''
         in Inr (sql, v # args1 @ args2)))"

definition PostgresFTSRegconfig :: string where
  "PostgresFTSRegconfig = ''simple''"

definition compileSimilar :: "Dialect \<Rightarrow> Operator \<Rightarrow> Value \<Rightarrow> compiled" where
  "compileSimilar d op v =
     (if op \<noteq> OpEq then Inl SimilarOperator
      else if d = DialectPostgres then
        Inr (''id IN (SELECT id FROM objects WHERE fts @@ websearch_to_tsquery(?, ?))'',
             [VStr PostgresFTSRegconfig, v])
      else Inr (''id IN (SELECT id FROM objects_fts WHERE objects_fts MATCH ?)'', [v]))"

definition comparison :: "Dialect \<Rightarrow> Scope option \<Rightarrow> string \<Rightarrow> Operator \<Rightarrow> Value \<Rightarrow> compiled" where
  "comparison d scope field op v =
     (if field = ''tag'' then compileTag d op v
      else if field = ''mention'' then mention scope op v
      else if field = ''related'' then related scope op v
      else if field = ''similar'' then compileSimilar d op v
      else if field = ''class'' then compileClass d op v
      else if HasPrefix field metadataPrefix then compileMetadata d field op v
      else case map_of columnAliases field of
             Some column \<Rightarrow> compileColumn column op v []
           | None \<Rightarrow>
               (if field \<in> set directColumns \<or> field \<in> set dateColumns then compileColumn field op v []
                else Inl (UnknownField field)))"

section \<open>Trees and dialect entry points\<close>

text \<open>The loop of \<open>logical\<close> over the children already compiled, in order; the first error ends it.\<close>

fun logical_loop :: "compiled list \<Rightarrow> CompileError + string list \<times> Value list" where
  "logical_loop [] = Inr ([], [])"
| "logical_loop (Inl e # cs) = Inl e"
| "logical_loop (Inr (sql, args) # cs) =
     (case logical_loop cs of
        Inl e \<Rightarrow> Inl e
      | Inr (parts, allArgs) \<Rightarrow> Inr ((''('' @ sql @ '')'') # parts, args @ allArgs))"

definition logical :: "compiled list \<Rightarrow> string \<Rightarrow> compiled" where
  "logical children op =
     (case logical_loop children of
        Inl e \<Rightarrow> Inl e
      | Inr (parts, allArgs) \<Rightarrow> Inr (Join parts ('' '' @ op @ '' ''), allArgs))"

fun compile_node :: "Dialect \<Rightarrow> Scope option \<Rightarrow> Node \<Rightarrow> compiled" where
  "compile_node d scope (ComparisonNode field op v) = comparison d scope field op v"
| "compile_node d scope (AndNode cs) = logical (map (compile_node d scope) cs) ''AND''"
| "compile_node d scope (OrNode cs) = logical (map (compile_node d scope) cs) ''OR''"

fun rebind :: "nat \<Rightarrow> string \<Rightarrow> string" where
  "rebind n [] = []"
| "rebind n (c # cs) = (if c = CHR ''?'' then ''$'' @ itoa n @ rebind (Suc n) cs else c # rebind n cs)"

definition rebindPostgres :: "string \<Rightarrow> string" where
  "rebindPostgres sql = rebind 1 sql"

definition CompileUnnumbered :: "Dialect \<Rightarrow> Node \<Rightarrow> Scope option \<Rightarrow> compiled" where
  "CompileUnnumbered d n scope = compile_node d scope n"

definition CompileScoped :: "Dialect \<Rightarrow> Node \<Rightarrow> Scope option \<Rightarrow> compiled" where
  "CompileScoped d n scope =
     (case CompileUnnumbered d n scope of
        Inl e \<Rightarrow> Inl e
      | Inr (sql, args) \<Rightarrow> Inr (if d = DialectPostgres then rebindPostgres sql else sql, args))"

definition CompileFor :: "Dialect \<Rightarrow> Node \<Rightarrow> compiled" where
  "CompileFor d n = CompileScoped d n None"

definition Compile :: "Node \<Rightarrow> compiled" where
  "Compile n = CompileFor DialectSQLite n"

section \<open>Placeholders and arguments\<close>

abbreviation marks :: "string \<Rightarrow> nat" where
  "marks s \<equiv> count_list s (CHR ''?'')"

definition balanced :: "compiled \<Rightarrow> bool" where
  "balanced r = (case r of Inl _ \<Rightarrow> True | Inr (sql, args) \<Rightarrow> marks sql = length args)"

definition scope_ok :: "Scope option \<Rightarrow> bool" where
  "scope_ok scope = (case scope of None \<Rightarrow> True | Some sc \<Rightarrow> marks (sc_SQL sc) = length (sc_Args sc))"

lemma balanced_Inl [simp]: "balanced (Inl e)"
  by (simp add: balanced_def)

lemma marks_Join:
  "marks sep = 0 \<Longrightarrow> marks (Join xs sep) = sum_list (map marks xs)"
  by (induction xs sep rule: Join.induct) (auto simp: count_list_append)

lemma marks_placeholders [simp]: "marks (placeholders vals) = length vals"
proof -
  have "sum_list (map marks (replicate (length vals) ''?'')) = length vals"
    by (induction vals) auto
  then show ?thesis by (simp add: placeholders_def marks_Join)
qed

lemma marks_line_break [simp]: "marks (line_break n) = 0"
  by (induction n) (auto simp: line_break_def)

lemma marks_quoted [simp]: "marks (quoted w) = marks w"
  by (simp add: quoted_def count_list_append)

lemma visibleObjects_marks:
  "scope_ok scope \<Longrightarrow> marks col = 0 \<Longrightarrow> visibleObjects scope col = (sql, args) \<Longrightarrow> marks sql = length args"
  by (auto simp: visibleObjects_def scope_ok_def count_list_append split: option.splits)

lemma balanced_compileColumn:
  "marks expr = length pathArgs \<Longrightarrow> balanced (compileColumn expr op v pathArgs)"
  by (cases op) (auto simp: compileColumn_def balanced_def sqlOperator_def count_list_append split: Value.splits)

lemma balanced_compileClass: "balanced (compileClass d op v)"
  by (auto simp: compileClass_def balanced_def Let_def count_list_append split: sum.splits)

lemma balanced_compileMetadata: "balanced (compileMetadata d field op v)"
  by (auto simp: compileMetadata_def Let_def intro!: balanced_compileColumn)

lemma balanced_compileTag: "balanced (compileTag d op v)"
  by (auto simp: compileTag_def balanced_def Let_def count_list_append split: Value.splits)

lemma balanced_mention: "scope_ok scope \<Longrightarrow> balanced (mention scope op v)"
  by (auto simp: mention_def balanced_def count_list_append dest!: visibleObjects_marks split: prod.splits)

lemma balanced_related:
  assumes "scope_ok scope" shows "balanced (related scope op v)"
proof -
  obtain e1 a1 e2 a2 where v: "visibleObjects scope ''e1.from_id'' = (e1, a1)"
    "visibleObjects scope ''e2.from_id'' = (e2, a2)" by (meson prod.exhaust)
  then have "marks e1 = length a1" and "marks e2 = length a2"
    using visibleObjects_marks [OF assms, of "''e1.from_id''"]
      visibleObjects_marks [OF assms, of "''e2.from_id''"] by auto
  with v show ?thesis by (auto simp: related_def balanced_def Let_def count_list_append)
qed

lemma balanced_compileSimilar: "balanced (compileSimilar d op v)"
  by (auto simp: compileSimilar_def balanced_def)

lemma column_marks:
  "map_of columnAliases field = Some col \<Longrightarrow> marks col = 0"
  "field \<in> set directColumns \<Longrightarrow> marks field = 0"
  "field \<in> set dateColumns \<Longrightarrow> marks field = 0"
  by (auto simp: columnAliases_def directColumns_def dateColumns_def split: if_splits)

lemmas balanced_intros = balanced_compileColumn balanced_compileClass balanced_compileMetadata
  balanced_compileTag balanced_mention balanced_related balanced_compileSimilar

lemma balanced_comparison: "scope_ok scope \<Longrightarrow> balanced (comparison d scope field op v)"
  unfolding comparison_def
  by (auto split: option.splits intro!: balanced_intros simp: column_marks)

lemma logical_loop_marks:
  "list_all balanced cs \<Longrightarrow> logical_loop cs = Inr (parts, args) \<Longrightarrow> sum_list (map marks parts) = length args"
  by (induction cs arbitrary: parts args rule: logical_loop.induct)
     (auto simp: balanced_def count_list_append split: sum.splits)

lemma balanced_logical:
  "list_all balanced cs \<Longrightarrow> marks op = 0 \<Longrightarrow> balanced (logical cs op)"
  by (auto simp: logical_def balanced_def marks_Join count_list_append dest: logical_loop_marks split: sum.splits)

lemma balanced_compile_node: "scope_ok scope \<Longrightarrow> balanced (compile_node d scope n)"
proof (induction n)
  case (ComparisonNode field op v)
  then show ?case by (simp add: balanced_comparison)
next
  case (AndNode cs)
  then show ?case by (simp add: balanced_logical list_all_iff)
next
  case (OrNode cs)
  then show ?case by (simp add: balanced_logical list_all_iff)
qed

section \<open>Renumbering\<close>

text \<open>The numbered statement: the pieces between the marks with \<open>$1\<close>, \<open>$2\<close>, \<open>...\<close> between them.\<close>

definition numbered :: "nat \<Rightarrow> string list \<Rightarrow> string" where
  "numbered n pieces =
     hd pieces @ concat (map (\<lambda>(i, p). ''$'' @ itoa i @ p) (zip [n..<n + length (tl pieces)] (tl pieces)))"

lemma zip_upt_Suc:
  "zip [n..<n + length (y # ys)] (y # ys) = (n, y) # zip [Suc n..<Suc n + length ys] ys"
  by (simp add: upt_conv_Cons del: upt_Suc)

lemma rebind_numbered: "rebind n sql = numbered n (Split sql (CHR ''?''))"
proof (induction sql arbitrary: n)
  case Nil
  show ?case by (simp add: numbered_def)
next
  case (Cons c cs)
  obtain p ps where ps: "Split cs (CHR ''?'') = p # ps"
    using Split_not_Nil by (cases "Split cs (CHR ''?'')") auto
  show ?case
  proof (cases "c = CHR ''?''")
    case True
    then show ?thesis
      using Cons.IH [of "Suc n"] ps zip_upt_Suc [of n p ps] by (simp add: numbered_def del: upt_Suc)
  next
    case False
    then show ?thesis using Cons.IH [of n] ps by (simp add: numbered_def)
  qed
qed

lemma length_Split: "length (Split s sep) = Suc (count_list s sep)"
  by (induction s) (auto split: list.splits)

lemma Split_parts_free: "p \<in> set (Split s sep) \<Longrightarrow> sep \<notin> set p"
  by (induction s arbitrary: p) (auto split: list.splits if_splits)

lemma itoa_no_mark: "CHR ''?'' \<notin> set (itoa n)"
  using itoa_digits [of "CHR ''?''" n] by (auto simp: byte_class_defs)

lemma rebind_no_mark: "CHR ''?'' \<notin> set (rebind n sql)"
  by (induction n sql rule: rebind.induct) (auto simp: itoa_no_mark)

section \<open>Values and keys stay out of the text\<close>

fun blank_value :: "Value \<Rightarrow> Value" where
  "blank_value (VStr _) = VStr []"
| "blank_value (VList vs) = VList (map (\<lambda>_. []) vs)"

definition blank_field :: "string \<Rightarrow> string" where
  "blank_field f =
     (if HasPrefix f metadataPrefix \<and> metadataKeyPattern (TrimPrefix f metadataPrefix)
      then metadataPrefix @ ''k'' else f)"

text \<open>The tree with every value blanked and every metadata key replaced by one and the same key.\<close>

fun blank :: "Node \<Rightarrow> Node" where
  "blank (ComparisonNode f op v) = ComparisonNode (blank_field f) op (blank_value v)"
| "blank (AndNode cs) = AndNode (map blank cs)"
| "blank (OrNode cs) = OrNode (map blank cs)"

fun text_of :: "'e + 'a \<times> 'b \<Rightarrow> 'e + 'a" where
  "text_of (Inl e) = Inl e"
| "text_of (Inr (sql, args)) = Inr sql"

lemma text_of_InlD: "text_of r = Inl e \<Longrightarrow> r = Inl e"
  by (cases r) auto

lemma text_of_InrD: "text_of r = Inr sql \<Longrightarrow> \<exists>args. r = Inr (sql, args)"
  by (cases r) auto

lemma placeholders_blank: "placeholders (map (\<lambda>_. []) vs) = placeholders vs" "placeholders [x] = ''?''"
  by (simp_all add: placeholders_def)

lemma text_compileColumn:
  "text_of (compileColumn expr op (blank_value v) p) = text_of (compileColumn expr op v q)"
  by (cases v) (auto simp: compileColumn_def placeholders_blank)

lemma text_compileClass: "text_of (compileClass d op (blank_value v)) = text_of (compileClass d op v)"
  by (cases v) (auto simp: compileClass_def class_values_def Let_def placeholders_blank)

lemma text_compileTag: "text_of (compileTag d op (blank_value v)) = text_of (compileTag d op v)"
  by (cases v) (auto simp: compileTag_def Let_def placeholders_blank)

lemma text_mention: "text_of (mention scope op (blank_value v)) = text_of (mention scope op v)"
  by (auto simp: mention_def split: prod.splits)

lemma text_related: "text_of (related scope op (blank_value v)) = text_of (related scope op v)"
  by (auto simp: related_def Let_def split: prod.splits)

lemma text_compileSimilar: "text_of (compileSimilar d op (blank_value v)) = text_of (compileSimilar d op v)"
  by (auto simp: compileSimilar_def)

lemma metadata_fields_apart:
  "HasPrefix f metadataPrefix \<Longrightarrow> f \<notin> {''tag'', ''mention'', ''related'', ''similar'', ''class''}"
  by (auto simp: metadataPrefix_def)

lemma metadataKeyPattern_k: "metadataKeyPattern ''k''"
  by code_simp

lemma text_compileMetadata:
  assumes "HasPrefix f metadataPrefix"
  shows "text_of (compileMetadata d (blank_field f) op (blank_value v)) = text_of (compileMetadata d f op v)"
  using assms by (auto simp: compileMetadata_def Let_def blank_field_def metadataKeyPattern_k
      intro: text_compileColumn)

lemmas text_blank = text_compileColumn text_compileClass text_compileTag text_mention text_related
  text_compileSimilar

lemma text_comparison:
  "text_of (comparison d scope (blank_field f) op (blank_value v)) = text_of (comparison d scope f op v)"
proof (cases "HasPrefix f metadataPrefix")
  case True
  then have b: "HasPrefix (blank_field f) metadataPrefix" by (simp add: blank_field_def)
  show ?thesis
    using metadata_fields_apart [OF True] metadata_fields_apart [OF b] True b
    by (simp add: comparison_def text_compileMetadata)
next
  case False
  then have "blank_field f = f" by (simp add: blank_field_def)
  with False show ?thesis by (auto simp: comparison_def text_blank split: option.splits)
qed

lemma text_logical_loop:
  "map text_of cs = map text_of ds \<Longrightarrow> text_of (logical_loop cs) = text_of (logical_loop ds)"
proof (induction cs arbitrary: ds rule: logical_loop.induct)
  case (2 e cs)
  then obtain d ds' where "ds = d # ds'" and "text_of d = Inl e" by auto
  then show ?case using text_of_InlD by fastforce
next
  case (3 sql args cs)
  then obtain d ds' where ds: "ds = d # ds'" "text_of d = Inr sql" and "map text_of cs = map text_of ds'"
    by auto
  with 3 have ih: "text_of (logical_loop cs) = text_of (logical_loop ds')" by blast
  obtain args' where "d = Inr (sql, args')" using text_of_InrD [OF ds(2)] ..
  with ds ih show ?case by (auto split: sum.splits)
qed auto

lemma text_logical:
  assumes "map text_of cs = map text_of ds"
  shows "text_of (logical cs op) = text_of (logical ds op)"
  using text_logical_loop [OF assms]
  by (cases "logical_loop cs"; cases "logical_loop ds") (auto simp: logical_def)

lemma text_compile_node: "text_of (compile_node d scope (blank n)) = text_of (compile_node d scope n)"
proof (induction n)
  case (ComparisonNode f op v)
  show ?case by (simp add: text_comparison)
next
  case (AndNode cs)
  then show ?case by (auto intro!: text_logical)
next
  case (OrNode cs)
  then show ?case by (auto intro!: text_logical)
qed

lemma text_CompileScoped:
  "text_of (CompileScoped d n scope) =
     map_sum id (\<lambda>sql. if d = DialectPostgres then rebindPostgres sql else sql)
       (text_of (compile_node d scope n))"
  by (auto simp: CompileScoped_def CompileUnnumbered_def split: sum.splits)

section \<open>The accepted language\<close>

definition known_column :: "string \<Rightarrow> bool" where
  "known_column f \<longleftrightarrow>
     HasPrefix f metadataPrefix \<and> metadataKeyPattern (TrimPrefix f metadataPrefix) \<or>
     f \<in> {''profile'', ''type'', ''subtype'', ''pipeline'', ''source'', ''created_at'', ''updated_at''}"

definition is_list :: "Value \<Rightarrow> bool" where
  "is_list v = (case v of VStr _ \<Rightarrow> False | VList _ \<Rightarrow> True)"

fun accepts_comparison :: "string \<Rightarrow> Operator \<Rightarrow> Value \<Rightarrow> bool" where
  "accepts_comparison f op v =
     (if f = ''tag'' then op = OpEq \<or> op = OpNeq \<or> op = OpIn \<and> is_list v
      else if f = ''mention'' \<or> f = ''related'' \<or> f = ''similar'' then op = OpEq
      else if f = ''class'' then
        (op = OpEq \<or> op = OpNeq) \<and> \<not> is_list v \<or> (op = OpIn \<or> op = OpOut) \<and> is_list v \<and> v \<noteq> VList []
      else known_column f \<and> (op = OpIn \<or> op = OpOut \<longrightarrow> is_list v))"

fun accepts :: "Node \<Rightarrow> bool" where
  "accepts (ComparisonNode f op v) = accepts_comparison f op v"
| "accepts (AndNode cs) = (\<forall>c \<in> set cs. accepts c)"
| "accepts (OrNode cs) = (\<forall>c \<in> set cs. accepts c)"

lemma compileColumn_ok: "isl (compileColumn e op v p) \<longleftrightarrow> (op = OpIn \<or> op = OpOut) \<and> \<not> is_list v"
  by (auto simp: compileColumn_def is_list_def split: Value.splits)

lemma compileClass_ok:
  "isl (compileClass d op v) \<longleftrightarrow>
   \<not> ((op = OpEq \<or> op = OpNeq) \<and> \<not> is_list v \<or> (op = OpIn \<or> op = OpOut) \<and> is_list v \<and> v \<noteq> VList [])"
  by (cases op; cases v) (auto simp: compileClass_def class_values_def is_list_def Let_def)

lemma compileTag_ok: "isl (compileTag d op v) \<longleftrightarrow> \<not> (op = OpEq \<or> op = OpNeq \<or> op = OpIn \<and> is_list v)"
  by (cases op; cases v) (auto simp: compileTag_def is_list_def Let_def)

lemma edge_ok: "isl (mention scope op v) \<longleftrightarrow> op \<noteq> OpEq" "isl (related scope op v) \<longleftrightarrow> op \<noteq> OpEq"
  "isl (compileSimilar d op v) \<longleftrightarrow> op \<noteq> OpEq"
  by (auto simp: mention_def related_def compileSimilar_def Let_def split: prod.splits)

lemma compileMetadata_ok:
  "isl (compileMetadata d f op v) \<longleftrightarrow>
   \<not> (metadataKeyPattern (TrimPrefix f metadataPrefix) \<and> (op = OpIn \<or> op = OpOut \<longrightarrow> is_list v))"
  by (auto simp: compileMetadata_def Let_def compileColumn_ok)

lemma column_table:
  "\<not> HasPrefix f metadataPrefix \<Longrightarrow>
   known_column f \<longleftrightarrow> map_of columnAliases f \<noteq> None \<or> f \<in> set directColumns \<or> f \<in> set dateColumns"
  by (auto simp: known_column_def columnAliases_def directColumns_def dateColumns_def)

lemmas compile_ok = compileColumn_ok compileClass_ok compileTag_ok edge_ok compileMetadata_ok

lemma comparison_columns_ok:
  assumes "f \<notin> {''tag'', ''mention'', ''related'', ''similar'', ''class''}"
  shows "isl (comparison d scope f op v) \<longleftrightarrow> \<not> (known_column f \<and> (op = OpIn \<or> op = OpOut \<longrightarrow> is_list v))"
proof (cases "HasPrefix f metadataPrefix")
  case True
  then have "known_column f \<longleftrightarrow> metadataKeyPattern (TrimPrefix f metadataPrefix)"
    by (auto simp: known_column_def metadataPrefix_def)
  with True assms show ?thesis by (simp add: comparison_def compileMetadata_ok)
next
  case False
  show ?thesis
  proof (cases "map_of columnAliases f")
    case None
    with False assms show ?thesis by (auto simp: comparison_def column_table compileColumn_ok)
  next
    case (Some col)
    with False assms show ?thesis by (auto simp: comparison_def column_table compileColumn_ok)
  qed
qed

lemma comparison_ok: "isl (comparison d scope f op v) \<longleftrightarrow> \<not> accepts_comparison f op v"
proof (cases "f \<in> {''tag'', ''mention'', ''related'', ''similar'', ''class''}")
  case True
  then show ?thesis by (elim insertE) (simp_all add: comparison_def compile_ok)
next
  case False
  then show ?thesis using comparison_columns_ok [OF False] by simp
qed

lemma logical_loop_ok: "isl (logical_loop cs) \<longleftrightarrow> (\<exists>c \<in> set cs. isl c)"
  by (induction cs rule: logical_loop.induct) (auto split: sum.splits)

lemma logical_ok: "isl (logical cs op) \<longleftrightarrow> (\<exists>c \<in> set cs. isl c)"
  using logical_loop_ok [of cs] by (auto simp: logical_def split: sum.splits)

lemma compile_node_ok: "isl (compile_node d scope n) \<longleftrightarrow> \<not> accepts n"
  by (induction n) (auto simp: comparison_ok logical_ok simp del: accepts_comparison.simps)

lemma CompileScoped_ok: "isl (CompileScoped d n scope) \<longleftrightarrow> \<not> accepts n"
  using compile_node_ok [of d scope n]
  by (auto simp: CompileScoped_def CompileUnnumbered_def split: sum.splits)

section \<open>Properties\<close>

text \<open>
  C32: the text the compiler emits holds no user data. For both dialects and any scope, the
  compiled SQL (or the error) of a tree is the one of the tree in which every compared value
  is blanked and every valid metadata key is replaced by one fixed key: values and keys
  reach the database as bound arguments only.
\<close>

theorem compile_text_independent_of_values:
  "text_of (CompileScoped d n scope) = text_of (CompileScoped d (blank n) scope)"
  by (simp add: text_CompileScoped text_compile_node)

text \<open>
  Every placeholder has its argument. When the scope's own placeholders match its
  arguments, the unnumbered SQL has exactly as many question marks as bound arguments.
\<close>

theorem compile_placeholders_match_args:
  assumes "scope_ok scope" and "CompileUnnumbered d n scope = Inr (sql, args)"
  shows "count_list sql (CHR ''?'') = length args"
  using balanced_compile_node [OF assms(1), of d n] assms(2)
  by (simp add: CompileUnnumbered_def balanced_def)

theorem compile_placeholders_match_args_witness:
  "let sc = \<lparr>sc_SQL = ''status = ? AND (type = ?)'', sc_Args = [VStr ''active'', VStr ''note''],
             sc_Entities = True, sc_Principal = ''p''\<rparr>;
       n = AndNode [ComparisonNode ''metadata.a.b'' OpIn (VList [''x'', ''y'']),
                    ComparisonNode ''related'' OpEq (VStr ''ada'')]
   in scope_ok (Some sc) \<and>
      (\<exists>sql args. CompileUnnumbered DialectPostgres n (Some sc) = Inr (sql, args) \<and>
         count_list sql (CHR ''?'') = length args \<and> length args = 8)"
proof -
  let ?sc = "\<lparr>sc_SQL = ''status = ? AND (type = ?)'', sc_Args = [VStr ''active'', VStr ''note''],
             sc_Entities = True, sc_Principal = ''p''\<rparr> :: Scope"
  let ?n = "AndNode [ComparisonNode ''metadata.a.b'' OpIn (VList [''x'', ''y'']),
                    ComparisonNode ''related'' OpEq (VStr ''ada'')]"
  have ok: "scope_ok (Some ?sc)" by code_simp
  have acc: "\<not> isl (CompileUnnumbered DialectPostgres ?n (Some ?sc))" by code_simp
  then obtain sql args where c: "CompileUnnumbered DialectPostgres ?n (Some ?sc) = Inr (sql, args)"
    by (cases "CompileUnnumbered DialectPostgres ?n (Some ?sc)") auto
  have "map_sum id (length \<circ> snd) (CompileUnnumbered DialectPostgres ?n (Some ?sc)) = Inr 8" by code_simp
  with c have "length args = 8" by simp
  with ok c compile_placeholders_match_args [OF ok c] show ?thesis by simp
qed

text \<open>
  Renumbering for Postgres. \<open>rebindPostgres\<close> leaves no question mark, keeps every other
  byte, and puts \<open>$1\<close>, \<open>$2\<close>, ... for the first, second, ... question mark: cutting the
  statement at its question marks gives one piece more than there are marks, and the
  result is those pieces with the numbers between them.
\<close>

theorem rebind_numbers_in_order:
  "rebindPostgres sql = numbered 1 (Split sql (CHR ''?'')) \<and>
   length (Split sql (CHR ''?'')) = count_list sql (CHR ''?'') + 1 \<and>
   Join (Split sql (CHR ''?'')) ''?'' = sql \<and>
   CHR ''?'' \<notin> set (rebindPostgres sql)"
  by (simp add: rebindPostgres_def rebind_numbered [symmetric] rebind_no_mark length_Split)

text \<open>
  The accepted language is the same for both dialects and every scope: a tree compiles
  exactly when each of its comparisons names a known field with an operator and a kind of
  value that field takes.
\<close>

theorem compile_accepts_iff:
  "(\<exists>sql args. CompileScoped d n scope = Inr (sql, args)) \<longleftrightarrow> accepts n"
proof -
  have "(\<exists>sql args. CompileScoped d n scope = Inr (sql, args)) \<longleftrightarrow> \<not> isl (CompileScoped d n scope)"
    by (cases "CompileScoped d n scope") auto
  then show ?thesis by (simp add: CompileScoped_ok)
qed

end
