(* ===== verification/Share_Policy.thy ===== *)
theory Share_Policy
  imports Share_Fields Share_Registry Rsql_Parser Rsql_Compiler
begin

text \<open>
  Share policies (\<open>internal/sharing/policy.go\<close>), class rules (\<open>classes.go\<close>) and the built-in
  templates (\<open>templates.go\<close>). \<open>Validate\<close> returns the list of problems it joins, so no error
  is the empty list. YAML decoding is third-party: \<open>ParsePolicies\<close> takes the decoded
  documents of the stream, an \<open>Inl\<close> where the decoder fails. The JSON form of a policy is
  modelled on JSON values: which member each field is written to and read from, \<open>omitempty\<close>,
  unknown members refused, member names matched without regard to ASCII case.

  The lemmas show that a validated policy's filter parses, names row-local fields only and
  compiles for both dialects to SQL that does not depend on any scope; that a policy read
  back from its stored spec is the policy written; and what class rules add.
\<close>

section \<open>Policies\<close>

record Redact =
  red_Mask :: "string list"
  red_Reveal :: "string list"
  red_Style :: string

record Capabilities =
  cap_Search :: "string list"
  cap_Entities :: bool
  cap_Export :: bool
  cap_MCP :: bool
  cap_Events :: bool

record Policy =
  pol_Name :: string
  pol_Version :: int
  pol_Data :: string
  pol_ExcludeClasses :: "string list"
  pol_Fields :: "(string \<times> string list) list"
  pol_Redact :: Redact
  pol_Capabilities :: Capabilities

definition zero_redact :: Redact where
  "zero_redact = \<lparr>red_Mask = [], red_Reveal = [], red_Style = []\<rparr>"

definition zero_capabilities :: Capabilities where
  "zero_capabilities =
     \<lparr>cap_Search = [], cap_Entities = False, cap_Export = False, cap_MCP = False, cap_Events = False\<rparr>"

definition zero_policy :: Policy where
  "zero_policy =
     \<lparr>pol_Name = [], pol_Version = 0, pol_Data = [], pol_ExcludeClasses = [], pol_Fields = [],
      pol_Redact = zero_redact, pol_Capabilities = zero_capabilities\<rparr>"

definition RedactCategory :: string where "RedactCategory = ''category''"
definition RedactPartial :: string where "RedactPartial = ''partial''"

definition SearchModes :: "string list" where
  "SearchModes = [''graph'', ''fts'', ''vector'', ''rsql'']"

definition PolicyFields :: "string list" where
  "PolicyFields = [''type'', ''subtype'', ''tag'', ''profile'', ''class'', ''source'', ''created_at'', ''updated_at'']"

definition crossObjectFields :: "string list" where
  "crossObjectFields = [''mention'', ''related'']"

definition metadataFieldPrefix :: string where
  "metadataFieldPrefix = ''metadata.''"

text \<open>\<open>fieldNamePattern\<close> and \<open>categoryPattern\<close>: \<open>^[a-z][a-z0-9_]*$\<close>.\<close>

definition word_pattern :: "string \<Rightarrow> bool" where
  "word_pattern s =
     (case s of [] \<Rightarrow> False
      | c # cs \<Rightarrow> is_lower c \<and> list_all (\<lambda>x. is_lower x \<or> is_digit x \<or> x = CHR ''_'') cs)"

text \<open>\<open>typeNamePattern\<close>: a star, or \<open>^[a-z][a-z0-9_.-]*$\<close>.\<close>

definition typeNamePattern :: "string \<Rightarrow> bool" where
  "typeNamePattern s =
     (s = ''*'' \<or>
      (case s of [] \<Rightarrow> False | c # cs \<Rightarrow> is_lower c \<and> list_all name_char cs))"

datatype PolicyError =
    PolicyName string
  | DataEmpty
  | DataParse ParseError
  | DataCrossObject string
  | DataField string
  | DataCompile CompileError
  | ExcludeClass string
  | FieldsType string
  | FieldsEmpty string
  | FieldsAllNotAlone string
  | FieldsName string string
  | RedactStyle string
  | RedactName string
  | SearchMode string
  | NilPolicyRow
  | DecodeSpec
  | DecodeDocument nat
  | DocumentInvalid nat "PolicyError list"
  | DocumentCount nat
  | NoDocument
  | SpecInvalid "PolicyError list"

section \<open>The data filter\<close>

text \<open>\<open>checkChildren\<close> over the results of the children: the first refusal, in order.\<close>

fun checkChildren :: "PolicyError option list \<Rightarrow> PolicyError option" where
  "checkChildren [] = None"
| "checkChildren (None # rs) = checkChildren rs"
| "checkChildren (Some e # rs) = Some e"

fun checkPolicyFields :: "Node \<Rightarrow> PolicyError option" where
  "checkPolicyFields (ComparisonNode f op v) =
     (if f \<in> set crossObjectFields then Some (DataCrossObject f)
      else if f \<in> set PolicyFields \<or> HasPrefix f metadataFieldPrefix then None
      else Some (DataField f))"
| "checkPolicyFields (AndNode cs) = checkChildren (map checkPolicyFields cs)"
| "checkPolicyFields (OrNode cs) = checkChildren (map checkPolicyFields cs)"

definition DataNode :: "Policy \<Rightarrow> PolicyError + Node" where
  "DataNode p =
     (if TrimSpace (pol_Data p) = [] then Inl DataEmpty
      else case Parse (pol_Data p) of
             Inl e \<Rightarrow> Inl (DataParse e)
           | Inr node \<Rightarrow>
               (case checkPolicyFields node of
                  Some e \<Rightarrow> Inl e
                | None \<Rightarrow>
                    (case CompileFor DialectSQLite node of
                       Inl e \<Rightarrow> Inl (DataCompile e)
                     | Inr _ \<Rightarrow>
                         (case CompileFor DialectPostgres node of
                            Inl e \<Rightarrow> Inl (DataCompile e)
                          | Inr _ \<Rightarrow> Inr node))))"

section \<open>Validation\<close>

definition validate_field :: "string \<Rightarrow> string list \<Rightarrow> string \<Rightarrow> PolicyError list" where
  "validate_field typ fs f =
     (if f = FieldAll then (if length fs \<noteq> 1 then [FieldsAllNotAlone typ] else [])
      else if \<not> word_pattern f then [FieldsName typ f] else [])"

definition validateFields :: "Policy \<Rightarrow> PolicyError list" where
  "validateFields p =
     concat (map (\<lambda>(typ, fs).
        (if \<not> typeNamePattern typ then [FieldsType typ] else []) @
        (if fs = [] then [FieldsEmpty typ] else []) @
        concat (map (validate_field typ fs) fs)) (AList.clearjunk (pol_Fields p)))"

definition Redact_validate :: "Redact \<Rightarrow> PolicyError list" where
  "Redact_validate r =
     (if red_Style r \<in> {[], RedactCategory, RedactPartial} then [] else [RedactStyle (red_Style r)]) @
     map RedactName (filter (\<lambda>c. \<not> word_pattern c) (red_Mask r @ red_Reveal r))"

definition Capabilities_validate :: "Capabilities \<Rightarrow> PolicyError list" where
  "Capabilities_validate c = map SearchMode (filter (\<lambda>m. m \<notin> set SearchModes) (cap_Search c))"

definition Policy_Validate :: "Policy \<Rightarrow> PolicyError list" where
  "Policy_Validate p =
     (if \<not> ValidateSharingName (pol_Name p) then [PolicyName (pol_Name p)] else []) @
     (case DataNode p of Inl e \<Rightarrow> [e] | Inr _ \<Rightarrow> []) @
     map ExcludeClass (filter (\<lambda>c. \<not> ValidateClassName c) (pol_ExcludeClasses p)) @
     validateFields p @ Redact_validate (pol_Redact p) @ Capabilities_validate (pol_Capabilities p)"

definition Policy_FieldsFor :: "Policy \<Rightarrow> string \<Rightarrow> string list" where
  "Policy_FieldsFor p typ =
     (case map_of (pol_Fields p) typ of
        Some f \<Rightarrow> f
      | None \<Rightarrow> (case map_of (pol_Fields p) ''*'' of Some f \<Rightarrow> f | None \<Rightarrow> []))"

text \<open>
  The loop of \<open>ParsePolicies\<close> over the documents the YAML decoder yields before end of file.
\<close>

fun policies_loop :: "nat \<Rightarrow> (unit + Policy) list \<Rightarrow> PolicyError + Policy list" where
  "policies_loop i [] = Inr []"
| "policies_loop i (Inl _ # ds) = Inl (DecodeDocument (i + 1))"
| "policies_loop i (Inr p # ds) =
     (if Policy_Validate p \<noteq> [] then Inl (DocumentInvalid (i + 1) (Policy_Validate p))
      else case policies_loop (Suc i) ds of Inl e \<Rightarrow> Inl e | Inr ps \<Rightarrow> Inr (p # ps))"

definition ParsePolicies :: "(unit + Policy) list \<Rightarrow> PolicyError + Policy list" where
  "ParsePolicies docs =
     (case policies_loop 0 docs of
        Inl e \<Rightarrow> Inl e
      | Inr ps \<Rightarrow> if ps = [] then Inl NoDocument else Inr ps)"

definition ParsePolicy :: "(unit + Policy) list \<Rightarrow> PolicyError + Policy" where
  "ParsePolicy docs =
     (case ParsePolicies docs of
        Inl e \<Rightarrow> Inl e
      | Inr ps \<Rightarrow> if length ps \<noteq> 1 then Inl (DocumentCount (length ps)) else Inr (hd ps))"

section \<open>The stored form\<close>

definition json_strs :: "string list \<Rightarrow> gval" where
  "json_strs xs = GArr (map GStr xs)"

definition omit_strs :: "string \<Rightarrow> string list \<Rightarrow> (string \<times> gval) list" where
  "omit_strs k xs = (if xs = [] then [] else [(k, json_strs xs)])"

definition omit_bool :: "string \<Rightarrow> bool \<Rightarrow> (string \<times> gval) list" where
  "omit_bool k b = (if b then [(k, GBool True)] else [])"

definition redact_json :: "Redact \<Rightarrow> gval" where
  "redact_json r =
     GObj (omit_strs ''mask'' (red_Mask r) @ omit_strs ''reveal'' (red_Reveal r) @
           (if red_Style r = [] then [] else [(''style'', GStr (red_Style r))]))"

definition capabilities_json :: "Capabilities \<Rightarrow> gval" where
  "capabilities_json c =
     GObj (omit_strs ''search'' (cap_Search c) @ omit_bool ''entities'' (cap_Entities c) @
           omit_bool ''export'' (cap_Export c) @ omit_bool ''mcp'' (cap_MCP c) @ omit_bool ''events'' (cap_Events c))"

definition policy_json :: "Policy \<Rightarrow> gval" where
  "policy_json p =
     GObj ([(''name'', GStr (pol_Name p)), (''data'', GStr (pol_Data p))] @
           omit_strs ''exclude_classes'' (pol_ExcludeClasses p) @
           (if pol_Fields p = [] then []
            else [(''fields'', GObj (map (\<lambda>(t, fs). (t, json_strs fs)) (AList.clearjunk (pol_Fields p))))]) @
           [(''redact'', redact_json (pol_Redact p)),
            (''capabilities'', capabilities_json (pol_Capabilities p))])"

definition Policy_Spec :: "Policy \<Rightarrow> PolicyError + gval" where
  "Policy_Spec p = (if Policy_Validate p \<noteq> [] then Inl (SpecInvalid (Policy_Validate p)) else Inr (policy_json p))"

text \<open>Decoding one value over what the member holds; a JSON null leaves a scalar alone and empties a list.\<close>

fun get_str :: "string \<Rightarrow> gval \<Rightarrow> string option" where
  "get_str old (GStr s) = Some s"
| "get_str old GNil = Some old"
| "get_str old _ = None"

fun get_bool :: "bool \<Rightarrow> gval \<Rightarrow> bool option" where
  "get_bool old (GBool b) = Some b"
| "get_bool old GNil = Some old"
| "get_bool old _ = None"

fun get_elems :: "gval list \<Rightarrow> string list option" where
  "get_elems [] = Some []"
| "get_elems (v # vs) = Option.bind (get_str [] v) (\<lambda>s. Option.bind (get_elems vs) (\<lambda>ss. Some (s # ss)))"

fun get_strs :: "gval \<Rightarrow> string list option" where
  "get_strs (GArr vs) = get_elems vs"
| "get_strs GNil = Some []"
| "get_strs _ = None"

fun get_map_entries :: "(string \<times> gval) list \<Rightarrow> (string \<times> string list) list \<Rightarrow> (string \<times> string list) list option" where
  "get_map_entries [] m = Some m"
| "get_map_entries ((k, v) # kvs) m = Option.bind (get_strs v) (\<lambda>ss. get_map_entries kvs (AList.update k ss m))"

fun get_map :: "(string \<times> string list) list \<Rightarrow> gval \<Rightarrow> (string \<times> string list) list option" where
  "get_map old (GObj kvs) = get_map_entries kvs old"
| "get_map old GNil = Some []"
| "get_map old _ = None"

fun get_redact_members :: "(string \<times> gval) list \<Rightarrow> Redact \<Rightarrow> Redact option" where
  "get_redact_members [] r = Some r"
| "get_redact_members ((k, v) # kvs) r =
     (let k' = ToLower k
      in if k' = ''mask'' then Option.bind (get_strs v) (\<lambda>x. get_redact_members kvs (r\<lparr>red_Mask := x\<rparr>))
         else if k' = ''reveal'' then Option.bind (get_strs v) (\<lambda>x. get_redact_members kvs (r\<lparr>red_Reveal := x\<rparr>))
         else if k' = ''style'' then
           Option.bind (get_str (red_Style r) v) (\<lambda>x. get_redact_members kvs (r\<lparr>red_Style := x\<rparr>))
         else None)"

fun get_redact :: "Redact \<Rightarrow> gval \<Rightarrow> Redact option" where
  "get_redact old (GObj kvs) = get_redact_members kvs old"
| "get_redact old GNil = Some old"
| "get_redact old _ = None"

fun get_cap_members :: "(string \<times> gval) list \<Rightarrow> Capabilities \<Rightarrow> Capabilities option" where
  "get_cap_members [] c = Some c"
| "get_cap_members ((k, v) # kvs) c =
     (let k' = ToLower k
      in if k' = ''search'' then Option.bind (get_strs v) (\<lambda>x. get_cap_members kvs (c\<lparr>cap_Search := x\<rparr>))
         else if k' = ''entities'' then
           Option.bind (get_bool (cap_Entities c) v) (\<lambda>x. get_cap_members kvs (c\<lparr>cap_Entities := x\<rparr>))
         else if k' = ''export'' then
           Option.bind (get_bool (cap_Export c) v) (\<lambda>x. get_cap_members kvs (c\<lparr>cap_Export := x\<rparr>))
         else if k' = ''mcp'' then
           Option.bind (get_bool (cap_MCP c) v) (\<lambda>x. get_cap_members kvs (c\<lparr>cap_MCP := x\<rparr>))
         else if k' = ''events'' then
           Option.bind (get_bool (cap_Events c) v) (\<lambda>x. get_cap_members kvs (c\<lparr>cap_Events := x\<rparr>))
         else None)"

fun get_capabilities :: "Capabilities \<Rightarrow> gval \<Rightarrow> Capabilities option" where
  "get_capabilities old (GObj kvs) = get_cap_members kvs old"
| "get_capabilities old GNil = Some old"
| "get_capabilities old _ = None"

fun get_policy_members :: "(string \<times> gval) list \<Rightarrow> Policy \<Rightarrow> Policy option" where
  "get_policy_members [] p = Some p"
| "get_policy_members ((k, v) # kvs) p =
     (let k' = ToLower k
      in if k' = ''name'' then
           Option.bind (get_str (pol_Name p) v) (\<lambda>x. get_policy_members kvs (p\<lparr>pol_Name := x\<rparr>))
         else if k' = ''data'' then
           Option.bind (get_str (pol_Data p) v) (\<lambda>x. get_policy_members kvs (p\<lparr>pol_Data := x\<rparr>))
         else if k' = ''exclude_classes'' then
           Option.bind (get_strs v) (\<lambda>x. get_policy_members kvs (p\<lparr>pol_ExcludeClasses := x\<rparr>))
         else if k' = ''fields'' then
           Option.bind (get_map (pol_Fields p) v) (\<lambda>x. get_policy_members kvs (p\<lparr>pol_Fields := x\<rparr>))
         else if k' = ''redact'' then
           Option.bind (get_redact (pol_Redact p) v) (\<lambda>x. get_policy_members kvs (p\<lparr>pol_Redact := x\<rparr>))
         else if k' = ''capabilities'' then
           Option.bind (get_capabilities (pol_Capabilities p) v)
             (\<lambda>x. get_policy_members kvs (p\<lparr>pol_Capabilities := x\<rparr>))
         else None)"

fun get_policy :: "gval option \<Rightarrow> Policy option" where
  "get_policy (Some (GObj kvs)) = get_policy_members kvs zero_policy"
| "get_policy (Some GNil) = Some zero_policy"
| "get_policy _ = None"

definition PolicyFromSpec :: "SharePolicy option \<Rightarrow> PolicyError + Policy" where
  "PolicyFromSpec row =
     (case row of
        None \<Rightarrow> Inl NilPolicyRow
      | Some r \<Rightarrow>
          (case get_policy (sp_Spec r) of
             None \<Rightarrow> Inl DecodeSpec
           | Some p0 \<Rightarrow>
               (let p = p0\<lparr>pol_Name := sp_Name r, pol_Version := sp_Version r\<rparr>
                in if Policy_Validate p \<noteq> [] then Inl (SpecInvalid (Policy_Validate p)) else Inr p)))"

section \<open>Class rules\<close>

record ClassRule =
  rule_Class :: string
  rule_Type :: string
  rule_Subtype :: string
  rule_Source :: string
  rule_Profile :: string
  rule_Pipeline :: string
  rule_Tag :: string
  rule_StructuredType :: string

definition StructuredPersonNote :: string where "StructuredPersonNote = ''person_note''"
definition ProfilePersonal :: string where "ProfilePersonal = ''personal''"
definition metadataStructured :: string where "metadataStructured = ''enrichment.structured_metadata''"

definition empty_rule :: ClassRule where
  "empty_rule = \<lparr>rule_Class = [], rule_Type = [], rule_Subtype = [], rule_Source = [], rule_Profile = [],
     rule_Pipeline = [], rule_Tag = [], rule_StructuredType = []\<rparr>"

definition DefaultClassRules :: "ClassRule list" where
  "DefaultClassRules =
     [empty_rule\<lparr>rule_Class := ClassPersonal, rule_StructuredType := StructuredPersonNote\<rparr>,
      empty_rule\<lparr>rule_Class := ClassPersonal, rule_Profile := ProfilePersonal\<rparr>]"

definition Rule_Validate :: "ClassRule \<Rightarrow> bool" where
  "Rule_Validate r \<longleftrightarrow>
     ValidateClassName (rule_Class r) \<and>
     \<not> (rule_Type r = [] \<and> rule_Subtype r = [] \<and> rule_Source r = [] \<and> rule_Profile r = [] \<and>
        rule_Pipeline r = [] \<and> rule_Tag r = [] \<and> rule_StructuredType r = [])"

definition pipelineMatches :: "string \<Rightarrow> string \<Rightarrow> bool" where
  "pipelineMatches have' want \<longleftrightarrow>
     have' = want \<or> Cut_before (CHR ''@'') have' = Cut_before (CHR ''@'') want"

definition hasTag :: "KnowledgeObject \<Rightarrow> string \<Rightarrow> bool" where
  "hasTag obj label \<longleftrightarrow> (\<exists>t \<in> set (ko_Tags obj). tag_Label t = label)"

text \<open>
  \<open>StructuredType\<close>: a value that is not a JSON object does not decode into the typed struct
  and gives the empty string, as a missing member does.
\<close>

definition StructuredType :: "KnowledgeObject option \<Rightarrow> string" where
  "StructuredType obj =
     (case obj of
        None \<Rightarrow> []
      | Some ob \<Rightarrow>
          (case meta_get (ko_Metadata ob) metadataStructured of
             GObj m \<Rightarrow> (case as_string (meta_get m ''type'') of None \<Rightarrow> [] | Some s \<Rightarrow> s)
           | _ \<Rightarrow> []))"

definition Matches :: "ClassRule \<Rightarrow> KnowledgeObject option \<Rightarrow> bool" where
  "Matches r obj =
     (case obj of
        None \<Rightarrow> False
      | Some ob \<Rightarrow>
          (if rule_Type r \<noteq> [] \<and> ko_Type ob \<noteq> rule_Type r then False
           else if rule_Subtype r \<noteq> [] \<and> ko_Subtype ob \<noteq> rule_Subtype r then False
           else if rule_Source r \<noteq> [] \<and> ko_Source ob \<noteq> rule_Source r then False
           else if rule_Profile r \<noteq> [] \<and> ko_ProfileID ob \<noteq> rule_Profile r then False
           else if rule_Pipeline r \<noteq> [] \<and> \<not> pipelineMatches (ko_Pipeline ob) (rule_Pipeline r) then False
           else if rule_Tag r \<noteq> [] \<and> \<not> hasTag ob (rule_Tag r) then False
           else if rule_StructuredType r \<noteq> [] \<and> StructuredType obj \<noteq> rule_StructuredType r then False
           else True))"

definition ApplyClassRules :: "ClassRule list \<Rightarrow> KnowledgeObject option \<Rightarrow> string list" where
  "ApplyClassRules rules obj =
     (case obj of
        None \<Rightarrow> []
      | Some ob \<Rightarrow>
          NormalizeClasses (ko_Classes ob @ map rule_Class (filter (\<lambda>r. Matches r obj) rules)))"

text \<open>\<open>ValidateClassRules\<close> names the index of the first bad rule.\<close>

fun ValidateClassRules :: "nat \<Rightarrow> ClassRule list \<Rightarrow> nat option" where
  "ValidateClassRules i [] = None"
| "ValidateClassRules i (r # rs) = (if Rule_Validate r then ValidateClassRules (Suc i) rs else Some i)"

section \<open>Templates\<close>

definition TemplateColleagues :: string where "TemplateColleagues = ''colleagues-network''"
definition TemplatePartners :: string where "TemplatePartners = ''partners-network''"

definition Templates :: "Policy list" where
  "Templates =
     [zero_policy\<lparr>pol_Name := TemplateColleagues,
        pol_Data := ''type==contact;tag=in=(work,client)'',
        pol_ExcludeClasses := [''personal''],
        pol_Fields := [(''contact'', [''title'', ''org'', ''role'', ''tags'', ''city'']),
                       (''*'', [''title'', ''summary'', ''tags'', ''created_at''])],
        pol_Redact := zero_redact\<lparr>red_Mask := [''email'', ''phone'', ''address''], red_Style := RedactCategory\<rparr>,
        pol_Capabilities :=
          zero_capabilities\<lparr>cap_Search := [''fts'', ''vector''], cap_Entities := True, cap_MCP := True\<rparr>\<rparr>,
      zero_policy\<lparr>pol_Name := TemplatePartners,
        pol_Data := ''type==contact'',
        pol_ExcludeClasses := [''personal''],
        pol_Fields := [(''contact'', [''title'', ''org'', ''role'', ''email'', ''phone'', ''tags'', ''city''])],
        pol_Capabilities :=
          zero_capabilities\<lparr>cap_Search := [''fts'', ''vector'', ''graph''], cap_Entities := True, cap_MCP := True\<rparr>\<rparr>]"

definition Template :: "string \<Rightarrow> Policy option" where
  "Template name = find (\<lambda>p. pol_Name p = name) Templates"

section \<open>Lemmas: the data filter\<close>

lemma checkChildren_None: "checkChildren rs = None \<longleftrightarrow> (\<forall>r \<in> set rs. r = None)"
  by (induction rs rule: checkChildren.induct) auto

text \<open>The fields a comparison of the tree names.\<close>

fun node_fields :: "Node \<Rightarrow> string set" where
  "node_fields (ComparisonNode f op v) = {f}"
| "node_fields (AndNode cs) = (\<Union>c \<in> set cs. node_fields c)"
| "node_fields (OrNode cs) = (\<Union>c \<in> set cs. node_fields c)"

lemma checkPolicyFields_None:
  "checkPolicyFields n = None \<longleftrightarrow>
     (\<forall>f \<in> node_fields n. f \<notin> set crossObjectFields \<and> (f \<in> set PolicyFields \<or> HasPrefix f metadataFieldPrefix))"
  by (induction n) (auto simp: checkChildren_None)

lemma compile_scope_free:
  assumes "\<forall>f \<in> node_fields n. f \<notin> set crossObjectFields"
  shows "compile_node d scope n = compile_node d None n"
  using assms
proof (induction n)
  case (ComparisonNode f op v)
  then have "f \<noteq> ''mention''" and "f \<noteq> ''related''" by (auto simp: crossObjectFields_def)
  then show ?case by (simp add: comparison_def)
next
  case (AndNode cs)
  then have "map (compile_node d scope) cs = map (compile_node d None) cs" by auto
  then show ?case by (simp only: compile_node.simps)
next
  case (OrNode cs)
  then have "map (compile_node d scope) cs = map (compile_node d None) cs" by auto
  then show ?case by (simp only: compile_node.simps)
qed

lemma DataNode_InrD:
  assumes "DataNode p = Inr n"
  shows "Parse (pol_Data p) = Inr n" and "checkPolicyFields n = None" and "accepts n" and "wf_node n"
proof -
  from assms show parse: "Parse (pol_Data p) = Inr n" and "checkPolicyFields n = None"
    by (auto simp: DataNode_def split: if_splits sum.splits option.splits)
  from assms have "\<not> isl (CompileFor DialectSQLite n)"
    by (auto simp: DataNode_def split: if_splits sum.splits option.splits)
  then show "accepts n" by (simp add: CompileFor_def CompileScoped_ok)
  show "wf_node n" using parse by (auto simp: Parse_def intro: parse_wf(1) split: sum.splits if_splits)
qed

lemma DataNode_ok_iff:
  "DataNode p = Inr n \<longleftrightarrow>
     TrimSpace (pol_Data p) \<noteq> [] \<and> Parse (pol_Data p) = Inr n \<and> checkPolicyFields n = None \<and> accepts n"
proof
  assume "DataNode p = Inr n"
  then show "TrimSpace (pol_Data p) \<noteq> [] \<and> Parse (pol_Data p) = Inr n \<and> checkPolicyFields n = None \<and> accepts n"
    using DataNode_InrD [of p n] by (auto simp: DataNode_def split: if_splits)
next
  assume h: "TrimSpace (pol_Data p) \<noteq> [] \<and> Parse (pol_Data p) = Inr n \<and> checkPolicyFields n = None \<and> accepts n"
  then have "\<not> isl (CompileFor d n)" for d by (simp add: CompileFor_def CompileScoped_ok)
  then obtain a b where "CompileFor DialectSQLite n = Inr a" "CompileFor DialectPostgres n = Inr b"
    by (metis isl_def sum.exhaust)
  with h show "DataNode p = Inr n" by (simp add: DataNode_def)
qed

lemma Policy_Validate_NilD:
  assumes "Policy_Validate p = []"
  shows "ValidateSharingName (pol_Name p)" and "\<exists>n. DataNode p = Inr n"
    and "list_all ValidateClassName (pol_ExcludeClasses p)"
    and "set (cap_Search (pol_Capabilities p)) \<subseteq> set SearchModes"
  using assms
  by (auto simp: Policy_Validate_def list_all_iff filter_empty_conv Capabilities_validate_def
      split: if_splits sum.splits)

section \<open>Lemmas: the stored form\<close>

lemma get_elems_GStr [simp]: "get_elems (map GStr xs) = Some xs"
  by (induction xs) auto

lemma get_strs_json [simp]: "get_strs (json_strs xs) = Some xs"
  by (simp add: json_strs_def)

lemma AList_update_fresh: "k \<notin> fst ` set m \<Longrightarrow> AList.update k v m = m @ [(k, v)]"
  by (induction m) auto

lemma get_map_entries_json:
  "distinct (map fst (m @ kvs)) \<Longrightarrow>
   get_map_entries (map (\<lambda>(t, fs). (t, json_strs fs)) kvs) m = Some (m @ kvs)"
proof (induction kvs arbitrary: m)
  case (Cons kv kvs)
  obtain k v where kv: "kv = (k, v)" by (cases kv)
  with Cons.prems have "k \<notin> fst ` set m" by auto
  with Cons kv show ?case by (simp add: AList_update_fresh)
qed simp

lemma ToLower_members [simp]:
  "ToLower ''mask'' = ''mask''" "ToLower ''reveal'' = ''reveal''" "ToLower ''style'' = ''style''"
  "ToLower ''search'' = ''search''" "ToLower ''entities'' = ''entities''" "ToLower ''export'' = ''export''"
  "ToLower ''mcp'' = ''mcp''" "ToLower ''events'' = ''events''" "ToLower ''name'' = ''name''"
  "ToLower ''data'' = ''data''" "ToLower ''exclude_classes'' = ''exclude_classes''"
  "ToLower ''fields'' = ''fields''" "ToLower ''redact'' = ''redact''"
  "ToLower ''capabilities'' = ''capabilities''"
  by code_simp+

lemma get_redact_json [simp]: "get_redact zero_redact (redact_json r) = Some r"
  by (cases r) (simp add: redact_json_def omit_strs_def zero_redact_def)

lemma get_cap_omit:
  "\<not> cap_Entities c \<Longrightarrow> get_cap_members (omit_bool ''entities'' b @ kvs) c = get_cap_members kvs (c\<lparr>cap_Entities := b\<rparr>)"
  "\<not> cap_Export c \<Longrightarrow> get_cap_members (omit_bool ''export'' b @ kvs) c = get_cap_members kvs (c\<lparr>cap_Export := b\<rparr>)"
  "\<not> cap_MCP c \<Longrightarrow> get_cap_members (omit_bool ''mcp'' b @ kvs) c = get_cap_members kvs (c\<lparr>cap_MCP := b\<rparr>)"
  "\<not> cap_Events c \<Longrightarrow> get_cap_members (omit_bool ''events'' b) c = Some (c\<lparr>cap_Events := b\<rparr>)"
  "cap_Search c = [] \<Longrightarrow> get_cap_members (omit_strs ''search'' xs @ kvs) c = get_cap_members kvs (c\<lparr>cap_Search := xs\<rparr>)"
  by (cases c; simp add: omit_bool_def omit_strs_def)+

lemma get_capabilities_json [simp]: "get_capabilities zero_capabilities (capabilities_json c) = Some c"
  by (cases c) (simp add: capabilities_json_def get_cap_omit zero_capabilities_def)

lemma get_policy_json:
  assumes "distinct (map fst (pol_Fields p))"
  shows "get_policy (Some (policy_json p)) = Some (p\<lparr>pol_Version := 0\<rparr>)"
  using assms get_map_entries_json [of "[]" "pol_Fields p"]
  by (cases p) (simp add: policy_json_def omit_strs_def zero_policy_def distinct_clearjunk_id)

section \<open>Lemmas: class rules\<close>

lemma set_ApplyClassRules:
  "set (ApplyClassRules rules (Some ob)) =
     {c. c \<noteq> [] \<and> (\<exists>x \<in> set (ko_Classes ob) \<union> {rule_Class r | r. r \<in> set rules \<and> Matches r (Some ob)}. c = TrimSpace x)}"
  by (auto simp: ApplyClassRules_def set_NormalizeClasses)

lemma ValidateClassRules_None: "ValidateClassRules i rs = None \<longleftrightarrow> list_all Rule_Validate rs"
  by (induction rs arbitrary: i) auto

section \<open>Template evaluation\<close>

lemma parse_colleagues:
  "Parse ''type==contact;tag=in=(work,client)'' =
     Inr (AndNode [ComparisonNode ''type'' OpEq (VStr ''contact''),
                   ComparisonNode ''tag'' OpIn (VList [''work'', ''client''])])"
  by (simp add: Parse_def parse_fuel_def parseComparison_def parseOperator_def lex_eval numeral_eq_Suc)

lemma parse_partners: "Parse ''type==contact'' = Inr (ComparisonNode ''type'' OpEq (VStr ''contact''))"
  by (simp add: Parse_def parse_fuel_def parseComparison_def parseOperator_def lex_eval numeral_eq_Suc)

lemma node_filter_ok:
  assumes "TrimSpace (pol_Data p) \<noteq> []" and "Parse (pol_Data p) = Inr n"
    and "checkPolicyFields n = None" and "accepts n"
  shows "DataNode p = Inr n"
  using assms by (simp add: DataNode_ok_iff)

lemma DataNode_templates:
  "DataNode (Templates ! 0) =
     Inr (AndNode [ComparisonNode ''type'' OpEq (VStr ''contact''),
                   ComparisonNode ''tag'' OpIn (VList [''work'', ''client''])])"
  "DataNode (Templates ! 1) = Inr (ComparisonNode ''type'' OpEq (VStr ''contact''))"
proof -
  let ?n = "AndNode [ComparisonNode ''type'' OpEq (VStr ''contact''),
                   ComparisonNode ''tag'' OpIn (VList [''work'', ''client''])]"
  have "TrimSpace ''type==contact;tag=in=(work,client)'' \<noteq> []" by code_simp
  moreover have "checkPolicyFields ?n = None" by code_simp
  moreover have "accepts ?n" by code_simp
  ultimately show "DataNode (Templates ! 0) = Inr ?n"
    using parse_colleagues by (intro node_filter_ok) (simp_all add: Templates_def)
next
  let ?n = "ComparisonNode ''type'' OpEq (VStr ''contact'')"
  have "TrimSpace ''type==contact'' \<noteq> []" by code_simp
  moreover have "checkPolicyFields ?n = None" by code_simp
  moreover have "accepts ?n" by code_simp
  ultimately show "DataNode (Templates ! 1) = Inr ?n"
    using parse_partners by (intro node_filter_ok) (simp_all add: Templates_def)
qed

lemma template_parts:
  "ValidateSharingName (pol_Name (Templates ! 0)) \<and> list_all ValidateClassName (pol_ExcludeClasses (Templates ! 0)) \<and>
   validateFields (Templates ! 0) = [] \<and> Redact_validate (pol_Redact (Templates ! 0)) = [] \<and>
   Capabilities_validate (pol_Capabilities (Templates ! 0)) = []"
  "ValidateSharingName (pol_Name (Templates ! 1)) \<and> list_all ValidateClassName (pol_ExcludeClasses (Templates ! 1)) \<and>
   validateFields (Templates ! 1) = [] \<and> Redact_validate (pol_Redact (Templates ! 1)) = [] \<and>
   Capabilities_validate (pol_Capabilities (Templates ! 1)) = []"
  by code_simp+

lemma template_valid: "i < 2 \<Longrightarrow> Policy_Validate (Templates ! i) = []"
proof -
  have parts: "Policy_Validate p = []"
    if "ValidateSharingName (pol_Name p) \<and> list_all ValidateClassName (pol_ExcludeClasses p) \<and>
        validateFields p = [] \<and> Redact_validate (pol_Redact p) = [] \<and>
        Capabilities_validate (pol_Capabilities p) = []" and "DataNode p = Inr n" for p n
    using that by (auto simp: Policy_Validate_def list_all_iff filter_empty_conv)
  show "i < 2 \<Longrightarrow> Policy_Validate (Templates ! i) = []"
    using parts [OF template_parts(1) DataNode_templates(1)] parts [OF template_parts(2) DataNode_templates(2)]
    by (auto simp: less_2_cases_iff)
qed

section \<open>Properties\<close>

text \<open>
  C33: a validated policy decides visibility row by row. Its data filter parses to a
  well-formed tree that names none of the cross-object fields and no full-text field, and
  in both dialects it compiles, with one argument per placeholder, to the same SQL and
  arguments whatever scope is in force.
\<close>

theorem validated_policy_is_row_local:
  assumes "Policy_Validate p = []"
  shows "\<exists>n. DataNode p = Inr n \<and> wf_node n \<and>
           node_fields n \<inter> {''mention'', ''related'', ''similar''} = {} \<and>
           (\<exists>sql args. CompileUnnumbered d n scope = Inr (sql, args) \<and>
              CompileUnnumbered d n None = Inr (sql, args) \<and> count_list sql (CHR ''?'') = length args)"
proof -
  from Policy_Validate_NilD(2) [OF assms] obtain n where n: "DataNode p = Inr n" by blast
  note data = DataNode_InrD [OF n]
  then have cross: "\<forall>f \<in> node_fields n. f \<notin> set crossObjectFields" by (simp add: checkPolicyFields_None)
  have "\<not> isl (compile_node d None n)" using data(3) by (simp add: compile_node_ok)
  then obtain sql args where c: "compile_node d None n = Inr (sql, args)"
    by (cases "compile_node d None n") auto
  moreover have "count_list sql (CHR ''?'') = length args"
    using balanced_compile_node [of None d n] c by (simp add: scope_ok_def balanced_def)
  moreover have "\<not> (''similar'' \<in> set PolicyFields \<or> HasPrefix ''similar'' metadataFieldPrefix)" by code_simp
  then have "''similar'' \<notin> node_fields n" using data(2) unfolding checkPolicyFields_None by blast
  then have "node_fields n \<inter> {''mention'', ''related'', ''similar''} = {}"
    using cross by (auto simp: crossObjectFields_def)
  ultimately show ?thesis
    using n data(4) compile_scope_free [OF cross, of d scope] by (auto simp: CompileUnnumbered_def)
qed

theorem validated_policy_is_row_local_witness:
  "Policy_Validate (Templates ! 1) = [] \<and>
   (\<exists>n sql args. DataNode (Templates ! 1) = Inr n \<and> wf_node n \<and>
      CompileUnnumbered DialectPostgres n None = Inr (sql, args) \<and> count_list sql (CHR ''?'') = length args)"
  using template_valid [of 1] validated_policy_is_row_local [of "Templates ! 1" DialectPostgres None] by auto

text \<open>
  What is stored is what was meant. A policy that \<open>Spec\<close> encodes (its field map having
  one entry per type) is read back by \<open>PolicyFromSpec\<close> from a row with its name as the same
  policy at the row's version.
\<close>

theorem policy_spec_roundtrip:
  assumes "Policy_Spec p = Inr spec" and "distinct (map fst (pol_Fields p))"
    and "sp_Name row = pol_Name p" and "sp_Spec row = Some spec"
  shows "PolicyFromSpec (Some row) = Inr (p\<lparr>pol_Version := sp_Version row\<rparr>)"
proof -
  from assms(1) have valid: "Policy_Validate p = []" and spec: "spec = policy_json p"
    by (auto simp: Policy_Spec_def split: if_splits)
  have "Policy_Validate (p\<lparr>pol_Version := v\<rparr>) = Policy_Validate p" for v
    by (simp add: Policy_Validate_def DataNode_def validateFields_def)
  with valid have "Policy_Validate (p\<lparr>pol_Version := v\<rparr>) = []" for v by simp
  then show ?thesis
    using assms(3,4) get_policy_json [OF assms(2)] spec by (simp add: PolicyFromSpec_def Let_def)
qed

theorem policy_spec_roundtrip_witness:
  "\<exists>spec. Policy_Spec (Templates ! 0) = Inr spec \<and>
     PolicyFromSpec (Some \<lparr>sp_ID = ''pol_1'', sp_Name = TemplateColleagues, sp_Version = 3,
       sp_Spec = Some spec, sp_UpdatedAt = 0\<rparr>) = Inr ((Templates ! 0)\<lparr>pol_Version := 3\<rparr>)"
proof -
  have s: "Policy_Spec (Templates ! 0) = Inr (policy_json (Templates ! 0))"
    using template_valid [of 0] by (simp add: Policy_Spec_def)
  have d: "distinct (map fst (pol_Fields (Templates ! 0)))" by (simp add: Templates_def)
  have nm: "TemplateColleagues = pol_Name (Templates ! 0)" by (simp add: Templates_def)
  show ?thesis
    using s policy_spec_roundtrip [OF s d, of "\<lparr>sp_ID = ''pol_1'', sp_Name = TemplateColleagues,
       sp_Version = 3, sp_Spec = Some (policy_json (Templates ! 0)), sp_UpdatedAt = 0\<rparr>"] nm by simp
qed

text \<open>
  The built-in templates are valid policies under the names they are looked up by.
\<close>

theorem templates_are_valid:
  "list_all (\<lambda>p. Policy_Validate p = [] \<and> Template (pol_Name p) = Some p) Templates"
proof -
  have "length Templates = 2" by (simp add: Templates_def)
  then have all: "Policy_Validate p = []" if "p \<in> set Templates" for p
    using that template_valid by (metis in_set_conv_nth)
  have "Template (pol_Name p) = Some p" if "p \<in> set Templates" for p
    using that by (auto simp: Templates_def Template_def TemplateColleagues_def TemplatePartners_def)
  with all show ?thesis by (simp add: list_all_iff)
qed

text \<open>
  Class rules add exactly the classes of the rules that match. On an object with valid
  classes and under valid rules, \<open>ApplyClassRules\<close> returns, without duplicates and in order,
  the object's own classes and the classes of the matching rules; a further application to
  the object so classed changes nothing; and the object of the personal profile is personal
  under the built-in rules.
\<close>

theorem class_rules_exact:
  assumes "list_all ValidateClassName (ko_Classes ob)" and "ValidateClassRules 0 rules = None"
  shows "set (ApplyClassRules rules (Some ob)) =
           set (ko_Classes ob) \<union> {rule_Class r | r. r \<in> set rules \<and> Matches r (Some ob)} \<and>
         sorted_wrt (<) (ApplyClassRules rules (Some ob)) \<and>
         ApplyClassRules rules (Some (ob\<lparr>ko_Classes := ApplyClassRules rules (Some ob)\<rparr>)) =
           ApplyClassRules rules (Some ob) \<and>
         (ko_ProfileID ob = ProfilePersonal \<longrightarrow> ClassPersonal \<in> set (ApplyClassRules DefaultClassRules (Some ob)))"
proof -
  have valid: "list_all ValidateClassName (ko_Classes ob @ map rule_Class (filter (\<lambda>r. Matches r (Some ob)) rules))"
    using assms by (auto simp: ValidateClassRules_None list_all_iff Rule_Validate_def)
  have exact: "set (ApplyClassRules rules (Some ob)) =
      set (ko_Classes ob) \<union> {rule_Class r | r. r \<in> set rules \<and> Matches r (Some ob)}"
    using set_NormalizeClasses_valid [OF valid] by (auto simp: ApplyClassRules_def)
  have strict: "sorted_wrt (<) (ApplyClassRules rules (Some o'))" for o'
    by (simp add: ApplyClassRules_def NormalizeClasses_strict)
  let ?ob' = "ob\<lparr>ko_Classes := ApplyClassRules rules (Some ob)\<rparr>"
  have same: "Matches r (Some ?ob') = Matches r (Some ob)" for r
    by (simp add: Matches_def StructuredType_def hasTag_def)
  have "list_all ValidateClassName (ko_Classes ?ob' @ map rule_Class (filter (\<lambda>r. Matches r (Some ?ob')) rules))"
    using valid exact same by (auto simp: list_all_iff)
  from set_NormalizeClasses_valid [OF this]
  have "set (ApplyClassRules rules (Some ?ob')) = set (ApplyClassRules rules (Some ob))"
    using exact same by (auto simp: ApplyClassRules_def)
  then have "ApplyClassRules rules (Some ?ob') = ApplyClassRules rules (Some ob)"
    by (intro strict_sorted_unique strict)
  moreover have "ko_ProfileID ob = ProfilePersonal \<longrightarrow> ClassPersonal \<in> set (ApplyClassRules DefaultClassRules (Some ob))"
  proof
    assume prof: "ko_ProfileID ob = ProfilePersonal"
    have "ClassPersonal \<noteq> []" "TrimSpace ClassPersonal = ClassPersonal" by code_simp+
    moreover have "\<exists>r \<in> set DefaultClassRules. rule_Class r = ClassPersonal \<and> Matches r (Some ob)"
      using prof by (auto simp: DefaultClassRules_def Matches_def empty_rule_def)
    then have "ClassPersonal \<in> {rule_Class r | r. r \<in> set DefaultClassRules \<and> Matches r (Some ob)}"
      by (metis (mono_tags, lifting) mem_Collect_eq)
    ultimately show "ClassPersonal \<in> set (ApplyClassRules DefaultClassRules (Some ob))"
      unfolding set_ApplyClassRules by (metis (mono_tags, lifting) UnI2 mem_Collect_eq)
  qed
  ultimately show ?thesis using exact strict by blast
qed

theorem class_rules_exact_witness:
  "let ob = zero_object\<lparr>ko_Classes := [''work''], ko_ProfileID := ''personal''\<rparr>
   in list_all ValidateClassName (ko_Classes ob) \<and> ValidateClassRules 0 DefaultClassRules = None \<and>
      set (ApplyClassRules DefaultClassRules (Some ob)) = {''work'', ''personal''}"
proof -
  let ?ob = "zero_object\<lparr>ko_Classes := [''work''], ko_ProfileID := ''personal''\<rparr>"
  have v: "list_all ValidateClassName (ko_Classes ?ob)" by code_simp
  have r: "ValidateClassRules 0 DefaultClassRules = None" by code_simp
  have "map rule_Class (filter (\<lambda>r. Matches r (Some ?ob)) DefaultClassRules) = [''personal'']" by code_simp
  then have "set (map rule_Class (filter (\<lambda>r. Matches r (Some ?ob)) DefaultClassRules)) = {''personal''}"
    by (simp only: list.set)
  then have m: "{rule_Class r | r. r \<in> set DefaultClassRules \<and> Matches r (Some ?ob)} = {''personal''}"
    by (simp only: set_map set_filter) blast
  have "set (ko_Classes ?ob) = {''work''}" by simp
  then show ?thesis using v r class_rules_exact [OF v r] unfolding m Let_def by auto
qed

end
