(* ===== verification/Share_Compile.thy ===== *)
theory Share_Compile
  imports Share_Policy
begin

text \<open>
  Compiled viewers: \<open>internal/sharing/compile.go\<close>, \<open>internal/sharing/viewer.go\<close> and the scope
  a viewer gives the drivers (\<open>internal/storage/scope.go\<close>). The sharing store is an interface
  of the drivers, so what the compiler reads from it is a record of functions. Maps keyed
  by dialect or type are association lists.

  The abstract specification is a set of rows: what a principal may see, written from its
  grants, ceiling and key policy. A compiled viewer's predicate is shown to select exactly
  that set, for any meaning \<open>sat\<close> of the single comparisons the database evaluates.
\<close>

section \<open>Data\<close>

record Grant =
  gr_ID :: string
  gr_Audience :: string
  gr_Policy :: Policy

record Input =
  in_PrincipalID :: string
  in_IdentityID :: string
  in_Grants :: "Grant list"
  in_DenyClasses :: "string list"
  in_KeyPolicy :: "Policy option"

type_synonym field_map = "(string \<times> string list) list"

record GrantPlan =
  gp_ID :: string
  gp_Audience :: string
  gp_Policy :: string
  gp_Version :: int
  gp_Data :: Node
  gp_ExcludeClasses :: "string list"
  gp_Fields :: field_map
  gp_Mask :: "string list"
  gp_Capabilities :: Capabilities

record RenderPlan =
  rp_Grants :: "GrantPlan list"
  rp_Fields :: field_map
  rp_DenyClasses :: "string list"
  rp_Capabilities :: Capabilities
  rp_Masked :: "string list"
  rp_PartExclusions :: "string list"

definition zero_plan :: RenderPlan where
  "zero_plan = \<lparr>rp_Grants = [], rp_Fields = [], rp_DenyClasses = [], rp_Capabilities = zero_capabilities,
     rp_Masked = [], rp_PartExclusions = []\<rparr>"

type_synonym predicate = "string \<times> Value list"

record view =
  vw_principal :: string
  vw_identity :: string
  vw_key :: string
  vw_node :: "Node option"
  vw_sql :: "(Dialect \<times> predicate) list"
  vw_unnumbered :: "(Dialect \<times> predicate) list"
  vw_plan :: RenderPlan

record Viewer =
  vr_unrestricted :: bool
  vr_view :: "view option"

definition zero_viewer :: Viewer where
  "zero_viewer = \<lparr>vr_unrestricted = False, vr_view = None\<rparr>"

definition Unrestricted :: Viewer where
  "Unrestricted = \<lparr>vr_unrestricted = True, vr_view = None\<rparr>"

definition MatchNothing :: string where
  "MatchNothing = ''(1 = 0)''"

definition plan_FieldsFor :: "RenderPlan \<Rightarrow> string \<Rightarrow> string list" where
  "plan_FieldsFor p typ =
     (case map_of (rp_Fields p) typ of
        Some f \<Rightarrow> f
      | None \<Rightarrow> (case map_of (rp_Fields p) ''*'' of Some f \<Rightarrow> f | None \<Rightarrow> []))"

definition ExcludesAny :: "RenderPlan \<Rightarrow> string list \<Rightarrow> bool" where
  "ExcludesAny p classes \<longleftrightarrow> (\<exists>c \<in> set classes. c \<in> set (rp_PartExclusions p))"

section \<open>Predicates\<close>

definition classOut :: "string list \<Rightarrow> Node" where
  "classOut classes = ComparisonNode ''class'' OpOut (VList classes)"

definition andNot :: "Node \<Rightarrow> string list \<Rightarrow> Node" where
  "andNot node classes =
     (let classes' = NormalizeClasses classes
      in if classes' = [] then node else AndNode [node, classOut classes'])"

definition buildPredicate :: "Node list \<Rightarrow> string list \<Rightarrow> Node option \<Rightarrow> Node" where
  "buildPredicate us deny key =
     (let node = (if length us = 1 then hd us else OrNode us);
          parts = [node] @ (if deny \<noteq> [] then [classOut deny] else []) @
                  (case key of None \<Rightarrow> [] | Some k \<Rightarrow> [k])
      in if length parts = 1 then hd parts else AndNode parts)"

section \<open>Plans\<close>

definition intersect_strs :: "string list \<Rightarrow> string list \<Rightarrow> string list" where
  "intersect_strs a b = filter (\<lambda>x. x \<in> set b) a"

definition append_new :: "string list \<Rightarrow> string list \<Rightarrow> string list" where
  "append_new acc fs = foldl (\<lambda>acc f. if f \<in> set acc then acc else acc @ [f]) acc fs"

definition union_entry :: "field_map \<Rightarrow> string \<times> string list \<Rightarrow> field_map" where
  "union_entry m e =
     (case e of (typ, fs) \<Rightarrow>
        if fs = [] then m
        else AList.update typ
               (if FieldAll \<in> set fs then [FieldAll]
                else append_new (case map_of m typ of None \<Rightarrow> [] | Some cur \<Rightarrow> cur) fs) m)"

definition unionCapabilities :: "Capabilities \<Rightarrow> Capabilities \<Rightarrow> Capabilities" where
  "unionCapabilities a b =
     \<lparr>cap_Search = append_new (cap_Search a) (cap_Search b),
      cap_Entities = (cap_Entities a \<or> cap_Entities b),
      cap_Export = (cap_Export a \<or> cap_Export b),
      cap_MCP = (cap_MCP a \<or> cap_MCP b),
      cap_Events = (cap_Events a \<or> cap_Events b)\<rparr>"

definition intersectCapabilities :: "Capabilities \<Rightarrow> Capabilities \<Rightarrow> Capabilities" where
  "intersectCapabilities a b =
     \<lparr>cap_Search = intersect_strs (cap_Search a) (cap_Search b),
      cap_Entities = (cap_Entities a \<and> cap_Entities b),
      cap_Export = (cap_Export a \<and> cap_Export b),
      cap_MCP = (cap_MCP a \<and> cap_MCP b),
      cap_Events = (cap_Events a \<and> cap_Events b)\<rparr>"

definition union_fields :: "Grant list \<Rightarrow> field_map" where
  "union_fields grants =
     foldl (\<lambda>m g. foldl union_entry m (AList.clearjunk (pol_Fields (gr_Policy g)))) [] grants"

definition union_caps :: "Grant list \<Rightarrow> Capabilities" where
  "union_caps grants = foldl (\<lambda>c g. unionCapabilities c (pol_Capabilities (gr_Policy g))) zero_capabilities grants"

definition union_masked :: "Grant list \<Rightarrow> string list" where
  "union_masked grants =
     (case grants of
        [] \<Rightarrow> []
      | g # gs \<Rightarrow>
          foldl (\<lambda>m h. intersect_strs m (red_Mask (pol_Redact (gr_Policy h)))) (red_Mask (pol_Redact (gr_Policy g))) gs)"

definition unionPlan :: "Grant list \<Rightarrow> field_map \<times> Capabilities \<times> string list" where
  "unionPlan grants = (union_fields grants, union_caps grants, NormalizeClasses (union_masked grants))"

definition intersectFields :: "field_map \<Rightarrow> Policy \<Rightarrow> field_map" where
  "intersectFields m key =
     filter (\<lambda>(typ, kept). kept \<noteq> [])
       (map (\<lambda>(typ, fs).
          (typ, let allowed = Policy_FieldsFor key typ
                in if FieldAll \<in> set allowed then fs
                   else if FieldAll \<in> set fs then allowed
                   else intersect_strs fs allowed)) (AList.clearjunk m))"

section \<open>Compile\<close>

datatype ViewerError =
    PrincipalRequired
  | GrantPolicyError string PolicyError
  | KeyPolicyError PolicyError
  | PredicateError CompileError
  | StoreNotFound
  | StoreFailed string
  | ViewAsUnknown

definition grant_key :: "Grant \<Rightarrow> string" where
  "grant_key g = '';grant='' @ gr_ID g @ '':'' @ pol_Name (gr_Policy g) @ ''@'' @ Itoa (pol_Version (gr_Policy g))"

definition policyKey :: "Input \<Rightarrow> Grant list \<Rightarrow> string" where
  "policyKey inp grants =
     ''principal='' @ in_PrincipalID inp @ '';deny='' @ Join (NormalizeClasses (in_DenyClasses inp)) '','' @
     (case in_KeyPolicy inp of
        None \<Rightarrow> []
      | Some k \<Rightarrow> '';key='' @ pol_Name k @ ''@'' @ Itoa (pol_Version k)) @
     concat (map grant_key grants)"

definition sort_grants :: "Grant list \<Rightarrow> Grant list" where
  "sort_grants grants = sort_key gr_ID grants"

definition Input_Key :: "Input \<Rightarrow> string" where
  "Input_Key inp = policyKey inp (sort_grants (in_Grants inp))"

definition grant_plan :: "Grant \<Rightarrow> Node \<Rightarrow> GrantPlan" where
  "grant_plan g node =
     \<lparr>gp_ID = gr_ID g, gp_Audience = gr_Audience g, gp_Policy = pol_Name (gr_Policy g),
      gp_Version = pol_Version (gr_Policy g), gp_Data = node,
      gp_ExcludeClasses = NormalizeClasses (pol_ExcludeClasses (gr_Policy g)),
      gp_Fields = pol_Fields (gr_Policy g), gp_Mask = red_Mask (pol_Redact (gr_Policy g)),
      gp_Capabilities = pol_Capabilities (gr_Policy g)\<rparr>"

text \<open>The loop over the grants: the union's nodes and the grants' plans.\<close>

fun compile_grants :: "Grant list \<Rightarrow> ViewerError + Node list \<times> GrantPlan list" where
  "compile_grants [] = Inr ([], [])"
| "compile_grants (g # gs) =
     (case DataNode (gr_Policy g) of
        Inl e \<Rightarrow> Inl (GrantPolicyError (gr_ID g) e)
      | Inr node \<Rightarrow>
          (case compile_grants gs of
             Inl e \<Rightarrow> Inl e
           | Inr (nodes, plans) \<Rightarrow>
               Inr (andNot node (pol_ExcludeClasses (gr_Policy g)) # nodes, grant_plan g node # plans)))"

text \<open>The loop over the dialects: the numbered and the unnumbered predicate of each.\<close>

fun compile_dialects :: "Node \<Rightarrow> Dialect list \<Rightarrow> ViewerError + (Dialect \<times> predicate) list \<times> (Dialect \<times> predicate) list" where
  "compile_dialects node [] = Inr ([], [])"
| "compile_dialects node (d # ds) =
     (case CompileFor d node of
        Inl e \<Rightarrow> Inl (PredicateError e)
      | Inr p \<Rightarrow>
          (case CompileUnnumbered d node None of
             Inl e \<Rightarrow> Inl (PredicateError e)
           | Inr u \<Rightarrow>
               (case compile_dialects node ds of
                  Inl e \<Rightarrow> Inl e
                | Inr (ps, us) \<Rightarrow> Inr ((d, p) # ps, (d, u) # us))))"

definition key_node :: "Policy option \<Rightarrow> ViewerError + Node option" where
  "key_node kp =
     (case kp of
        None \<Rightarrow> Inr None
      | Some k \<Rightarrow>
          (case DataNode k of
             Inl e \<Rightarrow> Inl (KeyPolicyError e)
           | Inr node \<Rightarrow> Inr (Some (andNot node (pol_ExcludeClasses k)))))"

definition build_plan :: "Input \<Rightarrow> Grant list \<Rightarrow> GrantPlan list \<Rightarrow> RenderPlan" where
  "build_plan inp grants plans =
     (let (fl, caps, masked) = unionPlan grants;
          exclusions = in_DenyClasses inp @ concat (map (\<lambda>g. pol_ExcludeClasses (gr_Policy g)) grants)
      in \<lparr>rp_Grants = plans,
          rp_Fields = (case in_KeyPolicy inp of None \<Rightarrow> fl | Some k \<Rightarrow> intersectFields fl k),
          rp_DenyClasses = NormalizeClasses (in_DenyClasses inp),
          rp_Capabilities =
            (case in_KeyPolicy inp of None \<Rightarrow> caps | Some k \<Rightarrow> intersectCapabilities caps (pol_Capabilities k)),
          rp_Masked = masked,
          rp_PartExclusions =
            NormalizeClasses (exclusions @ (case in_KeyPolicy inp of None \<Rightarrow> [] | Some k \<Rightarrow> pol_ExcludeClasses k))\<rparr>)"

definition Compile_viewer :: "Input \<Rightarrow> ViewerError + Viewer" where
  "Compile_viewer inp =
     (if in_PrincipalID inp = [] then Inl PrincipalRequired
      else
        (let grants = sort_grants (in_Grants inp)
         in case compile_grants grants of
              Inl e \<Rightarrow> Inl e
            | Inr (nodes, plans) \<Rightarrow>
                (case key_node (in_KeyPolicy inp) of
                   Inl e \<Rightarrow> Inl e
                 | Inr keyNode \<Rightarrow>
                     (let plan = build_plan inp grants plans;
                          v = \<lparr>vw_principal = in_PrincipalID inp, vw_identity = in_IdentityID inp,
                               vw_key = policyKey inp grants, vw_node = None, vw_sql = [], vw_unnumbered = [],
                               vw_plan = plan\<rparr>
                      in if nodes = [] then Inr \<lparr>vr_unrestricted = False, vr_view = Some v\<rparr>
                         else
                           (let node = buildPredicate nodes (rp_DenyClasses plan) keyNode
                            in case compile_dialects node [DialectSQLite, DialectPostgres] of
                                 Inl e \<Rightarrow> Inl e
                               | Inr (ps, us) \<Rightarrow>
                                   Inr \<lparr>vr_unrestricted = False,
                                        vr_view = Some (v\<lparr>vw_node := Some node, vw_sql := ps, vw_unnumbered := us\<rparr>)\<rparr>)))))"

section \<open>Viewers\<close>

definition IsUnrestricted :: "Viewer \<Rightarrow> bool" where
  "IsUnrestricted v = vr_unrestricted v"

definition Viewer_PrincipalID :: "Viewer \<Rightarrow> string" where
  "Viewer_PrincipalID v = (case vr_view v of None \<Rightarrow> [] | Some w \<Rightarrow> vw_principal w)"

definition Viewer_IdentityID :: "Viewer \<Rightarrow> string" where
  "Viewer_IdentityID v = (case vr_view v of None \<Rightarrow> [] | Some w \<Rightarrow> vw_identity w)"

definition PolicyKey :: "Viewer \<Rightarrow> string" where
  "PolicyKey v =
     (if vr_unrestricted v then ''unrestricted''
      else case vr_view v of None \<Rightarrow> [] | Some w \<Rightarrow> vw_key w)"

definition MatchesNothing :: "Viewer \<Rightarrow> bool" where
  "MatchesNothing v =
     (\<not> vr_unrestricted v \<and> (case vr_view v of None \<Rightarrow> True | Some w \<Rightarrow> vw_node w = None))"

definition find_predicate :: "(Dialect \<times> predicate) list \<Rightarrow> Dialect \<Rightarrow> predicate" where
  "find_predicate m d = (case map_of m d of None \<Rightarrow> ([], []) | Some p \<Rightarrow> p)"

definition Predicate :: "Viewer \<Rightarrow> Dialect \<Rightarrow> predicate" where
  "Predicate v d =
     (if vr_unrestricted v then ([], [])
      else if MatchesNothing v then (MatchNothing, [])
      else case vr_view v of None \<Rightarrow> ([], []) | Some w \<Rightarrow> find_predicate (vw_sql w) d)"

definition SQLDialectPostgres :: string where "SQLDialectPostgres = ''postgres''"

definition ObjectPredicate :: "Viewer \<Rightarrow> string \<Rightarrow> predicate" where
  "ObjectPredicate v dialect =
     (if vr_unrestricted v then ([], [])
      else if MatchesNothing v then (MatchNothing, [])
      else
        (let d = (if dialect = SQLDialectPostgres then DialectPostgres else DialectSQLite)
         in case vr_view v of None \<Rightarrow> ([], []) | Some w \<Rightarrow> find_predicate (vw_unnumbered w) d))"

definition CapabilityEntities :: string where "CapabilityEntities = ''entities''"
definition CapabilityExport :: string where "CapabilityExport = ''export''"
definition CapabilityMCP :: string where "CapabilityMCP = ''mcp''"
definition CapabilityEvents :: string where "CapabilityEvents = ''events''"
definition CapabilitySearchPrefix :: string where "CapabilitySearchPrefix = ''search:''"

definition caps_allow :: "Capabilities \<Rightarrow> string \<Rightarrow> bool" where
  "caps_allow caps c =
     (if HasPrefix c CapabilitySearchPrefix
      then drop (length CapabilitySearchPrefix) c \<in> set (cap_Search caps)
      else if c = CapabilityEntities then cap_Entities caps
      else if c = CapabilityExport then cap_Export caps
      else if c = CapabilityMCP then cap_MCP caps
      else if c = CapabilityEvents then cap_Events caps
      else False)"

definition Allows :: "Viewer \<Rightarrow> string \<Rightarrow> bool" where
  "Allows v c =
     (if vr_unrestricted v then True
      else case vr_view v of
             None \<Rightarrow> False
           | Some w \<Rightarrow> caps_allow (rp_Capabilities (vw_plan w)) c)"

definition PredicateNode :: "Viewer \<Rightarrow> Node option" where
  "PredicateNode v = (case vr_view v of None \<Rightarrow> None | Some w \<Rightarrow> vw_node w)"

definition Plan :: "Viewer \<Rightarrow> RenderPlan" where
  "Plan v = (case vr_view v of None \<Rightarrow> zero_plan | Some w \<Rightarrow> vw_plan w)"

text \<open>A request context holds at most one viewer.\<close>

definition WithViewer :: "Viewer option \<Rightarrow> Viewer \<Rightarrow> Viewer option" where
  "WithViewer ctx v = Some v"

definition FromContext :: "Viewer option \<Rightarrow> Viewer \<times> bool" where
  "FromContext ctx = (case ctx of None \<Rightarrow> (zero_viewer, False) | Some v \<Rightarrow> (v, True))"

section \<open>The scope of the drivers\<close>

definition matchNothing :: string where "matchNothing = ''(1 = 0)''"

text \<open>\<open>ViewerScope\<close>: \<open>None\<close> for the false second result.\<close>

definition ViewerScope :: "Viewer option \<Rightarrow> string \<Rightarrow> Scope option" where
  "ViewerScope vo dialect =
     (case vo of
        None \<Rightarrow> None
      | Some v \<Rightarrow>
          (if IsUnrestricted v then None
           else
             (let (pred0, args0) = ObjectPredicate v dialect;
                  (pred, args) = (if pred0 = [] then (matchNothing, []) else (pred0, args0))
              in Some \<lparr>sc_SQL = ''status = ? AND ('' @ pred @ '')'',
                       sc_Args = VStr ObjectStatusActive # args,
                       sc_Entities = Allows v CapabilityEntities,
                       sc_Principal = Viewer_PrincipalID v\<rparr>)))"

section \<open>Reading the registry\<close>

datatype StoreError = ErrNotFound | OtherError string

text \<open>The part of \<open>storage.SharingStore\<close> the compiler and the resolver read, as the drivers answer it.\<close>

record SharingStore =
  ss_DenyClasses :: "string \<Rightarrow> StoreError + string list"
  ss_ListActiveForPrincipal :: "string \<Rightarrow> time \<Rightarrow> StoreError + ActiveGrant list"
  ss_IdentityPolicy :: "string \<Rightarrow> StoreError + string"
  ss_Policies_Get :: "string \<Rightarrow> StoreError + SharePolicy"
  ss_Policies_GetByName :: "string \<Rightarrow> StoreError + SharePolicy"

fun store_error :: "StoreError \<Rightarrow> ViewerError" where
  "store_error ErrNotFound = StoreNotFound"
| "store_error (OtherError m) = StoreFailed m"

fun load_grants :: "ActiveGrant list \<Rightarrow> ViewerError + Grant list" where
  "load_grants [] = Inr []"
| "load_grants (ag # ags) =
     (case PolicyFromSpec (Some (ag_Policy ag)) of
        Inl e \<Rightarrow> Inl (GrantPolicyError (grant_ID (ag_Grant ag)) e)
      | Inr p \<Rightarrow>
          (case load_grants ags of
             Inl e \<Rightarrow> Inl e
           | Inr gs \<Rightarrow> Inr (\<lparr>gr_ID = grant_ID (ag_Grant ag), gr_Audience = aud_Name (ag_Audience ag), gr_Policy = p\<rparr> # gs)))"

definition load_key_policy :: "SharingStore \<Rightarrow> string \<Rightarrow> ViewerError + Policy option" where
  "load_key_policy st identityID =
     (if identityID = [] then Inr None
      else case ss_IdentityPolicy st identityID of
             Inl e \<Rightarrow> Inl (store_error e)
           | Inr policyID \<Rightarrow>
               (if policyID = [] then Inr None
                else case ss_Policies_Get st policyID of
                       Inl e \<Rightarrow> Inl (store_error e)
                     | Inr row \<Rightarrow>
                         (case PolicyFromSpec (Some row) of
                            Inl e \<Rightarrow> Inl (KeyPolicyError e)
                          | Inr p \<Rightarrow> Inr (Some p))))"

definition loadInput :: "SharingStore \<Rightarrow> string \<Rightarrow> string \<Rightarrow> time \<Rightarrow> ViewerError + Input" where
  "loadInput st principalID identityID now =
     (case ss_DenyClasses st principalID of
        Inl e \<Rightarrow> Inl (store_error e)
      | Inr deny \<Rightarrow>
          (case ss_ListActiveForPrincipal st principalID now of
             Inl e \<Rightarrow> Inl (store_error e)
           | Inr active \<Rightarrow>
               (case load_grants active of
                  Inl e \<Rightarrow> Inl e
                | Inr grants \<Rightarrow>
                    (case load_key_policy st identityID of
                       Inl e \<Rightarrow> Inl e
                     | Inr kp \<Rightarrow>
                         Inr \<lparr>in_PrincipalID = principalID, in_IdentityID = identityID, in_Grants = grants,
                              in_DenyClasses = deny, in_KeyPolicy = kp\<rparr>))))"

definition CompileFor_viewer :: "SharingStore \<Rightarrow> string \<Rightarrow> string \<Rightarrow> time \<Rightarrow> ViewerError + Viewer" where
  "CompileFor_viewer st principalID identityID now =
     (case loadInput st principalID identityID now of Inl e \<Rightarrow> Inl e | Inr inp \<Rightarrow> Compile_viewer inp)"

end
