(* ===== verification/Share_Visibility.thy ===== *)
theory Share_Visibility
  imports Share_Compile
begin

text \<open>
  What a compiled viewer can see. A row of the objects table is abstract: \<open>cls\<close> reads its
  classes and \<open>sat\<close> decides every other comparison, as the database does. A comparison on
  the class field has the meaning \<open>compileClass\<close> documents: equality and membership hold
  when some class matches, their negations when none does. \<open>AND\<close> and \<open>OR\<close> select a row as
  SQL does when it keeps the rows whose condition is true.

  \<open>may_see\<close> is the specification: some grant admits the row, no class of it is denied, and
  the key policy, if any, admits it too. The lemmas connect it to \<open>Compile_viewer\<close>.
\<close>

section \<open>Meaning of predicates\<close>

fun class_holds :: "Operator \<Rightarrow> Value \<Rightarrow> string list \<Rightarrow> bool" where
  "class_holds OpEq (VStr c) cs = (c \<in> set cs)"
| "class_holds OpNeq (VStr c) cs = (c \<notin> set cs)"
| "class_holds OpIn (VList vs) cs = (set vs \<inter> set cs \<noteq> {})"
| "class_holds OpOut (VList vs) cs = (set vs \<inter> set cs = {})"
| "class_holds _ _ cs = False"

type_synonym 'r meaning = "'r \<Rightarrow> string \<Rightarrow> Operator \<Rightarrow> Value \<Rightarrow> bool"

fun holds :: "'r meaning \<Rightarrow> ('r \<Rightarrow> string list) \<Rightarrow> 'r \<Rightarrow> Node \<Rightarrow> bool" where
  "holds sat cls row (ComparisonNode f op v) =
     (if f = ''class'' then class_holds op v (cls row) else sat row f op v)"
| "holds sat cls row (AndNode cs) = (\<forall>c \<in> set cs. holds sat cls row c)"
| "holds sat cls row (OrNode cs) = (\<exists>c \<in> set cs. holds sat cls row c)"

section \<open>The specification\<close>

definition free_of :: "string list \<Rightarrow> string list \<Rightarrow> bool" where
  "free_of classes cs \<longleftrightarrow> set (NormalizeClasses classes) \<inter> set cs = {}"

definition admits :: "'r meaning \<Rightarrow> ('r \<Rightarrow> string list) \<Rightarrow> Policy \<Rightarrow> 'r \<Rightarrow> bool" where
  "admits sat cls p row =
     (case DataNode p of
        Inl _ \<Rightarrow> False
      | Inr n \<Rightarrow> holds sat cls row n \<and> free_of (pol_ExcludeClasses p) (cls row))"

definition may_see :: "'r meaning \<Rightarrow> ('r \<Rightarrow> string list) \<Rightarrow> Input \<Rightarrow> 'r \<Rightarrow> bool" where
  "may_see sat cls inp row \<longleftrightarrow>
     (\<exists>g \<in> set (in_Grants inp). admits sat cls (gr_Policy g) row) \<and>
     free_of (in_DenyClasses inp) (cls row) \<and>
     (case in_KeyPolicy inp of None \<Rightarrow> True | Some k \<Rightarrow> admits sat cls k row)"

definition viewer_sees :: "'r meaning \<Rightarrow> ('r \<Rightarrow> string list) \<Rightarrow> Viewer \<Rightarrow> 'r \<Rightarrow> bool" where
  "viewer_sees sat cls v row \<longleftrightarrow>
     IsUnrestricted v \<or> (case PredicateNode v of None \<Rightarrow> False | Some n \<Rightarrow> holds sat cls row n)"

section \<open>Predicates mean what they should\<close>

lemma holds_classOut: "holds sat cls row (classOut cs) \<longleftrightarrow> set cs \<inter> set (cls row) = {}"
  by (simp add: classOut_def)

lemma holds_andNot:
  "holds sat cls row (andNot n classes) \<longleftrightarrow> holds sat cls row n \<and> free_of classes (cls row)"
  by (auto simp: andNot_def Let_def free_of_def holds_classOut)

lemma holds_buildPredicate:
  assumes "us \<noteq> []"
  shows "holds sat cls row (buildPredicate us deny key) \<longleftrightarrow>
     (\<exists>u \<in> set us. holds sat cls row u) \<and> set deny \<inter> set (cls row) = {} \<and>
     (case key of None \<Rightarrow> True | Some k \<Rightarrow> holds sat cls row k)"
proof -
  define node where "node = (if length us = 1 then hd us else OrNode us)"
  have node: "holds sat cls row node \<longleftrightarrow> (\<exists>u \<in> set us. holds sat cls row u)"
    using assms by (cases us; cases "tl us") (auto simp: node_def)
  have "holds sat cls row (if length parts = 1 then hd parts else AndNode parts) \<longleftrightarrow>
      (\<forall>p \<in> set parts. holds sat cls row p)" if "parts \<noteq> []" for parts
    using that by (cases parts; cases "tl parts") auto
  then show ?thesis
    unfolding buildPredicate_def node_def [symmetric] Let_def
    by (auto simp: node holds_classOut split: option.splits if_splits)
qed

lemma accepts_andNot: "accepts n \<Longrightarrow> accepts (andNot n classes)"
  by (simp add: andNot_def Let_def classOut_def is_list_def)

lemma compile_grants_nodes:
  "compile_grants gs = Inr (nodes, plans) \<Longrightarrow>
   list_all2 (\<lambda>u g. \<exists>n. DataNode (gr_Policy g) = Inr n \<and> u = andNot n (pol_ExcludeClasses (gr_Policy g))) nodes gs"
  by (induction gs arbitrary: nodes plans) (auto split: sum.splits)

lemma node_of_grant_holds:
  assumes "DataNode (gr_Policy g) = Inr n" and "u = andNot n (pol_ExcludeClasses (gr_Policy g))"
  shows "holds sat cls row u \<longleftrightarrow> admits sat cls (gr_Policy g) row" and "accepts u"
  using assms DataNode_InrD(3) [OF assms(1)] by (simp_all add: holds_andNot admits_def accepts_andNot)

lemma compile_grants_InrD:
  assumes "compile_grants gs = Inr (nodes, plans)"
  shows "(\<exists>u \<in> set nodes. holds sat cls row u) \<longleftrightarrow> (\<exists>g \<in> set gs. admits sat cls (gr_Policy g) row)"
    and "nodes = [] \<longleftrightarrow> gs = []"
    and "list_all accepts nodes"
proof -
  note all2 = compile_grants_nodes [OF assms]
  then show "(\<exists>u \<in> set nodes. holds sat cls row u) \<longleftrightarrow> (\<exists>g \<in> set gs. admits sat cls (gr_Policy g) row)"
    by (induction rule: list_all2_induct) (auto simp: node_of_grant_holds(1))
  from all2 show "nodes = [] \<longleftrightarrow> gs = []" by (auto dest: list_all2_lengthD)
  from all2 show "list_all accepts nodes"
    by (induction rule: list_all2_induct) (auto simp: node_of_grant_holds(2))
qed

lemma compile_grants_total:
  "(\<And>g. g \<in> set gs \<Longrightarrow> \<exists>n. DataNode (gr_Policy g) = Inr n) \<Longrightarrow> \<exists>r. compile_grants gs = Inr r"
proof (induction gs)
  case (Cons g gs)
  from Cons.prems [of g] obtain n where "DataNode (gr_Policy g) = Inr n" by auto
  moreover from Cons obtain nodes plans where "compile_grants gs = Inr (nodes, plans)" by fastforce
  ultimately show ?case by simp
qed simp

lemma key_node_InrD:
  assumes "key_node kp = Inr kn"
  shows "(case kn of None \<Rightarrow> True | Some k \<Rightarrow> holds sat cls row k) \<longleftrightarrow>
      (case kp of None \<Rightarrow> True | Some p \<Rightarrow> admits sat cls p row)"
    and "\<forall>k. kn = Some k \<longrightarrow> accepts k"
  using assms
  by (auto simp: key_node_def admits_def holds_andNot accepts_andNot
      dest: DataNode_InrD(3) split: option.splits sum.splits)

lemma accepts_buildPredicate:
  assumes "us \<noteq> []" and "list_all accepts us" and "\<forall>k. key = Some k \<longrightarrow> accepts k"
  shows "accepts (buildPredicate us deny key)"
proof -
  have "accepts (hd us)" using assms(1,2) by (cases us) auto
  moreover have "accepts (OrNode us)" using assms(2) by (simp add: list_all_iff)
  ultimately show ?thesis
    using assms(3) by (auto simp: buildPredicate_def Let_def classOut_def is_list_def split: option.splits)
qed

section \<open>The compiled viewer\<close>

lemma compile_dialects_InrD:
  assumes "compile_dialects node [DialectSQLite, DialectPostgres] = Inr (ps, us)"
  shows "CompileFor d node = Inr (find_predicate ps d)"
    and "CompileUnnumbered d node None = Inr (find_predicate us d)"
  using assms by (cases d; auto simp: find_predicate_def split: sum.splits)+

lemma compile_dialects_total: "accepts node \<Longrightarrow> \<exists>r. compile_dialects node ds = Inr r"
proof (induction ds)
  case (Cons d ds)
  then obtain ps us where rest: "compile_dialects node ds = Inr (ps, us)" by fastforce
  have "\<not> isl (CompileFor d node)" "\<not> isl (CompileUnnumbered d node None)"
    using Cons.prems by (simp_all add: CompileFor_def CompileScoped_ok CompileUnnumbered_def compile_node_ok)
  with rest show ?case by (auto split: sum.splits simp: isl_def)
qed simp

lemma set_sort_grants [simp]: "set (sort_grants gs) = set gs"
  by (simp add: sort_grants_def)

lemma sort_grants_Nil [simp]: "sort_grants gs = [] \<longleftrightarrow> gs = []"
  using set_sort_grants [of gs] by (metis set_empty)

text \<open>Everything a successful compilation fixes of the viewer.\<close>

lemma Compile_viewer_InrE:
  assumes "Compile_viewer inp = Inr v"
  obtains nodes plans kn w where
    "in_PrincipalID inp \<noteq> []"
    "compile_grants (sort_grants (in_Grants inp)) = Inr (nodes, plans)"
    "key_node (in_KeyPolicy inp) = Inr kn"
    "v = \<lparr>vr_unrestricted = False, vr_view = Some w\<rparr>"
    "vw_principal w = in_PrincipalID inp" "vw_identity w = in_IdentityID inp"
    "vw_key w = Input_Key inp"
    "vw_plan w = build_plan inp (sort_grants (in_Grants inp)) plans"
    "vw_node w = (if nodes = [] then None
       else Some (buildPredicate nodes (NormalizeClasses (in_DenyClasses inp)) kn))"
    "\<forall>n. vw_node w = Some n \<longrightarrow>
       compile_dialects n [DialectSQLite, DialectPostgres] = Inr (vw_sql w, vw_unnumbered w)"
proof -
  from assms obtain nodes plans kn where
    p: "in_PrincipalID inp \<noteq> []" and g: "compile_grants (sort_grants (in_Grants inp)) = Inr (nodes, plans)"
    and k: "key_node (in_KeyPolicy inp) = Inr kn"
    by (auto simp: Compile_viewer_def Let_def split: if_splits sum.splits)
  let ?plan = "build_plan inp (sort_grants (in_Grants inp)) plans"
  have deny: "rp_DenyClasses ?plan = NormalizeClasses (in_DenyClasses inp)"
    by (simp add: build_plan_def Let_def split: prod.splits)
  show ?thesis
  proof (cases "nodes = []")
    case True
    with assms p g k show ?thesis
      by (intro that [of nodes plans kn]) (auto simp: Compile_viewer_def Let_def Input_Key_def)
  next
    case False
    let ?node = "buildPredicate nodes (NormalizeClasses (in_DenyClasses inp)) kn"
    from assms p g k False obtain ps us where
      d: "compile_dialects ?node [DialectSQLite, DialectPostgres] = Inr (ps, us)"
      by (auto simp: Compile_viewer_def Let_def deny simp del: compile_dialects.simps split: sum.splits)
    with assms p g k False show ?thesis
      by (intro that [of nodes plans kn])
         (auto simp: Compile_viewer_def Let_def deny Input_Key_def simp del: compile_dialects.simps)
  qed
qed

lemma viewer_sees_may_see:
  assumes "Compile_viewer inp = Inr v"
  shows "viewer_sees sat cls v row \<longleftrightarrow> may_see sat cls inp row"
proof -
  from assms obtain nodes plans kn w where c:
    "compile_grants (sort_grants (in_Grants inp)) = Inr (nodes, plans)"
    "key_node (in_KeyPolicy inp) = Inr kn"
    "v = \<lparr>vr_unrestricted = False, vr_view = Some w\<rparr>"
    "vw_node w = (if nodes = [] then None
       else Some (buildPredicate nodes (NormalizeClasses (in_DenyClasses inp)) kn))"
    by (rule Compile_viewer_InrE)
  note grants = compile_grants_InrD [OF c(1)]
  show ?thesis
  proof (cases "nodes = []")
    case True
    then have "in_Grants inp = []" using grants(2) by simp
    with True c(3,4) show ?thesis
      by (simp add: viewer_sees_def may_see_def IsUnrestricted_def PredicateNode_def)
  next
    case False
    with c(3,4) show ?thesis
      using grants(1) [of sat cls row] key_node_InrD(1) [OF c(2), of sat cls row]
      by (simp add: viewer_sees_def may_see_def IsUnrestricted_def PredicateNode_def
          holds_buildPredicate free_of_def)
  qed
qed

section \<open>Plans\<close>

lemma build_plan_sel [simp]:
  "rp_Grants (build_plan inp gs plans) = plans"
  "rp_Fields (build_plan inp gs plans) =
     (case in_KeyPolicy inp of None \<Rightarrow> union_fields gs | Some k \<Rightarrow> intersectFields (union_fields gs) k)"
  "rp_DenyClasses (build_plan inp gs plans) = NormalizeClasses (in_DenyClasses inp)"
  "rp_Capabilities (build_plan inp gs plans) =
     (case in_KeyPolicy inp of None \<Rightarrow> union_caps gs
      | Some k \<Rightarrow> intersectCapabilities (union_caps gs) (pol_Capabilities k))"
  "rp_PartExclusions (build_plan inp gs plans) =
     NormalizeClasses (in_DenyClasses inp @ concat (map (\<lambda>g. pol_ExcludeClasses (gr_Policy g)) gs) @
       (case in_KeyPolicy inp of None \<Rightarrow> [] | Some k \<Rightarrow> pol_ExcludeClasses k))"
  by (simp_all add: build_plan_def unionPlan_def Let_def)

lemma Plan_compiled:
  assumes "Compile_viewer inp = Inr v"
  obtains plans where "Plan v = build_plan inp (sort_grants (in_Grants inp)) plans"
    "\<And>c. Allows v c = caps_allow (rp_Capabilities (build_plan inp (sort_grants (in_Grants inp)) plans)) c"
    "\<not> IsUnrestricted v" "Viewer_PrincipalID v = in_PrincipalID inp" "PolicyKey v = Input_Key inp"
  using assms
  by (rule Compile_viewer_InrE)
     (auto simp: Plan_def Allows_def IsUnrestricted_def Viewer_PrincipalID_def PolicyKey_def intro: that)

lemma set_append_new: "set (append_new acc fs) = set acc \<union> set fs"
  unfolding append_new_def by (induction fs arbitrary: acc) auto

lemma caps_allow_union: "caps_allow (unionCapabilities a b) c \<longleftrightarrow> caps_allow a c \<or> caps_allow b c"
  by (simp add: caps_allow_def unionCapabilities_def set_append_new)

lemma caps_allow_intersect: "caps_allow (intersectCapabilities a b) c \<longleftrightarrow> caps_allow a c \<and> caps_allow b c"
  by (auto simp: caps_allow_def intersectCapabilities_def intersect_strs_def)

lemma caps_allow_zero [simp]: "\<not> caps_allow zero_capabilities c"
  by (simp add: caps_allow_def zero_capabilities_def)

lemma caps_allow_foldl:
  "caps_allow (foldl (\<lambda>c g. unionCapabilities c (pol_Capabilities (gr_Policy g))) a gs) c \<longleftrightarrow>
   caps_allow a c \<or> (\<exists>g \<in> set gs. caps_allow (pol_Capabilities (gr_Policy g)) c)"
  by (induction gs arbitrary: a) (auto simp: caps_allow_union)

lemma Allows_compiled:
  assumes "Compile_viewer inp = Inr v"
  shows "Allows v c \<longleftrightarrow>
     (\<exists>g \<in> set (in_Grants inp). caps_allow (pol_Capabilities (gr_Policy g)) c) \<and>
     (case in_KeyPolicy inp of None \<Rightarrow> True | Some k \<Rightarrow> caps_allow (pol_Capabilities k) c)"
  using assms
  by (rule Plan_compiled)
     (simp add: union_caps_def caps_allow_foldl caps_allow_intersect split: option.splits)

subsection \<open>Fields of the union\<close>

abbreviation grant_entries :: "Grant list \<Rightarrow> (string \<times> string list) list" where
  "grant_entries gs \<equiv> concat (map (\<lambda>g. AList.clearjunk (pol_Fields (gr_Policy g))) gs)"

lemma union_fields_flat: "union_fields gs = foldl union_entry [] (grant_entries gs)"
proof -
  have "foldl (\<lambda>m g. foldl union_entry m (AList.clearjunk (pol_Fields (gr_Policy g)))) m gs =
      foldl union_entry m (grant_entries gs)" for m
    by (induction gs arbitrary: m) auto
  then show ?thesis by (simp add: union_fields_def)
qed

lemma map_of_union_entry:
  "map_of (union_entry m (t, fs)) =
     (if fs = [] then map_of m
      else (map_of m)(t \<mapsto> (if FieldAll \<in> set fs then [FieldAll]
              else append_new (case map_of m t of None \<Rightarrow> [] | Some cur \<Rightarrow> cur) fs)))"
  by (simp add: union_entry_def update_conv')

lemma union_fold_sound:
  "map_of (foldl union_entry [] es) t = Some fs \<Longrightarrow> f \<in> set fs \<Longrightarrow> \<exists>efs. (t, efs) \<in> set es \<and> f \<in> set efs"
proof (induction es arbitrary: fs rule: rev_induct)
  case (snoc e es)
  obtain t' efs where e: "e = (t', efs)" by (cases e)
  with snoc show ?case
    by (auto simp: map_of_union_entry set_append_new split: if_splits option.splits) blast+
qed simp

lemma union_fold_complete:
  "(t, efs) \<in> set es \<Longrightarrow> f \<in> set efs \<Longrightarrow>
   \<exists>fs. map_of (foldl union_entry [] es) t = Some fs \<and> (f \<in> set fs \<or> FieldAll \<in> set fs)"
proof (induction es rule: rev_induct)
  case (snoc e es)
  obtain t' gfs where e: "e = (t', gfs)" by (cases e)
  show ?case
  proof (cases "t' = t \<and> gfs = efs")
    case True
    with e snoc.prems(2) show ?thesis by (auto simp: map_of_union_entry set_append_new)
  next
    case False
    with snoc e obtain fs where "map_of (foldl union_entry [] es) t = Some fs" "f \<in> set fs \<or> FieldAll \<in> set fs"
      by auto
    with e show ?thesis by (auto simp: map_of_union_entry set_append_new)
  qed
qed simp

lemma grant_entry_map_of:
  "(t, efs) \<in> set (grant_entries gs) \<longleftrightarrow> (\<exists>g \<in> set gs. map_of (pol_Fields (gr_Policy g)) t = Some efs)"
proof -
  have "(t, efs) \<in> set (AList.clearjunk m) \<longleftrightarrow> map_of m t = Some efs" for m :: field_map
    using distinct_clearjunk [of m] by (metis map_of_clearjunk map_of_eq_Some_iff)
  then show ?thesis by auto
qed

lemma validateFields_nonempty:
  assumes "Policy_Validate p = []" and "map_of (pol_Fields p) t = Some fs" shows "fs \<noteq> []"
proof
  assume "fs = []"
  have "(t, fs) \<in> set (AList.clearjunk (pol_Fields p))"
    using assms(2) by (metis map_of_SomeD map_of_clearjunk)
  with \<open>fs = []\<close> have "validateFields p \<noteq> []" by (force simp: validateFields_def)
  with assms(1) show False by (simp add: Policy_Validate_def)
qed

section \<open>Compiled text is never empty\<close>

definition proper :: "Node \<Rightarrow> bool" where
  "proper n \<longleftrightarrow> n \<noteq> AndNode [] \<and> n \<noteq> OrNode []"

lemma compileColumn_nonempty: "compileColumn e op v p = Inr (sql, args) \<Longrightarrow> sql \<noteq> []"
  by (auto simp: compileColumn_def split: if_splits Value.splits)

lemma comparison_nonempty: "comparison d scope f op v = Inr (sql, args) \<Longrightarrow> sql \<noteq> []"
  unfolding comparison_def
  by (auto simp: compileTag_def mention_def related_def compileSimilar_def compileClass_def compileMetadata_def
      Let_def dest: compileColumn_nonempty split: if_splits Value.splits prod.splits sum.splits option.splits)

lemma logical_nonempty: "logical cs op = Inr (sql, args) \<Longrightarrow> cs \<noteq> [] \<Longrightarrow> sql \<noteq> []"
proof -
  assume l: "logical cs op = Inr (sql, args)" and "cs \<noteq> []"
  then obtain parts where p: "logical_loop cs = Inr (parts, args)" "sql = Join parts ('' '' @ op @ '' '')"
    by (auto simp: logical_def split: sum.splits)
  with \<open>cs \<noteq> []\<close> obtain x xs where "parts = x # xs" "x \<noteq> []"
    by (cases cs rule: logical_loop.cases) (auto split: sum.splits)
  with p(2) show "sql \<noteq> []" by (simp add: Join_Cons)
qed

lemma compiled_nonempty: "compile_node d scope n = Inr (sql, args) \<Longrightarrow> proper n \<Longrightarrow> sql \<noteq> []"
  by (cases n) (auto simp: proper_def dest: comparison_nonempty logical_nonempty)

lemma wf_node_proper: "wf_node n \<Longrightarrow> proper n"
  by (cases n) (auto simp: proper_def)

lemma proper_andNot: "proper n \<Longrightarrow> proper (andNot n classes)"
  by (simp add: andNot_def Let_def proper_def)

lemma compile_grants_proper:
  assumes "compile_grants gs = Inr (nodes, plans)" shows "list_all proper nodes"
  using compile_grants_nodes [OF assms]
  by (induction rule: list_all2_induct) (auto intro: proper_andNot wf_node_proper dest: DataNode_InrD(4))

lemma proper_buildPredicate:
  assumes "us \<noteq> []" and "list_all proper us" shows "proper (buildPredicate us deny key)"
proof -
  have "proper (hd us)" using assms by (cases us) auto
  moreover have "proper (OrNode us)" using assms(1) by (simp add: proper_def)
  ultimately show ?thesis by (auto simp: buildPredicate_def Let_def proper_def split: option.splits)
qed

section \<open>Compilation succeeds on validated policies\<close>

definition policies_valid :: "Input \<Rightarrow> bool" where
  "policies_valid inp \<longleftrightarrow>
     list_all (\<lambda>g. Policy_Validate (gr_Policy g) = []) (in_Grants inp) \<and>
     (case in_KeyPolicy inp of None \<Rightarrow> True | Some k \<Rightarrow> Policy_Validate k = [])"

lemma Compile_viewer_total:
  assumes "in_PrincipalID inp \<noteq> []" and "policies_valid inp"
  shows "\<exists>v. Compile_viewer inp = Inr v"
proof -
  have "\<exists>n. DataNode (gr_Policy g) = Inr n" if "g \<in> set (sort_grants (in_Grants inp))" for g
    using assms(2) that Policy_Validate_NilD(2) by (auto simp: policies_valid_def list_all_iff)
  then obtain nodes plans where g: "compile_grants (sort_grants (in_Grants inp)) = Inr (nodes, plans)"
    using compile_grants_total by fastforce
  have "\<exists>kn. key_node (in_KeyPolicy inp) = Inr kn"
    using assms(2) by (auto simp: key_node_def policies_valid_def dest!: Policy_Validate_NilD(2) split: option.splits)
  then obtain kn where k: "key_node (in_KeyPolicy inp) = Inr kn" ..
  show ?thesis
  proof (cases "nodes = []")
    case True
    with assms(1) g k show ?thesis by (simp add: Compile_viewer_def Let_def)
  next
    case False
    then have "accepts (buildPredicate nodes (NormalizeClasses (in_DenyClasses inp)) kn)"
      using accepts_buildPredicate compile_grants_InrD(3) [OF g] key_node_InrD(2) [OF k] by blast
    then obtain ps us where
      "compile_dialects (buildPredicate nodes (NormalizeClasses (in_DenyClasses inp)) kn)
         [DialectSQLite, DialectPostgres] = Inr (ps, us)"
      using compile_dialects_total by fastforce
    with assms(1) g k show ?thesis
      by (simp add: Compile_viewer_def Let_def del: compile_dialects.simps)
  qed
qed

text \<open>An input for the witnesses: both templates granted, a ceiling, and a bound key.\<close>

definition sample_input :: Input where
  "sample_input =
     \<lparr>in_PrincipalID = ''ana'', in_IdentityID = ''key_1'',
      in_Grants = [\<lparr>gr_ID = ''grt_2'', gr_Audience = ''partners'', gr_Policy = Templates ! 1\<rparr>,
                   \<lparr>gr_ID = ''grt_1'', gr_Audience = ''colleagues'', gr_Policy = Templates ! 0\<rparr>],
      in_DenyClasses = [''legal''], in_KeyPolicy = Some (Templates ! 0)\<rparr>"

lemma sample_compiles:
  "\<exists>v. Compile_viewer sample_input = Inr v" "\<exists>v. Compile_viewer (sample_input\<lparr>in_KeyPolicy := None\<rparr>) = Inr v"
  using template_valid [of 0] template_valid [of 1]
  by (auto intro!: Compile_viewer_total simp: sample_input_def policies_valid_def)

subsection \<open>Fields under a key policy\<close>

lemma intersectFields_Some:
  assumes "map_of (intersectFields m k) t = Some kept"
  shows "\<exists>fs. map_of m t = Some fs \<and>
    kept = (if FieldAll \<in> set (Policy_FieldsFor k t) then fs
            else if FieldAll \<in> set fs then Policy_FieldsFor k t
            else intersect_strs fs (Policy_FieldsFor k t))"
proof -
  have "(t, kept) \<in> set (intersectFields m k)" using assms by (rule map_of_SomeD)
  then obtain fs where "(t, fs) \<in> set (AList.clearjunk m)" and
    kept: "kept = (if FieldAll \<in> set (Policy_FieldsFor k t) then fs
            else if FieldAll \<in> set fs then Policy_FieldsFor k t
            else intersect_strs fs (Policy_FieldsFor k t))"
    by (auto simp: intersectFields_def Let_def)
  then have "map_of m t = Some fs"
    using distinct_clearjunk [of m] by (metis map_of_clearjunk map_of_eq_Some_iff)
  with kept show ?thesis by blast
qed

text \<open>
  A grant whose only entry is the fallback, and a key policy with an entry of its own for
  contacts.
\<close>

definition leak_grant_policy :: Policy where
  "leak_grant_policy = (Templates ! 1)\<lparr>pol_Fields := [(''*'', [''title'', ''email''])]\<rparr>"

definition leak_key_policy :: Policy where
  "leak_key_policy = (Templates ! 1)\<lparr>pol_Fields := [(''contact'', [''title'']), (''*'', [''title'', ''email''])]\<rparr>"

definition leak_input :: Input where
  "leak_input =
     \<lparr>in_PrincipalID = ''ana'', in_IdentityID = ''key_1'',
      in_Grants = [\<lparr>gr_ID = ''grt_1'', gr_Audience = ''partners'', gr_Policy = leak_grant_policy\<rparr>],
      in_DenyClasses = [], in_KeyPolicy = Some leak_key_policy\<rparr>"

lemma Policy_Validate_fields:
  assumes "Policy_Validate p = []" and "validateFields (p\<lparr>pol_Fields := m\<rparr>) = []"
  shows "Policy_Validate (p\<lparr>pol_Fields := m\<rparr>) = []"
proof -
  have "DataNode (p\<lparr>pol_Fields := m\<rparr>) = DataNode p" by (simp add: DataNode_def)
  with assms show ?thesis by (auto simp: Policy_Validate_def split: sum.splits if_splits)
qed

lemma leak_valid: "policies_valid leak_input"
proof -
  have "validateFields leak_grant_policy = []" "validateFields leak_key_policy = []" by code_simp+
  then show ?thesis
    using template_valid [of 1] Policy_Validate_fields [of "Templates ! 1"]
    by (simp add: policies_valid_def leak_input_def leak_grant_policy_def leak_key_policy_def)
qed

section \<open>Properties\<close>

text \<open>
  C2: a compiled viewer sees exactly what its principal was granted. Whatever the database
  answers for the single comparisons, the predicate of the viewer \<open>Compile\<close> returns selects
  a row if and only if the filter of some grant matches it and none of that grant's
  excluded classes is on it, no class of the principal's ceiling is on it, and the key
  policy, when one is bound, admits it as well.
\<close>

theorem viewer_sees_exactly_the_granted_rows:
  assumes "Compile_viewer inp = Inr v"
  shows "viewer_sees sat cls v row \<longleftrightarrow>
    (\<exists>g \<in> set (in_Grants inp). \<exists>n. DataNode (gr_Policy g) = Inr n \<and> holds sat cls row n \<and>
        set (NormalizeClasses (pol_ExcludeClasses (gr_Policy g))) \<inter> set (cls row) = {}) \<and>
    set (NormalizeClasses (in_DenyClasses inp)) \<inter> set (cls row) = {} \<and>
    (\<forall>k. in_KeyPolicy inp = Some k \<longrightarrow>
        (\<exists>n. DataNode k = Inr n \<and> holds sat cls row n \<and>
           set (NormalizeClasses (pol_ExcludeClasses k)) \<inter> set (cls row) = {}))"
proof -
  have adm: "admits sat cls p row \<longleftrightarrow> (\<exists>n. DataNode p = Inr n \<and> holds sat cls row n \<and>
      set (NormalizeClasses (pol_ExcludeClasses p)) \<inter> set (cls row) = {})" for p
    by (auto simp: admits_def free_of_def split: sum.splits)
  show ?thesis
    unfolding viewer_sees_may_see [OF assms] may_see_def adm free_of_def
    by (cases "in_KeyPolicy inp") simp_all
qed

theorem viewer_sees_exactly_the_granted_rows_witness:
  "\<exists>v. Compile_viewer sample_input = Inr v \<and>
     viewer_sees (\<lambda>row f op v. True) (\<lambda>row. [''work'']) v () \<and>
     \<not> viewer_sees (\<lambda>row f op v. True) (\<lambda>row. [''work'', ''legal'']) v ()"
proof -
  obtain v where v: "Compile_viewer sample_input = Inr v" using sample_compiles(1) ..
  have data: "DataNode (Templates ! 0) = Inr (AndNode [ComparisonNode ''type'' OpEq (VStr ''contact''),
                   ComparisonNode ''tag'' OpIn (VList [''work'', ''client''])])"
    by (rule DataNode_templates)
  have norm: "NormalizeClasses [''personal''] = [''personal'']" "NormalizeClasses [''legal''] = [''legal'']"
    by code_simp+
  have excl: "pol_ExcludeClasses (Templates ! 0) = [''personal'']" by (simp add: Templates_def)
  note exact = viewer_sees_exactly_the_granted_rows [OF v, of "\<lambda>row f op v. True" _ "()"]
  have "viewer_sees (\<lambda>row f op v. True) (\<lambda>row. [''work'']) v ()"
    unfolding exact by (simp add: sample_input_def data norm excl)
  moreover have "\<not> viewer_sees (\<lambda>row f op v. True) (\<lambda>row. [''work'', ''legal'']) v ()"
    unfolding exact by (simp add: sample_input_def data norm excl)
  ultimately show ?thesis using v by blast
qed

text \<open>
  C9: deny by default. A principal without grants compiles to a viewer that matches nothing,
  whatever its ceiling and key policy; for it, as for the zero viewer a context without a
  viewer holds, no row is visible, the predicate is the false one in every dialect and the
  zero viewer holds no capability.
\<close>

theorem deny_by_default:
  assumes "Compile_viewer inp = Inr v" and "in_Grants inp = []"
  shows "MatchesNothing v \<and> Predicate v d = (''(1 = 0)'', []) \<and> ObjectPredicate v dialect = (''(1 = 0)'', []) \<and>
    \<not> viewer_sees sat cls v row \<and> \<not> Allows v c \<and>
    MatchesNothing (fst (FromContext None)) \<and> \<not> viewer_sees sat cls (fst (FromContext None)) row \<and>
    \<not> Allows (fst (FromContext None)) c \<and> Predicate (fst (FromContext None)) d = (''(1 = 0)'', [])"
proof -
  have zero: "MatchesNothing zero_viewer \<and> \<not> viewer_sees sat cls zero_viewer row \<and> \<not> Allows zero_viewer c \<and>
      Predicate zero_viewer d = (''(1 = 0)'', [])"
    by (simp add: zero_viewer_def MatchesNothing_def viewer_sees_def IsUnrestricted_def PredicateNode_def
        Allows_def Predicate_def MatchNothing_def)
  have none: "\<not> viewer_sees sat cls v row" "\<not> Allows v c"
    using assms by (simp_all add: viewer_sees_may_see may_see_def Allows_compiled)
  have "MatchesNothing v \<and> \<not> vr_unrestricted v"
    using assms(1)
  proof (rule Compile_viewer_InrE)
    fix nodes plans kn w
    assume "compile_grants (sort_grants (in_Grants inp)) = Inr (nodes, plans)"
      and "v = \<lparr>vr_unrestricted = False, vr_view = Some w\<rparr>"
      and "vw_node w = (if nodes = [] then None
             else Some (buildPredicate nodes (NormalizeClasses (in_DenyClasses inp)) kn))"
    with assms(2) show "MatchesNothing v \<and> \<not> vr_unrestricted v"
      by (auto simp: MatchesNothing_def sort_grants_def)
  qed
  with zero none show ?thesis
    by (simp add: Predicate_def ObjectPredicate_def FromContext_def MatchNothing_def)
qed

theorem deny_by_default_witness:
  "let inp = \<lparr>in_PrincipalID = ''p'', in_IdentityID = [], in_Grants = [], in_DenyClasses = [], in_KeyPolicy = None\<rparr>
   in \<exists>v. Compile_viewer inp = Inr v \<and> MatchesNothing v \<and> Predicate v DialectPostgres = (''(1 = 0)'', [])"
proof -
  let ?inp = "\<lparr>in_PrincipalID = ''p'', in_IdentityID = [], in_Grants = [], in_DenyClasses = [], in_KeyPolicy = None\<rparr>"
  obtain v where v: "Compile_viewer ?inp = Inr v"
    by (auto simp: Compile_viewer_def Let_def sort_grants_def key_node_def)
  have "in_Grants ?inp = []" by simp
  note deny_by_default [OF v this, of DialectPostgres "''sqlite''" "\<lambda>(row :: unit) f op v. True" "\<lambda>_. []" "()" "''mcp''"]
  then have "MatchesNothing v \<and> Predicate v DialectPostgres = (''(1 = 0)'', [])" by blast
  with v show ?thesis by auto
qed

text \<open>
  Capabilities are the union of the grants' cut down by the key. A compiled viewer holds
  a capability exactly when some grant's policy opens it and the key policy, when bound,
  opens it too.
\<close>

theorem capabilities_union_cut_by_key:
  assumes "Compile_viewer inp = Inr v"
  shows "Allows v c \<longleftrightarrow>
     (\<exists>g \<in> set (in_Grants inp). caps_allow (pol_Capabilities (gr_Policy g)) c) \<and>
     (\<forall>k. in_KeyPolicy inp = Some k \<longrightarrow> caps_allow (pol_Capabilities k) c)"
  unfolding Allows_compiled [OF assms] by (cases "in_KeyPolicy inp") simp_all

theorem capabilities_union_cut_by_key_witness:
  "\<exists>v. Compile_viewer sample_input = Inr v \<and> Allows v ''search:vector'' \<and> \<not> Allows v ''search:graph'' \<and>
     \<not> Allows v ''export''"
proof -
  obtain v where v: "Compile_viewer sample_input = Inr v" using sample_compiles(1) ..
  have caps: "caps_allow (pol_Capabilities (Templates ! 0)) ''search:vector''"
    "\<not> caps_allow (pol_Capabilities (Templates ! 0)) ''search:graph''"
    "\<not> caps_allow (pol_Capabilities (Templates ! 0)) ''export''" by code_simp+
  show ?thesis
    using v caps by (auto simp: capabilities_union_cut_by_key [OF v] sample_input_def)
qed

text \<open>
  C10: keys narrow, never widen (rows, capabilities, parts). Binding a key policy to a
  credential can only remove rows and capabilities from what the principal itself has, and
  can only add classes whose parts are withheld.
\<close>

theorem key_policy_narrows:
  assumes "Compile_viewer inp = Inr v" and "Compile_viewer (inp\<lparr>in_KeyPolicy := None\<rparr>) = Inr v0"
  shows "(viewer_sees sat cls v row \<longrightarrow> viewer_sees sat cls v0 row) \<and>
    (Allows v c \<longrightarrow> Allows v0 c) \<and>
    set (rp_PartExclusions (Plan v0)) \<subseteq> set (rp_PartExclusions (Plan v))"
proof (intro conjI impI)
  show "viewer_sees sat cls v row \<Longrightarrow> viewer_sees sat cls v0 row"
    unfolding viewer_sees_may_see [OF assms(1)] viewer_sees_may_see [OF assms(2)] by (simp add: may_see_def)
  show "Allows v c \<Longrightarrow> Allows v0 c"
    unfolding Allows_compiled [OF assms(1)] Allows_compiled [OF assms(2)] by simp
  obtain plans where "Plan v = build_plan inp (sort_grants (in_Grants inp)) plans"
    using assms(1) by (rule Plan_compiled)
  moreover obtain plans0 where "Plan v0 = build_plan (inp\<lparr>in_KeyPolicy := None\<rparr>) (sort_grants (in_Grants inp)) plans0"
    using assms(2) by (rule Plan_compiled) simp
  ultimately show "set (rp_PartExclusions (Plan v0)) \<subseteq> set (rp_PartExclusions (Plan v))"
    by (auto simp: set_NormalizeClasses)
qed

theorem key_policy_narrows_witness:
  "\<exists>v v0. Compile_viewer sample_input = Inr v \<and>
     Compile_viewer (sample_input\<lparr>in_KeyPolicy := None\<rparr>) = Inr v0 \<and>
     set (rp_PartExclusions (Plan v0)) \<subseteq> set (rp_PartExclusions (Plan v)) \<and>
     (Allows v ''mcp'' \<longrightarrow> Allows v0 ''mcp'')"
proof -
  obtain v v0 where v: "Compile_viewer sample_input = Inr v"
    and v0: "Compile_viewer (sample_input\<lparr>in_KeyPolicy := None\<rparr>) = Inr v0" using sample_compiles by blast
  note key_policy_narrows [OF v v0, of "\<lambda>(row :: unit) f op v. True" "\<lambda>_. []" "()" "''mcp''"]
  then have "set (rp_PartExclusions (Plan v0)) \<subseteq> set (rp_PartExclusions (Plan v)) \<and>
     (Allows v ''mcp'' \<longrightarrow> Allows v0 ''mcp'')" by blast
  with v v0 show ?thesis by blast
qed

text \<open>
  The ceiling holds whatever the grants say. No row that carries a class of the
  principal's ceiling is visible, and every part of such a class, or of a class excluded by
  any grant or by the key policy, is one the render plan excludes.
\<close>

theorem ceiling_is_absolute:
  assumes "Compile_viewer inp = Inr v" and "c \<in> set (NormalizeClasses (in_DenyClasses inp))"
  shows "(c \<in> set (cls row) \<longrightarrow> \<not> viewer_sees sat cls v row) \<and>
    (c \<in> set classes \<longrightarrow> ExcludesAny (Plan v) classes) \<and>
    (\<forall>g \<in> set (in_Grants inp). \<forall>e \<in> set (NormalizeClasses (pol_ExcludeClasses (gr_Policy g))).
       e \<in> set classes \<longrightarrow> ExcludesAny (Plan v) classes)"
proof -
  obtain plans where p: "Plan v = build_plan inp (sort_grants (in_Grants inp)) plans"
    using assms(1) by (rule Plan_compiled)
  have sub: "set (NormalizeClasses (in_DenyClasses inp)) \<subseteq> set (rp_PartExclusions (Plan v))"
    "\<And>g. g \<in> set (in_Grants inp) \<Longrightarrow>
       set (NormalizeClasses (pol_ExcludeClasses (gr_Policy g))) \<subseteq> set (rp_PartExclusions (Plan v))"
    by (auto simp: p set_NormalizeClasses)
  have "c \<in> set (cls row) \<longrightarrow> \<not> viewer_sees sat cls v row"
    using assms(2) by (auto simp: viewer_sees_may_see [OF assms(1)] may_see_def free_of_def)
  then show ?thesis using sub assms(2) by (auto simp: ExcludesAny_def)
qed

theorem ceiling_is_absolute_witness:
  "\<exists>v. Compile_viewer sample_input = Inr v \<and>
     \<not> viewer_sees (\<lambda>row f op v. True) (\<lambda>row. [''legal'']) v () \<and>
     ExcludesAny (Plan v) [''work'', ''legal'']"
proof -
  obtain v where v: "Compile_viewer sample_input = Inr v" using sample_compiles(1) ..
  have "''legal'' \<in> set (NormalizeClasses [''legal''])" by code_simp
  then have c: "''legal'' \<in> set (NormalizeClasses (in_DenyClasses sample_input))" by (simp add: sample_input_def)
  have "\<not> viewer_sees (\<lambda>row f op v. True) (\<lambda>row. [''legal'']) v ()"
    using ceiling_is_absolute [OF v c, of "\<lambda>row. [''legal'']" "()" "\<lambda>row f op v. True"] by simp
  moreover have "ExcludesAny (Plan v) [''work'', ''legal'']"
    using ceiling_is_absolute [OF v c, of "\<lambda>row. [''legal'']" "()" "\<lambda>row f op v. True" "[''work'', ''legal'']"]
    by simp
  ultimately show ?thesis using v by blast
qed

text \<open>
  Validated policies always compile. For a named principal whose grants and key carry
  validated policies, \<open>Compile\<close> returns a restricted viewer; it matches nothing exactly when
  there is no grant; otherwise each dialect's predicate is the compiled text of the
  viewer's tree, with one argument per placeholder before renumbering and none of the
  placeholders left by renumbering.
\<close>

theorem validated_policies_compile:
  assumes "in_PrincipalID inp \<noteq> []" and "policies_valid inp"
  shows "\<exists>v. Compile_viewer inp = Inr v \<and> \<not> IsUnrestricted v \<and> (MatchesNothing v \<longleftrightarrow> in_Grants inp = []) \<and>
    (\<forall>n. PredicateNode v = Some n \<longrightarrow>
       CompileFor d n = Inr (Predicate v d) \<and>
       CompileUnnumbered DialectPostgres n None = Inr (ObjectPredicate v ''postgres'') \<and>
       CompileUnnumbered DialectSQLite n None = Inr (ObjectPredicate v ''sqlite'') \<and>
       CHR ''?'' \<notin> set (fst (Predicate v DialectPostgres)))"
proof -
  obtain v where v: "Compile_viewer inp = Inr v" using Compile_viewer_total [OF assms] ..
  then obtain nodes plans kn w where c:
    "compile_grants (sort_grants (in_Grants inp)) = Inr (nodes, plans)"
    "v = \<lparr>vr_unrestricted = False, vr_view = Some w\<rparr>"
    "vw_node w = (if nodes = [] then None
       else Some (buildPredicate nodes (NormalizeClasses (in_DenyClasses inp)) kn))"
    "\<forall>n. vw_node w = Some n \<longrightarrow>
       compile_dialects n [DialectSQLite, DialectPostgres] = Inr (vw_sql w, vw_unnumbered w)"
    by (rule Compile_viewer_InrE)
  have "MatchesNothing v \<longleftrightarrow> in_Grants inp = []"
    using c(2,3) compile_grants_InrD(2) [OF c(1)] by (simp add: MatchesNothing_def)
  moreover have "CompileFor d n = Inr (Predicate v d) \<and>
       CompileUnnumbered DialectPostgres n None = Inr (ObjectPredicate v ''postgres'') \<and>
       CompileUnnumbered DialectSQLite n None = Inr (ObjectPredicate v ''sqlite'') \<and>
       CHR ''?'' \<notin> set (fst (Predicate v DialectPostgres))" if n: "PredicateNode v = Some n" for n
  proof -
    have "vw_node w = Some n" using n c(2) by (simp add: PredicateNode_def)
    note ds = compile_dialects_InrD [OF c(4) [rule_format, OF this]]
    have some: "\<not> MatchesNothing v" using n c(2) by (simp add: MatchesNothing_def PredicateNode_def)
    with c(2) have P: "Predicate v e = find_predicate (vw_sql w) e" for e by (simp add: Predicate_def)
    have "CHR ''?'' \<notin> set (fst (find_predicate (vw_sql w) DialectPostgres))"
      using ds(1) [of DialectPostgres] rebind_no_mark
      by (cases "find_predicate (vw_sql w) DialectPostgres")
         (auto simp: CompileFor_def CompileScoped_def rebindPostgres_def split: sum.splits)
    with P ds some c(2) show ?thesis by (simp add: ObjectPredicate_def SQLDialectPostgres_def)
  qed
  ultimately show ?thesis using v c(2) by (auto simp: IsUnrestricted_def)
qed

theorem validated_policies_compile_witness:
  "policies_valid sample_input \<and> (\<exists>v. Compile_viewer sample_input = Inr v \<and> \<not> MatchesNothing v)"
proof -
  have p: "in_PrincipalID sample_input \<noteq> []" by (simp add: sample_input_def)
  have v: "policies_valid sample_input"
    using template_valid [of 0] template_valid [of 1] by (simp add: sample_input_def policies_valid_def)
  show ?thesis using v validated_policies_compile [OF p v, of DialectSQLite] by (auto simp: sample_input_def)
qed

text \<open>
  The drivers' scope. A nil viewer and an unrestricted one have no scope. Every other
  viewer has one, in each dialect: it tests the active status first and the viewer's
  predicate after it, binds one argument per placeholder for a compiled viewer, is the
  false predicate for a viewer that matches nothing, and lets entities through exactly when
  the viewer holds that capability.
\<close>

theorem viewer_scope_closed:
  assumes "Compile_viewer inp = Inr v"
  shows "ViewerScope None dialect = None \<and> ViewerScope (Some Unrestricted) dialect = None \<and>
    (\<exists>sc. ViewerScope (Some v) dialect = Some sc \<and> scope_ok (Some sc) \<and>
       sc_SQL sc = ''status = ? AND ('' @ fst (ObjectPredicate v dialect) @ '')'' \<and>
       sc_Args sc = VStr ''active'' # snd (ObjectPredicate v dialect) \<and>
       fst (ObjectPredicate v dialect) \<noteq> [] \<and>
       sc_Entities sc = Allows v ''entities'' \<and> sc_Principal sc = in_PrincipalID inp \<and>
       (MatchesNothing v \<longrightarrow> sc_SQL sc = ''status = ? AND ((1 = 0))''))"
proof -
  obtain pred args where op: "ObjectPredicate v dialect = (pred, args)" by fastforce
  have bal: "pred \<noteq> [] \<and> marks pred = length args"
    using assms
  proof (rule Compile_viewer_InrE)
    fix nodes plans kn w
    assume c: "compile_grants (sort_grants (in_Grants inp)) = Inr (nodes, plans)"
      "key_node (in_KeyPolicy inp) = Inr kn"
      "v = \<lparr>vr_unrestricted = False, vr_view = Some w\<rparr>"
      "vw_node w = (if nodes = [] then None
         else Some (buildPredicate nodes (NormalizeClasses (in_DenyClasses inp)) kn))"
      "\<forall>n. vw_node w = Some n \<longrightarrow>
         compile_dialects n [DialectSQLite, DialectPostgres] = Inr (vw_sql w, vw_unnumbered w)"
    show ?thesis
    proof (cases "vw_node w")
      case None
      then show ?thesis
        using op c(3) by (auto simp: ObjectPredicate_def MatchesNothing_def MatchNothing_def)
    next
      case (Some n)
      let ?d = "if dialect = SQLDialectPostgres then DialectPostgres else DialectSQLite"
      have "ObjectPredicate v dialect = find_predicate (vw_unnumbered w) ?d"
        using c(3) Some by (simp add: ObjectPredicate_def MatchesNothing_def Let_def)
      with op have cu: "compile_node ?d None n = Inr (pred, args)"
        using compile_dialects_InrD(2) [OF c(5) [rule_format, OF Some], of ?d] by (simp add: CompileUnnumbered_def)
      have nn: "proper n"
        using Some c(4) proper_buildPredicate compile_grants_proper [OF c(1)] by (auto split: if_splits)
      show ?thesis
        using balanced_compile_node [of None ?d n] cu compiled_nonempty [OF cu nn]
        by (simp add: scope_ok_def balanced_def)
    qed
  qed
  obtain plans where r: "\<not> IsUnrestricted v" "Viewer_PrincipalID v = in_PrincipalID inp"
    using assms by (rule Plan_compiled)
  have "MatchesNothing v \<longrightarrow> pred = ''(1 = 0)''" using op by (auto simp: ObjectPredicate_def MatchNothing_def MatchesNothing_def)
  with bal op r show ?thesis
    by (simp add: ViewerScope_def Unrestricted_def IsUnrestricted_def scope_ok_def count_list_append
        ObjectStatusActive_def CapabilityEntities_def)
qed

theorem viewer_scope_closed_witness:
  "\<exists>v sc. Compile_viewer sample_input = Inr v \<and> ViewerScope (Some v) ''postgres'' = Some sc \<and>
     scope_ok (Some sc) \<and> sc_Principal sc = ''ana''"
proof -
  obtain v where v: "Compile_viewer sample_input = Inr v" using sample_compiles(1) ..
  have "in_PrincipalID sample_input = ''ana''" by (simp add: sample_input_def)
  with v viewer_scope_closed [OF v, of "''postgres''"] show ?thesis by auto
qed

text \<open>
  Without a key policy the plan renders nothing a grant does not. For validated
  policies, every field the plan lists for a type is one that some grant's own policy lists
  for that type (by its entry or its fallback); and a field that a grant lists in its own
  entry for the type is rendered, by name or because the union renders every field.
\<close>

theorem plan_fields_from_grants:
  assumes "Compile_viewer inp = Inr v" and "in_KeyPolicy inp = None" and "policies_valid inp"
  shows "(f \<in> set (plan_FieldsFor (Plan v) typ) \<longrightarrow>
      (\<exists>g \<in> set (in_Grants inp). f \<in> set (Policy_FieldsFor (gr_Policy g) typ))) \<and>
    (\<forall>g \<in> set (in_Grants inp). \<forall>fs. map_of (pol_Fields (gr_Policy g)) typ = Some fs \<longrightarrow> f \<in> set fs \<longrightarrow>
      f \<in> set (plan_FieldsFor (Plan v) typ) \<or> FieldAll \<in> set (plan_FieldsFor (Plan v) typ))"
proof -
  let ?gs = "sort_grants (in_Grants inp)"
  let ?U = "foldl union_entry [] (grant_entries ?gs)"
  obtain plans where p: "Plan v = build_plan inp ?gs plans" using assms(1) by (rule Plan_compiled)
  with assms(2) have "rp_Fields (Plan v) = ?U" by (simp add: union_fields_flat)
  then have fields_for: "plan_FieldsFor (Plan v) typ =
      (case map_of ?U typ of Some f \<Rightarrow> f | None \<Rightarrow> (case map_of ?U ''*'' of Some f \<Rightarrow> f | None \<Rightarrow> []))"
    by (simp add: plan_FieldsFor_def split: option.split)
  have entry: "\<exists>g \<in> set (in_Grants inp). map_of (pol_Fields (gr_Policy g)) t = Some efs"
    if "(t, efs) \<in> set (grant_entries ?gs)" for t efs
    using that grant_entry_map_of [of t efs ?gs] by simp
  have sound: "\<exists>g \<in> set (in_Grants inp). f \<in> set (Policy_FieldsFor (gr_Policy g) typ)"
    if "f \<in> set (plan_FieldsFor (Plan v) typ)"
  proof (cases "map_of ?U typ")
    case (Some fs)
    with that fields_for obtain efs where e: "(typ, efs) \<in> set (grant_entries ?gs)" "f \<in> set efs"
      using union_fold_sound by fastforce
    from entry [OF e(1)] obtain g where "g \<in> set (in_Grants inp)" "map_of (pol_Fields (gr_Policy g)) typ = Some efs"
      by blast
    with e(2) show ?thesis by (intro bexI [of _ g]) (auto simp: Policy_FieldsFor_def)
  next
    case None
    with that fields_for obtain fs where "map_of ?U ''*'' = Some fs" "f \<in> set fs"
      by (auto split: option.splits)
    then obtain efs where "(''*'', efs) \<in> set (grant_entries ?gs)" and f: "f \<in> set efs"
      using union_fold_sound by fastforce
    with entry obtain g where g: "g \<in> set (in_Grants inp)" "map_of (pol_Fields (gr_Policy g)) ''*'' = Some efs"
      by blast
    have "map_of (pol_Fields (gr_Policy g)) typ = None"
    proof (rule ccontr)
      assume "map_of (pol_Fields (gr_Policy g)) typ \<noteq> None"
      then obtain efs' where e: "map_of (pol_Fields (gr_Policy g)) typ = Some efs'" by blast
      have "efs' \<noteq> []"
        using assms(3) g(1) validateFields_nonempty [OF _ e] by (simp add: policies_valid_def list_all_iff)
      then obtain f' where "f' \<in> set efs'" by (cases efs') auto
      moreover have "(typ, efs') \<in> set (grant_entries ?gs)"
        using e g(1) grant_entry_map_of [of "typ" efs' ?gs] by auto
      ultimately show False using None union_fold_complete by fastforce
    qed
    with g f show ?thesis by (intro bexI [of _ g]) (auto simp: Policy_FieldsFor_def)
  qed
  have "f \<in> set (plan_FieldsFor (Plan v) typ) \<or> FieldAll \<in> set (plan_FieldsFor (Plan v) typ)"
    if "g \<in> set (in_Grants inp)" "map_of (pol_Fields (gr_Policy g)) typ = Some fs" "f \<in> set fs" for g fs
  proof -
    have "(typ, fs) \<in> set (grant_entries ?gs)" using that grant_entry_map_of [of "typ" fs ?gs] by auto
    from union_fold_complete [OF this that(3)] show ?thesis by (auto simp: fields_for)
  qed
  with sound show ?thesis by blast
qed

theorem plan_fields_from_grants_witness:
  "\<exists>v. Compile_viewer (sample_input\<lparr>in_KeyPolicy := None\<rparr>) = Inr v \<and>
     (''email'' \<in> set (plan_FieldsFor (Plan v) ''contact'') \<or> FieldAll \<in> set (plan_FieldsFor (Plan v) ''contact''))"
proof -
  obtain v where v: "Compile_viewer (sample_input\<lparr>in_KeyPolicy := None\<rparr>) = Inr v" using sample_compiles(2) ..
  have k: "in_KeyPolicy (sample_input\<lparr>in_KeyPolicy := None\<rparr>) = None" by simp
  have pv: "policies_valid (sample_input\<lparr>in_KeyPolicy := None\<rparr>)"
    using template_valid [of 0] template_valid [of 1] by (simp add: sample_input_def policies_valid_def)
  let ?g = "\<lparr>gr_ID = ''grt_2'', gr_Audience = ''partners'', gr_Policy = Templates ! 1\<rparr>"
  have g: "?g \<in> set (in_Grants (sample_input\<lparr>in_KeyPolicy := None\<rparr>))" by (simp add: sample_input_def)
  have m: "map_of (pol_Fields (gr_Policy ?g)) ''contact'' =
      Some [''title'', ''org'', ''role'', ''email'', ''phone'', ''tags'', ''city'']"
    by (simp add: Templates_def)
  show ?thesis using v g m plan_fields_from_grants [OF v k pv, of "''email''" "''contact''"] by auto
qed

text \<open>
  A key narrows the fields of every type its plan has an entry for. When the plan of a
  viewer with a key policy has an entry for a type, each field it lists for the type is one
  the key policy lists for it (or the key policy renders every field), and one the grants'
  union lists for it (or the union renders every field).
\<close>

theorem key_narrows_listed_types:
  assumes "Compile_viewer inp = Inr v" and "in_KeyPolicy inp = Some k"
    and "map_of (rp_Fields (Plan v)) typ \<noteq> None" and "f \<in> set (plan_FieldsFor (Plan v) typ)"
  shows "(f \<in> set (Policy_FieldsFor k typ) \<or> FieldAll \<in> set (Policy_FieldsFor k typ)) \<and>
    (\<exists>fs. map_of (union_fields (sort_grants (in_Grants inp))) typ = Some fs \<and> (f \<in> set fs \<or> FieldAll \<in> set fs))"
proof -
  obtain plans where p: "Plan v = build_plan inp (sort_grants (in_Grants inp)) plans"
    using assms(1) by (rule Plan_compiled)
  with assms(2) have rp: "rp_Fields (Plan v) = intersectFields (union_fields (sort_grants (in_Grants inp))) k" by simp
  from assms(3) obtain kept where kept: "map_of (rp_Fields (Plan v)) typ = Some kept" by blast
  with assms(4) have "f \<in> set kept" by (simp add: plan_FieldsFor_def)
  with intersectFields_Some [OF kept [unfolded rp]] show ?thesis
    by (fastforce simp: intersect_strs_def split: if_splits dest: filter_id_conv [THEN iffD1])
qed

theorem key_narrows_listed_types_witness:
  "\<exists>v. Compile_viewer sample_input = Inr v \<and> map_of (rp_Fields (Plan v)) ''contact'' \<noteq> None \<and>
     ''city'' \<in> set (plan_FieldsFor (Plan v) ''contact'') \<and>
     (''city'' \<in> set (Policy_FieldsFor (Templates ! 0) ''contact'') \<or>
      FieldAll \<in> set (Policy_FieldsFor (Templates ! 0) ''contact''))"
proof -
  obtain v where v: "Compile_viewer sample_input = Inr v" using sample_compiles(1) ..
  have k: "in_KeyPolicy sample_input = Some (Templates ! 0)" by (simp add: sample_input_def)
  obtain plans where "Plan v = build_plan sample_input (sort_grants (in_Grants sample_input)) plans"
    using v by (rule Plan_compiled)
  then have rp: "rp_Fields (Plan v) =
      intersectFields (union_fields (sort_grants (in_Grants sample_input))) (Templates ! 0)"
    using k by simp
  have "map_of (intersectFields (union_fields (sort_grants (in_Grants sample_input))) (Templates ! 0)) ''contact'' =
      Some [''title'', ''org'', ''role'', ''tags'', ''city'']"
    by code_simp
  then have m: "map_of (rp_Fields (Plan v)) ''contact'' = Some [''title'', ''org'', ''role'', ''tags'', ''city'']"
    by (simp add: rp)
  then have d: "map_of (rp_Fields (Plan v)) ''contact'' \<noteq> None" by simp
  have f: "''city'' \<in> set (plan_FieldsFor (Plan v) ''contact'')" by (simp add: plan_FieldsFor_def m)
  show ?thesis using v d f key_narrows_listed_types [OF v k d f] by blast
qed


end
