(* ===== verification/Share_Resolver.thy ===== *)
theory Share_Resolver
  imports Share_Visibility
begin

text \<open>
  The resolver that gives each request its viewer (\<open>internal/sharing/resolver.go\<close>) and the
  owner's preview (\<open>internal/sharing/preview.go\<close>). A resolver is explicit state: the store,
  the principal registry and the cache of compiled viewers. The clock is an argument. The
  two critical sections of \<open>Resolve\<close> (look up, then store) may interleave with other
  requests; \<open>cache_step\<close> is the store-side step any request may take, and the cache
  invariant is shown for every interleaving.

  The locale \<open>keyed_cache\<close> is the contract a cache needs: equal keys have equal builds. It is
  interpreted on the resolver's key and \<open>Compile_viewer\<close>, for inputs read from one registry.
\<close>

section \<open>The resolver\<close>

definition resolverCacheMax :: nat where
  "resolverCacheMax = 1024"

record Principal =
  pr_ID :: string
  pr_Kind :: string

type_synonym viewer_cache = "(string \<times> Viewer) list"

record Resolver =
  rs_store :: "SharingStore option"
  rs_registry :: "(string \<Rightarrow> StoreError + Principal) option"
  rs_cache :: viewer_cache

definition NewResolver :: "SharingStore option \<Rightarrow> Resolver" where
  "NewResolver store = \<lparr>rs_store = store, rs_registry = None, rs_cache = []\<rparr>"

definition WithRegistry :: "Resolver option \<Rightarrow> (string \<Rightarrow> StoreError + Principal) \<Rightarrow> Resolver option" where
  "WithRegistry r reg = map_option (\<lambda>rs. rs\<lparr>rs_registry := Some reg\<rparr>) r"

definition cache_key :: "Input \<Rightarrow> string" where
  "cache_key inp = in_IdentityID inp @ [CHR 0x00] @ Input_Key inp"

text \<open>The second critical section: a full cache is dropped, then the viewer is stored.\<close>

definition cache_put :: "nat \<Rightarrow> 'k \<Rightarrow> 'v \<Rightarrow> ('k \<times> 'v) list \<Rightarrow> ('k \<times> 'v) list" where
  "cache_put limit key v cache = AList.update key v (if length cache \<ge> limit then [] else cache)"

definition Resolve :: "Resolver option \<Rightarrow> time \<Rightarrow> string \<Rightarrow> string \<Rightarrow> string \<Rightarrow> (ViewerError + Viewer) \<times> Resolver option" where
  "Resolve r now principalID kind identityID =
     (if kind = PrincipalKindOwner then (Inr Unrestricted, r)
      else case r of
             None \<Rightarrow> (Inr zero_viewer, r)
           | Some rs \<Rightarrow>
               (case rs_store rs of
                  None \<Rightarrow> (Inr zero_viewer, r)
                | Some st \<Rightarrow>
                    (case loadInput st principalID identityID now of
                       Inl e \<Rightarrow> (if e = StoreNotFound then Inr zero_viewer else Inl e, r)
                     | Inr inp \<Rightarrow>
                         (let key = cache_key inp
                          in case map_of (rs_cache rs) key of
                               Some v \<Rightarrow> (Inr v, r)
                             | None \<Rightarrow>
                                 (case Compile_viewer inp of
                                    Inl e \<Rightarrow> (Inl e, r)
                                  | Inr v \<Rightarrow>
                                      (Inr v,
                                       Some (rs\<lparr>rs_cache := cache_put resolverCacheMax key v (rs_cache rs)\<rparr>)))))))"

definition Invalidate :: "Resolver option \<Rightarrow> Resolver option" where
  "Invalidate r = map_option (\<lambda>rs. rs\<lparr>rs_cache := []\<rparr>) r"

definition CacheSize :: "Resolver option \<Rightarrow> nat" where
  "CacheSize r = (case r of None \<Rightarrow> 0 | Some rs \<Rightarrow> length (rs_cache rs))"

text \<open>\<open>ViewAs\<close>: a principal's viewer, else one granted the policy of that name alone.\<close>

definition preview_input :: "Policy \<Rightarrow> Input" where
  "preview_input p =
     \<lparr>in_PrincipalID = OwnerPrincipal, in_IdentityID = [],
      in_Grants = [\<lparr>gr_ID = ''preview:'' @ pol_Name p, gr_Audience = ''preview'', gr_Policy = p\<rparr>],
      in_DenyClasses = [], in_KeyPolicy = None\<rparr>"

definition view_policy :: "SharingStore \<Rightarrow> string \<Rightarrow> ViewerError + Viewer" where
  "view_policy st target =
     (case ss_Policies_GetByName st target of
        Inl ErrNotFound \<Rightarrow> Inl ViewAsUnknown
      | Inl (OtherError m) \<Rightarrow> Inl (StoreFailed m)
      | Inr row \<Rightarrow>
          (case PolicyFromSpec (Some row) of
             Inl e \<Rightarrow> Inl (KeyPolicyError e)
           | Inr p \<Rightarrow> Compile_viewer (preview_input p)))"

definition ViewAs :: "Resolver option \<Rightarrow> time \<Rightarrow> string \<Rightarrow> (ViewerError + Viewer) \<times> Resolver option" where
  "ViewAs r now target =
     (case r of
        None \<Rightarrow> (Inl ViewAsUnknown, r)
      | Some rs \<Rightarrow>
          (case rs_store rs of
             None \<Rightarrow> (Inl ViewAsUnknown, r)
           | Some st \<Rightarrow>
               (if target = [] then (Inl ViewAsUnknown, r)
                else case rs_registry rs of
                       None \<Rightarrow> (view_policy st target, r)
                     | Some reg \<Rightarrow>
                         (case reg target of
                            Inr p \<Rightarrow> Resolve r now (pr_ID p) (pr_Kind p) []
                          | Inl (OtherError m) \<Rightarrow> (Inl (StoreFailed m), r)
                          | Inl ErrNotFound \<Rightarrow> (view_policy st target, r)))))"

section \<open>The key names everything the viewer depends on\<close>

lemma itoa_inj: "itoa m = itoa n \<Longrightarrow> m = n"
  by (metis digits_value_itoa of_nat_eq_iff)

lemma itoa_no_minus: "itoa n \<noteq> CHR ''-'' # s"
  using itoa_digits [of "CHR ''-''" n] sign_not_digit by force

lemma Itoa_inj:
  assumes "Itoa i = Itoa j" shows "i = j"
proof -
  have sign: "i < 0 \<longleftrightarrow> j < 0"
    using assms itoa_no_minus itoa_no_minus [symmetric] by (auto simp: Itoa_def split: if_splits)
  show ?thesis
  proof (cases "i < 0")
    case True
    then have "itoa (nat (- i)) = itoa (nat (- j))" using assms sign by (simp add: Itoa_def)
    from itoa_inj [OF this] True sign show ?thesis by linarith
  next
    case False
    then have "itoa (nat i) = itoa (nat j)" using assms sign by (simp add: Itoa_def)
    from itoa_inj [OF this] False sign show ?thesis by linarith
  qed
qed

lemma Itoa_chars: "c \<in> set (Itoa i) \<Longrightarrow> is_digit c \<or> c = CHR ''-''"
  using itoa_digits by (auto simp: Itoa_def split: if_splits)

lemma cut_inj:
  fixes c :: char
  assumes "a @ c # b = a' @ c # b'" and "c \<notin> set a" and "c \<notin> set a'"
  shows "a = a' \<and> b = b'"
  using assms(1) Cut_before_append [OF assms(2), of b] Cut_before_append [OF assms(3), of b']
    Cut_after_append [OF assms(2), of b] Cut_after_append [OF assms(3), of b'] by simp

text \<open>The key's parts between its semicolons.\<close>

definition grant_part :: "Grant \<Rightarrow> string" where
  "grant_part g = ''grant='' @ gr_ID g @ '':'' @ pol_Name (gr_Policy g) @ ''@'' @ Itoa (pol_Version (gr_Policy g))"

definition key_part :: "Policy \<Rightarrow> string" where
  "key_part k = ''key='' @ pol_Name k @ ''@'' @ Itoa (pol_Version k)"

definition key_parts :: "Input \<Rightarrow> Grant list \<Rightarrow> string list" where
  "key_parts inp grants =
     [''principal='' @ in_PrincipalID inp, ''deny='' @ Join (NormalizeClasses (in_DenyClasses inp)) '',''] @
     (case in_KeyPolicy inp of None \<Rightarrow> [] | Some k \<Rightarrow> [key_part k]) @ map grant_part grants"

lemma policyKey_parts: "policyKey inp grants = Join (key_parts inp grants) '';''"
proof -
  have "concat (map grant_key gs) = concat (map (\<lambda>y. '';'' @ y) (map grant_part gs))" for gs
    by (induction gs) (auto simp: grant_key_def grant_part_def)
  then show ?thesis
    by (auto simp: policyKey_def key_parts_def Join_concat key_part_def split: option.splits)
qed

definition clean :: "string \<Rightarrow> bool" where
  "clean s \<longleftrightarrow> set s \<inter> {CHR '';'', CHR '':'', CHR ''@'', CHR '','', CHR 0x00} = {}"

text \<open>
  The inputs one registry can give: policies are looked up by name and version, an audience
  by the grant, names and identifiers hold none of the key's separators, classes are valid.
  \<open>pols\<close> and \<open>auds\<close> are the registry: a policy changes only with its version.
\<close>

definition policy_from :: "(string \<Rightarrow> int \<Rightarrow> Policy) \<Rightarrow> Policy \<Rightarrow> bool" where
  "policy_from pols p \<longleftrightarrow> p = pols (pol_Name p) (pol_Version p) \<and> clean (pol_Name p)"

definition registered :: "(string \<Rightarrow> int \<Rightarrow> Policy) \<Rightarrow> (string \<Rightarrow> string) \<Rightarrow> Input \<Rightarrow> bool" where
  "registered pols auds inp \<longleftrightarrow>
     clean (in_PrincipalID inp) \<and> clean (in_IdentityID inp) \<and>
     list_all ValidateClassName (in_DenyClasses inp) \<and>
     list_all (\<lambda>g. clean (gr_ID g) \<and> gr_Audience g = auds (gr_ID g) \<and> policy_from pols (gr_Policy g)) (in_Grants inp) \<and>
     (case in_KeyPolicy inp of None \<Rightarrow> True | Some k \<Rightarrow> policy_from pols k)"

lemma class_name_clean: "ValidateClassName c \<Longrightarrow> clean c \<and> c \<noteq> []"
proof -
  assume v: "ValidateClassName c"
  then obtain x xs where c: "c = x # xs" "is_lower x" "list_all class_char xs"
    by (auto simp: ValidateClassName_def split: list.splits)
  have "y \<notin> {CHR '';'', CHR '':'', CHR ''@'', CHR '','', CHR 0x00}" if "class_char y" for y
    using that by (auto simp: class_char_def byte_class_defs)
  moreover have "class_char x" using c(2) by (simp add: class_char_def)
  ultimately show ?thesis using c by (auto simp: clean_def list_all_iff)
qed

lemma Itoa_semicolon: "CHR '';'' \<notin> set (Itoa i)"
  using Itoa_chars [of "CHR '';''" i] by (auto simp: byte_class_defs)

lemma Join_set: "set (Join xs sep) \<subseteq> \<Union>(set ` set xs) \<union> set sep"
  by (induction xs sep rule: Join.induct) auto

lemma policy_part_free:
  assumes "policy_from pols p" shows "CHR '';'' \<notin> set (pol_Name p)"
  using assms by (auto simp: policy_from_def clean_def)

lemma normal_deny_clean:
  assumes "registered pols auds inp" and "c \<in> set (NormalizeClasses (in_DenyClasses inp))"
  shows "clean c \<and> c \<noteq> []"
  using assms set_NormalizeClasses_valid [of "in_DenyClasses inp"] class_name_clean
  by (auto simp: registered_def list_all_iff)

lemma key_parts_free:
  assumes "registered pols auds inp" and "set grants = set (in_Grants inp)" and "part \<in> set (key_parts inp grants)"
  shows "CHR '';'' \<notin> set part"
proof -
  have deny: "CHR '';'' \<notin> set (Join (NormalizeClasses (in_DenyClasses inp)) '','')"
    using normal_deny_clean [OF assms(1)] Join_set [of "NormalizeClasses (in_DenyClasses inp)" "'',''"]
    by (fastforce simp: clean_def)
  have grant: "CHR '';'' \<notin> set (grant_part g)" if "g \<in> set grants" for g
    using assms(1,2) that policy_part_free Itoa_semicolon
    by (auto simp: registered_def grant_part_def clean_def list_all_iff)
  show ?thesis
    using assms(1,3) deny grant policy_part_free Itoa_semicolon
    by (auto simp: key_parts_def key_part_def registered_def clean_def split: option.splits)
qed

lemma Join_comma_inj:
  assumes "\<forall>x \<in> set xs. clean x \<and> x \<noteq> []" and "\<forall>y \<in> set ys. clean y \<and> y \<noteq> []" and "Join xs '','' = Join ys '',''"
  shows "xs = ys"
proof -
  have nil: "Join zs '','' = [] \<longleftrightarrow> zs = []" if "\<forall>z \<in> set zs. clean z \<and> z \<noteq> []" for zs
    using that by (cases zs) (auto simp: Join_Cons)
  have free: "CHR '','' \<notin> set z" if "clean z" for z using that by (auto simp: clean_def)
  show ?thesis
  proof (cases "xs = []")
    case True
    with assms(2,3) nil show ?thesis by fastforce
  next
    case False
    with assms nil have "ys \<noteq> []" by fastforce
    with False assms free show ?thesis by (metis Split_Join)
  qed
qed

lemma policy_part_inj:
  assumes "a @ ''@'' @ Itoa i = b @ ''@'' @ Itoa j" and "clean a" and "clean b"
  shows "a = b \<and> i = j"
  using assms cut_inj [of a "CHR ''@''" "Itoa i" b "Itoa j"] by (auto simp: clean_def dest: Itoa_inj)

lemma grant_part_inj:
  assumes "grant_part g = grant_part h" and "clean (gr_ID g)" "clean (gr_ID h)"
    and "gr_Audience g = auds (gr_ID g)" "gr_Audience h = auds (gr_ID h)"
    and "policy_from pols (gr_Policy g)" "policy_from pols (gr_Policy h)"
  shows "(g :: Grant) = h"
proof -
  have "gr_ID g = gr_ID h \<and> pol_Name (gr_Policy g) @ ''@'' @ Itoa (pol_Version (gr_Policy g)) =
      pol_Name (gr_Policy h) @ ''@'' @ Itoa (pol_Version (gr_Policy h))"
    using assms(1-3) cut_inj [of "gr_ID g" "CHR '':''" _ "gr_ID h"] by (auto simp: grant_part_def clean_def)
  moreover from this have "pol_Name (gr_Policy g) = pol_Name (gr_Policy h) \<and>
      pol_Version (gr_Policy g) = pol_Version (gr_Policy h)"
    using assms(6,7) policy_part_inj by (auto simp: policy_from_def)
  ultimately have "gr_ID g = gr_ID h" "gr_Audience g = gr_Audience h" "gr_Policy g = gr_Policy h"
    using assms(4-7) by (simp, simp, metis policy_from_def)
  then show ?thesis by simp
qed

lemma map_inj_eq:
  "map f xs = map f ys \<Longrightarrow> (\<And>x y. x \<in> set xs \<Longrightarrow> y \<in> set ys \<Longrightarrow> f x = f y \<Longrightarrow> x = y) \<Longrightarrow> xs = ys"
proof (induction xs arbitrary: ys)
  case (Cons x xs)
  then obtain y zs where ys: "ys = y # zs" "f x = f y" "map f xs = map f zs" by (cases ys) auto
  then have "x = y" using Cons.prems(2) by simp
  moreover have "xs = zs" using Cons.IH ys Cons.prems(2) by simp
  ultimately show ?case using ys by simp
qed auto

lemma key_part_not_grant: "key_part k \<noteq> grant_part g"
  by (simp add: key_part_def grant_part_def)

text \<open>Equal keys of one registry's inputs come from the same principal, ceiling, key and grants.\<close>

lemma key_parts_inj:
  assumes "registered pols auds i" and "registered pols auds j"
    and "set gs = set (in_Grants i)" and "set hs = set (in_Grants j)"
    and "key_parts i gs = key_parts j hs"
  shows "in_PrincipalID i = in_PrincipalID j"
    and "NormalizeClasses (in_DenyClasses i) = NormalizeClasses (in_DenyClasses j)"
    and "in_KeyPolicy i = in_KeyPolicy j" and "gs = hs"
proof -
  let ?opt = "\<lambda>inp. case in_KeyPolicy inp of None \<Rightarrow> [] | Some k \<Rightarrow> [key_part k]"
  from assms(5) show "in_PrincipalID i = in_PrincipalID j" by (simp add: key_parts_def)
  from assms(5) have "Join (NormalizeClasses (in_DenyClasses i)) '','' = Join (NormalizeClasses (in_DenyClasses j)) '',''"
    by (simp add: key_parts_def)
  then show "NormalizeClasses (in_DenyClasses i) = NormalizeClasses (in_DenyClasses j)"
    using normal_deny_clean [OF assms(1)] normal_deny_clean [OF assms(2)] by (intro Join_comma_inj) auto
  have rest: "?opt i @ map grant_part gs = ?opt j @ map grant_part hs"
    using assms(5) by (simp add: key_parts_def)
  have same: "map grant_part gs = map grant_part hs \<and> ?opt i = ?opt j"
    using rest key_part_not_grant
    by (cases "in_KeyPolicy i"; cases "in_KeyPolicy j"; cases gs; cases hs) (auto dest: sym)
  show "in_KeyPolicy i = in_KeyPolicy j"
  proof (cases "in_KeyPolicy i")
    case None
    with same show ?thesis by (cases "in_KeyPolicy j") auto
  next
    case (Some k)
    with same obtain l where l: "in_KeyPolicy j = Some l" "key_part k = key_part l" by (cases "in_KeyPolicy j") auto
    have "policy_from pols k" "policy_from pols l" using assms(1,2) Some l by (auto simp: registered_def)
    moreover from this l(2) have "pol_Name k = pol_Name l \<and> pol_Version k = pol_Version l"
      using policy_part_inj by (auto simp: key_part_def policy_from_def)
    ultimately show ?thesis using Some l(1) by (metis policy_from_def)
  qed
  show "gs = hs"
  proof (rule map_inj_eq [of grant_part])
    show "map grant_part gs = map grant_part hs" using same ..
    fix g h assume gh: "g \<in> set gs" "h \<in> set hs" "grant_part g = grant_part h"
    with assms(1-4) show "g = h"
      by (intro grant_part_inj [where auds = auds and pols = pols]) (auto simp: registered_def list_all_iff)
  qed
qed

text \<open>Compilation depends on the input only through those four and the identity.\<close>

lemma NormalizeClasses_append_cong:
  "NormalizeClasses a = NormalizeClasses b \<Longrightarrow> NormalizeClasses (a @ c) = NormalizeClasses (b @ c)"
proof -
  assume n: "NormalizeClasses a = NormalizeClasses b"
  have app: "set (NormalizeClasses (x @ c)) = set (NormalizeClasses x) \<union> set (NormalizeClasses c)" for x
    by (auto simp: set_NormalizeClasses)
  have "set (NormalizeClasses (a @ c)) = set (NormalizeClasses (b @ c))" by (simp add: app n)
  then show ?thesis by (intro strict_sorted_unique NormalizeClasses_strict)
qed

lemma Compile_viewer_cong:
  assumes "in_PrincipalID i = in_PrincipalID j" and "in_IdentityID i = in_IdentityID j"
    and "NormalizeClasses (in_DenyClasses i) = NormalizeClasses (in_DenyClasses j)"
    and "in_KeyPolicy i = in_KeyPolicy j" and "sort_grants (in_Grants i) = sort_grants (in_Grants j)"
  shows "Compile_viewer i = Compile_viewer j"
proof -
  have b: "build_plan i = build_plan j"
    using assms(3,4) NormalizeClasses_append_cong [OF assms(3)]
    by (intro ext) (simp add: build_plan_def Let_def split: prod.splits)
  have k: "policyKey i = policyKey j"
    by (intro ext) (simp add: policyKey_def assms(1,3,4))
  show ?thesis unfolding Compile_viewer_def assms(1,2,4,5) b k by (rule refl)
qed

lemma cache_key_determines:
  assumes "registered pols auds i" and "registered pols auds j" and "cache_key i = cache_key j"
  shows "Compile_viewer i = Compile_viewer j"
proof -
  have nul: "CHR 0x00 \<notin> set (in_IdentityID x)" if "registered pols auds x" for x
    using that by (auto simp: registered_def clean_def)
  have id_key: "in_IdentityID i = in_IdentityID j \<and> Input_Key i = Input_Key j"
    using assms(3) cut_inj [of "in_IdentityID i" "CHR 0x00" "Input_Key i" "in_IdentityID j" "Input_Key j"]
      nul [OF assms(1)] nul [OF assms(2)] by (simp add: cache_key_def)
  let ?gs = "sort_grants (in_Grants i)" and ?hs = "sort_grants (in_Grants j)"
  have "Split (Join (key_parts x (sort_grants (in_Grants x))) '';'') (CHR '';'') = key_parts x (sort_grants (in_Grants x))"
    if "registered pols auds x" for x
    using key_parts_free [OF that, of "sort_grants (in_Grants x)"]
    by (intro Split_Join) (auto simp: key_parts_def)
  with id_key assms(1,2) have parts: "key_parts i ?gs = key_parts j ?hs"
    by (metis Input_Key_def policyKey_parts)
  show ?thesis
    using key_parts_inj [OF assms(1,2) _ _ parts] id_key by (intro Compile_viewer_cong) auto
qed

section \<open>Caches keyed by what they cache\<close>

text \<open>
  The contract: whenever two acceptable inputs have the same key, building them gives the
  same result. Then a cache filled with built values only ever answers what a build would.
\<close>

locale keyed_cache =
  fixes key :: "'i \<Rightarrow> 'k" and build :: "'i \<Rightarrow> 'e + 'v" and acceptable :: "'i \<Rightarrow> bool" and limit :: nat
  assumes key_determines: "acceptable i \<Longrightarrow> acceptable j \<Longrightarrow> key i = key j \<Longrightarrow> build i = build j"
    and limit_pos: "0 < limit"
begin

definition sound :: "('k \<times> 'v) list \<Rightarrow> bool" where
  "sound c \<longleftrightarrow> length c \<le> limit \<and> distinct (map fst c) \<and>
     (\<forall>k v. map_of c k = Some v \<longrightarrow> (\<exists>i. acceptable i \<and> key i = k \<and> build i = Inr v))"

lemma sound_bound: "sound c \<Longrightarrow> length c \<le> limit"
  by (simp add: sound_def)

lemma sound_Nil: "sound []"
  by (simp add: sound_def)

lemma sound_hit:
  assumes "sound c" and "acceptable i" and "map_of c (key i) = Some v"
  shows "build i = Inr v"
  using assms key_determines unfolding sound_def by metis

lemma sound_put:
  assumes "sound c" and "acceptable i" and "build i = Inr v"
  shows "sound (cache_put limit (key i) v c)"
proof -
  define c' where "c' = (if length c \<ge> limit then [] else c)"
  have c': "length c' < limit" "distinct (map fst c')"
    "\<And>k v. map_of c' k = Some v \<Longrightarrow> \<exists>i. acceptable i \<and> key i = k \<and> build i = Inr v"
    using assms(1) limit_pos by (cases "length c \<ge> limit"; force simp: c'_def sound_def)+
  have "length (AList.update (key i) v c') \<le> Suc (length c')" by (induction c') auto
  then show ?thesis
    using c' assms(2,3) unfolding cache_put_def c'_def [symmetric] sound_def
    by (auto simp: update_conv' distinct_update split: if_splits)
qed

end

interpretation viewers: keyed_cache cache_key Compile_viewer "registered pols auds" resolverCacheMax for pols auds
  by unfold_locales (auto simp: resolverCacheMax_def intro: cache_key_determines)

text \<open>
  The steps that change the cache, by any request in any order: storing the viewer compiled
  from an input of the registry, and \<open>Invalidate\<close>.
\<close>

inductive cache_step :: "(Input \<Rightarrow> bool) \<Rightarrow> viewer_cache \<Rightarrow> viewer_cache \<Rightarrow> bool" for ok where
  store: "ok inp \<Longrightarrow> Compile_viewer inp = Inr v \<Longrightarrow>
     cache_step ok c (cache_put resolverCacheMax (cache_key inp) v c)"
| invalidate: "cache_step ok c []"

inductive_cases cache_stepE: "cache_step ok c c'"

inductive reachable_cache :: "(Input \<Rightarrow> bool) \<Rightarrow> viewer_cache \<Rightarrow> bool" for ok where
  initial: "reachable_cache ok []"
| further: "reachable_cache ok c \<Longrightarrow> cache_step ok c c' \<Longrightarrow> reachable_cache ok c'"

lemma reachable_cache_sound: "reachable_cache (registered pols auds) c \<Longrightarrow> viewers.sound pols auds c"
proof (induction rule: reachable_cache.induct)
  case initial
  show ?case by (rule viewers.sound_Nil)
next
  case (further c c')
  from further.hyps(2) show ?case
    by (rule cache_stepE) (use further.IH in \<open>auto intro: viewers.sound_put viewers.sound_Nil\<close>)
qed

text \<open>A store for the witnesses: one known principal with a ceiling and no grant.\<close>

definition sample_store :: SharingStore where
  "sample_store =
     \<lparr>ss_DenyClasses = (\<lambda>p. if p = ''ana'' then Inr [''legal''] else Inl ErrNotFound),
      ss_ListActiveForPrincipal = (\<lambda>p now. Inr []),
      ss_IdentityPolicy = (\<lambda>i. Inr []),
      ss_Policies_Get = (\<lambda>i. Inl ErrNotFound),
      ss_Policies_GetByName = (\<lambda>n. Inl ErrNotFound)\<rparr>"

section \<open>Properties\<close>

text \<open>
  The policy key names everything the viewer depends on. For inputs read from one
  registry (a policy is determined by its name and version, an audience by its grant, and
  names hold no separator), equal identity and equal policy key compile to the same viewer.
\<close>

theorem policy_key_determines_viewer:
  assumes "registered pols auds i" and "registered pols auds j"
    and "in_IdentityID i = in_IdentityID j" and "Input_Key i = Input_Key j"
  shows "Compile_viewer i = Compile_viewer j"
  using assms by (intro cache_key_determines [of pols auds]) (simp_all add: cache_key_def)

theorem policy_key_determines_viewer_witness:
  "let pols = (\<lambda>n v. if n = ''partners-network'' then Templates ! 1 else Templates ! 0);
       auds = (\<lambda>g. if g = ''grt_2'' then ''partners'' else ''colleagues'');
       j = sample_input\<lparr>in_Grants := rev (in_Grants sample_input)\<rparr>
   in registered pols auds sample_input \<and> registered pols auds j \<and>
      Input_Key sample_input = Input_Key j \<and> Compile_viewer sample_input = Compile_viewer j"
proof -
  let ?pols = "\<lambda>(n :: string) (v :: int). if n = ''partners-network'' then Templates ! 1 else Templates ! 0"
  let ?auds = "\<lambda>g :: string. if g = ''grt_2'' then ''partners'' else ''colleagues''"
  let ?j = "sample_input\<lparr>in_Grants := rev (in_Grants sample_input)\<rparr>"
  have names: "pol_Name (Templates ! 0) = ''colleagues-network''" "pol_Name (Templates ! 1) = ''partners-network''"
    by (simp_all add: Templates_def TemplateColleagues_def TemplatePartners_def)
  have cl: "clean ''colleagues-network''" "clean ''partners-network''" "clean ''grt_1''" "clean ''grt_2''"
    "clean ''ana''" "clean ''key_1''" by (simp_all add: clean_def)
  have vc: "list_all ValidateClassName [''legal'']" by code_simp
  have i: "registered ?pols ?auds sample_input" and j: "registered ?pols ?auds ?j"
    using names cl vc by (simp_all add: registered_def sample_input_def policy_from_def)
  have "sort_grants (in_Grants sample_input) = sort_grants (in_Grants ?j)"
    by (simp add: sample_input_def sort_grants_def)
  then have k: "Input_Key sample_input = Input_Key ?j" by (simp add: Input_Key_def policyKey_def)
  have "in_IdentityID sample_input = in_IdentityID ?j" by simp
  from i j k policy_key_determines_viewer [OF i j this k] show ?thesis unfolding Let_def by blast
qed

text \<open>
  The cache is transparent and bounded. In every state other requests can bring the
  cache to, a request whose input comes from the registry gets from \<open>Resolve\<close> exactly what
  compiling its grants now would give, hit or miss, and leaves a cache that is again such a
  state and holds at most 1024 viewers.
\<close>

theorem resolve_is_transparent:
  assumes "reachable_cache (registered pols auds) (rs_cache rs)"
    and "rs_store rs = Some st" and "kind \<noteq> ''owner''"
    and "loadInput st principalID identityID now = Inr inp" and "registered pols auds inp"
  shows "fst (Resolve (Some rs) now principalID kind identityID) = Compile_viewer inp \<and>
    (\<exists>rs'. snd (Resolve (Some rs) now principalID kind identityID) = Some rs' \<and>
       reachable_cache (registered pols auds) (rs_cache rs') \<and> CacheSize (Some rs') \<le> 1024)"
proof -
  note sound = reachable_cache_sound [OF assms(1)]
  have bound: "length c \<le> 1024" if "reachable_cache (registered pols auds) c" for c
    using viewers.sound_bound [OF reachable_cache_sound [OF that]] unfolding resolverCacheMax_def .
  have un: "Resolve (Some rs) now principalID kind identityID =
      (case map_of (rs_cache rs) (cache_key inp) of
         Some v \<Rightarrow> (Inr v, Some rs)
       | None \<Rightarrow>
           (case Compile_viewer inp of
              Inl e \<Rightarrow> (Inl e, Some rs)
            | Inr v \<Rightarrow> (Inr v, Some (rs\<lparr>rs_cache := cache_put resolverCacheMax (cache_key inp) v (rs_cache rs)\<rparr>))))"
    using assms(2-4) by (simp add: Resolve_def PrincipalKindOwner_def Let_def)
  show ?thesis
  proof (cases "map_of (rs_cache rs) (cache_key inp)")
    case (Some v)
    with viewers.sound_hit [OF sound assms(5)] have "Compile_viewer inp = Inr v" by blast
    with Some un assms(1) bound show ?thesis by (simp add: CacheSize_def)
  next
    case None
    show ?thesis
    proof (cases "Compile_viewer inp")
      case (Inl e)
      with None un assms(1) bound show ?thesis by (simp add: CacheSize_def)
    next
      case (Inr v)
      have "reachable_cache (registered pols auds) (cache_put resolverCacheMax (cache_key inp) v (rs_cache rs))"
        using assms(1,5) Inr by (blast intro: reachable_cache.further cache_step.store)
      with None Inr un bound show ?thesis by (simp add: CacheSize_def)
    qed
  qed
qed

theorem resolve_is_transparent_witness:
  "\<exists>v rs'. Resolve (Some (NewResolver (Some sample_store))) 7 ''ana'' ''person'' ''key_1'' = (Inr v, Some rs') \<and>
     MatchesNothing v \<and> CacheSize (Some rs') \<le> 1024"
proof -
  let ?rs = "NewResolver (Some sample_store)"
  let ?inp = "\<lparr>in_PrincipalID = ''ana'', in_IdentityID = ''key_1'', in_Grants = [], in_DenyClasses = [''legal''],
     in_KeyPolicy = None\<rparr>"
  let ?pols = "\<lambda>(n :: string) (v :: int). zero_policy" and ?auds = "\<lambda>g :: string. g"
  have r: "reachable_cache (registered ?pols ?auds) (rs_cache ?rs)"
    by (simp add: NewResolver_def reachable_cache.initial)
  have st: "rs_store ?rs = Some sample_store" by (simp add: NewResolver_def)
  have l: "loadInput sample_store ''ana'' ''key_1'' 7 = Inr ?inp"
    by (simp add: loadInput_def sample_store_def load_key_policy_def)
  have "list_all ValidateClassName [''legal'']" by code_simp
  then have reg: "registered ?pols ?auds ?inp" by (simp add: registered_def clean_def)
  have k: "''person'' \<noteq> ''owner''" by simp
  have c: "Compile_viewer ?inp = Inr w \<Longrightarrow> MatchesNothing w" for w
    by (auto simp: Compile_viewer_def key_node_def sort_grants_def Let_def MatchesNothing_def)
  have "\<exists>w. Compile_viewer ?inp = Inr w"
    by (simp add: Compile_viewer_def key_node_def sort_grants_def Let_def)
  with c resolve_is_transparent [OF r st k l reg] show ?thesis by (metis prod.collapse)
qed

lemma compiled_restricted: "Compile_viewer inp = Inr v \<Longrightarrow> \<not> IsUnrestricted v"
  by (rule Plan_compiled)

lemma cached_restricted:
  assumes "reachable_cache ok c" "map_of c k = Some v"
  shows "\<not> IsUnrestricted v"
proof -
  from assms(1) have "\<forall>k v. map_of c k = Some v \<longrightarrow> \<not> IsUnrestricted v"
  proof (induction rule: reachable_cache.induct)
    case (further c c')
    from further.hyps(2) show ?case
      by (rule cache_stepE)
        (use further.IH compiled_restricted in \<open>auto simp: cache_put_def update_conv' split: if_splits\<close>)
  qed simp
  with assms(2) show ?thesis by blast
qed

lemma Resolve_unrestricted:
  assumes "\<forall>rs. r = Some rs \<longrightarrow> reachable_cache ok (rs_cache rs)"
    and "fst (Resolve r now principalID kind identityID) = Inr v" "IsUnrestricted v"
  shows "kind = PrincipalKindOwner"
proof (rule ccontr)
  assume k: "kind \<noteq> PrincipalKindOwner"
  have zero: "\<not> IsUnrestricted zero_viewer" by (simp add: zero_viewer_def IsUnrestricted_def)
  from assms(2,3) k zero obtain rs st inp where r: "r = Some rs" and
      v: "map_of (rs_cache rs) (cache_key inp) = Some v \<or> Compile_viewer inp = Inr v"
    by (auto simp: Resolve_def Let_def split: if_splits option.splits sum.splits)
  with assms(1,3) cached_restricted compiled_restricted show False by metis
qed

text \<open>
  Only the owner is unrestricted. \<open>Resolve\<close> and \<open>ViewAs\<close> with caches that hold compiled
  viewers only give an unrestricted viewer to a principal of the owner kind, and a principal
  or identity the registry does not know gets the zero viewer, which sees nothing.
\<close>

theorem only_owner_unrestricted:
  assumes "reachable_cache ok (rs_cache rs)"
  shows "(fst (Resolve (Some rs) now principalID kind identityID) = Inr v \<longrightarrow> IsUnrestricted v \<longrightarrow> kind = ''owner'') \<and>
    (fst (Resolve None now principalID kind identityID) = Inr v \<longrightarrow> IsUnrestricted v \<longrightarrow> kind = ''owner'') \<and>
    (kind \<noteq> ''owner'' \<longrightarrow> rs_store rs = Some st \<longrightarrow> ss_DenyClasses st principalID = Inl ErrNotFound \<longrightarrow>
       fst (Resolve (Some rs) now principalID kind identityID) = Inr zero_viewer) \<and>
    (\<forall>reg. rs_registry rs = Some reg \<longrightarrow> fst (ViewAs (Some rs) now target) = Inr v \<longrightarrow> IsUnrestricted v \<longrightarrow>
       (\<exists>p. reg target = Inr p \<and> pr_Kind p = ''owner''))"
proof -
  have res: "kind = ''owner''"
    if "fst (Resolve r now p kind i) = Inr v" "IsUnrestricted v" "r = Some rs \<or> r = None" for r p kind i
    using Resolve_unrestricted [OF _ that(1,2), of ok] that(3) assms by (auto simp: PrincipalKindOwner_def)
  have "\<not> IsUnrestricted v" if "view_policy st target = Inr v" for st
    using that compiled_restricted by (auto simp: view_policy_def split: sum.splits StoreError.splits)
  then have "\<exists>p. reg target = Inr p \<and> pr_Kind p = ''owner''"
    if "rs_registry rs = Some reg" "fst (ViewAs (Some rs) now target) = Inr v" "IsUnrestricted v" for reg
    using that res by (auto simp: ViewAs_def split: if_splits option.splits sum.splits StoreError.splits)
  moreover have "fst (Resolve (Some rs) now principalID kind identityID) = Inr zero_viewer"
    if "kind \<noteq> ''owner''" "rs_store rs = Some st" "ss_DenyClasses st principalID = Inl ErrNotFound"
    using that by (simp add: Resolve_def PrincipalKindOwner_def loadInput_def)
  ultimately show ?thesis using res by blast
qed

theorem only_owner_unrestricted_witness:
  "fst (Resolve (Some (NewResolver (Some sample_store))) 7 ''bob'' ''person'' []) = Inr zero_viewer"
proof -
  have r: "reachable_cache (\<lambda>_. True) (rs_cache (NewResolver (Some sample_store)))"
    by (simp add: NewResolver_def reachable_cache.initial)
  have "rs_store (NewResolver (Some sample_store)) = Some sample_store"
    "ss_DenyClasses sample_store ''bob'' = Inl ErrNotFound" by (simp_all add: NewResolver_def sample_store_def)
  then show ?thesis using only_owner_unrestricted [OF r, of 7 "''bob''" "''person''" "[]"] by simp
qed

end
