(* ===== verification/Projection.thy ===== *)
theory Projection
  imports Object_Model
begin

text \<open>
  Package \<open>internal/projection\<close>: the contact type rebuilt from its fields (\<open>contact.go\<close>), the
  document and index projections (\<open>projection.go\<close>), the masked projection restricted viewers
  search (\<open>masked.go\<close>) and the texts ingest embeds (\<open>text.go\<close>). The registry of searchable
  texts holds what the package's \<open>init\<close> registers, the contact type alone.

  The lemmas show that the rebuilt contact text depends only on the listed fields, that
  classed nodes cannot influence the masked projection, and that the texts embedded before
  and after persistence agree.
\<close>

section \<open>Contacts\<close>

definition TypeContact :: string where "TypeContact = ''contact''"

definition ContactTitle :: string where "ContactTitle = ''title''"
definition ContactOrg :: string where "ContactOrg = ''org''"
definition ContactRole :: string where "ContactRole = ''role''"
definition ContactCity :: string where "ContactCity = ''city''"
definition ContactEmail :: string where "ContactEmail = ''email''"
definition ContactPhone :: string where "ContactPhone = ''phone''"
definition ContactAddress :: string where "ContactAddress = ''address''"
definition ContactTags :: string where "ContactTags = ''tags''"
definition ContactNote :: string where "ContactNote = ''note''"

lemmas contact_names = ContactTitle_def ContactOrg_def ContactRole_def ContactCity_def ContactEmail_def
  ContactPhone_def ContactAddress_def ContactTags_def ContactNote_def

definition ContactNoteLabel :: string where "ContactNoteLabel = ''note''"
definition ContactCardLabel :: string where "ContactCardLabel = ''card''"

definition ContactFields :: "string list" where
  "ContactFields = [ContactTitle, ContactRole, ContactOrg, ContactCity, ContactEmail, ContactPhone,
     ContactAddress, ContactTags, ContactNote]"

definition ContactCardFields :: "string list" where
  "ContactCardFields = [ContactTitle, ContactRole, ContactOrg, ContactCity]"

definition ContactSearchableMinimum :: "string list" where
  "ContactSearchableMinimum = [ContactTitle, ContactOrg, ContactRole, ContactTags, ContactCity]"

definition ContactFieldClasses :: "(string \<times> string) list" where
  "ContactFieldClasses = [(ContactEmail, ClassContactDetails), (ContactPhone, ClassContactDetails),
     (ContactAddress, ClassContactDetails), (ContactNote, ClassPersonal)]"

definition metaString :: "KnowledgeObject \<Rightarrow> string \<Rightarrow> string" where
  "metaString ko key =
     TrimSpace (case as_string (meta_get (ko_Metadata ko) key) of None \<Rightarrow> [] | Some s \<Rightarrow> s)"

definition contactNote :: "KnowledgeObject \<Rightarrow> string" where
  "contactNote ko =
     (case ko_Graph ko of
        None \<Rightarrow> []
      | Some g \<Rightarrow>
          Join (map (\<lambda>n. TrimSpace (node_Content n))
             (filter (\<lambda>n. node_NodeType n = NodeTypeSection \<and> node_Label n = ContactNoteLabel \<and>
                          TrimSpace (node_Content n) \<noteq> []) (graph_Nodes g))) [CHR 0x0A])"

definition ContactField :: "KnowledgeObject option \<Rightarrow> string \<Rightarrow> string" where
  "ContactField kopt field =
     (case kopt of
        None \<Rightarrow> []
      | Some ko \<Rightarrow>
          (if field = ContactTitle then
             (if metaString ko ''name'' \<noteq> [] then metaString ko ''name''
              else if ko_Summaries ko \<noteq> [] then TrimSpace (hd (ko_Summaries ko))
              else [])
           else if field \<in> {ContactOrg, ContactRole, ContactCity, ContactEmail, ContactPhone, ContactAddress} then
             metaString ko field
           else if field = ContactTags then
             Join (filter (\<lambda>l. l \<noteq> []) (map tag_Label (ko_Tags ko))) '', ''
           else if field = ContactNote then contactNote ko
           else []))"

definition line :: "string \<Rightarrow> string list" where
  "line s = (if s \<noteq> [] then [s] else [])"

definition labelled_line :: "string \<Rightarrow> string \<Rightarrow> string list" where
  "labelled_line label v = (if v \<noteq> [] then [label @ '': '' @ v] else [])"

definition add_head :: "string \<Rightarrow> string \<Rightarrow> string \<Rightarrow> string" where
  "add_head h sep v = (if v \<noteq> [] then (if h \<noteq> [] then h @ sep @ v else v) else h)"

definition RenderContact :: "KnowledgeObject option \<Rightarrow> string list \<Rightarrow> string" where
  "RenderContact ko flds =
     (let value = (\<lambda>f. if f \<in> set flds then ContactField ko f else []);
          head = add_head (add_head (value ContactTitle) '' | '' (value ContactRole)) '' @ '' (value ContactOrg)
      in Join (line head @ line (value ContactCity) @
               labelled_line ''Email'' (value ContactEmail) @ labelled_line ''Phone'' (value ContactPhone) @
               labelled_line ''Address'' (value ContactAddress) @ labelled_line ''Tags'' (value ContactTags) @
               line (value ContactNote)) [CHR 0x0A])"

section \<open>Segments\<close>

record segments =
  sg_list :: "string list"
  sg_seen :: "string list"

definition no_segments :: segments where
  "no_segments = \<lparr>sg_list = [], sg_seen = []\<rparr>"

definition seg_add :: "segments \<Rightarrow> string \<Rightarrow> segments" where
  "seg_add p s =
     (let key = TrimSpace s
      in if key = [] \<or> blobref_Is key then p
         else if key \<in> set (sg_seen p) then p
         else \<lparr>sg_list = sg_list p @ [s], sg_seen = key # sg_seen p\<rparr>)"

section \<open>Projections\<close>

record DocumentProjection =
  dp_Title :: string
  dp_Body :: string
  dp_Sections :: "Section list"

record IndexProjection =
  ip_FTSBody :: string
  ip_Tags :: "Tag list"
  ip_Mentions :: "string list"
  ip_EmbeddingText :: string
  ip_MaskedFTSBody :: string
  ip_MaskedEmbeddingText :: string

definition empty_index :: IndexProjection where
  "empty_index = \<lparr>ip_FTSBody = [], ip_Tags = [], ip_Mentions = [], ip_EmbeddingText = [],
     ip_MaskedFTSBody = [], ip_MaskedEmbeddingText = []\<rparr>"

text \<open>\<open>ko.Graph\<close> when it is non-nil and has nodes.\<close>

definition graph_nodes :: "KnowledgeObject \<Rightarrow> GraphNode list" where
  "graph_nodes ko = (case ko_Graph ko of None \<Rightarrow> [] | Some g \<Rightarrow> graph_Nodes g)"

definition ProjectDocument :: "KnowledgeObject option \<Rightarrow> DocumentProjection" where
  "ProjectDocument kopt =
     (case kopt of
        None \<Rightarrow> \<lparr>dp_Title = [], dp_Body = [], dp_Sections = []\<rparr>
      | Some ko \<Rightarrow>
          (if graph_nodes ko = [] then
             \<lparr>dp_Title = [], dp_Body = ko_TextContent ko, dp_Sections = ko_Sections ko\<rparr>
           else
             \<lparr>dp_Title = [], dp_Body = [],
              dp_Sections = sort_key sec_Order
                (map (\<lambda>n. \<lparr>sec_Title = node_Label n, sec_Content = node_Content n, sec_Order = node_Order n,
                           sec_Metadata = []\<rparr>)
                   (filter (\<lambda>n. node_NodeType n = NodeTypeSection) (graph_nodes ko)))\<rparr>))"

definition flatIndexProjection :: "KnowledgeObject \<Rightarrow> IndexProjection" where
  "flatIndexProjection ko =
     (let parts = foldl seg_add no_segments
                    ([ko_TextContent ko] @ ko_Summaries ko @ map sec_Content (ko_Sections ko))
      in empty_index\<lparr>ip_FTSBody := Join (sg_list parts) '' '', ip_Tags := ko_Tags ko,
           ip_Mentions := ko_Mentions ko, ip_EmbeddingText := Join (sg_list parts) [CHR 0x0A]\<rparr>)"

definition indexed_node :: "GraphNode \<Rightarrow> bool" where
  "indexed_node n \<longleftrightarrow> node_NodeType n = NodeTypeSummary \<or> node_NodeType n = NodeTypeSection"

text \<open>One round of the loop over the graph's nodes.\<close>

definition index_step :: "segments \<times> Tag list \<times> string list \<Rightarrow> GraphNode \<Rightarrow> segments \<times> Tag list \<times> string list" where
  "index_step acc n =
     (case acc of (parts, tags, mentions) \<Rightarrow>
        if indexed_node n then (seg_add parts (node_Content n), tags, mentions)
        else if node_NodeType n = NodeTypeTag then
          (parts, tags @ [\<lparr>tag_Label = (if node_Label n = [] then node_Content n else node_Label n),
                          tag_Weight = ''0'', tag_Source = []\<rparr>], mentions)
        else if node_NodeType n = NodeTypeEntityMention \<and> node_Content n \<noteq> [] then
          (parts, tags, mentions @ [node_Content n])
        else acc)"

definition rawIndexProjection :: "KnowledgeObject \<Rightarrow> IndexProjection" where
  "rawIndexProjection ko =
     (if graph_nodes ko = [] then flatIndexProjection ko
      else
        (let (parts, tags, mentions) = foldl index_step (no_segments, [], []) (graph_nodes ko)
         in if sg_list parts = [] then (flatIndexProjection ko)\<lparr>ip_Tags := tags, ip_Mentions := mentions\<rparr>
            else empty_index\<lparr>ip_FTSBody := Join (sg_list parts) '' '', ip_Tags := tags,
                   ip_Mentions := mentions, ip_EmbeddingText := Join (sg_list parts) [CHR 0x0A]\<rparr>))"

section \<open>The masked projection\<close>

definition searchableTexts :: "string \<Rightarrow> (KnowledgeObject \<Rightarrow> (string \<times> bool)) option" where
  "searchableTexts ty =
     (if ty = TypeContact then Some (\<lambda>ko. (RenderContact (Some ko) ContactSearchableMinimum, True)) else None)"

text \<open>One round of \<open>maskedParts\<close>: the kept segments and whether a node was withheld.\<close>

definition masked_step :: "segments \<times> bool \<Rightarrow> GraphNode \<Rightarrow> segments \<times> bool" where
  "masked_step acc n =
     (case acc of (parts, withheld) \<Rightarrow>
        if indexed_node n then
          (if NodeClasses n \<noteq> [] then (parts, True) else (seg_add parts (node_Content n), withheld))
        else acc)"

definition maskedParts :: "KnowledgeObject \<Rightarrow> segments \<times> bool" where
  "maskedParts ko = foldl masked_step (no_segments, False) (graph_nodes ko)"

definition masked :: "KnowledgeObject \<Rightarrow> IndexProjection \<Rightarrow> IndexProjection" where
  "masked ko p =
     (let rest =
        (let same = p\<lparr>ip_MaskedFTSBody := ip_FTSBody p, ip_MaskedEmbeddingText := ip_EmbeddingText p\<rparr>
         in if graph_nodes ko \<noteq> [] then
              (case maskedParts ko of (parts, withheld) \<Rightarrow>
                 if withheld then
                   p\<lparr>ip_MaskedFTSBody := Join (sg_list parts) '' '',
                     ip_MaskedEmbeddingText := Join (sg_list parts) [CHR 0x0A]\<rparr>
                 else same)
            else same)
      in case searchableTexts (ko_Type ko) of
           None \<Rightarrow> rest
         | Some fn \<Rightarrow>
             (case fn ko of (text, ok) \<Rightarrow>
                if ok then p\<lparr>ip_MaskedFTSBody := text, ip_MaskedEmbeddingText := text\<rparr> else rest))"

definition ProjectIndex :: "KnowledgeObject option \<Rightarrow> IndexProjection" where
  "ProjectIndex kopt =
     (case kopt of None \<Rightarrow> empty_index | Some ko \<Rightarrow> masked ko (rawIndexProjection ko))"

section \<open>Embedded texts\<close>

definition BodyText :: "KnowledgeObject option \<Rightarrow> string" where
  "BodyText kopt =
     (case kopt of
        None \<Rightarrow> []
      | Some ko \<Rightarrow>
          (case find (\<lambda>s. s \<noteq> [] \<and> \<not> blobref_Is s) [ko_TextContent ko, ko_RawContent ko] of
             None \<Rightarrow> [] | Some s \<Rightarrow> s))"

definition defaulted :: "KnowledgeObject \<Rightarrow> KnowledgeObject" where
  "defaulted ko =
     (if ko_TextContent ko \<noteq> [] \<or> ko_RawContent ko = [] then ko
      else ko\<lparr>ko_TextContent := BodyText (Some ko)\<rparr>)"

definition EmbeddingText :: "KnowledgeObject option \<Rightarrow> string" where
  "EmbeddingText kopt =
     (case kopt of None \<Rightarrow> [] | Some ko \<Rightarrow> ip_EmbeddingText (ProjectIndex (Some (defaulted ko))))"

definition MaskedEmbeddingText :: "KnowledgeObject option \<Rightarrow> string" where
  "MaskedEmbeddingText kopt =
     (case kopt of None \<Rightarrow> [] | Some ko \<Rightarrow> ip_MaskedEmbeddingText (ProjectIndex (Some (defaulted ko))))"

section \<open>Lemmas\<close>

lemma RenderContact_cong:
  assumes "\<And>f. f \<in> set flds \<Longrightarrow> ContactField a f = ContactField b f"
  shows "RenderContact a flds = RenderContact b flds"
proof -
  have "(\<lambda>f. if f \<in> set flds then ContactField a f else []) = (\<lambda>f. if f \<in> set flds then ContactField b f else [])"
    using assms by auto
  then show ?thesis unfolding RenderContact_def by simp
qed

subsection \<open>Segments keep the first of each text\<close>

lemma seg_add_cases:
  "seg_add p s = p \<or>
   TrimSpace s \<noteq> [] \<and> \<not> blobref_Is (TrimSpace s) \<and> TrimSpace s \<notin> set (sg_seen p) \<and>
     seg_add p s = \<lparr>sg_list = sg_list p @ [s], sg_seen = TrimSpace s # sg_seen p\<rparr>"
  by (auto simp: seg_add_def Let_def)

definition seg_ok :: "segments \<Rightarrow> bool" where
  "seg_ok p \<longleftrightarrow> sg_seen p = rev (map TrimSpace (sg_list p)) \<and> distinct (sg_seen p) \<and>
     (\<forall>s \<in> set (sg_list p). TrimSpace s \<noteq> [] \<and> \<not> blobref_Is (TrimSpace s))"

lemma seg_ok_add: "seg_ok p \<Longrightarrow> seg_ok (seg_add p s)"
  using seg_add_cases [of p s] by (auto simp: seg_ok_def)

lemma seg_ok_fold: "seg_ok p \<Longrightarrow> seg_ok (foldl seg_add p xs)"
  by (induction xs arbitrary: p) (auto intro: seg_ok_add)

lemma seg_fold_seen:
  "set (sg_seen (foldl seg_add p xs)) =
     set (sg_seen p) \<union> {k. k \<noteq> [] \<and> \<not> blobref_Is k \<and> (\<exists>x \<in> set xs. k = TrimSpace x)}"
  by (induction xs arbitrary: p) (auto simp: seg_add_def Let_def)

lemma seg_fold_list: "set (sg_list (foldl seg_add p xs)) \<subseteq> set (sg_list p) \<union> set xs"
proof (induction xs arbitrary: p)
  case (Cons x xs)
  have "set (sg_list (seg_add p x)) \<subseteq> set (sg_list p) \<union> {x}" by (auto simp: seg_add_def Let_def)
  with Cons [of "seg_add p x"] show ?case by auto
qed simp

lemma seg_ok_no_segments [simp]: "seg_ok no_segments"
  by (simp add: seg_ok_def no_segments_def)

subsection \<open>Loops as folds over the indexed nodes\<close>

lemma index_step_parts:
  "fst (foldl index_step (parts, tags, mentions) ns) =
     foldl seg_add parts (map node_Content (filter indexed_node ns))"
  by (induction ns arbitrary: parts tags mentions) (auto simp: index_step_def)

lemma masked_step_fold:
  "foldl masked_step (parts, w) ns =
     (foldl seg_add parts (map node_Content (filter (\<lambda>n. indexed_node n \<and> NodeClasses n = []) ns)),
      w \<or> (\<exists>n \<in> set ns. indexed_node n \<and> NodeClasses n \<noteq> []))"
  by (induction ns arbitrary: parts w) (auto simp: masked_step_def)

lemma maskedParts_eq:
  "maskedParts ko =
     (foldl seg_add no_segments (map node_Content (filter (\<lambda>n. indexed_node n \<and> NodeClasses n = []) (graph_nodes ko))),
      \<exists>n \<in> set (graph_nodes ko). indexed_node n \<and> NodeClasses n \<noteq> [])"
  unfolding maskedParts_def masked_step_fold by simp

lemma masked_plain:
  assumes "ko_Type ko \<noteq> TypeContact" and "\<exists>n \<in> set (graph_nodes ko). indexed_node n \<and> NodeClasses n \<noteq> []"
  shows "ip_MaskedFTSBody (ProjectIndex (Some ko)) =
     Join (sg_list (foldl seg_add no_segments
       (map node_Content (filter (\<lambda>n. indexed_node n \<and> NodeClasses n = []) (graph_nodes ko))))) '' ''"
    and "ip_MaskedEmbeddingText (ProjectIndex (Some ko)) =
     Join (sg_list (foldl seg_add no_segments
       (map node_Content (filter (\<lambda>n. indexed_node n \<and> NodeClasses n = []) (graph_nodes ko))))) [CHR 0x0A]"
proof -
  from assms(2) have "graph_nodes ko \<noteq> []" by auto
  then show "ip_MaskedFTSBody (ProjectIndex (Some ko)) =
     Join (sg_list (foldl seg_add no_segments
       (map node_Content (filter (\<lambda>n. indexed_node n \<and> NodeClasses n = []) (graph_nodes ko))))) '' ''"
    and "ip_MaskedEmbeddingText (ProjectIndex (Some ko)) =
     Join (sg_list (foldl seg_add no_segments
       (map node_Content (filter (\<lambda>n. indexed_node n \<and> NodeClasses n = []) (graph_nodes ko))))) [CHR 0x0A]"
    using assms by (simp_all add: ProjectIndex_def masked_def searchableTexts_def maskedParts_eq Let_def)
qed

lemma agree_filter:
  "list_all2 (\<lambda>m n. P m = P n \<and> (P m \<longrightarrow> m = n) \<and> Q m = Q n) xs ys \<Longrightarrow>
   filter P xs = filter P ys \<and> ((\<exists>x \<in> set xs. Q x) \<longleftrightarrow> (\<exists>y \<in> set ys. Q y))"
proof (induction rule: list_all2_induct)
  case (Cons x xs y ys)
  then show ?case by (cases "P x") simp_all
qed simp

section \<open>Properties\<close>

text \<open>
  A contact's rebuilt text shows only the listed fields. Two contacts that agree on the
  values of the listed fields render to the same text, whatever else they hold; and with no
  listed field the text is empty.
\<close>

theorem contact_text_only_listed_fields:
  "((\<forall>f \<in> set flds. ContactField a f = ContactField b f) \<longrightarrow> RenderContact a flds = RenderContact b flds) \<and>
   RenderContact a [] = []"
  by (auto intro: RenderContact_cong) (simp add: RenderContact_def Let_def add_head_def line_def labelled_line_def)

theorem contact_text_only_listed_fields_witness:
  "let a = zero_object\<lparr>ko_Metadata := [(''name'', GStr ''Ana''), (''email'', GStr ''ana@x.org'')]\<rparr>;
       b = zero_object\<lparr>ko_Metadata := [(''name'', GStr ''Ana''), (''phone'', GStr ''555-0101'')]\<rparr>
   in RenderContact (Some a) [''title'', ''org''] = RenderContact (Some b) [''title'', ''org''] \<and>
      RenderContact (Some a) [''title'', ''email''] = ''Ana'' @ [CHR 0x0A] @ ''Email: ana@x.org''"
proof -
  let ?a = "zero_object\<lparr>ko_Metadata := [(''name'', GStr ''Ana''), (''email'', GStr ''ana@x.org'')]\<rparr>"
  let ?b = "zero_object\<lparr>ko_Metadata := [(''name'', GStr ''Ana''), (''phone'', GStr ''555-0101'')]\<rparr>"
  have "list_all (\<lambda>f. ContactField (Some ?a) f = ContactField (Some ?b) f) [''title'', ''org'']" by code_simp
  then have "\<forall>f \<in> set [''title'', ''org'']. ContactField (Some ?a) f = ContactField (Some ?b) f"
    by (simp only: list_all_iff)
  then have "RenderContact (Some ?a) [''title'', ''org''] = RenderContact (Some ?b) [''title'', ''org'']"
    using contact_text_only_listed_fields [of "[''title'', ''org'']" "Some ?a" "Some ?b"] by blast
  moreover have "RenderContact (Some ?a) [''title'', ''email''] = ''Ana'' @ [CHR 0x0A] @ ''Email: ana@x.org''"
    by code_simp
  ultimately show ?thesis by simp
qed

text \<open>
  C38: classed parts cannot influence what restricted viewers search. For two objects that are
  not contacts and whose graphs have the same nodes except that nodes carrying a class may
  have any label, content and metadata on either side (keeping some class and their type),
  with at least one such summary or section, the masked full-text body and the masked
  embedding text are the same; every segment of the masked body is the content of an
  unclassed node. For contacts the masked text depends on the title, organisation, role,
  tags and city alone.
\<close>

theorem masked_projection_noninterference:
  "(ko_Type a \<noteq> TypeContact \<and> ko_Type b \<noteq> TypeContact \<and>
    list_all2 (\<lambda>m n. node_NodeType m = node_NodeType n \<and>
       (if NodeClasses m = [] then m = n else NodeClasses n \<noteq> [])) (graph_nodes a) (graph_nodes b) \<and>
    (\<exists>n \<in> set (graph_nodes a). indexed_node n \<and> NodeClasses n \<noteq> []) \<longrightarrow>
      ip_MaskedFTSBody (ProjectIndex (Some a)) = ip_MaskedFTSBody (ProjectIndex (Some b)) \<and>
      ip_MaskedEmbeddingText (ProjectIndex (Some a)) = ip_MaskedEmbeddingText (ProjectIndex (Some b)) \<and>
      (\<forall>s \<in> set (sg_list (fst (maskedParts a))). \<exists>n \<in> set (graph_nodes a). NodeClasses n = [] \<and> node_Content n = s)) \<and>
   (ko_Type a = TypeContact \<and> ko_Type b = TypeContact \<and>
    (\<forall>f \<in> {ContactTitle, ContactOrg, ContactRole, ContactTags, ContactCity}.
       ContactField (Some a) f = ContactField (Some b) f) \<longrightarrow>
      ip_MaskedFTSBody (ProjectIndex (Some a)) = ip_MaskedFTSBody (ProjectIndex (Some b)) \<and>
      ip_MaskedEmbeddingText (ProjectIndex (Some a)) = ip_MaskedEmbeddingText (ProjectIndex (Some b)))"
proof (intro conjI impI)
  assume h: "ko_Type a \<noteq> TypeContact \<and> ko_Type b \<noteq> TypeContact \<and>
    list_all2 (\<lambda>m n. node_NodeType m = node_NodeType n \<and>
       (if NodeClasses m = [] then m = n else NodeClasses n \<noteq> [])) (graph_nodes a) (graph_nodes b) \<and>
    (\<exists>n \<in> set (graph_nodes a). indexed_node n \<and> NodeClasses n \<noteq> [])"
  then have all2: "list_all2 (\<lambda>m n. node_NodeType m = node_NodeType n \<and>
       (if NodeClasses m = [] then m = n else NodeClasses n \<noteq> [])) (graph_nodes a) (graph_nodes b)" by simp
  let ?keep = "\<lambda>n. indexed_node n \<and> NodeClasses n = []"
    and ?hide = "\<lambda>n. indexed_node n \<and> NodeClasses n \<noteq> []"
  have "list_all2 (\<lambda>m n. ?keep m = ?keep n \<and> (?keep m \<longrightarrow> m = n) \<and> ?hide m = ?hide n) (graph_nodes a) (graph_nodes b)"
    by (rule list_all2_mono [OF all2]) (auto simp: indexed_node_def split: if_splits)
  then have same: "filter ?keep (graph_nodes a) = filter ?keep (graph_nodes b) \<and>
      ((\<exists>n \<in> set (graph_nodes a). ?hide n) \<longleftrightarrow> (\<exists>n \<in> set (graph_nodes b). ?hide n))"
    by (rule agree_filter)
  with h have hb: "\<exists>n \<in> set (graph_nodes b). indexed_node n \<and> NodeClasses n \<noteq> []" by blast
  show "ip_MaskedFTSBody (ProjectIndex (Some a)) = ip_MaskedFTSBody (ProjectIndex (Some b))"
    "ip_MaskedEmbeddingText (ProjectIndex (Some a)) = ip_MaskedEmbeddingText (ProjectIndex (Some b))"
    using h hb same by (simp_all add: masked_plain)
  show "\<forall>s \<in> set (sg_list (fst (maskedParts a))). \<exists>n \<in> set (graph_nodes a). NodeClasses n = [] \<and> node_Content n = s"
    using seg_fold_list [of no_segments "map node_Content (filter ?keep (graph_nodes a))"]
    by (fastforce simp: maskedParts_eq no_segments_def)
next
  assume c: "ko_Type a = TypeContact \<and> ko_Type b = TypeContact \<and>
    (\<forall>f \<in> {ContactTitle, ContactOrg, ContactRole, ContactTags, ContactCity}.
       ContactField (Some a) f = ContactField (Some b) f)"
  then have "RenderContact (Some a) ContactSearchableMinimum = RenderContact (Some b) ContactSearchableMinimum"
    by (intro RenderContact_cong) (auto simp: ContactSearchableMinimum_def)
  with c show "ip_MaskedFTSBody (ProjectIndex (Some a)) = ip_MaskedFTSBody (ProjectIndex (Some b))"
    "ip_MaskedEmbeddingText (ProjectIndex (Some a)) = ip_MaskedEmbeddingText (ProjectIndex (Some b))"
    by (simp_all add: ProjectIndex_def masked_def searchableTexts_def)
qed

theorem masked_projection_noninterference_witness:
  "let n = (\<lambda>content classes. \<lparr>node_ID = ''n'', node_NodeType = ''section'', node_Label = ''s'', node_Content = content,
              node_Order = 0, node_Metadata = [(''classes'', GStrs classes)]\<rparr>);
       a = zero_object\<lparr>ko_Graph := Some \<lparr>graph_Nodes = [n ''open'' [], n ''closed'' [''personal'']], graph_Edges = []\<rparr>\<rparr>;
       b = zero_object\<lparr>ko_Graph := Some \<lparr>graph_Nodes = [n ''open'' [], n ''other'' [''legal'']], graph_Edges = []\<rparr>\<rparr>
   in ip_MaskedFTSBody (ProjectIndex (Some a)) = ip_MaskedFTSBody (ProjectIndex (Some b)) \<and>
      ip_MaskedFTSBody (ProjectIndex (Some a)) = ''open''"
proof -
  define n where "n content classes = \<lparr>node_ID = ''n'', node_NodeType = ''section'', node_Label = ''s'', node_Content = content,
              node_Order = 0, node_Metadata = [(''classes'', GStrs classes)]\<rparr>" for content classes
  define a where "a = zero_object\<lparr>ko_Graph := Some \<lparr>graph_Nodes = [n ''open'' [], n ''closed'' [''personal'']], graph_Edges = []\<rparr>\<rparr>"
  define b where "b = zero_object\<lparr>ko_Graph := Some \<lparr>graph_Nodes = [n ''open'' [], n ''other'' [''legal'']], graph_Edges = []\<rparr>\<rparr>"
  have cl: "NodeClasses (n c []) = []" "NodeClasses (n c [''personal'']) \<noteq> []" "NodeClasses (n c [''legal'']) \<noteq> []" for c
  proof -
    have "NormalizeClasses [''personal''] = [''personal'']" "NormalizeClasses [''legal''] = [''legal'']"
      "NormalizeClasses [] = []" by code_simp+
    then show "NodeClasses (n c []) = []" "NodeClasses (n c [''personal'']) \<noteq> []" "NodeClasses (n c [''legal'']) \<noteq> []"
      by (simp_all add: n_def NodeClasses_def NodeMetadataClasses_def)
  qed
  have ix: "indexed_node (n c k)" for c k by (simp add: indexed_node_def n_def NodeTypeSection_def)
  have ty: "node_NodeType (n c k) = ''section''" for c k by (simp add: n_def)
  have ga: "graph_nodes a = [n ''open'' [], n ''closed'' [''personal'']]" and gb: "graph_nodes b = [n ''open'' [], n ''other'' [''legal'']]"
    and k: "ko_Type a \<noteq> TypeContact" "ko_Type b \<noteq> TypeContact"
    by (simp_all add: a_def b_def graph_nodes_def zero_object_def TypeContact_def)
  have h: "list_all2 (\<lambda>m n. node_NodeType m = node_NodeType n \<and>
       (if NodeClasses m = [] then m = n else NodeClasses n \<noteq> [])) (graph_nodes a) (graph_nodes b)"
    "\<exists>n \<in> set (graph_nodes a). indexed_node n \<and> NodeClasses n \<noteq> []"
    unfolding ga gb using cl ix ty by auto
  have same: "ip_MaskedFTSBody (ProjectIndex (Some a)) = ip_MaskedFTSBody (ProjectIndex (Some b))"
    using masked_projection_noninterference [of a b] h k by blast
  have "TrimSpace ''open'' = ''open''" "\<not> blobref_Is ''open''" by code_simp+
  then have "ip_MaskedFTSBody (ProjectIndex (Some a)) = ''open''"
    unfolding masked_plain(1) [OF k(1) h(2)] ga using cl ix by (simp add: seg_add_def no_segments_def n_def Let_def)
  with same show ?thesis unfolding a_def b_def n_def Let_def by simp
qed

text \<open>
  The index segments are the first of each text. Adding texts to an empty collection
  keeps, in order, texts of the input whose trimmed forms are pairwise distinct, none empty
  and none a blob reference, and every other text that is not empty and not a blob reference
  is a repeat of one that was kept.
\<close>

theorem segments_first_occurrences:
  "let p = foldl seg_add no_segments xs
   in distinct (map TrimSpace (sg_list p)) \<and> set (sg_list p) \<subseteq> set xs \<and>
      set (map TrimSpace (sg_list p)) =
        {k. k \<noteq> [] \<and> \<not> blobref_Is k \<and> (\<exists>x \<in> set xs. k = TrimSpace x)}"
proof -
  let ?p = "foldl seg_add no_segments xs"
  have ok: "seg_ok ?p" by (rule seg_ok_fold) simp
  then have seen: "sg_seen ?p = rev (map TrimSpace (sg_list ?p))" "distinct (sg_seen ?p)"
    unfolding seg_ok_def by blast+
  then have "set (map TrimSpace (sg_list ?p)) = set (sg_seen ?p)" by simp
  moreover have "distinct (map TrimSpace (sg_list ?p))" using seen by (metis distinct_rev)
  moreover have "set (sg_list ?p) \<subseteq> set xs" using seg_fold_list [of no_segments xs] by (simp add: no_segments_def)
  ultimately show ?thesis by (simp add: Let_def seg_fold_seen no_segments_def)
qed

text \<open>
  An object embeds the same text before and after it is stored. Storing fills an empty
  text body with the body text; both embedded variants are unchanged by that, and an object
  whose content is a blob reference never embeds the reference as its body.
\<close>

theorem embedding_stable_under_persistence:
  "EmbeddingText (Some (defaulted ko)) = EmbeddingText (Some ko) \<and>
   MaskedEmbeddingText (Some (defaulted ko)) = MaskedEmbeddingText (Some ko) \<and>
   (blobref_Is (ko_RawContent ko) \<longrightarrow> ko_TextContent ko = [] \<longrightarrow> ko_TextContent (defaulted ko) = [])"
proof -
  have idem: "defaulted (defaulted ko) = defaulted ko"
    by (auto simp: defaulted_def BodyText_def)
  then show ?thesis
    by (auto simp: EmbeddingText_def MaskedEmbeddingText_def) (auto simp: defaulted_def BodyText_def)
qed

theorem embedding_stable_under_persistence_witness:
  "ko_TextContent (defaulted (zero_object\<lparr>ko_RawContent := ''blob://k''\<rparr>)) = []"
proof -
  have "blobref_Is (ko_RawContent (zero_object\<lparr>ko_RawContent := ''blob://k''\<rparr>))"
    "ko_TextContent (zero_object\<lparr>ko_RawContent := ''blob://k''\<rparr>) = []" by code_simp+
  then show ?thesis using embedding_stable_under_persistence by blast
qed

end
