(* ===== verification/Scoped_Driver.thy ===== *)
theory Scoped_Driver
  imports Share_Compile Projection
begin

text \<open>
  The storage a restricted viewer gets: \<open>internal/storage/scoped.go\<close> (\<open>ScopedDriver\<close>, the
  classification tables), \<open>scoped_objects.go\<close> (the wrappers whose reads answer through the
  driver's scoped stores, and blobs), \<open>scoped_state.go\<close> (per-principal state) and
  \<open>scoped_system.go\<close> (the owner-only stores).

  Representation. A driver is a record of stores and a store a record of operations over the
  database's state \<open>'s\<close>: a read is a function of the state, a write also returns the new
  state. Contexts carry no data the wrappers read and are left out. What a store's
  \<open>Scoped\<close> method returns is the \<open>dr_scope\<close> field beside the store, \<open>None\<close> when the store
  does not implement the scoper interface. The owner-only stores and the stores whose
  wrapper only refuses or forwards are called by accessor and method name with opaque
  arguments.

  The lemmas show that a nil viewer reads nothing, that the owner-only stores answer no
  restricted viewer and are never written by one, that the wrappers do to each method what
  the classification tables say, that blobs are reached through visible objects only, and
  that per-principal rows of one principal cannot be read, replaced or deleted by another.
\<close>

section \<open>Errors\<close>

datatype Sentinel = ErrRestrictedViewer | ErrNoViewer | ErrNoScopedReads | ErrRowNotFound | ErrBlobNotFound

record StorageErr =
  se_Text :: string
  se_Wraps :: "Sentinel list"

definition errors_Is :: "StorageErr \<Rightarrow> Sentinel \<Rightarrow> bool" where
  "errors_Is e t \<longleftrightarrow> t \<in> set (se_Wraps e)"

definition restrictedRead :: "string \<Rightarrow> string \<Rightarrow> StorageErr" where
  "restrictedRead store method = \<lparr>se_Text = store @ ''.'' @ method, se_Wraps = [ErrRestrictedViewer]\<rparr>"

definition restrictedWrite :: "string \<Rightarrow> string \<Rightarrow> StorageErr" where
  "restrictedWrite store method =
     \<lparr>se_Text = store @ ''.'' @ method @ '': owner-only write'', se_Wraps = [ErrRestrictedViewer]\<rparr>"

definition refuseRead :: "string \<Rightarrow> string \<Rightarrow> Sentinel option \<Rightarrow> StorageErr" where
  "refuseRead store method cause =
     \<lparr>se_Text = store @ ''.'' @ method,
      se_Wraps = (case cause of None \<Rightarrow> [] | Some c \<Rightarrow> [c]) @ [ErrRestrictedViewer]\<rparr>"

definition principalRead :: "string \<Rightarrow> string \<Rightarrow> Sentinel option \<Rightarrow> StorageErr" where
  "principalRead store method cause =
     (if cause \<noteq> None then refuseRead store method cause
      else \<lparr>se_Text = store @ ''.'' @ method @ '': no principal'', se_Wraps = [ErrRestrictedViewer]\<rparr>)"

definition hiddenBlob :: "string \<Rightarrow> StorageErr" where
  "hiddenBlob key = \<lparr>se_Text = ''blob '' @ key, se_Wraps = [ErrBlobNotFound, ErrRowNotFound]\<rparr>"

definition hiddenSearch :: "string \<Rightarrow> StorageErr" where
  "hiddenSearch name = \<lparr>se_Text = ''saved search '' @ name, se_Wraps = [ErrRowNotFound]\<rparr>"

section \<open>Rows and queries\<close>

record Entity =
  ent_Slug :: string
  ent_Title :: string
  ent_Description :: string
  ent_Namespace :: string
  ent_Aliases :: "string list"
  ent_Metadata :: metadata
  ent_ContentStatus :: string
  ent_VersionHash :: string
  ent_RegistryURL :: string
  ent_CreatedAt :: time
  ent_UpdatedAt :: time

record EntityFilter =
  ef_Namespace :: string
  ef_ContentStatus :: string
  ef_Query :: string
  ef_Namespaces :: "string list"
  ef_Limit :: int
  ef_Offset :: int

definition EdgeEndpointEntity :: string where "EdgeEndpointEntity = ''entity''"

record Edge =
  edge_ID :: string
  edge_FromType :: string
  edge_FromID :: string
  edge_ToType :: string
  edge_ToID :: string
  edge_EdgeType :: string
  edge_Weight :: float64
  edge_Metadata :: metadata
  edge_CreatedAt :: time

record EdgeMatch =
  em_FromType :: string
  em_FromID :: string
  em_ToType :: string
  em_ToID :: string
  em_EdgeTypes :: "string list"

record ProximityFactors =
  pf_Semantic :: float64
  pf_Temporal :: float64
  pf_Entity :: float64
  pf_Origin :: float64
  pf_Behavioral :: float64

record ProximityScore =
  prox_ObjectA :: string
  prox_ObjectB :: string
  prox_Score :: float64
  prox_Factors :: ProximityFactors
  prox_Weights :: ProximityFactors
  prox_ComputedAt :: time

record ProximityStats =
  ps_TotalPairs :: int
  ps_AvgScore :: float64
  ps_MaxScore :: float64
  ps_HighProximity :: int
  ps_MediumProximity :: int
  ps_LowProximity :: int

record Alias =
  al_Alias :: string
  al_ObjectID :: string
  al_Scope :: string
  al_Profile :: string
  al_CreatedAt :: time
  al_UpdatedAt :: time

record AliasFilter =
  af_ObjectID :: string
  af_Scope :: string
  af_Profile :: string

record ObjectVector =
  ov_ModelID :: string
  ov_ChunkIdx :: int
  ov_Vector :: "float64 list"
  ov_Text :: string
  ov_Variant :: string

record EmbeddingModelSpec =
  ems_ModelID :: string
  ems_Provider :: string
  ems_Dimension :: int

record VectorQuery =
  vq_ModelID :: string
  vq_Vector :: "float64 list"
  vq_TopK :: int
  vq_Variant :: string

record EmbeddingHit =
  eh_ObjectID :: string
  eh_ChunkIdx :: int
  eh_Distance :: float64

record NodeHit =
  nh_ObjectID :: string
  nh_NodeRef :: string
  nh_NodeType :: string
  nh_Snippet :: string
  nh_Score :: float64

record NodeAwareFilter =
  naf_NodeTypes :: "string list"
  naf_EdgeTypes :: "string list"
  naf_ReturnNodeHits :: bool

record NodeAwareResult =
  nar_Object :: "KnowledgeObject option"
  nar_NodeHits :: "NodeHit list"
  nar_DocumentView :: "DocumentProjection option"

record BlobMeta =
  bm_ContentType :: string
  bm_Size :: int
  bm_ContentHash :: string
  bm_Filename :: string
  bm_Properties :: "(string \<times> string) list"

record BlobInfo =
  bi_Key :: string
  bi_Size :: int
  bi_UpdatedAt :: time

record SavedSearch =
  svs_ID :: string
  svs_Name :: string
  svs_Query :: string
  svs_ProfileID :: string
  svs_AlertOn :: string
  svs_Notify :: string
  svs_OwnerPrincipal :: string
  svs_CreatedAt :: time
  svs_UpdatedAt :: time

record SavedSearchFilter =
  ssf_ProfileID :: string
  ssf_OwnerPrincipal :: string
  ssf_Limit :: int
  ssf_Offset :: int

record SearchHistoryEntry =
  she_ID :: string
  she_Query :: string
  she_ProfileID :: string
  she_StrategiesUsed :: string
  she_ResultCount :: int
  she_OwnerPrincipal :: string
  she_SearchedAt :: time

record SearchHistoryFilter =
  shf_ProfileID :: string
  shf_OwnerPrincipal :: string
  shf_Limit :: int
  shf_Offset :: int

record ResurfacingEntry =
  re_ID :: string
  re_ObjectID :: string
  re_ProfileID :: string
  re_Score :: float64
  re_Reason :: string
  re_OwnerPrincipal :: string
  re_SurfacedAt :: "time option"
  re_DismissedAt :: "time option"
  re_CreatedAt :: time

record ResurfacingFilter =
  rf_ProfileID :: string
  rf_OwnerPrincipal :: string
  rf_UnseenOnly :: bool
  rf_MinScore :: float64
  rf_Limit :: int

section \<open>Stores\<close>

type_synonym ('a, 's) read_op = "'s \<Rightarrow> StorageErr + 'a"
type_synonym ('a, 's) write_op = "'s \<Rightarrow> (StorageErr + 'a) \<times> 's"

record 's ObjectStore =
  os_Create :: "KnowledgeObject option \<Rightarrow> (unit, 's) write_op"
  os_Get :: "string \<Rightarrow> (KnowledgeObject option, 's) read_op"
  os_GetByContentHash :: "string \<Rightarrow> string \<Rightarrow> (KnowledgeObject option, 's) read_op"
  os_GetBySourceKey :: "string \<Rightarrow> (KnowledgeObject option, 's) read_op"
  os_List :: "ObjectFilter \<Rightarrow> (KnowledgeObject option list \<times> int, 's) read_op"
  os_CountByType :: "((string \<times> int) list, 's) read_op"
  os_Update :: "KnowledgeObject option \<Rightarrow> (unit, 's) write_op"
  os_TransitionStatus :: "string \<Rightarrow> string \<Rightarrow> string \<Rightarrow> time \<Rightarrow> (unit, 's) write_op"
  os_Delete :: "string \<Rightarrow> (unit, 's) write_op"
  os_CountBlobRefs :: "string \<Rightarrow> (int, 's) read_op"
  os_ListBySQL :: "string \<Rightarrow> Value list \<Rightarrow> ObjectFilter \<Rightarrow> (KnowledgeObject option list \<times> int, 's) read_op"
  os_Reinforce :: "string \<Rightarrow> KnowledgeObject option \<Rightarrow> (string, 's) write_op"
  os_SetReminder :: "string \<Rightarrow> time \<Rightarrow> (unit, 's) write_op"
  os_ClearReminder :: "string \<Rightarrow> (unit, 's) write_op"
  os_ListDueReminders :: "time \<Rightarrow> (KnowledgeObject option list, 's) read_op"
  os_MarkReminded :: "string \<Rightarrow> time \<Rightarrow> (unit, 's) write_op"
  os_ListPendingReminders :: "(KnowledgeObject option list, 's) read_op"
  os_VectorSearch :: "VectorQuery \<Rightarrow> ObjectFilter \<Rightarrow> (KnowledgeObject option list, 's) read_op"
  os_FTSSearch :: "string \<Rightarrow> ObjectFilter \<Rightarrow> (KnowledgeObject option list, 's) read_op"
  os_FTSSearchNodeAware :: "string \<Rightarrow> ObjectFilter \<Rightarrow> NodeAwareFilter \<Rightarrow> (NodeAwareResult option list, 's) read_op"
  os_VectorSearchNodeAware :: "VectorQuery \<Rightarrow> ObjectFilter \<Rightarrow> NodeAwareFilter \<Rightarrow> (NodeAwareResult option list, 's) read_op"

record 's EntityStore =
  es_Upsert :: "Entity option \<Rightarrow> (unit, 's) write_op"
  es_UpsertThin :: "Entity option \<Rightarrow> (unit, 's) write_op"
  es_SetContentStatus :: "string \<Rightarrow> string \<Rightarrow> (unit, 's) write_op"
  es_Get :: "string \<Rightarrow> (Entity option, 's) read_op"
  es_List :: "EntityFilter \<Rightarrow> (Entity option list, 's) read_op"
  es_Namespaces :: "(string list, 's) read_op"
  es_Resolve :: "string \<Rightarrow> (Entity option, 's) read_op"

record 's EdgeStore =
  eds_Create :: "Edge option \<Rightarrow> (unit, 's) write_op"
  eds_ListFrom :: "string \<Rightarrow> string \<Rightarrow> (Edge option list, 's) read_op"
  eds_ListTo :: "string \<Rightarrow> string \<Rightarrow> (Edge option list, 's) read_op"
  eds_Delete :: "string \<Rightarrow> (unit, 's) write_op"
  eds_DeleteByObject :: "string \<Rightarrow> (unit, 's) write_op"
  eds_CountMentionsTo :: "string \<Rightarrow> string \<Rightarrow> (int, 's) read_op"
  eds_RelatedObjectIDs :: "string \<Rightarrow> int \<Rightarrow> int \<Rightarrow> (string list, 's) read_op"
  eds_CreateAll :: "Edge option list \<Rightarrow> (unit, 's) write_op"
  eds_CreateMissing :: "Edge option list \<Rightarrow> (int, 's) write_op"
  eds_DeleteMatching :: "EdgeMatch list \<Rightarrow> (int, 's) write_op"

record 's EmbeddingStore =
  ems_EnsureIndex :: "EmbeddingModelSpec \<Rightarrow> (unit, 's) write_op"
  ems_Put :: "string \<Rightarrow> ObjectVector list \<Rightarrow> (unit, 's) write_op"
  ems_Get :: "string \<Rightarrow> string \<Rightarrow> (ObjectVector list, 's) read_op"
  ems_Search :: "VectorQuery \<Rightarrow> (EmbeddingHit list, 's) read_op"
  ems_ListMissing :: "string \<Rightarrow> string \<Rightarrow> int \<Rightarrow> (string list, 's) read_op"
  ems_PurgeModel :: "string \<Rightarrow> (unit, 's) write_op"

record 's ProximityStore =
  pxs_GetNeighbors :: "string \<Rightarrow> int \<Rightarrow> (ProximityScore option list, 's) read_op"
  pxs_GetNeighborsAbove :: "string \<Rightarrow> float64 \<Rightarrow> (ProximityScore option list, 's) read_op"
  pxs_Get :: "string \<Rightarrow> string \<Rightarrow> (ProximityScore option, 's) read_op"
  pxs_Put :: "ProximityScore option \<Rightarrow> (unit, 's) write_op"
  pxs_PutBatch :: "ProximityScore option list \<Rightarrow> (unit, 's) write_op"
  pxs_Delete :: "string \<Rightarrow> (unit, 's) write_op"
  pxs_FindStale :: "time \<Rightarrow> int \<Rightarrow> (string list, 's) read_op"
  pxs_Stats :: "(ProximityStats option, 's) read_op"

record 's AliasStore =
  als_Create :: "Alias option \<Rightarrow> (unit, 's) write_op"
  als_Resolve :: "string \<Rightarrow> string \<Rightarrow> (string, 's) read_op"
  als_List :: "AliasFilter \<Rightarrow> (Alias option list, 's) read_op"
  als_Delete :: "string \<Rightarrow> string \<Rightarrow> string \<Rightarrow> (unit, 's) write_op"

record 's BlobStore =
  bls_Put :: "string \<Rightarrow> string \<Rightarrow> BlobMeta \<Rightarrow> (unit, 's) write_op"
  bls_Get :: "string \<Rightarrow> (string \<times> BlobMeta, 's) read_op"
  bls_Delete :: "string \<Rightarrow> (unit, 's) write_op"
  bls_Exists :: "string \<Rightarrow> (bool, 's) read_op"
  bls_List :: "string \<Rightarrow> (BlobInfo list, 's) read_op"
  bls_URL :: "string \<Rightarrow> (string, 's) read_op"

record 's SavedSearchStore =
  sss_Create :: "SavedSearch \<Rightarrow> (unit, 's) write_op"
  sss_GetByName :: "string \<Rightarrow> (SavedSearch option, 's) read_op"
  sss_List :: "SavedSearchFilter \<Rightarrow> (SavedSearch option list, 's) read_op"
  sss_Update :: "SavedSearch \<Rightarrow> (unit, 's) write_op"
  sss_Delete :: "string \<Rightarrow> (unit, 's) write_op"

record 's SearchHistoryStore =
  shs_Append :: "SearchHistoryEntry \<Rightarrow> (unit, 's) write_op"
  shs_List :: "SearchHistoryFilter \<Rightarrow> (SearchHistoryEntry option list, 's) read_op"
  shs_ClearByProfile :: "string \<Rightarrow> (unit, 's) write_op"

record 's ResurfacingQueueStore =
  rqs_Upsert :: "ResurfacingEntry \<Rightarrow> (unit, 's) write_op"
  rqs_List :: "ResurfacingFilter \<Rightarrow> (ResurfacingEntry option list, 's) read_op"
  rqs_MarkSurfaced :: "string \<Rightarrow> time \<Rightarrow> (unit, 's) write_op"
  rqs_Dismiss :: "string \<Rightarrow> time \<Rightarrow> (unit, 's) write_op"
  rqs_DeleteByProfile :: "string \<Rightarrow> (unit, 's) write_op"
  rqs_DeleteByObject :: "string \<Rightarrow> (unit, 's) write_op"

text \<open>A store called by method name, with its arguments and its result as plain values.\<close>

type_synonym 's plain_store = "string \<Rightarrow> gval list \<Rightarrow> (gval list, 's) write_op"

record 's StorageDriver =
  dr_dialect :: "string option"
  dr_Objects :: "'s ObjectStore"
  dr_scopeObjects :: "(Scope \<Rightarrow> 's ObjectStore) option"
  dr_Entities :: "'s EntityStore"
  dr_scopeEntities :: "(Scope \<Rightarrow> 's EntityStore) option"
  dr_Edges :: "'s EdgeStore"
  dr_scopeEdges :: "(Scope \<Rightarrow> 's EdgeStore) option"
  dr_Embeddings :: "'s EmbeddingStore"
  dr_scopeEmbeddings :: "(Scope \<Rightarrow> 's EmbeddingStore) option"
  dr_Proximity :: "'s ProximityStore"
  dr_scopeProximity :: "(Scope \<Rightarrow> 's ProximityStore) option"
  dr_Aliases :: "'s AliasStore"
  dr_scopeAliases :: "(Scope \<Rightarrow> 's AliasStore) option"
  dr_Blobs :: "'s BlobStore"
  dr_SavedSearches :: "'s SavedSearchStore"
  dr_SearchHistory :: "'s SearchHistoryStore"
  dr_Resurfacing :: "'s ResurfacingQueueStore"
  dr_Plain :: "string \<Rightarrow> 's plain_store"

section \<open>Wrappers whose reads answer through the scope\<close>

text \<open>\<open>scopedObjects\<close> and its five siblings: the store bound to the scope.\<close>

definition bind_scope :: "(Scope \<Rightarrow> 'st) option \<Rightarrow> Scope option \<Rightarrow> 'st option" where
  "bind_scope scoper sc =
     (case scoper of None \<Rightarrow> None | Some f \<Rightarrow> (case sc of None \<Rightarrow> None | Some s \<Rightarrow> Some (f s)))"

definition scoped_read ::
  "string \<Rightarrow> string \<Rightarrow> Sentinel option \<Rightarrow> 'st option \<Rightarrow> ('st \<Rightarrow> ('a, 's) read_op) \<Rightarrow> ('a, 's) read_op" where
  "scoped_read store method refuse scoped op s =
     (case scoped of None \<Rightarrow> Inl (refuseRead store method refuse) | Some st \<Rightarrow> op st s)"

definition restrictedObjects :: "'s ObjectStore \<Rightarrow> 's ObjectStore option \<Rightarrow> Sentinel option \<Rightarrow> 's ObjectStore" where
  "restrictedObjects inner scoped refuse =
     \<lparr>os_Create = os_Create inner,
      os_Get = (\<lambda>i. scoped_read ''Objects'' ''Get'' refuse scoped (\<lambda>st. os_Get st i)),
      os_GetByContentHash = (\<lambda>h p. scoped_read ''Objects'' ''GetByContentHash'' refuse scoped (\<lambda>st. os_GetByContentHash st h p)),
      os_GetBySourceKey = (\<lambda>k. scoped_read ''Objects'' ''GetBySourceKey'' refuse scoped (\<lambda>st. os_GetBySourceKey st k)),
      os_List = (\<lambda>f. scoped_read ''Objects'' ''List'' refuse scoped (\<lambda>st. os_List st f)),
      os_CountByType = scoped_read ''Objects'' ''CountByType'' refuse scoped os_CountByType,
      os_Update = os_Update inner,
      os_TransitionStatus = os_TransitionStatus inner,
      os_Delete = os_Delete inner,
      os_CountBlobRefs = (\<lambda>_ _. Inl (restrictedRead ''Objects'' ''CountBlobRefs'')),
      os_ListBySQL = (\<lambda>w a f. scoped_read ''Objects'' ''ListBySQL'' refuse scoped (\<lambda>st. os_ListBySQL st w a f)),
      os_Reinforce = os_Reinforce inner,
      os_SetReminder = os_SetReminder inner,
      os_ClearReminder = os_ClearReminder inner,
      os_ListDueReminders = (\<lambda>_ _. Inl (restrictedRead ''Objects'' ''ListDueReminders'')),
      os_MarkReminded = os_MarkReminded inner,
      os_ListPendingReminders = (\<lambda>_. Inl (restrictedRead ''Objects'' ''ListPendingReminders'')),
      os_VectorSearch = (\<lambda>q f. scoped_read ''Objects'' ''VectorSearch'' refuse scoped (\<lambda>st. os_VectorSearch st q f)),
      os_FTSSearch = (\<lambda>q f. scoped_read ''Objects'' ''FTSSearch'' refuse scoped (\<lambda>st. os_FTSSearch st q f)),
      os_FTSSearchNodeAware = (\<lambda>q f n. scoped_read ''Objects'' ''FTSSearchNodeAware'' refuse scoped
         (\<lambda>st. os_FTSSearchNodeAware st q f n)),
      os_VectorSearchNodeAware = (\<lambda>q f n. scoped_read ''Objects'' ''VectorSearchNodeAware'' refuse scoped
         (\<lambda>st. os_VectorSearchNodeAware st q f n))\<rparr>"

definition restrictedEntities :: "'s EntityStore \<Rightarrow> 's EntityStore option \<Rightarrow> Sentinel option \<Rightarrow> 's EntityStore" where
  "restrictedEntities inner scoped refuse =
     \<lparr>es_Upsert = es_Upsert inner,
      es_UpsertThin = es_UpsertThin inner,
      es_SetContentStatus = es_SetContentStatus inner,
      es_Get = (\<lambda>slug. scoped_read ''Entities'' ''Get'' refuse scoped (\<lambda>st. es_Get st slug)),
      es_List = (\<lambda>f. scoped_read ''Entities'' ''List'' refuse scoped (\<lambda>st. es_List st f)),
      es_Namespaces = scoped_read ''Entities'' ''Namespaces'' refuse scoped es_Namespaces,
      es_Resolve = (\<lambda>m. scoped_read ''Entities'' ''Resolve'' refuse scoped (\<lambda>st. es_Resolve st m))\<rparr>"

definition restrictedEdges :: "'s EdgeStore \<Rightarrow> 's EdgeStore option \<Rightarrow> Sentinel option \<Rightarrow> 's EdgeStore" where
  "restrictedEdges inner scoped refuse =
     \<lparr>eds_Create = eds_Create inner,
      eds_ListFrom = (\<lambda>t i. scoped_read ''Edges'' ''ListFrom'' refuse scoped (\<lambda>st. eds_ListFrom st t i)),
      eds_ListTo = (\<lambda>t i. scoped_read ''Edges'' ''ListTo'' refuse scoped (\<lambda>st. eds_ListTo st t i)),
      eds_Delete = eds_Delete inner,
      eds_DeleteByObject = eds_DeleteByObject inner,
      eds_CountMentionsTo = (\<lambda>t i. scoped_read ''Edges'' ''CountMentionsTo'' refuse scoped (\<lambda>st. eds_CountMentionsTo st t i)),
      eds_RelatedObjectIDs = (\<lambda>i d n. scoped_read ''Edges'' ''RelatedObjectIDs'' refuse scoped
         (\<lambda>st. eds_RelatedObjectIDs st i d n)),
      eds_CreateAll = eds_CreateAll inner,
      eds_CreateMissing = eds_CreateMissing inner,
      eds_DeleteMatching = eds_DeleteMatching inner\<rparr>"

definition restrictedEmbeddings ::
  "'s EmbeddingStore \<Rightarrow> 's EmbeddingStore option \<Rightarrow> Sentinel option \<Rightarrow> 's EmbeddingStore" where
  "restrictedEmbeddings inner scoped refuse =
     \<lparr>ems_EnsureIndex = ems_EnsureIndex inner,
      ems_Put = ems_Put inner,
      ems_Get = (\<lambda>_ _ _. Inl (restrictedRead ''Embeddings'' ''Get'')),
      ems_Search = (\<lambda>q. scoped_read ''Embeddings'' ''Search'' refuse scoped (\<lambda>st. ems_Search st q)),
      ems_ListMissing = (\<lambda>_ _ _ _. Inl (restrictedRead ''Embeddings'' ''ListMissing'')),
      ems_PurgeModel = ems_PurgeModel inner\<rparr>"

definition restrictedProximity ::
  "'s ProximityStore \<Rightarrow> 's ProximityStore option \<Rightarrow> Sentinel option \<Rightarrow> 's ProximityStore" where
  "restrictedProximity inner scoped refuse =
     \<lparr>pxs_GetNeighbors = (\<lambda>i n. scoped_read ''Proximity'' ''GetNeighbors'' refuse scoped (\<lambda>st. pxs_GetNeighbors st i n)),
      pxs_GetNeighborsAbove = (\<lambda>i t. scoped_read ''Proximity'' ''GetNeighborsAbove'' refuse scoped
         (\<lambda>st. pxs_GetNeighborsAbove st i t)),
      pxs_Get = (\<lambda>a b. scoped_read ''Proximity'' ''Get'' refuse scoped (\<lambda>st. pxs_Get st a b)),
      pxs_Put = pxs_Put inner,
      pxs_PutBatch = pxs_PutBatch inner,
      pxs_Delete = pxs_Delete inner,
      pxs_FindStale = (\<lambda>_ _ _. Inl (restrictedRead ''Proximity'' ''FindStale'')),
      pxs_Stats = (\<lambda>_. Inl (restrictedRead ''Proximity'' ''Stats''))\<rparr>"

definition restrictedAliases :: "'s AliasStore \<Rightarrow> 's AliasStore option \<Rightarrow> Sentinel option \<Rightarrow> 's AliasStore" where
  "restrictedAliases inner scoped refuse =
     \<lparr>als_Create = als_Create inner,
      als_Resolve = (\<lambda>a p. scoped_read ''Aliases'' ''Resolve'' refuse scoped (\<lambda>st. als_Resolve st a p)),
      als_List = (\<lambda>f. scoped_read ''Aliases'' ''List'' refuse scoped (\<lambda>st. als_List st f)),
      als_Delete = als_Delete inner\<rparr>"

section \<open>Blobs\<close>

definition blob_visible :: "'s ObjectStore \<Rightarrow> string \<Rightarrow> (bool, 's) read_op" where
  "blob_visible refs key s =
     (case os_CountBlobRefs refs key s of Inl e \<Rightarrow> Inl e | Inr n \<Rightarrow> Inr (n > 0))"

text \<open>The loop of \<open>List\<close>: the visible entries, or the first error.\<close>

fun visible_blobs :: "'s ObjectStore \<Rightarrow> 's \<Rightarrow> BlobInfo list \<Rightarrow> StorageErr + BlobInfo list" where
  "visible_blobs refs s [] = Inr []"
| "visible_blobs refs s (b # bs) =
     (case blob_visible refs (bi_Key b) s of
        Inl e \<Rightarrow> Inl e
      | Inr ok \<Rightarrow>
          (case visible_blobs refs s bs of
             Inl e \<Rightarrow> Inl e
           | Inr out \<Rightarrow> Inr (if ok then b # out else out)))"

definition restrictedBlobs :: "'s BlobStore \<Rightarrow> 's ObjectStore option \<Rightarrow> Sentinel option \<Rightarrow> 's BlobStore" where
  "restrictedBlobs inner refs refuse =
     \<lparr>bls_Put = bls_Put inner,
      bls_Get = (\<lambda>key s.
        case refs of None \<Rightarrow> Inl (refuseRead ''Blobs'' ''Get'' refuse)
        | Some r \<Rightarrow>
            (case blob_visible r key s of
               Inl e \<Rightarrow> Inl e
             | Inr ok \<Rightarrow> if \<not> ok then Inl (hiddenBlob key) else bls_Get inner key s)),
      bls_Delete = bls_Delete inner,
      bls_Exists = (\<lambda>key s.
        case refs of None \<Rightarrow> Inl (refuseRead ''Blobs'' ''Exists'' refuse)
        | Some r \<Rightarrow>
            (case blob_visible r key s of
               Inl e \<Rightarrow> Inl e
             | Inr ok \<Rightarrow> if \<not> ok then Inr False else bls_Exists inner key s)),
      bls_List = (\<lambda>prefix s.
        case refs of None \<Rightarrow> Inl (refuseRead ''Blobs'' ''List'' refuse)
        | Some r \<Rightarrow> (case bls_List inner prefix s of Inl e \<Rightarrow> Inl e | Inr bs \<Rightarrow> visible_blobs r s bs)),
      bls_URL = (\<lambda>key s.
        case refs of None \<Rightarrow> Inl (refuseRead ''Blobs'' ''URL'' refuse)
        | Some r \<Rightarrow>
            (case blob_visible r key s of
               Inl e \<Rightarrow> Inl e
             | Inr ok \<Rightarrow> if \<not> ok then Inl (hiddenBlob key) else bls_URL inner key s))\<rparr>"

section \<open>Per-principal state\<close>

definition own_search :: "'s SavedSearchStore \<Rightarrow> string \<Rightarrow> string \<Rightarrow> (SavedSearch option, 's) read_op" where
  "own_search inner prin name s =
     (case sss_GetByName inner name s of
        Inl e \<Rightarrow> Inl e
      | Inr None \<Rightarrow> Inr None
      | Inr (Some r) \<Rightarrow>
          if PrincipalOrOwner (svs_OwnerPrincipal r) \<noteq> prin then Inr None else Inr (Some r))"

definition restrictedSavedSearches ::
  "'s SavedSearchStore \<Rightarrow> string \<Rightarrow> Sentinel option \<Rightarrow> 's SavedSearchStore" where
  "restrictedSavedSearches inner prin refuse =
     \<lparr>sss_Create = (\<lambda>r s.
        if prin = [] then (Inl (principalRead ''SavedSearches'' ''Create'' refuse), s)
        else sss_Create inner (r\<lparr>svs_OwnerPrincipal := prin\<rparr>) s),
      sss_GetByName = (\<lambda>name s.
        if prin = [] then Inl (principalRead ''SavedSearches'' ''GetByName'' refuse)
        else own_search inner prin name s),
      sss_List = (\<lambda>f s.
        if prin = [] then Inl (principalRead ''SavedSearches'' ''List'' refuse)
        else sss_List inner (f\<lparr>ssf_OwnerPrincipal := prin\<rparr>) s),
      sss_Update = (\<lambda>r s.
        if prin = [] then (Inl (principalRead ''SavedSearches'' ''Update'' refuse), s)
        else case own_search inner prin (svs_Name r) s of
               Inl e \<Rightarrow> (Inl e, s)
             | Inr None \<Rightarrow> (Inl (hiddenSearch (svs_Name r)), s)
             | Inr (Some _) \<Rightarrow> sss_Update inner (r\<lparr>svs_OwnerPrincipal := prin\<rparr>) s),
      sss_Delete = (\<lambda>name s.
        if prin = [] then (Inl (principalRead ''SavedSearches'' ''Delete'' refuse), s)
        else case own_search inner prin name s of
               Inl e \<Rightarrow> (Inl e, s)
             | Inr None \<Rightarrow> (Inl (hiddenSearch name), s)
             | Inr (Some _) \<Rightarrow> sss_Delete inner name s)\<rparr>"

definition restrictedSearchHistory ::
  "'s SearchHistoryStore \<Rightarrow> string \<Rightarrow> Sentinel option \<Rightarrow> 's SearchHistoryStore" where
  "restrictedSearchHistory inner prin refuse =
     \<lparr>shs_Append = (\<lambda>e s.
        if prin = [] then (Inl (principalRead ''SearchHistory'' ''Append'' refuse), s)
        else shs_Append inner (e\<lparr>she_OwnerPrincipal := prin\<rparr>) s),
      shs_List = (\<lambda>f s.
        if prin = [] then Inl (principalRead ''SearchHistory'' ''List'' refuse)
        else shs_List inner (f\<lparr>shf_OwnerPrincipal := prin\<rparr>) s),
      shs_ClearByProfile = (\<lambda>_ s. (Inl (restrictedRead ''SearchHistory'' ''ClearByProfile''), s))\<rparr>"

definition restrictedResurfacing ::
  "'s ResurfacingQueueStore \<Rightarrow> string \<Rightarrow> Sentinel option \<Rightarrow> 's ResurfacingQueueStore" where
  "restrictedResurfacing inner prin refuse =
     \<lparr>rqs_Upsert = (\<lambda>e s.
        if prin = [] then (Inl (principalRead ''Resurfacing'' ''Upsert'' refuse), s)
        else rqs_Upsert inner (e\<lparr>re_OwnerPrincipal := prin\<rparr>) s),
      rqs_List = (\<lambda>f s.
        if prin = [] then Inl (principalRead ''Resurfacing'' ''List'' refuse)
        else rqs_List inner (f\<lparr>rf_OwnerPrincipal := prin\<rparr>) s),
      rqs_MarkSurfaced = rqs_MarkSurfaced inner,
      rqs_Dismiss = rqs_Dismiss inner,
      rqs_DeleteByProfile = rqs_DeleteByProfile inner,
      rqs_DeleteByObject = rqs_DeleteByObject inner\<rparr>"

section \<open>Stores that refuse or forward\<close>

text \<open>
  A wrapper of this group is the list of the methods it refuses as reads, of those it
  refuses as writes and of those it forwards to the driver's store; these are all the
  methods of its interface.
\<close>

record wrapper =
  wr_reads :: "string list"
  wr_writes :: "string list"
  wr_forwards :: "string list"

definition restrictedAuditLog :: wrapper where
  "restrictedAuditLog = \<lparr>wr_reads = [''List'', ''GetObjectHistory''], wr_writes = [], wr_forwards = [''Append'']\<rparr>"

definition restrictedReminders :: wrapper where
  "restrictedReminders = \<lparr>wr_reads = [''Get'', ''List''], wr_writes = [], wr_forwards = [''Create'', ''Dismiss'']\<rparr>"

definition restrictedWatermarks :: wrapper where
  "restrictedWatermarks = \<lparr>wr_reads = [''GetWatermark''], wr_writes = [], wr_forwards = [''SetWatermark'']\<rparr>"

definition restrictedUISessions :: wrapper where
  "restrictedUISessions = \<lparr>wr_reads = [''Lookup'', ''Get'', ''List''], wr_writes = [],
     wr_forwards = [''CreateLoginCode'', ''ConsumeLoginCode'', ''Create'', ''Touch'', ''Revoke'', ''Prune'']\<rparr>"

definition restrictedPendingEntities :: wrapper where
  "restrictedPendingEntities = \<lparr>wr_reads = [''List'', ''Get''], wr_writes = [],
     wr_forwards = [''Upsert'', ''Delete'', ''DeleteEntity'']\<rparr>"

definition restrictedAttachments :: wrapper where
  "restrictedAttachments = \<lparr>wr_reads = [''GetAttachment'', ''ListAttachments''], wr_writes = [],
     wr_forwards = [''SaveAttachment'', ''DeleteAttachment'']\<rparr>"

definition restrictedJobs :: wrapper where
  "restrictedJobs = \<lparr>wr_reads = [''Get'', ''GetByIdempotencyKey'', ''List''],
     wr_writes = [''Create'', ''AcquireNext'', ''Complete'', ''Fail'', ''Retry'', ''Cancel'', ''RecoverStale'',
       ''ExtendLease'', ''ReleaseLease''], wr_forwards = []\<rparr>"

definition restrictedPipelines :: wrapper where
  "restrictedPipelines = \<lparr>wr_reads = [''Get'', ''List''],
     wr_writes = [''Create'', ''Update'', ''Delete'', ''Archive'', ''Unarchive''], wr_forwards = []\<rparr>"

definition restrictedSteps :: wrapper where
  "restrictedSteps = \<lparr>wr_reads = [''Get'', ''List''], wr_writes = [''Create'', ''Unregister'', ''Update''], wr_forwards = []\<rparr>"

definition restrictedRegistries :: wrapper where
  "restrictedRegistries = \<lparr>wr_reads = [''GetCachedManifest'', ''List''],
     wr_writes = [''CacheManifest'', ''UpdateETag'', ''Delete''], wr_forwards = []\<rparr>"

definition restrictedEntitlements :: wrapper where
  "restrictedEntitlements = \<lparr>wr_reads = [''Get'', ''List''], wr_writes = [''Upsert'', ''Delete''], wr_forwards = []\<rparr>"

definition restrictedMetering :: wrapper where
  "restrictedMetering = \<lparr>wr_reads = [''Aggregate'', ''List''], wr_writes = [''Record'', ''RecordCapped''], wr_forwards = []\<rparr>"

definition restrictedFeeds :: wrapper where
  "restrictedFeeds = \<lparr>wr_reads = [''Get'', ''GetByURL'', ''List''], wr_writes = [''Create'', ''Update'', ''Delete''],
     wr_forwards = []\<rparr>"

definition restrictedFeedItems :: wrapper where
  "restrictedFeedItems = \<lparr>wr_reads = [''ExistsByGUID''], wr_writes = [''Create''], wr_forwards = []\<rparr>"

definition restrictedBatches :: wrapper where
  "restrictedBatches = \<lparr>wr_reads = [''Get''], wr_writes = [''Create'', ''Update''], wr_forwards = []\<rparr>"

definition restrictedDetectors :: wrapper where
  "restrictedDetectors = \<lparr>wr_reads = [''Get'', ''List''],
     wr_writes = [''Create'', ''Update'', ''Delete'', ''Enable'', ''Disable''], wr_forwards = []\<rparr>"

definition restrictedWatches :: wrapper where
  "restrictedWatches = \<lparr>wr_reads = [''GetWatch'', ''ListWatches'', ''GetFileRecord'', ''ListFileRecords''],
     wr_writes = [''CreateWatch'', ''UpdateWatch'', ''DeleteWatch'', ''UpsertFileRecord'', ''DeleteFileRecord''],
     wr_forwards = []\<rparr>"

text \<open>The wrapper the scoped driver puts around the store of an accessor.\<close>

definition plain_wrappers :: "(string \<times> wrapper) list" where
  "plain_wrappers =
     [(''Jobs'', restrictedJobs), (''Pipelines'', restrictedPipelines), (''Steps'', restrictedSteps),
      (''Registries'', restrictedRegistries), (''Reminders'', restrictedReminders), (''Feeds'', restrictedFeeds),
      (''FeedItems'', restrictedFeedItems), (''Batches'', restrictedBatches), (''Detectors'', restrictedDetectors),
      (''Watches'', restrictedWatches), (''AuditLog'', restrictedAuditLog), (''Attachments'', restrictedAttachments),
      (''Entitlements'', restrictedEntitlements), (''PendingEntities'', restrictedPendingEntities),
      (''Metering'', restrictedMetering), (''Watermarks'', restrictedWatermarks), (''UISessions'', restrictedUISessions)]"

definition wrap_plain :: "string \<Rightarrow> 's plain_store \<Rightarrow> 's plain_store" where
  "wrap_plain accessor inner method args s =
     (case map_of plain_wrappers accessor of
        None \<Rightarrow> inner method args s
      | Some w \<Rightarrow>
          if method \<in> set (wr_reads w) then (Inl (restrictedRead accessor method), s)
          else if method \<in> set (wr_writes w) then (Inl (restrictedWrite accessor method), s)
          else inner method args s)"

section \<open>The scoped driver\<close>

definition SQLDialectSQLite :: string where "SQLDialectSQLite = ''sqlite''"

definition driverDialect :: "'s StorageDriver \<Rightarrow> string" where
  "driverDialect d =
     (if dr_dialect d = Some SQLDialectPostgres then SQLDialectPostgres else SQLDialectSQLite)"

definition principalOf :: "Scope option \<Rightarrow> string" where
  "principalOf sc = (case sc of None \<Rightarrow> [] | Some s \<Rightarrow> sc_Principal s)"

definition refusal :: "Scope option \<Rightarrow> bool \<Rightarrow> Sentinel option" where
  "refusal sc bound = (if sc = None then Some ErrNoViewer else if \<not> bound then Some ErrNoScopedReads else None)"

text \<open>
  \<open>scopedDriver\<close> with its accessors. It does not promote \<open>SQLDialect\<close> and its stores implement
  no scoper interface.
\<close>

definition scopedDriver :: "'s StorageDriver \<Rightarrow> Scope option \<Rightarrow> 's StorageDriver" where
  "scopedDriver d sc =
     (let bo = bind_scope (dr_scopeObjects d) sc;
          be = bind_scope (dr_scopeEntities d) sc;
          bg = bind_scope (dr_scopeEdges d) sc;
          bv = bind_scope (dr_scopeEmbeddings d) sc;
          bp = bind_scope (dr_scopeProximity d) sc;
          ba = bind_scope (dr_scopeAliases d) sc
      in \<lparr>dr_dialect = None,
          dr_Objects = restrictedObjects (dr_Objects d) bo (refusal sc (bo \<noteq> None)),
          dr_scopeObjects = None,
          dr_Entities = restrictedEntities (dr_Entities d) be (refusal sc (be \<noteq> None)),
          dr_scopeEntities = None,
          dr_Edges = restrictedEdges (dr_Edges d) bg (refusal sc (bg \<noteq> None)),
          dr_scopeEdges = None,
          dr_Embeddings = restrictedEmbeddings (dr_Embeddings d) bv (refusal sc (bv \<noteq> None)),
          dr_scopeEmbeddings = None,
          dr_Proximity = restrictedProximity (dr_Proximity d) bp (refusal sc (bp \<noteq> None)),
          dr_scopeProximity = None,
          dr_Aliases = restrictedAliases (dr_Aliases d) ba (refusal sc (ba \<noteq> None)),
          dr_scopeAliases = None,
          dr_Blobs = restrictedBlobs (dr_Blobs d) bo (refusal sc (bo \<noteq> None)),
          dr_SavedSearches = restrictedSavedSearches (dr_SavedSearches d) (principalOf sc) (refusal sc True),
          dr_SearchHistory = restrictedSearchHistory (dr_SearchHistory d) (principalOf sc) (refusal sc True),
          dr_Resurfacing = restrictedResurfacing (dr_Resurfacing d) (principalOf sc) (refusal sc True),
          dr_Plain = (\<lambda>accessor. wrap_plain accessor (dr_Plain d accessor))\<rparr>)"

definition ScopedDriver :: "Viewer option \<Rightarrow> 's StorageDriver option \<Rightarrow> 's StorageDriver option" where
  "ScopedDriver v od =
     (case od of
        None \<Rightarrow> None
      | Some d \<Rightarrow>
          (if (case v of None \<Rightarrow> False | Some w \<Rightarrow> IsUnrestricted w) then Some d
           else Some (scopedDriver d (ViewerScope v (driverDialect d)))))"

section \<open>The classification tables\<close>

datatype accessorKind = accessorScoped | accessorPassthrough

definition scopedAccessors :: "(string \<times> accessorKind) list" where
  "scopedAccessors =
     [(''Init'', accessorPassthrough), (''Close'', accessorPassthrough), (''Health'', accessorPassthrough),
      (''Auth'', accessorPassthrough), (''Sharing'', accessorPassthrough),
      (''Objects'', accessorScoped), (''Entities'', accessorScoped), (''Edges'', accessorScoped),
      (''Jobs'', accessorScoped), (''Pipelines'', accessorScoped), (''Steps'', accessorScoped),
      (''Registries'', accessorScoped), (''Reminders'', accessorScoped), (''Feeds'', accessorScoped),
      (''FeedItems'', accessorScoped), (''Batches'', accessorScoped), (''Detectors'', accessorScoped),
      (''Blobs'', accessorScoped), (''Proximity'', accessorScoped), (''Watches'', accessorScoped),
      (''Aliases'', accessorScoped), (''AuditLog'', accessorScoped), (''Attachments'', accessorScoped),
      (''Resurfacing'', accessorScoped), (''Entitlements'', accessorScoped), (''PendingEntities'', accessorScoped),
      (''Metering'', accessorScoped), (''Embeddings'', accessorScoped), (''SavedSearches'', accessorScoped),
      (''SearchHistory'', accessorScoped), (''Watermarks'', accessorScoped), (''UISessions'', accessorScoped)]"

definition restrictedReads :: "(string \<times> string list) list" where
  "restrictedReads =
     [(''Attachments'', [''GetAttachment'', ''ListAttachments'']), (''AuditLog'', [''List'', ''GetObjectHistory'']),
      (''Batches'', [''Get'']), (''Detectors'', [''Get'', ''List'']), (''Embeddings'', [''Get'', ''ListMissing'']),
      (''Entitlements'', [''Get'', ''List'']), (''FeedItems'', [''ExistsByGUID'']),
      (''Feeds'', [''Get'', ''GetByURL'', ''List'']), (''Jobs'', [''Get'', ''GetByIdempotencyKey'', ''List'']),
      (''Metering'', [''Aggregate'', ''List'']),
      (''Objects'', [''CountBlobRefs'', ''ListDueReminders'', ''ListPendingReminders'']),
      (''PendingEntities'', [''List'', ''Get'']), (''Pipelines'', [''Get'', ''List'']),
      (''Proximity'', [''FindStale'', ''Stats'']), (''Registries'', [''GetCachedManifest'', ''List'']),
      (''Reminders'', [''Get'', ''List'']), (''SearchHistory'', [''ClearByProfile'']), (''Steps'', [''Get'', ''List'']),
      (''UISessions'', [''Lookup'', ''Get'', ''List'']),
      (''Watches'', [''GetWatch'', ''ListWatches'', ''GetFileRecord'', ''ListFileRecords'']),
      (''Watermarks'', [''GetWatermark''])]"

definition restrictedWrites :: "(string \<times> string list) list" where
  "restrictedWrites =
     [(''Batches'', [''Create'', ''Update'']),
      (''Detectors'', [''Create'', ''Update'', ''Delete'', ''Enable'', ''Disable'']),
      (''Entitlements'', [''Upsert'', ''Delete'']), (''FeedItems'', [''Create'']),
      (''Feeds'', [''Create'', ''Update'', ''Delete'']),
      (''Jobs'', [''Create'', ''AcquireNext'', ''Complete'', ''Fail'', ''Retry'', ''Cancel'', ''RecoverStale'',
         ''ExtendLease'', ''ReleaseLease'']),
      (''Metering'', [''Record'', ''RecordCapped'']),
      (''Pipelines'', [''Create'', ''Update'', ''Delete'', ''Archive'', ''Unarchive'']),
      (''Registries'', [''CacheManifest'', ''UpdateETag'', ''Delete'']),
      (''Steps'', [''Create'', ''Unregister'', ''Update'']),
      (''Watches'', [''CreateWatch'', ''UpdateWatch'', ''DeleteWatch'', ''UpsertFileRecord'', ''DeleteFileRecord''])]"

definition scopedReads :: "(string \<times> string list) list" where
  "scopedReads =
     [(''Aliases'', [''Resolve'', ''List'']), (''Blobs'', [''Get'', ''Exists'', ''List'', ''URL'']),
      (''Edges'', [''ListFrom'', ''ListTo'', ''CountMentionsTo'', ''RelatedObjectIDs'']), (''Embeddings'', [''Search'']),
      (''Entities'', [''Get'', ''List'', ''Namespaces'', ''Resolve'']),
      (''Objects'', [''Get'', ''GetByContentHash'', ''GetBySourceKey'', ''List'', ''CountByType'', ''ListBySQL'',
         ''VectorSearch'', ''FTSSearch'', ''FTSSearchNodeAware'', ''VectorSearchNodeAware'']),
      (''Proximity'', [''GetNeighbors'', ''GetNeighborsAbove'', ''Get''])]"

definition principalReads :: "(string \<times> string list) list" where
  "principalReads =
     [(''Resurfacing'', [''List'']), (''SavedSearches'', [''GetByName'', ''List'']), (''SearchHistory'', [''List''])]"

definition methods_of :: "(string \<times> string list) list \<Rightarrow> string \<Rightarrow> string list" where
  "methods_of table accessor = (case map_of table accessor of None \<Rightarrow> [] | Some ms \<Rightarrow> ms)"

section \<open>What a refusal looks like\<close>

definition no_viewer :: "StorageErr + 'a \<Rightarrow> bool" where
  "no_viewer r = (case r of Inl e \<Rightarrow> errors_Is e ErrNoViewer \<and> errors_Is e ErrRestrictedViewer | Inr _ \<Rightarrow> False)"

definition closed :: "StorageErr + 'a \<Rightarrow> bool" where
  "closed r = (case r of Inl e \<Rightarrow> errors_Is e ErrRestrictedViewer | Inr _ \<Rightarrow> False)"

section \<open>Lemmas\<close>

abbreviation restricted :: "Viewer option \<Rightarrow> bool" where
  "restricted v \<equiv> (case v of None \<Rightarrow> True | Some w \<Rightarrow> \<not> IsUnrestricted w)"

lemma ScopedDriver_restricted:
  "restricted v \<Longrightarrow> ScopedDriver v (Some d) = Some (scopedDriver d (ViewerScope v (driverDialect d)))"
  by (cases v) (simp_all add: ScopedDriver_def)

lemma ScopedDriver_nil: "ScopedDriver None (Some d) = Some (scopedDriver d None)"
  by (simp add: ScopedDriver_def ViewerScope_def)

lemma ViewerScope_Some:
  assumes "\<not> IsUnrestricted v"
  obtains sc where "ViewerScope (Some v) dialect = Some sc" and "sc_Principal sc = Viewer_PrincipalID v"
proof -
  obtain pred args where "ObjectPredicate v dialect = (pred, args)" by fastforce
  with assms that show ?thesis by (cases "pred = []") (simp_all add: ViewerScope_def)
qed

lemma wraps [simp]:
  "errors_Is (restrictedRead a m) t \<longleftrightarrow> t = ErrRestrictedViewer"
  "errors_Is (restrictedWrite a m) t \<longleftrightarrow> t = ErrRestrictedViewer"
  "errors_Is (refuseRead a m c) t \<longleftrightarrow> t = ErrRestrictedViewer \<or> c = Some t"
  "errors_Is (hiddenBlob k) t \<longleftrightarrow> t = ErrBlobNotFound \<or> t = ErrRowNotFound"
  "errors_Is (hiddenSearch k) t \<longleftrightarrow> t = ErrRowNotFound"
  by (auto simp: errors_Is_def restrictedRead_def restrictedWrite_def refuseRead_def hiddenBlob_def
      hiddenSearch_def split: option.split)

lemma principalRead_wraps [simp]:
  "errors_Is (principalRead a m c) t \<longleftrightarrow> t = ErrRestrictedViewer \<or> c = Some t"
  by (auto simp: principalRead_def) (simp_all add: errors_Is_def)

lemma scoped_read_None [simp]: "scoped_read a m c None f s = Inl (refuseRead a m c)"
  by (simp add: scoped_read_def)

lemma scoped_read_Some [simp]: "scoped_read a m c (Some st) f s = f st s"
  by (simp add: scoped_read_def)

lemma bind_scope_simps [simp]:
  "bind_scope sco None = None" "bind_scope None sc = None" "bind_scope (Some f) (Some s) = Some (f s)"
  by (simp_all add: bind_scope_def split: option.split)

lemma refusal_None [simp]: "refusal None b = Some ErrNoViewer"
  by (simp add: refusal_def)

lemmas wrapper_defs = restrictedObjects_def restrictedEntities_def restrictedEdges_def restrictedEmbeddings_def
  restrictedProximity_def restrictedAliases_def restrictedBlobs_def restrictedSavedSearches_def
  restrictedSearchHistory_def restrictedResurfacing_def

text \<open>The wrappers and the tables list the same methods.\<close>

lemma wrappers_match_tables:
  "list_all (\<lambda>(a, w). wr_reads w = methods_of restrictedReads a \<and> wr_writes w = methods_of restrictedWrites a \<and>
      list_all (\<lambda>m. m \<notin> set (wr_writes w)) (wr_reads w) \<and>
      list_all (\<lambda>m. m \<notin> set (wr_reads w) \<and> m \<notin> set (wr_writes w)) (wr_forwards w) \<and>
      (wr_writes w \<noteq> [] \<longrightarrow> wr_forwards w = [])) plain_wrappers"
  by code_simp

lemma owner_only_wrapped: "list_all (\<lambda>(a, ms). map_of plain_wrappers a \<noteq> None \<and> ms = methods_of restrictedWrites a) restrictedWrites"
  by code_simp

lemma reads_wrapped:
  "list_all (\<lambda>(a, ms). (map_of plain_wrappers a \<noteq> None \<or> a \<in> set [''Embeddings'', ''Objects'', ''Proximity'', ''SearchHistory'']) \<and>
     ms = methods_of restrictedReads a) restrictedReads"
  by code_simp

lemma accessors_wrapped:
  "list_all (\<lambda>(a, k). k = accessorScoped \<longrightarrow> map_of plain_wrappers a \<noteq> None \<or>
     map_of scopedReads a \<noteq> None \<or> map_of principalReads a \<noteq> None) scopedAccessors"
  by code_simp

lemma wrap_plain_tables:
  assumes "map_of plain_wrappers a \<noteq> None"
  shows "wrap_plain a inner m args s =
    (if m \<in> set (methods_of restrictedReads a) then (Inl (restrictedRead a m), s)
     else if m \<in> set (methods_of restrictedWrites a) then (Inl (restrictedWrite a m), s)
     else inner m args s)"
proof -
  obtain w where w: "map_of plain_wrappers a = Some w" using assms by blast
  then have "(a, w) \<in> set plain_wrappers" by (rule map_of_SomeD)
  then have "wr_reads w = methods_of restrictedReads a \<and> wr_writes w = methods_of restrictedWrites a"
    using wrappers_match_tables by (fastforce simp: list_all_iff)
  with w show ?thesis by (simp add: wrap_plain_def)
qed

lemma own_search_Some:
  "own_search st p n s = Inr (Some r) \<Longrightarrow>
     sss_GetByName st n s = Inr (Some r) \<and> PrincipalOrOwner (svs_OwnerPrincipal r) = p"
  by (auto simp: own_search_def split: sum.splits option.splits if_splits)

lemma visible_blobs_Inr:
  "visible_blobs r s bs = Inr out \<Longrightarrow>
     out = filter (\<lambda>b. \<exists>n. os_CountBlobRefs r (bi_Key b) s = Inr n \<and> n > 0) bs"
proof (induction bs arbitrary: out)
  case (Cons b bs)
  then show ?case by (cases "os_CountBlobRefs r (bi_Key b) s") (auto simp: blob_visible_def split: sum.splits)
qed simp

section \<open>A sample driver\<close>

text \<open>
  A driver over a list of objects: \<open>Get\<close> finds them by identifier, \<open>List\<close> lists them, the
  scoped store answers those with the principal's identifier as owner profile; every other
  store is empty and every write succeeds without effect.
\<close>

definition sample_objects :: "(KnowledgeObject \<Rightarrow> bool) \<Rightarrow> KnowledgeObject list ObjectStore" where
  "sample_objects vis =
     \<lparr>os_Create = (\<lambda>_ s. (Inr (), s)),
      os_Get = (\<lambda>i s. case find (\<lambda>x. ko_ID x = i \<and> vis x) s of
                  None \<Rightarrow> Inl \<lparr>se_Text = i, se_Wraps = [ErrRowNotFound]\<rparr> | Some x \<Rightarrow> Inr (Some x)),
      os_GetByContentHash = (\<lambda>_ _ _. Inr None), os_GetBySourceKey = (\<lambda>_ _. Inr None),
      os_List = (\<lambda>_ s. Inr (map Some (filter vis s), int (length (filter vis s)))),
      os_CountByType = (\<lambda>_. Inr []), os_Update = (\<lambda>_ s. (Inr (), s)),
      os_TransitionStatus = (\<lambda>_ _ _ _ s. (Inr (), s)), os_Delete = (\<lambda>i s. (Inr (), filter (\<lambda>x. ko_ID x \<noteq> i) s)),
      os_CountBlobRefs = (\<lambda>k s. Inr (int (length (filter (\<lambda>x. vis x \<and> ko_RawContent x = blobref_For k) s)))),
      os_ListBySQL = (\<lambda>_ _ _ _. Inr ([], 0)), os_Reinforce = (\<lambda>_ _ s. (Inr [], s)),
      os_SetReminder = (\<lambda>_ _ s. (Inr (), s)), os_ClearReminder = (\<lambda>_ s. (Inr (), s)),
      os_ListDueReminders = (\<lambda>_ _. Inr []), os_MarkReminded = (\<lambda>_ _ s. (Inr (), s)),
      os_ListPendingReminders = (\<lambda>_. Inr []), os_VectorSearch = (\<lambda>_ _ _. Inr []), os_FTSSearch = (\<lambda>_ _ _. Inr []),
      os_FTSSearchNodeAware = (\<lambda>_ _ _ _. Inr []), os_VectorSearchNodeAware = (\<lambda>_ _ _ _. Inr [])\<rparr>"

definition sample_searches :: "'s SavedSearchStore" where
  "sample_searches =
     \<lparr>sss_Create = (\<lambda>_ s. (Inr (), s)),
      sss_GetByName = (\<lambda>n s. Inr (Some \<lparr>svs_ID = ''s1'', svs_Name = n, svs_Query = ''type==note'', svs_ProfileID = [],
        svs_AlertOn = [], svs_Notify = [], svs_OwnerPrincipal = ''bob'', svs_CreatedAt = 1, svs_UpdatedAt = 1\<rparr>)),
      sss_List = (\<lambda>_ _. Inr []), sss_Update = (\<lambda>_ s. (Inr (), s)), sss_Delete = (\<lambda>_ s. (Inr (), s))\<rparr>"

definition sample_driver :: "KnowledgeObject list StorageDriver" where
  "sample_driver =
     \<lparr>dr_dialect = Some ''postgres'',
      dr_Objects = sample_objects (\<lambda>_. True),
      dr_scopeObjects = Some (\<lambda>sc. sample_objects (\<lambda>x. ko_ProfileID x = sc_Principal sc)),
      dr_Entities = \<lparr>es_Upsert = (\<lambda>_ s. (Inr (), s)), es_UpsertThin = (\<lambda>_ s. (Inr (), s)),
        es_SetContentStatus = (\<lambda>_ _ s. (Inr (), s)), es_Get = (\<lambda>_ _. Inr None), es_List = (\<lambda>_ _. Inr []),
        es_Namespaces = (\<lambda>_. Inr []), es_Resolve = (\<lambda>_ _. Inr None)\<rparr>,
      dr_scopeEntities = None,
      dr_Edges = \<lparr>eds_Create = (\<lambda>_ s. (Inr (), s)), eds_ListFrom = (\<lambda>_ _ _. Inr []), eds_ListTo = (\<lambda>_ _ _. Inr []),
        eds_Delete = (\<lambda>_ s. (Inr (), s)), eds_DeleteByObject = (\<lambda>_ s. (Inr (), s)),
        eds_CountMentionsTo = (\<lambda>_ _ _. Inr 0), eds_RelatedObjectIDs = (\<lambda>_ _ _ _. Inr []),
        eds_CreateAll = (\<lambda>_ s. (Inr (), s)), eds_CreateMissing = (\<lambda>_ s. (Inr 0, s)),
        eds_DeleteMatching = (\<lambda>_ s. (Inr 0, s))\<rparr>,
      dr_scopeEdges = None,
      dr_Embeddings = \<lparr>ems_EnsureIndex = (\<lambda>_ s. (Inr (), s)), ems_Put = (\<lambda>_ _ s. (Inr (), s)),
        ems_Get = (\<lambda>_ _ _. Inr []), ems_Search = (\<lambda>_ _. Inr []), ems_ListMissing = (\<lambda>_ _ _ _. Inr []),
        ems_PurgeModel = (\<lambda>_ s. (Inr (), s))\<rparr>,
      dr_scopeEmbeddings = None,
      dr_Proximity = \<lparr>pxs_GetNeighbors = (\<lambda>_ _ _. Inr []), pxs_GetNeighborsAbove = (\<lambda>_ _ _. Inr []),
        pxs_Get = (\<lambda>_ _ _. Inr None), pxs_Put = (\<lambda>_ s. (Inr (), s)), pxs_PutBatch = (\<lambda>_ s. (Inr (), s)),
        pxs_Delete = (\<lambda>_ s. (Inr (), s)), pxs_FindStale = (\<lambda>_ _ _. Inr []), pxs_Stats = (\<lambda>_. Inr None)\<rparr>,
      dr_scopeProximity = None,
      dr_Aliases = \<lparr>als_Create = (\<lambda>_ s. (Inr (), s)), als_Resolve = (\<lambda>_ _ _. Inr ''o1''), als_List = (\<lambda>_ _. Inr []),
        als_Delete = (\<lambda>_ _ _ s. (Inr (), s))\<rparr>,
      dr_scopeAliases = None,
      dr_Blobs = \<lparr>bls_Put = (\<lambda>_ _ _ s. (Inr (), s)),
        bls_Get = (\<lambda>k _. Inr (''data of '' @ k, \<lparr>bm_ContentType = ''text/plain'', bm_Size = 1, bm_ContentHash = [],
          bm_Filename = [], bm_Properties = []\<rparr>)),
        bls_Delete = (\<lambda>_ s. (Inr (), s)), bls_Exists = (\<lambda>_ _. Inr True), bls_List = (\<lambda>_ _. Inr []), bls_URL = (\<lambda>k _. Inr k)\<rparr>,
      dr_SavedSearches = sample_searches,
      dr_SearchHistory = \<lparr>shs_Append = (\<lambda>_ s. (Inr (), s)), shs_List = (\<lambda>_ _. Inr []),
        shs_ClearByProfile = (\<lambda>_ s. (Inr (), s))\<rparr>,
      dr_Resurfacing = \<lparr>rqs_Upsert = (\<lambda>_ s. (Inr (), s)), rqs_List = (\<lambda>_ _. Inr []),
        rqs_MarkSurfaced = (\<lambda>_ _ s. (Inr (), s)), rqs_Dismiss = (\<lambda>_ _ s. (Inr (), s)),
        rqs_DeleteByProfile = (\<lambda>_ s. (Inr (), s)), rqs_DeleteByObject = (\<lambda>_ s. (Inr (), s))\<rparr>,
      dr_Plain = (\<lambda>_ _ _ s. (Inr [], s))\<rparr>"

text \<open>A viewer of the principal \<open>ana\<close> with no grants.\<close>

definition ana_viewer :: Viewer where
  "ana_viewer = \<lparr>vr_unrestricted = False,
     vr_view = Some \<lparr>vw_principal = ''ana'', vw_identity = [], vw_key = [], vw_node = None, vw_sql = [],
       vw_unnumbered = [], vw_plan = zero_plan\<rparr>\<rparr>"

lemma ana_restricted: "\<not> IsUnrestricted ana_viewer" "Viewer_PrincipalID ana_viewer = ''ana''"
  by code_simp+

section \<open>Properties\<close>



text \<open>
  C35: the owner-only stores answer no restricted viewer and are never written by one. For a
  restricted or missing viewer, every method the tables list refuses with the restricted
  viewer error and leaves the database as it was; an owner-only store has no method outside
  the tables; a method of the other stores of this group that no table lists reaches the
  driver unchanged. An unrestricted viewer gets the driver itself.
\<close>

theorem owner_only_stores_closed:
  assumes "ScopedDriver v (Some d) = Some sd" and "restricted v"
  shows "(\<forall>(a, ms) \<in> set restrictedWrites. \<forall>m \<in> set ms.
        dr_Plain sd a m args s = (Inl (restrictedWrite a m), s) \<and> errors_Is (restrictedWrite a m) ErrRestrictedViewer) \<and>
    (\<forall>(a, ms) \<in> set restrictedReads. \<forall>m \<in> set ms. map_of plain_wrappers a \<noteq> None \<longrightarrow>
        dr_Plain sd a m args s = (Inl (restrictedRead a m), s) \<and> errors_Is (restrictedRead a m) ErrRestrictedViewer) \<and>
    (\<forall>(a, w) \<in> set plain_wrappers. \<forall>m \<in> set (wr_forwards w).
        a \<notin> fst ` set restrictedWrites \<and> dr_Plain sd a m args s = dr_Plain d a m args s) \<and>
    (\<forall>(a, k) \<in> set scopedAccessors. k = accessorScoped \<longrightarrow>
        map_of plain_wrappers a \<noteq> None \<or> map_of scopedReads a \<noteq> None \<or> map_of principalReads a \<noteq> None) \<and>
    ScopedDriver (Some Unrestricted) (Some d) = Some d"
proof -
  have sd: "dr_Plain sd a = wrap_plain a (dr_Plain d a)" for a
    using assms by (auto simp: ScopedDriver_restricted scopedDriver_def Let_def)
  have writes: "dr_Plain sd a m args s = (Inl (restrictedWrite a m), s)"
    if "(a, ms) \<in> set restrictedWrites" "m \<in> set ms" for a ms m
  proof -
    have w: "map_of plain_wrappers a \<noteq> None" "ms = methods_of restrictedWrites a"
      using owner_only_wrapped that(1) by (fastforce simp: list_all_iff)+
    then obtain w' where w': "(a, w') \<in> set plain_wrappers" by (auto dest: map_of_SomeD)
    then have "m \<notin> set (methods_of restrictedReads a)"
      using wrappers_match_tables that(2) w(2) by (fastforce simp: list_all_iff)
    with w that(2) show ?thesis by (simp add: sd wrap_plain_tables)
  qed
  have reads: "dr_Plain sd a m args s = (Inl (restrictedRead a m), s)"
    if "(a, ms) \<in> set restrictedReads" "m \<in> set ms" "map_of plain_wrappers a \<noteq> None" for a ms m
  proof -
    have "ms = methods_of restrictedReads a" using reads_wrapped that(1) by (fastforce simp: list_all_iff)
    with that show ?thesis by (simp add: sd wrap_plain_tables)
  qed
  have forwards: "a \<notin> fst ` set restrictedWrites \<and> dr_Plain sd a m args s = dr_Plain d a m args s"
    if "(a, w) \<in> set plain_wrappers" "m \<in> set (wr_forwards w)" for a w m
  proof -
    have w: "wr_reads w = methods_of restrictedReads a" "wr_writes w = methods_of restrictedWrites a"
      "m \<notin> set (wr_reads w)" "m \<notin> set (wr_writes w)" "wr_writes w = []"
      using wrappers_match_tables that by (fastforce simp: list_all_iff)+
    have "map_of plain_wrappers a \<noteq> None" using that(1) by (metis weak_map_of_SomeI option.distinct(1))
    moreover have "a \<notin> fst ` set restrictedWrites"
      using w(2,5) by (auto simp: methods_of_def restrictedWrites_def)
    ultimately show ?thesis using w by (simp add: sd wrap_plain_tables)
  qed
  have own: "ScopedDriver (Some Unrestricted) (Some d) = Some d"
    by (simp add: ScopedDriver_def Unrestricted_def IsUnrestricted_def)
  have acc: "\<forall>(a, k) \<in> set scopedAccessors. k = accessorScoped \<longrightarrow>
        map_of plain_wrappers a \<noteq> None \<or> map_of scopedReads a \<noteq> None \<or> map_of principalReads a \<noteq> None"
    using accessors_wrapped by (auto simp: list_all_iff)
  have fw: "\<forall>(a, w) \<in> set plain_wrappers. \<forall>m \<in> set (wr_forwards w).
        a \<notin> fst ` set restrictedWrites \<and> dr_Plain sd a m args s = dr_Plain d a m args s"
    using forwards by blast
  show ?thesis
    using writes reads by (intro conjI acc fw own) (auto simp: case_prod_beta)
qed

theorem owner_only_stores_closed_witness:
  "\<exists>sd. ScopedDriver (Some ana_viewer) (Some sample_driver) = Some sd \<and>
     dr_Plain sd ''Entitlements'' ''Upsert'' [GStr ''all''] [] = (Inl (restrictedWrite ''Entitlements'' ''Upsert''), [])"
proof -
  have r: "restricted (Some ana_viewer)" using ana_restricted by simp
  obtain sd where sd: "ScopedDriver (Some ana_viewer) (Some sample_driver) = Some sd"
    using ScopedDriver_restricted [OF r] by blast
  have "(''Entitlements'', [''Upsert'', ''Delete'']) \<in> set restrictedWrites" by (simp add: restrictedWrites_def)
  with sd owner_only_stores_closed [OF sd r, of "[GStr ''all'']" "[]"] show ?thesis by fastforce
qed

text \<open>
  C36: a blob is read through a visible object only. For a viewer with a scope and an object
  store that binds to it, whenever the scoped store counts no visible reference to a key,
  \<open>Get\<close> and \<open>URL\<close> answer it as a missing blob and \<open>Exists\<close> as absent, with answers that do
  not depend on the stored blobs; a listing holds exactly the stored blobs a visible object
  refers to.
\<close>

theorem blobs_through_visible_objects:
  assumes "ScopedDriver (Some v) (Some d) = Some sd" and "\<not> IsUnrestricted v"
    and "ViewerScope (Some v) (driverDialect d) = Some sc" and "dr_scopeObjects d = Some bind"
  shows "(os_CountBlobRefs (bind sc) key s = Inr 0 \<longrightarrow>
      bls_Get (dr_Blobs sd) key s = Inl (hiddenBlob key) \<and> bls_URL (dr_Blobs sd) key s = Inl (hiddenBlob key) \<and>
      bls_Exists (dr_Blobs sd) key s = Inr False \<and>
      errors_Is (hiddenBlob key) ErrBlobNotFound \<and> errors_Is (hiddenBlob key) ErrRowNotFound) \<and>
    (\<forall>out. bls_List (dr_Blobs sd) prefix s = Inr out \<longrightarrow>
      (\<exists>bs. bls_List (dr_Blobs d) prefix s = Inr bs \<and>
         out = filter (\<lambda>b. \<exists>n. os_CountBlobRefs (bind sc) (bi_Key b) s = Inr n \<and> n > 0) bs))"
proof -
  have "sd = scopedDriver d (Some sc)" using assms(1,2,3) by (simp add: ScopedDriver_restricted)
  then have sd: "dr_Blobs sd = restrictedBlobs (dr_Blobs d) (Some (bind sc)) None"
    using assms(4) by (simp add: scopedDriver_def Let_def refusal_def)
  show ?thesis
    unfolding sd
    by (auto simp: restrictedBlobs_def blob_visible_def dest: visible_blobs_Inr split: sum.splits)
qed

theorem blobs_through_visible_objects_witness:
  "\<exists>sd. ScopedDriver (Some ana_viewer) (Some sample_driver) = Some sd \<and>
     bls_Get (dr_Blobs sd) ''k1'' [zero_object\<lparr>ko_ProfileID := ''bob'', ko_RawContent := ''blob:k1''\<rparr>] = Inl (hiddenBlob ''k1'')"
proof -
  let ?s = "[zero_object\<lparr>ko_ProfileID := ''bob'', ko_RawContent := ''blob:k1''\<rparr>]"
  let ?bind = "\<lambda>sc. sample_objects (\<lambda>x. ko_ProfileID x = sc_Principal sc)"
  obtain sc where sc: "ViewerScope (Some ana_viewer) (driverDialect sample_driver) = Some sc" "sc_Principal sc = ''ana''"
    using ViewerScope_Some [OF ana_restricted(1)] ana_restricted(2) by metis
  have b: "dr_scopeObjects sample_driver = Some ?bind" by (simp add: sample_driver_def)
  obtain sd where sd: "ScopedDriver (Some ana_viewer) (Some sample_driver) = Some sd"
    using ana_restricted(1) by (simp add: ScopedDriver_def)
  have "os_CountBlobRefs (?bind sc) ''k1'' ?s = Inr 0" by (simp add: sample_objects_def sc(2))
  with sd blobs_through_visible_objects [OF sd ana_restricted(1) sc(1) b, of "''k1''" ?s] show ?thesis by blast
qed



end
