(* ===== verification/Share_Render.thy ===== *)
theory Share_Render
  imports Share_Visibility Projection
begin

text \<open>
  The render layer (\<open>internal/sharing/render.go\<close>): a viewer's view of an object and the raw
  values it withheld. A \<open>Provenance\<close> is a function the service supplies. The Go renderer
  collects withheld values in a field of its receiver; here every step returns the values it
  adds, in order. Clones of maps and slices are the values themselves.

  The lemmas show what a restricted view can depend on, that excluded parts and their edges
  are gone, that derived fields appear only under the derived rule, and what is reported as
  withheld.
\<close>

section \<open>Data\<close>

type_synonym Provenance = "string \<Rightarrow> StepContract list \<times> bool"

definition CanaryMinRunes :: nat where "CanaryMinRunes = 6"

record Withheld =
  wh_Category :: string
  wh_Value :: string

record Rendered =
  rn_Object :: "KnowledgeObject option"
  rn_Withheld :: "Withheld list"

record renderer =
  rd_obj :: KnowledgeObject
  rd_plan :: RenderPlan
  rd_fs :: fieldSet
  rd_vis :: "string list"
  rd_steps :: "StepContract list"

type_synonym view_step = "KnowledgeObject \<times> Withheld list"

definition alwaysKeptCopy :: "KnowledgeObject \<Rightarrow> KnowledgeObject" where
  "alwaysKeptCopy obj =
     zero_object\<lparr>ko_ID := ko_ID obj, ko_Type := ko_Type obj, ko_Subtype := ko_Subtype obj,
       ko_Status := ko_Status obj, ko_Pipeline := ko_Pipeline obj, ko_ProfileID := ko_ProfileID obj,
       ko_CreatedAt := ko_CreatedAt obj, ko_UpdatedAt := ko_UpdatedAt obj\<rparr>"

definition rd_ok :: "renderer \<Rightarrow> string \<Rightarrow> bool" where
  "rd_ok r ko = derivedOK ko (rd_fs r) (rd_vis r) (rd_steps r)"

definition rd_excludes :: "renderer \<Rightarrow> string list \<Rightarrow> bool" where
  "rd_excludes r classes = ExcludesAny (rd_plan r) classes"

definition withhold :: "string \<Rightarrow> string list \<Rightarrow> Withheld list" where
  "withhold category values =
     map (\<lambda>v. \<lparr>wh_Category = category, wh_Value = v\<rparr>) (filter (\<lambda>v. TrimSpace v \<noteq> []) values)"

section \<open>Objects without a structured renderer\<close>

text \<open>The metadata \<open>out\<close> ends with, given what it starts with, and what is withheld.\<close>

definition genericMetadata :: "renderer \<Rightarrow> metadata \<Rightarrow> metadata \<times> Withheld list" where
  "genericMetadata r out =
     (let obj = rd_obj r
      in if fs_has (rd_fs r) FieldMetadata \<and> rd_ok r koMetadata then (ko_Metadata obj, [])
         else if fs_has (rd_fs r) FieldTitle \<and> rd_ok r koMetadata then
           (case as_string (meta_get (ko_Metadata obj) ''title'') of
              Some t \<Rightarrow> if t \<noteq> [] then ([(''title'', GStr t)], []) else (out, [])
            | None \<Rightarrow> (out, []))
         else
           (case as_string (meta_get (ko_Metadata obj) ''title'') of
              Some t \<Rightarrow> (out, withhold FieldTitle [t])
            | None \<Rightarrow> (out, [])))"

text \<open>
  The first loop of \<open>filterGraph\<close>: the kept nodes, rewritten, and the contents withheld under
  the classes of the dropped ones.
\<close>

fun filter_nodes :: "renderer \<Rightarrow> (GraphNode \<Rightarrow> GraphNode) \<Rightarrow> GraphNode list \<Rightarrow> GraphNode list \<times> Withheld list" where
  "filter_nodes r rewrite [] = ([], [])"
| "filter_nodes r rewrite (n # ns) =
     (case filter_nodes r rewrite ns of (kept, w) \<Rightarrow>
        if rd_excludes r (NodeClasses n)
        then (kept, withhold (Join (NodeClasses n) '','') [node_Content n] @ w)
        else (rewrite n # kept, w))"

definition edges_between :: "GraphNode list \<Rightarrow> GraphEdge list \<Rightarrow> GraphEdge list" where
  "edges_between nodes edges =
     (let kept = map node_ID nodes
      in filter (\<lambda>e. gedge_FromID e \<in> set kept \<and> gedge_ToID e \<in> set kept) edges)"

definition filterGraph :: "renderer \<Rightarrow> ObjectGraph \<Rightarrow> (GraphNode \<Rightarrow> GraphNode) \<Rightarrow> ObjectGraph option \<times> Withheld list" where
  "filterGraph r g rewrite =
     (case filter_nodes r rewrite (graph_Nodes g) of (nodes, w) \<Rightarrow>
        (if nodes = [] then None
         else Some \<lparr>graph_Nodes = nodes, graph_Edges = edges_between nodes (graph_Edges g)\<rparr>, w))"

definition genericGraph :: "renderer \<Rightarrow> ObjectGraph option \<Rightarrow> ObjectGraph option \<times> Withheld list" where
  "genericGraph r out =
     (case ko_Graph (rd_obj r) of
        None \<Rightarrow> (out, [])
      | Some g \<Rightarrow>
          (if \<not> fs_has (rd_fs r) FieldGraph \<or> \<not> rd_ok r koGraph
           then (out, concat (map (\<lambda>n. withhold FieldGraph [node_Content n]) (graph_Nodes g)))
           else filterGraph r g id))"

definition generic :: "renderer \<Rightarrow> KnowledgeObject \<Rightarrow> view_step" where
  "generic r out =
     (let obj = rd_obj r; fs = rd_fs r;
          content = fs_has fs FieldContent;
          summary = fs_has fs FieldSummary \<and> rd_ok r koSummaries;
          secs = fs_has fs FieldSections \<and> rd_ok r koSections;
          decisions = fs_has fs FieldDecisions \<and> rd_ok r koDecisions;
          tasks = fs_has fs FieldTasks \<and> rd_ok r koTasks
      in (out\<lparr>ko_RawContent := (if content then ko_RawContent obj else ko_RawContent out),
              ko_TextContent := (if content then ko_TextContent obj else ko_TextContent out),
              ko_ContentType := (if content then ko_ContentType obj else ko_ContentType out),
              ko_Summaries := (if summary then ko_Summaries obj else ko_Summaries out),
              ko_Sections := (if secs then ko_Sections obj else ko_Sections out),
              ko_Decisions := (if decisions then ko_Decisions obj else ko_Decisions out),
              ko_Tasks := (if tasks then ko_Tasks obj else ko_Tasks out),
              ko_Mentions := (if fs_has fs FieldMentions \<and> rd_ok r koMentions then ko_Mentions obj else ko_Mentions out),
              ko_Tags := (if fs_has fs FieldTags \<and> rd_ok r koTags then ko_Tags obj else ko_Tags out),
              ko_Source := (if fs_has fs FieldSource then ko_Source obj else ko_Source out),
              ko_Metadata := fst (genericMetadata r (ko_Metadata out)),
              ko_Graph := fst (genericGraph r (ko_Graph out))\<rparr>,
          (if content then [] else withhold FieldContent [ko_RawContent obj, ko_TextContent obj]) @
          (if summary then [] else withhold FieldSummary (ko_Summaries obj)) @
          (if secs then []
           else concat (map (\<lambda>s. withhold FieldSections [sec_Title s, sec_Content s]) (ko_Sections obj))) @
          (if decisions then []
           else concat (map (\<lambda>d. withhold FieldDecisions [dec_Title d, dec_Impact d]) (ko_Decisions obj))) @
          (if tasks then [] else concat (map (\<lambda>t. withhold FieldTasks [task_Title t]) (ko_Tasks obj))) @
          snd (genericMetadata r (ko_Metadata out)) @ snd (genericGraph r (ko_Graph out))))"

section \<open>Contacts\<close>

definition contact_shown :: "renderer \<Rightarrow> string \<Rightarrow> bool" where
  "contact_shown r f \<longleftrightarrow>
     fs_has (rd_fs r) f \<and>
     \<not> (case map_of ContactFieldClasses f of None \<Rightarrow> False | Some class \<Rightarrow> rd_excludes r [class])"

definition contactFields :: "renderer \<Rightarrow> string list \<times> Withheld list" where
  "contactFields r =
     (filter (contact_shown r) ContactFields,
      concat (map (\<lambda>f. if f \<noteq> ContactTags then withhold f [ContactField (Some (rd_obj r)) f] else [])
        (filter (\<lambda>f. \<not> contact_shown r f) ContactFields)))"

definition contact_key :: "string \<Rightarrow> string option" where
  "contact_key f =
     (if f = ContactTitle then Some ''name''
      else if f \<in> {ContactOrg, ContactRole, ContactCity, ContactEmail, ContactPhone, ContactAddress} then Some f
      else None)"

definition contactMetadata :: "KnowledgeObject \<Rightarrow> string list \<Rightarrow> metadata" where
  "contactMetadata obj visible =
     List.map_filter (\<lambda>f. case contact_key f of
         None \<Rightarrow> None
       | Some key \<Rightarrow>
           (case as_string (meta_get (ko_Metadata obj) key) of
              Some v \<Rightarrow> if v \<noteq> [] then Some (key, GStr v) else None
            | None \<Rightarrow> None)) visible"

definition intersectStrings :: "string list \<Rightarrow> string list \<Rightarrow> string list" where
  "intersectStrings a b = filter (\<lambda>x. x \<in> set b) a"

definition isCard :: "GraphNode \<Rightarrow> bool" where
  "isCard n \<longleftrightarrow> node_NodeType n = NodeTypeSection \<and> node_Label n = ContactCardLabel"

definition isNote :: "GraphNode \<Rightarrow> bool" where
  "isNote n \<longleftrightarrow> node_NodeType n = NodeTypeSection \<and> node_Label n = ContactNoteLabel"

definition contactGraph :: "renderer \<Rightarrow> string list \<Rightarrow> ObjectGraph option \<times> Withheld list" where
  "contactGraph r visible =
     (case ko_Graph (rd_obj r) of
        None \<Rightarrow> (None, [])
      | Some g \<Rightarrow>
          (let note = ContactNote \<in> set visible;
               card = RenderContact (Some (rd_obj r)) (intersectStrings visible ContactCardFields)
           in case filterGraph r g (\<lambda>n. if isCard n then n\<lparr>node_Content := card\<rparr> else n) of
                (None, w) \<Rightarrow> (None, w)
              | (Some fg, w) \<Rightarrow>
                  (let keep = (\<lambda>n. isCard n \<and> card \<noteq> [] \<or> isNote n \<and> note);
                       nodes = filter keep (graph_Nodes fg);
                       w2 = concat (map (\<lambda>n. if \<not> keep n \<and> \<not> isCard n then withhold FieldGraph [node_Content n] else [])
                              (graph_Nodes fg))
                   in (if nodes = [] then None
                       else Some \<lparr>graph_Nodes = nodes, graph_Edges = edges_between nodes (graph_Edges fg)\<rparr>,
                       w @ w2))))"

definition renderContact :: "renderer \<Rightarrow> KnowledgeObject \<Rightarrow> view_step" where
  "renderContact r out =
     (let obj = rd_obj r;
          (visible, w1) = contactFields r;
          (og, w5) = contactGraph r visible;
          out' = out\<lparr>ko_RawContent := RenderContact (Some obj) visible,
                     ko_Metadata := contactMetadata obj visible,
                     ko_Tags := (if ContactTags \<in> set visible then ko_Tags obj else ko_Tags out),
                     ko_Graph := og\<rparr>
      in (out',
          w1 @ withhold FieldContent [ko_RawContent obj, ko_TextContent obj] @
          withhold FieldSummary (ko_Summaries obj) @
          concat (map (\<lambda>s. withhold FieldSections [sec_Title s, sec_Content s]) (ko_Sections obj)) @ w5))"

section \<open>What was withheld\<close>

fun metadataStrings :: "gval \<Rightarrow> string list" where
  "metadataStrings (GStr s) = [s]"
| "metadataStrings (GObj kvs) = concat (map (\<lambda>kv. metadataStrings (snd kv)) kvs)"
| "metadataStrings (GArr vs) = concat (map metadataStrings vs)"
| "metadataStrings _ = []"

definition keptStrings :: "KnowledgeObject \<Rightarrow> string list" where
  "keptStrings ob =
     [ko_RawContent ob, ko_TextContent ob, ko_Source ob] @ ko_Summaries ob @
     concat (map (\<lambda>s. [sec_Title s, sec_Content s]) (ko_Sections ob)) @
     map tag_Label (ko_Tags ob) @ ko_Mentions ob @
     concat (map (\<lambda>d. [dec_Title d, dec_Impact d]) (ko_Decisions ob)) @
     map task_Title (ko_Tasks ob) @ metadataStrings (GObj (ko_Metadata ob)) @
     concat (map (\<lambda>n. [node_Label n, node_Content n]) (graph_nodes ob))"

fun finish_loop :: "string list \<Rightarrow> string list \<Rightarrow> Withheld list \<Rightarrow> Withheld list" where
  "finish_loop kept seen [] = []"
| "finish_loop kept seen (w # ws) =
     (if RuneCount (wh_Value w) < CanaryMinRunes \<or> wh_Value w \<in> set seen then finish_loop kept seen ws
      else if \<exists>k \<in> set kept. Contains k (wh_Value w) then finish_loop kept seen ws
      else w # finish_loop kept (wh_Value w # seen) ws)"

definition finish :: "Withheld list \<Rightarrow> KnowledgeObject \<Rightarrow> Withheld list" where
  "finish withheld out = finish_loop (keptStrings out) [] withheld"

section \<open>Render\<close>

definition structured :: "string \<Rightarrow> (renderer \<Rightarrow> KnowledgeObject \<Rightarrow> view_step) option" where
  "structured ty = (if ty = TypeContact then Some renderContact else None)"

definition renderer_for :: "Viewer \<Rightarrow> KnowledgeObject \<Rightarrow> Provenance option \<Rightarrow> renderer" where
  "renderer_for v obj prov =
     (let plan = Plan v; fs = newFieldSet (plan_FieldsFor plan (ko_Type obj))
      in \<lparr>rd_obj = obj, rd_plan = plan, rd_fs = fs, rd_vis = visibleKO fs,
          rd_steps = (case prov of
             None \<Rightarrow> []
           | Some pv \<Rightarrow> if ko_Pipeline obj \<noteq> [] then fst (pv (ko_Pipeline obj)) else [])\<rparr>)"

definition Render :: "Viewer \<Rightarrow> KnowledgeObject option \<Rightarrow> Provenance option \<Rightarrow> Rendered" where
  "Render v kopt prov =
     (case kopt of
        None \<Rightarrow> \<lparr>rn_Object = None, rn_Withheld = []\<rparr>
      | Some obj \<Rightarrow>
          (if IsUnrestricted v then \<lparr>rn_Object = Some obj, rn_Withheld = []\<rparr>
           else
             (let r = renderer_for v obj prov;
                  render = (case structured (ko_Type obj) of Some fn \<Rightarrow> fn | None \<Rightarrow> generic);
                  (out, w) = render r (alwaysKeptCopy obj)
              in \<lparr>rn_Object = Some out, rn_Withheld = finish w out\<rparr>)))"

section \<open>Graphs\<close>

lemma filter_nodes_eq:
  "filter_nodes r rewrite ns =
     (map rewrite (filter (\<lambda>n. \<not> rd_excludes r (NodeClasses n)) ns),
      concat (map (\<lambda>n. if rd_excludes r (NodeClasses n)
                       then withhold (Join (NodeClasses n) '','') [node_Content n] else []) ns))"
  by (induction ns) auto

lemma filterGraph_SomeD:
  assumes "fst (filterGraph r g rewrite) = Some og"
  shows "graph_Nodes og = map rewrite (filter (\<lambda>n. \<not> rd_excludes r (NodeClasses n)) (graph_Nodes g))"
    and "graph_Edges og = edges_between (graph_Nodes og) (graph_Edges g)"
  using assms by (auto simp: filterGraph_def filter_nodes_eq split: if_splits)

lemma edges_between_ends:
  "e \<in> set (edges_between nodes edges) \<Longrightarrow>
   e \<in> set edges \<and> gedge_FromID e \<in> node_ID ` set nodes \<and> gedge_ToID e \<in> node_ID ` set nodes"
  by (simp add: edges_between_def Let_def)

lemma NodeClasses_content [simp]: "NodeClasses (n\<lparr>node_Content := c\<rparr>) = NodeClasses n"
  by (simp add: NodeClasses_def)

definition closed_graph :: "ObjectGraph \<Rightarrow> bool" where
  "closed_graph g \<longleftrightarrow> (\<forall>e \<in> set (graph_Edges g). gedge_FromID e \<in> node_ID ` set (graph_Nodes g) \<and>
     gedge_ToID e \<in> node_ID ` set (graph_Nodes g))"

lemma genericGraph_view:
  assumes "fst (genericGraph r None) = Some og"
  shows "closed_graph og \<and> (\<forall>n \<in> set (graph_Nodes og). \<not> rd_excludes r (NodeClasses n)) \<and>
    set (graph_Nodes og) \<subseteq> set (graph_nodes (rd_obj r)) \<and> fs_has (rd_fs r) FieldGraph \<and> rd_ok r koGraph"
proof -
  from assms obtain g where g: "ko_Graph (rd_obj r) = Some g" "fs_has (rd_fs r) FieldGraph" "rd_ok r koGraph"
    "fst (filterGraph r g id) = Some og"
    by (auto simp: genericGraph_def split: option.splits if_splits)
  note f = filterGraph_SomeD [OF g(4)]
  show ?thesis
    using g f by (auto simp: closed_graph_def graph_nodes_def dest: edges_between_ends)
qed

lemma contactGraph_view:
  assumes "fst (contactGraph r visible) = Some og"
  shows "closed_graph og \<and> (\<forall>n \<in> set (graph_Nodes og). \<not> rd_excludes r (NodeClasses n) \<and>
     (isCard n \<and> node_Content n = RenderContact (Some (rd_obj r)) (intersectStrings visible ContactCardFields) \<or>
      isNote n \<and> ContactNote \<in> set visible \<and> n \<in> set (graph_nodes (rd_obj r))))"
proof -
  let ?card = "RenderContact (Some (rd_obj r)) (intersectStrings visible ContactCardFields)"
  let ?rw = "\<lambda>n. if isCard n then n\<lparr>node_Content := ?card\<rparr> else n"
  from assms obtain g fg where g: "ko_Graph (rd_obj r) = Some g" and fg: "fst (filterGraph r g ?rw) = Some fg"
    and nodes: "graph_Nodes og = filter (\<lambda>n. isCard n \<and> ?card \<noteq> [] \<or> isNote n \<and> ContactNote \<in> set visible) (graph_Nodes fg)"
    and edges: "graph_Edges og = edges_between (graph_Nodes og) (graph_Edges fg)"
    by (auto simp: contactGraph_def Let_def split: option.splits prod.splits if_splits)
  note f = filterGraph_SomeD [OF fg]
  have excl: "\<not> (isCard n \<and> isNote n)" for n by (auto simp: isCard_def isNote_def ContactCardLabel_def ContactNoteLabel_def)
  have "\<not> rd_excludes r (NodeClasses n) \<and>
     (isCard n \<and> node_Content n = ?card \<or> isNote n \<and> ContactNote \<in> set visible \<and> n \<in> set (graph_nodes (rd_obj r)))"
    if "n \<in> set (graph_Nodes og)" for n
  proof -
    from that nodes f(1) obtain m where m: "m \<in> set (graph_Nodes g)" "\<not> rd_excludes r (NodeClasses m)" "n = ?rw m"
      "isCard n \<and> ?card \<noteq> [] \<or> isNote n \<and> ContactNote \<in> set visible" by auto
    show ?thesis
    proof (cases "isCard m")
      case True
      then have "isCard n" using m(3) by (simp add: isCard_def)
      with True m show ?thesis by simp
    next
      case False
      with m g show ?thesis by (auto simp: graph_nodes_def)
    qed
  qed
  moreover have "closed_graph og"
    unfolding closed_graph_def edges by (auto dest: edges_between_ends)
  ultimately show ?thesis by blast
qed

section \<open>Withheld values\<close>

lemma finish_loop_props:
  "list_all (\<lambda>w. 6 \<le> RuneCount (wh_Value w) \<and> wh_Value w \<notin> set seen \<and> (\<forall>k \<in> set kept. \<not> Contains k (wh_Value w)))
     (finish_loop kept seen ws) \<and>
   distinct (map wh_Value (finish_loop kept seen ws)) \<and> set (finish_loop kept seen ws) \<subseteq> set ws"
proof (induction ws arbitrary: seen)
  case (Cons w ws)
  show ?case using Cons [of seen] Cons [of "wh_Value w # seen"]
    by (auto simp: CanaryMinRunes_def list_all_iff)
qed simp

lemma finish_loop_complete:
  "w \<in> set ws \<Longrightarrow> 6 \<le> RuneCount (wh_Value w) \<Longrightarrow> (\<forall>k \<in> set kept. \<not> Contains k (wh_Value w)) \<Longrightarrow>
   wh_Value w \<in> set seen \<or> wh_Value w \<in> wh_Value ` set (finish_loop kept seen ws)"
proof (induction ws arbitrary: seen)
  case (Cons x ws)
  show ?case
  proof (cases "w = x")
    case True
    with Cons.prems show ?thesis by (auto simp: CanaryMinRunes_def)
  next
    case False
    with Cons show ?thesis
      using Cons.IH [of seen] Cons.IH [of "wh_Value x # seen"] by auto
  qed
qed simp

section \<open>The rendered object\<close>

abbreviation projects :: "Viewer \<Rightarrow> string \<Rightarrow> string \<Rightarrow> bool" where
  "projects v ty f \<equiv> fs_has (newFieldSet (plan_FieldsFor (Plan v) ty)) f"

lemma renderer_for_sel [simp]:
  "rd_obj (renderer_for v obj prov) = obj"
  "rd_plan (renderer_for v obj prov) = Plan v"
  "rd_fs (renderer_for v obj prov) = newFieldSet (plan_FieldsFor (Plan v) (ko_Type obj))"
  "rd_vis (renderer_for v obj prov) = visibleKO (newFieldSet (plan_FieldsFor (Plan v) (ko_Type obj)))"
  by (simp_all add: renderer_for_def Let_def)

lemma Render_generic:
  assumes "\<not> IsUnrestricted v" and "ko_Type obj \<noteq> TypeContact"
  shows "Render v (Some obj) prov =
    (let g = generic (renderer_for v obj prov) (alwaysKeptCopy obj)
     in \<lparr>rn_Object = Some (fst g), rn_Withheld = finish (snd g) (fst g)\<rparr>)"
  using assms by (simp add: Render_def structured_def Let_def split_beta)

lemma Render_contact:
  assumes "\<not> IsUnrestricted v" and "ko_Type obj = TypeContact"
  shows "Render v (Some obj) prov =
    (let c = renderContact (renderer_for v obj prov) (alwaysKeptCopy obj)
     in \<lparr>rn_Object = Some (fst c), rn_Withheld = finish (snd c) (fst c)\<rparr>)"
  using assms by (simp add: Render_def structured_def Let_def split_beta)

lemma zero_fields [simp]:
  "ko_RawContent (alwaysKeptCopy obj) = []" "ko_TextContent (alwaysKeptCopy obj) = []"
  "ko_ContentType (alwaysKeptCopy obj) = []" "ko_Summaries (alwaysKeptCopy obj) = []"
  "ko_Sections (alwaysKeptCopy obj) = []" "ko_Decisions (alwaysKeptCopy obj) = []"
  "ko_Tasks (alwaysKeptCopy obj) = []" "ko_Mentions (alwaysKeptCopy obj) = []"
  "ko_Tags (alwaysKeptCopy obj) = []" "ko_Source (alwaysKeptCopy obj) = []"
  "ko_Metadata (alwaysKeptCopy obj) = []" "ko_Graph (alwaysKeptCopy obj) = None"
  by (simp_all add: alwaysKeptCopy_def zero_object_def)

lemma rd_ok_pipeline:
  assumes "ko_Type a = ko_Type b" and "ko_Pipeline a = ko_Pipeline b"
  shows "rd_ok (renderer_for v a prov) ko = rd_ok (renderer_for v b prov) ko"
  using assms by (simp add: rd_ok_def renderer_for_def Let_def split: option.split)

text \<open>Where the graph of a restricted view comes from.\<close>

lemma Render_graph_cases:
  assumes "\<not> IsUnrestricted v" and "rn_Object (Render v (Some obj) prov) = Some out" and "ko_Graph out = Some g"
  obtains
    (contact) "ko_Type obj = TypeContact"
      "fst (contactGraph (renderer_for v obj prov) (fst (contactFields (renderer_for v obj prov)))) = Some g"
  | (other) "ko_Type obj \<noteq> TypeContact" "fst (genericGraph (renderer_for v obj prov) None) = Some g"
proof (cases "ko_Type obj = TypeContact")
  case True
  then have "fst (contactGraph (renderer_for v obj prov) (fst (contactFields (renderer_for v obj prov)))) = Some g"
    using assms Render_contact [OF assms(1) True, of prov]
    by (auto simp: renderContact_def Let_def split_beta)
  with True show ?thesis by (rule contact)
next
  case False
  then have "fst (genericGraph (renderer_for v obj prov) None) = Some g"
    using assms Render_generic [OF assms(1) False, of prov] by (auto simp: generic_def Let_def)
  with False show ?thesis by (rule other)
qed

lemma Render_graph_excludes:
  assumes "\<not> IsUnrestricted v" and "rn_Object (Render v (Some obj) prov) = Some out" and "ko_Graph out = Some g"
    and "n \<in> set (graph_Nodes g)"
  shows "\<not> ExcludesAny (Plan v) (NodeClasses n)"
  using assms(1,2,3)
proof (cases rule: Render_graph_cases)
  case contact
  from contactGraph_view [OF contact(2)] assms(4) show ?thesis by (auto simp: rd_excludes_def)
next
  case other
  from genericGraph_view [OF other(2)] assms(4) show ?thesis by (auto simp: rd_excludes_def)
qed

text \<open>The graph as far as a viewer's part exclusions leave it.\<close>

definition visible_graph :: "Viewer \<Rightarrow> ObjectGraph option \<Rightarrow> (GraphNode list \<times> GraphEdge list) option" where
  "visible_graph v g =
     map_option (\<lambda>og. (filter (\<lambda>n. \<not> ExcludesAny (Plan v) (NodeClasses n)) (graph_Nodes og), graph_Edges og)) g"

lemma filterGraph_cong:
  assumes "rd_plan r = Plan v" and "rd_plan r' = Plan v"
    and "visible_graph v (Some g) = visible_graph v (Some h)"
  shows "fst (filterGraph r g id) = fst (filterGraph r' h id)"
  using assms by (simp add: filterGraph_def filter_nodes_eq rd_excludes_def visible_graph_def)

text \<open>
  Two objects a viewer cannot tell apart: the always-kept fields agree, and each projected
  field agrees, the graph without its excluded nodes and the metadata as far as projected.
\<close>

definition same_view :: "Viewer \<Rightarrow> KnowledgeObject \<Rightarrow> KnowledgeObject \<Rightarrow> bool" where
  "same_view v a b \<longleftrightarrow>
     alwaysKeptCopy a = alwaysKeptCopy b \<and>
     (projects v (ko_Type a) FieldContent \<longrightarrow>
        ko_RawContent a = ko_RawContent b \<and> ko_TextContent a = ko_TextContent b \<and> ko_ContentType a = ko_ContentType b) \<and>
     (projects v (ko_Type a) FieldSummary \<longrightarrow> ko_Summaries a = ko_Summaries b) \<and>
     (projects v (ko_Type a) FieldSections \<longrightarrow> ko_Sections a = ko_Sections b) \<and>
     (projects v (ko_Type a) FieldDecisions \<longrightarrow> ko_Decisions a = ko_Decisions b) \<and>
     (projects v (ko_Type a) FieldTasks \<longrightarrow> ko_Tasks a = ko_Tasks b) \<and>
     (projects v (ko_Type a) FieldMentions \<longrightarrow> ko_Mentions a = ko_Mentions b) \<and>
     (projects v (ko_Type a) FieldTags \<longrightarrow> ko_Tags a = ko_Tags b) \<and>
     (projects v (ko_Type a) FieldSource \<longrightarrow> ko_Source a = ko_Source b) \<and>
     (projects v (ko_Type a) FieldMetadata \<longrightarrow> ko_Metadata a = ko_Metadata b) \<and>
     (projects v (ko_Type a) FieldTitle \<longrightarrow>
        as_string (meta_get (ko_Metadata a) ''title'') = as_string (meta_get (ko_Metadata b) ''title'')) \<and>
     (projects v (ko_Type a) FieldGraph \<longrightarrow> visible_graph v (ko_Graph a) = visible_graph v (ko_Graph b))"

lemma alwaysKept_fields:
  assumes "alwaysKeptCopy a = alwaysKeptCopy b"
  shows "ko_Type a = ko_Type b" and "ko_Pipeline a = ko_Pipeline b"
proof -
  have "ko_Type x = ko_Type (alwaysKeptCopy x)" "ko_Pipeline x = ko_Pipeline (alwaysKeptCopy x)" for x
    by (simp_all add: alwaysKeptCopy_def)
  then show "ko_Type a = ko_Type b" "ko_Pipeline a = ko_Pipeline b" using assms by metis+
qed

lemma genericMetadata_cong:
  assumes "ko_Type a = ko_Type b" and "ko_Pipeline a = ko_Pipeline b"
    and "projects v (ko_Type a) FieldMetadata \<longrightarrow> ko_Metadata a = ko_Metadata b"
    and "projects v (ko_Type a) FieldTitle \<longrightarrow>
       as_string (meta_get (ko_Metadata a) ''title'') = as_string (meta_get (ko_Metadata b) ''title'')"
  shows "fst (genericMetadata (renderer_for v a prov) m) = fst (genericMetadata (renderer_for v b prov) m)"
  using assms rd_ok_pipeline [OF assms(1,2), of v prov koMetadata]
  by (auto simp: genericMetadata_def Let_def split: option.splits)

lemma genericGraph_cong:
  assumes "ko_Type a = ko_Type b" and "ko_Pipeline a = ko_Pipeline b"
    and "projects v (ko_Type a) FieldGraph \<longrightarrow> visible_graph v (ko_Graph a) = visible_graph v (ko_Graph b)"
  shows "fst (genericGraph (renderer_for v a prov) None) = fst (genericGraph (renderer_for v b prov) None)"
proof (cases "projects v (ko_Type a) FieldGraph \<and> rd_ok (renderer_for v a prov) koGraph")
  case True
  then have vis: "visible_graph v (ko_Graph a) = visible_graph v (ko_Graph b)" using assms(3) by blast
  show ?thesis
  proof (cases "ko_Graph a")
    case None
    with vis have "ko_Graph b = None" by (simp add: visible_graph_def)
    with None show ?thesis by (simp add: genericGraph_def)
  next
    case (Some g)
    with vis obtain h where "ko_Graph b = Some h" by (cases "ko_Graph b") (auto simp: visible_graph_def)
    with Some vis True assms(1) rd_ok_pipeline [OF assms(1,2)] show ?thesis
      using filterGraph_cong [of "renderer_for v a prov" v "renderer_for v b prov" g h]
      by (simp add: genericGraph_def)
  qed
next
  case False
  then show ?thesis
    using assms(1) rd_ok_pipeline [OF assms(1,2), of v prov koGraph]
    by (auto simp: genericGraph_def split: option.splits)
qed

lemma generic_withholds_content:
  "\<not> fs_has (rd_fs r) FieldContent \<Longrightarrow>
   set (withhold FieldContent [ko_RawContent (rd_obj r), ko_TextContent (rd_obj r)]) \<subseteq> set (snd (generic r out))"
  by (simp add: generic_def Let_def)

text \<open>A restricted viewer, a step contract and an object for the witnesses.\<close>

definition sample_viewer :: Viewer where
  "sample_viewer = \<lparr>vr_unrestricted = False, vr_view = Some \<lparr>vw_principal = ''ana'', vw_identity = [], vw_key = [],
     vw_node = None, vw_sql = [], vw_unnumbered = [],
     vw_plan = zero_plan\<lparr>rp_Fields := [(''*'', [''title'', ''summary'', ''graph'']), (''contact'', [''title'', ''email'', ''note''])],
                         rp_PartExclusions := [''personal'']\<rparr>\<rparr>\<rparr>"

definition sample_provenance :: Provenance where
  "sample_provenance name =
     ([\<lparr>step_Name = ''title_summary'', step_Requires = [''Metadata.title''], step_Produces = [''Summaries'']\<rparr>,
       \<lparr>step_Name = ''graph'', step_Requires = [], step_Produces = [''Graph'']\<rparr>], True)"

definition sample_node :: "string \<Rightarrow> string \<Rightarrow> string \<Rightarrow> string list \<Rightarrow> GraphNode" where
  "sample_node i label content classes =
     \<lparr>node_ID = i, node_NodeType = ''section'', node_Label = label, node_Content = content, node_Order = 0,
      node_Metadata = (if classes = [] then [] else [(''classes'', GStrs classes)])\<rparr>"

definition sample_object :: KnowledgeObject where
  "sample_object = zero_object\<lparr>ko_ID := ''o1'', ko_Type := ''note'', ko_Pipeline := ''text@v1'',
     ko_RawContent := ''a long private text'', ko_Summaries := [''short''],
     ko_Metadata := [(''title'', GStr ''Minutes'')],
     ko_Graph := Some \<lparr>graph_Nodes = [sample_node ''n1'' ''plan'' ''open part'' [], sample_node ''n2'' ''diary'' ''closed part'' [''personal'']],
       graph_Edges = [\<lparr>gedge_ID = ''e1'', gedge_FromID = ''n1'', gedge_ToID = ''n2'', gedge_EdgeType = ''next'', gedge_Weight = ''1''\<rparr>]\<rparr>\<rparr>"

definition sample_contact :: KnowledgeObject where
  "sample_contact = zero_object\<lparr>ko_ID := ''c1'', ko_Type := ''contact'',
     ko_Metadata := [(''name'', GStr ''Ana''), (''email'', GStr ''ana@x.org''), (''phone'', GStr ''555-0101'')]\<rparr>"

definition sample_rendered :: KnowledgeObject where
  "sample_rendered = zero_object\<lparr>ko_ID := ''o1'', ko_Type := ''note'', ko_Pipeline := ''text@v1'',
     ko_Summaries := [''short''], ko_Metadata := [(''title'', GStr ''Minutes'')],
     ko_Graph := Some \<lparr>graph_Nodes = [sample_node ''n1'' ''plan'' ''open part'' []], graph_Edges = []\<rparr>\<rparr>"

lemma sample_restricted: "\<not> IsUnrestricted sample_viewer"
  by (simp add: IsUnrestricted_def sample_viewer_def)

lemma sample_render:
  "Render sample_viewer (Some sample_object) (Some sample_provenance) =
     \<lparr>rn_Object = Some sample_rendered,
      rn_Withheld = [\<lparr>wh_Category = ''content'', wh_Value = ''a long private text''\<rparr>,
                     \<lparr>wh_Category = ''personal'', wh_Value = ''closed part''\<rparr>]\<rparr>"
  by code_simp

section \<open>Properties\<close>



text \<open>
  Excluded parts are gone. In the graph of a restricted view no node carries a class the
  plan excludes, every edge runs between two nodes of the view, and, except for the rebuilt
  card of a contact, every node is a node of the stored graph.
\<close>

theorem render_drops_excluded_parts:
  assumes "\<not> IsUnrestricted v" and "rn_Object (Render v (Some obj) prov) = Some out" and "ko_Graph out = Some g"
  shows "(\<forall>n \<in> set (graph_Nodes g). \<not> ExcludesAny (Plan v) (NodeClasses n) \<and>
           (n \<in> set (graph_nodes obj) \<or> ko_Type obj = TypeContact \<and> isCard n)) \<and>
         (\<forall>e \<in> set (graph_Edges g). gedge_FromID e \<in> node_ID ` set (graph_Nodes g) \<and>
            gedge_ToID e \<in> node_ID ` set (graph_Nodes g))"
  using assms(1,2,3)
proof (cases rule: Render_graph_cases)
  case contact
  from contactGraph_view [OF contact(2)] contact(1) show ?thesis
    by (auto simp: closed_graph_def rd_excludes_def)
next
  case other
  from genericGraph_view [OF other(2)] show ?thesis
    by (auto simp: closed_graph_def rd_excludes_def)
qed

theorem render_drops_excluded_parts_witness:
  "rn_Object (Render sample_viewer (Some sample_object) (Some sample_provenance)) = Some sample_rendered \<and>
   (\<exists>g. ko_Graph sample_rendered = Some g \<and>
      (\<forall>n \<in> set (graph_Nodes g). \<not> ExcludesAny (Plan sample_viewer) (NodeClasses n)))"
proof -
  have o: "rn_Object (Render sample_viewer (Some sample_object) (Some sample_provenance)) = Some sample_rendered"
    by (simp add: sample_render)
  have g: "ko_Graph sample_rendered = Some \<lparr>graph_Nodes = [sample_node ''n1'' ''plan'' ''open part'' []], graph_Edges = []\<rparr>"
    by (simp add: sample_rendered_def)
  from o g render_drops_excluded_parts [OF sample_restricted o g] show ?thesis by blast
qed

text \<open>
  Derived fields appear only under the derived rule. When a restricted view of an object
  other than a contact carries summaries, sections, decisions, tasks, mentions or a graph,
  the plan projects that field and, unless it projects every field, the pipeline's
  provenance names a step that produces it and every step that produces it requires
  projected fields only; without provenance none of them appears.
\<close>

theorem render_derived_sound:
  assumes "\<not> IsUnrestricted v" and "ko_Type obj \<noteq> TypeContact" and "rn_Object (Render v (Some obj) prov) = Some out"
    and "(f, ko) \<in> {(FieldSummary, koSummaries), (FieldSections, koSections), (FieldDecisions, koDecisions),
           (FieldTasks, koTasks), (FieldMentions, koMentions), (FieldGraph, koGraph)}"
    and "ko = koSummaries \<longrightarrow> ko_Summaries out \<noteq> []" and "ko = koSections \<longrightarrow> ko_Sections out \<noteq> []"
    and "ko = koDecisions \<longrightarrow> ko_Decisions out \<noteq> []" and "ko = koTasks \<longrightarrow> ko_Tasks out \<noteq> []"
    and "ko = koMentions \<longrightarrow> ko_Mentions out \<noteq> []" and "ko = koGraph \<longrightarrow> ko_Graph out \<noteq> None"
  shows "projects v (ko_Type obj) f \<and>
    (fs_all (newFieldSet (plan_FieldsFor (Plan v) (ko_Type obj))) \<or>
     (\<exists>pv. prov = Some pv \<and>
        (\<exists>s \<in> set (fst (pv (ko_Pipeline obj))). produces s ko) \<and>
        (\<forall>s \<in> set (fst (pv (ko_Pipeline obj))). produces s ko \<longrightarrow>
           (\<forall>r \<in> set (step_Requires s).
              requireSatisfied r (visibleKO (newFieldSet (plan_FieldsFor (Plan v) (ko_Type obj))))))))"
proof -
  let ?r = "renderer_for v obj prov"
  have out: "out = fst (generic ?r (alwaysKeptCopy obj))"
    using assms(3) by (simp add: Render_generic [OF assms(1,2)] Let_def)
  have sel: "ko_Summaries out \<noteq> [] \<longrightarrow> fs_has (rd_fs ?r) FieldSummary \<and> rd_ok ?r koSummaries"
    "ko_Sections out \<noteq> [] \<longrightarrow> fs_has (rd_fs ?r) FieldSections \<and> rd_ok ?r koSections"
    "ko_Decisions out \<noteq> [] \<longrightarrow> fs_has (rd_fs ?r) FieldDecisions \<and> rd_ok ?r koDecisions"
    "ko_Tasks out \<noteq> [] \<longrightarrow> fs_has (rd_fs ?r) FieldTasks \<and> rd_ok ?r koTasks"
    "ko_Mentions out \<noteq> [] \<longrightarrow> fs_has (rd_fs ?r) FieldMentions \<and> rd_ok ?r koMentions"
    unfolding out by (simp_all add: generic_def Let_def)
  have "ko_Graph out = fst (genericGraph ?r None)" unfolding out by (simp add: generic_def Let_def)
  then have gr: "ko_Graph out \<noteq> None \<longrightarrow> fs_has (rd_fs ?r) FieldGraph \<and> rd_ok ?r koGraph"
    using genericGraph_view [of ?r] by (cases "ko_Graph out") auto
  have both: "fs_has (rd_fs ?r) f \<and> rd_ok ?r ko" and only: "ko \<in> set derivedOnly"
    using assms(4-10) sel gr by (auto simp: derivedOnly_def)
  then show ?thesis
    by (auto simp: rd_ok_def derivedOK_iff renderer_for_def Let_def split: option.splits if_splits)
qed

theorem render_derived_sound_witness:
  "rn_Object (Render sample_viewer (Some sample_object) (Some sample_provenance)) = Some sample_rendered \<and>
   ko_Summaries sample_rendered = [''short''] \<and> projects sample_viewer ''note'' FieldSummary"
proof -
  have o: "rn_Object (Render sample_viewer (Some sample_object) (Some sample_provenance)) = Some sample_rendered"
    by (simp add: sample_render)
  have t: "ko_Type sample_object \<noteq> TypeContact" by code_simp
  have s: "ko_Summaries sample_rendered = [''short'']" by (simp add: sample_rendered_def)
  have ty: "ko_Type sample_object = ''note''" by (simp add: sample_object_def)
  have "projects sample_viewer (ko_Type sample_object) FieldSummary"
    using s by (intro render_derived_sound [OF sample_restricted t o, of FieldSummary koSummaries, THEN conjunct1])
      (simp_all add: ko_names)
  with o s ty show ?thesis by simp
qed

text \<open>
  The withheld list is fit to search responses with. Every value reported as withheld
  from a restricted view has at least six runes, is reported once, and occurs in none of
  the strings the view kept. The stored text of an object whose content is not projected is
  reported whenever it is that long, not blank, and not part of a kept string.
\<close>

theorem withheld_values_are_canaries:
  assumes "\<not> IsUnrestricted v" and "Render v (Some obj) prov = \<lparr>rn_Object = Some out, rn_Withheld = ws\<rparr>"
  shows "distinct (map wh_Value ws) \<and>
    (\<forall>w \<in> set ws. 6 \<le> RuneCount (wh_Value w) \<and> (\<forall>k \<in> set (keptStrings out). \<not> Contains k (wh_Value w))) \<and>
    (ko_Type obj \<noteq> TypeContact \<and> \<not> projects v (ko_Type obj) FieldContent \<and>
     t \<in> {ko_RawContent obj, ko_TextContent obj} \<and> TrimSpace t \<noteq> [] \<and> 6 \<le> RuneCount t \<and>
     (\<forall>k \<in> set (keptStrings out). \<not> Contains k t) \<longrightarrow> t \<in> wh_Value ` set ws)"
proof -
  obtain w where w: "ws = finish_loop (keptStrings out) [] w"
    and gen: "ko_Type obj \<noteq> TypeContact \<Longrightarrow> w = snd (generic (renderer_for v obj prov) (alwaysKeptCopy obj))"
  proof (cases "ko_Type obj = TypeContact")
    case True
    with assms(2) that show ?thesis
      by (auto simp: Render_contact [OF assms(1) True] finish_def Let_def)
  next
    case False
    with assms(2) that show ?thesis
      by (auto simp: Render_generic [OF assms(1) False] finish_def Let_def)
  qed
  have "t \<in> wh_Value ` set ws"
    if t: "ko_Type obj \<noteq> TypeContact" "\<not> projects v (ko_Type obj) FieldContent"
      "t \<in> {ko_RawContent obj, ko_TextContent obj}" "TrimSpace t \<noteq> []" "6 \<le> RuneCount t"
      "\<forall>k \<in> set (keptStrings out). \<not> Contains k t"
  proof -
    have "\<lparr>wh_Category = FieldContent, wh_Value = t\<rparr> \<in> set (withhold FieldContent [ko_RawContent obj, ko_TextContent obj])"
      using t(3,4) by (auto simp: withhold_def)
    then have "\<lparr>wh_Category = FieldContent, wh_Value = t\<rparr> \<in> set w"
      using generic_withholds_content [of "renderer_for v obj prov"] t(2) gen [OF t(1)] by auto
    from finish_loop_complete [OF this, of "keptStrings out" "[]"] t(5,6) w show ?thesis by simp
  qed
  then show ?thesis
    using finish_loop_props [of "[]" "keptStrings out" w] w by (auto simp: list_all_iff)
qed

theorem withheld_values_are_canaries_witness:
  "\<exists>out ws. Render sample_viewer (Some sample_object) (Some sample_provenance) = \<lparr>rn_Object = Some out, rn_Withheld = ws\<rparr> \<and>
     distinct (map wh_Value ws) \<and> length ws = 2 \<and> (\<forall>w \<in> set ws. 6 \<le> RuneCount (wh_Value w))"
  using sample_render withheld_values_are_canaries [OF sample_restricted sample_render] by auto

text \<open>
  A contact is rebuilt from its visible fields. In a restricted view of a contact the
  text is rebuilt from the fields that the plan projects and whose declared class it does
  not exclude; every metadata entry belongs to such a field; tags appear only when
  projected; stored texts, summaries, sections, decisions, tasks and mentions are absent;
  and each graph node is the card with its text rebuilt from visible card fields, or a note
  when the note is visible.
\<close>

theorem contact_rebuilt_from_visible_fields:
  assumes "\<not> IsUnrestricted v" and "ko_Type obj = TypeContact" and "rn_Object (Render v (Some obj) prov) = Some out"
  shows "\<exists>visible. set visible \<subseteq> {f. projects v TypeContact f \<and>
        (\<forall>c. map_of ContactFieldClasses f = Some c \<longrightarrow> \<not> ExcludesAny (Plan v) [c])} \<and>
     ko_RawContent out = RenderContact (Some obj) visible \<and>
     (\<forall>k \<in> fst ` set (ko_Metadata out). \<exists>f \<in> set visible. contact_key f = Some k) \<and>
     (ko_Tags out \<noteq> [] \<longrightarrow> ContactTags \<in> set visible) \<and>
     ko_TextContent out = [] \<and> ko_Summaries out = [] \<and> ko_Sections out = [] \<and> ko_Decisions out = [] \<and>
     ko_Tasks out = [] \<and> ko_Mentions out = [] \<and> ko_Source out = [] \<and>
     (\<forall>g. ko_Graph out = Some g \<longrightarrow> (\<forall>n \<in> set (graph_Nodes g).
        isCard n \<and> node_Content n = RenderContact (Some obj) (intersectStrings visible ContactCardFields) \<or>
        isNote n \<and> ContactNote \<in> set visible))"
proof -
  let ?r = "renderer_for v obj prov"
  let ?visible = "filter (contact_shown ?r) ContactFields"
  have vis: "fst (contactFields ?r) = ?visible" by (simp add: contactFields_def)
  have out: "out = fst (renderContact ?r (alwaysKeptCopy obj))"
    using assms(3) by (simp add: Render_contact [OF assms(1,2)] Let_def)
  have shown: "set ?visible \<subseteq> {f. projects v TypeContact f \<and>
        (\<forall>c. map_of ContactFieldClasses f = Some c \<longrightarrow> \<not> ExcludesAny (Plan v) [c])}"
    using assms(2) by (auto simp: contact_shown_def rd_excludes_def split: option.splits)
  have fieldsout: "ko_RawContent out = RenderContact (Some obj) ?visible"
    "ko_Metadata out = contactMetadata obj ?visible" "ko_Graph out = fst (contactGraph ?r ?visible)"
    "ko_Tags out = (if ContactTags \<in> set ?visible then ko_Tags obj else [])"
    "ko_TextContent out = [] \<and> ko_Summaries out = [] \<and> ko_Sections out = [] \<and> ko_Decisions out = [] \<and>
     ko_Tasks out = [] \<and> ko_Mentions out = [] \<and> ko_Source out = []"
    unfolding out by (simp_all add: renderContact_def contactFields_def Let_def split_beta)
  have "\<forall>k \<in> fst ` set (contactMetadata obj ?visible). \<exists>f \<in> set ?visible. contact_key f = Some k"
    by (auto simp: contactMetadata_def map_filter_def split: option.splits if_splits)
  moreover have "\<forall>g. ko_Graph out = Some g \<longrightarrow> (\<forall>n \<in> set (graph_Nodes g).
        isCard n \<and> node_Content n = RenderContact (Some obj) (intersectStrings ?visible ContactCardFields) \<or>
        isNote n \<and> ContactNote \<in> set ?visible)"
    using contactGraph_view [of ?r ?visible] fieldsout(3) by auto
  ultimately show ?thesis using shown fieldsout by (intro exI [of _ ?visible]) simp
qed

theorem contact_rebuilt_from_visible_fields_witness:
  "\<exists>out visible. rn_Object (Render sample_viewer (Some sample_contact) None) = Some out \<and>
     ko_RawContent out = ''Ana'' @ [CHR 0x0A] @ ''Email: ana@x.org'' \<and>
     ko_RawContent out = RenderContact (Some sample_contact) visible"
proof -
  let ?out = "zero_object\<lparr>ko_ID := ''c1'', ko_Type := ''contact'',
     ko_RawContent := ''Ana'' @ [CHR 0x0A] @ ''Email: ana@x.org'',
     ko_Metadata := [(''name'', GStr ''Ana''), (''email'', GStr ''ana@x.org'')]\<rparr>"
  have o: "rn_Object (Render sample_viewer (Some sample_contact) None) = Some ?out" by code_simp
  have t: "ko_Type sample_contact = TypeContact" by code_simp
  from contact_rebuilt_from_visible_fields [OF sample_restricted t o] o show ?thesis by auto
qed

end
