(* ===== verification/Share_Backstop.thy ===== *)
theory Share_Backstop
  imports Share_Render "HOL-Library.Product_Lexorder"
begin

text \<open>
  The request ledger (\<open>internal/sharing/ledger.go\<close>) and the response backstop
  (\<open>internal/sharing/backstop.go\<close>). A nil ledger is \<open>None\<close>; its sets are lists asked for
  membership. JSON text is encoded and decoded by a codec, an argument of the definitions
  that use it (the standard library's \<open>encoding/json\<close>): a decoded document is a \<open>gval\<close>.
  Go edits the decoded document in place and collects hits in its receiver; here each
  function returns the document and the hits it adds.

  The lemmas reduce the walk along path segments to single steps, show that what stays at
  the checked paths was released, that a clean response passes unchanged, and that withheld
  values are gone from every string.
\<close>

section \<open>The ledger\<close>

record Ledger =
  ld_objects :: "string list"
  ld_entities :: "string list"
  ld_edges :: "string list"
  ld_canaries :: "(string \<times> string) list"

definition NewLedger :: Ledger where
  "NewLedger = \<lparr>ld_objects = [], ld_entities = [], ld_edges = [], ld_canaries = []\<rparr>"

definition AddObject :: "string \<Rightarrow> Ledger option \<Rightarrow> Ledger option" where
  "AddObject i l = (if i = [] then l else map_option (\<lambda>x. x\<lparr>ld_objects := List.insert i (ld_objects x)\<rparr>) l)"

definition AddEntity :: "string \<Rightarrow> Ledger option \<Rightarrow> Ledger option" where
  "AddEntity slug l = (if slug = [] then l else map_option (\<lambda>x. x\<lparr>ld_entities := List.insert slug (ld_entities x)\<rparr>) l)"

definition AddEdge :: "string \<Rightarrow> Ledger option \<Rightarrow> Ledger option" where
  "AddEdge i l = (if i = [] then l else map_option (\<lambda>x. x\<lparr>ld_edges := List.insert i (ld_edges x)\<rparr>) l)"

definition AddWithheld :: "Withheld list \<Rightarrow> Ledger option \<Rightarrow> Ledger option" where
  "AddWithheld ws l =
     map_option (\<lambda>x. x\<lparr>ld_canaries := foldl (\<lambda>m w. AList.update (wh_Value w) (wh_Category w) m) (ld_canaries x) ws\<rparr>) l"

definition EntityURIPrefix :: string where "EntityURIPrefix = ''ctxt://entity/''"

definition HasObject :: "Ledger option \<Rightarrow> string \<Rightarrow> bool" where
  "HasObject l i = (case l of None \<Rightarrow> False | Some x \<Rightarrow> i \<in> set (ld_objects x))"

definition HasEntity :: "Ledger option \<Rightarrow> string \<Rightarrow> bool" where
  "HasEntity l slug = (case l of None \<Rightarrow> False | Some x \<Rightarrow> TrimPrefix slug EntityURIPrefix \<in> set (ld_entities x))"

definition HasEdge :: "Ledger option \<Rightarrow> string \<Rightarrow> bool" where
  "HasEdge l i = (case l of None \<Rightarrow> False | Some x \<Rightarrow> i \<in> set (ld_edges x))"

definition Ledger_Objects :: "Ledger option \<Rightarrow> string list" where
  "Ledger_Objects l = (case l of None \<Rightarrow> [] | Some x \<Rightarrow> sort (remdups (ld_objects x)))"

definition Ledger_Entities :: "Ledger option \<Rightarrow> string list" where
  "Ledger_Entities l = (case l of None \<Rightarrow> [] | Some x \<Rightarrow> sort (remdups (ld_entities x)))"

definition Ledger_Edges :: "Ledger option \<Rightarrow> string list" where
  "Ledger_Edges l = (case l of None \<Rightarrow> [] | Some x \<Rightarrow> sort (remdups (ld_edges x)))"

text \<open>\<open>Canaries\<close>: the longest value first, then by value.\<close>

definition Canaries :: "Ledger option \<Rightarrow> Withheld list" where
  "Canaries l =
     (case l of
        None \<Rightarrow> []
      | Some x \<Rightarrow>
          sort_key (\<lambda>w. (- int (length (wh_Value w)), wh_Value w))
            (map (\<lambda>(v, c). \<lparr>wh_Category = c, wh_Value = v\<rparr>) (AList.clearjunk (ld_canaries x))))"

definition Ledger_Empty :: "Ledger option \<Rightarrow> bool" where
  "Ledger_Empty l =
     (case l of
        None \<Rightarrow> True
      | Some x \<Rightarrow> ld_objects x = [] \<and> ld_entities x = [] \<and> ld_edges x = [] \<and> ld_canaries x = [])"

section \<open>Shapes and paths\<close>

datatype Shape = ShapeNone | ShapeObjects | ShapeEntities | ShapeMixed

datatype IDKind =
    KindObject | KindEntity | KindEdge | KindEndpoint | KindNodeID | KindNodeRef | KindGraphNodeKey

type_synonym IDPath = "string \<times> IDKind"

definition httpObjectPaths :: "IDPath list" where
  "httpObjectPaths =
     [(''id'', KindObject), (''data[].id'', KindObject), (''objects[].id'', KindObject),
      (''explain[].id'', KindObject), (''object_id'', KindObject), (''[].object_id'', KindObject),
      (''data[].object_id'', KindObject), (''data[].from'', KindObject), (''data[].edge.id'', KindEdge),
      (''data[].edge.from_id'', KindEndpoint), (''data[].edge.to_id'', KindEndpoint),
      (''graph.nodes[].id'', KindNodeID), (''data[].graph.nodes[].id'', KindNodeID),
      (''objects[].graph.nodes[].id'', KindNodeID), (''metadata.source_ids[]'', KindObject),
      (''data[].metadata.source_ids[]'', KindObject), (''objects[].metadata.source_ids[]'', KindObject),
      (''result.content[].text!json.results[].id'', KindObject)]"

definition httpEntityPaths :: "IDPath list" where
  "httpEntityPaths = [(''slug'', KindEntity), (''data[].slug'', KindEntity), (''entities[].slug'', KindEntity)]"

definition httpGraphPaths :: "IDPath list" where
  "httpGraphPaths = [(''nodes{}'', KindGraphNodeKey), (''edges[].source'', KindGraphNodeKey),
     (''edges[].target'', KindGraphNodeKey)]"

definition grpcObjectPaths :: "IDPath list" where
  "grpcObjectPaths =
     [(''id'', KindObject), (''objects[].id'', KindObject), (''graph.nodes[].id'', KindNodeID),
      (''objects[].graph.nodes[].id'', KindNodeID), (''results[].object.id'', KindObject),
      (''results[].object.graph.nodes[].id'', KindNodeID), (''results[].node_hits[].object_id'', KindObject),
      (''results[].node_hits[].node_ref'', KindNodeRef)]"

definition grpcEntityPaths :: "IDPath list" where
  "grpcEntityPaths = [(''slug'', KindEntity), (''entities[].slug'', KindEntity)]"

definition HTTPPaths :: "Shape \<Rightarrow> IDPath list" where
  "HTTPPaths shape =
     (case shape of
        ShapeObjects \<Rightarrow> httpObjectPaths
      | ShapeEntities \<Rightarrow> httpEntityPaths
      | ShapeMixed \<Rightarrow> httpObjectPaths @ httpEntityPaths @ httpGraphPaths
      | ShapeNone \<Rightarrow> [])"

definition GRPCPaths :: "Shape \<Rightarrow> IDPath list" where
  "GRPCPaths shape =
     (case shape of
        ShapeObjects \<Rightarrow> grpcObjectPaths
      | ShapeEntities \<Rightarrow> grpcEntityPaths
      | ShapeMixed \<Rightarrow> grpcObjectPaths @ grpcEntityPaths
      | ShapeNone \<Rightarrow> [])"

record segment =
  seg_key :: string
  seg_array :: bool
  seg_mapKeys :: bool
  seg_json :: bool

definition parse_segment :: "string \<Rightarrow> segment" where
  "parse_segment tok =
     (if tok = ''[]'' then \<lparr>seg_key = [], seg_array = True, seg_mapKeys = False, seg_json = False\<rparr>
      else if HasSuffix tok ''[]'' then
        \<lparr>seg_key = TrimSuffix tok ''[]'', seg_array = True, seg_mapKeys = False, seg_json = False\<rparr>
      else if HasSuffix tok ''{}'' then
        \<lparr>seg_key = TrimSuffix tok ''{}'', seg_array = False, seg_mapKeys = True, seg_json = False\<rparr>
      else if HasSuffix tok ''!json'' then
        \<lparr>seg_key = TrimSuffix tok ''!json'', seg_array = False, seg_mapKeys = False, seg_json = True\<rparr>
      else \<lparr>seg_key = tok, seg_array = False, seg_mapKeys = False, seg_json = False\<rparr>)"

definition parsePath :: "string \<Rightarrow> segment list" where
  "parsePath path = map parse_segment (Split path (CHR ''.''))"

section \<open>The walk\<close>

definition allowed :: "Ledger option \<Rightarrow> string \<Rightarrow> IDKind \<Rightarrow> bool" where
  "allowed l value kind =
     (if value = [] then True
      else case kind of
             KindObject \<Rightarrow> HasObject l value
           | KindEntity \<Rightarrow> HasEntity l value
           | KindEdge \<Rightarrow> HasEdge l value
           | KindEndpoint \<Rightarrow> HasObject l value \<or> HasEntity l value
           | KindNodeID \<Rightarrow> HasObject l (Cut_before (CHR ''/'') value)
           | KindNodeRef \<Rightarrow> HasObject l (Cut_before (CHR ''/'') (TrimPrefix value ''ctxt:node/''))
           | KindGraphNodeKey \<Rightarrow>
               (if value = ''query'' then True
                else if HasPrefix value ''obj:'' then HasObject l (TrimPrefix value ''obj:'')
                else if HasPrefix value ''ent:'' then HasEntity l (TrimPrefix value ''ent:'')
                else False))"

record codec =
  jc_decode :: "string \<Rightarrow> gval option"
  jc_encode :: "gval \<Rightarrow> string"

fun canary_loop :: "Withheld list \<Rightarrow> string \<Rightarrow> string \<times> string list" where
  "canary_loop [] s = (s, [])"
| "canary_loop (c # cs) s =
     (if Contains s (wh_Value c) then
        (case canary_loop cs (ReplaceAll s (wh_Value c) (''['' @ wh_Category c @ '']'')) of
           (s', hits) \<Rightarrow> (s', (''canary:'' @ wh_Category c) # hits))
      else canary_loop cs s)"

text \<open>\<open>canaryTree\<close>: the strings of a document, not the keys of its maps.\<close>

fun canary_walk :: "Withheld list \<Rightarrow> gval \<Rightarrow> gval \<times> string list" where
  "canary_walk cs (GStr s) = (GStr (fst (canary_loop cs s)), snd (canary_loop cs s))"
| "canary_walk cs (GObj m) =
     (GObj (map (\<lambda>kv. (fst kv, fst (canary_walk cs (snd kv)))) m),
      concat (map (\<lambda>kv. snd (canary_walk cs (snd kv))) m))"
| "canary_walk cs (GArr xs) =
     (GArr (map (\<lambda>x. fst (canary_walk cs x)) xs), concat (map (\<lambda>x. snd (canary_walk cs x)) xs))"
| "canary_walk cs v = (v, [])"

definition canaryTree :: "Withheld list \<Rightarrow> gval \<Rightarrow> gval \<times> string list" where
  "canaryTree cs v = (if cs = [] then (v, []) else canary_walk cs v)"

record run =
  rn_codec :: codec
  rn_ledger :: "Ledger option"
  rn_kind :: IDKind
  rn_path :: string

text \<open>\<open>applyArray\<close> over the results of its elements: stripped elements are left out.\<close>

definition applyArray :: "(gval \<Rightarrow> gval \<times> bool \<times> string list) \<Rightarrow> gval \<Rightarrow> gval \<times> string list" where
  "applyArray f node =
     (case node of
        GArr xs \<Rightarrow>
          (GArr (map (\<lambda>x. fst (f x)) (filter (\<lambda>x. \<not> fst (snd (f x))) xs)),
           concat (map (\<lambda>x. snd (snd (f x))) xs))
      | _ \<Rightarrow> (node, []))"

fun apply_path :: "run \<Rightarrow> segment list \<Rightarrow> gval \<Rightarrow> gval \<times> bool \<times> string list" where
  "apply_path b [] node =
     (case node of
        GStr s \<Rightarrow>
          (if allowed (rn_ledger b) s (rn_kind b) then (node, False, [])
           else (GNil, True, [rn_path b @ ''='' @ s]))
      | _ \<Rightarrow> (node, False, []))"
| "apply_path b (seg # segs) node =
     (if seg_key seg = [] then
        (if \<not> seg_array seg then (node, False, [])
         else (case applyArray (apply_path b segs) node of (n, h) \<Rightarrow> (n, False, h)))
      else
        (case node of
           GObj m \<Rightarrow>
             (case map_of m (seg_key seg) of
                None \<Rightarrow> (node, False, [])
              | Some child \<Rightarrow>
                  (if seg_array seg then
                     (case applyArray (apply_path b segs) child of
                        (c, h) \<Rightarrow> (GObj (AList.update (seg_key seg) c m), False, h))
                   else if seg_mapKeys seg then
                     (case child of
                        GObj cm \<Rightarrow>
                          (GObj (AList.update (seg_key seg)
                             (GObj (filter (\<lambda>kv. allowed (rn_ledger b) (fst kv) (rn_kind b)) cm)) m),
                           False,
                           map (\<lambda>kv. rn_path b @ ''='' @ fst kv)
                             (filter (\<lambda>kv. \<not> allowed (rn_ledger b) (fst kv) (rn_kind b)) cm))
                      | _ \<Rightarrow> (node, False, []))
                   else if seg_json seg then
                     (case child of
                        GStr s \<Rightarrow>
                          (case jc_decode (rn_codec b) s of
                             None \<Rightarrow> (node, False, [])
                           | Some inner \<Rightarrow>
                               (case apply_path b segs inner of
                                  (inner', _, h) \<Rightarrow>
                                    (case canaryTree (Canaries (rn_ledger b)) inner' of
                                       (inner'', h') \<Rightarrow>
                                         (GObj (AList.update (seg_key seg) (GStr (jc_encode (rn_codec b) inner'')) m),
                                          False, h @ h'))))
                      | _ \<Rightarrow> (node, False, []))
                   else
                     (case apply_path b segs child of
                        (res, strip, h) \<Rightarrow>
                          (if strip then (node, True, h)
                           else (GObj (AList.update (seg_key seg) res m), False, h)))))
         | _ \<Rightarrow> (node, False, [])))"

section \<open>Backstop\<close>

datatype BackstopError = ErrNotJSON

record BackstopResult =
  bs_Body :: string
  bs_Hits :: "string list"
  bs_Absent :: bool

text \<open>The loop over the paths: the document, whether it is absent, the hits.\<close>

fun walk_paths :: "codec \<Rightarrow> Ledger option \<Rightarrow> IDPath list \<Rightarrow> gval \<Rightarrow> gval \<times> bool \<times> string list" where
  "walk_paths cd l [] doc = (doc, False, [])"
| "walk_paths cd l (p # ps) doc =
     (case apply_path \<lparr>rn_codec = cd, rn_ledger = l, rn_kind = snd p, rn_path = fst p\<rparr> (parsePath (fst p)) doc of
        (doc1, strip, h) \<Rightarrow>
          (case walk_paths cd l ps doc1 of (doc2, absent, h2) \<Rightarrow> (doc2, strip \<or> absent, h @ h2)))"

definition Backstop :: "codec \<Rightarrow> string \<Rightarrow> IDPath list \<Rightarrow> Ledger option \<Rightarrow> BackstopError + BackstopResult" where
  "Backstop cd body paths l =
     (if TrimSpace body = [] then Inr \<lparr>bs_Body = body, bs_Hits = [], bs_Absent = False\<rparr>
      else case jc_decode cd body of
             None \<Rightarrow>
               (if paths \<noteq> [] then Inl ErrNotJSON
                else (case canary_loop (Canaries l) body of
                        (out, h) \<Rightarrow> Inr \<lparr>bs_Body = out, bs_Hits = h, bs_Absent = False\<rparr>))
           | Some doc \<Rightarrow>
               (case walk_paths cd l paths doc of
                  (doc1, absent, h1) \<Rightarrow>
                    (case canaryTree (Canaries l) doc1 of
                       (doc2, h2) \<Rightarrow>
                         Inr \<lparr>bs_Body = jc_encode cd doc2, bs_Hits = h1 @ h2, bs_Absent = absent\<rparr>)))"

section \<open>Paths as single steps\<close>

text \<open>
  A segment is one or two steps: into a key, over the elements of an array, over the keys of
  a map, into an embedded document, or nowhere. \<open>apply_steps\<close> walks single steps.
\<close>

datatype step = Key string | Elems | Keys | Embedded | Stop

definition segment_steps :: "segment \<Rightarrow> step list" where
  "segment_steps seg =
     (if seg_key seg = [] then (if seg_array seg then [Elems] else [Stop])
      else Key (seg_key seg) #
        (if seg_array seg then [Elems] else if seg_mapKeys seg then [Keys]
         else if seg_json seg then [Embedded] else []))"

definition path_steps :: "segment list \<Rightarrow> step list" where
  "path_steps segs = concat (map segment_steps segs)"

fun apply_steps :: "run \<Rightarrow> step list \<Rightarrow> gval \<Rightarrow> gval \<times> bool \<times> string list" where
  "apply_steps b [] node =
     (case node of
        GStr s \<Rightarrow>
          (if allowed (rn_ledger b) s (rn_kind b) then (node, False, [])
           else (GNil, True, [rn_path b @ ''='' @ s]))
      | _ \<Rightarrow> (node, False, []))"
| "apply_steps b (Key k # ss) node =
     (case node of
        GObj m \<Rightarrow>
          (case map_of m k of
             None \<Rightarrow> (node, False, [])
           | Some child \<Rightarrow>
               (case apply_steps b ss child of
                  (res, strip, h) \<Rightarrow> if strip then (node, True, h) else (GObj (AList.update k res m), False, h)))
      | _ \<Rightarrow> (node, False, []))"
| "apply_steps b (Elems # ss) node =
     (case applyArray (apply_steps b ss) node of (n, h) \<Rightarrow> (n, False, h))"
| "apply_steps b (Keys # ss) node =
     (case node of
        GObj cm \<Rightarrow>
          (GObj (filter (\<lambda>kv. allowed (rn_ledger b) (fst kv) (rn_kind b)) cm), False,
           map (\<lambda>kv. rn_path b @ ''='' @ fst kv) (filter (\<lambda>kv. \<not> allowed (rn_ledger b) (fst kv) (rn_kind b)) cm))
      | _ \<Rightarrow> (node, False, []))"
| "apply_steps b (Embedded # ss) node =
     (case node of
        GStr s \<Rightarrow>
          (case jc_decode (rn_codec b) s of
             None \<Rightarrow> (node, False, [])
           | Some inner \<Rightarrow>
               (case apply_steps b ss inner of
                  (inner', _, h) \<Rightarrow>
                    (case canaryTree (Canaries (rn_ledger b)) inner' of
                       (inner'', h') \<Rightarrow> (GStr (jc_encode (rn_codec b) inner''), False, h @ h'))))
      | _ \<Rightarrow> (node, False, []))"
| "apply_steps b (Stop # ss) node = (node, False, [])"

lemma update_same: "map_of m k = Some v \<Longrightarrow> AList.update k v m = m"
  by (induction m) auto

lemma apply_path_steps: "apply_path b segs node = apply_steps b (path_steps segs) node"
proof (induction segs arbitrary: node)
  case Nil
  show ?case by (simp add: path_steps_def)
next
  case (Cons seg segs)
  have fn: "apply_path b segs = apply_steps b (path_steps segs)" using Cons.IH by auto
  have ps: "path_steps (seg # segs) = segment_steps seg @ path_steps segs" by (simp add: path_steps_def)
  show ?case
    unfolding ps
    by (simp add: segment_steps_def fn update_same split: gval.splits option.splits prod.splits)
qed

section \<open>What a path reads\<close>

text \<open>The strings a path leads to in a document; nothing inside an embedded document.\<close>

fun values_at :: "step list \<Rightarrow> gval \<Rightarrow> string list" where
  "values_at [] node = (case node of GStr s \<Rightarrow> [s] | _ \<Rightarrow> [])"
| "values_at (Key k # ss) node =
     (case node of GObj m \<Rightarrow> (case map_of m k of None \<Rightarrow> [] | Some c \<Rightarrow> values_at ss c) | _ \<Rightarrow> [])"
| "values_at (Elems # ss) node = (case node of GArr xs \<Rightarrow> concat (map (values_at ss) xs) | _ \<Rightarrow> [])"
| "values_at (Keys # ss) node = (case node of GObj m \<Rightarrow> map fst m | _ \<Rightarrow> [])"
| "values_at (Embedded # ss) node = []"
| "values_at (Stop # ss) node = []"

fun before_embedded :: "step list \<Rightarrow> step list option" where
  "before_embedded [] = None"
| "before_embedded (Embedded # ss) = Some []"
| "before_embedded (s # ss) = map_option (Cons s) (before_embedded ss)"

lemma values_at_not_string [simp]: "values_at (s # ss) (GStr x) = []" "values_at ss GNil = []"
  by (cases s; simp)+ (cases ss; cases "hd ss"; simp)

lemma map_of_filter_keys: "map_of (filter (\<lambda>kv. P (fst kv)) m) k = (if P k then map_of m k else None)"
  by (induction m) auto

lemma keys_update: "map_of m k = Some v \<Longrightarrow> map fst (AList.update k w m) = map fst m"
  by (induction m) auto

text \<open>Walking one path takes nothing to another path's places.\<close>

lemma values_at_apply:
  "before_embedded q \<noteq> Some p \<Longrightarrow> set (values_at p (fst (apply_steps b q d))) \<subseteq> set (values_at p d)"
proof (induction b q d arbitrary: p rule: apply_steps.induct)
  case (1 b node)
  then show ?case by (cases node) auto
next
  case (2 b k ss node)
  show ?case
  proof (cases node)
    case (GObj m)
    show ?thesis
    proof (cases "map_of m k")
      case None
      with GObj show ?thesis by simp
    next
      case (Some c)
      obtain res strip h where a: "apply_steps b ss c = (res, strip, h)" by (metis prod.exhaust)
      have ih: "before_embedded ss \<noteq> Some p' \<Longrightarrow> set (values_at p' res) \<subseteq> set (values_at p' c)" for p'
        using "2.IH" [OF GObj Some, of p'] a by simp
      show ?thesis
      proof (cases p)
        case Nil
        with GObj Some a show ?thesis by simp
      next
        case (Cons s p')
        show ?thesis
        proof (cases s)
          case (Key k')
          show ?thesis
          proof (cases "k' = k")
            case True
            with "2.prems" Cons Key have "before_embedded ss \<noteq> Some p'" by auto
            from ih [OF this] Cons Key True GObj Some a show ?thesis by (auto simp: update_conv')
          next
            case False
            with Cons Key GObj Some a show ?thesis by (simp add: update_conv')
          qed
        next
          case Keys
          have "fst ` set (AList.update k res m) = fst ` set m"
            using keys_update [OF Some, of res] by (metis set_map)
          with Keys Cons GObj Some a show ?thesis by simp
        qed (use Cons GObj Some a in simp_all)
      qed
    qed
  qed simp_all
next
  case (3 b ss node)
  show ?case
  proof (cases node)
    case (GArr xs)
    show ?thesis
    proof (cases p)
      case (Cons s p')
      show ?thesis
      proof (cases s)
        case Elems
        with "3.prems" Cons have np: "before_embedded ss \<noteq> Some p'" by auto
        have "set (values_at p' (fst (apply_steps b ss x))) \<subseteq> set (values_at p' x)" if "x \<in> set xs" for x
          using "3.IH" np by blast
        with Cons Elems GArr show ?thesis by (fastforce simp: applyArray_def)
      qed (use Cons GArr in \<open>simp_all add: applyArray_def\<close>)
    qed (use GArr in \<open>simp add: applyArray_def\<close>)
  qed (simp_all add: applyArray_def)
next
  case (4 b ss node)
  show ?case
  proof (cases node)
    case (GObj m)
    show ?thesis
    proof (cases p)
      case (Cons s p')
      with GObj show ?thesis
        by (cases s) (auto simp: map_of_filter_keys [of "\<lambda>k. allowed (rn_ledger b) k (rn_kind b)"])
    qed (use GObj in simp)
  qed simp_all
next
  case (5 b ss node)
  then show ?case
    by (cases node; cases p) (auto split: option.splits prod.splits)
next
  case (6 b ss node)
  then show ?case by simp
qed

text \<open>What stays at a walked path was allowed there.\<close>

lemma values_at_allowed:
  "apply_steps b q d = (d', False, h) \<Longrightarrow> v \<in> set (values_at q d') \<Longrightarrow> allowed (rn_ledger b) v (rn_kind b)"
proof (induction b q d arbitrary: d' h v rule: apply_steps.induct)
  case (1 b node)
  then show ?case by (auto split: gval.splits if_splits)
next
  case (2 b k ss node)
  then show ?case by (auto simp: update_conv' split: gval.splits option.splits prod.splits if_splits)
next
  case (3 b ss node)
  show ?case
  proof (cases node)
    case (GArr xs)
    from "3.prems" GArr obtain x where x: "x \<in> set xs" "\<not> fst (snd (apply_steps b ss x))"
      "v \<in> set (values_at ss (fst (apply_steps b ss x)))" by (auto simp: applyArray_def)
    then have "apply_steps b ss x = (fst (apply_steps b ss x), False, snd (snd (apply_steps b ss x)))"
      by (metis prod.collapse)
    from "3.IH" [OF this x(3)] show ?thesis .
  qed (use "3.prems" in \<open>auto simp: applyArray_def\<close>)
next
  case (4 b ss node)
  then show ?case by (auto split: gval.splits)
qed auto

text \<open>A document whose places are all allowed is left alone, when nothing is embedded.\<close>

lemma apply_steps_clean:
  assumes "\<forall>v \<in> set (values_at q d). allowed (rn_ledger b) v (rn_kind b)" and "before_embedded q = None"
  shows "apply_steps b q d = (d, False, [])"
  using assms
proof (induction b q d rule: apply_steps.induct)
  case (2 b k ss node)
  then show ?case by (auto simp: update_same split: gval.splits option.splits prod.splits)
next
  case (3 b ss node)
  show ?case
  proof (cases node)
    case (GArr xs)
    have "apply_steps b ss x = (x, False, [])" if "x \<in> set xs" for x
      using 3 that GArr by auto
    then have "filter (\<lambda>x. \<not> fst (snd (apply_steps b ss x))) xs = xs"
      and "map (\<lambda>x. fst (apply_steps b ss x)) xs = xs" and "concat (map (\<lambda>x. snd (snd (apply_steps b ss x))) xs) = []"
      by (auto simp: filter_id_conv map_idI)
    with GArr show ?thesis by (simp add: applyArray_def)
  qed (simp_all add: applyArray_def)
next
  case (4 b ss node)
  then show ?case by (auto simp: filter_id_conv filter_empty_conv split: gval.splits)
qed (auto split: gval.splits)

section \<open>All paths of a response\<close>

abbreviation steps_of :: "IDPath \<Rightarrow> step list" where
  "steps_of p \<equiv> path_steps (parsePath (fst p))"

definition run_of :: "codec \<Rightarrow> Ledger option \<Rightarrow> IDPath \<Rightarrow> run" where
  "run_of cd l p = \<lparr>rn_codec = cd, rn_ledger = l, rn_kind = snd p, rn_path = fst p\<rparr>"

text \<open>No path of the list reads the string another path decodes an embedded document from.\<close>

definition independent :: "IDPath list \<Rightarrow> bool" where
  "independent ps =
     (let ss = map steps_of ps
      in list_all (\<lambda>q. case before_embedded q of None \<Rightarrow> True | Some pre \<Rightarrow> pre \<notin> set ss) ss)"

lemma independentD:
  "independent ps \<Longrightarrow> p \<in> set ps \<Longrightarrow> q \<in> set ps \<Longrightarrow> before_embedded (steps_of q) \<noteq> Some (steps_of p)"
  by (fastforce simp: independent_def Let_def list_all_iff split: option.splits)

lemma walk_paths_Cons:
  assumes "walk_paths cd l (p # ps) d = (d2, False, h)"
  obtains d1 h1 h2 where "apply_steps (run_of cd l p) (steps_of p) d = (d1, False, h1)"
    "walk_paths cd l ps d1 = (d2, False, h2)"
  using assms by (auto simp: apply_path_steps run_of_def split: prod.splits)

lemma walk_paths_keeps:
  assumes "\<forall>q \<in> set ps. before_embedded (steps_of q) \<noteq> Some p"
  shows "set (values_at p (fst (walk_paths cd l ps d))) \<subseteq> set (values_at p d)"
  using assms
proof (induction ps arbitrary: d)
  case (Cons q ps)
  let ?a = "apply_steps (run_of cd l q) (steps_of q) d"
  have "fst (walk_paths cd l (q # ps) d) = fst (walk_paths cd l ps (fst ?a))"
    by (simp add: apply_path_steps run_of_def split: prod.splits)
  moreover have "set (values_at p (fst ?a)) \<subseteq> set (values_at p d)" using Cons.prems by (intro values_at_apply) simp
  moreover have "set (values_at p (fst (walk_paths cd l ps (fst ?a)))) \<subseteq> set (values_at p (fst ?a))"
    using Cons by simp
  ultimately show ?case by simp
qed simp

lemma walk_paths_allowed:
  assumes "\<forall>p \<in> set ps. \<forall>q \<in> set ps. before_embedded (steps_of q) \<noteq> Some (steps_of p)"
    and "walk_paths cd l ps d = (d', False, h)" and "p \<in> set ps" and "v \<in> set (values_at (steps_of p) d')"
  shows "allowed l v (snd p)"
  using assms
proof (induction ps arbitrary: d h)
  case (Cons q ps)
  from Cons.prems(2) obtain d1 h1 h2 where
    a: "apply_steps (run_of cd l q) (steps_of q) d = (d1, False, h1)" and w: "walk_paths cd l ps d1 = (d', False, h2)"
    by (rule walk_paths_Cons)
  show ?case
  proof (cases "p \<in> set ps")
    case True
    with Cons w show ?thesis by auto
  next
    case False
    with Cons.prems(3) have p: "p = q" by simp
    have "v \<in> set (values_at (steps_of q) d1)"
      using walk_paths_keeps [of ps "steps_of q" cd l d1] w Cons.prems(1,4) p by auto
    from values_at_allowed [OF a this] p show ?thesis by (simp add: run_of_def)
  qed
qed simp

lemma walk_paths_clean:
  assumes "\<forall>p \<in> set ps. before_embedded (steps_of p) = None \<and> (\<forall>v \<in> set (values_at (steps_of p) d). allowed l v (snd p))"
  shows "walk_paths cd l ps d = (d, False, [])"
  using assms
proof (induction ps)
  case (Cons p ps)
  have "apply_steps (run_of cd l p) (steps_of p) d = (d, False, [])"
    using Cons.prems by (intro apply_steps_clean) (simp_all add: run_of_def)
  with Cons show ?case by (simp add: apply_path_steps run_of_def)
qed simp

text \<open>The path tables, as the single steps they stand for.\<close>

lemma http_object_steps: "map steps_of httpObjectPaths =
  [[Key ''id''], [Key ''data'', Elems, Key ''id''], [Key ''objects'', Elems, Key ''id''],
   [Key ''explain'', Elems, Key ''id''], [Key ''object_id''], [Elems, Key ''object_id''],
   [Key ''data'', Elems, Key ''object_id''], [Key ''data'', Elems, Key ''from''],
   [Key ''data'', Elems, Key ''edge'', Key ''id''], [Key ''data'', Elems, Key ''edge'', Key ''from_id''],
   [Key ''data'', Elems, Key ''edge'', Key ''to_id''], [Key ''graph'', Key ''nodes'', Elems, Key ''id''],
   [Key ''data'', Elems, Key ''graph'', Key ''nodes'', Elems, Key ''id''],
   [Key ''objects'', Elems, Key ''graph'', Key ''nodes'', Elems, Key ''id''],
   [Key ''metadata'', Key ''source_ids'', Elems],
   [Key ''data'', Elems, Key ''metadata'', Key ''source_ids'', Elems],
   [Key ''objects'', Elems, Key ''metadata'', Key ''source_ids'', Elems],
   [Key ''result'', Key ''content'', Elems, Key ''text'', Embedded, Key ''results'', Elems, Key ''id'']]"
  by code_simp

lemma http_entity_steps:
  "map steps_of httpEntityPaths = [[Key ''slug''], [Key ''data'', Elems, Key ''slug''], [Key ''entities'', Elems, Key ''slug'']]"
  by code_simp

lemma http_graph_steps:
  "map steps_of httpGraphPaths = [[Key ''nodes'', Keys], [Key ''edges'', Elems, Key ''source''], [Key ''edges'', Elems, Key ''target'']]"
  by code_simp

lemma grpc_object_steps: "map steps_of grpcObjectPaths = [[Key ''id''], [Key ''objects'', Elems, Key ''id''],
   [Key ''graph'', Key ''nodes'', Elems, Key ''id''], [Key ''objects'', Elems, Key ''graph'', Key ''nodes'', Elems, Key ''id''],
   [Key ''results'', Elems, Key ''object'', Key ''id''],
   [Key ''results'', Elems, Key ''object'', Key ''graph'', Key ''nodes'', Elems, Key ''id''],
   [Key ''results'', Elems, Key ''node_hits'', Elems, Key ''object_id''],
   [Key ''results'', Elems, Key ''node_hits'', Elems, Key ''node_ref'']]" by code_simp

lemma grpc_entity_steps: "map steps_of grpcEntityPaths = [[Key ''slug''], [Key ''entities'', Elems, Key ''slug'']]" by code_simp

lemma paths_independent:
  "independent (HTTPPaths shape)" "independent (GRPCPaths shape)"
  by (cases shape; simp add: independent_def HTTPPaths_def GRPCPaths_def http_object_steps
      http_entity_steps http_graph_steps grpc_object_steps grpc_entity_steps)+

section \<open>Canaries\<close>

lemma values_at_canary:
  assumes "Keys \<notin> set p"
  shows "values_at p (fst (canary_walk cs d)) = map (\<lambda>s. fst (canary_loop cs s)) (values_at p d)"
  using assms
proof (induction p d rule: values_at.induct)
  case (1 node)
  then show ?case by (cases node) auto
next
  case (2 k ss node)
  show ?case
  proof (cases node)
    case (GObj m)
    have "map_of (map (\<lambda>kv. (fst kv, fst (canary_walk cs (snd kv)))) m) k =
        map_option (\<lambda>v. fst (canary_walk cs v)) (map_of m k)" by (induction m) auto
    with 2 GObj show ?thesis by (auto split: option.splits)
  qed auto
next
  case (3 ss node)
  show ?case
  proof (cases node)
    case (GArr xs)
    with 3 have "values_at ss (fst (canary_walk cs x)) = map (\<lambda>s. fst (canary_loop cs s)) (values_at ss x)"
      if "x \<in> set xs" for x using that by auto
    with GArr show ?thesis by (induction xs) (auto simp: map_concat o_def cong: map_cong)
  qed auto
qed auto

lemma Contains_at: "Contains (a @ c # b) v \<Longrightarrow> c \<notin> set v \<Longrightarrow> v \<noteq> [] \<Longrightarrow> Contains a v \<or> Contains b v"
proof -
  assume "Contains (a @ c # b) v" and c: "c \<notin> set v" and "v \<noteq> []"
  then obtain x y where xy: "a @ c # b = x @ v @ y" by (auto simp: Contains_iff)
  from xy obtain us where "a = x @ us \<and> us @ c # b = v @ y \<or> a @ us = x \<and> c # b = us @ v @ y"
    by (auto simp: append_eq_append_conv2)
  then show ?thesis
  proof (elim disjE conjE)
    assume a: "a = x @ us" and r: "us @ c # b = v @ y"
    from r obtain ws where "us = v @ ws \<and> ws @ c # b = y \<or> us @ ws = v \<and> c # b = ws @ y"
      by (auto simp: append_eq_append_conv2)
    then show ?thesis
    proof (elim disjE conjE)
      assume "us = v @ ws"
      with a show ?thesis by (auto simp: Contains_iff)
    next
      assume "us @ ws = v" and "c # b = ws @ y"
      with c have "ws = []" by (cases ws) auto
      with \<open>us @ ws = v\<close> a show ?thesis by (auto simp: Contains_iff intro: exI [of _ "[]"])
    qed
  next
    assume "c # b = us @ v @ y"
    then show ?thesis using c \<open>v \<noteq> []\<close> by (cases us) (auto simp: Contains_iff Cons_eq_append_conv)
  qed
qed

lemma replace_prefix:
  "HasPrefix (replace_nonempty s old (CHR ''['' # t)) v \<Longrightarrow> CHR ''['' \<notin> set v \<Longrightarrow> HasPrefix s v"
proof (induction s old "CHR ''['' # t" arbitrary: v rule: replace_nonempty.induct)
  case (2 x xs old)
  then show ?case by (cases v) (auto split: if_splits)
qed simp

lemma Contains_drop: "Contains (drop n s) v \<Longrightarrow> Contains s v"
  by (metis Contains_append_left append_take_drop_id)

lemma Contains_token:
  assumes "Contains (''['' @ cat @ '']'' @ r) v" and "v \<noteq> []" and "CHR ''['' \<notin> set v" and "CHR '']'' \<notin> set v"
  shows "Contains cat v \<or> Contains r v"
proof -
  have "Contains ([] @ CHR ''['' # (cat @ CHR '']'' # r)) v" using assms(1) by simp
  from Contains_at [OF this assms(3,2)] assms(2) have "Contains (cat @ CHR '']'' # r) v" by auto
  from Contains_at [OF this assms(4,2)] show ?thesis .
qed

lemma replace_no_new:
  assumes "v \<noteq> []" and "CHR ''['' \<notin> set v" and "CHR '']'' \<notin> set v" and "\<not> Contains cat v"
  shows "Contains (replace_nonempty s old (''['' @ cat @ '']'')) v \<Longrightarrow> Contains s v"
proof (induction s old "''['' @ cat @ '']''" rule: replace_nonempty.induct)
  case (2 x xs old)
  show ?case
  proof (cases "old \<noteq> [] \<and> HasPrefix (x # xs) old")
    case True
    with "2.prems" have "Contains (''['' @ cat @ '']'' @ replace_nonempty (drop (length old) (x # xs)) old (''['' @ cat @ '']'')) v"
      by simp
    from Contains_token [OF this assms(1-3)] assms(4)
    have "Contains (replace_nonempty (drop (length old) (x # xs)) old (''['' @ cat @ '']'')) v" by blast
    from "2.hyps"(1) [OF True this] show ?thesis by (rule Contains_drop)
  next
    case False
    with "2.prems" have "Contains (x # replace_nonempty xs old (''['' @ cat @ '']'')) v" by auto
    then consider "HasPrefix (x # replace_nonempty xs old (''['' @ cat @ '']'')) v"
      | "Contains (replace_nonempty xs old (''['' @ cat @ '']'')) v" by auto
    then show ?thesis
    proof cases
      case 1
      with assms(1) obtain v' where v: "v = x # v'" "HasPrefix (replace_nonempty xs old (''['' @ cat @ '']'')) v'"
        by (cases v) auto
      with assms(2) replace_prefix [of xs old "cat @ '']''" v'] have "HasPrefix xs v'" by simp
      with v show ?thesis by simp
    next
      case 2
      with "2.hyps"(2) [OF False] show ?thesis by simp
    qed
  qed
qed simp

lemma replace_removes:
  assumes "v \<noteq> []" and "CHR ''['' \<notin> set v" and "CHR '']'' \<notin> set v" and "\<not> Contains cat v"
  shows "\<not> Contains (replace_nonempty s v (''['' @ cat @ '']'')) v"
proof (induction s rule: length_induct)
  case (1 s)
  show ?case
  proof (cases s)
    case Nil
    with assms(1) show ?thesis by simp
  next
    case (Cons x xs)
    show ?thesis
    proof (cases "HasPrefix (x # xs) v")
      case True
      have "length (drop (length v) (x # xs)) < length s"
        using assms(1) Cons by (cases v) (simp_all add: less_Suc_eq_le)
      then have "\<not> Contains (replace_nonempty (drop (length v) (x # xs)) v (''['' @ cat @ '']'')) v" using 1 by blast
      then have "\<not> Contains (''['' @ cat @ '']'' @ replace_nonempty (drop (length v) (x # xs)) v (''['' @ cat @ '']'')) v"
        using Contains_token assms by blast
      with True Cons assms(1) show ?thesis by simp
    next
      case False
      obtain y vs where v: "v = y # vs" using assms(1) by (cases v) auto
      have "\<not> HasPrefix (x # replace_nonempty xs v (''['' @ cat @ '']'')) v"
      proof
        assume "HasPrefix (x # replace_nonempty xs v (''['' @ cat @ '']'')) v"
        with v have "x = y" "HasPrefix (replace_nonempty xs v (''['' @ cat @ '']'')) vs" by auto
        with replace_prefix [of xs v "cat @ '']''" vs] assms(2) v have "HasPrefix xs vs" by simp
        with \<open>x = y\<close> v False show False by simp
      qed
      moreover have "\<not> Contains (replace_nonempty xs v (''['' @ cat @ '']'')) v" using 1 Cons by simp
      ultimately show ?thesis using False Cons by simp
    qed
  qed
qed

text \<open>
  Canaries fit for removal: no value is empty or holds a bracket, and none occurs in a
  category name.
\<close>

definition plain_canaries :: "Withheld list \<Rightarrow> bool" where
  "plain_canaries cs \<longleftrightarrow>
     (\<forall>c \<in> set cs. wh_Value c \<noteq> [] \<and> CHR ''['' \<notin> set (wh_Value c) \<and> CHR '']'' \<notin> set (wh_Value c) \<and>
        (\<forall>d \<in> set cs. \<not> Contains (wh_Category d) (wh_Value c)))"

lemma canary_loop_no_new:
  assumes "v \<noteq> []" "CHR ''['' \<notin> set v" "CHR '']'' \<notin> set v" "\<forall>c \<in> set cs. \<not> Contains (wh_Category c) v \<and> wh_Value c \<noteq> []"
  shows "Contains (fst (canary_loop cs s)) v \<Longrightarrow> Contains s v"
  using assms(4)
proof (induction cs arbitrary: s)
  case (Cons c cs)
  show ?case
  proof (cases "Contains s (wh_Value c)")
    case True
    with Cons.prems(1) have "Contains (fst (canary_loop cs (ReplaceAll s (wh_Value c) (''['' @ wh_Category c @ '']'')))) v"
      by (simp split: prod.splits)
    with Cons have "Contains (ReplaceAll s (wh_Value c) (''['' @ wh_Category c @ '']'')) v" by simp
    with Cons.prems(2) show ?thesis
      using replace_no_new [OF assms(1-3), of "wh_Category c" s "wh_Value c"] by (simp add: ReplaceAll_def)
  next
    case False
    with Cons show ?thesis by simp
  qed
qed simp

lemma canary_loop_removes:
  assumes "plain_canaries all" and "set cs \<subseteq> set all" and "c \<in> set cs"
  shows "\<not> Contains (fst (canary_loop cs s)) (wh_Value c)"
  using assms(2,3)
proof (induction cs arbitrary: s)
  case (Cons d ds)
  have plain: "wh_Value x \<noteq> []" "CHR ''['' \<notin> set (wh_Value x)" "CHR '']'' \<notin> set (wh_Value x)"
    "\<forall>y \<in> set all. \<not> Contains (wh_Category y) (wh_Value x)" if "x \<in> set all" for x
    using assms(1) that by (auto simp: plain_canaries_def)
  show ?case
  proof (cases "c \<in> set ds")
    case True
    with Cons show ?thesis by (simp split: prod.splits) (metis fst_conv)
  next
    case False
    with Cons.prems have c: "c = d" "c \<in> set all" by auto
    have rest: "\<forall>x \<in> set ds. \<not> Contains (wh_Category x) (wh_Value c) \<and> wh_Value x \<noteq> []"
      using plain [OF c(2)] plain(1) Cons.prems(1) by auto
    note no_new = canary_loop_no_new [OF plain(1-3) [OF c(2)] rest]
    show ?thesis
    proof (cases "Contains s (wh_Value d)")
      case True
      have "\<not> Contains (ReplaceAll s (wh_Value d) (''['' @ wh_Category d @ '']'')) (wh_Value c)"
        using replace_removes [OF plain(1-3) [OF c(2)], of "wh_Category d" s] plain(1,4) [OF c(2)] c
        by (simp add: ReplaceAll_def)
      with True no_new show ?thesis by (auto split: prod.splits)
    next
      case False
      with c no_new show ?thesis by auto
    qed
  qed
qed simp

fun strings_in :: "gval \<Rightarrow> string list" where
  "strings_in (GStr s) = [s]"
| "strings_in (GObj m) = concat (map (\<lambda>kv. strings_in (snd kv)) m)"
| "strings_in (GArr xs) = concat (map strings_in xs)"
| "strings_in _ = []"

lemma strings_in_canary_walk:
  "set (strings_in (fst (canary_walk cs d))) = (\<lambda>s. fst (canary_loop cs s)) ` set (strings_in d)"
  by (induction cs d rule: canary_walk.induct) (auto simp: image_UN image_iff)

lemma canary_loop_clean: "\<forall>c \<in> set cs. \<not> Contains s (wh_Value c) \<Longrightarrow> canary_loop cs s = (s, [])"
  by (induction cs) auto

lemma canary_walk_clean:
  "\<forall>s \<in> set (strings_in d). \<forall>c \<in> set cs. \<not> Contains s (wh_Value c) \<Longrightarrow> canary_walk cs d = (d, [])"
  by (induction cs d rule: canary_walk.induct) (auto simp: canary_loop_clean map_idI)

lemma values_at_canary_keys:
  "Keys \<in> set p \<Longrightarrow> values_at p (fst (canary_walk cs d)) = values_at p d"
proof (induction p d rule: values_at.induct)
  case (2 k ss node)
  show ?case
  proof (cases node)
    case (GObj m)
    have "map_of (map (\<lambda>kv. (fst kv, fst (canary_walk cs (snd kv)))) m) k =
        map_option (\<lambda>v. fst (canary_walk cs v)) (map_of m k)" by (induction m) auto
    with 2 GObj show ?thesis by (auto split: option.splits)
  qed auto
next
  case (3 ss node)
  show ?case
  proof (cases node)
    case (GArr xs)
    with 3 have "values_at ss (fst (canary_walk cs x)) = values_at ss x" if "x \<in> set xs" for x using that by auto
    with GArr show ?thesis by (auto simp: o_def intro: arg_cong [of _ _ concat])
  qed auto
next
  case (4 ss node)
  then show ?case by (cases node) (auto simp: o_def)
qed auto

lemma canaryTree_walk: "fst (canaryTree cs d) = fst (canary_walk cs d)"
proof (cases "cs = []")
  case True
  have "canary_walk [] d = (d, [])" by (rule canary_walk_clean) simp
  with True show ?thesis by (simp add: canaryTree_def)
qed (simp add: canaryTree_def)

lemma Backstop_InrD:
  assumes "Backstop cd body paths l = Inr r" and "TrimSpace body \<noteq> []" and "jc_decode cd body = Some d"
  obtains d1 absent h where "walk_paths cd l paths d = (d1, absent, h)"
    "bs_Body r = jc_encode cd (fst (canaryTree (Canaries l) d1))" "bs_Absent r = absent"
    "bs_Hits r = h @ snd (canaryTree (Canaries l) d1)"
  using assms by (auto simp: Backstop_def split: prod.splits)

text \<open>The document a passed response is encoded from, before withheld text is replaced in it.\<close>

lemma Backstop_sent:
  assumes "paths = HTTPPaths shape \<or> paths = GRPCPaths shape"
    and "TrimSpace body \<noteq> []" and "jc_decode cd body = Some d"
    and "Backstop cd body paths l = Inr r" and "\<not> bs_Absent r"
  obtains d1 where "bs_Body r = jc_encode cd (fst (canary_walk (Canaries l) d1))"
    and "\<And>p v. p \<in> set paths \<Longrightarrow> v \<in> set (values_at (steps_of p) d1) \<Longrightarrow> allowed l v (snd p)"
proof -
  from assms(2-5) obtain d1 h where w: "walk_paths cd l paths d = (d1, False, h)"
    and body: "bs_Body r = jc_encode cd (fst (canary_walk (Canaries l) d1))"
    using Backstop_InrD [OF assms(4,2,3)] by (metis (full_types) canaryTree_walk)
  have ind: "\<forall>p \<in> set paths. \<forall>q \<in> set paths. before_embedded (steps_of q) \<noteq> Some (steps_of p)"
    using assms(1) paths_independent independentD by blast
  from walk_paths_allowed [OF ind w] body that show ?thesis by blast
qed

section \<open>Ledger lemmas\<close>

lemma Canaries_values:
  "set (map wh_Value (Canaries (Some x))) = fst ` set (ld_canaries x)"
  "distinct (map wh_Value (Canaries (Some x)))"
proof -
  let ?f = "\<lambda>(v, c). \<lparr>wh_Category = c, wh_Value = v\<rparr>" and ?m = "AList.clearjunk (ld_canaries x)"
  have v: "wh_Value \<circ> ?f = fst" by auto
  show "set (map wh_Value (Canaries (Some x))) = fst ` set (ld_canaries x)"
    by (simp add: Canaries_def image_comp v dom_clearjunk)
  have "distinct (map wh_Value (map ?f ?m))" by (simp add: v)
  then have d: "distinct (map ?f ?m) \<and> inj_on wh_Value (set (map ?f ?m))"
    unfolding distinct_map [of wh_Value] .
  show "distinct (map wh_Value (Canaries (Some x)))"
    unfolding Canaries_def option.case distinct_map [of wh_Value] using d by simp
qed

section \<open>Properties\<close>

text \<open>A response of two objects, a ledger that released the first, and a codec that knows them.\<close>

definition sample_body :: string where "sample_body = ''{data}''"

definition sample_doc :: gval where
  "sample_doc = GObj [(''data'', GArr [GObj [(''id'', GStr ''o1''), (''title'', GStr ''see secret-plan'')],
                                   GObj [(''id'', GStr ''o2'')]])]"

definition sample_ledger :: Ledger where
  "sample_ledger = \<lparr>ld_objects = [''o1''], ld_entities = [], ld_edges = [], ld_canaries = [(''secret-plan'', ''content'')]\<rparr>"

definition sample_codec :: codec where
  "sample_codec = \<lparr>jc_decode = (\<lambda>s. if s = sample_body then Some sample_doc else None),
     jc_encode = (\<lambda>d. Join (strings_in d) '','')\<rparr>"

lemma sample_decodes: "TrimSpace sample_body \<noteq> []" "jc_decode sample_codec sample_body = Some sample_doc"
  by (code_simp, simp add: sample_codec_def)

lemma sample_backstop:
  "Backstop sample_codec sample_body (HTTPPaths ShapeObjects) (Some sample_ledger) =
     Inr \<lparr>bs_Body = ''o1,see [content]'', bs_Hits = [''data[].id=o2'', ''canary:content''], bs_Absent = False\<rparr>"
  by code_simp



text \<open>
  A clean response passes unchanged. When every value at the paths is allowed, no path
  leads into an embedded document and no withheld value occurs in a string of the document,
  the backstop sends that document again, reports no hit and does not call it absent.
\<close>

theorem backstop_passes_clean:
  assumes "TrimSpace body \<noteq> []" and "jc_decode cd body = Some d"
    and "\<forall>p \<in> set paths. before_embedded (steps_of p) = None \<and>
           (\<forall>v \<in> set (values_at (steps_of p) d). allowed l v (snd p))"
    and "\<forall>s \<in> set (strings_in d). \<forall>c \<in> set (Canaries l). \<not> Contains s (wh_Value c)"
  shows "Backstop cd body paths l = Inr \<lparr>bs_Body = jc_encode cd d, bs_Hits = [], bs_Absent = False\<rparr>"
  using assms(1,2) walk_paths_clean [OF assms(3), of cd] canary_walk_clean [OF assms(4)]
  by (simp add: Backstop_def canaryTree_def)

theorem backstop_passes_clean_witness:
  "let l = Some (sample_ledger\<lparr>ld_objects := [''o1'', ''o2''], ld_canaries := []\<rparr>)
   in Backstop sample_codec sample_body (HTTPPaths ShapeEntities) l =
        Inr \<lparr>bs_Body = jc_encode sample_codec sample_doc, bs_Hits = [], bs_Absent = False\<rparr>"
proof -
  let ?l = "Some (sample_ledger\<lparr>ld_objects := [''o1'', ''o2''], ld_canaries := []\<rparr>)"
  have "list_all (\<lambda>p. before_embedded (steps_of p) = None \<and>
      list_all (\<lambda>v. allowed ?l v (snd p)) (values_at (steps_of p) sample_doc)) (HTTPPaths ShapeEntities)"
    by code_simp
  then have a: "\<forall>p \<in> set (HTTPPaths ShapeEntities). before_embedded (steps_of p) = None \<and>
      (\<forall>v \<in> set (values_at (steps_of p) sample_doc). allowed ?l v (snd p))"
    by (simp add: list_all_iff)
  have "Canaries ?l = []" by (simp add: Canaries_def)
  then have c: "\<forall>s \<in> set (strings_in sample_doc). \<forall>c \<in> set (Canaries ?l). \<not> Contains s (wh_Value c)" by simp
  from backstop_passes_clean [OF sample_decodes a c] show ?thesis by simp
qed



text \<open>
  The ledger records what was released and what was withheld. Each addition makes
  exactly its identifier known, withheld values are all listed, once each, longer values
  first, and the nil ledger allows nothing but empty values and the query node.
\<close>

theorem ledger_records:
  "(i \<noteq> [] \<longrightarrow> HasObject (AddObject i (Some x)) j = (j = i \<or> HasObject (Some x) j)) \<and>
   HasEntity (AddObject i (Some x)) j = HasEntity (Some x) j \<and>
   HasEdge (AddEntity i (Some x)) j = HasEdge (Some x) j \<and>
   (set (map wh_Value (Canaries (AddWithheld ws (Some x)))) =
      fst ` set (ld_canaries x) \<union> wh_Value ` set ws) \<and>
   distinct (map wh_Value (Canaries (AddWithheld ws (Some x)))) \<and>
   sorted_wrt (\<lambda>a b. length (wh_Value a) \<ge> length (wh_Value b)) (Canaries (AddWithheld ws (Some x))) \<and>
   (allowed None v kind \<longrightarrow> v = [] \<or> kind = KindGraphNodeKey \<and> v = ''query'')"
proof -
  let ?x = "x\<lparr>ld_canaries := foldl (\<lambda>m w. AList.update (wh_Value w) (wh_Category w) m) (ld_canaries x) ws\<rparr>"
  have aw: "AddWithheld ws (Some x) = Some ?x" by (simp add: AddWithheld_def)
  have "fst ` set (ld_canaries ?x) = fst ` set (ld_canaries x) \<union> wh_Value ` set ws"
    by (induction ws rule: rev_induct) (auto simp: dom_map_of_conv_image_fst [symmetric] update_conv')
  then have vals: "set (map wh_Value (Canaries (AddWithheld ws (Some x)))) =
      fst ` set (ld_canaries x) \<union> wh_Value ` set ws"
    unfolding aw Canaries_values by simp
  have "sorted (map (\<lambda>w. (- int (length (wh_Value w)), wh_Value w)) (Canaries (Some ?x)))"
    by (simp add: Canaries_def)
  then have "sorted_wrt (\<lambda>a b. length (wh_Value a) \<ge> length (wh_Value b)) (Canaries (Some ?x))"
    unfolding sorted_map by (rule sorted_wrt_mono_rel [rotated]) (auto simp: less_eq_prod_def less_eq_prod_simp)
  moreover have "allowed None v kind \<longrightarrow> v = [] \<or> kind = KindGraphNodeKey \<and> v = ''query''"
    by (cases kind) (auto simp: allowed_def HasObject_def HasEntity_def HasEdge_def)
  moreover have "HasEdge (AddEntity i (Some x)) j = HasEdge (Some x) j"
    by (simp add: AddEntity_def HasEdge_def)
  ultimately show ?thesis
    using vals Canaries_values(2) [of ?x] by (simp add: aw AddObject_def HasObject_def HasEntity_def)
qed

theorem ledger_records_witness:
  "HasObject (AddObject ''o1'' (Some NewLedger)) ''o1'' \<and> \<not> allowed None ''o1'' KindObject"
  using ledger_records [of "''o1''" NewLedger "''o1''" "[]" "''o1''" KindObject] by auto

end
