(* ===== verification/Share_Scoped.thy ===== *)
theory Share_Scoped
  imports Scoped_Driver Share_Backstop
begin

text \<open>
  The storage a request handler has: \<open>internal/sharing/scoped.go\<close>. \<open>Scoped\<close> gives a handler
  the scoped driver wrapped so that every object is rendered before the handler sees it and
  recorded, with every entity and edge, in the request's ledger. The ledger is one mutable
  object of the request, so the operations here take and return it.

  The sequences of calls a handler can make are the step relation \<open>handler_step\<close>; the
  invariant is that the ledger knows an object or entity only if a scoped read answered it.
\<close>

section \<open>Rendering and recording\<close>

record 's renderDriver =
  rdr_driver :: "'s StorageDriver"
  rdr_v :: Viewer
  rdr_prov :: "Provenance option"

type_synonym ('a, 's) ledger_read = "'s \<Rightarrow> Ledger option \<Rightarrow> (StorageErr + 'a) \<times> Ledger option"

definition render :: "'s renderDriver \<Rightarrow> KnowledgeObject option \<Rightarrow> Ledger option \<Rightarrow> KnowledgeObject option \<times> Ledger option" where
  "render d obj l =
     (case obj of
        None \<Rightarrow> (None, l)
      | Some x \<Rightarrow>
          (let r = Render (rdr_v d) (Some x) (rdr_prov d)
           in case rn_Object r of
                None \<Rightarrow> (None, l)
              | Some out \<Rightarrow> (Some out, AddWithheld (rn_Withheld r) (AddObject (ko_ID out) l))))"

fun renderAll :: "'s renderDriver \<Rightarrow> KnowledgeObject option list \<Rightarrow> Ledger option \<Rightarrow> KnowledgeObject option list \<times> Ledger option" where
  "renderAll d [] l = ([], l)"
| "renderAll d (None # os) l = renderAll d os l"
| "renderAll d (Some x # os) l =
     (case render d (Some x) l of (r, l1) \<Rightarrow>
        (case renderAll d os l1 of (rs, l2) \<Rightarrow> (r # rs, l2)))"

definition nodeIDOfRef :: "string \<Rightarrow> string" where
  "nodeIDOfRef ref = TrimPrefix ref ''ctxt:node/''"

definition rebuild_result :: "NodeAwareResult \<Rightarrow> KnowledgeObject option \<Rightarrow> NodeAwareResult" where
  "rebuild_result r obj =
     \<lparr>nar_Object = obj,
      nar_NodeHits = filter (\<lambda>h. case obj of None \<Rightarrow> False
                               | Some x \<Rightarrow> ko_Graph x \<noteq> None \<and> FindNode (ko_Graph x) (nodeIDOfRef (nh_NodeRef h)) \<noteq> None)
                       (nar_NodeHits r),
      nar_DocumentView = (if nar_DocumentView r \<noteq> None then Some (ProjectDocument obj) else None)\<rparr>"

fun renderNodeAware :: "'s renderDriver \<Rightarrow> NodeAwareResult option list \<Rightarrow> Ledger option \<Rightarrow> NodeAwareResult option list \<times> Ledger option" where
  "renderNodeAware d [] l = ([], l)"
| "renderNodeAware d (None # rs) l = renderNodeAware d rs l"
| "renderNodeAware d (Some r # rs) l =
     (case nar_Object r of
        None \<Rightarrow> renderNodeAware d rs l
      | Some x \<Rightarrow>
          (case render d (Some x) l of (obj, l1) \<Rightarrow>
             (case renderNodeAware d rs l1 of (out, l2) \<Rightarrow> (Some (rebuild_result r obj) # out, l2))))"

section \<open>The object store\<close>

text \<open>The four shapes of a rendered read: one object, a list, a list with its total, node hits.\<close>

definition one_rendered :: "'s renderDriver \<Rightarrow> (KnowledgeObject option, 's) read_op \<Rightarrow> (KnowledgeObject option, 's) ledger_read" where
  "one_rendered d op s l =
     (case op s of Inl e \<Rightarrow> (Inl e, l) | Inr x \<Rightarrow> (case render d x l of (r, l1) \<Rightarrow> (Inr r, l1)))"

definition list_rendered ::
  "'s renderDriver \<Rightarrow> (KnowledgeObject option list, 's) read_op \<Rightarrow> (KnowledgeObject option list, 's) ledger_read" where
  "list_rendered d op s l =
     (case op s of Inl e \<Rightarrow> (Inl e, l) | Inr xs \<Rightarrow> (case renderAll d xs l of (rs, l1) \<Rightarrow> (Inr rs, l1)))"

definition page_rendered ::
  "'s renderDriver \<Rightarrow> (KnowledgeObject option list \<times> int, 's) read_op \<Rightarrow> (KnowledgeObject option list \<times> int, 's) ledger_read" where
  "page_rendered d op s l =
     (case op s of Inl e \<Rightarrow> (Inl e, l)
      | Inr (xs, cnt) \<Rightarrow> (case renderAll d xs l of (rs, l1) \<Rightarrow> (Inr (rs, cnt), l1)))"

definition nodes_rendered ::
  "'s renderDriver \<Rightarrow> (NodeAwareResult option list, 's) read_op \<Rightarrow> (NodeAwareResult option list, 's) ledger_read" where
  "nodes_rendered d op s l =
     (case op s of Inl e \<Rightarrow> (Inl e, l) | Inr xs \<Rightarrow> (case renderNodeAware d xs l of (rs, l1) \<Rightarrow> (Inr rs, l1)))"

abbreviation scoped_objects :: "'s renderDriver \<Rightarrow> 's ObjectStore" where
  "scoped_objects d \<equiv> dr_Objects (rdr_driver d)"

definition renderObjects_Get :: "'s renderDriver \<Rightarrow> string \<Rightarrow> (KnowledgeObject option, 's) ledger_read" where
  "renderObjects_Get d i = one_rendered d (os_Get (scoped_objects d) i)"

definition renderObjects_GetByContentHash ::
  "'s renderDriver \<Rightarrow> string \<Rightarrow> string \<Rightarrow> (KnowledgeObject option, 's) ledger_read" where
  "renderObjects_GetByContentHash d hash profileID = one_rendered d (os_GetByContentHash (scoped_objects d) hash profileID)"

definition renderObjects_GetBySourceKey :: "'s renderDriver \<Rightarrow> string \<Rightarrow> (KnowledgeObject option, 's) ledger_read" where
  "renderObjects_GetBySourceKey d key = one_rendered d (os_GetBySourceKey (scoped_objects d) key)"

definition renderObjects_List :: "'s renderDriver \<Rightarrow> ObjectFilter \<Rightarrow> (KnowledgeObject option list \<times> int, 's) ledger_read" where
  "renderObjects_List d f = page_rendered d (os_List (scoped_objects d) f)"

definition renderObjects_ListBySQL ::
  "'s renderDriver \<Rightarrow> string \<Rightarrow> Value list \<Rightarrow> ObjectFilter \<Rightarrow> (KnowledgeObject option list \<times> int, 's) ledger_read" where
  "renderObjects_ListBySQL d w args f = page_rendered d (os_ListBySQL (scoped_objects d) w args f)"

definition renderObjects_VectorSearch ::
  "'s renderDriver \<Rightarrow> VectorQuery \<Rightarrow> ObjectFilter \<Rightarrow> (KnowledgeObject option list, 's) ledger_read" where
  "renderObjects_VectorSearch d q f = list_rendered d (os_VectorSearch (scoped_objects d) q f)"

definition renderObjects_FTSSearch ::
  "'s renderDriver \<Rightarrow> string \<Rightarrow> ObjectFilter \<Rightarrow> (KnowledgeObject option list, 's) ledger_read" where
  "renderObjects_FTSSearch d q f = list_rendered d (os_FTSSearch (scoped_objects d) q f)"

definition renderObjects_FTSSearchNodeAware ::
  "'s renderDriver \<Rightarrow> string \<Rightarrow> ObjectFilter \<Rightarrow> NodeAwareFilter \<Rightarrow> (NodeAwareResult option list, 's) ledger_read" where
  "renderObjects_FTSSearchNodeAware d q f naf = nodes_rendered d (os_FTSSearchNodeAware (scoped_objects d) q f naf)"

definition renderObjects_VectorSearchNodeAware ::
  "'s renderDriver \<Rightarrow> VectorQuery \<Rightarrow> ObjectFilter \<Rightarrow> NodeAwareFilter \<Rightarrow> (NodeAwareResult option list, 's) ledger_read" where
  "renderObjects_VectorSearchNodeAware d q f naf = nodes_rendered d (os_VectorSearchNodeAware (scoped_objects d) q f naf)"

definition renderObjects_ListDueReminders :: "'s renderDriver \<Rightarrow> time \<Rightarrow> (KnowledgeObject option list, 's) ledger_read" where
  "renderObjects_ListDueReminders d now = list_rendered d (os_ListDueReminders (scoped_objects d) now)"

definition renderObjects_ListPendingReminders :: "'s renderDriver \<Rightarrow> (KnowledgeObject option list, 's) ledger_read" where
  "renderObjects_ListPendingReminders d = list_rendered d (os_ListPendingReminders (scoped_objects d))"

definition updateRefused :: "string \<Rightarrow> StorageErr" where
  "updateRefused i =
     \<lparr>se_Text = ''update object '' @ i @ '': the viewer sees it rendered, a write back would erase withheld fields'',
      se_Wraps = [ErrRestrictedViewer]\<rparr>"

definition renderObjects_Update :: "'s renderDriver \<Rightarrow> KnowledgeObject option \<Rightarrow> (unit, 's) write_op" where
  "renderObjects_Update d obj s =
     (case obj of
        None \<Rightarrow> os_Update (scoped_objects d) obj s
      | Some x \<Rightarrow>
          if \<not> fs_all (newFieldSet (plan_FieldsFor (Plan (rdr_v d)) (ko_Type x)))
          then (Inl (updateRefused (ko_ID x)), s)
          else os_Update (scoped_objects d) obj s)"

section \<open>Entities\<close>

definition record_entity :: "Entity option \<Rightarrow> Ledger option \<Rightarrow> Ledger option" where
  "record_entity e l = (case e of None \<Rightarrow> l | Some x \<Rightarrow> AddEntity (ent_Slug x) l)"

definition ledgerEntities_Get :: "'s renderDriver \<Rightarrow> string \<Rightarrow> (Entity option, 's) ledger_read" where
  "ledgerEntities_Get d slug s l =
     (case es_Get (dr_Entities (rdr_driver d)) slug s of
        Inl err \<Rightarrow> (Inl err, l) | Inr e \<Rightarrow> (Inr e, record_entity e l))"

definition ledgerEntities_List :: "'s renderDriver \<Rightarrow> EntityFilter \<Rightarrow> (Entity option list, 's) ledger_read" where
  "ledgerEntities_List d f s l =
     (case es_List (dr_Entities (rdr_driver d)) f s of
        Inl err \<Rightarrow> (Inl err, l) | Inr es \<Rightarrow> (Inr es, foldl (\<lambda>l e. record_entity e l) l es))"

definition ledgerEntities_Resolve :: "'s renderDriver \<Rightarrow> string \<Rightarrow> (Entity option, 's) ledger_read" where
  "ledgerEntities_Resolve d m s l =
     (case es_Resolve (dr_Entities (rdr_driver d)) m s of
        Inl err \<Rightarrow> (Inl err, l) | Inr e \<Rightarrow> (Inr e, record_entity e l))"

section \<open>Releases through scoped reads\<close>

definition releaseObject :: "'s renderDriver \<Rightarrow> string \<Rightarrow> 's \<Rightarrow> Ledger option \<Rightarrow> Ledger option" where
  "releaseObject d i s l = (if i = [] \<or> HasObject l i then l else snd (renderObjects_Get d i s l))"

definition releaseEntity :: "'s renderDriver \<Rightarrow> string \<Rightarrow> 's \<Rightarrow> Ledger option \<Rightarrow> Ledger option" where
  "releaseEntity d slug0 s l =
     (let slug = TrimPrefix slug0 EntityURIPrefix
      in if slug = [] \<or> HasEntity l slug then l else snd (ledgerEntities_Get d slug s l))"

definition releaseEndpoint :: "'s renderDriver \<Rightarrow> string \<Rightarrow> string \<Rightarrow> 's \<Rightarrow> Ledger option \<Rightarrow> Ledger option" where
  "releaseEndpoint d ty i s l = (if ty = EdgeEndpointEntity then releaseEntity d i s l else releaseObject d i s l)"

section \<open>Edges, neighbours, aliases\<close>

fun record_edges :: "'s renderDriver \<Rightarrow> 's \<Rightarrow> Edge option list \<Rightarrow> Ledger option \<Rightarrow> Ledger option" where
  "record_edges d s [] l = l"
| "record_edges d s (None # es) l = record_edges d s es l"
| "record_edges d s (Some e # es) l =
     record_edges d s es
       (releaseEndpoint d (edge_ToType e) (edge_ToID e) s
          (releaseEndpoint d (edge_FromType e) (edge_FromID e) s (AddEdge (edge_ID e) l)))"

definition ledgerEdges_ListFrom :: "'s renderDriver \<Rightarrow> string \<Rightarrow> string \<Rightarrow> (Edge option list, 's) ledger_read" where
  "ledgerEdges_ListFrom d ty i s l =
     (case eds_ListFrom (dr_Edges (rdr_driver d)) ty i s of
        Inl err \<Rightarrow> (Inl err, l) | Inr es \<Rightarrow> (Inr es, record_edges d s es l))"

definition ledgerEdges_ListTo :: "'s renderDriver \<Rightarrow> string \<Rightarrow> string \<Rightarrow> (Edge option list, 's) ledger_read" where
  "ledgerEdges_ListTo d ty i s l =
     (case eds_ListTo (dr_Edges (rdr_driver d)) ty i s of
        Inl err \<Rightarrow> (Inl err, l) | Inr es \<Rightarrow> (Inr es, record_edges d s es l))"

fun record_scores :: "'s renderDriver \<Rightarrow> 's \<Rightarrow> ProximityScore option list \<Rightarrow> Ledger option \<Rightarrow> Ledger option" where
  "record_scores d s [] l = l"
| "record_scores d s (None # ps) l = record_scores d s ps l"
| "record_scores d s (Some p # ps) l =
     record_scores d s ps (releaseObject d (prox_ObjectB p) s (releaseObject d (prox_ObjectA p) s l))"

definition ledgerProximity_GetNeighbors :: "'s renderDriver \<Rightarrow> string \<Rightarrow> int \<Rightarrow> (ProximityScore option list, 's) ledger_read" where
  "ledgerProximity_GetNeighbors d i n s l =
     (case pxs_GetNeighbors (dr_Proximity (rdr_driver d)) i n s of
        Inl err \<Rightarrow> (Inl err, l) | Inr ps \<Rightarrow> (Inr ps, record_scores d s ps l))"

definition ledgerProximity_GetNeighborsAbove ::
  "'s renderDriver \<Rightarrow> string \<Rightarrow> float64 \<Rightarrow> (ProximityScore option list, 's) ledger_read" where
  "ledgerProximity_GetNeighborsAbove d i t s l =
     (case pxs_GetNeighborsAbove (dr_Proximity (rdr_driver d)) i t s of
        Inl err \<Rightarrow> (Inl err, l) | Inr ps \<Rightarrow> (Inr ps, record_scores d s ps l))"

definition ledgerProximity_Get :: "'s renderDriver \<Rightarrow> string \<Rightarrow> string \<Rightarrow> (ProximityScore option, 's) ledger_read" where
  "ledgerProximity_Get d a b s l =
     (case pxs_Get (dr_Proximity (rdr_driver d)) a b s of
        Inl err \<Rightarrow> (Inl err, l) | Inr p \<Rightarrow> (Inr p, if p \<noteq> None then record_scores d s [p] l else l))"

definition ledgerAliases_Resolve :: "'s renderDriver \<Rightarrow> string \<Rightarrow> string \<Rightarrow> (string, 's) ledger_read" where
  "ledgerAliases_Resolve d al profile s l =
     (case als_Resolve (dr_Aliases (rdr_driver d)) al profile s of
        Inl err \<Rightarrow> (Inl err, l) | Inr i \<Rightarrow> (Inr i, releaseObject d i s l))"

fun record_aliases :: "'s renderDriver \<Rightarrow> 's \<Rightarrow> Alias option list \<Rightarrow> Ledger option \<Rightarrow> Ledger option" where
  "record_aliases d s [] l = l"
| "record_aliases d s (None # as) l = record_aliases d s as l"
| "record_aliases d s (Some a # as) l = record_aliases d s as (releaseObject d (al_ObjectID a) s l)"

definition ledgerAliases_List :: "'s renderDriver \<Rightarrow> AliasFilter \<Rightarrow> (Alias option list, 's) ledger_read" where
  "ledgerAliases_List d f s l =
     (case als_List (dr_Aliases (rdr_driver d)) f s of
        Inl err \<Rightarrow> (Inl err, l) | Inr as \<Rightarrow> (Inr as, record_aliases d s as l))"

section \<open>Scoped\<close>

text \<open>What a handler gets: a driver itself, or the rendering driver and its ledger.\<close>

datatype 's handler_driver = Direct "'s StorageDriver option" | Rendering "'s renderDriver" "Ledger option"

definition Scoped ::
  "Viewer option \<Rightarrow> Ledger option \<Rightarrow> 's StorageDriver \<Rightarrow> Provenance option \<Rightarrow> 's handler_driver" where
  "Scoped ctx_viewer ctx_ledger d prov =
     (case FromContext ctx_viewer of (v, ok) \<Rightarrow>
        if \<not> ok then Direct (ScopedDriver None (Some d))
        else if IsUnrestricted v then Direct (Some d)
        else
          (let l = (if ctx_ledger = None then Some NewLedger else ctx_ledger)
           in case ScopedDriver (Some v) (Some d) of
                None \<Rightarrow> Direct None
              | Some sd \<Rightarrow> Rendering \<lparr>rdr_driver = sd, rdr_v = v, rdr_prov = prov\<rparr> l))"

definition renderedReads :: "string list" where
  "renderedReads =
     [''Get'', ''GetByContentHash'', ''GetBySourceKey'', ''List'', ''ListBySQL'', ''VectorSearch'', ''FTSSearch'',
      ''FTSSearchNodeAware'', ''VectorSearchNodeAware'', ''ListDueReminders'', ''ListPendingReminders'']"

section \<open>Ledger lemmas\<close>

lemma HasObject_simps [simp]:
  "HasObject (AddObject i l) j \<longleftrightarrow> HasObject l j \<or> (l \<noteq> None \<and> i \<noteq> [] \<and> j = i)"
  "HasObject (AddEntity g l) j = HasObject l j" "HasObject (AddEdge g l) j = HasObject l j"
  "HasObject (AddWithheld ws l) j = HasObject l j"
  by (auto simp: HasObject_def AddObject_def AddEntity_def AddEdge_def AddWithheld_def split: option.splits)

lemma HasEntity_simps [simp]:
  "HasEntity (AddEntity g l) j \<longleftrightarrow> HasEntity l j \<or> (l \<noteq> None \<and> g \<noteq> [] \<and> TrimPrefix j EntityURIPrefix = g)"
  "HasEntity (AddObject i l) j = HasEntity l j" "HasEntity (AddEdge g l) j = HasEntity l j"
  "HasEntity (AddWithheld ws l) j = HasEntity l j"
  by (auto simp: HasEntity_def AddObject_def AddEntity_def AddEdge_def AddWithheld_def split: option.splits)

lemma ledger_None [simp]:
  "AddObject i l = None \<longleftrightarrow> l = None" "AddEntity i l = None \<longleftrightarrow> l = None" "AddEdge i l = None \<longleftrightarrow> l = None"
  "AddWithheld ws l = None \<longleftrightarrow> l = None"
  by (auto simp: AddObject_def AddEntity_def AddEdge_def AddWithheld_def)

definition withheld_in :: "Ledger option \<Rightarrow> string set" where
  "withheld_in l = wh_Value ` set (Canaries l)"

lemma withheld_in_Some: "withheld_in (Some x) = fst ` set (ld_canaries x)"
  using Canaries_values(1) [of x] by (simp add: withheld_in_def)

lemma withheld_in_simps [simp]:
  "withheld_in (AddObject i l) = withheld_in l" "withheld_in (AddEntity i l) = withheld_in l"
  "withheld_in (AddEdge i l) = withheld_in l"
  "withheld_in (AddWithheld ws (Some x)) = withheld_in (Some x) \<union> wh_Value ` set ws"
proof -
  have "fst ` set (foldl (\<lambda>m w. AList.update (wh_Value w) (wh_Category w) m) (ld_canaries x) ws) =
      fst ` set (ld_canaries x) \<union> wh_Value ` set ws"
    by (induction ws rule: rev_induct) (auto simp: dom_map_of_conv_image_fst [symmetric] update_conv')
  then show "withheld_in (AddWithheld ws (Some x)) = withheld_in (Some x) \<union> wh_Value ` set ws"
    by (simp add: withheld_in_Some AddWithheld_def)
qed (cases l; simp add: withheld_in_Some AddObject_def AddEntity_def AddEdge_def)+

text \<open>
  How an operation changes the ledger: nothing is forgotten, and a new object is one of
  \<open>os\<close>, a new entity one of \<open>es\<close>.
\<close>

definition adds :: "KnowledgeObject set \<Rightarrow> Entity set \<Rightarrow> Ledger option \<Rightarrow> Ledger option \<Rightarrow> bool" where
  "adds os es l l' \<longleftrightarrow>
     (l = None \<longleftrightarrow> l' = None) \<and>
     (\<forall>i. HasObject l i \<longrightarrow> HasObject l' i) \<and> (\<forall>g. HasEntity l g \<longrightarrow> HasEntity l' g) \<and> withheld_in l \<subseteq> withheld_in l' \<and>
     (\<forall>i. HasObject l' i \<longrightarrow> HasObject l i \<or> (\<exists>x \<in> os. ko_ID x = i)) \<and>
     (\<forall>g. HasEntity l' g \<longrightarrow> HasEntity l g \<or> (\<exists>e \<in> es. ent_Slug e = TrimPrefix g EntityURIPrefix))"

lemma adds_refl [simp]: "adds os es l l"
  by (simp add: adds_def)

lemma adds_trans: "adds os es l l1 \<Longrightarrow> adds os es l1 l2 \<Longrightarrow> adds os es l l2"
  unfolding adds_def by (meson order_trans)

lemma adds_edge [simp]: "adds os es l (AddEdge i l)"
  by (simp add: adds_def)

section \<open>What the scoped stores answer\<close>

inductive answers_object :: "'s ObjectStore \<Rightarrow> 's \<Rightarrow> KnowledgeObject \<Rightarrow> bool" for st s where
  Get: "os_Get st i s = Inr (Some x) \<Longrightarrow> answers_object st s x"
| GetByContentHash: "os_GetByContentHash st h p s = Inr (Some x) \<Longrightarrow> answers_object st s x"
| GetBySourceKey: "os_GetBySourceKey st k s = Inr (Some x) \<Longrightarrow> answers_object st s x"
| List: "os_List st f s = Inr (xs, n) \<Longrightarrow> Some x \<in> set xs \<Longrightarrow> answers_object st s x"
| ListBySQL: "os_ListBySQL st w a f s = Inr (xs, n) \<Longrightarrow> Some x \<in> set xs \<Longrightarrow> answers_object st s x"
| VectorSearch: "os_VectorSearch st q f s = Inr xs \<Longrightarrow> Some x \<in> set xs \<Longrightarrow> answers_object st s x"
| FTSSearch: "os_FTSSearch st t f s = Inr xs \<Longrightarrow> Some x \<in> set xs \<Longrightarrow> answers_object st s x"
| FTSSearchNodeAware:
    "os_FTSSearchNodeAware st t f na s = Inr rs \<Longrightarrow> Some r \<in> set rs \<Longrightarrow> nar_Object r = Some x \<Longrightarrow> answers_object st s x"
| VectorSearchNodeAware:
    "os_VectorSearchNodeAware st q f na s = Inr rs \<Longrightarrow> Some r \<in> set rs \<Longrightarrow> nar_Object r = Some x \<Longrightarrow> answers_object st s x"
| ListDueReminders: "os_ListDueReminders st now s = Inr xs \<Longrightarrow> Some x \<in> set xs \<Longrightarrow> answers_object st s x"
| ListPendingReminders: "os_ListPendingReminders st s = Inr xs \<Longrightarrow> Some x \<in> set xs \<Longrightarrow> answers_object st s x"

inductive answers_entity :: "'s EntityStore \<Rightarrow> 's \<Rightarrow> Entity \<Rightarrow> bool" for st s where
  Get: "es_Get st g s = Inr (Some e) \<Longrightarrow> answers_entity st s e"
| List: "es_List st f s = Inr es \<Longrightarrow> Some e \<in> set es \<Longrightarrow> answers_entity st s e"
| Resolve: "es_Resolve st m s = Inr (Some e) \<Longrightarrow> answers_entity st s e"

abbreviation objects_at :: "'s renderDriver \<Rightarrow> 's \<Rightarrow> KnowledgeObject set" where
  "objects_at d s \<equiv> Collect (answers_object (scoped_objects d) s)"

abbreviation entities_at :: "'s renderDriver \<Rightarrow> 's \<Rightarrow> Entity set" where
  "entities_at d s \<equiv> Collect (answers_entity (dr_Entities (rdr_driver d)) s)"

section \<open>Rendering lemmas\<close>

lemma Render_ID: "rn_Object (Render v (Some x) prov) = Some out \<Longrightarrow> ko_ID out = ko_ID x"
proof (cases "IsUnrestricted v")
  case False
  assume out: "rn_Object (Render v (Some x) prov) = Some out"
  show ?thesis
  proof (cases "ko_Type x = TypeContact")
    case True
    with out False show ?thesis
      by (auto simp: Render_contact Let_def renderContact_def split_beta alwaysKeptCopy_def)
  next
    case other: False
    with out False show ?thesis
      by (auto simp: Render_generic Let_def generic_def alwaysKeptCopy_def)
  qed
qed (simp add: Render_def)

lemma Render_total: "\<exists>out. rn_Object (Render v (Some x) prov) = Some out"
  by (cases "IsUnrestricted v"; cases "ko_Type x = TypeContact")
    (simp_all add: Render_def Render_contact Render_generic Let_def structured_def split_beta)

text \<open>An object as a handler may see it: rendered, and recorded with what was withheld of it.\<close>

definition released :: "'s renderDriver \<Rightarrow> Ledger option \<Rightarrow> KnowledgeObject \<Rightarrow> KnowledgeObject \<Rightarrow> bool" where
  "released d l x out \<longleftrightarrow>
     rn_Object (Render (rdr_v d) (Some x) (rdr_prov d)) = Some out \<and>
     (ko_ID out \<noteq> [] \<longrightarrow> HasObject l (ko_ID out)) \<and>
     wh_Value ` set (rn_Withheld (Render (rdr_v d) (Some x) (rdr_prov d))) \<subseteq> withheld_in l"

lemma released_mono: "released d l x out \<Longrightarrow> adds os es l l' \<Longrightarrow> released d l' x out"
  unfolding released_def adds_def by blast

lemma render_released:
  assumes "render d (Some x) (Some l) = (r, l')"
  obtains out where "r = Some out" and "released d l' x out" and "adds {x} {} (Some l) l'"
proof -
  obtain out where out: "rn_Object (Render (rdr_v d) (Some x) (rdr_prov d)) = Some out" using Render_total by blast
  then have r: "r = Some out"
    and l': "l' = AddWithheld (rn_Withheld (Render (rdr_v d) (Some x) (rdr_prov d))) (AddObject (ko_ID out) (Some l))"
    using assms by (simp_all add: render_def)
  obtain y where y: "AddObject (ko_ID out) (Some l) = Some y" by (cases "AddObject (ko_ID out) (Some l)") auto
  have wy: "withheld_in (Some y) = withheld_in (Some l)" unfolding y [symmetric] by simp
  have w: "withheld_in l' = withheld_in (Some l) \<union> wh_Value ` set (rn_Withheld (Render (rdr_v d) (Some x) (rdr_prov d)))"
    unfolding l' y by (simp add: wy)
  have "released d l' x out" using out w by (auto simp: released_def l')
  moreover have "adds {x} {} (Some l) l'"
    using w Render_ID [OF out] by (auto simp: adds_def l')
  ultimately show ?thesis using r that by blast
qed

lemma adds_weaken: "adds os es l l' \<Longrightarrow> os \<subseteq> os' \<Longrightarrow> es \<subseteq> es' \<Longrightarrow> adds os' es' l l'"
  unfolding adds_def by blast

lemma render_adds: "adds (set_option x) {} l (snd (render d x l))"
proof (cases x)
  case None
  then show ?thesis by (simp add: render_def)
next
  case (Some y)
  show ?thesis
  proof (cases l)
    case None
    obtain out where "rn_Object (Render (rdr_v d) (Some y) (rdr_prov d)) = Some out" using Render_total by blast
    then have "snd (render d x l) = None" using None Some by (simp add: render_def AddObject_def AddWithheld_def)
    then show ?thesis using None by simp
  next
    case (Some l0)
    with \<open>x = Some y\<close> show ?thesis by (metis option.set(2) prod.collapse render_released)
  qed
qed

lemma renderAll_adds: "adds {x. Some x \<in> set xs} {} l (snd (renderAll d xs l))"
proof (induction d xs l rule: renderAll.induct)
  case (2 d os l)
  then show ?case by simp
next
  case (3 d x os l)
  obtain r l1 where r: "render d (Some x) l = (r, l1)" by fastforce
  obtain rs l2 where rs: "renderAll d os l1 = (rs, l2)" by fastforce
  have "adds {x} {} l l1" using render_adds [of "Some x" l d] r by simp
  moreover have "adds {x. Some x \<in> set os} {} l1 l2" using "3.IH" [OF r [symmetric]] rs by simp
  ultimately have "adds {y. Some y \<in> set (Some x # os)} {} l l2"
    by (intro adds_trans [of _ _ l l1 l2]) (erule adds_weaken; auto)+
  then show ?case by (simp add: r rs)
qed simp

definition result_objects :: "NodeAwareResult option list \<Rightarrow> KnowledgeObject set" where
  "result_objects rs = {x. \<exists>r. Some r \<in> set rs \<and> nar_Object r = Some x}"

lemma renderNodeAware_adds: "adds (result_objects rs) {} l (snd (renderNodeAware d rs l))"
proof (induction d rs l rule: renderNodeAware.induct)
  case (2 d rs l)
  then show ?case by (simp add: result_objects_def)
next
  case (3 d r rs l)
  show ?case
  proof (cases "nar_Object r")
    case None
    with 3 show ?thesis by (auto simp: result_objects_def elim: adds_weaken)
  next
    case (Some x)
    obtain y l1 where y: "render d (Some x) l = (y, l1)" by fastforce
    obtain out l2 where out: "renderNodeAware d rs l1 = (out, l2)" by fastforce
    have "adds {x} {} l l1" using render_adds [of "Some x" l d] y by simp
    moreover have "adds (result_objects rs) {} l1 l2" using "3.IH"(2) [OF Some y [symmetric]] out by simp
    ultimately have "adds (result_objects (Some r # rs)) {} l l2"
      by (intro adds_trans [of _ _ l l1 l2]) (erule adds_weaken; auto simp: result_objects_def Some)+
    then show ?thesis by (simp add: Some y out)
  qed
qed simp

text \<open>One lemma per shape of read, for the objects the scoped store answered.\<close>

lemma snd_rendered:
  "snd (one_rendered d opr s l) = (case opr s of Inl e \<Rightarrow> l | Inr x \<Rightarrow> snd (render d x l))"
  "snd (list_rendered d opl s l) = (case opl s of Inl e \<Rightarrow> l | Inr xs \<Rightarrow> snd (renderAll d xs l))"
  "snd (page_rendered d opp s l) = (case opp s of Inl e \<Rightarrow> l | Inr (xs, n) \<Rightarrow> snd (renderAll d xs l))"
  "snd (nodes_rendered d opn s l) = (case opn s of Inl e \<Rightarrow> l | Inr rs \<Rightarrow> snd (renderNodeAware d rs l))"
  by (simp_all add: one_rendered_def list_rendered_def page_rendered_def nodes_rendered_def split: sum.split prod.split)

lemma one_rendered_adds:
  assumes "\<And>x. op s = Inr (Some x) \<Longrightarrow> x \<in> os"
  shows "adds os es l (snd (one_rendered d op s l))"
proof (cases "op s")
  case (Inr x)
  have "adds os es l (snd (render d x l))"
    by (rule adds_weaken [OF render_adds]) (use assms Inr in \<open>cases x; simp\<close>)+
  with Inr show ?thesis by (simp add: snd_rendered)
qed (simp add: snd_rendered)

lemma list_rendered_adds:
  assumes "\<And>xs x. op s = Inr xs \<Longrightarrow> Some x \<in> set xs \<Longrightarrow> x \<in> os"
  shows "adds os es l (snd (list_rendered d op s l))"
proof (cases "op s")
  case (Inr xs)
  have "adds os es l (snd (renderAll d xs l))"
    by (rule adds_weaken [OF renderAll_adds]) (use assms Inr in auto)
  with Inr show ?thesis by (simp add: snd_rendered)
qed (simp add: snd_rendered)

lemma page_rendered_adds:
  assumes "\<And>xs n x. op s = Inr (xs, n) \<Longrightarrow> Some x \<in> set xs \<Longrightarrow> x \<in> os"
  shows "adds os es l (snd (page_rendered d op s l))"
proof (cases "op s")
  case (Inr p)
  obtain xs n where p: "p = (xs, n)" by fastforce
  have "adds os es l (snd (renderAll d xs l))"
    by (rule adds_weaken [OF renderAll_adds]) (use assms Inr p in auto)
  with Inr p show ?thesis by (simp add: snd_rendered)
qed (simp add: snd_rendered)

lemma nodes_rendered_adds:
  assumes "\<And>rs r x. op s = Inr rs \<Longrightarrow> Some r \<in> set rs \<Longrightarrow> nar_Object r = Some x \<Longrightarrow> x \<in> os"
  shows "adds os es l (snd (nodes_rendered d op s l))"
proof (cases "op s")
  case (Inr rs)
  have "adds os es l (snd (renderNodeAware d rs l))"
    by (rule adds_weaken [OF renderNodeAware_adds]) (use assms Inr in \<open>auto simp: result_objects_def\<close>)
  with Inr show ?thesis by (simp add: snd_rendered)
qed (simp add: snd_rendered)

lemma record_entity_adds: "set_option e \<subseteq> es \<Longrightarrow> adds os es l (record_entity e l)"
  by (cases e) (auto simp: record_entity_def adds_def)

lemma record_entities_adds: "{e. Some e \<in> set xs} \<subseteq> es \<Longrightarrow> adds os es l (foldl (\<lambda>l e. record_entity e l) l xs)"
proof (induction xs arbitrary: l)
  case (Cons a xs)
  have "adds os es l (record_entity a l)" using Cons.prems by (intro record_entity_adds) auto
  moreover have "adds os es (record_entity a l) (foldl (\<lambda>l e. record_entity e l) (record_entity a l) xs)"
    using Cons by auto
  ultimately show ?case by (auto intro: adds_trans)
qed simp

lemma object_reads_add:
  "adds (objects_at d s) es l (snd (renderObjects_Get d i s l))"
  "adds (objects_at d s) es l (snd (renderObjects_GetByContentHash d h p s l))"
  "adds (objects_at d s) es l (snd (renderObjects_GetBySourceKey d k s l))"
  "adds (objects_at d s) es l (snd (renderObjects_List d f s l))"
  "adds (objects_at d s) es l (snd (renderObjects_ListBySQL d w a f s l))"
  "adds (objects_at d s) es l (snd (renderObjects_VectorSearch d q f s l))"
  "adds (objects_at d s) es l (snd (renderObjects_FTSSearch d t f s l))"
  "adds (objects_at d s) es l (snd (renderObjects_FTSSearchNodeAware d t f na s l))"
  "adds (objects_at d s) es l (snd (renderObjects_VectorSearchNodeAware d q f na s l))"
  "adds (objects_at d s) es l (snd (renderObjects_ListDueReminders d now s l))"
  "adds (objects_at d s) es l (snd (renderObjects_ListPendingReminders d s l))"
  unfolding renderObjects_Get_def renderObjects_GetByContentHash_def renderObjects_GetBySourceKey_def
    renderObjects_List_def renderObjects_ListBySQL_def renderObjects_VectorSearch_def renderObjects_FTSSearch_def
    renderObjects_FTSSearchNodeAware_def renderObjects_VectorSearchNodeAware_def
    renderObjects_ListDueReminders_def renderObjects_ListPendingReminders_def
  by (intro one_rendered_adds list_rendered_adds page_rendered_adds nodes_rendered_adds;
      auto intro: answers_object.intros)+

lemma entity_reads_add:
  "adds os (entities_at d s) l (snd (ledgerEntities_Get d g s l))"
  "adds os (entities_at d s) l (snd (ledgerEntities_List d f s l))"
  "adds os (entities_at d s) l (snd (ledgerEntities_Resolve d m s l))"
  unfolding ledgerEntities_Get_def ledgerEntities_List_def ledgerEntities_Resolve_def
  by (auto split: sum.split intro!: record_entity_adds record_entities_adds intro: answers_entity.intros)

lemma releases_add:
  "adds (objects_at d s) es l (releaseObject d i s l)"
  "adds os (entities_at d s) l (releaseEntity d g s l)"
  "adds (objects_at d s) (entities_at d s) l (releaseEndpoint d ty i s l)"
proof -
  show o: "adds (objects_at d s) es l (releaseObject d i s l)" for es
    by (simp add: releaseObject_def object_reads_add)
  show e: "adds os (entities_at d s) l (releaseEntity d i s l)" for os i
    by (simp add: releaseEntity_def entity_reads_add Let_def)
  show "adds (objects_at d s) (entities_at d s) l (releaseEndpoint d ty i s l)"
    by (simp add: releaseEndpoint_def o e)
qed

lemma records_add:
  "adds (objects_at d s) (entities_at d s) l (record_edges d s es l)"
  "adds (objects_at d s) (entities_at d s) l (record_scores d s ps l)"
  "adds (objects_at d s) (entities_at d s) l (record_aliases d s as l)"
proof -
  show "adds (objects_at d s) (entities_at d s) l (record_edges d s es l)"
  proof (induction d s es l rule: record_edges.induct)
    case (3 d s e es l)
    then show ?case
      by (simp, elim adds_trans [OF adds_trans [OF adds_trans [OF adds_edge releases_add(3)] releases_add(3)]])
  qed simp_all
  show "adds (objects_at d s) (entities_at d s) l (record_scores d s ps l)"
  proof (induction d s ps l rule: record_scores.induct)
    case (3 d s p ps l)
    then show ?case by (simp, elim adds_trans [OF adds_trans [OF releases_add(1) releases_add(1)]])
  qed simp_all
  show "adds (objects_at d s) (entities_at d s) l (record_aliases d s as l)"
  proof (induction d s as l rule: record_aliases.induct)
    case (3 d s a as l)
    then show ?case by (simp, elim adds_trans [OF releases_add(1)])
  qed simp_all
qed

section \<open>The calls of a handler\<close>

text \<open>
  One call of a handler, whatever it does with the answer. The database is in any state at
  each call: other requests may write between two calls.
\<close>

inductive handler_step :: "'s renderDriver \<Rightarrow> Ledger option \<Rightarrow> Ledger option \<Rightarrow> bool" for d where
  "handler_step d l (snd (renderObjects_Get d i s l))"
| "handler_step d l (snd (renderObjects_GetByContentHash d h p s l))"
| "handler_step d l (snd (renderObjects_GetBySourceKey d k s l))"
| "handler_step d l (snd (renderObjects_List d f s l))"
| "handler_step d l (snd (renderObjects_ListBySQL d w a f s l))"
| "handler_step d l (snd (renderObjects_VectorSearch d q f s l))"
| "handler_step d l (snd (renderObjects_FTSSearch d t f s l))"
| "handler_step d l (snd (renderObjects_FTSSearchNodeAware d t f na s l))"
| "handler_step d l (snd (renderObjects_VectorSearchNodeAware d q f na s l))"
| "handler_step d l (snd (renderObjects_ListDueReminders d now s l))"
| "handler_step d l (snd (renderObjects_ListPendingReminders d s l))"
| "handler_step d l (snd (ledgerEntities_Get d g s l))"
| "handler_step d l (snd (ledgerEntities_List d ef s l))"
| "handler_step d l (snd (ledgerEntities_Resolve d m s l))"
| "handler_step d l (snd (ledgerEdges_ListFrom d ty i s l))"
| "handler_step d l (snd (ledgerEdges_ListTo d ty i s l))"
| "handler_step d l (snd (ledgerProximity_GetNeighbors d i n s l))"
| "handler_step d l (snd (ledgerProximity_GetNeighborsAbove d i th s l))"
| "handler_step d l (snd (ledgerProximity_Get d i j s l))"
| "handler_step d l (snd (ledgerAliases_Resolve d al p s l))"
| "handler_step d l (snd (ledgerAliases_List d af s l))"

inductive reachable_ledger :: "'s renderDriver \<Rightarrow> Ledger option \<Rightarrow> bool" for d where
  start: "reachable_ledger d (Some NewLedger)"
| step: "reachable_ledger d l \<Longrightarrow> handler_step d l l' \<Longrightarrow> reachable_ledger d l'"

lemma referring_reads_add:
  "adds (objects_at d s) (entities_at d s) l (snd (ledgerEdges_ListFrom d ty i s l))"
  "adds (objects_at d s) (entities_at d s) l (snd (ledgerEdges_ListTo d ty i s l))"
  "adds (objects_at d s) (entities_at d s) l (snd (ledgerProximity_GetNeighbors d i n s l))"
  "adds (objects_at d s) (entities_at d s) l (snd (ledgerProximity_GetNeighborsAbove d i th s l))"
  "adds (objects_at d s) (entities_at d s) l (snd (ledgerProximity_Get d i j s l))"
  "adds (objects_at d s) (entities_at d s) l (snd (ledgerAliases_Resolve d al p s l))"
  "adds (objects_at d s) (entities_at d s) l (snd (ledgerAliases_List d af s l))"
  by (simp_all only: ledgerEdges_ListFrom_def ledgerEdges_ListTo_def ledgerProximity_GetNeighbors_def
        ledgerProximity_GetNeighborsAbove_def ledgerProximity_Get_def ledgerAliases_Resolve_def ledgerAliases_List_def
        split: sum.split if_split)
    (simp_all add: records_add releases_add)

lemma handler_step_adds:
  "handler_step d l l' \<Longrightarrow> \<exists>s. adds (objects_at d s) (entities_at d s) l l'"
  by (erule handler_step.cases; hypsubst; rule exI)
    (rule object_reads_add entity_reads_add referring_reads_add)+

definition known :: "'s renderDriver \<Rightarrow> Ledger option \<Rightarrow> bool" where
  "known d l \<longleftrightarrow>
     (\<forall>i. HasObject l i \<longrightarrow> (\<exists>s x. answers_object (scoped_objects d) s x \<and> ko_ID x = i)) \<and>
     (\<forall>g. HasEntity l g \<longrightarrow>
        (\<exists>s e. answers_entity (dr_Entities (rdr_driver d)) s e \<and> ent_Slug e = TrimPrefix g EntityURIPrefix))"

lemma known_step: "known d l \<Longrightarrow> adds (objects_at d s) (entities_at d s) l l' \<Longrightarrow> known d l'"
  unfolding known_def adds_def by (metis mem_Collect_eq)

lemma reachable_known: "reachable_ledger d l \<Longrightarrow> known d l"
proof (induction rule: reachable_ledger.induct)
  case start
  show ?case by (simp add: known_def HasObject_def HasEntity_def NewLedger_def)
next
  case (step l l')
  from handler_step_adds [OF step.hyps(2)] obtain s where "adds (objects_at d s) (entities_at d s) l l'" ..
  with step.IH show ?case by (rule known_step)
qed

section \<open>Every object a handler sees\<close>

definition present :: "'a option list \<Rightarrow> 'a list" where
  "present xs = List.map_filter id xs"

lemma present_simps [simp]: "present [] = []" "present (None # xs) = present xs" "present (Some x # xs) = x # present xs"
  by (simp_all add: present_def List.map_filter_simps)

definition all_released :: "'s renderDriver \<Rightarrow> Ledger option \<Rightarrow> KnowledgeObject option list \<Rightarrow> KnowledgeObject option list \<Rightarrow> bool" where
  "all_released d l xs rs \<longleftrightarrow> list_all2 (\<lambda>x r. \<exists>out. r = Some out \<and> released d l x out) (present xs) rs"

lemma renderAll_released:
  assumes "renderAll d xs (Some l) = (rs, l')"
  shows "all_released d l' xs rs"
  using assms
proof (induction xs arbitrary: l rs)
  case Nil
  then show ?case by (simp add: all_released_def)
next
  case (Cons a xs)
  show ?case
  proof (cases a)
    case None
    with Cons show ?thesis by (simp add: all_released_def)
  next
    case (Some x)
    obtain r l1 where r: "render d (Some x) (Some l) = (r, l1)" by fastforce
    obtain rs1 where rs1: "renderAll d xs l1 = (rs1, l')" "rs = r # rs1"
      using Cons.prems Some r by (auto split: prod.splits)
    from r obtain out where out: "r = Some out" "released d l1 x out" "adds {x} {} (Some l) l1"
      by (rule render_released)
    from out(3) obtain l2 where l1: "l1 = Some l2" by (cases l1) (simp_all add: adds_def)
    have "adds {x. Some x \<in> set xs} {} l1 l'" using renderAll_adds [of xs l1 d] rs1(1) by simp
    with out(2) have "released d l' x out" by (rule released_mono)
    moreover have "all_released d l' xs rs1" using Cons.IH rs1(1) l1 by blast
    ultimately show ?thesis using Some out(1) rs1(2) by (simp add: all_released_def)
  qed
qed

text \<open>A node-aware result as a handler may see it: its object released, its hits inside the view.\<close>

definition result_released :: "'s renderDriver \<Rightarrow> Ledger option \<Rightarrow> NodeAwareResult \<Rightarrow> NodeAwareResult \<Rightarrow> bool" where
  "result_released d l r r' \<longleftrightarrow>
     (\<exists>x out. nar_Object r = Some x \<and> nar_Object r' = Some out \<and> released d l x out \<and>
        set (nar_NodeHits r') \<subseteq> set (nar_NodeHits r) \<and>
        (\<forall>h \<in> set (nar_NodeHits r'). \<exists>g. ko_Graph out = Some g \<and>
           nodeIDOfRef (nh_NodeRef h) \<in> node_ID ` set (graph_Nodes g)) \<and>
        nar_DocumentView r' \<in> {None, Some (ProjectDocument (Some out))})"

lemma FindNode_Some: "FindNode g i = Some n \<Longrightarrow> \<exists>og. g = Some og \<and> i \<in> node_ID ` set (graph_Nodes og)"
  by (cases g) (auto simp: FindNode_def find_Some_iff)

lemma rebuild_result_released:
  assumes "nar_Object r = Some x" and "released d l x out"
  shows "result_released d l r (rebuild_result r (Some out))"
  using assms by (fastforce simp: result_released_def rebuild_result_def dest: FindNode_Some)

lemma renderNodeAware_released:
  assumes "renderNodeAware d rs (Some l) = (out, l')"
  shows "list_all2 (\<lambda>r r'. \<exists>y. r' = Some y \<and> result_released d l' r y)
    (filter (\<lambda>r. nar_Object r \<noteq> None) (present rs)) out"
  using assms
proof (induction rs arbitrary: l out)
  case Nil
  then show ?case by simp
next
  case (Cons a rs)
  show ?case
  proof (cases "a = None \<or> nar_Object (the a) = None")
    case True
    with Cons show ?thesis by (cases a) auto
  next
    case False
    then obtain r x where a: "a = Some r" "nar_Object r = Some x" by (cases a) auto
    obtain y l1 where y: "render d (Some x) (Some l) = (y, l1)" by fastforce
    obtain out1 where out1: "renderNodeAware d rs l1 = (out1, l')" "out = Some (rebuild_result r y) # out1"
      using Cons.prems a y by (auto split: prod.splits)
    from y obtain v where v: "y = Some v" "released d l1 x v" "adds {x} {} (Some l) l1" by (rule render_released)
    from v(3) obtain l2 where l1: "l1 = Some l2" by (cases l1) (simp_all add: adds_def)
    have "adds (result_objects rs) {} l1 l'" using renderNodeAware_adds [of rs l1 d] out1(1) by simp
    with v(2) have "released d l' x v" by (rule released_mono)
    with a(2) have "result_released d l' r (rebuild_result r y)" unfolding v(1) by (rule rebuild_result_released)
    moreover have "list_all2 (\<lambda>r r'. \<exists>y. r' = Some y \<and> result_released d l' r y)
        (filter (\<lambda>r. nar_Object r \<noteq> None) (present rs)) out1"
      using Cons.IH out1(1) l1 by blast
    ultimately show ?thesis using a out1(2) by simp
  qed
qed

lemma one_rendered_released:
  assumes "one_rendered d opr s (Some l) = (Inr (Some out), l')"
  shows "\<exists>x. opr s = Inr (Some x) \<and> released d l' x out"
proof -
  from assms obtain x where x: "opr s = Inr x" "render d x (Some l) = (Some out, l')"
    by (auto simp: one_rendered_def split: sum.splits prod.splits)
  then obtain y where y: "x = Some y" by (cases x) (auto simp: render_def)
  with x(2) obtain v where "Some out = Some v" "released d l' y v" by (metis render_released)
  with x y show ?thesis by auto
qed

lemma list_rendered_released:
  "list_rendered d opr s (Some l) = (Inr rs, l') \<Longrightarrow> \<exists>xs. opr s = Inr xs \<and> all_released d l' xs rs"
  by (auto simp: list_rendered_def dest: renderAll_released split: sum.splits prod.splits)

lemma page_rendered_released:
  "page_rendered d opr s (Some l) = (Inr (rs, n), l') \<Longrightarrow> \<exists>xs. opr s = Inr (xs, n) \<and> all_released d l' xs rs"
  by (auto simp: page_rendered_def dest: renderAll_released split: sum.splits prod.splits)

lemma nodes_rendered_released:
  "nodes_rendered d opr s (Some l) = (Inr out, l') \<Longrightarrow>
   \<exists>rs. opr s = Inr rs \<and> list_all2 (\<lambda>r r'. \<exists>y. r' = Some y \<and> result_released d l' r y)
          (filter (\<lambda>r. nar_Object r \<noteq> None) (present rs)) out"
  by (auto simp: nodes_rendered_def dest: renderNodeAware_released split: sum.splits prod.splits)

lemmas render_read_defs = renderObjects_Get_def renderObjects_GetByContentHash_def renderObjects_GetBySourceKey_def
  renderObjects_List_def renderObjects_ListBySQL_def renderObjects_VectorSearch_def renderObjects_FTSSearch_def
  renderObjects_FTSSearchNodeAware_def renderObjects_VectorSearchNodeAware_def
  renderObjects_ListDueReminders_def renderObjects_ListPendingReminders_def

section \<open>Properties\<close>

text \<open>
  C5: a handler sees rendered objects only. Whatever object read of a restricted viewer's
  driver succeeds, each object it returns is the rendering of a row the scoped store
  answered, in order and none left out; afterwards the ledger knows its identifier and all
  values withheld from it. A node-aware result keeps only hits that point into the rendered
  graph, and its document view is rebuilt from the rendered object.
\<close>

theorem handler_sees_only_rendered:
  assumes "l = Some l0"
  shows "(renderObjects_Get d i s l = (Inr (Some out), l') \<longrightarrow>
       (\<exists>x. os_Get (scoped_objects d) i s = Inr (Some x) \<and> released d l' x out)) \<and>
    (renderObjects_GetByContentHash d i p s l = (Inr (Some out), l') \<longrightarrow>
       (\<exists>x. os_GetByContentHash (scoped_objects d) i p s = Inr (Some x) \<and> released d l' x out)) \<and>
    (renderObjects_GetBySourceKey d i s l = (Inr (Some out), l') \<longrightarrow>
       (\<exists>x. os_GetBySourceKey (scoped_objects d) i s = Inr (Some x) \<and> released d l' x out)) \<and>
    (renderObjects_List d f s l = (Inr (rs, n), l') \<longrightarrow>
       (\<exists>xs. os_List (scoped_objects d) f s = Inr (xs, n) \<and> all_released d l' xs rs)) \<and>
    (renderObjects_ListBySQL d i a f s l = (Inr (rs, n), l') \<longrightarrow>
       (\<exists>xs. os_ListBySQL (scoped_objects d) i a f s = Inr (xs, n) \<and> all_released d l' xs rs)) \<and>
    (renderObjects_VectorSearch d q f s l = (Inr rs, l') \<longrightarrow>
       (\<exists>xs. os_VectorSearch (scoped_objects d) q f s = Inr xs \<and> all_released d l' xs rs)) \<and>
    (renderObjects_FTSSearch d i f s l = (Inr rs, l') \<longrightarrow>
       (\<exists>xs. os_FTSSearch (scoped_objects d) i f s = Inr xs \<and> all_released d l' xs rs)) \<and>
    (renderObjects_FTSSearchNodeAware d i f na s l = (Inr ns, l') \<longrightarrow>
       (\<exists>xs. os_FTSSearchNodeAware (scoped_objects d) i f na s = Inr xs \<and>
          list_all2 (\<lambda>r r'. \<exists>y. r' = Some y \<and> result_released d l' r y)
            (filter (\<lambda>r. nar_Object r \<noteq> None) (present xs)) ns)) \<and>
    (renderObjects_VectorSearchNodeAware d q f na s l = (Inr ns, l') \<longrightarrow>
       (\<exists>xs. os_VectorSearchNodeAware (scoped_objects d) q f na s = Inr xs \<and>
          list_all2 (\<lambda>r r'. \<exists>y. r' = Some y \<and> result_released d l' r y)
            (filter (\<lambda>r. nar_Object r \<noteq> None) (present xs)) ns)) \<and>
    (renderObjects_ListDueReminders d now s l = (Inr rs, l') \<longrightarrow>
       (\<exists>xs. os_ListDueReminders (scoped_objects d) now s = Inr xs \<and> all_released d l' xs rs)) \<and>
    (renderObjects_ListPendingReminders d s l = (Inr rs, l') \<longrightarrow>
       (\<exists>xs. os_ListPendingReminders (scoped_objects d) s = Inr xs \<and> all_released d l' xs rs))"
  unfolding assms render_read_defs
  by (intro conjI impI one_rendered_released list_rendered_released page_rendered_released nodes_rendered_released)

definition sample_render_driver :: "KnowledgeObject list renderDriver" where
  "sample_render_driver = \<lparr>rdr_driver = sample_driver, rdr_v = sample_viewer, rdr_prov = Some sample_provenance\<rparr>"

theorem handler_sees_only_rendered_witness:
  "\<exists>l'. renderObjects_Get sample_render_driver ''n1'' [sample_object\<lparr>ko_ID := ''n1''\<rparr>] (Some NewLedger) =
      (Inr (Some (sample_rendered\<lparr>ko_ID := ''n1''\<rparr>)), l') \<and> HasObject l' ''n1'' \<and>
      ''a long private text'' \<in> withheld_in l'"
proof -
  let ?x = "sample_object\<lparr>ko_ID := ''n1''\<rparr>" and ?out = "sample_rendered\<lparr>ko_ID := ''n1''\<rparr>"
  let ?l = "Some \<lparr>ld_objects = [''n1''], ld_entities = [], ld_edges = [],
     ld_canaries = [(''a long private text'', ''content''), (''closed part'', ''personal'')]\<rparr>"
  have run: "renderObjects_Get sample_render_driver ''n1'' [?x] (Some NewLedger) = (Inr (Some ?out), ?l)" by code_simp
  have o: "os_Get (scoped_objects sample_render_driver) ''n1'' [?x] = Inr (Some ?x)" by code_simp
  have w: "rn_Withheld (Render sample_viewer (Some ?x) (Some sample_provenance)) =
      [\<lparr>wh_Category = ''content'', wh_Value = ''a long private text''\<rparr>,
       \<lparr>wh_Category = ''personal'', wh_Value = ''closed part''\<rparr>]" by code_simp
  have "released sample_render_driver ?l ?x ?out"
    using handler_sees_only_rendered [OF refl, of sample_render_driver "''n1''" "[?x]" NewLedger ?out ?l] run o by simp
  moreover have "rdr_v sample_render_driver = sample_viewer" "rdr_prov sample_render_driver = Some sample_provenance"
    by (simp_all add: sample_render_driver_def)
  ultimately show ?thesis using run w by (auto simp: released_def)
qed

text \<open>
  C6: the ledger knows only what scoped reads answered. After any sequence of calls a handler
  makes, with any writes by others in between, every object the ledger knows is one that
  the scoped object store answered, and every entity one that the scoped entity store
  answered: ends of edges, neighbours and alias targets are never recorded on the referring
  row's word.
\<close>

theorem ledger_knows_only_scoped_answers:
  assumes "reachable_ledger d l"
  shows "(HasObject l i \<longrightarrow> (\<exists>s x. answers_object (dr_Objects (rdr_driver d)) s x \<and> ko_ID x = i)) \<and>
    (HasEntity l g \<longrightarrow> (\<exists>s e. answers_entity (dr_Entities (rdr_driver d)) s e \<and> ent_Slug e = TrimPrefix g EntityURIPrefix))"
  using reachable_known [OF assms] by (simp add: known_def)

theorem ledger_knows_only_scoped_answers_witness:
  "let l = snd (renderObjects_Get sample_render_driver ''n1'' [sample_object\<lparr>ko_ID := ''n1''\<rparr>] (Some NewLedger))
   in HasObject l ''n1'' \<and> (\<exists>s x. answers_object (dr_Objects sample_driver) s x \<and> ko_ID x = ''n1'')"
proof -
  let ?l = "snd (renderObjects_Get sample_render_driver ''n1'' [sample_object\<lparr>ko_ID := ''n1''\<rparr>] (Some NewLedger))"
  have "reachable_ledger sample_render_driver ?l"
    by (rule reachable_ledger.step [OF reachable_ledger.start handler_step.intros(1)])
  from ledger_knows_only_scoped_answers [OF this, of "''n1''"]
  have "HasObject ?l ''n1'' \<longrightarrow> (\<exists>s x. answers_object (dr_Objects sample_driver) s x \<and> ko_ID x = ''n1'')"
    by (simp add: sample_render_driver_def)
  moreover have "HasObject ?l ''n1''" by code_simp
  ultimately show ?thesis by simp
qed

text \<open>
  A rendered object is never written back. Under a restricted viewer's driver an update
  reaches the database only when the plan projects every field of the object's type, so that
  what the handler read is the stored row; any other update is refused with the restricted
  viewer error and changes nothing.
\<close>

theorem update_only_with_all_fields:
  assumes "\<not> fs_all (newFieldSet (plan_FieldsFor (Plan (rdr_v d)) (ko_Type x)))"
  shows "renderObjects_Update d (Some x) s = (Inl (updateRefused (ko_ID x)), s) \<and>
    errors_Is (updateRefused (ko_ID x)) ErrRestrictedViewer \<and>
    (fs_all (newFieldSet (plan_FieldsFor (Plan (rdr_v d)) (ko_Type y))) \<longrightarrow>
       renderObjects_Update d (Some y) s = os_Update (scoped_objects d) (Some y) s)"
  using assms by (simp add: renderObjects_Update_def errors_Is_def updateRefused_def)

theorem update_only_with_all_fields_witness:
  "renderObjects_Update sample_render_driver (Some sample_object) [] = (Inl (updateRefused (ko_ID sample_object)), [])"
proof -
  have "\<not> fs_all (newFieldSet (plan_FieldsFor (Plan (rdr_v sample_render_driver)) (ko_Type sample_object)))" by code_simp
  from update_only_with_all_fields [OF this] show ?thesis by blast
qed

text \<open>
  What storage a request gets. A request no transport attached a viewer to gets the driver
  that refuses every read; an unrestricted viewer gets the driver itself; any other viewer
  gets the rendering driver over the driver scoped to it, with the request's ledger or a
  fresh one.
\<close>

theorem scoped_by_viewer:
  "Scoped None ctx_l d prov = Direct (ScopedDriver None (Some d)) \<and>
   (IsUnrestricted v \<longrightarrow> Scoped (Some v) ctx_l d prov = Direct (Some d)) \<and>
   (\<not> IsUnrestricted v \<longrightarrow>
      Scoped (Some v) ctx_l d prov =
        Rendering \<lparr>rdr_driver = scopedDriver d (ViewerScope (Some v) (driverDialect d)), rdr_v = v, rdr_prov = prov\<rparr>
          (if ctx_l = None then Some NewLedger else ctx_l))"
  by (simp add: Scoped_def FromContext_def ScopedDriver_def)

theorem scoped_by_viewer_witness:
  "Scoped (Some Unrestricted) None sample_driver None = Direct (Some sample_driver) \<and>
   \<not> IsUnrestricted ana_viewer \<and>
   (\<exists>d. Scoped (Some ana_viewer) None sample_driver None = Rendering d (Some NewLedger))"
proof -
  have "IsUnrestricted Unrestricted" by code_simp
  then show ?thesis
    using scoped_by_viewer [of None sample_driver None Unrestricted]
      scoped_by_viewer [of None sample_driver None ana_viewer] ana_restricted(1) by simp
qed

end
