(* ===== verification/Share_Audit.thy ===== *)
theory Share_Audit
  imports Share_Registry Share_Backstop "HOL-Library.Word" "HOL-Library.Multiset"
begin

text \<open>
  The read audit: \<open>internal/sharing/audit.go\<close>. The writer is the struct's state under its
  mutex; the access log store's \<open>Append\<close> is a parameter. \<open>Record\<close>, \<open>Flush\<close> and \<open>Close\<close> are
  functions on that state. Requests, the writer's goroutine and callers of \<open>Flush\<close> and
  \<open>Close\<close> run concurrently, so the writer as a whole is the step relation \<open>audit_step\<close>: a
  flush takes the buffer in one step and appends it in a later one, and any other steps may
  come between. The counter of lost entries is a 64-bit word.

  The lemmas show that every recorded entry is in exactly one place (buffered, being
  appended, stored or lost), that the counter counts the lost ones, that the buffer keeps
  its bound, and that closing drains it.
\<close>

section \<open>The writer\<close>

definition DefaultAuditBatch :: int where "DefaultAuditBatch = 64"

text \<open>Durations are in nanoseconds.\<close>

definition DefaultAuditInterval :: int where "DefaultAuditInterval = 2000000000"

definition DefaultAuditCapacity :: int where "DefaultAuditCapacity = 10000"

record AuditOptions =
  ao_Batch :: int
  ao_Interval :: int
  ao_Capacity :: int

record AuditWriter =
  aw_opts :: AuditOptions
  aw_buf :: "AccessEntry list"
  aw_closed :: bool
  aw_dropped :: "64 word"
  aw_kick :: bool
  aw_stop :: bool
  aw_done :: bool

text \<open>The boolean says whether there is a store. \<open>aw_kick\<close> is the one-element channel.\<close>

definition NewAuditWriter :: "bool \<Rightarrow> AuditOptions \<Rightarrow> AuditWriter option" where
  "NewAuditWriter store opts =
     (if \<not> store then None
      else Some \<lparr>aw_opts = \<lparr>ao_Batch = (if ao_Batch opts \<le> 0 then DefaultAuditBatch else ao_Batch opts),
                           ao_Interval = (if ao_Interval opts \<le> 0 then DefaultAuditInterval else ao_Interval opts),
                           ao_Capacity = (if ao_Capacity opts \<le> 0 then DefaultAuditCapacity else ao_Capacity opts)\<rparr>,
                 aw_buf = [], aw_closed = False, aw_dropped = 0, aw_kick = False, aw_stop = False, aw_done = False\<rparr>)"

definition refuses :: "AuditWriter \<Rightarrow> bool" where
  "refuses w \<longleftrightarrow> aw_closed w \<or> int (length (aw_buf w)) \<ge> ao_Capacity (aw_opts w)"

definition Record_entry :: "AccessEntry \<Rightarrow> AuditWriter \<Rightarrow> AuditWriter" where
  "Record_entry e w =
     (if refuses w then w\<lparr>aw_dropped := aw_dropped w + 1\<rparr>
      else
        (let buf = aw_buf w @ [e]
         in w\<lparr>aw_buf := buf, aw_kick := (aw_kick w \<or> int (length buf) \<ge> ao_Batch (aw_opts w))\<rparr>))"

definition Record :: "AuditWriter option \<Rightarrow> AccessEntry option \<Rightarrow> AuditWriter option" where
  "Record w e =
     (case w of None \<Rightarrow> None | Some x \<Rightarrow> (case e of None \<Rightarrow> w | Some a \<Rightarrow> Some (Record_entry a x)))"

definition flush_take :: "AuditWriter \<Rightarrow> AccessEntry list \<times> AuditWriter" where
  "flush_take w = (aw_buf w, w\<lparr>aw_buf := []\<rparr>)"

definition flush_failed :: "AccessEntry list \<Rightarrow> AuditWriter \<Rightarrow> AuditWriter" where
  "flush_failed batch w = w\<lparr>aw_dropped := aw_dropped w + of_nat (length batch)\<rparr>"

text \<open>\<open>app\<close> is the store's \<open>Append\<close>: whether it succeeded, and the store after it.\<close>

definition Flush ::
  "(AccessEntry list \<Rightarrow> 'st \<Rightarrow> bool \<times> 'st) \<Rightarrow> AuditWriter option \<Rightarrow> 'st \<Rightarrow> bool \<times> AuditWriter option \<times> 'st" where
  "Flush app w st =
     (case w of
        None \<Rightarrow> (True, None, st)
      | Some x \<Rightarrow>
          (case flush_take x of (batch, x1) \<Rightarrow>
             if batch = [] then (True, Some x1, st)
             else (case app batch st of (ok, st1) \<Rightarrow>
                     (ok, Some (if ok then x1 else flush_failed batch x1), st1))))"

definition close_begin :: "AuditWriter \<Rightarrow> AuditWriter" where
  "close_begin w = w\<lparr>aw_closed := True, aw_stop := True\<rparr>"

text \<open>\<open>Close\<close> alone: the goroutine's exit is the only other step.\<close>

definition Close ::
  "(AccessEntry list \<Rightarrow> 'st \<Rightarrow> bool \<times> 'st) \<Rightarrow> AuditWriter option \<Rightarrow> 'st \<Rightarrow> bool \<times> AuditWriter option \<times> 'st" where
  "Close app w st =
     (case w of
        None \<Rightarrow> (True, None, st)
      | Some x \<Rightarrow>
          if aw_closed x then (True, w, st)
          else Flush app (Some ((close_begin x)\<lparr>aw_done := True\<rparr>)) st)"

definition Dropped :: "AuditWriter option \<Rightarrow> 64 word" where
  "Dropped w = (case w of None \<Rightarrow> 0 | Some x \<Rightarrow> aw_dropped x)"

definition Buffered :: "AuditWriter option \<Rightarrow> nat" where
  "Buffered w = (case w of None \<Rightarrow> 0 | Some x \<Rightarrow> length (aw_buf x))"

section \<open>Interleavings\<close>

text \<open>
  The writer, the batches being appended and the stored entries; \<open>sy_recorded\<close> and \<open>sy_lost\<close>
  are history: the entries handed to \<open>Record\<close> and those dropped or lost in a failed append.
\<close>

record audit_system =
  sy_w :: AuditWriter
  sy_flight :: "AccessEntry list list"
  sy_stored :: "AccessEntry list"
  sy_recorded :: "AccessEntry list"
  sy_lost :: "AccessEntry list"

definition audit_start :: "AuditWriter \<Rightarrow> audit_system" where
  "audit_start w = \<lparr>sy_w = w, sy_flight = [], sy_stored = [], sy_recorded = [], sy_lost = []\<rparr>"

inductive audit_step :: "audit_system \<Rightarrow> audit_system \<Rightarrow> bool" where
  recorded:
    "audit_step st (st\<lparr>sy_w := Record_entry e (sy_w st), sy_recorded := sy_recorded st @ [e],
        sy_lost := sy_lost st @ (if refuses (sy_w st) then [e] else [])\<rparr>)"
| take:
    "flush_take (sy_w st) = (batch, w) \<Longrightarrow> batch \<noteq> [] \<Longrightarrow>
     audit_step st (st\<lparr>sy_w := w, sy_flight := sy_flight st @ [batch]\<rparr>)"
| appended:
    "sy_flight st = xs @ batch # ys \<Longrightarrow>
     audit_step st (st\<lparr>sy_flight := xs @ ys, sy_stored := sy_stored st @ batch\<rparr>)"
| lost:
    "sy_flight st = xs @ batch # ys \<Longrightarrow>
     audit_step st (st\<lparr>sy_flight := xs @ ys, sy_w := flush_failed batch (sy_w st), sy_lost := sy_lost st @ batch\<rparr>)"
| kicked:
    "aw_kick (sy_w st) \<Longrightarrow> \<not> aw_done (sy_w st) \<Longrightarrow> audit_step st (st\<lparr>sy_w := (sy_w st)\<lparr>aw_kick := False\<rparr>\<rparr>)"
| close:
    "\<not> aw_closed (sy_w st) \<Longrightarrow> audit_step st (st\<lparr>sy_w := close_begin (sy_w st)\<rparr>)"
| exit:
    "aw_stop (sy_w st) \<Longrightarrow> audit_step st (st\<lparr>sy_w := (sy_w st)\<lparr>aw_done := True\<rparr>\<rparr>)"

inductive_cases audit_stepE: "audit_step st st'"

inductive audit_reachable :: "AuditWriter \<Rightarrow> audit_system \<Rightarrow> bool" for w where
  start: "audit_reachable w (audit_start w)"
| step: "audit_reachable w st \<Longrightarrow> audit_step st st' \<Longrightarrow> audit_reachable w st'"

section \<open>Invariants\<close>

definition accounted :: "audit_system \<Rightarrow> bool" where
  "accounted st \<longleftrightarrow>
     mset (sy_recorded st) =
       mset (aw_buf (sy_w st)) + mset (concat (sy_flight st)) + mset (sy_stored st) + mset (sy_lost st) \<and>
     aw_dropped (sy_w st) = of_nat (length (sy_lost st))"

definition bounded :: "audit_system \<Rightarrow> bool" where
  "bounded st \<longleftrightarrow>
     int (length (aw_buf (sy_w st))) \<le> ao_Capacity (aw_opts (sy_w st)) \<and>
     (aw_done (sy_w st) \<longrightarrow> aw_stop (sy_w st)) \<and> (aw_stop (sy_w st) \<longleftrightarrow> aw_closed (sy_w st))"

lemma accounted_step: "accounted st \<Longrightarrow> audit_step st st' \<Longrightarrow> accounted st'"
  by (erule audit_stepE)
    (auto simp: accounted_def Record_entry_def flush_take_def flush_failed_def close_begin_def Let_def)

lemma bounded_step: "bounded st \<Longrightarrow> audit_step st st' \<Longrightarrow> bounded st' \<and> aw_opts (sy_w st') = aw_opts (sy_w st)"
  by (erule audit_stepE)
    (auto simp: bounded_def Record_entry_def flush_take_def flush_failed_def close_begin_def Let_def refuses_def)

lemma reachable_invariants:
  assumes "NewAuditWriter True opts = Some w" and "audit_reachable w st"
  shows "accounted st \<and> bounded st \<and> aw_opts (sy_w st) = aw_opts w"
  using assms(2)
proof (induction rule: audit_reachable.induct)
  case start
  from assms(1) show ?case
    by (auto simp: accounted_def bounded_def audit_start_def NewAuditWriter_def DefaultAuditCapacity_def)
next
  case (step st st')
  then show ?case using accounted_step bounded_step by metis
qed

section \<open>Entries\<close>

record Preview =
  pv_Target :: string
  pv_Principal :: string
  pv_Identity :: string

definition AccessEntryFor :: "Preview option \<Rightarrow> Viewer \<Rightarrow> string \<Rightarrow> Ledger option \<Rightarrow> time \<Rightarrow> AccessEntry" where
  "AccessEntryFor ctx v route l now =
     (let e = \<lparr>acc_ID = [], acc_At = now, acc_PrincipalID = Viewer_PrincipalID v, acc_IdentityID = Viewer_IdentityID v,
               acc_Route = route, acc_PolicyVersions = PolicyKey v,
               acc_ObjectCount = int (length (Ledger_Objects l)), acc_EntityCount = int (length (Ledger_Entities l)),
               acc_ObjectIDs = Ledger_Objects l\<rparr>;
          e1 = (case ctx of
                  None \<Rightarrow> e
                | Some p \<Rightarrow> e\<lparr>acc_PrincipalID := pv_Principal p, acc_IdentityID := pv_Identity p,
                              acc_PolicyVersions := ''preview='' @ pv_Target p @ '';'' @ acc_PolicyVersions e\<rparr>)
      in if acc_PrincipalID e1 = [] then e1\<lparr>acc_PrincipalID := OwnerPrincipal\<rparr> else e1)"

section \<open>Properties\<close>

text \<open>
  C39: the read audit accounts for every entry. Whatever the interleaving of requests, the
  writer's goroutine, flushes and a close, and whether or not appends fail, each entry
  handed to \<open>Record\<close> is in exactly one place: waiting in the buffer, in a batch being
  appended, stored, or lost; the 64-bit counter \<open>Dropped\<close> is the number of lost entries
  modulo its width; and the buffer never exceeds the capacity.
\<close>

theorem audit_accounts_for_every_entry:
  assumes "NewAuditWriter True opts = Some w" and "audit_reachable w st"
  shows "mset (sy_recorded st) =
      mset (aw_buf (sy_w st)) + mset (concat (sy_flight st)) + mset (sy_stored st) + mset (sy_lost st) \<and>
    Dropped (Some (sy_w st)) = of_nat (length (sy_lost st)) \<and>
    int (Buffered (Some (sy_w st))) \<le> (if ao_Capacity opts \<le> 0 then 10000 else ao_Capacity opts)"
proof -
  have "ao_Capacity (aw_opts w) = (if ao_Capacity opts \<le> 0 then 10000 else ao_Capacity opts)"
    using assms(1) by (auto simp: NewAuditWriter_def DefaultAuditCapacity_def)
  then show ?thesis
    using reachable_invariants [OF assms] by (auto simp: accounted_def bounded_def Dropped_def Buffered_def)
qed

definition sample_entry :: AccessEntry where
  "sample_entry = \<lparr>acc_ID = [], acc_At = 5, acc_PrincipalID = ''ana'', acc_IdentityID = ''key1'', acc_Route = ''GET /objects'',
     acc_PolicyVersions = [], acc_ObjectCount = 0, acc_EntityCount = 0, acc_ObjectIDs = []\<rparr>"

definition sample_writer :: AuditWriter where
  "sample_writer = \<lparr>aw_opts = \<lparr>ao_Batch = 1, ao_Interval = 5, ao_Capacity = 1\<rparr>, aw_buf = [], aw_closed = False,
     aw_dropped = 0, aw_kick = False, aw_stop = False, aw_done = False\<rparr>"

lemma sample_writer_new: "NewAuditWriter True \<lparr>ao_Batch = 1, ao_Interval = 5, ao_Capacity = 1\<rparr> = Some sample_writer"
  by (simp add: NewAuditWriter_def sample_writer_def)

theorem audit_accounts_for_every_entry_witness:
  "\<exists>st. audit_reachable sample_writer st \<and> length (sy_recorded st) = 2 \<and> sy_lost st = [sample_entry] \<and>
     Dropped (Some (sy_w st)) = of_nat (length (sy_lost st))"
proof -
  let ?s1 = "\<lambda>st. st\<lparr>sy_w := Record_entry sample_entry (sy_w st), sy_recorded := sy_recorded st @ [sample_entry],
        sy_lost := sy_lost st @ (if refuses (sy_w st) then [sample_entry] else [])\<rparr>"
  let ?st = "?s1 (?s1 (audit_start sample_writer))"
  have r: "audit_reachable sample_writer ?st"
    by (intro audit_reachable.step [OF _ audit_step.recorded] audit_reachable.start)
  have "length (sy_recorded ?st) = 2 \<and> sy_lost ?st = [sample_entry]"
    by (simp add: audit_start_def refuses_def Record_entry_def sample_writer_def)
  with r audit_accounts_for_every_entry [OF sample_writer_new r] show ?thesis by blast
qed

text \<open>
  Closing drains the buffer. When the store's append works, \<open>Close\<close> of an open writer
  appends exactly the buffered entries in order, loses none and leaves an empty buffer; when
  the append fails, they are counted as lost and the error is returned. A closed writer
  accepts no entry: each further \<open>Record\<close> only counts a loss, and a second \<open>Close\<close> does
  nothing. A nil writer records nothing.
\<close>

theorem audit_close_drains:
  assumes "\<not> aw_closed w" and "aw_buf w \<noteq> []" and "app (aw_buf w) st = (ok, st')"
  shows "\<exists>w'. Close app (Some w) st = (ok, Some w', st') \<and> aw_buf w' = [] \<and> aw_closed w' \<and>
     aw_dropped w' = aw_dropped w + (if ok then 0 else of_nat (length (aw_buf w))) \<and>
     Close app (Some w') st' = (True, Some w', st') \<and>
     Record (Some w') (Some e) = Some (w'\<lparr>aw_dropped := aw_dropped w' + 1\<rparr>) \<and>
     Record None (Some e) = None"
  using assms
  by (auto simp: Close_def Flush_def flush_take_def flush_failed_def close_begin_def Record_def Record_entry_def refuses_def)

theorem audit_close_drains_witness:
  "let w = sample_writer\<lparr>aw_buf := [sample_entry]\<rparr>
   in \<exists>w'. Close (\<lambda>b st. (True, st @ b)) (Some w) [] = (True, Some w', [sample_entry]) \<and> aw_buf w' = [] \<and> aw_dropped w' = 0"
proof -
  let ?w = "sample_writer\<lparr>aw_buf := [sample_entry]\<rparr>"
  have a: "\<not> aw_closed ?w" "aw_buf ?w \<noteq> []" "aw_dropped ?w = 0" by (simp_all add: sample_writer_def)
  from audit_close_drains [OF a(1,2), of "\<lambda>b st. (True, st @ b)" "[]" True "[sample_entry]" sample_entry] a(3)
  show ?thesis by auto
qed

text \<open>
  The entry of a request says who read what. It lists exactly the objects the request's
  ledger released, sorted and without repeats, with their number and that of the released
  entities; its principal is never empty, so that with a route the store accepts it; a
  preview is logged under the owner's own principal and identity, with the previewed
  viewer's policy versions behind the marker.
\<close>

theorem access_entry_exact:
  "let e = AccessEntryFor ctx v route (Some l) now
   in set (acc_ObjectIDs e) = set (ld_objects l) \<and> sorted_wrt (<) (acc_ObjectIDs e) \<and>
      acc_ObjectCount e = int (card (set (ld_objects l))) \<and> acc_EntityCount e = int (card (set (ld_entities l))) \<and>
      acc_PrincipalID e \<noteq> [] \<and> (route \<noteq> [] \<longrightarrow> (\<exists>r. PrepareAccessEntry fresh (Some e) now = Inr r)) \<and>
      (\<forall>p. ctx = Some p \<longrightarrow> pv_Principal p \<noteq> [] \<longrightarrow>
         acc_PrincipalID e = pv_Principal p \<and> acc_IdentityID e = pv_Identity p \<and>
         acc_PolicyVersions e = ''preview='' @ pv_Target p @ '';'' @ PolicyKey v)"
proof -
  let ?e = "AccessEntryFor ctx v route (Some l) now"
  have ids: "acc_ObjectIDs ?e = sort (remdups (ld_objects l))" "acc_ObjectCount ?e = int (length (sort (remdups (ld_objects l))))"
    "acc_EntityCount ?e = int (length (sort (remdups (ld_entities l))))" "acc_Route ?e = route"
    by (simp_all add: AccessEntryFor_def Let_def Ledger_Objects_def Ledger_Entities_def split: option.split)
  have principal: "acc_PrincipalID ?e \<noteq> []"
    by (simp add: AccessEntryFor_def Let_def OwnerPrincipal_def split: option.split)
  have pv: "acc_PrincipalID ?e = pv_Principal p \<and> acc_IdentityID ?e = pv_Identity p \<and>
      acc_PolicyVersions ?e = ''preview='' @ pv_Target p @ '';'' @ PolicyKey v"
    if "ctx = Some p" "pv_Principal p \<noteq> []" for p
    using that by (simp add: AccessEntryFor_def Let_def)
  have "sorted_wrt (<) (sort (remdups (ld_objects l)))" by (simp add: strict_sorted_iff)
  moreover have "length (sort (remdups xs)) = card (set xs)" for xs :: "string list" by (simp add: length_remdups_card_conv)
  ultimately show ?thesis
    using ids principal pv by (simp add: Let_def PrepareAccessEntry_def)
qed

theorem access_entry_exact_witness:
  "let e = AccessEntryFor (Some \<lparr>pv_Target = ''bob'', pv_Principal = ''owner'', pv_Identity = ''k''\<rparr>) zero_viewer ''GET /x''
             (Some (NewLedger\<lparr>ld_objects := [''o2'', ''o1'']\<rparr>)) 7
   in set (acc_ObjectIDs e) = {''o1'', ''o2''} \<and> acc_PrincipalID e = ''owner''"
  using access_entry_exact [of "Some \<lparr>pv_Target = ''bob'', pv_Principal = ''owner'', pv_Identity = ''k''\<rparr>" zero_viewer
      "''GET /x''" "NewLedger\<lparr>ld_objects := [''o2'', ''o1'']\<rparr>" 7 "''f''"]
  by (auto simp: Let_def)

end
