(* ===== verification/Auth_Scope.thy ===== *)
theory Auth_Scope
  imports Object_Model
begin

text \<open>
  Scopes, roles and the authenticated caller: \<open>internal/auth/scope.go\<close>, \<open>auth.go\<close>,
  \<open>context.go\<close> and \<open>policy.go\<close>. A scope is its \<open>verb:resource\<close> text; a role expands to a
  bundle of scopes, a browser session to a fixed set cut down to what its credential holds.
  The lemmas say what each expansion contains: every list of effective scopes is a sublist of
  \<open>AllScopes\<close>, bundles grow with the role, and neither a key nor a session adds a scope its
  principal lacks, apart from the sign-out scope that only sessions hold.
\<close>

type_synonym Scope_name = string

named_theorems scope_defs \<open>the scope constants and the lists of them\<close>

section \<open>The scopes\<close>

definition ScopeReadObjects :: Scope_name where "ScopeReadObjects = ''read:objects''"
definition ScopeWriteObjects :: Scope_name where "ScopeWriteObjects = ''write:objects''"
definition ScopeDeleteObjects :: Scope_name where "ScopeDeleteObjects = ''delete:objects''"
definition ScopeDeleteEdges :: Scope_name where "ScopeDeleteEdges = ''delete:edges''"
definition ScopeDeleteAliases :: Scope_name where "ScopeDeleteAliases = ''delete:aliases''"
definition ScopeDeleteSearches :: Scope_name where "ScopeDeleteSearches = ''delete:searches''"
definition ScopeReadMCP :: Scope_name where "ScopeReadMCP = ''read:mcp''"
definition ScopeReadInbox :: Scope_name where "ScopeReadInbox = ''read:inbox''"
definition ScopeWriteInbox :: Scope_name where "ScopeWriteInbox = ''write:inbox''"
definition ScopeProcessInbox :: Scope_name where "ScopeProcessInbox = ''process:inbox''"
definition ScopeReadFeeds :: Scope_name where "ScopeReadFeeds = ''read:feeds''"
definition ScopeWriteFeeds :: Scope_name where "ScopeWriteFeeds = ''write:feeds''"
definition ScopeDeleteFeeds :: Scope_name where "ScopeDeleteFeeds = ''delete:feeds''"
definition ScopeReadJobs :: Scope_name where "ScopeReadJobs = ''read:jobs''"
definition ScopeWriteJobs :: Scope_name where "ScopeWriteJobs = ''write:jobs''"
definition ScopeCancelJobs :: Scope_name where "ScopeCancelJobs = ''cancel:jobs''"
definition ScopeReadRegistries :: Scope_name where "ScopeReadRegistries = ''read:registries''"
definition ScopeSyncRegistries :: Scope_name where "ScopeSyncRegistries = ''sync:registries''"
definition ScopeReadSystem :: Scope_name where "ScopeReadSystem = ''read:system''"
definition ScopeWriteSystem :: Scope_name where "ScopeWriteSystem = ''write:system''"
definition ScopeWriteSelf :: Scope_name where "ScopeWriteSelf = ''write:self''"
definition ScopeReadPipelines :: Scope_name where "ScopeReadPipelines = ''read:pipelines''"
definition ScopeAdminPipelines :: Scope_name where "ScopeAdminPipelines = ''admin:pipelines''"
definition ScopeAdminSteps :: Scope_name where "ScopeAdminSteps = ''admin:steps''"
definition ScopeReadWatches :: Scope_name where "ScopeReadWatches = ''read:watches''"
definition ScopeAdminWatches :: Scope_name where "ScopeAdminWatches = ''admin:watches''"
definition ScopeAdminAudit :: Scope_name where "ScopeAdminAudit = ''admin:audit''"
definition ScopeAdminPrincipals :: Scope_name where "ScopeAdminPrincipals = ''admin:principals''"
definition ScopeAdminShares :: Scope_name where "ScopeAdminShares = ''admin:shares''"
definition ScopeReadUI :: Scope_name where "ScopeReadUI = ''read:ui''"
definition ScopeSignoutUI :: Scope_name where "ScopeSignoutUI = ''signout:ui''"

declare
  ScopeReadObjects_def ScopeWriteObjects_def ScopeDeleteObjects_def ScopeDeleteEdges_def
      ScopeDeleteAliases_def ScopeDeleteSearches_def ScopeReadMCP_def ScopeReadInbox_def
      ScopeWriteInbox_def ScopeProcessInbox_def ScopeReadFeeds_def ScopeWriteFeeds_def
      ScopeDeleteFeeds_def ScopeReadJobs_def ScopeWriteJobs_def ScopeCancelJobs_def
      ScopeReadRegistries_def ScopeSyncRegistries_def ScopeReadSystem_def ScopeWriteSystem_def
      ScopeWriteSelf_def ScopeReadPipelines_def ScopeAdminPipelines_def ScopeAdminSteps_def
      ScopeReadWatches_def ScopeAdminWatches_def ScopeAdminAudit_def ScopeAdminPrincipals_def
      ScopeAdminShares_def ScopeReadUI_def ScopeSignoutUI_def [scope_defs]

definition AllScopes :: "Scope_name list" where
  "AllScopes =
     [ScopeReadObjects, ScopeWriteObjects, ScopeDeleteObjects, ScopeDeleteEdges,
      ScopeDeleteAliases, ScopeDeleteSearches, ScopeReadMCP, ScopeReadInbox, ScopeWriteInbox,
      ScopeProcessInbox, ScopeReadFeeds, ScopeWriteFeeds, ScopeDeleteFeeds, ScopeReadJobs,
      ScopeWriteJobs, ScopeCancelJobs, ScopeReadRegistries, ScopeSyncRegistries,
      ScopeReadSystem, ScopeWriteSystem, ScopeWriteSelf, ScopeReadPipelines,
      ScopeAdminPipelines, ScopeAdminSteps, ScopeReadWatches, ScopeAdminWatches,
      ScopeAdminAudit, ScopeAdminPrincipals, ScopeAdminShares, ScopeReadUI, ScopeSignoutUI]"

definition sessionOnlyScopes :: "Scope_name list" where
  "sessionOnlyScopes = [ScopeSignoutUI]"

definition selfScopes :: "Scope_name list" where
  "selfScopes = [ScopeWriteSelf]"

definition UISessionScopes :: "Scope_name list" where
  "UISessionScopes =
     [ScopeReadObjects, ScopeDeleteObjects, ScopeReadInbox, ScopeReadFeeds, ScopeReadJobs,
      ScopeWriteJobs, ScopeReadRegistries, ScopeReadSystem, ScopeWriteSelf, ScopeAdminShares,
      ScopeSignoutUI]"

declare AllScopes_def [scope_defs] sessionOnlyScopes_def [scope_defs]
declare selfScopes_def [scope_defs] UISessionScopes_def [scope_defs]

definition Scope_Verb :: "Scope_name \<Rightarrow> string" where
  "Scope_Verb s = Cut_before (CHR '':'') s"

section \<open>Roles\<close>

definition RoleAdmin :: string where "RoleAdmin = ''admin''"
definition RoleWriter :: string where "RoleWriter = ''writer''"
definition RoleReader :: string where "RoleReader = ''reader''"

definition Roles :: "string list" where
  "Roles = [RoleAdmin, RoleWriter, RoleReader]"

definition role_keep :: "string \<Rightarrow> (Scope_name \<Rightarrow> bool) option" where
  "role_keep role =
     (if role = RoleAdmin then Some (\<lambda>_. True)
      else if role = RoleWriter then Some (\<lambda>s. Scope_Verb s = ''read'' \<or> Scope_Verb s = ''write'')
      else if role = RoleReader then Some (\<lambda>s. Scope_Verb s = ''read'')
      else None)"

definition Bundle :: "string \<Rightarrow> Scope_name list option" where
  "Bundle role =
     (case role_keep role of
        None \<Rightarrow> None
      | Some keep \<Rightarrow>
          Some (filter (\<lambda>s. (keep s \<or> s \<in> set selfScopes) \<and> s \<notin> set sessionOnlyScopes) AllScopes))"

datatype RoleError = NoRole | UnknownRole string

definition ValidateRoles :: "string list \<Rightarrow> RoleError option" where
  "ValidateRoles roles =
     (if roles = [] then Some NoRole
      else map_option UnknownRole (find (\<lambda>r. Bundle r = None) roles))"

definition granted_by :: "string list \<Rightarrow> Scope_name list" where
  "granted_by roles = concat (map (\<lambda>r. case Bundle r of None \<Rightarrow> [] | Some b \<Rightarrow> b) roles)"

definition ScopesForRoles :: "string list \<Rightarrow> Scope_name list" where
  "ScopesForRoles roles = filter (\<lambda>s. s \<in> set (granted_by roles)) AllScopes"

definition SessionKindUI :: string where "SessionKindUI = ''ui''"

definition SessionScopes :: "string \<Rightarrow> Scope_name list" where
  "SessionScopes kind = (if kind = SessionKindUI then UISessionScopes else [])"

definition SessionScopesFor :: "Scope_name list \<Rightarrow> string \<Rightarrow> Scope_name list" where
  "SessionScopesFor held kind =
     filter (\<lambda>s. s \<in> set (SessionScopes kind) \<and> (s \<in> set held \<or> s \<in> set sessionOnlyScopes)) AllScopes"

definition scopesNamed :: "string list \<Rightarrow> Scope_name list" where
  "scopesNamed names = filter (\<lambda>s. s \<in> set names) AllScopes"

definition intersectScopes :: "Scope_name list \<Rightarrow> Scope_name list \<Rightarrow> Scope_name list" where
  "intersectScopes a b = filter (\<lambda>s. s \<in> set a \<and> s \<in> set b) AllScopes"

definition rolesWithin :: "string list \<Rightarrow> Scope_name list \<Rightarrow> string list" where
  "rolesWithin asked granted =
     filter (\<lambda>r. case Bundle r of None \<Rightarrow> False | Some b \<Rightarrow> list_all (\<lambda>s. s \<in> set granted) b) asked"

section \<open>The authenticated caller\<close>

record AuthPrincipal =
  ap_ID :: string
  ap_Name :: string
  ap_Kind :: string
  ap_Provider :: string
  ap_Roles :: "string list"
  ap_Scopes :: "Scope_name list"
  ap_Meta :: "(string \<times> string) list"

text \<open>\<open>p.Meta[k]\<close>: the empty string when the map has no entry.\<close>

definition meta_str :: "(string \<times> string) list \<Rightarrow> string \<Rightarrow> string" where
  "meta_str m k = (case map_of m k of None \<Rightarrow> [] | Some v \<Rightarrow> v)"

definition HasRole :: "AuthPrincipal option \<Rightarrow> string \<Rightarrow> bool" where
  "HasRole p role = (case p of None \<Rightarrow> False | Some q \<Rightarrow> role \<in> set (ap_Roles q))"

definition HasScope :: "AuthPrincipal option \<Rightarrow> Scope_name \<Rightarrow> bool" where
  "HasScope p s = (case p of None \<Rightarrow> False | Some q \<Rightarrow> s \<in> set (ap_Scopes q))"

definition IsSelf :: "AuthPrincipal option \<Rightarrow> string \<Rightarrow> bool" where
  "IsSelf p i = (case p of None \<Rightarrow> False | Some q \<Rightarrow> i \<noteq> [] \<and> ap_ID q = i)"

definition BypassesEntityGate :: "AuthPrincipal option \<Rightarrow> bool" where
  "BypassesEntityGate p = HasRole p RoleAdmin"

definition LocalPrincipal :: AuthPrincipal where
  "LocalPrincipal =
     \<lparr>ap_ID = OwnerPrincipal, ap_Name = OwnerPrincipal, ap_Kind = PrincipalKindOwner, ap_Provider = ''none'',
      ap_Roles = [RoleAdmin], ap_Scopes = AllScopes, ap_Meta = []\<rparr>"

definition MetaVia :: string where "MetaVia = ''via''"
definition MetaSessionKind :: string where "MetaSessionKind = ''session_kind''"
definition MetaSessionID :: string where "MetaSessionID = ''session_id''"
definition MetaKeyID :: string where "MetaKeyID = ''key_id''"
definition MetaIdentityID :: string where "MetaIdentityID = ''identity_id''"
definition ViaSession :: string where "ViaSession = ''session''"

lemmas meta_key_defs = MetaVia_def MetaSessionKind_def MetaSessionID_def MetaKeyID_def
  MetaIdentityID_def ViaSession_def

definition IsSession :: "AuthPrincipal option \<Rightarrow> bool" where
  "IsSession p = (case p of None \<Rightarrow> False | Some q \<Rightarrow> meta_str (ap_Meta q) MetaVia = ViaSession)"

definition SessionKind :: "AuthPrincipal option \<Rightarrow> string" where
  "SessionKind p =
     (case p of None \<Rightarrow> [] | Some q \<Rightarrow> if IsSession p then meta_str (ap_Meta q) MetaSessionKind else [])"

text \<open>
  A credential as the transports lift it off the wire. The TLS state is kept as the number of
  peer certificates, all that is read of it.
\<close>

record Credential =
  cr_Scheme :: string
  cr_Token :: string
  cr_TLS :: "nat option"
  cr_Cookie :: string

definition Credential_Empty :: "Credential \<Rightarrow> bool" where
  "Credential_Empty c \<longleftrightarrow>
     cr_Token c = [] \<and> cr_Cookie c = [] \<and> (case cr_TLS c of None \<Rightarrow> True | Some n \<Rightarrow> n = 0)"

text \<open>
  The values \<open>context.go\<close> and \<open>policy.go\<close> put into a request context: the principal for the
  handlers and its narrower form for the policy engine.
\<close>

record kit_Principal =
  kp_ID :: string
  kp_Role :: string
  kp_Source :: string

record auth_context =
  cx_principal :: "AuthPrincipal option"
  cx_policy :: "kit_Principal option"

definition WithPrincipal :: "auth_context \<Rightarrow> AuthPrincipal option \<Rightarrow> auth_context" where
  "WithPrincipal ctx p = (case p of None \<Rightarrow> ctx | Some q \<Rightarrow> ctx\<lparr>cx_principal := Some q\<rparr>)"

definition FromContext_auth :: "auth_context \<Rightarrow> AuthPrincipal option" where
  "FromContext_auth ctx = cx_principal ctx"

definition Attach :: "auth_context \<Rightarrow> AuthPrincipal option \<Rightarrow> auth_context" where
  "Attach ctx p =
     (case p of
        None \<Rightarrow> ctx
      | Some q \<Rightarrow>
          (WithPrincipal ctx p)\<lparr>cx_policy :=
             Some \<lparr>kp_ID = ap_ID q, kp_Role = (case ap_Roles q of [] \<Rightarrow> [] | r # _ \<Rightarrow> r),
                   kp_Source = ap_Provider q\<rparr>\<rparr>)"

section \<open>What the expansions contain\<close>

lemma AllScopes_distinct: "distinct AllScopes"
  by code_simp

lemma ScopesForRoles_iff:
  "s \<in> set (ScopesForRoles roles) \<longleftrightarrow> (\<exists>r b. r \<in> set roles \<and> Bundle r = Some b \<and> s \<in> set b)"
  by (auto simp: ScopesForRoles_def granted_by_def Bundle_def split: option.splits)

lemma ScopesForRoles_mono: "set rs \<subseteq> set rs' \<Longrightarrow> set (ScopesForRoles rs) \<subseteq> set (ScopesForRoles rs')"
  by (fastforce simp: ScopesForRoles_iff)

lemma Bundle_no_session_only: "Bundle r = Some b \<Longrightarrow> s \<in> set b \<Longrightarrow> s \<notin> set sessionOnlyScopes"
  by (auto simp: Bundle_def split: option.splits)

lemma ScopesForRoles_no_session_only:
  "s \<in> set (ScopesForRoles roles) \<Longrightarrow> s \<notin> set sessionOnlyScopes"
  by (auto simp: ScopesForRoles_iff dest: Bundle_no_session_only)

lemma ScopesForRoles_known: "set (ScopesForRoles roles) \<subseteq> set AllScopes"
  by (auto simp: ScopesForRoles_def)

lemma SessionScopesFor_within:
  "set (SessionScopesFor held kind) \<subseteq> (set held \<inter> set (SessionScopes kind)) \<union> set sessionOnlyScopes"
  by (auto simp: SessionScopesFor_def)

lemma scopesNamed_iff: "s \<in> set (scopesNamed ns) \<longleftrightarrow> s \<in> set ns \<and> s \<in> set AllScopes"
  by (auto simp: scopesNamed_def)

lemma scopesNamed_ScopesForRoles [simp]: "scopesNamed (ScopesForRoles roles) = ScopesForRoles roles"
  by (auto simp: scopesNamed_def ScopesForRoles_def intro: filter_cong)

lemma intersectScopes_within: "set (intersectScopes a b) \<subseteq> set b"
  by (auto simp: intersectScopes_def)

lemma rolesWithin_covered:
  assumes "r \<in> set (rolesWithin asked granted)"
  shows "\<exists>b. Bundle r = Some b \<and> set b \<subseteq> set granted"
  using assms by (auto simp: rolesWithin_def list_all_iff split: option.splits)

lemma bundles_nested:
  "\<exists>a w r. Bundle RoleAdmin = Some a \<and> Bundle RoleWriter = Some w \<and> Bundle RoleReader = Some r \<and>
     set r \<subseteq> set w \<and> set w \<subseteq> set a"
  by (auto simp: Bundle_def role_keep_def RoleAdmin_def RoleWriter_def RoleReader_def)

lemma Attach_principal [simp]: "FromContext_auth (Attach ctx (Some p)) = Some p"
  by (simp add: FromContext_auth_def Attach_def WithPrincipal_def)

end
