(* ===== verification/Http_Routes.thy ===== *)
theory Http_Routes
  imports Auth_Scope Share_Compile Share_Backstop
begin

text \<open>
  The two route tables of the HTTP API: \<open>apiRoutes\<close> of \<open>internal/server/http/routes.go\<close> (method,
  pattern and the scope a principal needs) and \<open>routeAccessTable\<close> of \<open>capabilities.go\<close> (what a
  restricted viewer needs, and the shape of the answer), without the handlers. The theorems check
  the tables against each other and against the scopes of a browser session.
\<close>

section \<open>Routes and their scopes\<close>

record apiRoute =
  rt_Method :: string
  rt_Pattern :: string
  rt_Scope :: Scope_name

definition route_table :: "(string \<times> string \<times> Scope_name) list" where
  "route_table =
    [
(''GET'', ''/whoami'', ScopeReadSystem),
     (''GET'', ''/objects'', ScopeReadObjects),
     (''GET'', ''/objects/facets'', ScopeReadObjects),
     (''GET'', ''/objects/{id}'', ScopeReadObjects),
     (''GET'', ''/objects/{id}/related'', ScopeReadObjects),
     (''PATCH'', ''/objects/{id}'', ScopeWriteObjects),
     (''DELETE'', ''/objects/{id}'', ScopeDeleteObjects),
     (''POST'', ''/objects/{id}/reprocess'', ScopeWriteObjects),
     (''POST'', ''/edges'', ScopeWriteObjects),
     (''GET'', ''/objects/{id}/edges'', ScopeReadObjects),
     (''DELETE'', ''/edges'', ScopeDeleteEdges),
     (''POST'', ''/analyze'', ScopeWriteObjects),
     (''GET'', ''/jobs'', ScopeReadJobs),
     (''GET'', ''/jobs/{id}'', ScopeReadJobs),
     (''POST'', ''/jobs/{id}/retry'', ScopeWriteJobs),
     (''POST'', ''/jobs/{id}/cancel'', ScopeCancelJobs),
     (''GET'', ''/search'', ScopeReadObjects),
     (''POST'', ''/find'', ScopeReadObjects),
     (''GET'', ''/search/graph'', ScopeReadObjects),
     (''GET'', ''/entities'', ScopeReadObjects),
     (''GET'', ''/entities/resolve'', ScopeReadObjects),
     (''GET'', ''/entities/{slug}'', ScopeReadObjects),
     (''GET'', ''/entities/{slug}/backlinks'', ScopeReadObjects),
     (''POST'', ''/entities/{slug}/pull'', ScopeWriteObjects),
     (''POST'', ''/entities/registry-sync'', ScopeSyncRegistries),
     (''GET'', ''/entities/registry-pending'', ScopeSyncRegistries),
     (''POST'', ''/entities/registry-pending/approve'', ScopeSyncRegistries),
     (''POST'', ''/entities/registry-pending/reject'', ScopeSyncRegistries),
     (''GET'', ''/pages'', ScopeReadObjects),
     (''GET'', ''/pages/{slug}'', ScopeReadObjects),
     (''POST'', ''/pages/{slug}/refresh'', ScopeWriteObjects),
     (''GET'', ''/topic-index'', ScopeReadObjects),
     (''GET'', ''/topic-index/{topic}'', ScopeReadObjects),
     (''POST'', ''/topic-index'', ScopeWriteObjects),
     (''GET'', ''/stats'', ScopeReadObjects),
     (''POST'', ''/pipelines'', ScopeAdminPipelines),
     (''GET'', ''/pipelines'', ScopeReadPipelines),
     (''GET'', ''/pipelines/{name}'', ScopeReadPipelines),
     (''DELETE'', ''/pipelines/{name}'', ScopeAdminPipelines),
     (''POST'', ''/pipelines/{name}/archive'', ScopeAdminPipelines),
     (''POST'', ''/pipelines/{name}/unarchive'', ScopeAdminPipelines),
     (''POST'', ''/pipelines/enqueue'', ScopeWriteObjects),
     (''GET'', ''/steps'', ScopeReadPipelines),
     (''GET'', ''/steps/{name}'', ScopeReadPipelines),
     (''POST'', ''/steps/install'', ScopeAdminSteps),
     (''DELETE'', ''/steps/{name}'', ScopeAdminSteps),
     (''POST'', ''/steps/registries/fetch'', ScopeSyncRegistries),
     (''POST'', ''/steps/registries/{url}/update'', ScopeSyncRegistries),
     (''GET'', ''/steps/registries'', ScopeReadRegistries),
     (''POST'', ''/feeds'', ScopeWriteFeeds),
     (''GET'', ''/feeds'', ScopeReadFeeds),
     (''POST'', ''/feeds/sync'', ScopeWriteFeeds),
     (''POST'', ''/feeds/{id}/sync'', ScopeWriteFeeds),
     (''DELETE'', ''/feeds/{id}'', ScopeDeleteFeeds),
     (''POST'', ''/import'', ScopeWriteObjects),
     (''GET'', ''/import/{id}'', ScopeReadJobs),
     (''POST'', ''/importers/dropbox/run'', ScopeWriteObjects),
     (''POST'', ''/importers/slack/run'', ScopeWriteObjects),
     (''POST'', ''/importers/discord/run'', ScopeWriteObjects),
     (''GET'', ''/importers/runs/{id}'', ScopeReadJobs),
     (''GET'', ''/system/reminders'', ScopeReadSystem),
     (''POST'', ''/system/reminders/{id}/dismiss'', ScopeWriteSystem),
     (''POST'', ''/watches'', ScopeAdminWatches),
     (''GET'', ''/watches'', ScopeReadWatches),
     (''GET'', ''/watches/{id}'', ScopeReadWatches),
     (''PATCH'', ''/watches/{id}'', ScopeAdminWatches),
     (''DELETE'', ''/watches/{id}'', ScopeAdminWatches),
     (''POST'', ''/watches/{id}/pause'', ScopeAdminWatches),
     (''POST'', ''/watches/{id}/resume'', ScopeAdminWatches),
     (''GET'', ''/watches/{id}/files'', ScopeReadWatches),
     (''POST'', ''/inbox'', ScopeWriteInbox),
     (''GET'', ''/inbox'', ScopeReadInbox),
     (''GET'', ''/inbox/queue'', ScopeReadInbox),
     (''POST'', ''/inbox/clear'', ScopeProcessInbox),
     (''POST'', ''/inbox/{id}/triage'', ScopeProcessInbox),
     (''POST'', ''/inbox/{id}/discard'', ScopeProcessInbox),
     (''GET'', ''/events'', ScopeReadObjects),
     (''POST'', ''/aliases'', ScopeWriteObjects),
     (''GET'', ''/aliases'', ScopeReadObjects),
     (''GET'', ''/aliases/{alias}'', ScopeReadObjects),
     (''DELETE'', ''/aliases/{alias}'', ScopeDeleteAliases),
     (''POST'', ''/capture/page'', ScopeWriteObjects),
     (''POST'', ''/capture/selection'', ScopeWriteObjects),
     (''POST'', ''/capture/element'', ScopeWriteObjects),
     (''GET'', ''/capture/recent'', ScopeReadJobs),
     (''POST'', ''/saved-searches'', ScopeWriteObjects),
     (''GET'', ''/saved-searches'', ScopeReadObjects),
     (''GET'', ''/saved-searches/{name}'', ScopeReadObjects),
     (''DELETE'', ''/saved-searches/{name}'', ScopeDeleteSearches),
     (''GET'', ''/search-history'', ScopeReadObjects),
     (''DELETE'', ''/search-history'', ScopeDeleteSearches),
     (''GET'', ''/audit-log'', ScopeAdminAudit),
     (''GET'', ''/share/audit'', ScopeAdminAudit),
     (''POST'', ''/federation/push'', ScopeWriteObjects),
     ([], ''/mcp/'', ScopeReadMCP),
     ([], ''/mcp'', ScopeReadMCP),
     (''POST'', ''/ui/login-codes'', ScopeReadUI),
     (''DELETE'', ''/ui/session'', ScopeSignoutUI),
     (''GET'', ''/principals'', ScopeAdminPrincipals),
     (''POST'', ''/principals'', ScopeAdminPrincipals),
     (''GET'', ''/principals/{id}'', ScopeAdminPrincipals),
     (''POST'', ''/principals/{id}/suspend'', ScopeAdminPrincipals),
     (''POST'', ''/principals/{id}/revoke'', ScopeAdminPrincipals),
     (''POST'', ''/principals/{id}/links'', ScopeAdminPrincipals),
     (''GET'', ''/principals/{id}/identities'', ScopeAdminPrincipals),
     (''POST'', ''/principals/{id}/identities'', ScopeAdminPrincipals),
     (''DELETE'', ''/principals/{id}/identities/{identity}'', ScopeAdminPrincipals),
     (''GET'', ''/principals/{id}/keys'', ScopeAdminPrincipals),
     (''POST'', ''/principals/{id}/keys'', ScopeAdminPrincipals),
     (''DELETE'', ''/principals/{id}/keys/{key}'', ScopeAdminPrincipals),
     (''POST'', ''/share/invites'', ScopeAdminShares),
     (''GET'', ''/share/audiences'', ScopeAdminShares),
     (''POST'', ''/share/audiences'', ScopeAdminShares),
     (''GET'', ''/share/audiences/{audience}'', ScopeAdminShares),
     (''PUT'', ''/share/audiences/{audience}/members/{principal}'', ScopeAdminShares),
     (''DELETE'', ''/share/audiences/{audience}/members/{principal}'', ScopeAdminShares),
     (''GET'', ''/share/policies'', ScopeAdminShares),
     (''POST'', ''/share/policies'', ScopeAdminShares),
     (''GET'', ''/share/policies/{policy}'', ScopeAdminShares),
     (''PUT'', ''/share/policies/{policy}'', ScopeAdminShares),
     (''GET'', ''/share/templates'', ScopeAdminShares),
     (''POST'', ''/share/templates/{name}'', ScopeAdminShares),
     (''GET'', ''/share/grants'', ScopeAdminShares),
     (''POST'', ''/share/grants'', ScopeAdminShares),
     (''DELETE'', ''/share/grants/{grant}'', ScopeAdminShares),
     (''GET'', ''/principals/{id}/ceiling'', ScopeAdminShares),
     (''PUT'', ''/principals/{id}/ceiling'', ScopeAdminShares),
     (''PUT'', ''/share/keys/{key}/policy'', ScopeAdminShares),
     (''GET'', ''/self/keys'', ScopeWriteSelf),
     (''POST'', ''/self/keys'', ScopeWriteSelf),
     (''DELETE'', ''/self/keys/{key}'', ScopeWriteSelf),
     (''GET'', ''/self/identities'', ScopeWriteSelf),
     (''DELETE'', ''/self/identities/{identity}'', ScopeWriteSelf),
     (''GET'', ''/self/sessions'', ScopeWriteSelf),
     (''DELETE'', ''/self/sessions/{session}'', ScopeWriteSelf),
     (''PUT'', ''/self/keys/{key}/policy'', ScopeWriteSelf)]"

definition apiRoutes :: "apiRoute list" where
  "apiRoutes = map (\<lambda>(m, p, sc). \<lparr>rt_Method = m, rt_Pattern = p, rt_Scope = sc\<rparr>) route_table"

section \<open>What a restricted viewer needs\<close>

record routeAccess =
  ra_ownerOnly :: bool
  ra_capability :: string
  ra_shape :: Shape

definition routeOwnerOnly :: routeAccess where
  "routeOwnerOnly = \<lparr>ra_ownerOnly = True, ra_capability = [], ra_shape = ShapeNone\<rparr>"

definition routeNone :: routeAccess where
  "routeNone = \<lparr>ra_ownerOnly = False, ra_capability = [], ra_shape = ShapeNone\<rparr>"

definition routeObjects :: routeAccess where
  "routeObjects = \<lparr>ra_ownerOnly = False, ra_capability = [], ra_shape = ShapeObjects\<rparr>"

definition needs :: "string \<Rightarrow> Shape \<Rightarrow> routeAccess" where
  "needs capability shape = \<lparr>ra_ownerOnly = False, ra_capability = capability, ra_shape = shape\<rparr>"

definition SearchGraph :: string where "SearchGraph = ''graph''"
definition SearchRSQL :: string where "SearchRSQL = ''rsql''"

definition routeAccessTable :: "(string \<times> routeAccess) list" where
  "routeAccessTable =
    [
(''GET /whoami'', routeNone),
     (''GET /objects'', routeObjects),
     (''GET /objects/facets'', routeObjects),
     (''GET /objects/{id}'', routeObjects),
     (''GET /objects/{id}/related'', routeObjects),
     (''PATCH /objects/{id}'', routeObjects),
     (''DELETE /objects/{id}'', routeNone),
     (''POST /objects/{id}/reprocess'', routeNone),
     (''POST /edges'', routeNone),
     (''GET /objects/{id}/edges'', routeObjects),
     (''DELETE /edges'', routeNone),
     (''POST /analyze'', routeNone),
     (''GET /jobs'', routeOwnerOnly),
     (''GET /jobs/{id}'', routeOwnerOnly),
     (''POST /jobs/{id}/retry'', routeOwnerOnly),
     (''POST /jobs/{id}/cancel'', routeOwnerOnly),
     (''GET /search'', needs (CapabilitySearchPrefix @ SearchRSQL) ShapeObjects),
     (''POST /find'', routeObjects),
     (''GET /search/graph'', needs (CapabilitySearchPrefix @ SearchGraph) ShapeMixed),
     (''GET /entities'', needs CapabilityEntities ShapeEntities),
     (''GET /entities/resolve'', needs CapabilityEntities ShapeEntities),
     (''GET /entities/{slug}'', needs CapabilityEntities ShapeEntities),
     (''GET /entities/{slug}/backlinks'', needs CapabilityEntities ShapeObjects),
     (''POST /entities/{slug}/pull'', needs CapabilityEntities ShapeNone),
     (''POST /entities/registry-sync'', routeOwnerOnly),
     (''GET /entities/registry-pending'', routeOwnerOnly),
     (''POST /entities/registry-pending/approve'', routeOwnerOnly),
     (''POST /entities/registry-pending/reject'', routeOwnerOnly),
     (''GET /pages'', routeOwnerOnly),
     (''GET /pages/{slug}'', routeOwnerOnly),
     (''POST /pages/{slug}/refresh'', routeOwnerOnly),
     (''GET /topic-index'', routeOwnerOnly),
     (''GET /topic-index/{topic}'', routeOwnerOnly),
     (''POST /topic-index'', routeOwnerOnly),
     (''GET /stats'', routeNone),
     (''POST /pipelines'', routeOwnerOnly),
     (''GET /pipelines'', routeOwnerOnly),
     (''GET /pipelines/{name}'', routeOwnerOnly),
     (''DELETE /pipelines/{name}'', routeOwnerOnly),
     (''POST /pipelines/{name}/archive'', routeOwnerOnly),
     (''POST /pipelines/{name}/unarchive'', routeOwnerOnly),
     (''POST /pipelines/enqueue'', routeNone),
     (''GET /steps'', routeOwnerOnly),
     (''GET /steps/{name}'', routeOwnerOnly),
     (''POST /steps/install'', routeOwnerOnly),
     (''DELETE /steps/{name}'', routeOwnerOnly),
     (''POST /steps/registries/fetch'', routeOwnerOnly),
     (''POST /steps/registries/{url}/update'', routeOwnerOnly),
     (''GET /steps/registries'', routeOwnerOnly),
     (''POST /feeds'', routeOwnerOnly),
     (''GET /feeds'', routeOwnerOnly),
     (''POST /feeds/sync'', routeOwnerOnly),
     (''POST /feeds/{id}/sync'', routeOwnerOnly),
     (''DELETE /feeds/{id}'', routeOwnerOnly),
     (''POST /import'', routeOwnerOnly),
     (''GET /import/{id}'', routeOwnerOnly),
     (''POST /importers/dropbox/run'', routeOwnerOnly),
     (''POST /importers/slack/run'', routeOwnerOnly),
     (''POST /importers/discord/run'', routeOwnerOnly),
     (''GET /importers/runs/{id}'', routeOwnerOnly),
     (''GET /system/reminders'', routeOwnerOnly),
     (''POST /system/reminders/{id}/dismiss'', routeOwnerOnly),
     (''POST /watches'', routeOwnerOnly),
     (''GET /watches'', routeOwnerOnly),
     (''GET /watches/{id}'', routeOwnerOnly),
     (''PATCH /watches/{id}'', routeOwnerOnly),
     (''DELETE /watches/{id}'', routeOwnerOnly),
     (''POST /watches/{id}/pause'', routeOwnerOnly),
     (''POST /watches/{id}/resume'', routeOwnerOnly),
     (''GET /watches/{id}/files'', routeOwnerOnly),
     (''POST /inbox'', routeNone),
     (''GET /inbox'', routeOwnerOnly),
     (''GET /inbox/queue'', routeOwnerOnly),
     (''POST /inbox/clear'', routeOwnerOnly),
     (''POST /inbox/{id}/triage'', routeOwnerOnly),
     (''POST /inbox/{id}/discard'', routeOwnerOnly),
     (''GET /events'', routeOwnerOnly),
     (''POST /aliases'', routeNone),
     (''GET /aliases'', routeObjects),
     (''GET /aliases/{alias}'', routeObjects),
     (''DELETE /aliases/{alias}'', routeNone),
     (''POST /capture/page'', routeNone),
     (''POST /capture/selection'', routeNone),
     (''POST /capture/element'', routeNone),
     (''GET /capture/recent'', routeOwnerOnly),
     (''POST /saved-searches'', routeNone),
     (''GET /saved-searches'', routeNone),
     (''GET /saved-searches/{name}'', routeNone),
     (''DELETE /saved-searches/{name}'', routeNone),
     (''GET /search-history'', routeNone),
     (''DELETE /search-history'', routeOwnerOnly),
     (''GET /audit-log'', routeOwnerOnly),
     (''GET /share/audit'', routeOwnerOnly),
     (''POST /federation/push'', routeNone),
     (''GET /principals'', routeNone),
     (''POST /principals'', routeNone),
     (''GET /principals/{id}'', routeNone),
     (''POST /principals/{id}/suspend'', routeNone),
     (''POST /principals/{id}/revoke'', routeNone),
     (''POST /principals/{id}/links'', routeNone),
     (''GET /principals/{id}/identities'', routeNone),
     (''POST /principals/{id}/identities'', routeNone),
     (''DELETE /principals/{id}/identities/{identity}'', routeNone),
     (''GET /principals/{id}/keys'', routeNone),
     (''POST /principals/{id}/keys'', routeNone),
     (''DELETE /principals/{id}/keys/{key}'', routeNone),
     (''GET /principals/{id}/ceiling'', routeNone),
     (''PUT /principals/{id}/ceiling'', routeNone),
     (''GET /self/keys'', routeNone),
     (''POST /self/keys'', routeNone),
     (''DELETE /self/keys/{key}'', routeNone),
     (''PUT /self/keys/{key}/policy'', routeNone),
     (''GET /self/identities'', routeNone),
     (''DELETE /self/identities/{identity}'', routeNone),
     (''GET /self/sessions'', routeNone),
     (''DELETE /self/sessions/{session}'', routeNone),
     (''POST /share/invites'', routeNone),
     (''GET /share/audiences'', routeNone),
     (''POST /share/audiences'', routeNone),
     (''GET /share/audiences/{audience}'', routeNone),
     (''PUT /share/audiences/{audience}/members/{principal}'', routeNone),
     (''DELETE /share/audiences/{audience}/members/{principal}'', routeNone),
     (''GET /share/policies'', routeNone),
     (''POST /share/policies'', routeNone),
     (''GET /share/policies/{policy}'', routeNone),
     (''PUT /share/policies/{policy}'', routeNone),
     (''GET /share/templates'', routeNone),
     (''POST /share/templates/{name}'', routeNone),
     (''GET /share/grants'', routeNone),
     (''POST /share/grants'', routeNone),
     (''DELETE /share/grants/{grant}'', routeNone),
     (''PUT /share/keys/{key}/policy'', routeNone),
     (''ANY /mcp/'', needs CapabilityMCP ShapeObjects),
     (''ANY /mcp'', needs CapabilityMCP ShapeObjects),
     (''POST /ui/login-codes'', routeNone),
     (''DELETE /ui/session'', routeNone)]"

definition routeKey :: "string \<Rightarrow> string \<Rightarrow> string" where
  "routeKey meth pattern = (if meth = [] then ''ANY'' else meth) @ '' '' @ pattern"

text \<open>\<open>RouteAccess\<close>: \<open>None\<close> for a route the table does not know.\<close>

definition RouteAccess :: "string \<Rightarrow> string \<Rightarrow> (bool \<times> string) option" where
  "RouteAccess meth pattern =
     map_option (\<lambda>a. (ra_ownerOnly a, ra_capability a)) (map_of routeAccessTable (routeKey meth pattern))"

definition RouteShape :: "string \<Rightarrow> string \<Rightarrow> Shape option" where
  "RouteShape meth pattern = map_option ra_shape (map_of routeAccessTable (routeKey meth pattern))"

definition isSafeMethod :: "string \<Rightarrow> bool" where
  "isSafeMethod m \<longleftrightarrow> m = ''GET'' \<or> m = ''HEAD'' \<or> m = ''OPTIONS''"

section \<open>The tables agree\<close>

definition route_keys :: "string list" where
  "route_keys = map (\<lambda>rt. routeKey (rt_Method rt) (rt_Pattern rt)) apiRoutes"

lemma key_order:
  "map fst routeAccessTable = concat (map (\<lambda>(k, n). take n (drop k route_keys))
     [(0, 94), (98, 12), (125, 2), (128, 3), (135, 1), (131, 4), (110, 15), (127, 1), (94, 4)])"
  unfolding routeAccessTable_def route_keys_def apiRoutes_def route_table_def routeKey_def by simp

lemma key_order_back:
  "route_keys = concat (map (\<lambda>(k, n). take n (drop k (map fst routeAccessTable)))
     [(0, 94), (132, 4), (94, 12), (116, 15), (106, 2), (131, 1), (108, 3), (112, 4), (111, 1)])"
  unfolding routeAccessTable_def route_keys_def apiRoutes_def route_table_def routeKey_def by simp

lemma slices_subset: "set (concat (map (\<lambda>(k, n). take n (drop k xs)) ks)) \<subseteq> set xs"
  by (auto dest: in_set_takeD in_set_dropD)

lemma same_routes: "set (map fst routeAccessTable) = set route_keys"
proof
  show "set (map fst routeAccessTable) \<subseteq> set route_keys"
    by (subst key_order) (rule slices_subset)
  show "set route_keys \<subseteq> set (map fst routeAccessTable)"
    by (subst key_order_back) (rule slices_subset)
qed

lemma route_classified:
  assumes "rt \<in> set apiRoutes"
  obtains a where "map_of routeAccessTable (routeKey (rt_Method rt) (rt_Pattern rt)) = Some a"
proof -
  have "routeKey (rt_Method rt) (rt_Pattern rt) \<in> set (map fst routeAccessTable)"
    unfolding same_routes route_keys_def using assms by auto
  then show thesis by (metis map_of_eq_None_iff not_Some_eq set_map that)
qed

lemma routes_length: "length route_keys = 136" "length routeAccessTable = 136"
  by (simp_all add: route_keys_def apiRoutes_def route_table_def routeAccessTable_def)

section \<open>What a browser session reaches\<close>

lemmas scope_constants =
  ScopeReadObjects_def ScopeWriteObjects_def ScopeDeleteObjects_def ScopeDeleteEdges_def
  ScopeDeleteAliases_def ScopeDeleteSearches_def ScopeReadMCP_def ScopeReadInbox_def
  ScopeWriteInbox_def ScopeProcessInbox_def ScopeReadFeeds_def ScopeWriteFeeds_def
  ScopeDeleteFeeds_def ScopeReadJobs_def ScopeWriteJobs_def ScopeCancelJobs_def
  ScopeReadRegistries_def ScopeSyncRegistries_def ScopeReadSystem_def ScopeWriteSystem_def
  ScopeWriteSelf_def ScopeReadPipelines_def ScopeAdminPipelines_def ScopeAdminSteps_def
  ScopeReadWatches_def ScopeAdminWatches_def ScopeAdminAudit_def ScopeAdminPrincipals_def
  ScopeAdminShares_def ScopeReadUI_def ScopeSignoutUI_def ScopesForRoles_def

lemma ui_session_scopes [simp]:
  "\<not> ScopeAdminAudit \<in> set UISessionScopes"
  "\<not> ScopeAdminPipelines \<in> set UISessionScopes"
  "\<not> ScopeAdminPrincipals \<in> set UISessionScopes"
  "ScopeAdminShares \<in> set UISessionScopes"
  "\<not> ScopeAdminSteps \<in> set UISessionScopes"
  "\<not> ScopeAdminWatches \<in> set UISessionScopes"
  "\<not> ScopeCancelJobs \<in> set UISessionScopes"
  "\<not> ScopeDeleteAliases \<in> set UISessionScopes"
  "\<not> ScopeDeleteEdges \<in> set UISessionScopes"
  "\<not> ScopeDeleteFeeds \<in> set UISessionScopes"
  "ScopeDeleteObjects \<in> set UISessionScopes"
  "\<not> ScopeDeleteSearches \<in> set UISessionScopes"
  "\<not> ScopeProcessInbox \<in> set UISessionScopes"
  "ScopeReadFeeds \<in> set UISessionScopes"
  "ScopeReadInbox \<in> set UISessionScopes"
  "ScopeReadJobs \<in> set UISessionScopes"
  "\<not> ScopeReadMCP \<in> set UISessionScopes"
  "ScopeReadObjects \<in> set UISessionScopes"
  "\<not> ScopeReadPipelines \<in> set UISessionScopes"
  "ScopeReadRegistries \<in> set UISessionScopes"
  "ScopeReadSystem \<in> set UISessionScopes"
  "\<not> ScopeReadUI \<in> set UISessionScopes"
  "\<not> ScopeReadWatches \<in> set UISessionScopes"
  "ScopeSignoutUI \<in> set UISessionScopes"
  "\<not> ScopeSyncRegistries \<in> set UISessionScopes"
  "\<not> ScopeWriteFeeds \<in> set UISessionScopes"
  "\<not> ScopeWriteInbox \<in> set UISessionScopes"
  "ScopeWriteJobs \<in> set UISessionScopes"
  "\<not> ScopeWriteObjects \<in> set UISessionScopes"
  "ScopeWriteSelf \<in> set UISessionScopes"
  "\<not> ScopeWriteSystem \<in> set UISessionScopes"
  by (simp_all add: UISessionScopes_def scope_constants)

lemma safe_methods [simp]:
  "isSafeMethod ''GET''" "\<not> isSafeMethod ''POST''" "\<not> isSafeMethod ''PUT''" "\<not> isSafeMethod ''PATCH''"
  "\<not> isSafeMethod ''DELETE''" "\<not> isSafeMethod []"
  by (simp_all add: isSafeMethod_def)

text \<open>The routes that are not reads among those whose scope a browser session can hold.\<close>

definition session_writes :: "(string \<times> string) list" where
  "session_writes =
    [(''DELETE'', ''/objects/{id}''),
     (''POST'', ''/jobs/{id}/retry''),
     (''POST'', ''/find''),
     (''DELETE'', ''/ui/session''),
     (''POST'', ''/share/invites''),
     (''POST'', ''/share/audiences''),
     (''PUT'', ''/share/audiences/{audience}/members/{principal}''),
     (''DELETE'', ''/share/audiences/{audience}/members/{principal}''),
     (''POST'', ''/share/policies''),
     (''PUT'', ''/share/policies/{policy}''),
     (''POST'', ''/share/templates/{name}''),
     (''POST'', ''/share/grants''),
     (''DELETE'', ''/share/grants/{grant}''),
     (''PUT'', ''/principals/{id}/ceiling''),
     (''PUT'', ''/share/keys/{key}/policy''),
     (''POST'', ''/self/keys''),
     (''DELETE'', ''/self/keys/{key}''),
     (''DELETE'', ''/self/identities/{identity}''),
     (''DELETE'', ''/self/sessions/{session}''),
     (''PUT'', ''/self/keys/{key}/policy'')]"

lemma session_writes_exact:
  "map (\<lambda>rt. (rt_Method rt, rt_Pattern rt))
     (filter (\<lambda>rt. rt_Scope rt \<in> set UISessionScopes \<and> \<not> isSafeMethod (rt_Method rt)) apiRoutes) = session_writes"
  unfolding apiRoutes_def route_table_def session_writes_def by simp

end
