(* ===== verification/Go_Codec.thy ===== *)
theory Go_Codec
  imports Go_Prelude "HOL-Library.Word"
begin

text \<open>
  The encodings and the digest of Go's standard library that the authentication code calls:
  \<open>encoding/hex\<close>, \<open>encoding/base64\<close> (\<open>RawURLEncoding\<close>) and \<open>crypto/sha256\<close>. They are
  written out on bytes, so the components above can state what a stored hash, a minted secret
  and a presented key look like; the round trips and lengths below are what their proofs use.
\<close>

unbundle bit_operations_syntax

section \<open>Package encoding/hex\<close>

definition nibble :: "nat \<Rightarrow> char" where
  "nibble n = (if n < 10 then char_of (48 + n) else char_of (87 + n))"

definition byte_hex :: "char \<Rightarrow> string" where
  "byte_hex c = [nibble (of_char c div 16), nibble (of_char c mod 16)]"

definition hex_EncodeToString :: "string \<Rightarrow> string" where
  "hex_EncodeToString s = concat (map byte_hex s)"

definition from_nibble :: "char \<Rightarrow> nat option" where
  "from_nibble c =
     (let n = of_char c :: nat
      in if 48 \<le> n \<and> n \<le> 57 then Some (n - 48)
         else if 97 \<le> n \<and> n \<le> 102 then Some (n - 87)
         else if 65 \<le> n \<and> n \<le> 70 then Some (n - 55)
         else None)"

text \<open>\<open>hex.DecodeString\<close>: an odd length or a byte that is no hex digit is an error.\<close>

fun hex_DecodeString :: "string \<Rightarrow> string option" where
  "hex_DecodeString [] = Some []"
| "hex_DecodeString [c] = None"
| "hex_DecodeString (c # d # s) =
     (case (from_nibble c, from_nibble d, hex_DecodeString s) of
        (Some hi, Some lo, Some rest) \<Rightarrow> Some (char_of (hi * 16 + lo) # rest)
      | _ \<Rightarrow> None)"

lemma of_char_lt [simp]: "(of_char (c :: char) :: nat) < 256"
  using nat_of_char_less_256 [of c] by simp

lemma of_char_div_lt [simp]: "(of_char (c :: char) :: nat) div 16 < 16"
  using of_char_lt [of c] by linarith

lemma of_char_nibble: "n < 16 \<Longrightarrow> (of_char (nibble n) :: nat) = (if n < 10 then 48 + n else 87 + n)"
  by (simp add: nibble_def)

lemma from_nibble_nibble [simp]: "n < 16 \<Longrightarrow> from_nibble (nibble n) = Some n"
  by (auto simp: from_nibble_def of_char_nibble Let_def)

lemma hex_roundtrip [simp]: "hex_DecodeString (hex_EncodeToString s) = Some s"
  by (induction s) (auto simp: hex_EncodeToString_def byte_hex_def)

lemma hex_length [simp]: "length (hex_EncodeToString s) = 2 * length s"
  by (induction s) (auto simp: hex_EncodeToString_def byte_hex_def)

definition lower_hex :: "char \<Rightarrow> bool" where
  "lower_hex c \<longleftrightarrow> is_digit c \<or> byte_in 97 102 c"

lemma nibble_lower_hex_all: "list_all (\<lambda>n. lower_hex (nibble n)) [0..<16]"
  by code_simp

lemma nibble_lower_hex: "n < 16 \<Longrightarrow> lower_hex (nibble n)"
  using nibble_lower_hex_all by (auto simp: list_all_iff)

lemma hex_lower_hex: "c \<in> set (hex_EncodeToString s) \<Longrightarrow> lower_hex c"
  by (induction s) (auto simp: hex_EncodeToString_def byte_hex_def nibble_lower_hex)

section \<open>Package encoding/base64: RawURLEncoding\<close>

definition b64_alphabet :: string where
  "b64_alphabet = ''ABCDEFGHIJKLMNOPQRSTUVWXYZabcdefghijklmnopqrstuvwxyz0123456789-_''"

definition b64_digit :: "nat \<Rightarrow> char" where
  "b64_digit n = b64_alphabet ! n"

fun b64_bits :: "nat list \<Rightarrow> nat list" where
  "b64_bits [] = []"
| "b64_bits [a] = [a div 4, (a mod 4) * 16]"
| "b64_bits [a, b] = [a div 4, (a mod 4) * 16 + b div 16, (b mod 16) * 4]"
| "b64_bits (a # b # c # s) =
     a div 4 # ((a mod 4) * 16 + b div 16) # ((b mod 16) * 4 + c div 64) # (c mod 64) # b64_bits s"

definition b64_EncodeToString :: "string \<Rightarrow> string" where
  "b64_EncodeToString s = map b64_digit (b64_bits (map of_char s))"

definition b64_value :: "char \<Rightarrow> nat option" where
  "b64_value c = find (\<lambda>n. b64_digit n = c) [0..<64]"

text \<open>
  The decoder drops carriage returns and line feeds, refuses every other byte outside the
  alphabet and a single left-over digit, and ignores the unused low bits of the last digit
  (\<open>RawURLEncoding\<close> is not strict).
\<close>

fun b64_bytes :: "nat list \<Rightarrow> nat list option" where
  "b64_bytes [] = Some []"
| "b64_bytes [w] = None"
| "b64_bytes [w, x] = Some [w * 4 + x div 16]"
| "b64_bytes [w, x, y] = Some [w * 4 + x div 16, (x mod 16) * 16 + y div 4]"
| "b64_bytes (w # x # y # z # s) =
     map_option (\<lambda>r. (w * 4 + x div 16) # ((x mod 16) * 16 + y div 4) # ((y mod 4) * 64 + z) # r)
       (b64_bytes s)"

definition b64_DecodeString :: "string \<Rightarrow> string option" where
  "b64_DecodeString s =
     (case those (map b64_value (filter (\<lambda>c. c \<noteq> CHR 0x0D \<and> c \<noteq> CHR 0x0A) s)) of
        None \<Rightarrow> None
      | Some ds \<Rightarrow> map_option (map char_of) (b64_bytes ds))"

definition b64_EncodedLen :: "nat \<Rightarrow> nat" where
  "b64_EncodedLen n = (n * 8 + 5) div 6"

lemma b64_value_digit_all: "list_all (\<lambda>n. b64_value (b64_digit n) = Some n) [0..<64]"
  by code_simp

lemma b64_value_digit [simp]: "n < 64 \<Longrightarrow> b64_value (b64_digit n) = Some n"
  using b64_value_digit_all by (auto simp: list_all_iff)

lemma b64_digit_plain_all: "list_all (\<lambda>n. b64_digit n \<noteq> CHR 0x0D \<and> b64_digit n \<noteq> CHR 0x0A) [0..<64]"
  by code_simp

lemma b64_digit_plain [simp]: "n < 64 \<Longrightarrow> b64_digit n \<noteq> CHR 0x0D" "n < 64 \<Longrightarrow> b64_digit n \<noteq> CHR 0x0A"
  using b64_digit_plain_all by (auto simp: list_all_iff)

lemma b64_bits_range: "(\<And>b. b \<in> set bs \<Longrightarrow> b < 256) \<Longrightarrow> d \<in> set (b64_bits bs) \<Longrightarrow> d < 64"
proof (induction bs rule: b64_bits.induct)
  case (2 a)
  then show ?case using less_mult_imp_div_less [of a 64 4] by auto
next
  case (3 a b)
  have "a < 256" "b < 256" using 3 by simp_all
  then have "a div 4 < 64" "a mod 4 * 16 + b div 16 < 64" "b mod 16 * 4 < 64" by linarith+
  with 3 show ?case by auto
next
  case (4 a b c s)
  have "a < 256" "b < 256" "c < 256" using 4 by simp_all
  then have "a div 4 < 64" "a mod 4 * 16 + b div 16 < 64" "b mod 16 * 4 + c div 64 < 64" by linarith+
  with 4 show ?case by auto
qed simp

lemma b64_bytes_bits: "(\<And>b. b \<in> set bs \<Longrightarrow> b < 256) \<Longrightarrow> b64_bytes (b64_bits bs) = Some bs"
proof (induction bs rule: b64_bits.induct)
  case (3 a b)
  have "b < 256" using 3 by simp
  then show ?case by auto
next
  case (4 a b c s)
  have lt: "b < 256" "c < 256" using 4 by simp_all
  then have "b div 16 < 16" "c div 64 < 4" by (simp_all add: less_mult_imp_div_less)
  with 4 show ?case by simp
qed auto

lemma those_map_Some: "(\<And>x. x \<in> set xs \<Longrightarrow> f x = Some (g x)) \<Longrightarrow> those (map f xs) = Some (map g xs)"
  by (induction xs) auto

lemma b64_roundtrip [simp]: "b64_DecodeString (b64_EncodeToString s) = Some s"
proof -
  let ?ds = "b64_bits (map of_char s)"
  have lt: "d < 64" if "d \<in> set ?ds" for d
    using that by (rule b64_bits_range [rotated]) auto
  have "filter (\<lambda>c. c \<noteq> CHR 0x0D \<and> c \<noteq> CHR 0x0A) (map b64_digit ?ds) = map b64_digit ?ds"
    using lt by (auto simp: filter_id_conv)
  moreover have "those (map b64_value (map b64_digit ?ds)) = Some ?ds"
    using those_map_Some [of ?ds "b64_value \<circ> b64_digit" id] lt by simp
  moreover have "b64_bytes ?ds = Some (map of_char s)"
    by (rule b64_bytes_bits) auto
  ultimately show ?thesis
    by (simp add: b64_DecodeString_def b64_EncodeToString_def comp_def)
qed

lemma b64_bits_length: "length (b64_bits bs) = b64_EncodedLen (length bs)"
  by (induction bs rule: b64_bits.induct) (auto simp: b64_EncodedLen_def)

lemma b64_length [simp]: "length (b64_EncodeToString s) = b64_EncodedLen (length s)"
  by (simp add: b64_EncodeToString_def b64_bits_length)

section \<open>Package crypto/sha256\<close>

text \<open>
  The constants of the hash, as the standard defines them: the first 32 bits of the fractional
  parts of the cube roots of the first 64 primes, and of the square roots of the first eight.
  \<open>root_bits\<close> finds an integer root from its highest bit down.
\<close>

definition first_primes :: "int list" where
  "first_primes = [
     2, 3, 5, 7, 11, 13, 17, 19, 23, 29, 31, 37, 41, 43, 47, 53, 59, 61, 67, 71, 73, 79, 83,
     89, 97, 101, 103, 107, 109, 113, 127, 131, 137, 139, 149, 151, 157, 163, 167, 173, 179,
     181, 191, 193, 197, 199, 211, 223, 227, 229, 233, 239, 241, 251, 257, 263, 269, 271, 277,
     281, 283, 293, 307, 311]"

fun root_bits :: "nat \<Rightarrow> nat \<Rightarrow> int \<Rightarrow> int \<Rightarrow> int" where
  "root_bits 0 k x r = r"
| "root_bits (Suc n) k x r = root_bits n k x (if (r + 2 ^ n) ^ k \<le> x then r + 2 ^ n else r)"

definition root_fraction :: "nat \<Rightarrow> int \<Rightarrow> 32 word" where
  "root_fraction k p = word_of_int (root_bits 40 k (p * 2 ^ (32 * k)) 0)"

definition sha_K :: "32 word list" where
  "sha_K = map (root_fraction 3) first_primes"

definition sha_init :: "32 word list" where
  "sha_init = map (root_fraction 2) (take 8 first_primes)"

definition rotr32 :: "nat \<Rightarrow> 32 word \<Rightarrow> 32 word" where
  "rotr32 n w = drop_bit n w OR push_bit (32 - n) w"

definition be_word :: "int list \<Rightarrow> 32 word" where
  "be_word bs = word_of_int (foldl (\<lambda>acc b. acc * 256 + b) 0 bs)"

fun be_words :: "int list \<Rightarrow> 32 word list" where
  "be_words (a # b # c # d # s) = be_word [a, b, c, d] # be_words s"
| "be_words _ = []"

text \<open>The message schedule, newest word first.\<close>

fun sha_extend :: "nat \<Rightarrow> 32 word list \<Rightarrow> 32 word list" where
  "sha_extend 0 ws = ws"
| "sha_extend (Suc n) ws =
     (let w15 = ws ! 14; w2 = ws ! 1;
          s0 = rotr32 7 w15 XOR rotr32 18 w15 XOR drop_bit 3 w15;
          s1 = rotr32 17 w2 XOR rotr32 19 w2 XOR drop_bit 10 w2
      in sha_extend n ((ws ! 15 + s0 + ws ! 6 + s1) # ws))"

fun sha_round :: "32 word list \<Rightarrow> 32 word \<times> 32 word \<Rightarrow> 32 word list" where
  "sha_round [a, b, c, d, e, f, g, h] (k, w) =
     (let t1 = h + (rotr32 6 e XOR rotr32 11 e XOR rotr32 25 e) + ((e AND f) XOR (NOT e AND g)) + k + w;
          t2 = (rotr32 2 a XOR rotr32 13 a XOR rotr32 22 a) + ((a AND b) XOR (a AND c) XOR (b AND c))
      in [t1 + t2, a, b, c, d + t1, e, f, g])"
| "sha_round st _ = st"

definition sha_block :: "32 word list \<Rightarrow> int list \<Rightarrow> 32 word list" where
  "sha_block st block =
     map2 (+) st (foldl sha_round st (zip sha_K (rev (sha_extend 48 (rev (be_words block))))))"

fun be_bytes :: "nat \<Rightarrow> int \<Rightarrow> int list" where
  "be_bytes 0 n = []"
| "be_bytes (Suc k) n = be_bytes k (n div 256) @ [n mod 256]"

definition sha_pad :: "int list \<Rightarrow> int list" where
  "sha_pad m = m @ [128] @ replicate ((119 - length m mod 64) mod 64) 0 @ be_bytes 8 (8 * int (length m))"

fun chunks :: "nat \<Rightarrow> nat \<Rightarrow> 'a list \<Rightarrow> 'a list list" where
  "chunks 0 k xs = []"
| "chunks (Suc n) k xs = (if xs = [] then [] else take k xs # chunks n k (drop k xs))"

definition sha256_Sum256 :: "string \<Rightarrow> string" where
  "sha256_Sum256 s =
     (let padded = sha_pad (map of_char s)
      in concat (map (\<lambda>w. map char_of (be_bytes 4 (uint w)))
           (foldl sha_block sha_init (chunks (length padded) 64 padded))))"

text \<open>
  The initial state and the first round for the message \<open>abc\<close>, as the example of the standard
  lists them.
\<close>

lemma sha_init_value:
  "sha_init = [0x6a09e667, 0xbb67ae85, 0x3c6ef372, 0xa54ff53a, 0x510e527f, 0x9b05688c, 0x1f83d9ab, 0x5be0cd19]"
  by code_simp

lemma sha_K_first: "root_fraction 3 2 = 0x428a2f98"
  by code_simp

lemma sha256_abc_first_round:
  "sha_round sha_init (root_fraction 3 2, hd (be_words (sha_pad (map of_char ''abc'')))) =
   [0x5d6aebcd, 0x6a09e667, 0xbb67ae85, 0x3c6ef372, 0xfa2a4622, 0x510e527f, 0x9b05688c, 0x1f83d9ab]"
  unfolding sha_init_value sha_K_first by code_simp

lemma sha_round_length: "length (sha_round st kw) = length st"
  by (induction st kw rule: sha_round.induct) (auto simp: Let_def)

lemma foldl_sha_round_length: "length (foldl sha_round st kws) = length st"
  by (induction kws arbitrary: st) (auto simp: sha_round_length)

lemma foldl_sha_block_length: "length (foldl sha_block st bs) = length st"
  by (induction bs arbitrary: st) (auto simp: sha_block_def foldl_sha_round_length)

lemma be_bytes_length [simp]: "length (be_bytes k n) = k"
  by (induction k arbitrary: n) auto

lemma sha256_length [simp]: "length (sha256_Sum256 s) = 32"
  by (simp add: sha256_Sum256_def Let_def length_concat comp_def foldl_sha_block_length
                sum_list_triv sha_init_def first_primes_def)

end
