(* ===== verification/Auth_Store.thy ===== *)
theory Auth_Store
  imports Auth_Scope Go_Codec Share_Registry "HOL-Library.Product_Lexorder"
begin

text \<open>
  The principal registry: the rows and rules of \<open>internal/storage/auth.go\<close> and
  \<open>ui_sessions.go\<close> and the SQLite stores of \<open>internal/storage/sqlite/auth.go\<close> and
  \<open>ui_sessions.go\<close>. The database is a record of tables; one SQL statement is one step on
  it, may fail (the next entry of \<open>wd_faults\<close> says so, an exhausted list never fails), and
  applies the constraints of the schema. A transaction that does not reach its commit leaves
  the tables as they were. \<open>crypto/rand\<close> is the stream \<open>wd_rand\<close> with a position, so a mint
  is a function of the state; an operation reads the clock once, as the instant \<open>now\<close>.
\<close>

section \<open>Instants in the database\<close>

text \<open>
  \<open>toMillis\<close> and \<open>fromMillis\<close>: an instant counts nanoseconds from Go's zero time, the
  columns count milliseconds from the Unix epoch, so storing an instant drops what is below a
  millisecond.
\<close>

definition unix_epoch_ms :: int where "unix_epoch_ms = 62135596800000"

definition toMillis :: "time \<Rightarrow> int" where
  "toMillis t = t div 1000000 - unix_epoch_ms"

definition fromMillis :: "int \<Rightarrow> time" where
  "fromMillis ms = (ms + unix_epoch_ms) * 1000000"

definition stored :: "time \<Rightarrow> time" where
  "stored t = fromMillis (toMillis t)"

lemma toMillis_fromMillis [simp]: "toMillis (fromMillis ms) = ms"
  by (simp add: toMillis_def fromMillis_def)

lemma toMillis_stored [simp]: "toMillis (stored t) = toMillis t"
  by (simp add: stored_def)

lemma stored_le: "stored t \<le> t" "t < stored t + 1000000"
  using div_mult_mod_eq [of t 1000000] pos_mod_bound [of 1000000 t] pos_mod_sign [of 1000000 t]
  by (simp_all add: stored_def toMillis_def fromMillis_def)

lemma toMillis_mono: "s \<le> t \<Longrightarrow> toMillis s \<le> toMillis t"
  by (simp add: toMillis_def zdiv_mono1)

lemma stored_mono: "s \<le> t \<Longrightarrow> stored s \<le> stored t"
  using toMillis_mono [of s t] by (simp add: stored_def fromMillis_def)

lemma stored_stored [simp]: "stored (stored t) = stored t"
  by (simp add: stored_def)

lemma toMillis_less_stored: "toMillis s < toMillis t \<longleftrightarrow> s < stored t"
proof -
  have "toMillis s < toMillis t \<longleftrightarrow> s div 1000000 < t div 1000000" by (simp add: toMillis_def)
  also have "\<dots> \<longleftrightarrow> s < t div 1000000 * 1000000"
    using div_mult_mod_eq [of s 1000000] pos_mod_bound [of 1000000 s] pos_mod_sign [of 1000000 s] by linarith
  finally show ?thesis by (simp add: stored_def fromMillis_def toMillis_def)
qed

section \<open>Errors\<close>

text \<open>
  The sentinels of the two packages; a wrapped sentinel keeps its identity under
  \<open>errors.Is\<close>, so the wrapping text is dropped, and \<open>errors.Join\<close> matches both its parts.
\<close>

datatype AuthErr =
    ErrNoCredential
  | ErrInvalidCredential string
  | ErrStoreNotFound
  | ErrAlreadyExists
  | ErrPrincipalInactive
  | ErrOwnerProtected
  | ErrAPIKeyNotFound
  | ErrRefused string
  | ErrDatabase
  | ErrJoin AuthErr AuthErr

fun is_invalid :: "AuthErr \<Rightarrow> bool" where
  "is_invalid (ErrInvalidCredential m) = True"
| "is_invalid (ErrJoin a b) = (is_invalid a \<or> is_invalid b)"
| "is_invalid _ = False"

fun is_not_found :: "AuthErr \<Rightarrow> bool" where
  "is_not_found ErrStoreNotFound = True"
| "is_not_found (ErrJoin a b) = (is_not_found a \<or> is_not_found b)"
| "is_not_found _ = False"

fun is_key_not_found :: "AuthErr \<Rightarrow> bool" where
  "is_key_not_found ErrAPIKeyNotFound = True"
| "is_key_not_found (ErrJoin a b) = (is_key_not_found a \<or> is_key_not_found b)"
| "is_key_not_found _ = False"

fun is_inactive :: "AuthErr \<Rightarrow> bool" where
  "is_inactive ErrPrincipalInactive = True"
| "is_inactive (ErrJoin a b) = (is_inactive a \<or> is_inactive b)"
| "is_inactive _ = False"

fun is_no_credential :: "AuthErr \<Rightarrow> bool" where
  "is_no_credential ErrNoCredential = True"
| "is_no_credential (ErrJoin a b) = (is_no_credential a \<or> is_no_credential b)"
| "is_no_credential _ = False"

section \<open>Rows\<close>

definition PrincipalKindPerson :: string where "PrincipalKindPerson = ''person''"
definition PrincipalKindDevice :: string where "PrincipalKindDevice = ''device''"
definition PrincipalKindPeer :: string where "PrincipalKindPeer = ''peer''"

definition PrincipalKinds :: "string list" where
  "PrincipalKinds = [PrincipalKindOwner, PrincipalKindPerson, PrincipalKindDevice, PrincipalKindPeer]"

definition PrincipalActive :: string where "PrincipalActive = ''active''"
definition PrincipalSuspended :: string where "PrincipalSuspended = ''suspended''"
definition PrincipalRevoked :: string where "PrincipalRevoked = ''revoked''"

definition PrincipalStatuses :: "string list" where
  "PrincipalStatuses = [PrincipalActive, PrincipalSuspended, PrincipalRevoked]"

lemma principal_status_neq [simp]:
  "PrincipalActive \<noteq> PrincipalSuspended" "PrincipalSuspended \<noteq> PrincipalActive"
  "PrincipalActive \<noteq> PrincipalRevoked" "PrincipalRevoked \<noteq> PrincipalActive"
  "PrincipalSuspended \<noteq> PrincipalRevoked" "PrincipalRevoked \<noteq> PrincipalSuspended"
  by (simp_all add: PrincipalActive_def PrincipalSuspended_def PrincipalRevoked_def)

definition DefaultPrincipalRoles :: "string list" where
  "DefaultPrincipalRoles = [''reader'']"

definition IdentityMethodAPIKey :: string where "IdentityMethodAPIKey = ''api_key''"
definition IdentityMethodLink :: string where "IdentityMethodLink = ''link''"

definition IdentityMethods :: "string list" where
  "IdentityMethods =
     [IdentityMethodAPIKey, ''passkey'', ''proxy'', ''oidc'', ''mtls'', IdentityMethodLink]"

definition TicketKindInvite :: string where "TicketKindInvite = ''invite''"
definition TicketKindMagicLink :: string where "TicketKindMagicLink = ''magic_link''"

definition TicketKinds :: "string list" where
  "TicketKinds = [TicketKindInvite, TicketKindMagicLink]"

definition second :: int where "second = 1000000000"

definition IdentityTouchEvery :: int where "IdentityTouchEvery = 60 * second"

record PrincipalRow =
  pw_ID :: string
  pw_Kind :: string
  pw_DisplayName :: string
  pw_Roles :: "string list"
  pw_Status :: string
  pw_CreatedAt :: time
  pw_RevokedAt :: "time option"

definition Principal_Active :: "PrincipalRow \<Rightarrow> bool" where
  "Principal_Active p \<longleftrightarrow> pw_Status p = PrincipalActive"

record PrincipalFilter =
  pf_Kind :: string
  pf_Status :: string
  pf_Limit :: int

record Identity =
  id_ID :: string
  id_PrincipalID :: string
  id_Method :: string
  id_Issuer :: string
  id_Subject :: string
  id_Name :: string
  id_CreatedAt :: time
  id_RevokedAt :: "time option"
  id_LastUsedAt :: "time option"

definition Identity_Active :: "Identity \<Rightarrow> bool" where
  "Identity_Active i \<longleftrightarrow> id_RevokedAt i = None"

record Ticket =
  tk_Kind :: string
  tk_PrincipalID :: string
  tk_Payload :: string
  tk_CreatedBy :: string
  tk_CreatedAt :: time
  tk_ExpiresAt :: time
  tk_RedeemedAt :: "time option"

record TicketIssue =
  ti_Kind :: string
  ti_Payload :: string
  ti_TTL :: int
  ti_CreatedBy :: string
  ti_PrincipalID :: string
  ti_Now :: time

record UISession =
  us_ID :: string
  us_SecretHash :: string
  us_PrincipalID :: string
  us_IdentityID :: string
  us_Scope :: string
  us_UserAgent :: string
  us_RemoteAddr :: string
  us_CreatedAt :: time
  us_LastSeenAt :: time
  us_IdleExpiresAt :: time
  us_ExpiresAt :: time
  us_RevokedAt :: "time option"
  us_RevokeReason :: string

definition UISession_Active :: "UISession \<Rightarrow> time \<Rightarrow> bool" where
  "UISession_Active s now \<longleftrightarrow> us_RevokedAt s = None \<and> now < us_IdleExpiresAt s \<and> now < us_ExpiresAt s"

record UILoginCode =
  lc_CodeHash :: string
  lc_PrincipalID :: string
  lc_IdentityID :: string
  lc_Scope :: string
  lc_CreatedAt :: time
  lc_ExpiresAt :: time

record UISessionFilter =
  uf_ActiveOnly :: bool
  uf_Now :: time
  uf_PrincipalID :: string
  uf_Limit :: int

definition RevokeReasonIdentityRevoked :: string where
  "RevokeReasonIdentityRevoked = ''identity revoked''"
definition RevokeReasonPrincipalRevoked :: string where
  "RevokeReasonPrincipalRevoked = ''principal revoked''"

section \<open>The database and its operations\<close>

record auth_world =
  wd_principals :: "PrincipalRow list"
  wd_identities :: "Identity list"
  wd_tickets :: "(string \<times> Ticket) list"
  wd_kv :: "(string \<times> string) list"
  wd_sessions :: "UISession list"
  wd_codes :: "UILoginCode list"
  wd_faults :: "bool list"
  wd_rand :: "nat \<Rightarrow> char"
  wd_drawn :: nat
  wd_audiences :: "Audience list"
  wd_members :: "AudienceMember list"
  wd_policies :: "SharePolicy list"
  wd_grants :: "ShareGrant list"
  wd_deny :: "(string \<times> string list) list"
  wd_bound :: "(string \<times> string) list"
  wd_access :: "AccessEntry list"
  wd_access_objects :: "(string \<times> string) list"

type_synonym 'a auth_op = "auth_world \<Rightarrow> (AuthErr + 'a) \<times> auth_world"

definition ret :: "'a \<Rightarrow> 'a auth_op" where
  "ret x = (\<lambda>w. (Inr x, w))"

definition fail_with :: "AuthErr \<Rightarrow> 'a auth_op" where
  "fail_with e = (\<lambda>w. (Inl e, w))"

definition bnd :: "'a auth_op \<Rightarrow> ('a \<Rightarrow> 'b auth_op) \<Rightarrow> 'b auth_op" where
  "bnd m f = (\<lambda>w. case m w of (Inl e, w') \<Rightarrow> (Inl e, w') | (Inr x, w') \<Rightarrow> f x w')"

text \<open>\<open>if err != nil\<close> with a branch of its own: the error decides how to go on.\<close>

definition on_err :: "'a auth_op \<Rightarrow> (AuthErr \<Rightarrow> 'b auth_op) \<Rightarrow> ('a \<Rightarrow> 'b auth_op) \<Rightarrow> 'b auth_op" where
  "on_err m h f = (\<lambda>w. case m w of (Inl e, w') \<Rightarrow> h e w' | (Inr x, w') \<Rightarrow> f x w')"

text \<open>One SQL statement: it fails when the database says so, else it runs.\<close>

definition stmt :: "'a auth_op \<Rightarrow> 'a auth_op" where
  "stmt m = (\<lambda>w. case wd_faults w of
                    [] \<Rightarrow> m w
                  | b # bs \<Rightarrow> if b then (Inl ErrDatabase, w\<lparr>wd_faults := bs\<rparr>) else m (w\<lparr>wd_faults := bs\<rparr>))"

definition query :: "(auth_world \<Rightarrow> AuthErr + 'a) \<Rightarrow> 'a auth_op" where
  "query f = stmt (\<lambda>w. (f w, w))"

definition rollback :: "auth_world \<Rightarrow> auth_world \<Rightarrow> auth_world" where
  "rollback w w' = w\<lparr>wd_faults := wd_faults w', wd_drawn := wd_drawn w'\<rparr>"

text \<open>
  A transaction: \<open>BeginTx\<close>, the body, and \<open>Commit\<close> when the body says it got there; every
  other way out runs the deferred \<open>Rollback\<close>.
\<close>

definition in_tx :: "bool auth_op \<Rightarrow> unit auth_op" where
  "in_tx body =
     bnd (stmt (ret ())) (\<lambda>_ w.
       case body w of
         (Inl e, w') \<Rightarrow> (Inl e, rollback w w')
       | (Inr False, w') \<Rightarrow> (Inr (), rollback w w')
       | (Inr True, w') \<Rightarrow>
           (case stmt (ret ()) w' of
              (Inl e, w'') \<Rightarrow> (Inl e, rollback w w'')
            | (Inr _, w'') \<Rightarrow> (Inr (), w'')))"

definition draw :: "nat \<Rightarrow> string auth_op" where
  "draw n = (\<lambda>w. (Inr (map (\<lambda>i. wd_rand w (wd_drawn w + i)) [0..<n]), w\<lparr>wd_drawn := wd_drawn w + n\<rparr>))"

lemmas op_defs = ret_def fail_with_def bnd_def on_err_def stmt_def query_def in_tx_def

section \<open>Identifiers, secrets and defaults\<close>

definition crockford :: string where
  "crockford = ''0123456789ABCDEFGHJKMNPQRSTVWXYZ''"

text \<open>Bit \<open>bit\<close> of the sixteen bytes, most significant first; the two bits before them are zero.\<close>

definition ulid_bit :: "string \<Rightarrow> nat \<Rightarrow> nat" where
  "ulid_bit b k =
     (if k < 2 then 0
      else let bit = k - 2 in (of_char (b ! (bit div 8)) div 2 ^ (7 - bit mod 8)) mod 2)"

definition encodeULID :: "string \<Rightarrow> string" where
  "encodeULID b =
     map (\<lambda>i. crockford ! (foldl (\<lambda>v j. v * 2 + ulid_bit b (i * 5 + j)) 0 [0..<5])) [0..<26]"

definition NewULID :: "time \<Rightarrow> string auth_op" where
  "NewULID now =
     bnd (draw 10) (\<lambda>r. ret (encodeULID (map char_of (be_bytes 6 (toMillis now)) @ r)))"

definition NewPrincipalID :: "time \<Rightarrow> string auth_op" where
  "NewPrincipalID now = bnd (NewULID now) (\<lambda>u. ret (''prn_'' @ u))"

definition NewIdentityID :: "time \<Rightarrow> string auth_op" where
  "NewIdentityID now = bnd (NewULID now) (\<lambda>u. ret (''idn_'' @ u))"

definition NewTicketSecret :: "string auth_op" where
  "NewTicketSecret = bnd (draw 32) (\<lambda>b. ret (b64_EncodeToString b))"

definition TicketHash :: "string \<Rightarrow> string" where
  "TicketHash secret = hex_EncodeToString (sha256_Sum256 secret)"

definition ContainsAny :: "string \<Rightarrow> string \<Rightarrow> bool" where
  "ContainsAny s chars = list_ex (\<lambda>c. c \<in> set chars) s"

definition role_word_bad :: "string \<Rightarrow> bool" where
  "role_word_bad r \<longleftrightarrow> r = [] \<or> ContainsAny r [CHR '' '', CHR 0x09, CHR 0x0D, CHR 0x0A, CHR 0x22]"

definition PrepareNewPrincipal :: "PrincipalRow \<Rightarrow> time \<Rightarrow> PrincipalRow auth_op" where
  "PrepareNewPrincipal p now =
     (if pw_Kind p = PrincipalKindOwner then fail_with ErrOwnerProtected
      else if pw_Kind p \<notin> set PrincipalKinds then fail_with (ErrRefused ''principal: unknown kind'')
      else bnd (if pw_ID p = [] then NewPrincipalID now else ret (pw_ID p)) (\<lambda>i.
        if i = OwnerPrincipal then fail_with ErrOwnerProtected
        else if TrimSpace (pw_DisplayName p) = [] then fail_with (ErrRefused ''principal: display name is required'')
        else let roles = (if pw_Roles p = [] then DefaultPrincipalRoles else pw_Roles p);
                 status = (if pw_Status p = [] then PrincipalActive else pw_Status p)
             in if list_ex role_word_bad roles then fail_with (ErrRefused ''principal: role'')
                else if status \<notin> set PrincipalStatuses then fail_with (ErrRefused ''principal: unknown status'')
                else ret (p\<lparr>pw_ID := i, pw_Roles := roles, pw_Status := status,
                            pw_CreatedAt := (if pw_CreatedAt p = 0 then now else pw_CreatedAt p)\<rparr>)))"

definition PrepareNewIdentity :: "Identity \<Rightarrow> time \<Rightarrow> Identity auth_op" where
  "PrepareNewIdentity i now =
     (if id_PrincipalID i = [] then fail_with (ErrRefused ''identity: principal id is required'')
      else if id_Method i \<notin> set IdentityMethods then fail_with (ErrRefused ''identity: unknown method'')
      else if id_Subject i = [] then fail_with (ErrRefused ''identity: subject is required'')
      else bnd (if id_ID i = [] then NewIdentityID now else ret (id_ID i)) (\<lambda>ident.
        ret (i\<lparr>id_ID := ident, id_CreatedAt := (if id_CreatedAt i = 0 then now else id_CreatedAt i)\<rparr>)))"

definition PrepareTicketIssue :: "TicketIssue \<Rightarrow> time \<Rightarrow> TicketIssue auth_op" where
  "PrepareTicketIssue t now =
     (if ti_Kind t \<notin> set TicketKinds then fail_with (ErrRefused ''ticket: unknown kind'')
      else if ti_TTL t \<le> 0 then fail_with (ErrRefused ''ticket: ttl must be positive'')
      else if ti_CreatedBy t = [] then fail_with (ErrRefused ''ticket: created_by is required'')
      else ret (t\<lparr>ti_Payload := (if ti_Payload t = [] then ''{}'' else ti_Payload t),
                  ti_Now := (if ti_Now t = 0 then now else ti_Now t)\<rparr>))"

section \<open>principalStore\<close>

definition has_principal :: "auth_world \<Rightarrow> string \<Rightarrow> bool" where
  "has_principal w i = list_ex (\<lambda>p. pw_ID p = i) (wd_principals w)"

definition has_identity :: "auth_world \<Rightarrow> string \<Rightarrow> bool" where
  "has_identity w i = list_ex (\<lambda>x. id_ID x = i) (wd_identities w)"

definition principal_Create :: "PrincipalRow \<Rightarrow> time \<Rightarrow> PrincipalRow auth_op" where
  "principal_Create p now =
     bnd (PrepareNewPrincipal p now) (\<lambda>q.
       bnd (stmt (\<lambda>w.
              if has_principal w (pw_ID q) then (Inl ErrAlreadyExists, w)
              else (Inr (), w\<lparr>wd_principals := wd_principals w @
                     [q\<lparr>pw_CreatedAt := stored (pw_CreatedAt q),
                        pw_RevokedAt := map_option stored (pw_RevokedAt q)\<rparr>]\<rparr>)))
         (\<lambda>_. ret q))"

definition principal_Get :: "string \<Rightarrow> PrincipalRow auth_op" where
  "principal_Get i =
     query (\<lambda>w. case find (\<lambda>p. pw_ID p = i) (wd_principals w) of
                  None \<Rightarrow> Inl ErrStoreNotFound
                | Some p \<Rightarrow> Inr p)"

definition sql_limit :: "int \<Rightarrow> 'a list \<Rightarrow> 'a list" where
  "sql_limit n xs = (if n > 0 then take (nat n) xs else xs)"

definition principal_List :: "PrincipalFilter \<Rightarrow> PrincipalRow list auth_op" where
  "principal_List f =
     query (\<lambda>w. Inr (sql_limit (pf_Limit f)
       (sort_key (\<lambda>p. (toMillis (pw_CreatedAt p), pw_ID p))
         (filter (\<lambda>p. (pf_Kind f = [] \<or> pw_Kind p = pf_Kind f) \<and> (pf_Status f = [] \<or> pw_Status p = pf_Status f))
           (wd_principals w)))))"

definition principal_guard :: "string \<Rightarrow> PrincipalRow auth_op" where
  "principal_guard i =
     bnd (principal_Get i) (\<lambda>p. if pw_Kind p = PrincipalKindOwner then fail_with ErrOwnerProtected else ret p)"

definition update_where :: "('a \<Rightarrow> bool) \<Rightarrow> ('a \<Rightarrow> 'a) \<Rightarrow> 'a list \<Rightarrow> 'a list" where
  "update_where c f rows = map (\<lambda>r. if c r then f r else r) rows"

definition principal_Suspend :: "string \<Rightarrow> unit auth_op" where
  "principal_Suspend i =
     bnd (principal_guard i) (\<lambda>p.
       if pw_Status p = PrincipalSuspended then ret ()
       else if pw_Status p = PrincipalRevoked then fail_with ErrPrincipalInactive
       else stmt (\<lambda>w. (Inr (), w\<lparr>wd_principals :=
              update_where (\<lambda>r. pw_ID r = i \<and> pw_Status r = PrincipalActive)
                (\<lambda>r. r\<lparr>pw_Status := PrincipalSuspended\<rparr>) (wd_principals w)\<rparr>)))"

definition revoke_sessions :: "(UISession \<Rightarrow> bool) \<Rightarrow> time \<Rightarrow> string \<Rightarrow> unit auth_op" where
  "revoke_sessions c at reason =
     stmt (\<lambda>w. (Inr (), w\<lparr>wd_sessions :=
       update_where (\<lambda>s. c s \<and> us_RevokedAt s = None)
         (\<lambda>s. s\<lparr>us_RevokedAt := Some (stored at), us_RevokeReason := reason\<rparr>) (wd_sessions w)\<rparr>))"

definition delete_codes :: "(UILoginCode \<Rightarrow> bool) \<Rightarrow> unit auth_op" where
  "delete_codes c = stmt (\<lambda>w. (Inr (), w\<lparr>wd_codes := filter (\<lambda>x. \<not> c x) (wd_codes w)\<rparr>))"

definition principal_Revoke :: "string \<Rightarrow> time \<Rightarrow> unit auth_op" where
  "principal_Revoke i at =
     bnd (principal_guard i) (\<lambda>p.
       if pw_Status p = PrincipalRevoked then ret ()
       else in_tx
         (bnd (stmt (\<lambda>w. (Inr (), w\<lparr>wd_principals :=
                update_where (\<lambda>r. pw_ID r = i \<and> pw_Status r \<noteq> PrincipalRevoked)
                  (\<lambda>r. r\<lparr>pw_Status := PrincipalRevoked, pw_RevokedAt := Some (stored at)\<rparr>) (wd_principals w)\<rparr>))) (\<lambda>_.
          bnd (stmt (\<lambda>w. (Inr (), w\<lparr>wd_identities :=
                update_where (\<lambda>r. id_PrincipalID r = i \<and> id_RevokedAt r = None)
                  (\<lambda>r. r\<lparr>id_RevokedAt := Some (stored at)\<rparr>) (wd_identities w)\<rparr>))) (\<lambda>_.
          bnd (revoke_sessions (\<lambda>s. us_PrincipalID s = i) at RevokeReasonPrincipalRevoked) (\<lambda>_.
          bnd (delete_codes (\<lambda>c. lc_PrincipalID c = i)) (\<lambda>_.
          ret True))))))"

section \<open>identityStore\<close>

definition same_triple :: "Identity \<Rightarrow> Identity \<Rightarrow> bool" where
  "same_triple a b \<longleftrightarrow> id_Method a = id_Method b \<and> id_Issuer a = id_Issuer b \<and> id_Subject a = id_Subject b"

definition identity_Create :: "Identity \<Rightarrow> time \<Rightarrow> Identity auth_op" where
  "identity_Create i now =
     bnd (PrepareNewIdentity i now) (\<lambda>q.
       bnd (stmt (\<lambda>w.
              if has_identity w (id_ID q) \<or> list_ex (same_triple q) (wd_identities w) then (Inl ErrAlreadyExists, w)
              else if \<not> has_principal w (id_PrincipalID q) then (Inl ErrStoreNotFound, w)
              else (Inr (), w\<lparr>wd_identities := wd_identities w @
                     [q\<lparr>id_CreatedAt := stored (id_CreatedAt q),
                        id_RevokedAt := map_option stored (id_RevokedAt q),
                        id_LastUsedAt := map_option stored (id_LastUsedAt q)\<rparr>]\<rparr>)))
         (\<lambda>_. ret q))"

definition identity_Get :: "string \<Rightarrow> Identity auth_op" where
  "identity_Get i =
     query (\<lambda>w. case find (\<lambda>x. id_ID x = i) (wd_identities w) of
                  None \<Rightarrow> Inl ErrStoreNotFound
                | Some x \<Rightarrow> Inr x)"

definition identity_Find :: "string \<Rightarrow> string \<Rightarrow> string \<Rightarrow> Identity auth_op" where
  "identity_Find meth issuer subject =
     query (\<lambda>w. case find (\<lambda>x. id_Method x = meth \<and> id_Issuer x = issuer \<and> id_Subject x = subject)
                       (wd_identities w) of
                  None \<Rightarrow> Inl ErrStoreNotFound
                | Some x \<Rightarrow> Inr x)"

definition identity_ListByPrincipal :: "string \<Rightarrow> Identity list auth_op" where
  "identity_ListByPrincipal pid =
     query (\<lambda>w. Inr (sort_key (\<lambda>x. (toMillis (id_CreatedAt x), id_ID x))
       (filter (\<lambda>x. id_PrincipalID x = pid) (wd_identities w))))"

definition identity_exists :: "string \<Rightarrow> unit auth_op" where
  "identity_exists i = query (\<lambda>w. if has_identity w i then Inr () else Inl ErrStoreNotFound)"

text \<open>An \<open>UPDATE\<close> that reports how many rows it changed.\<close>

definition identity_Revoke :: "string \<Rightarrow> time \<Rightarrow> unit auth_op" where
  "identity_Revoke i at =
     in_tx
       (bnd (stmt (\<lambda>w. (Inr (length (filter (\<lambda>r. id_ID r = i \<and> id_RevokedAt r = None) (wd_identities w))),
               w\<lparr>wd_identities :=
                 update_where (\<lambda>r. id_ID r = i \<and> id_RevokedAt r = None)
                   (\<lambda>r. r\<lparr>id_RevokedAt := Some (stored at)\<rparr>) (wd_identities w)\<rparr>))) (\<lambda>n.
        if n = 0 then bnd (identity_exists i) (\<lambda>_. ret False)
        else
          bnd (revoke_sessions (\<lambda>s. us_IdentityID s = i) at RevokeReasonIdentityRevoked) (\<lambda>_.
          bnd (delete_codes (\<lambda>c. lc_IdentityID c = i)) (\<lambda>_.
          ret True))))"

definition touch_due :: "string \<Rightarrow> time \<Rightarrow> Identity \<Rightarrow> bool" where
  "touch_due i at r \<longleftrightarrow>
     id_ID r = i \<and> id_RevokedAt r = None \<and>
     (case id_LastUsedAt r of None \<Rightarrow> True | Some t \<Rightarrow> toMillis t \<le> toMillis (at - IdentityTouchEvery))"

definition identity_Touch :: "string \<Rightarrow> time \<Rightarrow> unit auth_op" where
  "identity_Touch i at =
     bnd (stmt (\<lambda>w. (Inr (length (filter (touch_due i at) (wd_identities w))),
            w\<lparr>wd_identities :=
              update_where (touch_due i at) (\<lambda>r. r\<lparr>id_LastUsedAt := Some (stored at)\<rparr>) (wd_identities w)\<rparr>)))
       (\<lambda>n. if n > 0 then ret () else identity_exists i)"

section \<open>ticketStore\<close>

definition ticket_Issue :: "TicketIssue \<Rightarrow> time \<Rightarrow> string auth_op" where
  "ticket_Issue t0 now =
     bnd (PrepareTicketIssue t0 now) (\<lambda>t.
     bnd NewTicketSecret (\<lambda>secret.
     bnd (stmt (\<lambda>w.
            if map_of (wd_tickets w) (TicketHash secret) \<noteq> None then (Inl ErrAlreadyExists, w)
            else if \<not> has_principal w (ti_CreatedBy t) \<or>
                    (ti_PrincipalID t \<noteq> [] \<and> \<not> has_principal w (ti_PrincipalID t)) then (Inl ErrStoreNotFound, w)
            else (Inr (), w\<lparr>wd_tickets := wd_tickets w @
                   [(TicketHash secret,
                     \<lparr>tk_Kind = ti_Kind t, tk_PrincipalID = ti_PrincipalID t, tk_Payload = ti_Payload t,
                      tk_CreatedBy = ti_CreatedBy t, tk_CreatedAt = stored (ti_Now t),
                      tk_ExpiresAt = stored (ti_Now t + ti_TTL t), tk_RedeemedAt = None\<rparr>)]\<rparr>)))
       (\<lambda>_. ret secret)))"

definition ticket_open :: "string \<Rightarrow> time \<Rightarrow> Ticket \<Rightarrow> bool" where
  "ticket_open kind now t \<longleftrightarrow>
     tk_Kind t = kind \<and> tk_RedeemedAt t = None \<and> toMillis now < toMillis (tk_ExpiresAt t)"

definition ticket_principal_active :: "auth_world \<Rightarrow> Ticket \<Rightarrow> bool" where
  "ticket_principal_active w t \<longleftrightarrow>
     tk_PrincipalID t = [] \<or>
     list_ex (\<lambda>p. pw_ID p = tk_PrincipalID t \<and> pw_Status p = PrincipalActive) (wd_principals w)"

text \<open>
  The conditional \<open>UPDATE ... RETURNING\<close>, then, on a miss, the read that tells an inactive
  principal from every other refusal.
\<close>

definition ticket_redeem_update :: "string \<Rightarrow> string \<Rightarrow> time \<Rightarrow> Ticket option auth_op" where
  "ticket_redeem_update kind hash now =
     stmt (\<lambda>w. case map_of (wd_tickets w) hash of
        None \<Rightarrow> (Inr None, w)
      | Some t \<Rightarrow>
          if ticket_open kind now t \<and> ticket_principal_active w t then
            (let t' = t\<lparr>tk_RedeemedAt := Some (stored now)\<rparr>
             in (Inr (Some t'), w\<lparr>wd_tickets := AList.update hash t' (wd_tickets w)\<rparr>))
          else (Inr None, w))"

definition ticket_miss :: "string \<Rightarrow> string \<Rightarrow> time \<Rightarrow> 'a auth_op" where
  "ticket_miss kind hash now =
     query (\<lambda>w. case map_of (wd_tickets w) hash of
        None \<Rightarrow> Inl ErrStoreNotFound
      | Some t \<Rightarrow>
          if ticket_open kind now t then
            (case find (\<lambda>p. pw_ID p = tk_PrincipalID t) (wd_principals w) of
               None \<Rightarrow> Inl ErrStoreNotFound
             | Some p \<Rightarrow> if pw_Status p \<noteq> PrincipalActive then Inl ErrPrincipalInactive else Inl ErrStoreNotFound)
          else Inl ErrStoreNotFound)"

definition ticket_Redeem :: "string \<Rightarrow> string \<Rightarrow> time \<Rightarrow> Ticket auth_op" where
  "ticket_Redeem kind secret now =
     bnd (ticket_redeem_update kind (TicketHash secret) now) (\<lambda>r.
       case r of Some t \<Rightarrow> ret t | None \<Rightarrow> ticket_miss kind (TicketHash secret) now)"

section \<open>kvStore\<close>

definition kv_Put :: "string \<Rightarrow> string \<Rightarrow> unit auth_op" where
  "kv_Put key v = stmt (\<lambda>w. (Inr (), w\<lparr>wd_kv := AList.update key v (wd_kv w)\<rparr>))"

definition kv_Get :: "string \<Rightarrow> string option auth_op" where
  "kv_Get key = query (\<lambda>w. Inr (map_of (wd_kv w) key))"

definition kv_Delete :: "string \<Rightarrow> unit auth_op" where
  "kv_Delete key = stmt (\<lambda>w. (Inr (), w\<lparr>wd_kv := AList.delete key (wd_kv w)\<rparr>))"

text \<open>
  \<open>LIKE ... ESCAPE '\'\<close> on bytes: \<open>%\<close> is any text, \<open>_\<close> one character (no pattern built here
  has an unescaped one), an escaped byte is itself, and SQLite compares ASCII letters without
  regard to case.
\<close>

definition ascii_fold :: "char \<Rightarrow> char" where
  "ascii_fold c = (if is_upper c then char_of (of_char c + 32 :: nat) else c)"

datatype like_token = LikeAny | LikeOne | LikeChar char | LikeNever

fun like_tokens :: "string \<Rightarrow> like_token list" where
  "like_tokens [] = []"
| "like_tokens (c # cs) =
     (if c = CHR 0x5C then (case cs of [] \<Rightarrow> [LikeNever] | d # ds \<Rightarrow> LikeChar d # like_tokens ds)
      else (if c = CHR ''%'' then LikeAny else if c = CHR ''_'' then LikeOne else LikeChar c) # like_tokens cs)"

fun like_match :: "like_token list \<Rightarrow> string \<Rightarrow> bool" where
  "like_match [] t = (t = [])"
| "like_match (LikeAny # ps) [] = like_match ps []"
| "like_match (LikeAny # ps) (c # cs) = (like_match ps (c # cs) \<or> like_match (LikeAny # ps) cs)"
| "like_match (LikeOne # ps) t = (case t of [] \<Rightarrow> False | c # cs \<Rightarrow> like_match ps cs)"
| "like_match (LikeChar d # ps) t = (case t of [] \<Rightarrow> False | c # cs \<Rightarrow> ascii_fold c = ascii_fold d \<and> like_match ps cs)"
| "like_match (LikeNever # ps) t = False"

definition sql_like :: "string \<Rightarrow> string \<Rightarrow> bool" where
  "sql_like pat t = like_match (like_tokens pat) t"

definition likePrefix :: "string \<Rightarrow> string" where
  "likePrefix prefix =
     concat (map (\<lambda>c. if c \<in> {CHR 0x5C, CHR ''%'', CHR ''_''} then [CHR 0x5C, c] else [c]) prefix) @ ''%''"

definition kv_List :: "string \<Rightarrow> string list auth_op" where
  "kv_List prefix =
     query (\<lambda>w. Inr (sort (filter (sql_like (likePrefix prefix)) (map fst (wd_kv w)))))"

section \<open>uiSessionStore\<close>

definition CreateLoginCode :: "UILoginCode \<Rightarrow> unit auth_op" where
  "CreateLoginCode c =
     stmt (\<lambda>w.
       if list_ex (\<lambda>x. lc_CodeHash x = lc_CodeHash c) (wd_codes w) \<or> \<not> has_identity w (lc_IdentityID c)
       then (Inl ErrDatabase, w)
       else (Inr (), w\<lparr>wd_codes := wd_codes w @
              [c\<lparr>lc_CreatedAt := stored (lc_CreatedAt c), lc_ExpiresAt := stored (lc_ExpiresAt c)\<rparr>]\<rparr>))"

definition ConsumeLoginCode :: "string \<Rightarrow> time \<Rightarrow> UILoginCode auth_op" where
  "ConsumeLoginCode hash now =
     bnd (stmt (\<lambda>w. (Inr (find (\<lambda>x. lc_CodeHash x = hash) (wd_codes w)),
            w\<lparr>wd_codes := filter (\<lambda>x. lc_CodeHash x \<noteq> hash) (wd_codes w)\<rparr>)))
       (\<lambda>r. case r of
              None \<Rightarrow> fail_with ErrStoreNotFound
            | Some c \<Rightarrow> if now < lc_ExpiresAt c then ret c else fail_with ErrStoreNotFound)"

definition store_session :: "UISession \<Rightarrow> UISession" where
  "store_session s =
     s\<lparr>us_CreatedAt := stored (us_CreatedAt s), us_LastSeenAt := stored (us_LastSeenAt s),
       us_IdleExpiresAt := stored (us_IdleExpiresAt s), us_ExpiresAt := stored (us_ExpiresAt s),
       us_RevokedAt := map_option stored (us_RevokedAt s)\<rparr>"

definition session_Create :: "UISession \<Rightarrow> unit auth_op" where
  "session_Create s =
     stmt (\<lambda>w.
       if list_ex (\<lambda>x. us_ID x = us_ID s \<or> us_SecretHash x = us_SecretHash s) (wd_sessions w) \<or>
          \<not> has_identity w (us_IdentityID s)
       then (Inl ErrDatabase, w)
       else (Inr (), w\<lparr>wd_sessions := wd_sessions w @ [store_session s]\<rparr>))"

definition session_live :: "time \<Rightarrow> UISession \<Rightarrow> bool" where
  "session_live now s \<longleftrightarrow>
     us_RevokedAt s = None \<and> toMillis now < toMillis (us_IdleExpiresAt s) \<and> toMillis now < toMillis (us_ExpiresAt s)"

definition session_Lookup :: "string \<Rightarrow> time \<Rightarrow> UISession auth_op" where
  "session_Lookup hash now =
     query (\<lambda>w. case find (\<lambda>s. us_SecretHash s = hash \<and> session_live now s) (wd_sessions w) of
                  None \<Rightarrow> Inl ErrStoreNotFound
                | Some s \<Rightarrow> Inr s)"

definition session_Get :: "string \<Rightarrow> UISession auth_op" where
  "session_Get i =
     query (\<lambda>w. case find (\<lambda>s. us_ID s = i) (wd_sessions w) of
                  None \<Rightarrow> Inl ErrStoreNotFound
                | Some s \<Rightarrow> Inr s)"

definition session_exists :: "string \<Rightarrow> unit auth_op" where
  "session_exists i =
     query (\<lambda>w. if list_ex (\<lambda>s. us_ID s = i) (wd_sessions w) then Inr () else Inl ErrStoreNotFound)"

definition session_Touch :: "string \<Rightarrow> time \<Rightarrow> time \<Rightarrow> unit auth_op" where
  "session_Touch i at idleUntil =
     bnd (stmt (\<lambda>w. (Inr (length (filter (\<lambda>s. us_ID s = i \<and> us_RevokedAt s = None) (wd_sessions w))),
            w\<lparr>wd_sessions :=
              update_where (\<lambda>s. us_ID s = i \<and> us_RevokedAt s = None)
                (\<lambda>s. s\<lparr>us_LastSeenAt := stored at,
                       us_IdleExpiresAt := fromMillis (min (toMillis idleUntil) (toMillis (us_ExpiresAt s)))\<rparr>)
                (wd_sessions w)\<rparr>)))
       (\<lambda>n. if n > 0 then ret () else session_exists i)"

definition session_Revoke :: "string \<Rightarrow> time \<Rightarrow> string \<Rightarrow> unit auth_op" where
  "session_Revoke i at reason =
     bnd (stmt (\<lambda>w. (Inr (length (filter (\<lambda>s. us_ID s = i \<and> us_RevokedAt s = None) (wd_sessions w))),
            w\<lparr>wd_sessions :=
              update_where (\<lambda>s. us_ID s = i \<and> us_RevokedAt s = None)
                (\<lambda>s. s\<lparr>us_RevokedAt := Some (stored at), us_RevokeReason := reason\<rparr>) (wd_sessions w)\<rparr>)))
       (\<lambda>n. if n > 0 then ret () else session_exists i)"

text \<open>Newest first: the reverse of the ascending order on (created, id).\<close>

definition session_List :: "UISessionFilter \<Rightarrow> UISession list auth_op" where
  "session_List f =
     query (\<lambda>w. Inr (sql_limit (uf_Limit f)
       (rev (sort_key (\<lambda>s. (toMillis (us_CreatedAt s), us_ID s))
         (filter (\<lambda>s. (uf_ActiveOnly f \<longrightarrow> session_live (uf_Now f) s) \<and>
                      (uf_PrincipalID f = [] \<or> us_PrincipalID s = uf_PrincipalID f))
           (wd_sessions w))))))"

definition session_ended_before :: "int \<Rightarrow> UISession \<Rightarrow> bool" where
  "session_ended_before b s \<longleftrightarrow>
     (case us_RevokedAt s of None \<Rightarrow> False | Some t \<Rightarrow> toMillis t < b) \<or>
     toMillis (us_IdleExpiresAt s) < b \<or> toMillis (us_ExpiresAt s) < b"

definition session_Prune :: "time \<Rightarrow> nat auth_op" where
  "session_Prune before =
     bnd (stmt (\<lambda>w. (Inr (length (filter (session_ended_before (toMillis before)) (wd_sessions w))),
            w\<lparr>wd_sessions := filter (\<lambda>s. \<not> session_ended_before (toMillis before) s) (wd_sessions w)\<rparr>))) (\<lambda>n.
     bnd (delete_codes (\<lambda>c. toMillis (lc_ExpiresAt c) < toMillis before)) (\<lambda>_. ret n))"

section \<open>audienceStore: the two operations an invite needs\<close>

definition audience_Get :: "string \<Rightarrow> Audience auth_op" where
  "audience_Get i =
     query (\<lambda>w. case find (\<lambda>a. aud_ID a = i) (wd_audiences w) of
                  None \<Rightarrow> Inl ErrStoreNotFound
                | Some a \<Rightarrow> Inr a)"

definition same_member :: "AudienceMember \<Rightarrow> AudienceMember \<Rightarrow> bool" where
  "same_member m x \<longleftrightarrow> mem_AudienceID x = mem_AudienceID m \<and> mem_PrincipalID x = mem_PrincipalID m"

text \<open>An upsert on (audience, principal); a missing audience or principal breaks a foreign key.\<close>

definition audience_AddMember :: "AudienceMember \<Rightarrow> time \<Rightarrow> unit auth_op" where
  "audience_AddMember m now =
     (case PrepareNewMember (Some m) now of
        Inl e \<Rightarrow> fail_with (ErrRefused ''audience member'')
      | Inr q \<Rightarrow>
          (let row = q\<lparr>mem_ExpiresAt := map_option stored (mem_ExpiresAt q), mem_AddedAt := stored (mem_AddedAt q)\<rparr>
           in stmt (\<lambda>w.
                if list_ex (same_member q) (wd_members w)
                then (Inr (), w\<lparr>wd_members := update_where (same_member q) (\<lambda>_. row) (wd_members w)\<rparr>)
                else if \<not> list_ex (\<lambda>a. aud_ID a = mem_AudienceID q) (wd_audiences w) \<or>
                        \<not> has_principal w (mem_PrincipalID q) then (Inl ErrStoreNotFound, w)
                else (Inr (), w\<lparr>wd_members := wd_members w @ [row]\<rparr>))))"

end
