(* ===== verification/Auth_Laws.thy ===== *)
theory Auth_Laws
  imports Auth_Store
begin

text \<open>
  Laws of the registry stores. A small calculus says what an operation may do to the database:
  \<open>obeys R m\<close> holds when every run of \<open>m\<close>, successful or not, ends in a state related to its
  start by the preorder \<open>R\<close>; the locale \<open>world_order\<close> proves once that sequencing, branching,
  faulting statements and transactions respect every preorder that ignores the fault and random
  streams. Two interpretations carry the components above: \<open>registry_order\<close> (rows are never
  deleted, revocations and redemptions are never undone, the owner is never suspended) and
  \<open>keeps_unique\<close> (the key columns stay unique).
\<close>

section \<open>Runs of an operation\<close>

named_theorems run_simps \<open>evaluation of operations on a state\<close>

lemma run_ret [run_simps]: "ret x w = (Inr x, w)"
  by (simp add: ret_def)

lemma run_fail [run_simps]: "fail_with e w = (Inl e, w)"
  by (simp add: fail_with_def)

lemma run_bnd_Inr [run_simps]: "m w = (Inr x, w') \<Longrightarrow> bnd m f w = f x w'"
  by (simp add: bnd_def)

lemma run_bnd_Inl [run_simps]: "m w = (Inl e, w') \<Longrightarrow> bnd m f w = (Inl e, w')"
  by (simp add: bnd_def)

lemma run_on_err_Inr [run_simps]: "m w = (Inr x, w') \<Longrightarrow> on_err m h f w = f x w'"
  by (simp add: on_err_def)

lemma run_on_err_Inl [run_simps]: "m w = (Inl e, w') \<Longrightarrow> on_err m h f w = h e w'"
  by (simp add: on_err_def)

lemma run_stmt_quiet [run_simps]: "wd_faults w = [] \<Longrightarrow> stmt m w = m w"
  by (simp add: stmt_def)

lemma run_query_quiet [run_simps]: "wd_faults w = [] \<Longrightarrow> query f w = (f w, w)"
  by (simp add: query_def stmt_def)

lemma bnd_InrE:
  assumes "bnd m f w = (Inr y, w')"
  obtains x w1 where "m w = (Inr x, w1)" "f x w1 = (Inr y, w')"
  using assms by (auto simp: bnd_def split: prod.splits sum.splits)

lemma on_err_InrE:
  assumes "on_err m h f w = (Inr y, w')"
  obtains (ok) x w1 where "m w = (Inr x, w1)" "f x w1 = (Inr y, w')"
  | (err) e w1 where "m w = (Inl e, w1)" "h e w1 = (Inr y, w')"
  using assms by (auto simp: on_err_def split: prod.splits sum.splits)

lemma stmt_InrE:
  assumes "stmt m w = (Inr y, w')"
  obtains fs where "m (w\<lparr>wd_faults := fs\<rparr>) = (Inr y, w')"
proof (cases "wd_faults w")
  case Nil
  with assms have "m (w\<lparr>wd_faults := []\<rparr>) = (Inr y, w')"
    by (metis (mono_tags, lifting) auth_world.surjective auth_world.update_convs(7) run_stmt_quiet)
  then show thesis by (rule that)
next
  case (Cons b bs)
  with assms have "m (w\<lparr>wd_faults := bs\<rparr>) = (Inr y, w')"
    by (simp add: stmt_def split: if_splits)
  then show thesis by (rule that)
qed

lemma query_InrE:
  assumes "query f w = (Inr y, w')"
  obtains fs where "f (w\<lparr>wd_faults := fs\<rparr>) = Inr y" "w' = w\<lparr>wd_faults := fs\<rparr>"
  using assms unfolding query_def by (elim stmt_InrE) (auto intro: that)

lemma fail_InrE: "fail_with e w = (Inr y, w') \<Longrightarrow> P"
  by (simp add: fail_with_def)

lemma ret_InrE:
  assumes "ret x w = (Inr y, w')"
  obtains "y = x" "w' = w"
  using assms by (simp add: ret_def)

lemma in_tx_InrE:
  assumes "in_tx body w = (Inr u, w')"
  obtains (commit) fs w1 fs' where "body (w\<lparr>wd_faults := fs\<rparr>) = (Inr True, w1)" "w' = w1\<lparr>wd_faults := fs'\<rparr>"
  | (idle) fs w1 where "body (w\<lparr>wd_faults := fs\<rparr>) = (Inr False, w1)" "w' = rollback (w\<lparr>wd_faults := fs\<rparr>) w1"
proof -
  obtain fs where tx: "(case body (w\<lparr>wd_faults := fs\<rparr>) of
         (Inl e, w1) \<Rightarrow> (Inl e, rollback (w\<lparr>wd_faults := fs\<rparr>) w1)
       | (Inr False, w1) \<Rightarrow> (Inr (), rollback (w\<lparr>wd_faults := fs\<rparr>) w1)
       | (Inr True, w1) \<Rightarrow>
           (case stmt (ret ()) w1 of
              (Inl e, w2) \<Rightarrow> (Inl e, rollback (w\<lparr>wd_faults := fs\<rparr>) w2)
            | (Inr _, w2) \<Rightarrow> (Inr (), w2))) = (Inr u, w')"
    using assms unfolding in_tx_def
    by (elim bnd_InrE stmt_InrE) (auto simp: ret_def)
  obtain r w1 where body: "body (w\<lparr>wd_faults := fs\<rparr>) = (r, w1)" by fastforce
  show thesis
  proof (cases r)
    case (Inr b)
    show thesis
    proof (cases b)
      case True
      with Inr body tx have "stmt (ret ()) w1 = (Inr (), w')"
        by (auto split: prod.splits sum.splits)
      then obtain fs' where "w' = w1\<lparr>wd_faults := fs'\<rparr>"
        by (elim stmt_InrE) (auto simp: ret_def)
      with True Inr body show thesis by (auto intro: commit)
    next
      case False
      with Inr body tx show thesis by (auto intro: idle)
    qed
  qed (use tx body in simp)
qed

section \<open>Preorders on the database\<close>

definition obeys :: "(auth_world \<Rightarrow> auth_world \<Rightarrow> bool) \<Rightarrow> 'a auth_op \<Rightarrow> bool" where
  "obeys R m \<longleftrightarrow> (\<forall>w. R w (snd (m w)))"

lemma obeysD: "obeys R m \<Longrightarrow> m w = (r, w') \<Longrightarrow> R w w'"
  by (metis obeys_def snd_conv)

locale world_order =
  fixes R :: "auth_world \<Rightarrow> auth_world \<Rightarrow> bool"
  assumes env: "\<And>w fs n. R w (w\<lparr>wd_faults := fs, wd_drawn := n\<rparr>)"
    and trans: "R a b \<Longrightarrow> R b c \<Longrightarrow> R a c"
begin

lemma refl: "R w w"
  using env [where fs = "wd_faults w" and n = "wd_drawn w" and w = w] by simp

lemma faults: "R w (w\<lparr>wd_faults := fs\<rparr>)"
  using env [where fs = fs and n = "wd_drawn w" and w = w] by simp

lemma ret: "obeys R (ret x)"
  by (simp add: obeys_def ret_def refl)

lemma fail: "obeys R (fail_with e)"
  by (simp add: obeys_def fail_with_def refl)

lemma draw: "obeys R (draw n)"
proof -
  have "R w (w\<lparr>wd_drawn := k\<rparr>)" for w k
    using env [where fs = "wd_faults w" and n = k and w = w] by simp
  then show ?thesis by (simp add: obeys_def draw_def)
qed

lemma bnd:
  assumes "obeys R m" "\<And>x. obeys R (f x)"
  shows "obeys R (bnd m f)"
proof (unfold obeys_def, rule allI)
  fix w
  obtain r w1 where "m w = (r, w1)" by fastforce
  then show "R w (snd (bnd m f w))"
    using obeysD [OF assms(1)] obeysD [OF assms(2)] trans
    by (cases r) (auto simp: bnd_def, metis prod.collapse)
qed

lemma bnd_info:
  assumes "obeys R m" "\<And>w x w'. m w = (Inr x, w') \<Longrightarrow> obeys R (f x)"
  shows "obeys R (bnd m f)"
proof (unfold obeys_def, rule allI)
  fix w
  obtain r w1 where run: "m w = (r, w1)" by fastforce
  have "R w w1" using assms(1) run by (rule obeysD)
  then show "R w (snd (bnd m f w))"
    using run assms(2) [of w _ w1] trans
    by (cases r) (auto simp: bnd_def obeys_def)
qed

lemma on_err:
  assumes "obeys R m" "\<And>e. obeys R (h e)" "\<And>x. obeys R (f x)"
  shows "obeys R (on_err m h f)"
proof (unfold obeys_def, rule allI)
  fix w
  obtain r w1 where "m w = (r, w1)" by fastforce
  then show "R w (snd (on_err m h f w))"
    using obeysD [OF assms(1)] obeysD [OF assms(2)] obeysD [OF assms(3)] trans
    by (cases r) (auto simp: on_err_def, (metis prod.collapse)+)
qed

lemma stmt:
  assumes "\<And>w. R w (snd (m w))"
  shows "obeys R (stmt m)"
proof (unfold obeys_def, rule allI)
  fix w
  show "R w (snd (stmt m w))"
    using assms faults trans by (auto simp: stmt_def split: list.splits) metis
qed

lemma query: "obeys R (query f)"
  unfolding query_def by (rule stmt) (simp add: refl)

lemma rollback: "R w (rollback w w')"
  by (simp add: rollback_def env)

lemma in_tx:
  assumes "obeys R body"
  shows "obeys R (in_tx body)"
proof -
  have tx: "obeys R (\<lambda>w. case body w of
         (Inl e, w') \<Rightarrow> (Inl e, rollback w w')
       | (Inr False, w') \<Rightarrow> (Inr (), rollback w w')
       | (Inr True, w') \<Rightarrow>
           (case stmt (ret ()) w' of
              (Inl e, w'') \<Rightarrow> (Inl e, rollback w w'')
            | (Inr _, w'') \<Rightarrow> (Inr (), w'')))"
  proof (unfold obeys_def, rule allI)
    fix w
    obtain r w1 where body: "body w = (r, w1)" by fastforce
    obtain r2 w2 where commit: "stmt (ret ()) w1 = (r2, w2)" by fastforce
    have "R w w1" using assms body by (rule obeysD)
    moreover have "R w1 w2"
      using stmt commit by (rule obeysD) (simp add: ret_def refl)
    ultimately have "R w w2" by (rule trans)
    then show "R w (snd (case body w of
         (Inl e, w') \<Rightarrow> (Inl e, rollback w w')
       | (Inr False, w') \<Rightarrow> (Inr (), rollback w w')
       | (Inr True, w') \<Rightarrow>
           (case stmt (ret ()) w' of
              (Inl e, w'') \<Rightarrow> (Inl e, rollback w w'')
            | (Inr _, w'') \<Rightarrow> (Inr (), w''))))"
      using body commit by (cases r; cases r2) (auto simp: rollback split: bool.splits)
  qed
  show ?thesis
    unfolding in_tx_def using tx by (intro bnd stmt) (simp add: ret_def refl)
qed

lemma If: "(c \<Longrightarrow> obeys R m) \<Longrightarrow> (\<not> c \<Longrightarrow> obeys R m') \<Longrightarrow> obeys R (if c then m else m')"
  by simp

lemmas op_rules = ret fail draw query bnd on_err in_tx If

lemma ids: "obeys R (NewULID now)" "obeys R (NewPrincipalID now)" "obeys R (NewIdentityID now)"
  "obeys R NewTicketSecret"
  unfolding NewPrincipalID_def NewIdentityID_def NewULID_def NewTicketSecret_def
  by (intro op_rules)+

lemma prepare: "obeys R (PrepareNewPrincipal p now)" "obeys R (PrepareNewIdentity i now)"
  "obeys R (PrepareTicketIssue t now)"
  unfolding PrepareNewPrincipal_def PrepareNewIdentity_def PrepareTicketIssue_def Let_def
  by (intro op_rules ids)+

lemma reads: "obeys R (principal_Get i)" "obeys R (principal_List f)" "obeys R (principal_guard i)"
  "obeys R (identity_Get i)" "obeys R (identity_Find m s t)" "obeys R (identity_ListByPrincipal i)"
  "obeys R (identity_exists i)" "obeys R (ticket_miss k h now)" "obeys R (kv_Get k)" "obeys R (kv_List k)"
  "obeys R (session_Lookup h now)" "obeys R (session_Get i)" "obeys R (session_exists i)"
  "obeys R (session_List uf)" "obeys R (audience_Get i)"
  unfolding principal_Get_def principal_List_def principal_guard_def identity_Get_def identity_Find_def
    identity_ListByPrincipal_def identity_exists_def ticket_miss_def kv_Get_def kv_List_def
    session_Lookup_def session_Get_def session_exists_def session_List_def audience_Get_def
  by (intro op_rules)+

end

text \<open>
  The contract of the two stores, in two strengths. \<open>signin_order\<close> covers the operations that
  sign-in and the registry commands use: every mutation except those of the key table, with
  identities of any method but \<open>api_key\<close>; a session is only ever stored with an idle expiry that
  is no later than its absolute one. \<open>store_order\<close> adds the two operations that minting a key
  needs.
\<close>

locale signin_order = world_order +
  assumes principal_Create: "obeys R (principal_Create p now)"
    and principal_Suspend: "obeys R (principal_Suspend i)"
    and principal_Revoke: "obeys R (principal_Revoke i now)"
    and link_Create: "id_Method ident \<noteq> IdentityMethodAPIKey \<Longrightarrow> obeys R (identity_Create ident now)"
    and identity_Revoke: "obeys R (identity_Revoke i now)"
    and identity_Touch: "obeys R (identity_Touch i now)"
    and ticket_Issue: "obeys R (ticket_Issue t now)"
    and ticket_Redeem: "obeys R (ticket_Redeem kind secret now)"
    and CreateLoginCode: "obeys R (CreateLoginCode c)"
    and ConsumeLoginCode: "obeys R (ConsumeLoginCode h now)"
    and session_Create: "us_IdleExpiresAt s \<le> us_ExpiresAt s \<Longrightarrow> obeys R (session_Create s)"
    and session_Touch: "obeys R (session_Touch i now idle)"
    and session_Revoke: "obeys R (session_Revoke i now reason)"
    and session_Prune: "obeys R (session_Prune now)"
    and audience_AddMember: "obeys R (audience_AddMember m now)"
begin

lemmas signin_rules = reads principal_Create principal_Suspend principal_Revoke
  identity_Revoke identity_Touch ticket_Issue ticket_Redeem CreateLoginCode ConsumeLoginCode
  session_Touch session_Revoke session_Prune audience_AddMember

end

locale store_order = signin_order +
  assumes identity_Create: "obeys R (identity_Create ident now)"
    and kv_Put: "obeys R (kv_Put k v)"

section \<open>Rows evolve\<close>

definition evolves :: "('a \<Rightarrow> 'a \<Rightarrow> bool) \<Rightarrow> 'a list \<Rightarrow> 'a list \<Rightarrow> bool" where
  "evolves E xs ys \<longleftrightarrow> (\<exists>zs new. ys = zs @ new \<and> list_all2 E xs zs)"

lemma evolves_refl: "(\<And>x. E x x) \<Longrightarrow> evolves E xs xs"
  unfolding evolves_def by (metis append_Nil2 list_all2_refl)

lemma evolves_append: "(\<And>x. E x x) \<Longrightarrow> evolves E xs (xs @ new)"
  unfolding evolves_def by (metis list_all2_refl)

lemma evolves_update_where:
  "(\<And>x. E x x) \<Longrightarrow> (\<And>x. c x \<Longrightarrow> E x (f x)) \<Longrightarrow> evolves E xs (update_where c f xs)"
  unfolding evolves_def update_where_def
  by (intro exI [of _ "map (\<lambda>r. if c r then f r else r) xs"] exI [of _ "[]"])
     (auto simp: list_all2_conv_all_nth)

lemma evolves_AList_update:
  assumes "\<And>x. E x x" "map_of xs k = Some v" "E (k, v) (k, v')"
  shows "evolves E xs (AList.update k v' xs)"
proof -
  have "list_all2 E xs (AList.update k v' xs)"
    using assms by (induction xs) (auto intro: list_all2_refl)
  then show ?thesis unfolding evolves_def by (metis append_Nil2)
qed

lemma evolves_trans:
  assumes "evolves E xs ys" "evolves E ys zs" and E: "\<And>a b c. E a b \<Longrightarrow> E b c \<Longrightarrow> E a c"
  shows "evolves E xs zs"
proof -
  from assms(1) obtain ys1 new1 where ys: "ys = ys1 @ new1" "list_all2 E xs ys1"
    by (auto simp: evolves_def)
  from assms(2) obtain zs1 new2 where zs: "zs = zs1 @ new2" "list_all2 E ys zs1"
    by (auto simp: evolves_def)
  from zs(2) ys(1) obtain za zb where split: "zs1 = za @ zb" "list_all2 E ys1 za"
    by (auto simp: list_all2_append1)
  have "list_all2 E xs za"
    using E ys(2) split(2) by (rule list_all2_trans)
  then show ?thesis
    unfolding evolves_def using zs(1) split(1) by (metis append_assoc)
qed

lemma evolvesD: "evolves E xs ys \<Longrightarrow> x \<in> set xs \<Longrightarrow> \<exists>y \<in> set ys. E x y"
  by (fastforce simp: evolves_def list_all2_conv_all_nth in_set_conv_nth nth_append)

definition principal_step :: "PrincipalRow \<Rightarrow> PrincipalRow \<Rightarrow> bool" where
  "principal_step a b \<longleftrightarrow>
     pw_ID b = pw_ID a \<and> pw_Kind b = pw_Kind a \<and> pw_DisplayName b = pw_DisplayName a \<and>
     pw_Roles b = pw_Roles a \<and>
     (pw_Status a = PrincipalRevoked \<longrightarrow> pw_Status b = PrincipalRevoked \<and> pw_RevokedAt b = pw_RevokedAt a) \<and>
     (pw_Status b = PrincipalActive \<longrightarrow> pw_Status a = PrincipalActive)"

definition identity_step :: "Identity \<Rightarrow> Identity \<Rightarrow> bool" where
  "identity_step a b \<longleftrightarrow>
     id_ID b = id_ID a \<and> id_PrincipalID b = id_PrincipalID a \<and> id_Method b = id_Method a \<and>
     id_Issuer b = id_Issuer a \<and> id_Subject b = id_Subject a \<and>
     (id_RevokedAt a \<noteq> None \<longrightarrow> id_RevokedAt b = id_RevokedAt a)"

definition ticket_step :: "string \<times> Ticket \<Rightarrow> string \<times> Ticket \<Rightarrow> bool" where
  "ticket_step a b \<longleftrightarrow>
     fst b = fst a \<and> tk_Kind (snd b) = tk_Kind (snd a) \<and> tk_PrincipalID (snd b) = tk_PrincipalID (snd a) \<and>
     tk_ExpiresAt (snd b) = tk_ExpiresAt (snd a) \<and>
     (tk_RedeemedAt (snd a) \<noteq> None \<longrightarrow> tk_RedeemedAt (snd b) = tk_RedeemedAt (snd a))"

lemmas step_defs = principal_step_def identity_step_def ticket_step_def

lemma step_refl [simp]: "principal_step p p" "identity_step i i" "ticket_step t t"
  by (auto simp: step_defs)

lemma principal_step_trans: "principal_step p q \<Longrightarrow> principal_step q r \<Longrightarrow> principal_step p r"
  unfolding principal_step_def by metis

lemma identity_step_trans: "identity_step i j \<Longrightarrow> identity_step j k \<Longrightarrow> identity_step i k"
  unfolding identity_step_def by metis

lemma ticket_step_trans: "ticket_step t u \<Longrightarrow> ticket_step u v \<Longrightarrow> ticket_step t v"
  unfolding ticket_step_def by metis

lemma suspend_evolves:
  "evolves principal_step xs
     (update_where (\<lambda>r. pw_ID r = i \<and> pw_Status r = PrincipalActive)
       (\<lambda>r. r\<lparr>pw_Status := PrincipalSuspended\<rparr>) xs)"
  by (rule evolves_update_where) (auto simp: principal_step_def)

lemma revoke_evolves:
  "evolves principal_step xs
     (update_where (\<lambda>r. pw_ID r = i \<and> pw_Status r \<noteq> PrincipalRevoked)
       (\<lambda>r. r\<lparr>pw_Status := PrincipalRevoked, pw_RevokedAt := t\<rparr>) xs)"
  by (rule evolves_update_where) (auto simp: principal_step_def)

lemma identity_revoke_evolves:
  "evolves identity_step xs
     (update_where (\<lambda>r. c r \<and> id_RevokedAt r = None) (\<lambda>r. r\<lparr>id_RevokedAt := t\<rparr>) xs)"
  by (rule evolves_update_where) (auto simp: identity_step_def)

lemma identity_touch_evolves:
  "evolves identity_step xs (update_where c (\<lambda>r. r\<lparr>id_LastUsedAt := t\<rparr>) xs)"
  by (rule evolves_update_where) (auto simp: identity_step_def)

lemmas update_evolves = suspend_evolves revoke_evolves identity_revoke_evolves identity_touch_evolves
  evolves_refl evolves_append

definition registry_order :: "auth_world \<Rightarrow> auth_world \<Rightarrow> bool" where
  "registry_order w w' \<longleftrightarrow>
     evolves principal_step (wd_principals w) (wd_principals w') \<and>
     evolves identity_step (wd_identities w) (wd_identities w') \<and>
     evolves ticket_step (wd_tickets w) (wd_tickets w')"

lemma registry_order_tables:
  assumes "wd_principals w' = wd_principals w" "wd_identities w' = wd_identities w" "wd_tickets w' = wd_tickets w"
  shows "registry_order w w'"
  using assms by (simp add: registry_order_def evolves_refl)

interpretation reg: world_order registry_order
proof
  fix w fs n
  show "registry_order w (w\<lparr>wd_faults := fs, wd_drawn := n\<rparr>)"
    by (rule registry_order_tables) simp_all
next
  fix a b c
  assume ab: "registry_order a b" and bc: "registry_order b c"
  have "evolves principal_step (wd_principals a) (wd_principals c)"
    by (rule evolves_trans [of _ _ "wd_principals b"])
       (use ab bc principal_step_trans in \<open>auto simp only: registry_order_def\<close>)
  moreover have "evolves identity_step (wd_identities a) (wd_identities c)"
    by (rule evolves_trans [of _ _ "wd_identities b"])
       (use ab bc identity_step_trans in \<open>auto simp only: registry_order_def\<close>)
  moreover have "evolves ticket_step (wd_tickets a) (wd_tickets c)"
    by (rule evolves_trans [of _ _ "wd_tickets b"])
       (use ab bc ticket_step_trans in \<open>auto simp only: registry_order_def\<close>)
  ultimately show "registry_order a c" by (simp add: registry_order_def)
qed

interpretation reg: store_order registry_order
proof
  show "obeys registry_order (principal_Create p now)" for p now
    unfolding principal_Create_def
    by (intro reg.op_rules reg.prepare reg.stmt) (auto simp: registry_order_def update_evolves)
  show "obeys registry_order (principal_Suspend i)" for i
    unfolding principal_Suspend_def
    by (intro reg.op_rules reg.reads reg.stmt) (simp_all add: registry_order_def update_evolves)
  show "obeys registry_order (principal_Revoke i now)" for i now
    unfolding principal_Revoke_def revoke_sessions_def delete_codes_def
    by (intro reg.op_rules reg.reads reg.stmt) (simp_all add: registry_order_def update_evolves)
  have identity_Create: "obeys registry_order (identity_Create ident now)" for ident now
    unfolding identity_Create_def
    by (intro reg.op_rules reg.prepare reg.stmt) (auto simp: registry_order_def update_evolves)
  show "obeys registry_order (identity_Create ident now)" "obeys registry_order (identity_Create ident now)" for ident now
    by (rule identity_Create)+
  show "obeys registry_order (identity_Revoke i now)" for i now
    unfolding identity_Revoke_def revoke_sessions_def delete_codes_def
    by (intro reg.op_rules reg.reads reg.stmt) (simp_all add: registry_order_def update_evolves)
  show "obeys registry_order (identity_Touch i now)" for i now
    unfolding identity_Touch_def
    by (intro reg.op_rules reg.reads reg.stmt) (simp_all add: registry_order_def update_evolves)
  show "obeys registry_order (ticket_Issue t now)" for t now
    unfolding ticket_Issue_def
    by (intro reg.op_rules reg.prepare reg.ids reg.stmt) (auto simp: registry_order_def update_evolves)
  have "obeys registry_order (ticket_redeem_update kind hash now)" for kind hash now
    unfolding ticket_redeem_update_def
    by (rule reg.stmt)
       (auto simp: registry_order_def update_evolves Let_def ticket_open_def ticket_step_def
             split: option.splits intro!: evolves_AList_update)
  then show "obeys registry_order (ticket_Redeem kind secret now)" for kind secret now
    unfolding ticket_Redeem_def by (intro reg.bnd) (auto split: option.split intro: reg.op_rules reg.reads)
  show "obeys registry_order (kv_Put k v)" for k v
    unfolding kv_Put_def by (rule reg.stmt) (auto intro: registry_order_tables)
  show "obeys registry_order (CreateLoginCode c)" for c
    unfolding CreateLoginCode_def by (rule reg.stmt) (auto intro: registry_order_tables)
  show "obeys registry_order (ConsumeLoginCode h now)" for h now
    unfolding ConsumeLoginCode_def
    by (intro reg.op_rules reg.stmt) (auto intro: registry_order_tables split: option.split intro!: reg.op_rules)
  show "obeys registry_order (session_Create s)" for s
    unfolding session_Create_def by (rule reg.stmt) (auto intro: registry_order_tables)
  show "obeys registry_order (session_Touch i now idle)" for i now idle
    unfolding session_Touch_def by (intro reg.op_rules reg.reads reg.stmt) (auto intro: registry_order_tables)
  show "obeys registry_order (session_Revoke i now reason)" for i now reason
    unfolding session_Revoke_def by (intro reg.op_rules reg.reads reg.stmt) (auto intro: registry_order_tables)
  show "obeys registry_order (session_Prune now)" for now
    unfolding session_Prune_def delete_codes_def
    by (intro reg.op_rules reg.stmt) (auto intro: registry_order_tables)
  show "obeys registry_order (audience_AddMember m now)" for m now
    unfolding audience_AddMember_def Let_def
    by (auto split: sum.split intro!: reg.op_rules reg.stmt registry_order_tables)
qed

section \<open>The constraints of the schema\<close>

definition principals_ok :: "auth_world \<Rightarrow> bool" where
  "principals_ok w \<longleftrightarrow>
     distinct (map pw_ID (wd_principals w)) \<and>
     (\<forall>p \<in> set (wd_principals w). pw_Kind p = PrincipalKindOwner \<longleftrightarrow> pw_ID p = OwnerPrincipal) \<and>
     (\<exists>p \<in> set (wd_principals w). pw_ID p = OwnerPrincipal \<and> Principal_Active p)"

definition identity_triple :: "Identity \<Rightarrow> string \<times> string \<times> string" where
  "identity_triple i = (id_Method i, id_Issuer i, id_Subject i)"

definition identities_ok :: "auth_world \<Rightarrow> bool" where
  "identities_ok w \<longleftrightarrow>
     distinct (map id_ID (wd_identities w)) \<and> distinct (map identity_triple (wd_identities w)) \<and>
     (\<forall>i \<in> set (wd_identities w). has_principal w (id_PrincipalID i))"

definition sessions_ok :: "auth_world \<Rightarrow> bool" where
  "sessions_ok w \<longleftrightarrow>
     distinct (map us_ID (wd_sessions w)) \<and> distinct (map us_SecretHash (wd_sessions w)) \<and>
     (\<forall>s \<in> set (wd_sessions w). has_identity w (us_IdentityID s) \<and> us_IdleExpiresAt s \<le> us_ExpiresAt s)"

definition codes_ok :: "auth_world \<Rightarrow> bool" where
  "codes_ok w \<longleftrightarrow>
     distinct (map lc_CodeHash (wd_codes w)) \<and> (\<forall>c \<in> set (wd_codes w). has_identity w (lc_IdentityID c))"

definition db_ok :: "auth_world \<Rightarrow> bool" where
  "db_ok w \<longleftrightarrow>
     principals_ok w \<and> identities_ok w \<and> sessions_ok w \<and> codes_ok w \<and>
     distinct (map fst (wd_tickets w)) \<and> distinct (map fst (wd_kv w))"

definition keeps_db_ok :: "auth_world \<Rightarrow> auth_world \<Rightarrow> bool" where
  "keeps_db_ok w w' \<longleftrightarrow> (db_ok w \<longrightarrow> db_ok w')"

lemma map_update_where: "(\<And>x. g (f x) = g x) \<Longrightarrow> map g (update_where c f xs) = map g xs"
  by (auto simp: update_where_def)

lemma set_update_where: "y \<in> set (update_where c f xs) \<longleftrightarrow> (\<exists>x \<in> set xs. y = (if c x then f x else x))"
  by (auto simp: update_where_def)

lemma update_where_all:
  "(\<And>x. x \<in> set xs \<Longrightarrow> P x) \<Longrightarrow> (\<And>x. P x \<Longrightarrow> P (f x)) \<Longrightarrow> y \<in> set (update_where c f xs) \<Longrightarrow> P y"
  by (auto simp: set_update_where split: if_splits)

lemma has_principal_iff: "has_principal w i \<longleftrightarrow> i \<in> set (map pw_ID (wd_principals w))"
  by (auto simp: has_principal_def list_ex_iff)

lemma has_identity_iff: "has_identity w i \<longleftrightarrow> i \<in> set (map id_ID (wd_identities w))"
  by (auto simp: has_identity_def list_ex_iff)

lemma principals_ok_cong: "wd_principals w' = wd_principals w \<Longrightarrow> principals_ok w' = principals_ok w"
  by (simp add: principals_ok_def)

lemma identities_ok_update:
  assumes "identities_ok w" "set (map pw_ID (wd_principals w)) \<subseteq> set (map pw_ID (wd_principals w'))"
    and "map id_ID (wd_identities w') = map id_ID (wd_identities w)"
    and "map identity_triple (wd_identities w') = map identity_triple (wd_identities w)"
    and "map id_PrincipalID (wd_identities w') = map id_PrincipalID (wd_identities w)"
  shows "identities_ok w'"
proof -
  have "set (map id_PrincipalID (wd_identities w)) \<subseteq> set (map pw_ID (wd_principals w'))"
    using assms(1,2) by (auto simp: identities_ok_def has_principal_iff)
  then have "set (map id_PrincipalID (wd_identities w')) \<subseteq> set (map pw_ID (wd_principals w'))"
    using assms(5) by metis
  then have "\<forall>i \<in> set (wd_identities w'). has_principal w' (id_PrincipalID i)"
    by (auto simp: has_principal_iff)
  with assms(1,3,4) show ?thesis by (simp add: identities_ok_def)
qed

lemma db_ok_env [simp]: "db_ok (w\<lparr>wd_faults := fs\<rparr>) = db_ok w" "db_ok (w\<lparr>wd_drawn := n\<rparr>) = db_ok w"
  by (simp_all add: db_ok_def principals_ok_def identities_ok_def sessions_ok_def codes_ok_def
        has_principal_def has_identity_def)

interpretation dbo: world_order keeps_db_ok
  by unfold_locales (auto simp: keeps_db_ok_def)

lemma db_ok_principals:
  assumes "db_ok w" "map pw_ID ps = map pw_ID (wd_principals w)" "map pw_Kind ps = map pw_Kind (wd_principals w)"
    and "\<And>p. p \<in> set (wd_principals w) \<Longrightarrow> pw_ID p = OwnerPrincipal \<Longrightarrow> p \<in> set ps"
  shows "db_ok (w\<lparr>wd_principals := ps\<rparr>)"
proof -
  let ?w = "w\<lparr>wd_principals := ps\<rparr>"
  have ids: "set (map pw_ID (wd_principals w)) \<subseteq> set (map pw_ID (wd_principals ?w))"
    using arg_cong [OF assms(2), of set] by simp
  have zip: "map (\<lambda>p. (pw_ID p, pw_Kind p)) ps = map (\<lambda>p. (pw_ID p, pw_Kind p)) (wd_principals w)"
    using assms(2,3) by (auto simp: list_eq_iff_nth_eq)
  have "(pw_ID p, pw_Kind p) \<in> set (map (\<lambda>p. (pw_ID p, pw_Kind p)) (wd_principals w))" if "p \<in> set ps" for p
    using that zip by (metis (mono_tags, lifting) image_eqI list.set_map)
  then have pair: "\<exists>q \<in> set (wd_principals w). pw_ID q = pw_ID p \<and> pw_Kind q = pw_Kind p" if "p \<in> set ps" for p
    using that by fastforce
  have ok: "principals_ok w" using assms(1) by (simp add: db_ok_def)
  have "pw_Kind p = PrincipalKindOwner \<longleftrightarrow> pw_ID p = OwnerPrincipal" if "p \<in> set ps" for p
    using pair [OF that] ok by (auto simp: principals_ok_def)
  moreover obtain p where "p \<in> set (wd_principals w)" "pw_ID p = OwnerPrincipal" "Principal_Active p"
    using ok by (auto simp: principals_ok_def)
  moreover have "distinct (map pw_ID ps)"
    using ok by (simp add: principals_ok_def assms(2))
  ultimately have "principals_ok ?w"
    using assms(4) by (auto simp: principals_ok_def)
  moreover have "identities_ok ?w"
    by (rule identities_ok_update [of w]) (use assms(1) ids in \<open>simp_all add: db_ok_def\<close>)
  moreover have "sessions_ok ?w" "codes_ok ?w"
    using assms(1) by (auto simp: db_ok_def sessions_ok_def codes_ok_def has_identity_def)
  ultimately show ?thesis using assms(1) by (simp add: db_ok_def)
qed

lemma db_ok_identities:
  assumes "db_ok w" "map id_ID is = map id_ID (wd_identities w)"
    and "map identity_triple is = map identity_triple (wd_identities w)"
    and "map id_PrincipalID is = map id_PrincipalID (wd_identities w)"
  shows "db_ok (w\<lparr>wd_identities := is\<rparr>)"
proof -
  let ?w = "w\<lparr>wd_identities := is\<rparr>"
  have ids: "set (map id_ID (wd_identities ?w)) = set (map id_ID (wd_identities w))"
    using assms(2) by simp
  have "identities_ok ?w"
    by (rule identities_ok_update [of w]) (use assms in \<open>simp_all add: db_ok_def\<close>)
  moreover have "sessions_ok ?w" "codes_ok ?w"
    using assms(1) ids by (auto simp: db_ok_def sessions_ok_def codes_ok_def has_identity_iff)
  moreover have "principals_ok ?w"
    using assms(1) by (simp add: db_ok_def principals_ok_def)
  ultimately show ?thesis using assms(1) by (simp add: db_ok_def)
qed

lemma db_ok_sessions:
  assumes "db_ok w" "sessions_ok (w\<lparr>wd_sessions := ss\<rparr>)"
  shows "db_ok (w\<lparr>wd_sessions := ss\<rparr>)"
  using assms by (auto simp: db_ok_def principals_ok_def identities_ok_def codes_ok_def
                             has_principal_def has_identity_def)

lemma db_ok_codes:
  assumes "db_ok w" "codes_ok (w\<lparr>wd_codes := cs\<rparr>)"
  shows "db_ok (w\<lparr>wd_codes := cs\<rparr>)"
  using assms by (auto simp: db_ok_def principals_ok_def identities_ok_def sessions_ok_def
                             has_principal_def has_identity_def)

lemma db_ok_tickets: "db_ok w \<Longrightarrow> distinct (map fst ts) \<Longrightarrow> db_ok (w\<lparr>wd_tickets := ts\<rparr>)"
  and db_ok_kv: "db_ok w \<Longrightarrow> distinct (map fst kv) \<Longrightarrow> db_ok (w\<lparr>wd_kv := kv\<rparr>)"
  by (auto simp: db_ok_def principals_ok_def identities_ok_def sessions_ok_def codes_ok_def
                 has_principal_def has_identity_def)

lemma sessions_ok_update_where:
  assumes "db_ok w" "\<And>s. us_ID (f s) = us_ID s" "\<And>s. us_SecretHash (f s) = us_SecretHash s"
    and "\<And>s. us_IdentityID (f s) = us_IdentityID s"
    and "\<And>s. us_IdleExpiresAt s \<le> us_ExpiresAt s \<Longrightarrow> us_IdleExpiresAt (f s) \<le> us_ExpiresAt (f s)"
  shows "db_ok (w\<lparr>wd_sessions := update_where c f (wd_sessions w)\<rparr>)"
proof (rule db_ok_sessions)
  have "sessions_ok w" using assms(1) by (simp add: db_ok_def)
  then show "sessions_ok (w\<lparr>wd_sessions := update_where c f (wd_sessions w)\<rparr>)"
    using assms(2-5) by (auto simp: sessions_ok_def map_update_where set_update_where has_identity_def)
qed (rule assms(1))

lemma db_ok_revoke_sessions: "obeys keeps_db_ok (revoke_sessions c now reason)"
  unfolding revoke_sessions_def
  by (rule dbo.stmt) (auto simp: keeps_db_ok_def intro!: sessions_ok_update_where)

lemma db_ok_filter_codes: "db_ok w \<Longrightarrow> db_ok (w\<lparr>wd_codes := filter P (wd_codes w)\<rparr>)"
  by (rule db_ok_codes) (auto simp: db_ok_def codes_ok_def has_identity_def distinct_map_filter)

lemma db_ok_delete_codes: "obeys keeps_db_ok (delete_codes c)"
  unfolding delete_codes_def
  by (rule dbo.stmt) (simp add: keeps_db_ok_def db_ok_filter_codes)

lemma db_ok_identity_update:
  "db_ok w \<Longrightarrow> db_ok (w\<lparr>wd_identities := update_where c (\<lambda>r. r\<lparr>id_RevokedAt := t\<rparr>) (wd_identities w)\<rparr>)"
  "db_ok w \<Longrightarrow> db_ok (w\<lparr>wd_identities := update_where c (\<lambda>r. r\<lparr>id_LastUsedAt := t\<rparr>) (wd_identities w)\<rparr>)"
  by (rule db_ok_identities; simp add: map_update_where identity_triple_def)+

lemma PrepareNewPrincipal_facts:
  assumes "PrepareNewPrincipal p now w = (Inr q, w')"
  shows "pw_Kind q = pw_Kind p" "pw_Kind q \<noteq> PrincipalKindOwner" "pw_ID q \<noteq> OwnerPrincipal"
    "pw_Roles q = (if pw_Roles p = [] then DefaultPrincipalRoles else pw_Roles p)"
    "pw_Status q = (if pw_Status p = [] then PrincipalActive else pw_Status p)"
  using assms unfolding PrepareNewPrincipal_def Let_def
  by (auto split: if_splits elim!: bnd_InrE simp: fail_with_def ret_def)

lemma PrepareNewIdentity_facts:
  assumes "PrepareNewIdentity i now w = (Inr q, w')"
  shows "id_PrincipalID q = id_PrincipalID i" "id_Method q = id_Method i" "id_Issuer q = id_Issuer i"
    "id_Subject q = id_Subject i" "id_RevokedAt q = id_RevokedAt i"
  using assms unfolding PrepareNewIdentity_def
  by (auto split: if_splits elim!: bnd_InrE simp: fail_with_def ret_def)

lemma db_ok_insert_principal:
  assumes "db_ok w" "\<not> has_principal w (pw_ID q)" "pw_Kind q \<noteq> PrincipalKindOwner" "pw_ID q \<noteq> OwnerPrincipal"
  shows "db_ok (w\<lparr>wd_principals := wd_principals w @ [q]\<rparr>)"
  using assms by (auto simp: db_ok_def principals_ok_def identities_ok_def sessions_ok_def codes_ok_def
                             has_principal_def has_identity_def list_ex_iff)

lemma db_ok_insert_identity:
  assumes "db_ok w" "\<not> has_identity w (id_ID q)" "\<not> list_ex (same_triple q) (wd_identities w)"
    and "has_principal w (id_PrincipalID q)"
  shows "db_ok (w\<lparr>wd_identities := wd_identities w @ [q]\<rparr>)"
proof -
  have "identity_triple q \<notin> identity_triple ` set (wd_identities w)"
    using assms(3) by (auto simp: list_ex_iff same_triple_def identity_triple_def)
  with assms show ?thesis
    by (auto simp: db_ok_def principals_ok_def identities_ok_def sessions_ok_def codes_ok_def
                   has_principal_def has_identity_def list_ex_iff)
qed

lemma principal_Get_facts:
  assumes "principal_Get i w = (Inr p, w')"
  obtains fs where "w' = w\<lparr>wd_faults := fs\<rparr>" "find (\<lambda>p. pw_ID p = i) (wd_principals w) = Some p"
    "p \<in> set (wd_principals w)" "pw_ID p = i"
  using assms unfolding principal_Get_def
  by (elim query_InrE) (auto split: option.splits simp: find_Some_iff in_set_conv_nth intro: that)

lemma identity_Get_facts:
  assumes "identity_Get i w = (Inr x, w')"
  obtains fs where "w' = w\<lparr>wd_faults := fs\<rparr>" "x \<in> set (wd_identities w)" "id_ID x = i"
  using assms unfolding identity_Get_def
  by (elim query_InrE) (auto split: option.splits simp: find_Some_iff in_set_conv_nth intro: that)

lemma identity_Find_facts:
  assumes "identity_Find m s t w = (Inr x, w')"
  obtains fs where "w' = w\<lparr>wd_faults := fs\<rparr>" "x \<in> set (wd_identities w)" "id_Method x = m"
    "id_Issuer x = s" "id_Subject x = t"
  using assms unfolding identity_Find_def
  by (elim query_InrE) (auto split: option.splits simp: find_Some_iff in_set_conv_nth intro: that)

lemma session_Lookup_facts:
  assumes "session_Lookup h now w = (Inr s, w')"
  obtains fs where "w' = w\<lparr>wd_faults := fs\<rparr>" "s \<in> set (wd_sessions w)" "us_SecretHash s = h"
    "session_live now s"
  using assms unfolding session_Lookup_def
  by (elim query_InrE) (auto split: option.splits simp: find_Some_iff in_set_conv_nth intro: that)

lemma guard_not_owner:
  assumes "principal_guard i w = (Inr p, w')" "db_ok w"
  shows "i \<noteq> OwnerPrincipal"
  using assms unfolding principal_guard_def
  by (elim bnd_InrE principal_Get_facts)
     (auto simp: ret_def fail_with_def db_ok_def principals_ok_def split: if_splits)

lemma db_ok_guarded:
  assumes "\<And>p. i \<noteq> OwnerPrincipal \<Longrightarrow> obeys keeps_db_ok (f p)"
  shows "obeys keeps_db_ok (bnd (principal_guard i) f)"
proof (unfold obeys_def keeps_db_ok_def, intro allI impI)
  fix w
  assume w: "db_ok w"
  obtain r w1 where run: "principal_guard i w = (r, w1)" by fastforce
  then have w1: "db_ok w1"
    using obeysD [OF dbo.reads(3) run] w by (simp add: keeps_db_ok_def)
  show "db_ok (snd (bnd (principal_guard i) f w))"
  proof (cases r)
    case (Inr p)
    with run w have "i \<noteq> OwnerPrincipal" by (metis guard_not_owner)
    then have "keeps_db_ok w1 (snd (f p w1))" using assms by (simp add: obeys_def)
    with Inr run w1 show ?thesis by (simp add: bnd_def keeps_db_ok_def)
  qed (use run w1 in \<open>simp add: bnd_def\<close>)
qed

lemma db_ok_status_update:
  assumes "db_ok w" "i \<noteq> OwnerPrincipal"
    and "\<And>r. pw_ID (f r) = pw_ID r" "\<And>r. pw_Kind (f r) = pw_Kind r" "\<And>r. c r \<Longrightarrow> pw_ID r = i"
  shows "db_ok (w\<lparr>wd_principals := update_where c f (wd_principals w)\<rparr>)"
proof (rule db_ok_principals)
  fix p
  assume "p \<in> set (wd_principals w)" "pw_ID p = OwnerPrincipal"
  then show "p \<in> set (update_where c f (wd_principals w))"
    using assms(2,5) by (auto simp: set_update_where)
qed (use assms in \<open>simp_all add: map_update_where\<close>)

lemma db_ok_distinct: "db_ok w \<Longrightarrow> distinct (map fst (wd_tickets w))" "db_ok w \<Longrightarrow> distinct (map fst (wd_kv w))"
  by (simp_all add: db_ok_def)

lemma db_ok_insert_ticket:
  "db_ok w \<Longrightarrow> map_of (wd_tickets w) h = None \<Longrightarrow> db_ok (w\<lparr>wd_tickets := wd_tickets w @ [(h, t)]\<rparr>)"
  by (rule db_ok_tickets) (auto simp: map_of_eq_None_iff dest: db_ok_distinct)

lemma db_ok_update_ticket: "db_ok w \<Longrightarrow> db_ok (w\<lparr>wd_tickets := AList.update h t (wd_tickets w)\<rparr>)"
  by (rule db_ok_tickets) (simp_all add: distinct_update db_ok_distinct)

lemma db_ok_update_kv: "db_ok w \<Longrightarrow> db_ok (w\<lparr>wd_kv := AList.update k v (wd_kv w)\<rparr>)"
  by (rule db_ok_kv) (simp_all add: distinct_update db_ok_distinct)

lemma db_ok_insert_code:
  assumes "db_ok w" "\<not> list_ex (\<lambda>x. lc_CodeHash x = lc_CodeHash c) (wd_codes w)" "has_identity w (lc_IdentityID c)"
  shows "db_ok (w\<lparr>wd_codes := wd_codes w @ [c]\<rparr>)"
  by (rule db_ok_codes) (use assms in \<open>auto simp: db_ok_def codes_ok_def has_identity_def list_ex_iff\<close>)

lemma db_ok_insert_session:
  assumes "db_ok w" "\<not> list_ex (\<lambda>x. us_ID x = us_ID s \<or> us_SecretHash x = us_SecretHash s) (wd_sessions w)"
    and "has_identity w (us_IdentityID s)" "us_IdleExpiresAt s \<le> us_ExpiresAt s"
  shows "db_ok (w\<lparr>wd_sessions := wd_sessions w @ [s]\<rparr>)"
  by (rule db_ok_sessions) (use assms in \<open>auto simp: db_ok_def sessions_ok_def has_identity_def list_ex_iff\<close>)

lemma db_ok_filter_sessions: "db_ok w \<Longrightarrow> db_ok (w\<lparr>wd_sessions := filter P (wd_sessions w)\<rparr>)"
  by (rule db_ok_sessions) (auto simp: db_ok_def sessions_ok_def has_identity_def distinct_map_filter)

lemma store_session_keys [simp]:
  "us_ID (store_session s) = us_ID s" "us_SecretHash (store_session s) = us_SecretHash s"
  "us_IdentityID (store_session s) = us_IdentityID s" "us_PrincipalID (store_session s) = us_PrincipalID s"
  "us_Scope (store_session s) = us_Scope s"
  "us_IdleExpiresAt (store_session s) = stored (us_IdleExpiresAt s)"
  "us_ExpiresAt (store_session s) = stored (us_ExpiresAt s)"
  "us_RevokedAt (store_session s) = map_option stored (us_RevokedAt s)"
  by (simp_all add: store_session_def)

lemma fromMillis_min_le: "fromMillis (min a (toMillis t)) \<le> t"
proof -
  have "fromMillis (min a (toMillis t)) \<le> stored t"
    by (simp add: stored_def fromMillis_def)
  also have "\<dots> \<le> t" by (rule stored_le)
  finally show ?thesis .
qed

interpretation dbo: store_order keeps_db_ok
proof
  show "obeys keeps_db_ok (principal_Create p now)" for p now
    unfolding principal_Create_def
  proof (rule dbo.bnd_info [OF dbo.prepare(1)])
    fix w q w'
    assume "PrepareNewPrincipal p now w = (Inr q, w')"
    note q = PrepareNewPrincipal_facts [OF this]
    show "obeys keeps_db_ok (bnd (stmt (\<lambda>w.
              if has_principal w (pw_ID q) then (Inl ErrAlreadyExists, w)
              else (Inr (), w\<lparr>wd_principals := wd_principals w @
                     [q\<lparr>pw_CreatedAt := stored (pw_CreatedAt q),
                        pw_RevokedAt := map_option stored (pw_RevokedAt q)\<rparr>]\<rparr>))) (\<lambda>_. ret q))"
      using q(2,3) by (intro dbo.op_rules dbo.stmt) (auto simp: keeps_db_ok_def intro!: db_ok_insert_principal)
  qed
  show "obeys keeps_db_ok (principal_Suspend i)" for i
    unfolding principal_Suspend_def
    by (rule db_ok_guarded, intro dbo.op_rules dbo.stmt)
       (auto simp: keeps_db_ok_def intro!: db_ok_status_update [of _ i])
  show "obeys keeps_db_ok (principal_Revoke i now)" for i now
    unfolding principal_Revoke_def
    by (rule db_ok_guarded, intro dbo.op_rules dbo.stmt db_ok_revoke_sessions db_ok_delete_codes)
       (auto simp: keeps_db_ok_def intro!: db_ok_status_update [of _ i] db_ok_identity_update)
  have identity_Create: "obeys keeps_db_ok (identity_Create ident now)" for ident now
    unfolding identity_Create_def
    by (intro dbo.op_rules dbo.prepare dbo.stmt)
       (auto simp: keeps_db_ok_def list_ex_iff same_triple_def intro!: db_ok_insert_identity)
  show "obeys keeps_db_ok (identity_Create ident now)" "obeys keeps_db_ok (identity_Create ident now)" for ident now
    by (rule identity_Create)+
  show "obeys keeps_db_ok (identity_Revoke i now)" for i now
    unfolding identity_Revoke_def
    by (intro dbo.op_rules dbo.reads dbo.stmt db_ok_revoke_sessions db_ok_delete_codes)
       (simp add: keeps_db_ok_def db_ok_identity_update)
  show "obeys keeps_db_ok (identity_Touch i now)" for i now
    unfolding identity_Touch_def
    by (intro dbo.op_rules dbo.reads dbo.stmt) (simp add: keeps_db_ok_def db_ok_identity_update)
  show "obeys keeps_db_ok (ticket_Issue t now)" for t now
    unfolding ticket_Issue_def
    by (intro dbo.op_rules dbo.prepare dbo.ids dbo.stmt)
       (simp add: keeps_db_ok_def db_ok_insert_ticket)
  have "obeys keeps_db_ok (ticket_redeem_update kind hash now)" for kind hash now
    unfolding ticket_redeem_update_def
    by (rule dbo.stmt)
       (simp add: keeps_db_ok_def Let_def db_ok_update_ticket split: option.split)
  then show "obeys keeps_db_ok (ticket_Redeem kind secret now)" for kind secret now
    unfolding ticket_Redeem_def by (intro dbo.bnd) (auto split: option.split intro: dbo.op_rules dbo.reads)
  show "obeys keeps_db_ok (kv_Put k v)" for k v
    unfolding kv_Put_def by (rule dbo.stmt) (simp add: keeps_db_ok_def db_ok_update_kv)
  show "obeys keeps_db_ok (CreateLoginCode c)" for c
    unfolding CreateLoginCode_def
    by (rule dbo.stmt) (simp add: keeps_db_ok_def db_ok_insert_code)
  show "obeys keeps_db_ok (ConsumeLoginCode h now)" for h now
    unfolding ConsumeLoginCode_def
    by (intro dbo.op_rules dbo.stmt)
       (auto simp: keeps_db_ok_def db_ok_filter_codes split: option.split intro!: dbo.op_rules)
  show "obeys keeps_db_ok (session_Create s)" if "us_IdleExpiresAt s \<le> us_ExpiresAt s" for s
    unfolding session_Create_def
    by (rule dbo.stmt) (use that in \<open>simp add: keeps_db_ok_def db_ok_insert_session stored_mono\<close>)
  show "obeys keeps_db_ok (session_Touch i now idle)" for i now idle
    unfolding session_Touch_def
    by (intro dbo.op_rules dbo.reads dbo.stmt)
       (auto simp: keeps_db_ok_def fromMillis_min_le intro!: sessions_ok_update_where)
  show "obeys keeps_db_ok (session_Revoke i now reason)" for i now reason
    unfolding session_Revoke_def
    by (intro dbo.op_rules dbo.reads dbo.stmt) (auto simp: keeps_db_ok_def intro!: sessions_ok_update_where)
  show "obeys keeps_db_ok (session_Prune now)" for now
    unfolding session_Prune_def
    by (intro dbo.op_rules dbo.stmt db_ok_delete_codes)
       (simp add: keeps_db_ok_def db_ok_filter_sessions)
  have "db_ok (w\<lparr>wd_members := ms\<rparr>) = db_ok w" for w ms
    by (simp add: db_ok_def principals_ok_def identities_ok_def sessions_ok_def codes_ok_def
          has_principal_def has_identity_def)
  then show "obeys keeps_db_ok (audience_AddMember m now)" for m now
    unfolding audience_AddMember_def Let_def
    by (auto split: sum.split simp: keeps_db_ok_def intro!: dbo.op_rules dbo.stmt)
qed

section \<open>Revocation is all or nothing\<close>

text \<open>Only the streams of faults and random bytes have moved.\<close>

definition untouched :: "auth_world \<Rightarrow> auth_world \<Rightarrow> bool" where
  "untouched w w' \<longleftrightarrow> (\<exists>fs n. w' = w\<lparr>wd_faults := fs, wd_drawn := n\<rparr>)"

interpretation unt: world_order untouched
proof
  show "untouched w (w\<lparr>wd_faults := fs, wd_drawn := n\<rparr>)" for w fs n
    by (auto simp: untouched_def)
  show "untouched a c" if "untouched a b" "untouched b c" for a b c
  proof -
    from that obtain fs n gs m where "b = a\<lparr>wd_faults := fs, wd_drawn := n\<rparr>" "c = b\<lparr>wd_faults := gs, wd_drawn := m\<rparr>"
      unfolding untouched_def by blast
    then have "c = a\<lparr>wd_faults := gs, wd_drawn := m\<rparr>" by simp
    then show ?thesis unfolding untouched_def by blast
  qed
qed

lemma untouched_rollback: "untouched w (rollback (w\<lparr>wd_faults := fs\<rparr>) w')"
  by (auto simp: untouched_def rollback_def)

lemma in_tx_Inl:
  assumes "in_tx body w = (Inl e, w')"
  shows "untouched w w'"
proof -
  obtain r w1 where start: "stmt (ret ()) w = (r, w1)" by fastforce
  have "obeys untouched (stmt (ret ()))"
    by (rule unt.stmt) (simp add: ret_def unt.refl)
  then have w1: "untouched w w1" using start by (rule obeysD)
  show ?thesis
  proof (cases r)
    case (Inr u)
    have "untouched w1 w'"
      using assms Inr start unfolding in_tx_def
      by (auto simp: bnd_def unt.rollback split: prod.splits sum.splits bool.splits)
    with w1 show ?thesis by (rule unt.trans)
  qed (use assms start w1 in \<open>simp add: in_tx_def bnd_def\<close>)
qed

lemma guard_untouched: "obeys untouched (principal_guard i)"
  by (rule unt.reads)

lemma principal_Revoke_Inl:
  assumes "principal_Revoke i at w = (Inl e, w')"
  shows "untouched w w'"
proof -
  obtain r w1 where guard: "principal_guard i w = (r, w1)" by fastforce
  have w1: "untouched w w1" using guard_untouched guard by (rule obeysD)
  show ?thesis
  proof (cases r)
    case (Inr p)
    have "untouched w1 w'"
      using assms Inr guard unfolding principal_Revoke_def
      by (auto simp: bnd_def ret_def split: if_splits dest: in_tx_Inl)
    with w1 show ?thesis by (rule unt.trans)
  qed (use assms guard w1 in \<open>simp add: principal_Revoke_def bnd_def\<close>)
qed

lemma identity_Revoke_Inl: "identity_Revoke i at w = (Inl e, w') \<Longrightarrow> untouched w w'"
  unfolding identity_Revoke_def by (rule in_tx_Inl)

lemma principal_Revoke_effect:
  assumes "principal_Revoke i at w = (Inr (), w')"
    and "\<And>p. p \<in> set (wd_principals w) \<Longrightarrow> pw_ID p = i \<Longrightarrow> pw_Status p \<noteq> PrincipalRevoked"
  obtains fs where "w' = w\<lparr>wd_principals := update_where (\<lambda>r. pw_ID r = i \<and> pw_Status r \<noteq> PrincipalRevoked)
        (\<lambda>r. r\<lparr>pw_Status := PrincipalRevoked, pw_RevokedAt := Some (stored at)\<rparr>) (wd_principals w),
      wd_identities := update_where (\<lambda>r. id_PrincipalID r = i \<and> id_RevokedAt r = None)
        (\<lambda>r. r\<lparr>id_RevokedAt := Some (stored at)\<rparr>) (wd_identities w),
      wd_sessions := update_where (\<lambda>s. us_PrincipalID s = i \<and> us_RevokedAt s = None)
        (\<lambda>s. s\<lparr>us_RevokedAt := Some (stored at), us_RevokeReason := RevokeReasonPrincipalRevoked\<rparr>) (wd_sessions w),
      wd_codes := filter (\<lambda>x. lc_PrincipalID x \<noteq> i) (wd_codes w),
      wd_faults := fs\<rparr>"
proof -
  from assms(1) obtain p w1 where guard: "principal_guard i w = (Inr p, w1)"
    and rest: "(if pw_Status p = PrincipalRevoked then ret ()
       else in_tx
         (bnd (stmt (\<lambda>w. (Inr (), w\<lparr>wd_principals :=
                update_where (\<lambda>r. pw_ID r = i \<and> pw_Status r \<noteq> PrincipalRevoked)
                  (\<lambda>r. r\<lparr>pw_Status := PrincipalRevoked, pw_RevokedAt := Some (stored at)\<rparr>) (wd_principals w)\<rparr>))) (\<lambda>_.
          bnd (stmt (\<lambda>w. (Inr (), w\<lparr>wd_identities :=
                update_where (\<lambda>r. id_PrincipalID r = i \<and> id_RevokedAt r = None)
                  (\<lambda>r. r\<lparr>id_RevokedAt := Some (stored at)\<rparr>) (wd_identities w)\<rparr>))) (\<lambda>_.
          bnd (revoke_sessions (\<lambda>s. us_PrincipalID s = i) at RevokeReasonPrincipalRevoked) (\<lambda>_.
          bnd (delete_codes (\<lambda>c. lc_PrincipalID c = i)) (\<lambda>_.
          ret True)))))) w1 = (Inr (), w')"
    unfolding principal_Revoke_def by (rule bnd_InrE)
  from guard obtain fs where w1: "w1 = w\<lparr>wd_faults := fs\<rparr>" and p: "p \<in> set (wd_principals w)" "pw_ID p = i"
    unfolding principal_guard_def
    by (auto elim!: bnd_InrE principal_Get_facts simp: ret_def fail_with_def split: if_splits)
  with rest assms(2) show thesis
    unfolding revoke_sessions_def delete_codes_def
    by (auto elim!: in_tx_InrE bnd_InrE stmt_InrE simp: ret_def intro: that)
qed

end
