(* ===== verification/Auth_Keys.thy ===== *)
theory Auth_Keys
  imports Auth_Laws
begin

text \<open>
  API keys: the issuer of \<open>internal/auth/apikey.go\<close> over the key-value table, and the keys,
  declared keys and the \<open>api_key\<close> method of \<open>internal/auth/keys.go\<close> over the principal
  registry. The JSON form of a key record (\<open>encoding/json\<close> over the struct) is the parameter
  \<open>key_codec\<close>; the theorems that need it assume that decoding undoes encoding
  (\<open>codec_ok\<close>). The parsers behind a declared key's expiry are the parameter \<open>time_layouts\<close>.
\<close>

section \<open>The issuer\<close>

record APIKey =
  ak_ID :: string
  ak_Principal :: string
  ak_Scopes :: "string list"
  ak_CreatedAt :: time
  ak_ExpiresAt :: time
  ak_RevokedAt :: time
  ak_Hash :: string

record NewAPIKey =
  nk_Principal :: string
  nk_Scopes :: "string list"
  nk_TTL :: int

record key_codec =
  kc_Marshal :: "APIKey \<Rightarrow> string"
  kc_Unmarshal :: "string \<Rightarrow> APIKey option"

definition codec_ok :: "key_codec \<Rightarrow> bool" where
  "codec_ok kc \<longleftrightarrow> (\<forall>r. kc_Unmarshal kc (kc_Marshal kc r) = Some r)"

definition APIKeyPrefix :: string where "APIKeyPrefix = ''ctxt''"
definition apiKeyStorePrefix :: string where "apiKeyStorePrefix = ''apikey/''"
definition hashDomain :: string where "hashDomain = ''ctxt-apikey-v1''"
definition apiKeyIDBytes :: nat where "apiKeyIDBytes = 8"
definition apiKeySecretBytes :: nat where "apiKeySecretBytes = 32"

definition isHex :: "string \<Rightarrow> nat \<Rightarrow> bool" where
  "isHex s n \<longleftrightarrow> length s = 2 * n \<and> list_all lower_hex s"

text \<open>\<open>strings.SplitN\<close> at a one-byte separator.\<close>

fun SplitN :: "nat \<Rightarrow> string \<Rightarrow> char \<Rightarrow> string list" where
  "SplitN 0 s sep = []"
| "SplitN (Suc 0) s sep = [s]"
| "SplitN (Suc (Suc n)) s sep =
     (if sep \<in> set s then Cut_before sep s # SplitN (Suc n) (Cut_after sep s) sep else [s])"

definition splitAPIKey :: "string \<Rightarrow> (string \<times> string) option" where
  "splitAPIKey raw =
     (case SplitN 3 raw (CHR ''_'') of
        [pre, ident, secret] \<Rightarrow>
          if pre \<noteq> APIKeyPrefix \<or> \<not> isHex ident apiKeyIDBytes then None
          else (case b64_DecodeString secret of
                  None \<Rightarrow> None
                | Some b \<Rightarrow> if length b \<noteq> apiKeySecretBytes then None else Some (ident, secret))
      | _ \<Rightarrow> None)"

definition apiKeyHash :: "string \<Rightarrow> string \<Rightarrow> string" where
  "apiKeyHash ident secret =
     hex_EncodeToString (sha256_Sum256 (hashDomain @ [CHR 0x00] @ ident @ [CHR 0x00] @ secret))"

definition lk_put :: "key_codec \<Rightarrow> APIKey \<Rightarrow> unit auth_op" where
  "lk_put kc rec = kv_Put (apiKeyStorePrefix @ ak_ID rec) (kc_Marshal kc rec)"

definition lk_get :: "key_codec \<Rightarrow> string \<Rightarrow> APIKey option auth_op" where
  "lk_get kc ident =
     bnd (kv_Get (apiKeyStorePrefix @ ident)) (\<lambda>d.
       case d of
         None \<Rightarrow> ret None
       | Some data \<Rightarrow>
           (case kc_Unmarshal kc data of
              None \<Rightarrow> fail_with (ErrRefused ''auth: api key: bad record'')
            | Some rec \<Rightarrow> ret (Some rec)))"

definition lk_Create :: "key_codec \<Rightarrow> NewAPIKey \<Rightarrow> time \<Rightarrow> (string \<times> APIKey) auth_op" where
  "lk_Create kc spec now =
     (if TrimSpace (nk_Principal spec) = [] then fail_with (ErrRefused ''auth: an api key needs a principal'')
      else if list_ex (\<lambda>s. s = [] \<or> ContainsAny s [CHR '' '', CHR 0x09, CHR 0x0D, CHR 0x0A]) (nk_Scopes spec)
      then fail_with (ErrRefused ''auth: scope'')
      else
        bnd (draw apiKeyIDBytes) (\<lambda>idb.
        bnd (draw apiKeySecretBytes) (\<lambda>secret.
          let ident = hex_EncodeToString idb; sec = b64_EncodeToString secret;
              rec = \<lparr>ak_ID = ident, ak_Principal = nk_Principal spec, ak_Scopes = nk_Scopes spec,
                     ak_CreatedAt = now, ak_ExpiresAt = (if nk_TTL spec > 0 then now + nk_TTL spec else 0),
                     ak_RevokedAt = 0, ak_Hash = apiKeyHash ident sec\<rparr>
          in bnd (lk_put kc rec) (\<lambda>_. ret (APIKeyPrefix @ ''_'' @ ident @ ''_'' @ sec, rec)))))"

definition lk_Get :: "key_codec \<Rightarrow> string \<Rightarrow> APIKey auth_op" where
  "lk_Get kc ident =
     bnd (lk_get kc ident) (\<lambda>r. case r of None \<Rightarrow> fail_with ErrAPIKeyNotFound | Some rec \<Rightarrow> ret rec)"

fun lk_collect :: "key_codec \<Rightarrow> string list \<Rightarrow> APIKey list auth_op" where
  "lk_collect kc [] = ret []"
| "lk_collect kc (key # keys) =
     bnd (lk_get kc (TrimPrefix key apiKeyStorePrefix)) (\<lambda>r.
     bnd (lk_collect kc keys) (\<lambda>rest.
       ret (case r of None \<Rightarrow> rest | Some rec \<Rightarrow> rec # rest)))"

text \<open>Newest first, then by id: ascending in the negated instant.\<close>

definition lk_List :: "key_codec \<Rightarrow> APIKey list auth_op" where
  "lk_List kc =
     bnd (kv_List apiKeyStorePrefix) (\<lambda>keys.
     bnd (lk_collect kc keys) (\<lambda>recs.
       ret (sort_key (\<lambda>r. (- ak_CreatedAt r, ak_ID r)) recs)))"

definition lk_Revoke :: "key_codec \<Rightarrow> string \<Rightarrow> time \<Rightarrow> APIKey auth_op" where
  "lk_Revoke kc ident now =
     bnd (lk_Get kc ident) (\<lambda>rec.
       if ak_RevokedAt rec = 0
       then let rec' = rec\<lparr>ak_RevokedAt := now\<rparr> in bnd (lk_put kc rec') (\<lambda>_. ret rec')
       else ret rec)"

definition lk_Verify :: "key_codec \<Rightarrow> string \<Rightarrow> time \<Rightarrow> APIKey auth_op" where
  "lk_Verify kc raw0 now =
     (let raw = TrimSpace raw0
      in if raw = [] then fail_with ErrNoCredential
         else case splitAPIKey raw of
                None \<Rightarrow> fail_with (ErrInvalidCredential ''not a ctxt api key'')
              | Some (ident, sec) \<Rightarrow>
                  bnd (lk_get kc ident) (\<lambda>r.
                    case r of
                      None \<Rightarrow> fail_with (ErrInvalidCredential ''unknown api key'')
                    | Some rec \<Rightarrow>
                        if apiKeyHash ident sec \<noteq> ak_Hash rec then fail_with (ErrInvalidCredential ''unknown api key'')
                        else if ak_RevokedAt rec \<noteq> 0 then fail_with (ErrInvalidCredential ''api key was revoked'')
                        else if ak_ExpiresAt rec \<noteq> 0 \<and> \<not> now < ak_ExpiresAt rec
                        then fail_with (ErrInvalidCredential ''api key expired'')
                        else ret rec))"

record KeyIssuer =
  ki_Create :: "NewAPIKey \<Rightarrow> time \<Rightarrow> (string \<times> APIKey) auth_op"
  ki_Get :: "string \<Rightarrow> APIKey auth_op"
  ki_List :: "APIKey list auth_op"
  ki_Revoke :: "string \<Rightarrow> time \<Rightarrow> APIKey auth_op"
  ki_Verify :: "string \<Rightarrow> time \<Rightarrow> APIKey auth_op"

definition LocalKeys :: "key_codec \<Rightarrow> KeyIssuer" where
  "LocalKeys kc =
     \<lparr>ki_Create = lk_Create kc, ki_Get = lk_Get kc, ki_List = lk_List kc,
      ki_Revoke = lk_Revoke kc, ki_Verify = lk_Verify kc\<rparr>"

lemma LocalKeys_simps [simp]:
  "ki_Create (LocalKeys kc) = lk_Create kc" "ki_Get (LocalKeys kc) = lk_Get kc"
  "ki_List (LocalKeys kc) = lk_List kc" "ki_Revoke (LocalKeys kc) = lk_Revoke kc"
  "ki_Verify (LocalKeys kc) = lk_Verify kc"
  by (simp_all add: LocalKeys_def)

section \<open>Keys over the registry\<close>

record MintKey =
  mk_PrincipalID :: string
  mk_Name :: string
  mk_ExpiresAt :: time
  mk_Scopes :: "Scope_name list"

record IssuedKey =
  ik_ID :: string
  ik_PrincipalID :: string
  ik_IdentityID :: string
  ik_Name :: string
  ik_Scopes :: "Scope_name list"
  ik_CreatedAt :: time
  ik_ExpiresAt :: time

definition keyScopes :: "PrincipalRow \<Rightarrow> Scope_name list \<Rightarrow> AuthErr + Scope_name list" where
  "keyScopes p asked =
     (let granted = ScopesForRoles (pw_Roles p)
      in if asked = [] then Inr granted
         else if list_ex (\<lambda>s. s \<in> set asked \<and> s \<notin> set granted) AllScopes
         then Inl (ErrRefused ''auth: scope is not granted'')
         else if list_ex (\<lambda>s. s \<notin> set AllScopes) asked then Inl (ErrRefused ''auth: unknown scope'')
         else Inr (filter (\<lambda>s. s \<in> set asked) AllScopes))"

definition of_sum :: "AuthErr + 'a \<Rightarrow> 'a auth_op" where
  "of_sum r = (case r of Inl e \<Rightarrow> fail_with e | Inr x \<Rightarrow> ret x)"

text \<open>\<open>time.Time.Sub\<close>: the difference, clamped to the range of a 64-bit duration.\<close>

definition time_Sub :: "time \<Rightarrow> time \<Rightarrow> int" where
  "time_Sub a b = max (- (2 ^ 63)) (min (2 ^ 63 - 1) (a - b))"

definition registryPrincipal :: "PrincipalRow \<Rightarrow> Scope_name list \<Rightarrow> string \<Rightarrow> AuthPrincipal" where
  "registryPrincipal p scopes meth =
     \<lparr>ap_ID = pw_ID p, ap_Name = pw_DisplayName p, ap_Kind = pw_Kind p, ap_Provider = meth,
      ap_Roles = pw_Roles p, ap_Scopes = scopes, ap_Meta = []\<rparr>"

definition MethodAPIKey :: string where "MethodAPIKey = ''api_key''"
definition MethodSession :: string where "MethodSession = ''session''"

definition keyPrincipal :: "PrincipalRow \<Rightarrow> APIKey \<Rightarrow> Identity \<Rightarrow> AuthPrincipal" where
  "keyPrincipal p rec idn =
     (registryPrincipal p (scopesNamed (ak_Scopes rec)) MethodAPIKey)
       \<lparr>ap_Meta := [(MetaKeyID, ak_ID rec), (MetaIdentityID, id_ID idn)]\<rparr>"

definition mint_identity :: "PrincipalRow \<Rightarrow> APIKey \<Rightarrow> string \<Rightarrow> Identity" where
  "mint_identity p rec nm =
     \<lparr>id_ID = [], id_PrincipalID = pw_ID p, id_Method = IdentityMethodAPIKey, id_Issuer = [],
      id_Subject = ak_ID rec, id_Name = nm, id_CreatedAt = ak_CreatedAt rec, id_RevokedAt = None,
      id_LastUsedAt = None\<rparr>"

text \<open>Binding the key to an identity row; when that fails the record is revoked again.\<close>

definition bind_key :: "KeyIssuer \<Rightarrow> PrincipalRow \<Rightarrow> APIKey \<Rightarrow> string \<Rightarrow> time \<Rightarrow> Identity auth_op" where
  "bind_key iss p rec nm now =
     on_err (identity_Create (mint_identity p rec nm) now)
       (\<lambda>e. on_err (ki_Revoke iss (ak_ID rec) now) (\<lambda>re. fail_with (ErrJoin e re)) (\<lambda>_. fail_with e))
       ret"

definition issue_key ::
    "KeyIssuer \<Rightarrow> MintKey \<Rightarrow> PrincipalRow \<Rightarrow> Scope_name list \<Rightarrow> time \<Rightarrow> (string \<times> IssuedKey) auth_op" where
  "issue_key iss spec p scopes now =
     (let ttl = (if mk_ExpiresAt spec = 0 then 0 else time_Sub (mk_ExpiresAt spec) now)
      in if mk_ExpiresAt spec \<noteq> 0 \<and> ttl \<le> 0 then fail_with (ErrRefused ''auth: expiry is not in the future'')
         else bnd (ki_Create iss \<lparr>nk_Principal = pw_ID p, nk_Scopes = scopes, nk_TTL = ttl\<rparr> now) (\<lambda>sr.
           bnd (bind_key iss p (snd sr) (mk_Name spec) now) (\<lambda>idn.
             ret (fst sr,
                  \<lparr>ik_ID = ak_ID (snd sr), ik_PrincipalID = pw_ID p, ik_IdentityID = id_ID idn,
                   ik_Name = mk_Name spec, ik_Scopes = scopes, ik_CreatedAt = ak_CreatedAt (snd sr),
                   ik_ExpiresAt = ak_ExpiresAt (snd sr)\<rparr>))))"

definition Keys_Mint :: "KeyIssuer \<Rightarrow> MintKey \<Rightarrow> time \<Rightarrow> (string \<times> IssuedKey) auth_op" where
  "Keys_Mint iss spec now =
     (if mk_PrincipalID spec = [] then fail_with (ErrRefused ''auth: an api key needs a principal'')
      else bnd (principal_Get (mk_PrincipalID spec)) (\<lambda>p.
        if \<not> Principal_Active p then fail_with ErrPrincipalInactive
        else bnd (of_sum (keyScopes p (mk_Scopes spec))) (\<lambda>scopes. issue_key iss spec p scopes now)))"

text \<open>A row that is missing is an invalid credential, any other failure stays what it is.\<close>

definition missing_invalid :: "string \<Rightarrow> AuthErr \<Rightarrow> 'a auth_op" where
  "missing_invalid m e = fail_with (if is_not_found e then ErrInvalidCredential m else e)"

definition Keys_Verify :: "KeyIssuer \<Rightarrow> string \<Rightarrow> time \<Rightarrow> (AuthPrincipal \<times> Identity) auth_op" where
  "Keys_Verify iss raw now =
     bnd (ki_Verify iss raw now) (\<lambda>rec.
     on_err (identity_Find IdentityMethodAPIKey [] (ak_ID rec)) (missing_invalid ''api key has no identity'') (\<lambda>idn.
       if \<not> Identity_Active idn then fail_with (ErrInvalidCredential ''api key was revoked'')
       else if id_PrincipalID idn \<noteq> ak_Principal rec
       then fail_with (ErrInvalidCredential ''api key is bound to another principal'')
       else on_err (principal_Get (id_PrincipalID idn)) (missing_invalid ''api key has no principal'') (\<lambda>p.
         if \<not> Principal_Active p then fail_with (ErrInvalidCredential ''principal is not active'')
         else bnd (identity_Touch (id_ID idn) now) (\<lambda>_. ret (keyPrincipal p rec idn, idn)))))"

definition Keys_ScopesOf :: "KeyIssuer \<Rightarrow> PrincipalRow \<Rightarrow> Identity \<Rightarrow> Scope_name list auth_op" where
  "Keys_ScopesOf iss p idn =
     (if id_Method idn \<noteq> IdentityMethodAPIKey then ret (ScopesForRoles (pw_Roles p))
      else on_err (ki_Get iss (id_Subject idn))
             (\<lambda>e. if is_key_not_found e then ret [] else fail_with e)
             (\<lambda>rec. ret (scopesNamed (ak_Scopes rec))))"

fun owner_key_loop :: "KeyIssuer \<Rightarrow> time \<Rightarrow> Identity list \<Rightarrow> bool auth_op" where
  "owner_key_loop iss now [] = ret False"
| "owner_key_loop iss now (idn # idns) =
     (if id_Method idn \<noteq> IdentityMethodAPIKey \<or> \<not> Identity_Active idn then owner_key_loop iss now idns
      else on_err (ki_Get iss (id_Subject idn))
             (\<lambda>e. if is_key_not_found e then owner_key_loop iss now idns else fail_with e)
             (\<lambda>rec. if ak_RevokedAt rec = 0 \<and> (ak_ExpiresAt rec = 0 \<or> now < ak_ExpiresAt rec) then ret True
                    else owner_key_loop iss now idns))"

definition OwnerHasActiveKey :: "KeyIssuer \<Rightarrow> time \<Rightarrow> bool auth_op" where
  "OwnerHasActiveKey iss now = bnd (identity_ListByPrincipal OwnerPrincipal) (owner_key_loop iss now)"

record KeyInfo = IssuedKey +
  kf_RevokedAt :: "time option"
  kf_LastUsedAt :: "time option"

definition keyInfo :: "APIKey \<Rightarrow> Identity \<Rightarrow> KeyInfo" where
  "keyInfo rec idn =
     \<lparr>ik_ID = ak_ID rec, ik_PrincipalID = id_PrincipalID idn, ik_IdentityID = id_ID idn, ik_Name = id_Name idn,
      ik_Scopes = scopesNamed (ak_Scopes rec), ik_CreatedAt = ak_CreatedAt rec, ik_ExpiresAt = ak_ExpiresAt rec,
      kf_RevokedAt = (if id_RevokedAt idn \<noteq> None then id_RevokedAt idn
                      else if ak_RevokedAt rec \<noteq> 0 then Some (ak_RevokedAt rec) else None),
      kf_LastUsedAt = id_LastUsedAt idn\<rparr>"

definition Keys_Get :: "KeyIssuer \<Rightarrow> string \<Rightarrow> KeyInfo auth_op" where
  "Keys_Get iss i =
     on_err (ki_Get iss i) (\<lambda>e. fail_with (if is_key_not_found e then ErrStoreNotFound else e)) (\<lambda>rec.
       bnd (identity_Find IdentityMethodAPIKey [] (ak_ID rec)) (\<lambda>idn. ret (keyInfo rec idn)))"

fun key_infos :: "KeyIssuer \<Rightarrow> Identity list \<Rightarrow> KeyInfo list auth_op" where
  "key_infos iss [] = ret []"
| "key_infos iss (idn # idns) =
     (if id_Method idn \<noteq> IdentityMethodAPIKey then key_infos iss idns
      else on_err (ki_Get iss (id_Subject idn))
             (\<lambda>e. if is_key_not_found e then key_infos iss idns else fail_with e)
             (\<lambda>rec. bnd (key_infos iss idns) (\<lambda>rest. ret (keyInfo rec idn # rest))))"

definition Keys_ListByPrincipal :: "KeyIssuer \<Rightarrow> string \<Rightarrow> KeyInfo list auth_op" where
  "Keys_ListByPrincipal iss pid = bnd (identity_ListByPrincipal pid) (key_infos iss)"

definition Keys_Revoke :: "KeyIssuer \<Rightarrow> string \<Rightarrow> time \<Rightarrow> unit auth_op" where
  "Keys_Revoke iss i now =
     on_err (ki_Revoke iss i now) (\<lambda>e. fail_with (if is_key_not_found e then ErrStoreNotFound else e)) (\<lambda>_.
     on_err (identity_Find IdentityMethodAPIKey [] i) (\<lambda>e. if is_not_found e then ret () else fail_with e) (\<lambda>idn.
       identity_Revoke (id_ID idn) now))"

section \<open>Declared keys and the api_key method\<close>

record AuthKeyConfig =
  ac_Hash :: string
  ac_Principal :: string
  ac_Roles :: "string list"
  ac_Expires :: string

record time_layouts =
  tl_DateOnly :: "string \<Rightarrow> time option"
  tl_RFC3339 :: "string \<Rightarrow> time option"

definition AuthKeyConfig_ExpiresAt :: "time_layouts \<Rightarrow> AuthKeyConfig \<Rightarrow> time option" where
  "AuthKeyConfig_ExpiresAt lay k =
     (let s = TrimSpace (ac_Expires k)
      in if s = [] then Some 0
         else case tl_DateOnly lay s of Some day \<Rightarrow> Some (day + 86400 * second) | None \<Rightarrow> tl_RFC3339 lay s)"

record ConfigKey =
  ck_Hash :: string
  ck_Principal :: string
  ck_Roles :: "string list"
  ck_ExpiresAt :: time

datatype ConfigKeyError = NotSha256 nat | NotHexDigits nat | BadExpiry nat

fun config_keys :: "time_layouts \<Rightarrow> nat \<Rightarrow> AuthKeyConfig list \<Rightarrow> ConfigKeyError + ConfigKey list" where
  "config_keys lay i [] = Inr []"
| "config_keys lay i (e # es) =
     (if \<not> HasPrefix (ac_Hash e) ''sha256:'' then Inl (NotSha256 i)
      else case hex_DecodeString (TrimPrefix (ac_Hash e) ''sha256:'') of
             None \<Rightarrow> Inl (NotHexDigits i)
           | Some h \<Rightarrow>
               if length h \<noteq> 32 then Inl (NotHexDigits i)
               else case AuthKeyConfig_ExpiresAt lay e of
                      None \<Rightarrow> Inl (BadExpiry i)
                    | Some at \<Rightarrow>
                        (case config_keys lay (Suc i) es of
                           Inl err \<Rightarrow> Inl err
                         | Inr rest \<Rightarrow>
                             Inr (\<lparr>ck_Hash = h, ck_Principal = ac_Principal e, ck_Roles = ac_Roles e,
                                   ck_ExpiresAt = at\<rparr> # rest)))"

definition ConfigKeysFrom :: "time_layouts \<Rightarrow> AuthKeyConfig list \<Rightarrow> ConfigKeyError + ConfigKey list" where
  "ConfigKeysFrom lay entries = config_keys lay 0 entries"

definition configKeyIDPrefix :: string where "configKeyIDPrefix = ''config:''"

definition config_principal :: "PrincipalRow \<Rightarrow> ConfigKey \<Rightarrow> AuthPrincipal" where
  "config_principal p hit =
     (let scopes = ScopesForRoles (pw_Roles p);
          narrowed = (if ck_Roles hit = [] then scopes else intersectScopes (ScopesForRoles (ck_Roles hit)) scopes);
          roles = (if ck_Roles hit = [] then pw_Roles p else rolesWithin (ck_Roles hit) scopes)
      in (registryPrincipal p narrowed MethodAPIKey)
           \<lparr>ap_Roles := roles,
             ap_Meta := [(MetaKeyID, configKeyIDPrefix @ hex_EncodeToString (take 6 (ck_Hash hit)))]\<rparr>)"

definition configMatch :: "ConfigKey list \<Rightarrow> string \<Rightarrow> time \<Rightarrow> AuthPrincipal option auth_op" where
  "configMatch cfg raw now =
     (case find (\<lambda>k. ck_Hash k = sha256_Sum256 raw) cfg of
        None \<Rightarrow> ret None
      | Some hit \<Rightarrow>
          if ck_ExpiresAt hit \<noteq> 0 \<and> \<not> now < ck_ExpiresAt hit then fail_with (ErrInvalidCredential ''key expired'')
          else on_err (principal_Get (ck_Principal hit)) (missing_invalid ''key names unknown principal'') (\<lambda>p.
            if \<not> Principal_Active p then fail_with (ErrInvalidCredential ''principal is not active'')
            else ret (Some (config_principal p hit))))"

text \<open>The method's answer: a principal, or \<open>None\<close> when the request carries nothing for it.\<close>

definition APIKeyMethod_Authenticate ::
    "KeyIssuer \<Rightarrow> ConfigKey list \<Rightarrow> Credential \<Rightarrow> time \<Rightarrow> AuthPrincipal option auth_op" where
  "APIKeyMethod_Authenticate iss cfg cred now =
     (if cr_Token cred = [] then ret None
      else bnd (configMatch cfg (cr_Token cred) now) (\<lambda>r.
        case r of
          Some p \<Rightarrow> ret (Some p)
        | None \<Rightarrow> bnd (Keys_Verify iss (cr_Token cred) now) (\<lambda>pi. ret (Some (fst pi)))))"

definition RequireOwnerCredential :: "KeyIssuer \<Rightarrow> ConfigKey list \<Rightarrow> time \<Rightarrow> unit auth_op" where
  "RequireOwnerCredential iss cfg now =
     (if list_ex (\<lambda>k. ck_Principal k = OwnerPrincipal \<and> (ck_ExpiresAt k = 0 \<or> now < ck_ExpiresAt k)) cfg then ret ()
      else bnd (OwnerHasActiveKey iss now) (\<lambda>ok.
        if ok then ret () else fail_with (ErrRefused ''auth: no active owner credential'')))"

section \<open>What the issuer promises\<close>

definition key_at :: "key_codec \<Rightarrow> auth_world \<Rightarrow> string \<Rightarrow> APIKey option" where
  "key_at kc w i =
     (case map_of (wd_kv w) (apiKeyStorePrefix @ i) of None \<Rightarrow> None | Some d \<Rightarrow> kc_Unmarshal kc d)"

definition key_usable :: "time \<Rightarrow> APIKey \<Rightarrow> bool" where
  "key_usable now rec \<longleftrightarrow> ak_RevokedAt rec = 0 \<and> (ak_ExpiresAt rec = 0 \<or> now < ak_ExpiresAt rec)"

lemma key_at_env [simp]: "key_at kc (w\<lparr>wd_faults := fs\<rparr>) i = key_at kc w i"
  by (simp add: key_at_def)

text \<open>
  The interface \<open>KeyIssuer\<close>: a key verifies or is fetched only when its record is in the
  issuer's table, verifying needs it unrevoked and unexpired, and neither creating nor revoking
  a key does anything to the database that the stores do not allow.
\<close>

locale key_issuer =
  fixes iss :: KeyIssuer
    and lookup :: "auth_world \<Rightarrow> string \<Rightarrow> APIKey option"
  assumes lookup_env: "\<And>w fs i. lookup (w\<lparr>wd_faults := fs\<rparr>) i = lookup w i"
    and verify: "\<And>raw now w rec w'. ki_Verify iss raw now w = (Inr rec, w') \<Longrightarrow>
      (\<exists>fs. w' = w\<lparr>wd_faults := fs\<rparr>) \<and> (\<exists>i. lookup w i = Some rec) \<and> key_usable now rec"
    and get: "\<And>i w rec w'. ki_Get iss i w = (Inr rec, w') \<Longrightarrow>
      (\<exists>fs. w' = w\<lparr>wd_faults := fs\<rparr>) \<and> lookup w i = Some rec"
    and create_order: "\<And>R spec now. store_order R \<Longrightarrow> obeys R (ki_Create iss spec now)"
    and revoke_order: "\<And>R i now. store_order R \<Longrightarrow> obeys R (ki_Revoke iss i now)"
    and get_order: "\<And>R i. world_order R \<Longrightarrow> obeys R (ki_Get iss i)"
    and verify_order: "\<And>R raw now. world_order R \<Longrightarrow> obeys R (ki_Verify iss raw now)"
begin

lemma Verify_sound:
  assumes "Keys_Verify iss raw now w = (Inr (ap, idn), w')"
  obtains rec i p where "lookup w i = Some rec" "key_usable now rec" "idn \<in> set (wd_identities w)"
    "Identity_Active idn" "id_PrincipalID idn = ak_Principal rec" "p \<in> set (wd_principals w)"
    "pw_ID p = ak_Principal rec" "Principal_Active p" "ap = keyPrincipal p rec idn"
proof -
  from assms obtain rec w1 where v: "ki_Verify iss raw now w = (Inr rec, w1)"
    and rest: "on_err (identity_Find IdentityMethodAPIKey [] (ak_ID rec)) (missing_invalid ''api key has no identity'') (\<lambda>idn.
       if \<not> Identity_Active idn then fail_with (ErrInvalidCredential ''api key was revoked'')
       else if id_PrincipalID idn \<noteq> ak_Principal rec
       then fail_with (ErrInvalidCredential ''api key is bound to another principal'')
       else on_err (principal_Get (id_PrincipalID idn)) (missing_invalid ''api key has no principal'') (\<lambda>p.
         if \<not> Principal_Active p then fail_with (ErrInvalidCredential ''principal is not active'')
         else bnd (identity_Touch (id_ID idn) now) (\<lambda>_. ret (keyPrincipal p rec idn, idn)))) w1
       = (Inr (ap, idn), w')"
    unfolding Keys_Verify_def by (elim bnd_InrE)
  from verify [OF v] obtain fs i where "w1 = w\<lparr>wd_faults := fs\<rparr>" "lookup w i = Some rec" "key_usable now rec"
    by auto
  with rest show thesis
    by (elim on_err_InrE identity_Find_facts)
       (auto simp: missing_invalid_def fail_with_def split: if_splits
             elim!: on_err_InrE principal_Get_facts bnd_InrE ret_InrE intro: that)
qed

lemma Verify_order: "signin_order R \<Longrightarrow> obeys R (Keys_Verify iss raw now)"
  unfolding Keys_Verify_def missing_invalid_def
  by (intro world_order.op_rules signin_order.identity_Touch verify_order world_order.reads)
     (auto simp: signin_order_def)

lemma Mint_order: "store_order R \<Longrightarrow> obeys R (Keys_Mint iss spec now)"
  unfolding Keys_Mint_def issue_key_def bind_key_def of_sum_def Let_def
  by (intro world_order.op_rules world_order.reads create_order revoke_order store_order.identity_Create)
     (auto simp: store_order_def signin_order_def split: sum.split intro: world_order.op_rules)

lemma Revoke_order: "store_order R \<Longrightarrow> obeys R (Keys_Revoke iss i now)"
  unfolding Keys_Revoke_def
  by (intro world_order.op_rules world_order.reads revoke_order signin_order.identity_Revoke)
     (auto simp: store_order_def signin_order_def)

lemma ScopesOf_order: "world_order R \<Longrightarrow> obeys R (Keys_ScopesOf iss p idn)"
  unfolding Keys_ScopesOf_def by (intro world_order.op_rules get_order)

lemma ScopesOf_sound:
  assumes "Keys_ScopesOf iss p idn w = (Inr scopes, w')"
  shows "scopes = ScopesForRoles (pw_Roles p) \<or> scopes = [] \<or>
         (\<exists>rec. id_Method idn = IdentityMethodAPIKey \<and> lookup w (id_Subject idn) = Some rec \<and>
                scopes = scopesNamed (ak_Scopes rec))"
  using assms unfolding Keys_ScopesOf_def
  by (auto split: if_splits elim!: on_err_InrE ret_InrE dest: get simp: fail_with_def)

end

lemma kv_Get_InrE:
  assumes "kv_Get k w = (Inr d, w')"
  obtains fs where "w' = w\<lparr>wd_faults := fs\<rparr>" "d = map_of (wd_kv w) k"
  using assms unfolding kv_Get_def by (elim query_InrE) (auto intro: that)

lemma lk_get_facts:
  assumes "lk_get kc i w = (Inr r, w')"
  obtains fs where "w' = w\<lparr>wd_faults := fs\<rparr>" "r = key_at kc w i"
  using assms unfolding lk_get_def
  by (elim bnd_InrE kv_Get_InrE)
     (auto split: option.splits simp: key_at_def fail_with_def elim!: ret_InrE intro: that)

lemma lk_Get_facts:
  assumes "lk_Get kc i w = (Inr rec, w')"
  obtains fs where "w' = w\<lparr>wd_faults := fs\<rparr>" "key_at kc w i = Some rec"
  using assms unfolding lk_Get_def
  by (elim bnd_InrE lk_get_facts) (auto split: option.splits simp: fail_with_def elim!: ret_InrE intro: that)

lemma lk_Verify_facts:
  assumes "lk_Verify kc raw now w = (Inr rec, w')"
  obtains fs ident sec where "w' = w\<lparr>wd_faults := fs\<rparr>" "splitAPIKey (TrimSpace raw) = Some (ident, sec)"
    "key_at kc w ident = Some rec" "ak_Hash rec = apiKeyHash ident sec" "key_usable now rec"
  using assms unfolding lk_Verify_def Let_def
  by (auto split: if_splits option.splits prod.splits simp: fail_with_def key_usable_def
           elim!: bnd_InrE lk_get_facts ret_InrE intro: that)

lemma lk_reads_order:
  assumes "world_order R"
  shows "obeys R (lk_get kc i)" "obeys R (lk_Get kc i)" "obeys R (lk_Verify kc raw now)"
proof -
  show get: "obeys R (lk_get kc i)" for i
    unfolding lk_get_def using assms
    by (intro world_order.bnd world_order.reads) (auto split: option.split intro: world_order.op_rules)
  show "obeys R (lk_Get kc i)"
    unfolding lk_Get_def using assms
    by (intro world_order.bnd get) (auto split: option.split intro: world_order.op_rules)
  show "obeys R (lk_Verify kc raw now)"
    unfolding lk_Verify_def Let_def using assms
    by (auto split: option.split intro!: world_order.op_rules get world_order.bnd)
qed

lemma lk_writes_order:
  assumes "store_order R"
  shows "obeys R (lk_Create kc spec now)" "obeys R (lk_Revoke kc i now)"
proof -
  have R: "world_order R" using assms by (simp add: store_order_def signin_order_def)
  have put: "obeys R (lk_put kc rec)" for rec
    unfolding lk_put_def using assms by (rule store_order.kv_Put)
  show "obeys R (lk_Create kc spec now)"
    unfolding lk_Create_def Let_def using R by (intro world_order.op_rules put)
  show "obeys R (lk_Revoke kc i now)"
    unfolding lk_Revoke_def Let_def using R by (intro world_order.op_rules put lk_reads_order)
qed

interpretation lk: key_issuer "LocalKeys kc" "key_at kc" for kc
proof
  show "key_at kc (w\<lparr>wd_faults := fs\<rparr>) i = key_at kc w i" for w fs i
    by simp
  show "(\<exists>fs. w' = w\<lparr>wd_faults := fs\<rparr>) \<and> (\<exists>i. key_at kc w i = Some rec) \<and> key_usable now rec"
    if "ki_Verify (LocalKeys kc) raw now w = (Inr rec, w')" for raw now w rec w'
    using that by (auto elim: lk_Verify_facts)
  show "(\<exists>fs. w' = w\<lparr>wd_faults := fs\<rparr>) \<and> key_at kc w i = Some rec"
    if "ki_Get (LocalKeys kc) i w = (Inr rec, w')" for i w rec w'
    using that by (auto elim: lk_Get_facts)
qed (simp_all add: lk_reads_order lk_writes_order)

section \<open>Keys never exceed their principal\<close>

text \<open>
  \<open>keys_ok\<close>: every record stands under its own id, names a principal of the registry and holds
  only scopes that principal's roles grant; every \<open>api_key\<close> identity has such a record, for its
  own principal.
\<close>

definition record_ok :: "auth_world \<Rightarrow> APIKey \<Rightarrow> bool" where
  "record_ok w rec \<longleftrightarrow>
     (\<exists>p \<in> set (wd_principals w).
        pw_ID p = ak_Principal rec \<and> set (ak_Scopes rec) \<subseteq> set (ScopesForRoles (pw_Roles p)))"

definition keys_ok :: "key_codec \<Rightarrow> auth_world \<Rightarrow> bool" where
  "keys_ok kc w \<longleftrightarrow>
     (\<forall>i rec. key_at kc w i = Some rec \<longrightarrow> ak_ID rec = i \<and> record_ok w rec) \<and>
     (\<forall>idn \<in> set (wd_identities w). id_Method idn = IdentityMethodAPIKey \<longrightarrow>
        (\<exists>rec. key_at kc w (id_Subject idn) = Some rec \<and> ak_Principal rec = id_PrincipalID idn))"

text \<open>What sign-in does to the keys: nothing, but principals and identities may evolve.\<close>

definition keys_order :: "auth_world \<Rightarrow> auth_world \<Rightarrow> bool" where
  "keys_order w w' \<longleftrightarrow>
     wd_kv w' = wd_kv w \<and> evolves principal_step (wd_principals w) (wd_principals w') \<and>
     (\<forall>j \<in> set (wd_identities w'). id_Method j = IdentityMethodAPIKey \<longrightarrow>
        (\<exists>i \<in> set (wd_identities w). identity_step i j))"

lemma record_ok_mono:
  assumes "record_ok w rec" "evolves principal_step (wd_principals w) (wd_principals w')"
  shows "record_ok w' rec"
proof -
  obtain p where "p \<in> set (wd_principals w)" "pw_ID p = ak_Principal rec"
    "set (ak_Scopes rec) \<subseteq> set (ScopesForRoles (pw_Roles p))"
    using assms(1) by (auto simp: record_ok_def)
  moreover obtain q where "q \<in> set (wd_principals w')" "principal_step p q"
    using evolvesD [OF assms(2)] calculation(1) by auto
  ultimately show ?thesis unfolding record_ok_def
    by (intro bexI [of _ q]) (simp_all add: principal_step_def)
qed

lemma keys_ok_order:
  assumes "keys_ok kc w" "keys_order w w'"
  shows "keys_ok kc w'"
proof -
  have kv: "key_at kc w' i = key_at kc w i" for i
    using assms(2) by (simp add: key_at_def keys_order_def)
  have "record_ok w' rec" if "key_at kc w i = Some rec" for i rec
    using that assms by (auto simp: keys_ok_def keys_order_def intro: record_ok_mono)
  moreover have "\<exists>rec. key_at kc w (id_Subject j) = Some rec \<and> ak_Principal rec = id_PrincipalID j"
    if j: "j \<in> set (wd_identities w')" "id_Method j = IdentityMethodAPIKey" for j
  proof -
    obtain i where "i \<in> set (wd_identities w)" "identity_step i j"
      using assms(2) j by (auto simp: keys_order_def)
    with j assms(1) show ?thesis by (auto simp: keys_ok_def identity_step_def)
  qed
  ultimately show ?thesis using assms(1) by (auto simp: keys_ok_def kv)
qed

lemma keys_order_tables:
  "wd_kv w' = wd_kv w \<Longrightarrow> wd_principals w' = wd_principals w \<Longrightarrow> wd_identities w' = wd_identities w \<Longrightarrow>
   keys_order w w'"
  by (simp add: keys_order_def evolves_refl) (blast intro: step_refl)

lemma keys_order_trans:
  assumes "keys_order a b" "keys_order b c"
  shows "keys_order a c"
proof -
  have "evolves principal_step (wd_principals a) (wd_principals c)"
    by (rule evolves_trans [of _ _ "wd_principals b"])
       (use assms principal_step_trans in \<open>auto simp only: keys_order_def\<close>)
  moreover have "\<exists>i \<in> set (wd_identities a). identity_step i k"
    if k: "k \<in> set (wd_identities c)" "id_Method k = IdentityMethodAPIKey" for k
  proof -
    obtain j where j: "j \<in> set (wd_identities b)" "identity_step j k"
      using assms(2) k by (auto simp: keys_order_def)
    then have "id_Method j = IdentityMethodAPIKey" using k(2) by (simp add: identity_step_def)
    then obtain i where "i \<in> set (wd_identities a)" "identity_step i j"
      using assms(1) j(1) by (auto simp: keys_order_def)
    with j(2) show ?thesis by (blast intro: identity_step_trans)
  qed
  ultimately show ?thesis using assms by (simp add: keys_order_def)
qed

interpretation kor: world_order keys_order
  by unfold_locales (simp add: keys_order_tables, erule (1) keys_order_trans)

lemma identity_step_self: "i \<in> set xs \<Longrightarrow> \<exists>j \<in> set xs. identity_step j i"
  by (rule bexI [of _ i]) simp_all

lemma keys_order_principals:
  "evolves principal_step (wd_principals w) ps \<Longrightarrow> keys_order w (w\<lparr>wd_principals := ps\<rparr>)"
  by (simp add: keys_order_def) (blast intro: step_refl)

lemma keys_order_identity_update:
  assumes "\<And>i. c i \<Longrightarrow> identity_step i (f i)"
  shows "keys_order w (w\<lparr>wd_identities := update_where c f (wd_identities w)\<rparr>)"
proof -
  have "\<exists>i \<in> set (wd_identities w). identity_step i j"
    if j: "j \<in> set (update_where c f (wd_identities w))" for j
  proof -
    obtain x where "x \<in> set (wd_identities w)" "j = (if c x then f x else x)"
      using j by (auto simp: set_update_where)
    then show ?thesis using assms [of x] by (intro bexI [of _ x]) auto
  qed
  then show ?thesis by (simp add: keys_order_def evolves_refl)
qed

lemma keys_order_link:
  assumes "id_Method q \<noteq> IdentityMethodAPIKey"
  shows "keys_order w (w\<lparr>wd_identities := wd_identities w @ [q]\<rparr>)"
  using assms by (auto simp: keys_order_def evolves_refl intro: identity_step_self)

interpretation kor: signin_order keys_order
proof
  have other: "keys_order w (w\<lparr>wd_sessions := ss\<rparr>)" "keys_order w (w\<lparr>wd_codes := cs\<rparr>)"
    "keys_order w (w\<lparr>wd_tickets := ts\<rparr>)" for w ss cs ts
    by (simp_all add: keys_order_tables)
  have sessions: "obeys keys_order (revoke_sessions c now reason)" for c now reason
    unfolding revoke_sessions_def by (rule kor.stmt) (simp add: other)
  have codes: "obeys keys_order (delete_codes c)" for c
    unfolding delete_codes_def by (rule kor.stmt) (simp add: other)
  have revoked: "identity_step i (i\<lparr>id_RevokedAt := t\<rparr>)" if "id_RevokedAt i = None" for i t
    using that by (simp add: identity_step_def)
  show "obeys keys_order (principal_Create p now)" for p now
    unfolding principal_Create_def
    by (intro kor.op_rules kor.prepare kor.stmt) (simp add: keys_order_principals evolves_append kor.refl)
  show "obeys keys_order (principal_Suspend i)" for i
    unfolding principal_Suspend_def
    by (intro kor.op_rules kor.reads kor.stmt) (simp add: keys_order_principals suspend_evolves)
  show "obeys keys_order (principal_Revoke i now)" for i now
    unfolding principal_Revoke_def
    by (intro kor.op_rules kor.reads kor.stmt sessions codes)
       (auto intro!: keys_order_principals revoke_evolves keys_order_identity_update revoked)
  show "obeys keys_order (identity_Create ident now)" if "id_Method ident \<noteq> IdentityMethodAPIKey" for ident now
    unfolding identity_Create_def
  proof (rule kor.bnd_info [OF kor.prepare(2)])
    fix w q w'
    assume "PrepareNewIdentity ident now w = (Inr q, w')"
    then have "id_Method q \<noteq> IdentityMethodAPIKey"
      using that by (simp add: PrepareNewIdentity_facts)
    then show "obeys keys_order (bnd (stmt (\<lambda>w.
              if has_identity w (id_ID q) \<or> list_ex (same_triple q) (wd_identities w) then (Inl ErrAlreadyExists, w)
              else if \<not> has_principal w (id_PrincipalID q) then (Inl ErrStoreNotFound, w)
              else (Inr (), w\<lparr>wd_identities := wd_identities w @
                     [q\<lparr>id_CreatedAt := stored (id_CreatedAt q),
                        id_RevokedAt := map_option stored (id_RevokedAt q),
                        id_LastUsedAt := map_option stored (id_LastUsedAt q)\<rparr>]\<rparr>))) (\<lambda>_. ret q))"
      by (intro kor.op_rules kor.stmt) (simp add: keys_order_link kor.refl)
  qed
  show "obeys keys_order (identity_Revoke i now)" for i now
    unfolding identity_Revoke_def
    by (intro kor.op_rules kor.reads kor.stmt sessions codes) (auto intro!: keys_order_identity_update revoked)
  show "obeys keys_order (identity_Touch i now)" for i now
    unfolding identity_Touch_def
    by (intro kor.op_rules kor.reads kor.stmt) (simp add: keys_order_identity_update identity_step_def)
  show "obeys keys_order (ticket_Issue t now)" for t now
    unfolding ticket_Issue_def
    by (intro kor.op_rules kor.prepare kor.ids kor.stmt) (simp add: other kor.refl)
  have "obeys keys_order (ticket_redeem_update kind hash now)" for kind hash now
    unfolding ticket_redeem_update_def
    by (rule kor.stmt) (simp add: Let_def other kor.refl split: option.split)
  then show "obeys keys_order (ticket_Redeem kind secret now)" for kind secret now
    unfolding ticket_Redeem_def by (intro kor.bnd) (auto split: option.split intro: kor.op_rules kor.reads)
  show "obeys keys_order (CreateLoginCode c)" for c
    unfolding CreateLoginCode_def by (rule kor.stmt) (simp add: other kor.refl)
  show "obeys keys_order (ConsumeLoginCode h now)" for h now
    unfolding ConsumeLoginCode_def
    by (intro kor.op_rules kor.stmt) (auto simp: other split: option.split intro!: kor.op_rules)
  show "obeys keys_order (session_Create s)" for s
    unfolding session_Create_def by (rule kor.stmt) (simp add: other kor.refl)
  show "obeys keys_order (session_Touch i now idle)" for i now idle
    unfolding session_Touch_def by (intro kor.op_rules kor.reads kor.stmt) (simp add: other)
  show "obeys keys_order (session_Revoke i now reason)" for i now reason
    unfolding session_Revoke_def by (intro kor.op_rules kor.reads kor.stmt) (simp add: other)
  show "obeys keys_order (session_Prune now)" for now
    unfolding session_Prune_def by (intro kor.op_rules kor.stmt codes) (simp add: other)
  show "obeys keys_order (audience_AddMember m now)" for m now
    unfolding audience_AddMember_def Let_def
    by (auto split: sum.split intro!: kor.op_rules kor.stmt keys_order_tables)
qed

section \<open>Minting and revoking keep the keys in order\<close>

definition next_key_id :: "auth_world \<Rightarrow> string" where
  "next_key_id w = hex_EncodeToString (map (\<lambda>i. wd_rand w (wd_drawn w + i)) [0..<apiKeyIDBytes])"

text \<open>The eight random bytes the next key is named by are not those of a key already stored.\<close>

definition fresh_key :: "auth_world \<Rightarrow> bool" where
  "fresh_key w \<longleftrightarrow> map_of (wd_kv w) (apiKeyStorePrefix @ next_key_id w) = None"

lemma keys_ok_env: "keys_ok kc w \<Longrightarrow> keys_ok kc (w\<lparr>wd_faults := fs, wd_drawn := n\<rparr>)"
  by (rule keys_ok_order [OF _ kor.env])

lemma keys_ok_faults [simp]: "keys_ok kc (w\<lparr>wd_faults := fs\<rparr>) = keys_ok kc w"
  by (simp add: keys_ok_def record_ok_def)

lemma keys_ok_drawn [simp]: "keys_ok kc (w\<lparr>wd_drawn := n\<rparr>) = keys_ok kc w"
  by (simp add: keys_ok_def record_ok_def key_at_def)

lemma record_ok_tables: "wd_principals w' = wd_principals w \<Longrightarrow> record_ok w' rec = record_ok w rec"
  by (simp add: record_ok_def)

lemma keys_ok_put:
  assumes "codec_ok kc" "keys_ok kc w" "record_ok w rec"
    and "\<And>idn. idn \<in> set (wd_identities w) \<Longrightarrow> id_Method idn = IdentityMethodAPIKey \<Longrightarrow>
           id_Subject idn = ak_ID rec \<Longrightarrow> ak_Principal rec = id_PrincipalID idn"
  shows "keys_ok kc (w\<lparr>wd_kv := AList.update (apiKeyStorePrefix @ ak_ID rec) (kc_Marshal kc rec) (wd_kv w)\<rparr>)"
    (is "keys_ok kc ?w")
proof -
  have at: "key_at kc ?w i = (if i = ak_ID rec then Some rec else key_at kc w i)" for i
    using assms(1) by (simp add: key_at_def update_conv' codec_ok_def)
  show ?thesis
    using assms(2-4) unfolding keys_ok_def
    by (auto simp: at record_ok_def)
qed

lemma lk_put_run:
  "lk_put kc rec w =
     (case wd_faults w of
        [] \<Rightarrow> (Inr (), w\<lparr>wd_kv := AList.update (apiKeyStorePrefix @ ak_ID rec) (kc_Marshal kc rec) (wd_kv w)\<rparr>)
      | b # bs \<Rightarrow> if b then (Inl ErrDatabase, w\<lparr>wd_faults := bs\<rparr>)
                 else (Inr (), w\<lparr>wd_faults := bs, wd_kv := AList.update (apiKeyStorePrefix @ ak_ID rec) (kc_Marshal kc rec) (wd_kv w)\<rparr>))"
  by (simp add: lk_put_def kv_Put_def stmt_def split: list.split)

lemma lk_put_keys:
  assumes "codec_ok kc" "keys_ok kc w" "record_ok w rec"
    and "\<And>idn. idn \<in> set (wd_identities w) \<Longrightarrow> id_Method idn = IdentityMethodAPIKey \<Longrightarrow>
           id_Subject idn = ak_ID rec \<Longrightarrow> ak_Principal rec = id_PrincipalID idn"
  shows "keys_ok kc (snd (lk_put kc rec w))"
proof -
  have "keys_ok kc (w\<lparr>wd_faults := fs, wd_kv := AList.update (apiKeyStorePrefix @ ak_ID rec) (kc_Marshal kc rec) (wd_kv w)\<rparr>)" for fs
    using keys_ok_put [of kc "w\<lparr>wd_faults := fs\<rparr>" rec] assms by (simp add: record_ok_def)
  moreover have "keys_ok kc (w\<lparr>wd_kv := AList.update (apiKeyStorePrefix @ ak_ID rec) (kc_Marshal kc rec) (wd_kv w)\<rparr>)"
    by (rule keys_ok_put [OF assms])
  ultimately show ?thesis
    using assms(2) by (simp add: lk_put_run split: list.split)
qed

lemma lk_put_InrE:
  assumes "lk_put kc rec w = (Inr u, w')"
  obtains fs where
    "w' = w\<lparr>wd_faults := fs, wd_kv := AList.update (apiKeyStorePrefix @ ak_ID rec) (kc_Marshal kc rec) (wd_kv w)\<rparr>"
  using assms unfolding lk_put_def kv_Put_def by (elim stmt_InrE) (auto intro: that)

lemma lk_Revoke_keys:
  assumes "codec_ok kc" "keys_ok kc w"
  shows "keys_ok kc (snd (lk_Revoke kc i now w))"
proof -
  obtain r w1 where get: "lk_Get kc i w = (r, w1)" by fastforce
  have w1: "keys_ok kc w1"
    using keys_ok_order [OF assms(2)] obeysD [OF lk_reads_order(2) get] kor.world_order_axioms by blast
  show ?thesis
  proof (cases r)
    case (Inr rec)
    with get have rec: "key_at kc w1 i = Some rec" by (auto elim: lk_Get_facts)
    have "keys_ok kc (snd (lk_put kc (rec\<lparr>ak_RevokedAt := now\<rparr>) w1))"
    proof (rule lk_put_keys [OF assms(1) w1])
      show "record_ok w1 (rec\<lparr>ak_RevokedAt := now\<rparr>)"
        using w1 rec by (auto simp: keys_ok_def record_ok_def)
      show "ak_Principal (rec\<lparr>ak_RevokedAt := now\<rparr>) = id_PrincipalID idn"
        if "idn \<in> set (wd_identities w1)" "id_Method idn = IdentityMethodAPIKey"
          "id_Subject idn = ak_ID (rec\<lparr>ak_RevokedAt := now\<rparr>)" for idn
        using that w1 rec by (fastforce simp: keys_ok_def)
    qed
    with Inr get w1 show ?thesis
      by (auto simp: lk_Revoke_def bnd_def ret_def Let_def split: prod.splits sum.splits)
  qed (use get w1 in \<open>simp add: lk_Revoke_def bnd_def\<close>)
qed

lemma identity_Create_keys:
  assumes "keys_ok kc w" "key_at kc w (id_Subject ident) = Some rec" "ak_Principal rec = id_PrincipalID ident"
  shows "keys_ok kc (snd (identity_Create ident now w))"
proof -
  obtain r w1 where prep: "PrepareNewIdentity ident now w = (r, w1)" by fastforce
  have env: "wd_kv w1 = wd_kv w" "wd_identities w1 = wd_identities w" "wd_principals w1 = wd_principals w"
    using prep unfolding PrepareNewIdentity_def NewIdentityID_def NewULID_def
    by (auto simp: bnd_def draw_def ret_def fail_with_def split: if_splits)
  have w1: "keys_ok kc w1" and at1: "key_at kc w1 (id_Subject ident) = Some rec"
    using assms(1,2) env by (simp_all add: keys_ok_def record_ok_def key_at_def)
  show ?thesis
  proof (cases r)
    case (Inr q)
    with prep have "PrepareNewIdentity ident now w = (Inr q, w1)" by simp
    note q = PrepareNewIdentity_facts [OF this]
    have ins: "keys_ok kc (w1\<lparr>wd_faults := fs, wd_identities := wd_identities w1 @ [q']\<rparr>)"
      if "id_Subject q' = id_Subject q" "id_PrincipalID q' = id_PrincipalID q" for fs q'
      using w1 at1 assms(3) q that by (auto simp: keys_ok_def record_ok_def key_at_def)
    then have ins0: "keys_ok kc (w1\<lparr>wd_identities := wd_identities w1 @ [q']\<rparr>)"
      if "id_Subject q' = id_Subject q" "id_PrincipalID q' = id_PrincipalID q" for q'
      using ins [OF that, of "wd_faults w1"] by simp
    show ?thesis
      using Inr prep w1 unfolding identity_Create_def
      by (auto simp: bnd_def stmt_def ret_def ins ins0 split: list.split)
  qed (use prep w1 in \<open>simp add: identity_Create_def bnd_def\<close>)
qed

definition next_key_secret :: "auth_world \<Rightarrow> string" where
  "next_key_secret w =
     b64_EncodeToString (map (\<lambda>i. wd_rand w (wd_drawn w + apiKeyIDBytes + i)) [0..<apiKeySecretBytes])"

definition new_record :: "NewAPIKey \<Rightarrow> time \<Rightarrow> auth_world \<Rightarrow> APIKey" where
  "new_record spec now w =
     \<lparr>ak_ID = next_key_id w, ak_Principal = nk_Principal spec, ak_Scopes = nk_Scopes spec,
      ak_CreatedAt = now, ak_ExpiresAt = (if nk_TTL spec > 0 then now + nk_TTL spec else 0),
      ak_RevokedAt = 0, ak_Hash = apiKeyHash (next_key_id w) (next_key_secret w)\<rparr>"

definition drawn_key :: "auth_world \<Rightarrow> auth_world" where
  "drawn_key w = w\<lparr>wd_drawn := wd_drawn w + apiKeyIDBytes + apiKeySecretBytes\<rparr>"

lemma drawn_key_tables [simp]:
  "wd_kv (drawn_key w) = wd_kv w" "wd_principals (drawn_key w) = wd_principals w"
  "wd_identities (drawn_key w) = wd_identities w" "wd_faults (drawn_key w) = wd_faults w"
  "keys_ok kc (drawn_key w) = keys_ok kc w" "record_ok (drawn_key w) rec = record_ok w rec"
  by (simp_all add: drawn_key_def record_ok_def)

lemma bnd_draw [run_simps]:
  "bnd (draw n) f w = f (map (\<lambda>i. wd_rand w (wd_drawn w + i)) [0..<n]) (w\<lparr>wd_drawn := wd_drawn w + n\<rparr>)"
  by (simp add: bnd_def draw_def)

lemma lk_Create_run:
  "lk_Create kc spec now w =
     (if TrimSpace (nk_Principal spec) = [] then fail_with (ErrRefused ''auth: an api key needs a principal'') w
      else if list_ex (\<lambda>s. s = [] \<or> ContainsAny s [CHR '' '', CHR 0x09, CHR 0x0D, CHR 0x0A]) (nk_Scopes spec)
      then fail_with (ErrRefused ''auth: scope'') w
      else bnd (lk_put kc (new_record spec now w))
             (\<lambda>_. ret (APIKeyPrefix @ ''_'' @ next_key_id w @ ''_'' @ next_key_secret w, new_record spec now w))
             (drawn_key w))"
  by (simp add: lk_Create_def bnd_draw new_record_def next_key_id_def next_key_secret_def drawn_key_def
                Let_def add.assoc)

lemma lk_Create_facts:
  assumes "lk_Create kc spec now w = (Inr (raw, rec), w')"
  obtains fs where "rec = new_record spec now w"
    "raw = APIKeyPrefix @ ''_'' @ next_key_id w @ ''_'' @ next_key_secret w"
    "w' = (drawn_key w)\<lparr>wd_faults := fs,
             wd_kv := AList.update (apiKeyStorePrefix @ next_key_id w) (kc_Marshal kc rec) (wd_kv w)\<rparr>"
  using assms unfolding lk_Create_run
  by (auto simp: fail_with_def ret_def new_record_def split: if_splits elim!: bnd_InrE lk_put_InrE intro: that)

lemma lk_Create_keys:
  assumes "codec_ok kc" "keys_ok kc w" "fresh_key w" "p \<in> set (wd_principals w)" "pw_ID p = nk_Principal spec"
    and "set (nk_Scopes spec) \<subseteq> set (ScopesForRoles (pw_Roles p))"
  shows "keys_ok kc (snd (lk_Create kc spec now w))"
proof -
  have none: "key_at kc w (next_key_id w) = None"
    using assms(3) by (simp add: fresh_key_def key_at_def)
  have "keys_ok kc (snd (lk_put kc (new_record spec now w) (drawn_key w)))"
  proof (rule lk_put_keys [OF assms(1)])
    show "record_ok (drawn_key w) (new_record spec now w)"
      using assms(4-6) by (auto simp: record_ok_def new_record_def)
    show "ak_Principal (new_record spec now w) = id_PrincipalID idn"
      if "idn \<in> set (wd_identities (drawn_key w))" "id_Method idn = IdentityMethodAPIKey"
        "id_Subject idn = ak_ID (new_record spec now w)" for idn
      using that assms(2) none by (auto simp: keys_ok_def new_record_def)
  qed (simp add: assms(2))
  then show ?thesis
    using assms(2) unfolding lk_Create_run
    by (auto simp: bnd_def ret_def fail_with_def split: prod.splits sum.splits)
qed

lemma keyScopes_granted:
  "keyScopes p asked = Inr scopes \<Longrightarrow> set scopes \<subseteq> set (ScopesForRoles (pw_Roles p))"
  by (auto simp: keyScopes_def Let_def list_ex_iff split: if_splits)

lemma bind_key_keys:
  assumes "codec_ok kc" "keys_ok kc w" "key_at kc w (ak_ID rec) = Some rec" "ak_Principal rec = pw_ID p"
  shows "keys_ok kc (snd (bind_key (LocalKeys kc) p rec nm now w))"
proof -
  obtain r w1 where create: "identity_Create (mint_identity p rec nm) now w = (r, w1)" by fastforce
  have "keys_ok kc (snd (identity_Create (mint_identity p rec nm) now w))"
    by (rule identity_Create_keys [OF assms(2)]) (use assms(3,4) in \<open>simp_all add: mint_identity_def\<close>)
  with create have w1: "keys_ok kc w1" by simp
  then have "keys_ok kc (snd (lk_Revoke kc (ak_ID rec) now w1))"
    by (rule lk_Revoke_keys [OF assms(1)])
  with create w1 show ?thesis
    by (cases r) (auto simp: bind_key_def on_err_def ret_def fail_with_def split: prod.splits sum.splits)
qed

lemma issue_key_keys:
  assumes kc: "codec_ok kc" and w: "keys_ok kc w" and fresh: "fresh_key w" and p: "p \<in> set (wd_principals w)"
    and scopes: "set scopes \<subseteq> set (ScopesForRoles (pw_Roles p))"
  shows "keys_ok kc (snd (issue_key (LocalKeys kc) spec p scopes now w))"
proof -
  define ttl where "ttl = (if mk_ExpiresAt spec = 0 then 0 else time_Sub (mk_ExpiresAt spec) now)"
  define nk where "nk = \<lparr>nk_Principal = pw_ID p, nk_Scopes = scopes, nk_TTL = ttl\<rparr>"
  obtain r w1 where create: "lk_Create kc nk now w = (r, w1)" by fastforce
  have "keys_ok kc (snd (lk_Create kc nk now w))"
    by (rule lk_Create_keys [OF kc w fresh p]) (use scopes in \<open>simp_all add: nk_def\<close>)
  with create have w1: "keys_ok kc w1" by simp
  have "keys_ok kc (snd (bind_key (LocalKeys kc) p rec (mk_Name spec) now w1))" if "r = Inr (raw, rec)" for raw rec
  proof (rule bind_key_keys [OF kc w1])
    have "lk_Create kc nk now w = (Inr (raw, rec), w1)" using create that by simp
    then show "key_at kc w1 (ak_ID rec) = Some rec" "ak_Principal rec = pw_ID p"
      using kc by (auto elim!: lk_Create_facts simp: key_at_def codec_ok_def new_record_def nk_def update_conv')
  qed
  with create w w1 show ?thesis
    unfolding issue_key_def Let_def ttl_def [symmetric] nk_def [symmetric]
    by (cases r) (auto simp: bnd_def ret_def fail_with_def split: prod.splits sum.splits)
qed

lemma Keys_Mint_keys:
  assumes kc: "codec_ok kc" and w: "keys_ok kc w" and fresh: "fresh_key w"
  shows "keys_ok kc (snd (Keys_Mint (LocalKeys kc) spec now w))"
proof -
  obtain r w1 where get: "principal_Get (mk_PrincipalID spec) w = (r, w1)" by fastforce
  have w1: "keys_ok kc w1"
    using keys_ok_order [OF w] obeysD [OF kor.reads(1) get] by blast
  have "keys_ok kc (snd (issue_key (LocalKeys kc) spec p scopes now w1))"
    if "r = Inr p" "keyScopes p (mk_Scopes spec) = Inr scopes" for p scopes
  proof -
    have "principal_Get (mk_PrincipalID spec) w = (Inr p, w1)" using get that(1) by simp
    then obtain fs where "w1 = w\<lparr>wd_faults := fs\<rparr>" "p \<in> set (wd_principals w)"
      by (elim principal_Get_facts)
    with fresh show ?thesis
      by (intro issue_key_keys kc w1 keyScopes_granted [OF that(2)]) (simp_all add: fresh_key_def next_key_id_def)
  qed
  then show ?thesis
    using get w w1 unfolding Keys_Mint_def
    by (cases r) (auto simp: bnd_def of_sum_def ret_def fail_with_def split: sum.splits)
qed

lemma Keys_Revoke_keys:
  assumes "codec_ok kc" "keys_ok kc w"
  shows "keys_ok kc (snd (Keys_Revoke (LocalKeys kc) i now w))"
proof -
  obtain r w1 where rev: "lk_Revoke kc i now w = (r, w1)" by fastforce
  have w1: "keys_ok kc w1" using lk_Revoke_keys [OF assms, of i now] rev by simp
  have "obeys keys_order (on_err (identity_Find IdentityMethodAPIKey [] i)
          (\<lambda>e. if is_not_found e then ret () else fail_with e) (\<lambda>idn. identity_Revoke (id_ID idn) now))"
    by (intro kor.op_rules kor.reads kor.identity_Revoke)
  then have "keys_order w1 (snd (on_err (identity_Find IdentityMethodAPIKey [] i)
          (\<lambda>e. if is_not_found e then ret () else fail_with e) (\<lambda>idn. identity_Revoke (id_ID idn) now) w1))"
    by (simp add: obeys_def)
  from keys_ok_order [OF w1 this] show ?thesis
    using rev w1 unfolding Keys_Revoke_def by (cases r) (simp_all add: on_err_def fail_with_def)
qed

section \<open>A minted key verifies\<close>

lemma b64_digit_printable_all: "list_all (\<lambda>n. byte_in 33 126 (b64_digit n)) [0..<64]"
  by code_simp

lemma b64_printable:
  assumes "c \<in> set (b64_EncodeToString b)"
  shows "byte_in 33 126 c"
proof -
  obtain d where d: "d \<in> set (b64_bits (map of_char b))" "c = b64_digit d"
    using assms by (auto simp: b64_EncodeToString_def)
  have "d < 64" using d(1) by (rule b64_bits_range [rotated]) auto
  with d(2) b64_digit_printable_all show ?thesis by (auto simp: list_all_iff)
qed

lemma Cut_at: "sep \<notin> set a \<Longrightarrow> Cut_before sep (a @ sep # b) = a" "sep \<notin> set a \<Longrightarrow> Cut_after sep (a @ sep # b) = b"
proof -
  assume "sep \<notin> set a"
  then show before: "Cut_before sep (a @ sep # b) = a"
    unfolding Cut_before_def by (induction a) auto
  then show "Cut_after sep (a @ sep # b) = b"
    by (simp add: Cut_after_def)
qed

lemma hex_no_underscore: "CHR ''_'' \<notin> set (hex_EncodeToString s)"
  using hex_lower_hex [of "CHR ''_''" s] by (auto simp: lower_hex_def byte_class_defs)

lemma splitAPIKey_minted:
  assumes "length idb = apiKeyIDBytes" "length sec = apiKeySecretBytes"
  defines "raw \<equiv> APIKeyPrefix @ ''_'' @ hex_EncodeToString idb @ ''_'' @ b64_EncodeToString sec"
  shows "splitAPIKey raw = Some (hex_EncodeToString idb, b64_EncodeToString sec)"
proof -
  have "SplitN 3 raw (CHR ''_'') = [APIKeyPrefix, hex_EncodeToString idb, b64_EncodeToString sec]"
    using Cut_at [OF hex_no_underscore, of idb "b64_EncodeToString sec"]
      Cut_at [of "CHR ''_''" APIKeyPrefix "hex_EncodeToString idb @ CHR ''_'' # b64_EncodeToString sec"]
    by (simp add: raw_def numeral_3_eq_3 APIKeyPrefix_def)
  then show ?thesis
    using assms(1,2) by (simp add: splitAPIKey_def isHex_def list_all_iff hex_lower_hex)
qed

lemma TrimSpace_minted:
  "length sec = apiKeySecretBytes \<Longrightarrow>
   TrimSpace (APIKeyPrefix @ a @ b64_EncodeToString sec) = APIKeyPrefix @ a @ b64_EncodeToString sec"
proof (rule TrimSpace_id)
  assume "length sec = apiKeySecretBytes"
  then have "length (b64_EncodeToString sec) = 43"
    by (simp add: apiKeySecretBytes_def b64_EncodedLen_def)
  then have "b64_EncodeToString sec \<noteq> []" by (metis length_0_conv zero_neq_numeral)
  then have "last (APIKeyPrefix @ a @ b64_EncodeToString sec) \<in> set (b64_EncodeToString sec)" by simp
  then show "APIKeyPrefix @ a @ b64_EncodeToString sec = [] \<or>
      byte_in 33 126 (hd (APIKeyPrefix @ a @ b64_EncodeToString sec)) \<and>
      byte_in 33 126 (last (APIKeyPrefix @ a @ b64_EncodeToString sec))"
    using b64_printable by (simp add: APIKeyPrefix_def byte_class_defs)
qed

lemma lk_Verify_stored:
  assumes "wd_faults w = []" "key_at kc w ident = Some rec" "splitAPIKey (TrimSpace raw) = Some (ident, sec)"
    and "ak_Hash rec = apiKeyHash ident sec" "key_usable t rec" "TrimSpace raw \<noteq> []"
  shows "lk_Verify kc raw t w = (Inr rec, w)"
proof -
  have "lk_get kc ident w = (Inr (Some rec), w)"
    using assms(1,2) by (auto simp: lk_get_def bnd_def kv_Get_def run_simps key_at_def split: option.splits)
  with assms(3-6) show ?thesis
    by (auto simp: lk_Verify_def bnd_def key_usable_def run_ret)
qed

text \<open>Finding the row that was just appended: no earlier row has its key.\<close>

lemma find_append_new: "\<not> list_ex P xs \<Longrightarrow> P y \<Longrightarrow> find P (xs @ [y]) = Some y"
  by (induction xs) auto

lemma identity_Create_facts:
  assumes "identity_Create ident now w = (Inr idn, w')"
  obtains fs n row where "w' = w\<lparr>wd_drawn := n, wd_faults := fs, wd_identities := wd_identities w @ [row]\<rparr>"
    "id_ID row = id_ID idn" "id_PrincipalID row = id_PrincipalID ident" "id_Method row = id_Method ident"
    "id_Issuer row = id_Issuer ident" "id_Subject row = id_Subject ident"
    "id_RevokedAt row = map_option stored (id_RevokedAt ident)"
    "\<not> list_ex (\<lambda>x. id_Method x = id_Method ident \<and> id_Issuer x = id_Issuer ident \<and> id_Subject x = id_Subject ident)
         (wd_identities w)"
    "\<not> has_identity w (id_ID idn)" "has_principal w (id_PrincipalID ident)"
proof -
  from assms obtain q w1 where prep: "PrepareNewIdentity ident now w = (Inr q, w1)"
    and ins: "bnd (stmt (\<lambda>w.
              if has_identity w (id_ID q) \<or> list_ex (same_triple q) (wd_identities w) then (Inl ErrAlreadyExists, w)
              else if \<not> has_principal w (id_PrincipalID q) then (Inl ErrStoreNotFound, w)
              else (Inr (), w\<lparr>wd_identities := wd_identities w @
                     [q\<lparr>id_CreatedAt := stored (id_CreatedAt q),
                        id_RevokedAt := map_option stored (id_RevokedAt q),
                        id_LastUsedAt := map_option stored (id_LastUsedAt q)\<rparr>]\<rparr>))) (\<lambda>_. ret q) w1 = (Inr idn, w')"
    unfolding identity_Create_def by (rule bnd_InrE)
  note q = PrepareNewIdentity_facts [OF prep]
  obtain n where w1: "w1 = w\<lparr>wd_drawn := n\<rparr>"
  proof -
    have "w1 = w \<or> (\<exists>n. w1 = w\<lparr>wd_drawn := n\<rparr>)"
      using prep unfolding PrepareNewIdentity_def NewIdentityID_def NewULID_def
      by (auto simp: bnd_def draw_def ret_def fail_with_def split: if_splits)
    then show thesis using that [of "wd_drawn w"] that by auto
  qed
  define row where "row = q\<lparr>id_CreatedAt := stored (id_CreatedAt q),
                        id_RevokedAt := map_option stored (id_RevokedAt q),
                        id_LastUsedAt := map_option stored (id_LastUsedAt q)\<rparr>"
  obtain fs where "idn = q" "w' = w\<lparr>wd_drawn := n, wd_faults := fs, wd_identities := wd_identities w @ [row]\<rparr>"
    "\<not> has_identity w (id_ID q)" "\<not> list_ex (same_triple q) (wd_identities w)" "has_principal w (id_PrincipalID q)"
    using ins w1 unfolding row_def
    by (auto elim!: bnd_InrE stmt_InrE ret_InrE split: if_splits simp: has_identity_def has_principal_def)
  then show thesis
    using q by (intro that [where n = n and fs = fs and row = row]) (auto simp: row_def list_ex_iff same_triple_def)
qed

lemma bind_key_facts:
  assumes "bind_key (LocalKeys kc) p rec nm now w = (Inr idn, w')"
  shows "identity_Create (mint_identity p rec nm) now w = (Inr idn, w')"
  using assms unfolding bind_key_def
  by (auto elim!: on_err_InrE simp: fail_with_def ret_def split: prod.splits sum.splits)

lemma Keys_Mint_facts:
  assumes "Keys_Mint (LocalKeys kc) spec now w = (Inr (raw, key), w')"
  obtains p scopes fs w1 w2 idn rec where
    "find (\<lambda>q. pw_ID q = mk_PrincipalID spec) (wd_principals w) = Some p" "Principal_Active p"
    "keyScopes p (mk_Scopes spec) = Inr scopes" "w1 = w\<lparr>wd_faults := fs\<rparr>"
    "lk_Create kc \<lparr>nk_Principal = pw_ID p, nk_Scopes = scopes,
        nk_TTL = (if mk_ExpiresAt spec = 0 then 0 else time_Sub (mk_ExpiresAt spec) now)\<rparr> now w1 = (Inr (raw, rec), w2)"
    "identity_Create (mint_identity p rec (mk_Name spec)) now w2 = (Inr idn, w')"
    "ik_Scopes key = scopes" "ik_ExpiresAt key = ak_ExpiresAt rec" "ik_PrincipalID key = pw_ID p"
    "ik_ID key = ak_ID rec" "ik_IdentityID key = id_ID idn"
proof -
  from assms obtain p w1 where get: "principal_Get (mk_PrincipalID spec) w = (Inr p, w1)"
    and rest: "(if \<not> Principal_Active p then fail_with ErrPrincipalInactive
        else bnd (of_sum (keyScopes p (mk_Scopes spec))) (\<lambda>scopes. issue_key (LocalKeys kc) spec p scopes now)) w1
        = (Inr (raw, key), w')"
    unfolding Keys_Mint_def by (auto split: if_splits simp: fail_with_def elim: bnd_InrE)
  obtain fs where w1: "w1 = w\<lparr>wd_faults := fs\<rparr>" "find (\<lambda>q. pw_ID q = mk_PrincipalID spec) (wd_principals w) = Some p"
    using get by (rule principal_Get_facts)
  obtain scopes where scopes: "Principal_Active p" "keyScopes p (mk_Scopes spec) = Inr scopes"
    and issue: "issue_key (LocalKeys kc) spec p scopes now w1 = (Inr (raw, key), w')"
    using rest by (auto split: if_splits sum.splits simp: fail_with_def of_sum_def ret_def elim!: bnd_InrE)
  from issue obtain rec w2 idn where "lk_Create kc \<lparr>nk_Principal = pw_ID p, nk_Scopes = scopes,
        nk_TTL = (if mk_ExpiresAt spec = 0 then 0 else time_Sub (mk_ExpiresAt spec) now)\<rparr> now w1 = (Inr (raw, rec), w2)"
    "bind_key (LocalKeys kc) p rec (mk_Name spec) now w2 = (Inr idn, w')"
    "ik_Scopes key = scopes" "ik_ExpiresAt key = ak_ExpiresAt rec" "ik_PrincipalID key = pw_ID p"
    "ik_ID key = ak_ID rec" "ik_IdentityID key = id_ID idn"
    unfolding issue_key_def Let_def
    by (auto split: if_splits simp: fail_with_def ret_def elim!: bnd_InrE)
  with w1 scopes show thesis by (intro that) (auto dest: bind_key_facts)
qed

lemma has_identity_touched:
  "has_identity (w\<lparr>wd_identities := update_where c (\<lambda>r. r\<lparr>id_LastUsedAt := t\<rparr>) (wd_identities w)\<rparr>) i = has_identity w i"
  using arg_cong [OF map_update_where [of id_ID "\<lambda>r. r\<lparr>id_LastUsedAt := t\<rparr>" c "wd_identities w"], of set]
  by (simp add: has_identity_iff)

lemma identity_Touch_quiet:
  assumes "wd_faults w = []" "has_identity w i"
  shows "\<exists>w'. identity_Touch i t w = (Inr (), w')"
  using assms by (simp add: identity_Touch_def bnd_def run_simps identity_exists_def has_identity_touched)

lemma Keys_Verify_stored:
  assumes "wd_faults w = []" "lk_Verify kc raw t w = (Inr rec, w)"
    and "find (\<lambda>x. id_Method x = IdentityMethodAPIKey \<and> id_Issuer x = [] \<and> id_Subject x = ak_ID rec) (wd_identities w) = Some row"
    and "Identity_Active row" "id_PrincipalID row = ak_Principal rec"
    and "find (\<lambda>q. pw_ID q = ak_Principal rec) (wd_principals w) = Some p" "Principal_Active p"
  shows "\<exists>w'. Keys_Verify (LocalKeys kc) raw t w = (Inr (keyPrincipal p rec row, row), w')"
proof -
  have "has_identity w (id_ID row)"
    using assms(3) by (auto simp: has_identity_def list_ex_iff find_Some_iff)
  then obtain w' where "identity_Touch (id_ID row) t w = (Inr (), w')"
    using identity_Touch_quiet [OF assms(1)] by blast
  moreover have "identity_Find IdentityMethodAPIKey [] (ak_ID rec) w = (Inr row, w)"
    using assms(1,3) by (simp add: identity_Find_def run_simps)
  moreover have "principal_Get (ak_Principal rec) w = (Inr p, w)"
    using assms(1,6) by (simp add: principal_Get_def run_simps)
  ultimately show ?thesis
    using assms by (simp add: Keys_Verify_def bnd_def on_err_def run_ret)
qed

text \<open>
  A minted key is accepted. When a mint succeeds, presenting the returned secret at any time
  before the key's expiry resolves, on a database that answers, to the principal the key was minted
  for, with exactly the scopes the mint reported and the identity it created.
\<close>

theorem minted_key_verifies:
  assumes codec: "codec_ok kc" and mint: "Keys_Mint (LocalKeys kc) spec now w = (Inr (raw, key), w')"
    and quiet: "wd_faults w' = []" and time: "ik_ExpiresAt key = 0 \<or> t < ik_ExpiresAt key"
  shows "\<exists>p idn w''. Keys_Verify (LocalKeys kc) raw t w' = (Inr (p, idn), w'') \<and>
           ap_ID p = mk_PrincipalID spec \<and> ap_Scopes p = ik_Scopes key \<and>
           meta_str (ap_Meta p) MetaKeyID = ik_ID key \<and> id_ID idn = ik_IdentityID key"
proof -
  obtain p scopes fs w1 w2 idn rec where p: "find (\<lambda>q. pw_ID q = mk_PrincipalID spec) (wd_principals w) = Some p"
      "Principal_Active p" and scopes: "keyScopes p (mk_Scopes spec) = Inr scopes" and w1: "w1 = w\<lparr>wd_faults := fs\<rparr>"
    and create: "lk_Create kc \<lparr>nk_Principal = pw_ID p, nk_Scopes = scopes,
        nk_TTL = (if mk_ExpiresAt spec = 0 then 0 else time_Sub (mk_ExpiresAt spec) now)\<rparr> now w1 = (Inr (raw, rec), w2)"
    and bind: "identity_Create (mint_identity p rec (mk_Name spec)) now w2 = (Inr idn, w')"
    and key: "ik_Scopes key = scopes" "ik_ExpiresAt key = ak_ExpiresAt rec" "ik_PrincipalID key = pw_ID p"
      "ik_ID key = ak_ID rec" "ik_IdentityID key = id_ID idn"
    by (rule Keys_Mint_facts [OF mint])
  obtain fs2 where rec: "rec = new_record \<lparr>nk_Principal = pw_ID p, nk_Scopes = scopes,
        nk_TTL = (if mk_ExpiresAt spec = 0 then 0 else time_Sub (mk_ExpiresAt spec) now)\<rparr> now w1"
    and raw: "raw = APIKeyPrefix @ ''_'' @ next_key_id w1 @ ''_'' @ next_key_secret w1"
    and w2: "w2 = (drawn_key w1)\<lparr>wd_faults := fs2,
             wd_kv := AList.update (apiKeyStorePrefix @ next_key_id w1) (kc_Marshal kc rec) (wd_kv w1)\<rparr>"
    by (rule lk_Create_facts [OF create])
  obtain fs3 n row where w': "w' = w2\<lparr>wd_drawn := n, wd_faults := fs3, wd_identities := wd_identities w2 @ [row]\<rparr>"
    and row: "id_ID row = id_ID idn" "id_PrincipalID row = pw_ID p" "id_Method row = IdentityMethodAPIKey"
      "id_Issuer row = []" "id_Subject row = ak_ID rec" "id_RevokedAt row = None"
    and unique: "\<not> list_ex (\<lambda>x. id_Method x = IdentityMethodAPIKey \<and> id_Issuer x = [] \<and> id_Subject x = ak_ID rec)
         (wd_identities w2)"
    by (rule identity_Create_facts [OF bind]) (simp_all add: mint_identity_def)
  have find_row: "find (\<lambda>x. id_Method x = IdentityMethodAPIKey \<and> id_Issuer x = [] \<and> id_Subject x = ak_ID rec)
      (wd_identities w') = Some row"
    unfolding w' using find_append_new [OF unique, of row] row by simp
  have "pw_ID p = mk_PrincipalID spec" using p(1) by (auto simp: find_Some_iff)
  then have find_p: "find (\<lambda>q. pw_ID q = ak_Principal rec) (wd_principals w') = Some p"
    using p(1) by (simp add: w' w2 w1 rec new_record_def)
  have split: "splitAPIKey raw = Some (ak_ID rec, next_key_secret w1)" and "TrimSpace raw = raw" "raw \<noteq> []"
    using splitAPIKey_minted TrimSpace_minted [of "map (\<lambda>i. wd_rand w1 (wd_drawn w1 + apiKeyIDBytes + i)) [0..<apiKeySecretBytes]"
        "''_'' @ next_key_id w1 @ ''_''"]
    by (simp_all add: raw rec new_record_def next_key_id_def next_key_secret_def APIKeyPrefix_def)
  moreover have "key_at kc w' (ak_ID rec) = Some rec"
    using codec by (simp add: w' w2 key_at_def codec_ok_def update_conv' rec new_record_def)
  moreover have "ak_Hash rec = apiKeyHash (ak_ID rec) (next_key_secret w1)" "key_usable t rec"
    using time key(2) by (auto simp: rec new_record_def key_usable_def)
  ultimately have verify: "lk_Verify kc raw t w' = (Inr rec, w')"
    using lk_Verify_stored [OF quiet] by simp
  have "Identity_Active row" "id_PrincipalID row = ak_Principal rec"
    using row by (simp_all add: Identity_Active_def rec new_record_def)
  then obtain w'' where "Keys_Verify (LocalKeys kc) raw t w' = (Inr (keyPrincipal p rec row, row), w'')"
    using Keys_Verify_stored [OF quiet verify find_row _ _ find_p p(2)] by blast
  moreover have "scopesNamed scopes = scopes"
    using scopes by (auto simp: keyScopes_def scopesNamed_def Let_def ScopesForRoles_def split: if_splits intro!: filter_cong)
  ultimately show ?thesis
    using \<open>pw_ID p = mk_PrincipalID spec\<close> key row
    by (auto simp: keyPrincipal_def registryPrincipal_def meta_str_def rec new_record_def)
qed

end
