(* ===== verification/Auth_Session.thy ===== *)
theory Auth_Session
  imports Auth_Keys
begin

text \<open>
  Browser sessions and tickets: \<open>internal/auth/session.go\<close> (login codes, sessions, the
  \<open>session\<close> method) and \<open>internal/auth/ticket.go\<close> (invites and sign-in links). A session acts
  as the principal of the identity that minted it, is checked against the registry on every
  request and revoked on the spot when the registry has outrun it. Codes and tickets are spent by
  the statement that reads them. The JSON form of an invite's payload is the parameter
  \<open>invite_codec\<close>.
\<close>

section \<open>Sessions\<close>

record SessionOptions =
  so_IdleTTL :: int
  so_MaxTTL :: int
  so_CodeTTL :: int
  so_TouchEvery :: int

definition DefaultSessionIdleTTL :: int where "DefaultSessionIdleTTL = 12 * 3600 * second"
definition DefaultSessionMaxTTL :: int where "DefaultSessionMaxTTL = 7 * 24 * 3600 * second"
definition DefaultLoginCodeTTL :: int where "DefaultLoginCodeTTL = 60 * second"
definition DefaultSessionTouchEvery :: int where "DefaultSessionTouchEvery = 60 * second"

definition withDefaults :: "SessionOptions \<Rightarrow> SessionOptions" where
  "withDefaults opts =
     \<lparr>so_IdleTTL = (if so_IdleTTL opts \<le> 0 then DefaultSessionIdleTTL else so_IdleTTL opts),
      so_MaxTTL = (if so_MaxTTL opts \<le> 0 then DefaultSessionMaxTTL else so_MaxTTL opts),
      so_CodeTTL = (if so_CodeTTL opts \<le> 0 then DefaultLoginCodeTTL else so_CodeTTL opts),
      so_TouchEvery = (if so_TouchEvery opts \<le> 0 then DefaultSessionTouchEvery else so_TouchEvery opts)\<rparr>"

record Sessions =
  ss_keys :: "KeyIssuer option"
  ss_opts :: SessionOptions

text \<open>\<open>NewSessions\<close>: the two stores must be given; only whether they are is read here.\<close>

definition NewSessions :: "bool \<Rightarrow> bool \<Rightarrow> KeyIssuer option \<Rightarrow> SessionOptions \<Rightarrow> AuthErr + Sessions" where
  "NewSessions has_store has_auth keys opts =
     (if \<not> has_store then Inl (ErrRefused ''auth: sessions need a session store'')
      else if \<not> has_auth then Inl (ErrRefused ''auth: sessions need the principal registry'')
      else Inr \<lparr>ss_keys = keys, ss_opts = withDefaults opts\<rparr>)"

record ClientInfo =
  ci_UserAgent :: string
  ci_RemoteAddr :: string

record Minted =
  mi_Secret :: string
  mi_Session :: UISession
  mi_Principal :: AuthPrincipal

definition secretBytes :: nat where "secretBytes = 32"

definition HashSecret :: "string \<Rightarrow> string" where
  "HashSecret secret = hex_EncodeToString (sha256_Sum256 secret)"

definition randomSecret :: "string auth_op" where
  "randomSecret = bnd (draw secretBytes) (\<lambda>b. ret (b64_EncodeToString b))"

definition wellFormedSecret :: "string \<Rightarrow> bool" where
  "wellFormedSecret s \<longleftrightarrow>
     length s = b64_EncodedLen secretBytes \<and>
     (case b64_DecodeString s of None \<Rightarrow> False | Some b \<Rightarrow> length b = secretBytes)"

definition newSessionID :: "string auth_op" where
  "newSessionID = bnd (draw 12) (\<lambda>b. ret (''uis_'' @ hex_EncodeToString b))"

definition sessionPrincipal :: "PrincipalRow \<Rightarrow> Scope_name list \<Rightarrow> UISession \<Rightarrow> AuthPrincipal" where
  "sessionPrincipal p scopes sess =
     (registryPrincipal p (SessionScopesFor scopes (us_Scope sess)) MethodSession)
       \<lparr>ap_Meta := [(MetaVia, ViaSession), (MetaSessionKind, us_Scope sess), (MetaSessionID, us_ID sess),
                    (MetaIdentityID, us_IdentityID sess)]\<rparr>"

definition ErrNoIdentity :: AuthErr where
  "ErrNoIdentity = ErrInvalidCredential ''the credential has no identity to bind a session to''"

definition MintCode :: "Sessions \<Rightarrow> AuthPrincipal option \<Rightarrow> time \<Rightarrow> (string \<times> time) auth_op" where
  "MintCode ss p now =
     (case p of
        None \<Rightarrow> fail_with ErrNoCredential
      | Some q \<Rightarrow>
          if IsSession p then fail_with (ErrInvalidCredential ''a session cannot mint a session'')
          else let idn = meta_str (ap_Meta q) MetaIdentityID
               in if idn = [] then fail_with ErrNoIdentity
                  else bnd randomSecret (\<lambda>code.
                    let expires = now + so_CodeTTL (ss_opts ss)
                    in bnd (CreateLoginCode
                              \<lparr>lc_CodeHash = HashSecret code, lc_PrincipalID = ap_ID q, lc_IdentityID = idn,
                               lc_Scope = SessionKindUI, lc_CreatedAt = now, lc_ExpiresAt = expires\<rparr>)
                         (\<lambda>_. ret (code, expires))))"

text \<open>
  \<open>resolve\<close>: the principal, the identity and the scopes behind a code or a session, or an
  invalid credential when any of them is gone, revoked, suspended or mismatched.
\<close>

definition resolve_scopes :: "Sessions \<Rightarrow> PrincipalRow \<Rightarrow> Identity \<Rightarrow> Scope_name list auth_op" where
  "resolve_scopes ss p idn =
     (case ss_keys ss of None \<Rightarrow> ret (ScopesForRoles (pw_Roles p)) | Some iss \<Rightarrow> Keys_ScopesOf iss p idn)"

definition resolve :: "Sessions \<Rightarrow> string \<Rightarrow> string \<Rightarrow> (PrincipalRow \<times> Identity \<times> Scope_name list) auth_op" where
  "resolve ss identityID principalID =
     on_err (identity_Get identityID) (missing_invalid ''identity is gone'') (\<lambda>idn.
       if \<not> Identity_Active idn \<or> id_PrincipalID idn \<noteq> principalID
       then fail_with (ErrInvalidCredential ''identity was revoked'')
       else on_err (principal_Get principalID) (missing_invalid ''principal is gone'') (\<lambda>p.
         if \<not> Principal_Active p then fail_with (ErrInvalidCredential ''principal is not active'')
         else bnd (resolve_scopes ss p idn) (\<lambda>scopes. ret (p, idn, scopes))))"

definition new_session ::
    "Sessions \<Rightarrow> PrincipalRow \<Rightarrow> Identity \<Rightarrow> string \<Rightarrow> ClientInfo \<Rightarrow> time \<Rightarrow> string \<Rightarrow> string \<Rightarrow> UISession" where
  "new_session ss p idn kind ci now secret sid =
     (let expires = now + so_MaxTTL (ss_opts ss)
      in \<lparr>us_ID = sid, us_SecretHash = HashSecret secret, us_PrincipalID = pw_ID p, us_IdentityID = id_ID idn,
          us_Scope = kind, us_UserAgent = take 256 (ci_UserAgent ci), us_RemoteAddr = take 64 (ci_RemoteAddr ci),
          us_CreatedAt = now, us_LastSeenAt = now,
          us_IdleExpiresAt = min (now + so_IdleTTL (ss_opts ss)) expires, us_ExpiresAt = expires,
          us_RevokedAt = None, us_RevokeReason = []\<rparr>)"

definition mintFor ::
    "Sessions \<Rightarrow> string \<Rightarrow> string \<Rightarrow> string \<Rightarrow> ClientInfo \<Rightarrow> time \<Rightarrow> Minted auth_op" where
  "mintFor ss identityID principalID kind ci now =
     bnd (resolve ss identityID principalID) (\<lambda>(p, idn, scopes).
     bnd randomSecret (\<lambda>secret.
     bnd newSessionID (\<lambda>sid.
       let sess = new_session ss p idn kind ci now secret sid
       in bnd (session_Create sess) (\<lambda>_.
            ret \<lparr>mi_Secret = secret, mi_Session = sess, mi_Principal = sessionPrincipal p scopes sess\<rparr>))))"

definition Exchange :: "Sessions \<Rightarrow> string \<Rightarrow> ClientInfo \<Rightarrow> time \<Rightarrow> Minted auth_op" where
  "Exchange ss code ci now =
     (if code = [] then fail_with ErrNoCredential
      else on_err (ConsumeLoginCode (HashSecret code) now)
        (\<lambda>e. fail_with (if is_not_found e then ErrInvalidCredential ''invalid credential'' else e))
        (\<lambda>lc. if lc_CodeHash lc \<noteq> HashSecret code then fail_with (ErrInvalidCredential ''invalid credential'')
              else mintFor ss (lc_IdentityID lc) (lc_PrincipalID lc) (lc_Scope lc) ci now))"

definition MintFor :: "Sessions \<Rightarrow> string \<Rightarrow> string \<Rightarrow> ClientInfo \<Rightarrow> time \<Rightarrow> Minted auth_op" where
  "MintFor ss principalID identityID ci now = mintFor ss identityID principalID SessionKindUI ci now"

definition Sessions_ListByPrincipal :: "string \<Rightarrow> bool \<Rightarrow> time \<Rightarrow> UISession list auth_op" where
  "Sessions_ListByPrincipal pid everything now =
     session_List \<lparr>uf_ActiveOnly = \<not> everything, uf_Now = now, uf_PrincipalID = pid, uf_Limit = 0\<rparr>"

definition session_active ::
    "Sessions \<Rightarrow> string \<Rightarrow> time \<Rightarrow> (UISession \<times> PrincipalRow \<times> Scope_name list) auth_op" where
  "session_active ss hash now =
     on_err (session_Lookup hash now) (missing_invalid ''invalid credential'') (\<lambda>sess.
     on_err (resolve ss (us_IdentityID sess) (us_PrincipalID sess))
       (\<lambda>e. if is_invalid e
             then bnd (session_Revoke (us_ID sess) now RevokeReasonIdentityRevoked) (\<lambda>_. fail_with e)
             else fail_with e)
       (\<lambda>(p, idn, scopes). ret (sess, p, scopes)))"

definition Sessions_Authenticate :: "Sessions \<Rightarrow> string \<Rightarrow> time \<Rightarrow> (AuthPrincipal \<times> UISession) auth_op" where
  "Sessions_Authenticate ss secret now =
     (if secret = [] then fail_with ErrNoCredential
      else bnd (session_active ss (HashSecret secret) now) (\<lambda>(sess, p, scopes).
        if time_Sub now (us_LastSeenAt sess) \<ge> so_TouchEvery (ss_opts ss)
        then bnd (session_Touch (us_ID sess) now (now + so_IdleTTL (ss_opts ss))) (\<lambda>_.
          let sess' = sess\<lparr>us_LastSeenAt := now,
                           us_IdleExpiresAt := min (now + so_IdleTTL (ss_opts ss)) (us_ExpiresAt sess)\<rparr>
          in ret (sessionPrincipal p scopes sess', sess'))
        else ret (sessionPrincipal p scopes sess, sess)))"

definition Sessions_Check :: "Sessions \<Rightarrow> string \<Rightarrow> time \<Rightarrow> unit auth_op" where
  "Sessions_Check ss hash now = bnd (session_active ss hash now) (\<lambda>_. ret ())"

definition Sessions_Revoke :: "string \<Rightarrow> string \<Rightarrow> time \<Rightarrow> unit auth_op" where
  "Sessions_Revoke sid reason now = session_Revoke sid now reason"

definition SessionMethod_Authenticate :: "Sessions \<Rightarrow> Credential \<Rightarrow> time \<Rightarrow> AuthPrincipal option auth_op" where
  "SessionMethod_Authenticate ss cred now =
     (if cr_Cookie cred = [] then ret None
      else if \<not> wellFormedSecret (cr_Cookie cred) then fail_with (ErrInvalidCredential ''malformed session cookie'')
      else on_err (Sessions_Authenticate ss (cr_Cookie cred) now)
             (\<lambda>e. if is_invalid e then ret None else fail_with e)
             (\<lambda>r. ret (Some (fst r))))"

section \<open>Tickets\<close>

definition DefaultInviteTTL :: int where "DefaultInviteTTL = 7 * 24 * 3600 * second"
definition MagicLinkTTL :: int where "MagicLinkTTL = 600 * second"

record InvitePayload =
  ip_DisplayName :: string
  ip_AudienceID :: string

record invite_codec =
  ic_Marshal :: "InvitePayload \<Rightarrow> string"
  ic_Unmarshal :: "string \<Rightarrow> InvitePayload option"

record Invite =
  iv_DisplayName :: string
  iv_AudienceID :: string
  iv_TTL :: int

record Issued =
  is_Secret :: string
  is_ExpiresAt :: time

record Tickets =
  ts_sessions :: Sessions
  ts_sharing :: bool
  ts_codec :: invite_codec

definition ErrInvalidTicket :: AuthErr where
  "ErrInvalidTicket = ErrInvalidCredential ''ticket is unknown, used or expired''"

text \<open>The audience check of both invite operations: a sharing registry and a known audience.\<close>

definition check_audience :: "Tickets \<Rightarrow> string \<Rightarrow> string \<Rightarrow> unit auth_op" where
  "check_audience ts missing aud =
     (if aud = [] then ret ()
      else if \<not> ts_sharing ts then fail_with (ErrRefused missing)
      else bnd (audience_Get aud) (\<lambda>_. ret ()))"

definition MintInvite :: "Tickets \<Rightarrow> AuthPrincipal option \<Rightarrow> Invite \<Rightarrow> time \<Rightarrow> Issued auth_op" where
  "MintInvite ts by_p iv now =
     (case by_p of
        None \<Rightarrow> fail_with ErrNoCredential
      | Some issuer \<Rightarrow>
          let name = TrimSpace (iv_DisplayName iv);
              ttl = (if iv_TTL iv = 0 then DefaultInviteTTL else iv_TTL iv)
          in if name = [] then fail_with (ErrRefused ''auth: an invite needs the display name of the person invited'')
             else if iv_TTL iv < 0 then fail_with (ErrRefused ''auth: invite expiry must be positive'')
             else bnd (check_audience ts
                      ''auth: this instance has no sharing registry; an invite cannot name an audience'' (iv_AudienceID iv)) (\<lambda>_.
               bnd (ticket_Issue
                      \<lparr>ti_Kind = TicketKindInvite,
                       ti_Payload = ic_Marshal (ts_codec ts) \<lparr>ip_DisplayName = name, ip_AudienceID = iv_AudienceID iv\<rparr>,
                       ti_TTL = ttl, ti_CreatedBy = ap_ID issuer, ti_PrincipalID = [], ti_Now = now\<rparr> now)
                 (\<lambda>secret. ret \<lparr>is_Secret = secret, is_ExpiresAt = now + ttl\<rparr>)))"

definition MintLink :: "AuthPrincipal option \<Rightarrow> string \<Rightarrow> time \<Rightarrow> Issued auth_op" where
  "MintLink by_p principalID now =
     (case by_p of
        None \<Rightarrow> fail_with ErrNoCredential
      | Some issuer \<Rightarrow>
          bnd (principal_Get principalID) (\<lambda>p.
            if \<not> Principal_Active p then fail_with ErrPrincipalInactive
            else bnd (ticket_Issue
                        \<lparr>ti_Kind = TicketKindMagicLink, ti_Payload = [], ti_TTL = MagicLinkTTL,
                         ti_CreatedBy = ap_ID issuer, ti_PrincipalID = pw_ID p, ti_Now = now\<rparr> now)
                   (\<lambda>secret. ret \<lparr>is_Secret = secret, is_ExpiresAt = now + MagicLinkTTL\<rparr>)))"

definition redeem :: "string \<Rightarrow> string \<Rightarrow> time \<Rightarrow> Ticket auth_op" where
  "redeem kind secret now =
     (if secret = [] then fail_with ErrNoCredential
      else on_err (ticket_Redeem kind secret now)
             (\<lambda>e. fail_with (if is_not_found e \<or> is_inactive e then ErrInvalidTicket else e)) ret)"

definition link_identity :: "string \<Rightarrow> string \<Rightarrow> string \<Rightarrow> time \<Rightarrow> Identity" where
  "link_identity principalID subject nm now =
     \<lparr>id_ID = [], id_PrincipalID = principalID, id_Method = IdentityMethodLink, id_Issuer = [],
      id_Subject = subject, id_Name = nm, id_CreatedAt = now, id_RevokedAt = None, id_LastUsedAt = None\<rparr>"

definition bindAndMint :: "Tickets \<Rightarrow> string \<Rightarrow> string \<Rightarrow> string \<Rightarrow> time \<Rightarrow> ClientInfo \<Rightarrow> Minted auth_op" where
  "bindAndMint ts principalID subject nm now ci =
     bnd (identity_Create (link_identity principalID subject nm now) now) (\<lambda>idn.
       MintFor (ts_sessions ts) principalID (id_ID idn) ci now)"

definition invited_person :: "string \<Rightarrow> time \<Rightarrow> PrincipalRow" where
  "invited_person nm now =
     \<lparr>pw_ID = [], pw_Kind = PrincipalKindPerson, pw_DisplayName = nm, pw_Roles = [], pw_Status = [],
      pw_CreatedAt = now, pw_RevokedAt = None\<rparr>"

definition RedeemInvite :: "Tickets \<Rightarrow> string \<Rightarrow> ClientInfo \<Rightarrow> time \<Rightarrow> Minted auth_op" where
  "RedeemInvite ts secret ci now =
     bnd (redeem TicketKindInvite secret now) (\<lambda>tk.
       case ic_Unmarshal (ts_codec ts) (tk_Payload tk) of
         None \<Rightarrow> fail_with (ErrRefused ''auth: decode invite'')
       | Some payload \<Rightarrow>
           bnd (check_audience ts ''auth: invite names an audience but this instance has no sharing registry'' (ip_AudienceID payload)) (\<lambda>_.
           bnd (principal_Create (invited_person (ip_DisplayName payload) now) now) (\<lambda>p.
           bnd (if ip_AudienceID payload = [] then ret ()
                else audience_AddMember
                       \<lparr>mem_AudienceID = ip_AudienceID payload, mem_PrincipalID = pw_ID p, mem_ExpiresAt = None,
                        mem_AddedBy = tk_CreatedBy tk, mem_AddedAt = now\<rparr> now) (\<lambda>_.
             bindAndMint ts (pw_ID p) (TicketHash secret) ''invite'' now ci))))"

definition RedeemLink :: "Tickets \<Rightarrow> string \<Rightarrow> ClientInfo \<Rightarrow> time \<Rightarrow> Minted auth_op" where
  "RedeemLink ts secret ci now =
     bnd (redeem TicketKindMagicLink secret now) (\<lambda>tk.
       bindAndMint ts (tk_PrincipalID tk) (TicketHash secret) ''sign-in link'' now ci)"

section \<open>What sign-in may do to the database\<close>

definition local_sessions :: "key_codec \<Rightarrow> Sessions \<Rightarrow> bool" where
  "local_sessions kc ss \<longleftrightarrow> ss_keys ss = None \<or> ss_keys ss = Some (LocalKeys kc)"

context signin_order
begin

lemma secrets: "obeys R randomSecret" "obeys R newSessionID"
  unfolding randomSecret_def newSessionID_def by (intro op_rules)+

lemma resolve_scopes: "local_sessions kc ss \<Longrightarrow> obeys R (resolve_scopes ss p idn)"
  unfolding resolve_scopes_def local_sessions_def
  by (auto intro: ret lk.ScopesOf_order [OF world_order_axioms])

lemma resolve: "local_sessions kc ss \<Longrightarrow> obeys R (resolve ss i pid)"
  unfolding resolve_def missing_invalid_def by (intro op_rules reads resolve_scopes)

lemma MintCode: "obeys R (MintCode ss p now)"
  unfolding MintCode_def Let_def
  by (auto split: option.split intro!: op_rules secrets CreateLoginCode)

lemma new_session_bounded:
  "us_IdleExpiresAt (new_session ss p idn kind ci now secret sid) \<le> us_ExpiresAt (new_session ss p idn kind ci now secret sid)"
  by (simp add: new_session_def Let_def)

lemma mintFor: "local_sessions kc ss \<Longrightarrow> obeys R (mintFor ss i pid kind ci now)"
  unfolding mintFor_def Let_def
  by (auto intro!: bnd resolve secrets ret session_Create new_session_bounded split: prod.split)

lemma Exchange: "local_sessions kc ss \<Longrightarrow> obeys R (Exchange ss code ci now)"
  unfolding Exchange_def by (intro op_rules ConsumeLoginCode mintFor)

lemma MintFor: "local_sessions kc ss \<Longrightarrow> obeys R (MintFor ss pid i ci now)"
  unfolding MintFor_def by (rule mintFor)

lemma session_active: "local_sessions kc ss \<Longrightarrow> obeys R (session_active ss hash now)"
  unfolding session_active_def missing_invalid_def
  by (auto intro!: on_err fail reads resolve bnd session_Revoke ret split: prod.split)

lemma Sessions_Authenticate: "local_sessions kc ss \<Longrightarrow> obeys R (Sessions_Authenticate ss secret now)"
  unfolding Sessions_Authenticate_def Let_def
  by (auto intro!: fail bnd session_active session_Touch ret split: prod.split)

lemma SessionMethod: "local_sessions kc ss \<Longrightarrow> obeys R (SessionMethod_Authenticate ss cred now)"
  unfolding SessionMethod_Authenticate_def by (intro op_rules Sessions_Authenticate)

lemma Sessions_Check: "local_sessions kc ss \<Longrightarrow> obeys R (Sessions_Check ss hash now)"
  unfolding Sessions_Check_def by (intro op_rules session_active)

lemma check_audience: "obeys R (check_audience ts missing aud)"
  unfolding check_audience_def by (intro op_rules reads)

lemma MintInvite: "obeys R (MintInvite ts by_p iv now)"
  unfolding MintInvite_def Let_def
  by (auto split: option.split intro!: op_rules check_audience ticket_Issue)

lemma MintLink: "obeys R (MintLink by_p pid now)"
  unfolding MintLink_def by (auto split: option.split intro!: op_rules reads ticket_Issue)

lemma redeem: "obeys R (redeem kind secret now)"
  unfolding redeem_def by (intro op_rules ticket_Redeem)

lemma bindAndMint: "local_sessions kc (ts_sessions ts) \<Longrightarrow> obeys R (bindAndMint ts pid subject nm now ci)"
  unfolding bindAndMint_def
  by (intro bnd link_Create MintFor) (simp_all add: link_identity_def IdentityMethodLink_def IdentityMethodAPIKey_def)

lemma RedeemLink: "local_sessions kc (ts_sessions ts) \<Longrightarrow> obeys R (RedeemLink ts secret ci now)"
  unfolding RedeemLink_def by (intro bnd redeem bindAndMint)

lemma RedeemInvite: "local_sessions kc (ts_sessions ts) \<Longrightarrow> obeys R (RedeemInvite ts secret ci now)"
  unfolding RedeemInvite_def
  by (rule bnd [OF redeem])
     (auto split: option.split
           intro!: op_rules check_audience principal_Create audience_AddMember bindAndMint)

end

lemma on_missing_InrE:
  assumes "on_err m (missing_invalid s) f w = (Inr y, w')"
  obtains x w1 where "m w = (Inr x, w1)" "f x w1 = (Inr y, w')"
  using assms by (rule on_err_InrE) (auto simp: missing_invalid_def fail_with_def intro: that)

section \<open>Whoever a session resolves to is active and within its roles\<close>

lemma principal_unique:
  assumes "db_ok w" "p \<in> set (wd_principals w)" "q \<in> set (wd_principals w)" "pw_ID p = pw_ID q"
  shows "p = q"
proof -
  have "inj_on pw_ID (set (wd_principals w))"
    using assms(1) by (simp add: db_ok_def principals_ok_def distinct_map)
  then show ?thesis by (rule inj_onD) fact+
qed

lemma identity_unique:
  assumes "db_ok w" "i \<in> set (wd_identities w)" "j \<in> set (wd_identities w)" "id_ID i = id_ID j"
  shows "i = j"
proof -
  have "inj_on id_ID (set (wd_identities w))"
    using assms(1) by (simp add: db_ok_def identities_ok_def distinct_map)
  then show ?thesis by (rule inj_onD) fact+
qed

lemma ScopesOf_within:
  assumes "Keys_ScopesOf (LocalKeys kc) p idn w = (Inr scopes, w')" "db_ok w" "keys_ok kc w"
    and "p \<in> set (wd_principals w)" "idn \<in> set (wd_identities w)" "id_PrincipalID idn = pw_ID p"
  shows "set scopes \<subseteq> set (ScopesForRoles (pw_Roles p))"
  using lk.ScopesOf_sound [OF assms(1)]
proof (elim disjE exE conjE)
  fix rec
  assume rec: "id_Method idn = IdentityMethodAPIKey" "key_at kc w (id_Subject idn) = Some rec"
    and scopes: "scopes = scopesNamed (ak_Scopes rec)"
  have own: "ak_Principal rec = pw_ID p"
    using assms(3,5,6) rec by (auto simp: keys_ok_def)
  obtain q where q: "q \<in> set (wd_principals w)" "pw_ID q = ak_Principal rec"
    "set (ak_Scopes rec) \<subseteq> set (ScopesForRoles (pw_Roles q))"
    using assms(3) rec(2) unfolding keys_ok_def record_ok_def by blast
  have "q = p"
    by (rule principal_unique [OF assms(2) q(1) assms(4)]) (simp add: own q(2))
  then have "set (ak_Scopes rec) \<subseteq> set (ScopesForRoles (pw_Roles p))" using q(3) by simp
  with scopes show ?thesis by (auto simp: scopesNamed_iff)
qed simp_all

lemma resolve_facts:
  assumes "resolve ss i pid w = (Inr (p, idn, scopes), w')" "local_sessions kc ss"
  obtains "p \<in> set (wd_principals w)" "pw_ID p = pid" "Principal_Active p" "idn \<in> set (wd_identities w)"
    "id_ID idn = i" "id_PrincipalID idn = pid" "Identity_Active idn"
    "db_ok w \<Longrightarrow> keys_ok kc w \<Longrightarrow> set scopes \<subseteq> set (ScopesForRoles (pw_Roles p))"
proof -
  from assms(1) obtain x w1 where get: "identity_Get i w = (Inr x, w1)"
    and rest: "(if \<not> Identity_Active x \<or> id_PrincipalID x \<noteq> pid
       then fail_with (ErrInvalidCredential ''identity was revoked'')
       else on_err (principal_Get pid) (missing_invalid ''principal is gone'') (\<lambda>p.
         if \<not> Principal_Active p then fail_with (ErrInvalidCredential ''principal is not active'')
         else bnd (resolve_scopes ss p x) (\<lambda>scopes. ret (p, x, scopes)))) w1 = (Inr (p, idn, scopes), w')"
    unfolding resolve_def by (rule on_missing_InrE)
  obtain fs where w1: "w1 = w\<lparr>wd_faults := fs\<rparr>" and x: "x \<in> set (wd_identities w)" "id_ID x = i"
    using get by (rule identity_Get_facts)
  have xact: "Identity_Active x" "id_PrincipalID x = pid"
    using rest by (auto split: if_splits simp: fail_with_def)
  with rest have "on_err (principal_Get pid) (missing_invalid ''principal is gone'') (\<lambda>p.
         if \<not> Principal_Active p then fail_with (ErrInvalidCredential ''principal is not active'')
         else bnd (resolve_scopes ss p x) (\<lambda>scopes. ret (p, x, scopes))) w1 = (Inr (p, idn, scopes), w')"
    by simp
  then obtain q w2 where getp: "principal_Get pid w1 = (Inr q, w2)"
    and rest2: "(if \<not> Principal_Active q then fail_with (ErrInvalidCredential ''principal is not active'')
         else bnd (resolve_scopes ss q x) (\<lambda>scopes. ret (q, x, scopes))) w2 = (Inr (p, idn, scopes), w')"
    by (rule on_missing_InrE)
  have q: "p = q" "x = idn" "Principal_Active q" and sc: "resolve_scopes ss q x w2 = (Inr scopes, w')"
    using rest2 by (auto split: if_splits simp: fail_with_def ret_def elim!: bnd_InrE)
  note idn = x [unfolded q] and act = xact [unfolded q] and pact = q(3) [folded q(1)] and sc = sc [folded q(1), unfolded q(2)]
  obtain fs2 where w2: "w2 = w1\<lparr>wd_faults := fs2\<rparr>" and p: "p \<in> set (wd_principals w1)" "pw_ID p = pid"
    using getp q(1) by (auto elim: principal_Get_facts)
  have "set scopes \<subseteq> set (ScopesForRoles (pw_Roles p))" if "db_ok w" "keys_ok kc w"
  proof (cases "ss_keys ss")
    case None
    with sc show ?thesis by (simp add: resolve_scopes_def ret_def)
  next
    case (Some iss)
    with assms(2) sc have "Keys_ScopesOf (LocalKeys kc) p idn w2 = (Inr scopes, w')"
      by (simp add: resolve_scopes_def local_sessions_def)
    then show ?thesis
      by (rule ScopesOf_within) (use that p idn act w1 w2 in simp_all)
  qed
  with p act pact idn w1 show thesis by (intro that) simp_all
qed

lemma session_active_facts:
  assumes "session_active ss hash now w = (Inr (sess, p, scopes), w')" "local_sessions kc ss"
  obtains idn where "sess \<in> set (wd_sessions w)" "us_SecretHash sess = hash" "session_live now sess"
    "p \<in> set (wd_principals w)" "pw_ID p = us_PrincipalID sess" "Principal_Active p"
    "idn \<in> set (wd_identities w)" "id_ID idn = us_IdentityID sess" "Identity_Active idn"
    "db_ok w \<Longrightarrow> keys_ok kc w \<Longrightarrow> set scopes \<subseteq> set (ScopesForRoles (pw_Roles p))"
proof -
  from assms(1) obtain x w1 where look: "session_Lookup hash now w = (Inr x, w1)"
    and rest: "on_err (resolve ss (us_IdentityID x) (us_PrincipalID x))
       (\<lambda>e. if is_invalid e
             then bnd (session_Revoke (us_ID x) now RevokeReasonIdentityRevoked) (\<lambda>_. fail_with e)
             else fail_with e)
       (\<lambda>(p, idn, scopes). ret (x, p, scopes)) w1 = (Inr (sess, p, scopes), w')"
    unfolding session_active_def by (rule on_missing_InrE)
  obtain fs where w1: "w1 = w\<lparr>wd_faults := fs\<rparr>" and x: "x \<in> set (wd_sessions w)" "us_SecretHash x = hash" "session_live now x"
    using look by (rule session_Lookup_facts)
  from rest obtain idn w2 where "x = sess"
    and res: "resolve ss (us_IdentityID sess) (us_PrincipalID sess) w1 = (Inr (p, idn, scopes), w2)"
    by (rule on_err_InrE) (auto simp: fail_with_def ret_def split: if_splits elim!: bnd_InrE)
  from resolve_facts [OF res assms(2)] x w1 \<open>x = sess\<close> show thesis
    by (intro that [of idn]) (auto simp: auth_world.defs)
qed

text \<open>What a successful authentication stands for: an active row and no more than its roles.\<close>

definition vouched :: "auth_world \<Rightarrow> AuthPrincipal \<Rightarrow> bool" where
  "vouched w ap \<longleftrightarrow>
     (\<exists>p \<in> set (wd_principals w).
        pw_ID p = ap_ID ap \<and> pw_Kind p = ap_Kind ap \<and> Principal_Active p \<and>
        set (ap_Scopes ap) \<subseteq> set (ScopesForRoles (pw_Roles p)) \<union> set sessionOnlyScopes)"

lemma Sessions_Authenticate_vouched:
  assumes "Sessions_Authenticate ss secret now w = (Inr (ap, sess), w')" "local_sessions kc ss" "db_ok w" "keys_ok kc w"
  shows "vouched w ap"
proof -
  from assms(1) obtain s0 p scopes w1 where active: "session_active ss (HashSecret secret) now w = (Inr (s0, p, scopes), w1)"
    and ap: "ap_ID ap = pw_ID p" "ap_Kind ap = pw_Kind p" "ap_Scopes ap = SessionScopesFor scopes (us_Scope s0)"
    unfolding Sessions_Authenticate_def Let_def
    by (auto split: if_splits prod.splits simp: fail_with_def ret_def sessionPrincipal_def registryPrincipal_def
             elim!: bnd_InrE)
  from session_active_facts [OF active assms(2)] assms(3,4)
  have "p \<in> set (wd_principals w)" "Principal_Active p" "set scopes \<subseteq> set (ScopesForRoles (pw_Roles p))"
    by blast+
  with ap SessionScopesFor_within [of scopes "us_Scope s0"] show ?thesis
    unfolding vouched_def by (intro bexI [of _ p]) auto
qed

lemma Keys_Verify_vouched:
  assumes "Keys_Verify (LocalKeys kc) raw now w = (Inr (ap, idn), w')" "db_ok w" "keys_ok kc w"
  shows "vouched w ap"
proof -
  obtain rec i p where rec: "key_at kc w i = Some rec" and p: "p \<in> set (wd_principals w)" "pw_ID p = ak_Principal rec"
    "Principal_Active p" and ap: "ap = keyPrincipal p rec idn"
    using assms(1) by (rule lk.Verify_sound)
  obtain q where "q \<in> set (wd_principals w)" "pw_ID q = ak_Principal rec"
    "set (ak_Scopes rec) \<subseteq> set (ScopesForRoles (pw_Roles q))"
    using assms(3) rec unfolding keys_ok_def record_ok_def by blast
  moreover have "q = p"
    using principal_unique [OF assms(2) calculation(1) p(1)] calculation(2) p(2) by simp
  ultimately show ?thesis
    using p unfolding vouched_def
    by (intro bexI [of _ p]) (auto simp: ap keyPrincipal_def registryPrincipal_def scopesNamed_iff)
qed

lemma configMatch_vouched:
  assumes "configMatch cfg raw now w = (Inr (Some ap), w')"
  shows "vouched w ap"
proof -
  obtain hit p w1 where "principal_Get (ck_Principal hit) w = (Inr p, w1)" "Principal_Active p" "ap = config_principal p hit"
    using assms unfolding configMatch_def
    by (auto split: option.splits if_splits simp: fail_with_def ret_def elim!: on_missing_InrE)
  then show ?thesis
    unfolding vouched_def
    by (elim principal_Get_facts, intro bexI [of _ p])
       (auto simp: config_principal_def registryPrincipal_def Let_def intersectScopes_def)
qed

section \<open>Codes and tickets work once\<close>

definition same_codes :: "auth_world \<Rightarrow> auth_world \<Rightarrow> bool" where
  "same_codes w w' \<longleftrightarrow> wd_codes w' = wd_codes w"

interpretation cod: world_order same_codes
  by unfold_locales (auto simp: same_codes_def)

lemma mintFor_same_codes:
  assumes "local_sessions kc ss"
  shows "obeys same_codes (mintFor ss i pid kind ci now)"
proof -
  have "obeys same_codes (resolve ss i pid)"
    using assms unfolding resolve_def missing_invalid_def resolve_scopes_def local_sessions_def
    by (auto intro!: cod.op_rules cod.reads lk.ScopesOf_order cod.world_order_axioms)
  moreover have "obeys same_codes (session_Create sess)" for sess
    unfolding session_Create_def by (rule cod.stmt) (auto simp: same_codes_def)
  moreover have "obeys same_codes randomSecret" "obeys same_codes newSessionID"
    unfolding randomSecret_def newSessionID_def by (intro cod.op_rules)+
  ultimately show ?thesis
    unfolding mintFor_def Let_def by (auto intro!: cod.bnd cod.ret split: prod.split)
qed

lemma ConsumeLoginCode_facts:
  assumes "ConsumeLoginCode hash now w = (Inr c, w')"
  shows "find (\<lambda>x. lc_CodeHash x = hash) (wd_codes w) = Some c" "now < lc_ExpiresAt c"
    "wd_codes w' = filter (\<lambda>x. lc_CodeHash x \<noteq> hash) (wd_codes w)"
  using assms unfolding ConsumeLoginCode_def
  by (auto split: option.splits if_splits simp: fail_with_def ret_def elim!: bnd_InrE stmt_InrE)

text \<open>
  A login code signs in at most one browser. Once an exchange of a code has succeeded, every
  later exchange of the same code fails, whatever the client and the clock, as long as no code with
  the same hash has been stored in between.
\<close>

theorem login_code_single_use:
  assumes "local_sessions kc ss" "Exchange ss code ci now w = (Inr m, w')"
    and "set (wd_codes w'') \<subseteq> set (wd_codes w')"
  shows "\<exists>e. fst (Exchange ss code ci2 now2 w'') = Inl e"
proof -
  from assms(2) obtain lc w1 where consume: "ConsumeLoginCode (HashSecret code) now w = (Inr lc, w1)"
    and mint: "mintFor ss (lc_IdentityID lc) (lc_PrincipalID lc) (lc_Scope lc) ci now w1 = (Inr m, w')"
    unfolding Exchange_def
    by (auto split: if_splits simp: fail_with_def elim!: on_err_InrE)
  have "wd_codes w' = filter (\<lambda>x. lc_CodeHash x \<noteq> HashSecret code) (wd_codes w)"
    using ConsumeLoginCode_facts(3) [OF consume] obeysD [OF mintFor_same_codes [OF assms(1)] mint]
    by (simp add: same_codes_def)
  with assms(3) have none: "find (\<lambda>x. lc_CodeHash x = HashSecret code) (wd_codes w'') = None"
    by (auto simp: find_None_iff)
  have "\<exists>e w3. ConsumeLoginCode (HashSecret code) now2 w'' = (Inl e, w3)"
  proof (cases "ConsumeLoginCode (HashSecret code) now2 w''")
    case (Pair r w3)
    with none show ?thesis using ConsumeLoginCode_facts(1) [of "HashSecret code" now2 w''] by (cases r) auto
  qed
  then show ?thesis by (auto simp: Exchange_def on_err_def fail_with_def)
qed

lemma ticket_redeem_update_facts:
  assumes "ticket_redeem_update kind hash now w = (Inr (Some t), w')"
  shows "map_of (wd_tickets w') hash = Some t" "tk_RedeemedAt t \<noteq> None"
    "\<exists>t0. map_of (wd_tickets w) hash = Some t0 \<and> ticket_open kind now t0 \<and> ticket_principal_active w t0"
  using assms unfolding ticket_redeem_update_def
  by (auto split: option.splits if_splits simp: Let_def update_conv' ticket_principal_active_def elim!: stmt_InrE)

lemma redeem_facts:
  assumes "redeem kind secret now w = (Inr t, w')"
  shows "map_of (wd_tickets w') (TicketHash secret) = Some t" "tk_RedeemedAt t \<noteq> None"
    "\<exists>t0. map_of (wd_tickets w) (TicketHash secret) = Some t0 \<and> ticket_open kind now t0 \<and> ticket_principal_active w t0"
proof -
  have "\<exists>w1. ticket_redeem_update kind (TicketHash secret) now w = (Inr (Some t), w')"
    using assms unfolding redeem_def ticket_Redeem_def ticket_miss_def
    by (auto split: if_splits option.splits simp: fail_with_def ret_def elim!: on_err_InrE bnd_InrE query_InrE)
  then show "map_of (wd_tickets w') (TicketHash secret) = Some t" "tk_RedeemedAt t \<noteq> None"
    "\<exists>t0. map_of (wd_tickets w) (TicketHash secret) = Some t0 \<and> ticket_open kind now t0 \<and> ticket_principal_active w t0"
    using ticket_redeem_update_facts by auto
qed

lemma redeemed_stays:
  assumes "registry_order w w'" "db_ok w'" "map_of (wd_tickets w) h = Some t" "tk_RedeemedAt t \<noteq> None"
  shows "\<exists>t'. map_of (wd_tickets w') h = Some t' \<and> tk_RedeemedAt t' \<noteq> None"
proof -
  have "(h, t) \<in> set (wd_tickets w)" using assms(3) by (rule map_of_SomeD)
  with assms(1) obtain y where y: "y \<in> set (wd_tickets w')" "ticket_step (h, t) y"
    unfolding registry_order_def by (blast dest: evolvesD)
  then have "(h, snd y) \<in> set (wd_tickets w')" "tk_RedeemedAt (snd y) \<noteq> None"
    using assms(4) by (cases y, auto simp: ticket_step_def)+
  then show ?thesis
    using assms(2) by (auto simp: db_ok_def intro: map_of_is_SomeI)
qed

text \<open>
  C18: an invite or sign-in link works at most once. After a redemption has succeeded, every later
  redemption of the same secret, of either kind and at any time, fails in every state the registry
  can have evolved to.
\<close>

theorem ticket_single_use:
  assumes "redeem kind secret now w = (Inr t, w')" "registry_order w' w''" "db_ok w''"
  shows "\<exists>e. fst (redeem kind2 secret now2 w'') = Inl e"
proof -
  obtain t' where t': "map_of (wd_tickets w'') (TicketHash secret) = Some t'" "tk_RedeemedAt t' \<noteq> None"
    using redeemed_stays [OF assms(2,3) redeem_facts(1,2)] assms(1) by blast
  show ?thesis
  proof (cases "redeem kind2 secret now2 w''")
    case (Pair r w3)
    show ?thesis
    proof (cases r)
      case (Inr t2)
      with Pair have "redeem kind2 secret now2 w'' = (Inr t2, w3)" by simp
      from redeem_facts(3) [OF this] t' show ?thesis by (auto simp: ticket_open_def)
    qed (use Pair in simp)
  qed
qed

end
