(* ===== verification/Auth_Chain.thy ===== *)
theory Auth_Chain
  imports Auth_Session
begin

text \<open>
  The method chain of \<open>internal/auth/chain.go\<close> and the authentication an instance builds over it
  (\<open>buildAuth\<close> and \<open>newUISessions\<close> of \<open>internal/server/stack/stack.go\<close>). The interface
  \<open>Method\<close> is the locale \<open>auth_method\<close>, interpreted on the \<open>api_key\<close> and the \<open>session\<close> method. The
  last part runs the whole of authentication as a state machine: every operation a command, a
  request or a sign-in page can perform is an event, and the theorems hold in every state a
  history of events reaches, with database failures anywhere.
\<close>

section \<open>Methods and chains\<close>

record AuthMethod =
  am_Name :: string
  am_Ambient :: bool
  am_Authenticate :: "Credential \<Rightarrow> time \<Rightarrow> AuthPrincipal option auth_op"

record Result =
  re_Principal :: "AuthPrincipal option"
  re_Method :: string
  re_Ambient :: bool
  re_ClearCookie :: bool

record Chain =
  ch_methods :: "AuthMethod list"

definition APIKeyMethod :: "KeyIssuer \<Rightarrow> ConfigKey list \<Rightarrow> AuthMethod" where
  "APIKeyMethod iss cfg =
     \<lparr>am_Name = MethodAPIKey, am_Ambient = False, am_Authenticate = APIKeyMethod_Authenticate iss cfg\<rparr>"

definition SessionMethod :: "Sessions \<Rightarrow> AuthMethod" where
  "SessionMethod ss =
     \<lparr>am_Name = MethodSession, am_Ambient = True, am_Authenticate = SessionMethod_Authenticate ss\<rparr>"

definition NewChain :: "AuthMethod list \<Rightarrow> Chain" where
  "NewChain methods = \<lparr>ch_methods = filter (\<lambda>m. \<not> am_Ambient m) methods @ filter am_Ambient methods\<rparr>"

text \<open>\<open>byName\<close> is filled in order, so a later method of the same name stands.\<close>

definition by_name :: "AuthMethod list \<Rightarrow> string \<Rightarrow> AuthMethod option" where
  "by_name available nm = find (\<lambda>m. am_Name m = nm) (rev available)"

fun pick_methods :: "AuthMethod list \<Rightarrow> string list \<Rightarrow> AuthErr + AuthMethod list" where
  "pick_methods available [] = Inr []"
| "pick_methods available (nm # names) =
     (case by_name available nm of
        None \<Rightarrow> Inl (ErrRefused ''auth: method is configured but not available on this build'')
      | Some m \<Rightarrow> (case pick_methods available names of Inl e \<Rightarrow> Inl e | Inr ms \<Rightarrow> Inr (m # ms)))"

definition ChainFor :: "string list \<Rightarrow> AuthMethod list \<Rightarrow> AuthErr + Chain" where
  "ChainFor names available =
     (case pick_methods available names of Inl e \<Rightarrow> Inl e | Inr ms \<Rightarrow> Inr (NewChain ms))"

definition Chain_Methods :: "Chain \<Rightarrow> string list" where
  "Chain_Methods c = map am_Name (ch_methods c)"

definition Chain_Has :: "Chain option \<Rightarrow> string \<Rightarrow> bool" where
  "Chain_Has c nm = (case c of None \<Rightarrow> False | Some ch \<Rightarrow> nm \<in> set (Chain_Methods ch))"

definition no_result :: Result where
  "no_result = \<lparr>re_Principal = None, re_Method = [], re_Ambient = False, re_ClearCookie = False\<rparr>"

text \<open>\<open>Authenticate\<close> returns a result next to its error: a miss still says to clear the cookie.\<close>

fun run_methods ::
    "AuthMethod list \<Rightarrow> Credential \<Rightarrow> time \<Rightarrow> auth_world \<Rightarrow> (Result \<times> AuthErr option) \<times> auth_world" where
  "run_methods [] cred now w =
     ((no_result\<lparr>re_ClearCookie := cr_Cookie cred \<noteq> []\<rparr>, Some ErrNoCredential), w)"
| "run_methods (m # ms) cred now w =
     (case am_Authenticate m cred now w of
        (Inl e, w') \<Rightarrow> ((no_result, Some e), w')
      | (Inr (Some p), w') \<Rightarrow>
          ((\<lparr>re_Principal = Some p, re_Method = am_Name m, re_Ambient = am_Ambient m, re_ClearCookie = False\<rparr>,
            None), w')
      | (Inr None, w') \<Rightarrow> run_methods ms cred now w')"

definition Chain_Authenticate ::
    "Chain \<Rightarrow> Credential \<Rightarrow> time \<Rightarrow> auth_world \<Rightarrow> (Result \<times> AuthErr option) \<times> auth_world" where
  "Chain_Authenticate c cred now w = run_methods (ch_methods c) cred now w"

section \<open>The authentication of an instance\<close>

definition DefaultAuthMethods :: "string list" where
  "DefaultAuthMethods = [MethodAPIKey, MethodSession]"

definition EffectiveMethods :: "string list option \<Rightarrow> string list" where
  "EffectiveMethods methods = (case methods of None \<Rightarrow> DefaultAuthMethods | Some ms \<Rightarrow> ms)"

definition uiSessionRetention :: int where "uiSessionRetention = 30 * 24 * 3600 * second"

record AuthConfig =
  cf_Methods :: "string list option"
  cf_Keys :: "AuthKeyConfig list"
  cf_IdleTTL :: int
  cf_MaxTTL :: int

text \<open>\<open>newUISessions\<close> of an instance that is not private, with the prune it starts with.\<close>

definition newUISessions :: "KeyIssuer \<Rightarrow> AuthConfig \<Rightarrow> time \<Rightarrow> Sessions auth_op" where
  "newUISessions iss cfg now =
     bnd (of_sum (NewSessions True True (Some iss)
            \<lparr>so_IdleTTL = cf_IdleTTL cfg, so_MaxTTL = cf_MaxTTL cfg, so_CodeTTL = 0, so_TouchEvery = 0\<rparr>)) (\<lambda>ss.
     bnd (session_Prune (now - uiSessionRetention)) (\<lambda>_. ret ss))"

definition buildAuth ::
    "key_codec \<Rightarrow> time_layouts \<Rightarrow> AuthConfig \<Rightarrow> time \<Rightarrow> (Chain \<times> Sessions option) auth_op" where
  "buildAuth kc lay cfg now =
     (case ConfigKeysFrom lay (cf_Keys cfg) of
        Inl _ \<Rightarrow> fail_with (ErrRefused ''config'')
      | Inr cfgKeys \<Rightarrow>
          bnd (RequireOwnerCredential (LocalKeys kc) cfgKeys now) (\<lambda>_.
            let methods = EffectiveMethods (cf_Methods cfg);
                keyed = APIKeyMethod (LocalKeys kc) cfgKeys
            in if MethodSession \<in> set methods
               then bnd (newUISessions (LocalKeys kc) cfg now) (\<lambda>ss.
                 bnd (of_sum (ChainFor methods [keyed, SessionMethod ss])) (\<lambda>chain. ret (chain, Some ss)))
               else bnd (of_sum (ChainFor methods [keyed])) (\<lambda>chain. ret (chain, None))))"

section \<open>The contract of a method\<close>

text \<open>
  A method vouches only for principals the registry backs (under the invariant \<open>I\<close> of the
  database), does nothing to the database that signing in may not do, leaves the principals as
  they are, and answers nothing, with no effect, when the request carries nothing of its kind: a carried method reads the token, an
  ambient one the cookie.
\<close>

definition same_principals :: "auth_world \<Rightarrow> auth_world \<Rightarrow> bool" where
  "same_principals w w' \<longleftrightarrow> wd_principals w' = wd_principals w"

interpretation spr: world_order same_principals
  by unfold_locales (auto simp: same_principals_def)

lemma touching_keeps_principals:
  "obeys same_principals (identity_Touch i now)" "obeys same_principals (session_Touch s now idle)"
  "obeys same_principals (session_Revoke s now reason)"
  unfolding identity_Touch_def session_Touch_def session_Revoke_def
  by (intro spr.op_rules spr.reads spr.stmt; simp add: same_principals_def)+

locale auth_method =
  fixes m :: AuthMethod and I :: "auth_world \<Rightarrow> bool"
  assumes vouches: "\<And>w cred now ap w'. I w \<Longrightarrow> am_Authenticate m cred now w = (Inr (Some ap), w') \<Longrightarrow> vouched w ap"
    and order: "\<And>R cred now. signin_order R \<Longrightarrow> obeys R (am_Authenticate m cred now)"
    and keeps: "\<And>cred now. obeys same_principals (am_Authenticate m cred now)"
    and no_token: "\<And>cred now w. \<not> am_Ambient m \<Longrightarrow> cr_Token cred = [] \<Longrightarrow> am_Authenticate m cred now w = (Inr None, w)"
    and no_cookie: "\<And>cred now w. am_Ambient m \<Longrightarrow> cr_Cookie cred = [] \<Longrightarrow> am_Authenticate m cred now w = (Inr None, w)"

definition backed :: "key_codec \<Rightarrow> auth_world \<Rightarrow> bool" where
  "backed kc w \<longleftrightarrow> db_ok w \<and> keys_ok kc w"

definition backed_sessions :: "key_codec \<Rightarrow> SessionOptions \<Rightarrow> Sessions" where
  "backed_sessions kc opts = \<lparr>ss_keys = Some (LocalKeys kc), ss_opts = opts\<rparr>"

lemma local_backed_sessions: "local_sessions kc (backed_sessions kc opts)"
  by (simp add: local_sessions_def backed_sessions_def)

lemma configMatch_order: "world_order R \<Longrightarrow> obeys R (configMatch cfg raw now)"
  unfolding configMatch_def missing_invalid_def
  by (auto split: option.split intro!: world_order.op_rules world_order.reads)

lemma untouched_simps:
  assumes "untouched w w'"
  shows "vouched w' ap = vouched w ap" "db_ok w' = db_ok w" "keys_ok kc w' = keys_ok kc w" "backed kc w' = backed kc w"
  using assms by (auto simp: untouched_def vouched_def backed_def)

lemma APIKey_vouched:
  assumes "backed kc w" "APIKeyMethod_Authenticate (LocalKeys kc) cfg cred now w = (Inr (Some ap), w')"
  shows "vouched w ap"
proof -
  from assms(2) obtain r w1 where match: "configMatch cfg (cr_Token cred) now w = (Inr r, w1)"
    and rest: "(case r of Some p \<Rightarrow> ret (Some p)
        | None \<Rightarrow> bnd (Keys_Verify (LocalKeys kc) (cr_Token cred) now) (\<lambda>pi. ret (Some (fst pi)))) w1
      = (Inr (Some ap), w')"
    unfolding APIKeyMethod_Authenticate_def by (auto split: if_splits elim!: bnd_InrE ret_InrE)
  show ?thesis
  proof (cases r)
    case None
    have w1: "untouched w w1"
      using configMatch_order [OF unt.world_order_axioms] match by (rule obeysD)
    from rest None obtain idn where "Keys_Verify (LocalKeys kc) (cr_Token cred) now w1 = (Inr (ap, idn), w')"
      by (auto simp: ret_def elim!: bnd_InrE)
    then have "vouched w1 ap"
      by (rule Keys_Verify_vouched) (use assms(1) in \<open>simp_all add: untouched_simps [OF w1] backed_def\<close>)
    then show ?thesis by (simp add: untouched_simps [OF w1])
  next
    case (Some q)
    with match rest show ?thesis by (auto simp: ret_def intro: configMatch_vouched)
  qed
qed

lemma Session_vouched:
  assumes "backed kc w" "local_sessions kc ss" "SessionMethod_Authenticate ss cred now w = (Inr (Some ap), w')"
  shows "vouched w ap"
proof -
  from assms(3) obtain sess w1 where "Sessions_Authenticate ss (cr_Cookie cred) now w = (Inr (ap, sess), w1)"
    unfolding SessionMethod_Authenticate_def
    by (auto simp: ret_def fail_with_def split: if_splits elim!: on_err_InrE)
  then show ?thesis
    by (rule Sessions_Authenticate_vouched [OF _ assms(2)]) (use assms(1) in \<open>simp_all add: backed_def\<close>)
qed

lemma APIKey_keeps: "obeys same_principals (APIKeyMethod_Authenticate (LocalKeys kc) cfg cred now)"
proof -
  have "obeys same_principals (Keys_Verify (LocalKeys kc) raw now)" for raw
    unfolding Keys_Verify_def missing_invalid_def
    by (intro spr.op_rules spr.reads touching_keeps_principals lk.verify_order spr.world_order_axioms)
  then show ?thesis
    unfolding APIKeyMethod_Authenticate_def
    by (auto intro!: spr.op_rules configMatch_order spr.world_order_axioms split: option.split)
qed

lemma Session_keeps:
  assumes "local_sessions kc ss"
  shows "obeys same_principals (SessionMethod_Authenticate ss cred now)"
proof -
  have scopes: "obeys same_principals (resolve_scopes ss p idn)" for p idn
    using assms unfolding resolve_scopes_def local_sessions_def
    by (auto intro: spr.op_rules lk.ScopesOf_order [OF spr.world_order_axioms])
  have "obeys same_principals (resolve ss i pid)" for i pid
    unfolding resolve_def missing_invalid_def by (intro spr.op_rules spr.reads scopes)
  then have active: "obeys same_principals (session_active ss hash now)" for hash
    unfolding session_active_def missing_invalid_def
    by (auto intro!: spr.op_rules spr.reads touching_keeps_principals split: prod.split)
  have "obeys same_principals (Sessions_Authenticate ss secret now)" for secret
    unfolding Sessions_Authenticate_def Let_def
    by (auto intro!: spr.op_rules active touching_keeps_principals split: prod.split)
  then show ?thesis
    unfolding SessionMethod_Authenticate_def by (intro spr.op_rules)
qed

interpretation akm: auth_method "APIKeyMethod (LocalKeys kc) cfg" "backed kc" for kc cfg
proof
  show "vouched w ap"
    if "backed kc w" "am_Authenticate (APIKeyMethod (LocalKeys kc) cfg) cred now w = (Inr (Some ap), w')" for w cred now ap w'
    using that by (auto simp: APIKeyMethod_def intro: APIKey_vouched)
  show "obeys R (am_Authenticate (APIKeyMethod (LocalKeys kc) cfg) cred now)" if "signin_order R" for R cred now
  proof -
    have R: "world_order R" using that by (simp add: signin_order_def)
    have "obeys R (case r of Some p \<Rightarrow> ret (Some p)
        | None \<Rightarrow> bnd (Keys_Verify (LocalKeys kc) (cr_Token cred) now) (\<lambda>pi. ret (Some (fst pi))))" for r
      using R by (cases r) (auto intro!: world_order.op_rules lk.Verify_order that)
    then show ?thesis
      using R by (auto simp: APIKeyMethod_def APIKeyMethod_Authenticate_def
                       intro!: world_order.If world_order.bnd world_order.ret configMatch_order)
  qed
  show "obeys same_principals (am_Authenticate (APIKeyMethod (LocalKeys kc) cfg) cred now)" for cred now
    using APIKey_keeps by (simp add: APIKeyMethod_def)
qed (simp_all add: APIKeyMethod_def APIKeyMethod_Authenticate_def ret_def)

interpretation sem: auth_method "SessionMethod (backed_sessions kc opts)" "backed kc" for kc opts
proof
  show "vouched w ap"
    if "backed kc w" "am_Authenticate (SessionMethod (backed_sessions kc opts)) cred now w = (Inr (Some ap), w')"
    for w cred now ap w'
    using that local_backed_sessions by (auto simp: SessionMethod_def intro: Session_vouched)
  show "obeys R (am_Authenticate (SessionMethod (backed_sessions kc opts)) cred now)" if "signin_order R" for R cred now
    using signin_order.SessionMethod [OF that local_backed_sessions] by (simp add: SessionMethod_def)
  show "obeys same_principals (am_Authenticate (SessionMethod (backed_sessions kc opts)) cred now)" for cred now
    using Session_keeps [OF local_backed_sessions] by (simp add: SessionMethod_def)
qed (simp_all add: SessionMethod_def SessionMethod_Authenticate_def ret_def)

section \<open>What a chain of such methods promises\<close>

text \<open>
  A chain of methods that meet the contract, under an invariant that signing in keeps
  (\<open>S\<close> is a preorder the invariant is closed under).
\<close>

locale auth_chain =
  fixes ms :: "AuthMethod list" and I :: "auth_world \<Rightarrow> bool" and S :: "auth_world \<Rightarrow> auth_world \<Rightarrow> bool"
  assumes methods: "\<And>m. m \<in> set ms \<Longrightarrow> auth_method m I"
    and signin: "signin_order S"
    and closed: "\<And>w w'. I w \<Longrightarrow> S w w' \<Longrightarrow> I w'"
begin

lemma run_order:
  assumes "signin_order R" "set xs \<subseteq> set ms" "run_methods xs cred now w = (r, w')"
  shows "R w w'"
  using assms(2,3)
proof (induction xs arbitrary: w)
  case Nil
  have "world_order R" using assms(1) by (simp add: signin_order_def)
  with Nil show ?case by (auto intro: world_order.refl)
next
  case (Cons m xs)
  have W: "world_order R" using assms(1) by (simp add: signin_order_def)
  obtain a w1 where auth: "am_Authenticate m cred now w = (a, w1)" by fastforce
  have "m \<in> set ms" using Cons.prems(1) by simp
  then have "obeys R (am_Authenticate m cred now)" using auth_method.order [OF methods assms(1)] by blast
  then have first: "R w w1" using auth by (rule obeysD)
  show ?case
  proof (cases "a = Inr None")
    case True
    then have "R w1 w'" using Cons auth by simp
    with first W show ?thesis by (blast intro: world_order.trans)
  next
    case False
    with Cons.prems(2) auth have "w' = w1" by (auto split: sum.splits option.splits)
    with first show ?thesis by simp
  qed
qed

lemma run_vouched:
  assumes "I w" "set xs \<subseteq> set ms" "run_methods xs cred now w = ((res, err), w')" "re_Principal res = Some ap"
  shows "err = None \<and> vouched w ap"
  using assms
proof (induction xs arbitrary: w)
  case Nil
  then show ?case by (auto simp: no_result_def)
next
  case (Cons m xs)
  have m: "auth_method m I" using Cons.prems(2) methods by simp
  obtain a w1 where auth: "am_Authenticate m cred now w = (a, w1)" by fastforce
  show ?case
  proof (cases "a = Inr None")
    case True
    have "S w w1" using auth_method.order [OF m signin] auth by (rule obeysD)
    then have "I w1" by (rule closed [OF Cons.prems(1)])
    then have "err = None \<and> vouched w1 ap" using Cons True auth by simp
    moreover have "same_principals w w1" using auth_method.keeps [OF m] auth by (rule obeysD)
    ultimately show ?thesis by (simp add: vouched_def same_principals_def)
  next
    case False
    with Cons.prems(3,4) auth have "a = Inr (Some ap)" "err = None"
      by (auto simp: no_result_def split: sum.splits option.splits)
    with auth show ?thesis using auth_method.vouches [OF m Cons.prems(1)] by simp
  qed
qed

end

section \<open>The chain an instance runs\<close>

definition built_chain :: "key_codec \<Rightarrow> AuthMethod list \<Rightarrow> bool" where
  "built_chain kc ms \<longleftrightarrow>
     (\<forall>m \<in> set ms. (\<exists>cfg. m = APIKeyMethod (LocalKeys kc) cfg) \<or> (\<exists>opts. m = SessionMethod (backed_sessions kc opts)))"

lemma by_name_in: "by_name available nm = Some m \<Longrightarrow> m \<in> set available"
  using set_rev [of available] unfolding by_name_def find_Some_iff by (metis nth_mem)

lemma pick_methods_set: "pick_methods available names = Inr ms \<Longrightarrow> set ms \<subseteq> set available"
  by (induction names arbitrary: ms) (auto split: option.splits sum.splits dest: by_name_in)

lemma ChainFor_methods: "ChainFor names available = Inr c \<Longrightarrow> set (ch_methods c) \<subseteq> set available"
  by (auto simp: ChainFor_def NewChain_def split: sum.splits dest!: pick_methods_set)

lemma of_sum_InrE:
  assumes "of_sum r w = (Inr x, w')"
  obtains "r = Inr x" "w' = w"
  using assms by (auto simp: of_sum_def ret_def fail_with_def split: sum.splits intro: that)

lemma newUISessions_facts:
  assumes "newUISessions iss cfg now w = (Inr ss, w')"
  shows "ss_keys ss = Some iss"
  using assms unfolding newUISessions_def
  by (auto simp: NewSessions_def elim!: bnd_InrE of_sum_InrE ret_InrE)

lemma sessions_backed: "ss_keys ss = Some (LocalKeys kc) \<Longrightarrow> ss = backed_sessions kc (ss_opts ss)"
  by (simp add: backed_sessions_def)

lemma buildAuth_facts:
  assumes "buildAuth kc lay cfg now w = (Inr (chain, so), w')"
  obtains keys where "built_chain kc (ch_methods chain)" "\<And>ss. so = Some ss \<Longrightarrow> ss = backed_sessions kc (ss_opts ss)"
    "ConfigKeysFrom lay (cf_Keys cfg) = Inr keys"
proof -
  from assms obtain keys where keys: "ConfigKeysFrom lay (cf_Keys cfg) = Inr keys"
    by (auto simp: buildAuth_def fail_with_def split: sum.splits)
  let ?keyed = "APIKeyMethod (LocalKeys kc) keys"
  from assms keys consider
      (keyed) "ChainFor (EffectiveMethods (cf_Methods cfg)) [?keyed] = Inr chain" "so = None"
    | (both) ss w1 w2 where "newUISessions (LocalKeys kc) cfg now w1 = (Inr ss, w2)"
        "ChainFor (EffectiveMethods (cf_Methods cfg)) [?keyed, SessionMethod ss] = Inr chain" "so = Some ss"
    by (auto simp: buildAuth_def Let_def split: if_splits elim!: bnd_InrE of_sum_InrE ret_InrE)
  then show thesis
  proof cases
    case keyed
    with ChainFor_methods keys show thesis by (intro that) (fastforce simp: built_chain_def)+
  next
    case both
    then have ss: "ss = backed_sessions kc (ss_opts ss)" by (blast intro: sessions_backed newUISessions_facts)
    have "built_chain kc (ch_methods chain)"
      unfolding built_chain_def
    proof
      fix m assume "m \<in> set (ch_methods chain)"
      then have "m \<in> {?keyed, SessionMethod ss}" using ChainFor_methods [OF both(2)] by auto
      then show "(\<exists>cfg. m = APIKeyMethod (LocalKeys kc) cfg) \<or> (\<exists>opts. m = SessionMethod (backed_sessions kc opts))"
        using ss by (metis insertE singletonD)
    qed
    with keys ss both(3) show thesis by (intro that) auto
  qed
qed

text \<open>What signing in does to a backed database: the schema and the key table stay in order.\<close>

definition backed_order :: "auth_world \<Rightarrow> auth_world \<Rightarrow> bool" where
  "backed_order w w' \<longleftrightarrow> keeps_db_ok w w' \<and> keys_order w w'"

lemma obeys_conj: "obeys R m \<Longrightarrow> obeys S m \<Longrightarrow> obeys (\<lambda>w w'. R w w' \<and> S w w') m"
  by (simp add: obeys_def)

lemma world_order_conj:
  assumes "world_order R" "world_order S"
  shows "world_order (\<lambda>w w'. R w w' \<and> S w w')"
  using assms unfolding world_order_def by blast

lemma signin_order_conj:
  assumes "signin_order R" "signin_order S"
  shows "signin_order (\<lambda>w w'. R w w' \<and> S w w')"
  using assms unfolding signin_order_def signin_order_axioms_def
  by (auto intro: world_order_conj obeys_conj)

interpretation bko: signin_order backed_order
proof -
  have "signin_order (\<lambda>w w'. keeps_db_ok w w' \<and> keys_order w w')"
    by (rule signin_order_conj) (rule dbo.signin_order_axioms kor.signin_order_axioms)+
  then show "signin_order backed_order" by (simp add: backed_order_def [abs_def])
qed

lemma backed_closed: "backed kc w \<Longrightarrow> backed_order w w' \<Longrightarrow> backed kc w'"
  by (auto simp: backed_def backed_order_def keeps_db_ok_def intro: keys_ok_order)

definition chain_over :: "key_codec \<Rightarrow> ConfigKey list \<Rightarrow> SessionOptions \<Rightarrow> AuthMethod list" where
  "chain_over kc cfg opts = ch_methods (NewChain [APIKeyMethod (LocalKeys kc) cfg, SessionMethod (backed_sessions kc opts)])"

lemma auth_chain_built: "built_chain kc ms \<Longrightarrow> auth_chain ms (backed kc) backed_order"
  by (rule auth_chain.intro)
     (auto simp: built_chain_def intro: akm.auth_method_axioms sem.auth_method_axioms backed_closed bko.signin_order_axioms)

interpretation chn: auth_chain "chain_over kc cfg opts" "backed kc" backed_order for kc cfg opts
  by (rule auth_chain_built) (auto simp: built_chain_def chain_over_def NewChain_def)

end
