(* ===== verification/Auth_System.thy ===== *)
theory Auth_System
  imports Auth_Chain
begin

text \<open>
  Authentication as one system. \<open>migrate048\<close> is the registry a new database starts with
  (\<open>migrate048AuthRegistry\<close> of \<open>internal/storage/sqlite/migrations.go\<close>); an \<open>auth_event\<close> is an
  operation of \<open>internal/auth\<close> or of the stores with its arguments and its instant, or a change
  in which statements the database will fail; \<open>history\<close> is any sequence of events. Minting a key
  is an event only when the random id it would draw is not in use: the code overwrites the record of
  a key whose id it draws again, an event of probability \<open>2 ^ -64\<close> that the model leaves out.
\<close>

section \<open>A new database\<close>

definition owner_row :: "time \<Rightarrow> PrincipalRow" where
  "owner_row now =
     \<lparr>pw_ID = OwnerPrincipal, pw_Kind = PrincipalKindOwner, pw_DisplayName = ''Owner'', pw_Roles = [RoleAdmin],
      pw_Status = PrincipalActive, pw_CreatedAt = stored now, pw_RevokedAt = None\<rparr>"

definition empty_world :: "(nat \<Rightarrow> char) \<Rightarrow> bool list \<Rightarrow> auth_world" where
  "empty_world r fs =
     \<lparr>wd_principals = [], wd_identities = [], wd_tickets = [], wd_kv = [], wd_sessions = [], wd_codes = [],
      wd_faults = fs, wd_rand = r, wd_drawn = 0, wd_audiences = [], wd_members = [], wd_policies = [],
      wd_grants = [], wd_deny = [], wd_bound = [], wd_access = [], wd_access_objects = []\<rparr>"

text \<open>The migration creates its tables, which are empty here already, and seeds the owner.\<close>

fun create_tables :: "nat \<Rightarrow> unit auth_op" where
  "create_tables 0 = ret ()"
| "create_tables (Suc n) = bnd (stmt (ret ())) (\<lambda>_. create_tables n)"

definition migrate048AuthRegistry :: "time \<Rightarrow> unit auth_op" where
  "migrate048AuthRegistry now =
     in_tx (bnd (create_tables 6) (\<lambda>_.
            bnd (stmt (\<lambda>w. (Inr (),
                   if has_principal w OwnerPrincipal then w
                   else w\<lparr>wd_principals := wd_principals w @ [owner_row now]\<rparr>))) (\<lambda>_.
            ret True)))"

section \<open>Events\<close>

record Site =
  si_codec :: key_codec
  si_chain :: Chain
  si_sessions :: Sessions
  si_invites :: invite_codec
  si_sharing :: bool

definition site_tickets :: "Site \<Rightarrow> Tickets" where
  "site_tickets S = \<lparr>ts_sessions = si_sessions S, ts_sharing = si_sharing S, ts_codec = si_invites S\<rparr>"

datatype auth_event =
    CreatePrincipal PrincipalRow
  | SuspendPrincipal string
  | RevokePrincipal string
  | RevokeIdentity string
  | MintAPIKey MintKey
  | RevokeAPIKey string
  | MintLoginCode "AuthPrincipal option"
  | ExchangeCode string ClientInfo
  | CheckSession string
  | RevokeSession string string
  | PruneSessions
  | IssueInvite "AuthPrincipal option" Invite
  | IssueLink "AuthPrincipal option" string
  | AcceptInvite string ClientInfo
  | FollowLink string ClientInfo
  | Authenticate Credential
  | DatabaseFails "bool list"

fun run_event :: "Site \<Rightarrow> auth_event \<Rightarrow> time \<Rightarrow> auth_world \<Rightarrow> auth_world" where
  "run_event S (CreatePrincipal p) now w = snd (principal_Create p now w)"
| "run_event S (SuspendPrincipal i) now w = snd (principal_Suspend i w)"
| "run_event S (RevokePrincipal i) now w = snd (principal_Revoke i now w)"
| "run_event S (RevokeIdentity i) now w = snd (identity_Revoke i now w)"
| "run_event S (MintAPIKey spec) now w = snd (Keys_Mint (LocalKeys (si_codec S)) spec now w)"
| "run_event S (RevokeAPIKey i) now w = snd (Keys_Revoke (LocalKeys (si_codec S)) i now w)"
| "run_event S (MintLoginCode p) now w = snd (MintCode (si_sessions S) p now w)"
| "run_event S (ExchangeCode code ci) now w = snd (Exchange (si_sessions S) code ci now w)"
| "run_event S (CheckSession hash) now w = snd (Sessions_Check (si_sessions S) hash now w)"
| "run_event S (RevokeSession i reason) now w = snd (Sessions_Revoke i reason now w)"
| "run_event S PruneSessions now w = snd (session_Prune (now - uiSessionRetention) w)"
| "run_event S (IssueInvite p iv) now w = snd (MintInvite (site_tickets S) p iv now w)"
| "run_event S (IssueLink p i) now w = snd (MintLink p i now w)"
| "run_event S (AcceptInvite secret ci) now w = snd (RedeemInvite (site_tickets S) secret ci now w)"
| "run_event S (FollowLink secret ci) now w = snd (RedeemLink (site_tickets S) secret ci now w)"
| "run_event S (Authenticate cred) now w = snd (Chain_Authenticate (si_chain S) cred now w)"
| "run_event S (DatabaseFails fs) now w = w\<lparr>wd_faults := fs\<rparr>"

fun mints_key :: "auth_event \<Rightarrow> bool" where
  "mints_key (MintAPIKey spec) = True"
| "mints_key _ = False"

inductive history :: "Site \<Rightarrow> auth_world \<Rightarrow> auth_world \<Rightarrow> bool" for S where
  start: "history S w w"
| event: "history S w w1 \<Longrightarrow> mints_key ev \<longrightarrow> fresh_key w1 \<Longrightarrow> history S w (run_event S ev now w1)"

lemma history_trans: "history S b c \<Longrightarrow> history S a b \<Longrightarrow> history S a c"
  by (induction rule: history.induct) (auto intro: history.intros)

section \<open>What any history may do\<close>

definition built_site :: "Site \<Rightarrow> bool" where
  "built_site S \<longleftrightarrow> built_chain (si_codec S) (ch_methods (si_chain S)) \<and> local_sessions (si_codec S) (si_sessions S)"

lemma snd_obeys: "obeys R m \<Longrightarrow> R w (snd (m w))"
  by (auto simp: obeys_def)

lemma chain_order: "signin_order R \<Longrightarrow> built_site S \<Longrightarrow> R w (snd (Chain_Authenticate (si_chain S) cred now w))"
  unfolding Chain_Authenticate_def built_site_def
  by (rule auth_chain.run_order [OF auth_chain_built]) (auto simp: prod_eq_iff)

context signin_order
begin

lemma event_signin:
  assumes "built_site S" "\<not> mints_key ev" "\<And>i. ev \<noteq> RevokeAPIKey i"
  shows "R w (run_event S ev now w)"
proof -
  have ss: "local_sessions (si_codec S) (si_sessions S)"
    and ts: "local_sessions (si_codec S) (ts_sessions (site_tickets S))"
    using assms(1) by (simp_all add: built_site_def site_tickets_def)
  have "obeys R (Sessions_Revoke i reason now)" for i reason
    unfolding Sessions_Revoke_def by (rule session_Revoke)
  note rules = signin_rules MintCode Exchange [OF ss] Sessions_Check [OF ss] this MintInvite MintLink
    RedeemInvite [OF ts] RedeemLink [OF ts]
  show ?thesis
    using assms(2,3)
    by (cases ev) (auto intro: rules [THEN snd_obeys] faults chain_order [OF signin_order_axioms assms(1)])
qed

end

context store_order
begin

lemma event_store: "built_site S \<Longrightarrow> R w (run_event S ev now w)"
proof -
  assume S: "built_site S"
  have "store_order R" by (rule store_order_axioms)
  note keyed = lk.Mint_order [OF this, THEN snd_obeys] lk.Revoke_order [OF this, THEN snd_obeys]
  show "R w (run_event S ev now w)"
  proof (cases "mints_key ev \<or> (\<exists>i. ev = RevokeAPIKey i)")
    case True
    then show ?thesis by (cases ev) (auto intro: keyed)
  next
    case False
    then show ?thesis using event_signin [OF S] by blast
  qed
qed

lemma history_store: "history S w w' \<Longrightarrow> built_site S \<Longrightarrow> R w w'"
  by (induction rule: history.induct) (blast intro: refl trans event_store)+

end

lemma event_keys:
  assumes "built_site S" "codec_ok (si_codec S)" "keys_ok (si_codec S) w" "mints_key ev \<longrightarrow> fresh_key w"
  shows "keys_ok (si_codec S) (run_event S ev now w)"
proof (cases "mints_key ev \<or> (\<exists>i. ev = RevokeAPIKey i)")
  case True
  then show ?thesis using assms by (cases ev) (auto intro: Keys_Mint_keys Keys_Revoke_keys)
next
  case False
  then have "keys_order w (run_event S ev now w)" using kor.event_signin [OF assms(1)] by blast
  with assms(3) show ?thesis by (rule keys_ok_order)
qed

lemma history_backed:
  assumes "history S w w'" "built_site S" "codec_ok (si_codec S)" "backed (si_codec S) w"
  shows "backed (si_codec S) w'"
proof -
  have "keys_ok (si_codec S) w'"
    using assms(1,4)
    by (induction rule: history.induct) (use assms(2,3) in \<open>auto simp: backed_def intro: event_keys\<close>)
  moreover have "db_ok w'"
    using dbo.history_store [OF assms(1,2)] assms(4) by (simp add: backed_def keeps_db_ok_def)
  ultimately show ?thesis by (simp add: backed_def)
qed

section \<open>The first state\<close>

lemma create_tables_untouched: "obeys untouched (create_tables n)"
proof (induction n)
  case (Suc n)
  have "obeys untouched (stmt (ret ()))" by (rule unt.stmt) (simp add: ret_def unt.refl)
  with Suc show ?case by (auto intro: unt.bnd)
qed (simp add: unt.ret)

lemma migrated_tables:
  assumes "migrate048AuthRegistry now (empty_world r fs) = (Inr (), w0)"
  obtains gs n where "w0 = (empty_world r gs)\<lparr>wd_principals := [owner_row now], wd_drawn := n\<rparr>"
proof -
  obtain w1 fs2 fs3 where tables: "create_tables 6 (empty_world r fs2) = (Inr (), w1)"
    and seed: "w0 = (if has_principal w1 OwnerPrincipal then w1
                     else w1\<lparr>wd_principals := wd_principals w1 @ [owner_row now]\<rparr>)\<lparr>wd_faults := fs3\<rparr>"
    using assms unfolding migrate048AuthRegistry_def
    by (elim in_tx_InrE bnd_InrE stmt_InrE ret_InrE)
       (auto simp: empty_world_def has_principal_def split: if_splits intro: that)
  have "untouched (empty_world r fs2) w1" using create_tables_untouched tables by (rule obeysD)
  then obtain gs n where w1: "w1 = (empty_world r fs2)\<lparr>wd_faults := gs, wd_drawn := n\<rparr>"
    by (auto simp: untouched_def)
  have "w0 = (empty_world r fs3)\<lparr>wd_principals := [owner_row now], wd_drawn := n\<rparr>"
    using seed unfolding w1 by (simp add: has_principal_def empty_world_def)
  then show thesis by (rule that)
qed

lemma migrated_backed:
  assumes "migrate048AuthRegistry now (empty_world r fs) = (Inr (), w0)"
  shows "backed kc w0"
  using assms
  by (rule migrated_tables)
     (simp add: backed_def db_ok_def principals_ok_def identities_ok_def sessions_ok_def codes_ok_def
        keys_ok_def key_at_def empty_world_def owner_row_def Principal_Active_def)

section \<open>Who gets in\<close>

lemma built_site_from:
  assumes "buildAuth (si_codec S) lay cfg t wb = (Inr (si_chain S, Some (si_sessions S)), wb')"
  shows "built_site S"
  using assms
  by (rule buildAuth_facts) (metis built_site_def local_backed_sessions)

lemma history_vouched:
  assumes "built_site S" "codec_ok (si_codec S)" "backed (si_codec S) w0" "history S w0 w"
    and "Chain_Authenticate (si_chain S) cred now w = ((res, err), w')" "re_Principal res = Some ap"
  shows "err = None \<and> vouched w ap"
proof -
  have "backed (si_codec S) w" by (rule history_backed) fact+
  moreover have "built_chain (si_codec S) (ch_methods (si_chain S))"
    using assms(1) by (simp add: built_site_def)
  ultimately show ?thesis
    using assms(5,6) auth_chain.run_vouched [OF auth_chain_built _ subset_refl]
    unfolding Chain_Authenticate_def by blast
qed

lemma inactive_stays:
  assumes "registry_order w w'" "p \<in> set (wd_principals w)" "\<not> Principal_Active p" "db_ok w'"
    "q \<in> set (wd_principals w')" "pw_ID q = pw_ID p"
  shows "\<not> Principal_Active q"
proof -
  obtain p' where p': "p' \<in> set (wd_principals w')" "principal_step p p'"
    using assms(1,2) unfolding registry_order_def by (blast dest: evolvesD)
  then have "pw_ID q = pw_ID p'" using assms(6) by (simp add: principal_step_def)
  then have "q = p'" using principal_unique [OF assms(4,5) p'(1)] by blast
  with p' assms(3) show ?thesis by (auto simp: principal_step_def Principal_Active_def)
qed

text \<open>
  C16: whoever an instance lets in is backed by its registry. After any history of a new database,
  failures included, a principal that the chain built by buildAuth resolves a request to is an
  active row of the registry, and its scopes are within those of the row's roles (a browser session
  adds at most the scopes only sessions have); no error is reported next to it.
\<close>

theorem authenticated_is_backed:
  assumes "migrate048AuthRegistry t0 (empty_world r fs) = (Inr (), w0)"
    and "buildAuth (si_codec S) lay cfg t1 wb = (Inr (si_chain S, Some (si_sessions S)), wb')"
    and "codec_ok (si_codec S)" "history S w0 w"
    and "Chain_Authenticate (si_chain S) cred now w = ((res, err), w')" "re_Principal res = Some ap"
  shows "err = None \<and> vouched w ap"
  using built_site_from [OF assms(2)] assms(3) migrated_backed [OF assms(1)] assms(4,5,6)
  by (rule history_vouched)


lemma distinct_set_singleton: "distinct xs \<Longrightarrow> set xs = {x} \<Longrightarrow> xs = [x]"
  by (cases xs) (auto simp: subset_singleton_iff)

text \<open>
  An instance always has its owner. In every state a history of a new database reaches there is
  exactly one row of kind owner, its id is the owner's, and it is active.
\<close>

theorem owner_always_active:
  assumes "migrate048AuthRegistry t0 (empty_world r fs) = (Inr (), w0)"
    and "buildAuth (si_codec S) lay cfg t1 wb = (Inr (si_chain S, Some (si_sessions S)), wb')"
    and "history S w0 w"
  shows "\<exists>p. filter (\<lambda>q. pw_Kind q = PrincipalKindOwner) (wd_principals w) = [p] \<and>
             pw_ID p = OwnerPrincipal \<and> Principal_Active p"
proof -
  have "keeps_db_ok w0 w" by (rule dbo.history_store [OF assms(3) built_site_from [OF assms(2)]])
  then have ok: "principals_ok w"
    using migrated_backed [OF assms(1)] by (simp add: keeps_db_ok_def backed_def db_ok_def)
  then obtain p where p: "p \<in> set (wd_principals w)" "pw_ID p = OwnerPrincipal" "Principal_Active p"
    by (auto simp: principals_ok_def)
  have distinct: "distinct (map pw_ID (wd_principals w))" using ok by (simp add: principals_ok_def)
  then have "distinct (wd_principals w)" by (simp add: distinct_map)
  moreover have "pw_Kind q = PrincipalKindOwner \<longleftrightarrow> q = p" if q: "q \<in> set (wd_principals w)" for q
  proof -
    have "q = p \<longleftrightarrow> pw_ID q = OwnerPrincipal"
      using q p distinct by (metis (no_types) distinct_map inj_onD)
    then show ?thesis using ok q by (simp add: principals_ok_def)
  qed
  then have "set (filter (\<lambda>q. pw_Kind q = PrincipalKindOwner) (wd_principals w)) = {p}"
    using p(1) unfolding set_filter by blast
  ultimately have "filter (\<lambda>q. pw_Kind q = PrincipalKindOwner) (wd_principals w) = [p]"
    by (blast intro: distinct_set_singleton distinct_filter)
  with p show ?thesis by blast
qed

section \<open>Carried before ambient\<close>

lemma MethodAPIKey_name [simp]: "MethodSession \<noteq> MethodAPIKey" "MethodAPIKey \<noteq> MethodSession"
  by (simp_all add: MethodSession_def MethodAPIKey_def)

lemma method_ambient [simp]: "\<not> am_Ambient (APIKeyMethod iss cfg)" "am_Ambient (SessionMethod ss)"
  by (simp_all add: SessionMethod_def APIKeyMethod_def)

lemma by_name_standard:
  "by_name [APIKeyMethod iss cfg, SessionMethod ss] nm =
     (if nm = MethodSession then Some (SessionMethod ss) else if nm = MethodAPIKey then Some (APIKeyMethod iss cfg) else None)"
  by (simp add: by_name_def SessionMethod_def APIKeyMethod_def)

lemma pick_carried:
  assumes "pick_methods [APIKeyMethod iss cfg, SessionMethod ss] names = Inr ms"
  shows "filter (\<lambda>m. \<not> am_Ambient m) ms = map (\<lambda>_. APIKeyMethod iss cfg) (filter (\<lambda>nm. nm = MethodAPIKey) names)"
  using assms
  by (induction names arbitrary: ms)
     (auto simp: by_name_standard split: if_splits sum.splits)

lemma chain_first_carried:
  assumes "ChainFor names [APIKeyMethod iss cfg, SessionMethod ss] = Inr chain" "MethodAPIKey \<in> set names"
  obtains ms where "ch_methods chain = APIKeyMethod iss cfg # ms"
proof -
  from assms(1) obtain ms where ms: "pick_methods [APIKeyMethod iss cfg, SessionMethod ss] names = Inr ms"
    and chain: "chain = NewChain ms"
    by (auto simp: ChainFor_def split: sum.splits)
  obtain nm nms where "filter (\<lambda>nm. nm = MethodAPIKey) names = nm # nms"
    using assms(2) by (cases "filter (\<lambda>nm. nm = MethodAPIKey) names") (auto simp: filter_empty_conv)
  then show thesis using pick_carried [OF ms] chain by (auto simp: NewChain_def intro: that)
qed

lemma APIKey_answers: "cr_Token cred \<noteq> [] \<Longrightarrow> APIKeyMethod_Authenticate iss cfg cred now w \<noteq> (Inr None, w')"
  by (auto simp: APIKeyMethod_Authenticate_def bnd_def ret_def split: prod.splits sum.splits option.splits)

text \<open>
  A carried credential decides. On a chain that buildAuth may assemble, with the api_key method
  among the configured names, a request that carries a token is answered by the api_key method
  alone: a token it refuses ends the request with that refusal, whatever cookie stands behind it, and
  a token it accepts is the caller, not an ambient one, whatever cookie comes with it.
\<close>

theorem carried_credential_decides:
  assumes "ChainFor names [APIKeyMethod (LocalKeys kc) cfg, SessionMethod ss] = Inr chain"
    and "MethodAPIKey \<in> set names" "cr_Token cred \<noteq> []"
  shows "Chain_Authenticate chain cred now w =
    (case APIKeyMethod_Authenticate (LocalKeys kc) cfg cred now w of
       (Inl e, w') \<Rightarrow> ((no_result, Some e), w')
     | (Inr p, w') \<Rightarrow> ((\<lparr>re_Principal = p, re_Method = MethodAPIKey, re_Ambient = False, re_ClearCookie = False\<rparr>, None), w'))"
proof -
  obtain ms where ms: "ch_methods chain = APIKeyMethod (LocalKeys kc) cfg # ms"
    using assms(1,2) by (rule chain_first_carried)
  show ?thesis
    using APIKey_answers [OF assms(3), of "LocalKeys kc" cfg now w]
    by (auto simp: Chain_Authenticate_def ms APIKeyMethod_def split: prod.splits sum.splits option.splits)
qed

section \<open>Revocation\<close>

text \<open>Nothing of a principal is left that could sign anyone in.\<close>

definition cut_off :: "auth_world \<Rightarrow> string \<Rightarrow> bool" where
  "cut_off w i \<longleftrightarrow>
     (\<forall>p \<in> set (wd_principals w). pw_ID p = i \<longrightarrow> pw_Status p = PrincipalRevoked) \<and>
     (\<forall>x \<in> set (wd_identities w). id_PrincipalID x = i \<longrightarrow> \<not> Identity_Active x) \<and>
     (\<forall>s \<in> set (wd_sessions w). us_PrincipalID s = i \<longrightarrow> us_RevokedAt s \<noteq> None) \<and>
     (\<forall>c \<in> set (wd_codes w). lc_PrincipalID c \<noteq> i)"

text \<open>The rows of everyone else, and the tables that hold no row of a principal.\<close>

definition others :: "auth_world \<Rightarrow> string \<Rightarrow> auth_world" where
  "others w i =
     w\<lparr>wd_principals := filter (\<lambda>p. pw_ID p \<noteq> i) (wd_principals w),
       wd_identities := filter (\<lambda>x. id_PrincipalID x \<noteq> i) (wd_identities w),
       wd_sessions := filter (\<lambda>s. us_PrincipalID s \<noteq> i) (wd_sessions w),
       wd_codes := filter (\<lambda>c. lc_PrincipalID c \<noteq> i) (wd_codes w)\<rparr>"

lemma filter_update_where:
  assumes "\<And>x. c x \<Longrightarrow> \<not> P x" "\<And>x. c x \<Longrightarrow> \<not> P (f x)"
  shows "filter P (update_where c f xs) = filter P xs"
  unfolding update_where_def using assms by (induction xs) auto

lemma Ball_update_where: "(\<forall>y \<in> set (update_where c f xs). P y) \<longleftrightarrow> (\<forall>x \<in> set xs. P (if c x then f x else x))"
  by (simp add: update_where_def) blast

lemma principal_Revoke_again:
  assumes "principal_Revoke i at w = (Inr (), w')" "p \<in> set (wd_principals w)" "pw_ID p = i"
    "pw_Status p = PrincipalRevoked" "db_ok w"
  shows "untouched w w'"
proof -
  from assms(1) obtain q w1 where guard: "principal_guard i w = (Inr q, w1)"
    unfolding principal_Revoke_def by (rule bnd_InrE)
  then have "q \<in> set (wd_principals w)" "pw_ID q = i"
    unfolding principal_guard_def
    by (auto elim!: bnd_InrE principal_Get_facts simp: ret_def fail_with_def split: if_splits)
  with assms principal_unique have "q = p" by blast
  then have "w' = w1" using assms(1,4) guard unfolding principal_Revoke_def by (simp add: bnd_def ret_def)
  moreover have "untouched w w1" using guard_untouched guard by (rule obeysD)
  ultimately show ?thesis by simp
qed

lemma principal_Revoke_cut_off:
  assumes "principal_Revoke i at w = (Inr (), w')"
    and "\<And>p. p \<in> set (wd_principals w) \<Longrightarrow> pw_ID p = i \<Longrightarrow> pw_Status p \<noteq> PrincipalRevoked"
  shows "cut_off w' i" "untouched (others w i) (others w' i)"
proof -
  obtain fs where w': "w' = w\<lparr>wd_principals := update_where (\<lambda>r. pw_ID r = i \<and> pw_Status r \<noteq> PrincipalRevoked)
        (\<lambda>r. r\<lparr>pw_Status := PrincipalRevoked, pw_RevokedAt := Some (stored at)\<rparr>) (wd_principals w),
      wd_identities := update_where (\<lambda>r. id_PrincipalID r = i \<and> id_RevokedAt r = None)
        (\<lambda>r. r\<lparr>id_RevokedAt := Some (stored at)\<rparr>) (wd_identities w),
      wd_sessions := update_where (\<lambda>s. us_PrincipalID s = i \<and> us_RevokedAt s = None)
        (\<lambda>s. s\<lparr>us_RevokedAt := Some (stored at), us_RevokeReason := RevokeReasonPrincipalRevoked\<rparr>) (wd_sessions w),
      wd_codes := filter (\<lambda>x. lc_PrincipalID x \<noteq> i) (wd_codes w), wd_faults := fs\<rparr>"
    by (rule principal_Revoke_effect [OF assms])
  show "cut_off w' i"
    unfolding cut_off_def w' by (intro conjI) (simp_all add: Ball_update_where Identity_Active_def)
  have "others w' i = (others w i)\<lparr>wd_faults := fs\<rparr>"
    by (rule auth_world.equality) (simp_all add: w' others_def, (rule filter_update_where, auto)+)
  then show "untouched (others w i) (others w' i)" by (simp add: unt.faults)
qed

text \<open>
  C17: revoking a principal is all or nothing. When it fails, at whichever statement of the
  transaction, no table has changed; when it succeeds on a principal that was not revoked yet, the
  principal is revoked, none of its identities or sessions is active, none of its login codes is
  left, and the rows of every other principal are as they were; on a principal that was revoked
  before it changes nothing.
\<close>

theorem principal_revocation_cascades:
  assumes "db_ok w" "principal_Revoke i at w = (r, w')"
  shows "case r of
           Inl e \<Rightarrow> untouched w w'
         | Inr u \<Rightarrow> (if \<exists>p \<in> set (wd_principals w). pw_ID p = i \<and> pw_Status p = PrincipalRevoked then untouched w w'
                    else cut_off w' i \<and> untouched (others w i) (others w' i))"
proof (cases r)
  case (Inl e)
  with assms(2) show ?thesis by (auto intro: principal_Revoke_Inl)
next
  case (Inr u)
  then have run: "principal_Revoke i at w = (Inr (), w')" using assms(2) by simp
  show ?thesis
  proof (cases "\<exists>p \<in> set (wd_principals w). pw_ID p = i \<and> pw_Status p = PrincipalRevoked")
    case True
    then show ?thesis using Inr principal_Revoke_again [OF run _ _ _ assms(1)] by auto
  next
    case False
    then show ?thesis
      using Inr principal_Revoke_cut_off [OF run] by auto
  qed
qed

end
