(* ===== verification/Http_Gate.thy ===== *)
theory Http_Gate
  imports Http_Routes Auth_System Share_Resolver Share_Audit
begin

text \<open>
  The gate of the HTTP API: what a request passes before a handler of the route table runs and
  what its answer passes before it leaves. \<open>internal/server/http/middleware_auth.go\<close>,
  \<open>scope.go\<close> (\<open>RequireScope\<close>), \<open>capabilities.go\<close> (\<open>RequireCapability\<close>), \<open>middleware_visibility.go\<close>,
  \<open>middleware_viewer.go\<close>, \<open>session_guard.go\<close>, the cookies and the same-origin rule of
  \<open>ui_session.go\<close>, and the order \<open>mountAPIRoutes\<close> and \<open>NewRouterWithConfig\<close> of \<open>server.go\<close> wrap
  them in. A middleware is a function on handlers; a handler takes the request's context, the
  request and the instance's state to an answer, the ledger it leaves and the new state, so the
  theorems can say whether, with which context and in which state a handler is called. A request
  reads the clock once. \<open>url.Parse\<close>, \<open>encoding/json\<close> and
  \<open>strconv.Quote\<close> are the parameters of \<open>http_env\<close>.
\<close>

section \<open>Requests, answers, handlers\<close>

record http_env =
  he_url_host :: "string \<Rightarrow> string option"
  he_error_json :: "string \<Rightarrow> string \<Rightarrow> string"
  he_quote :: "string \<Rightarrow> string"
  he_codec :: codec

record Request =
  rq_Method :: string
  rq_Path :: string
  rq_Host :: string
  rq_RemoteAddr :: string
  rq_TLS :: "nat option"
  rq_Header :: "(string \<times> string) list"
  rq_Cookies :: "(string \<times> string) list"
  rq_ContentLength :: int
  rq_Now :: time

definition Header_Get :: "Request \<Rightarrow> string \<Rightarrow> string" where
  "Header_Get r k = (case map_of (rq_Header r) k of None \<Rightarrow> [] | Some v \<Rightarrow> v)"

definition Request_Cookie :: "Request \<Rightarrow> string \<Rightarrow> string option" where
  "Request_Cookie r nm = map_of (rq_Cookies r) nm"

record Cookie =
  ck_Name :: string
  ck_Value :: string
  ck_Path :: string
  ck_HttpOnly :: bool
  ck_Secure :: bool
  ck_SameSiteStrict :: bool
  ck_MaxAge :: int
  ck_Expires :: time

datatype 'b reply = Refusal string string | Answer 'b | NoContent

record 'b Response =
  rp_Status :: int
  rp_Reply :: "'b reply"
  rp_Cookies :: "Cookie list"
  rp_Headers :: "(string \<times> string) list"

definition respond :: "int \<Rightarrow> 'b reply \<Rightarrow> 'b Response" where
  "respond status b = \<lparr>rp_Status = status, rp_Reply = b, rp_Cookies = [], rp_Headers = []\<rparr>"

definition CodeNotFound :: string where "CodeNotFound = ''NOT_FOUND''"
definition CodeVisibilityBackstop :: string where "CodeVisibilityBackstop = ''VISIBILITY_BACKSTOP''"
definition CodeNotShared :: string where "CodeNotShared = ''NOT_SHARED''"
definition notSharedMessage :: string where "notSharedMessage = ''not shared with this principal''"
definition ErrRestrictedViewer_text :: string where
  "ErrRestrictedViewer_text = ''restricted viewer: scoped reads not supported''"
definition ErrNoViewer_text :: string where "ErrNoViewer_text = ''no viewer attached''"

definition WriteError :: "int \<Rightarrow> string \<Rightarrow> string \<Rightarrow> 'b Response" where
  "WriteError status code msg =
     (if status = 500 \<and> Contains msg ErrRestrictedViewer_text \<and> \<not> Contains msg ErrNoViewer_text
      then respond 403 (Refusal CodeNotShared notSharedMessage)
      else respond status (Refusal code msg))"

definition SetCookies :: "Cookie list \<Rightarrow> 'b Response \<Rightarrow> 'b Response" where
  "SetCookies cs resp = resp\<lparr>rp_Cookies := cs @ rp_Cookies resp\<rparr>"

definition SetHeader :: "string \<Rightarrow> string \<Rightarrow> 'b Response \<Rightarrow> 'b Response" where
  "SetHeader k v resp = resp\<lparr>rp_Headers := (k, v) # rp_Headers resp\<rparr>"

text \<open>The bytes of a reply.\<close>

definition wire :: "http_env \<Rightarrow> string reply \<Rightarrow> string" where
  "wire env b = (case b of Refusal code msg \<Rightarrow> he_error_json env code msg | Answer body \<Rightarrow> body | NoContent \<Rightarrow> [])"

datatype SecurityEvent =
    AuthFailure string
  | ACLDenial string
  | VisibilityBackstop string string string "string list"

record Context =
  rc_auth :: auth_context
  rc_viewer :: "Viewer option"
  rc_ledger :: "Ledger option"
  rc_preview :: "Preview option"

record Instance =
  it_world :: auth_world
  it_viewers :: "Resolver option"
  it_audit :: "AuditWriter option"
  it_security :: "SecurityEvent list option"

definition emit :: "SecurityEvent \<Rightarrow> Instance \<Rightarrow> Instance" where
  "emit e s = s\<lparr>it_security := map_option (\<lambda>es. es @ [e]) (it_security s)\<rparr>"

type_synonym Handler = "Context \<Rightarrow> Request \<Rightarrow> Instance \<Rightarrow> (string Response \<times> Ledger option) \<times> Instance"

text \<open>The ledger is shared by reference: a middleware that answers leaves the one of its context.\<close>

definition refuse :: "Context \<Rightarrow> string Response \<Rightarrow> Instance \<Rightarrow> (string Response \<times> Ledger option) \<times> Instance" where
  "refuse ctx resp s = ((resp, rc_ledger ctx), s)"

section \<open>Addresses, cookies and origins\<close>

text \<open>
  \<open>net.SplitHostPort\<close>: the port starts after the last colon; an IPv6 host stands in brackets.
\<close>

definition last_colon :: "string \<Rightarrow> nat option" where
  "last_colon s = (case find (\<lambda>i. s ! i = CHR '':'') (rev [0..<length s]) of None \<Rightarrow> None | Some i \<Rightarrow> Some i)"

definition first_index :: "char \<Rightarrow> string \<Rightarrow> nat option" where
  "first_index c s = find (\<lambda>i. s ! i = c) [0..<length s]"

definition SplitHostPort :: "string \<Rightarrow> (string \<times> string) option" where
  "SplitHostPort hp =
     (case last_colon hp of
        None \<Rightarrow> None
      | Some i \<Rightarrow>
          if hp \<noteq> [] \<and> hd hp = CHR ''['' then
            (case first_index (CHR '']'') hp of
               None \<Rightarrow> None
             | Some e \<Rightarrow>
                 if e + 1 \<noteq> i then None
                 else if CHR ''['' \<in> set (drop 1 hp) \<or> CHR '']'' \<in> set (drop (e + 1) hp) then None
                 else Some (take (e - 1) (drop 1 hp), drop (i + 1) hp))
          else if CHR '':'' \<in> set (take i hp) \<or> CHR ''['' \<in> set hp \<or> CHR '']'' \<in> set hp then None
          else Some (take i hp, drop (i + 1) hp))"

definition remoteHost :: "Request \<Rightarrow> string" where
  "remoteHost r = (case SplitHostPort (rq_RemoteAddr r) of None \<Rightarrow> rq_RemoteAddr r | Some (h, p) \<Rightarrow> h)"

definition sessionCookiePrefix :: string where "sessionCookiePrefix = ''__Host-dpkms_''"

definition SessionCookieName :: "string \<Rightarrow> string" where
  "SessionCookieName host = sessionCookiePrefix @ hex_EncodeToString (take 8 (sha256_Sum256 (ToLower host)))"

definition sessionCookie :: "Request \<Rightarrow> string \<Rightarrow> time \<Rightarrow> Cookie" where
  "sessionCookie r v expires =
     \<lparr>ck_Name = SessionCookieName (rq_Host r), ck_Value = v, ck_Path = ''/'', ck_HttpOnly = True,
      ck_Secure = True, ck_SameSiteStrict = True,
      ck_MaxAge = (if v = [] then - 1 else max ((expires - rq_Now r) div second) 1),
      ck_Expires = (if v = [] then 0 else expires)\<rparr>"

definition allowedDevOrigins :: "string list" where
  "allowedDevOrigins = [''http://localhost:5173'', ''http://127.0.0.1:5173'']"

text \<open>
  \<open>http.CrossOriginProtection\<close> with a list of trusted origins: \<open>newSessionCOP\<close> builds it and
  \<open>Check\<close> decides.
\<close>

definition newSessionCOP :: "bool \<Rightarrow> string list" where
  "newSessionCOP devCORS = (if devCORS then allowedDevOrigins else [])"

definition cop_Check :: "http_env \<Rightarrow> string list \<Rightarrow> Request \<Rightarrow> bool" where
  "cop_Check env trusted r =
     (let site = Header_Get r ''Sec-Fetch-Site''; origin = Header_Get r ''Origin'';
          exempt = (origin \<in> set trusted)
      in if isSafeMethod (rq_Method r) then True
         else if site = ''same-origin'' \<or> site = ''none'' then True
         else if site \<noteq> [] then exempt
         else if origin = [] then True
         else if he_url_host env origin = Some (rq_Host r) then True
         else exempt)"

definition sameOriginWrite :: "http_env \<Rightarrow> string list \<Rightarrow> Request \<Rightarrow> bool" where
  "sameOriginWrite env cop r =
     (if Header_Get r ''Sec-Fetch-Site'' = [] \<and> Header_Get r ''Origin'' = [] then False else cop_Check env cop r)"

section \<open>Authentication of a request\<close>

definition SchemeBearer :: string where "SchemeBearer = ''bearer''"
definition SchemeAPIKey :: string where "SchemeAPIKey = ''apikey''"
definition HeaderAPIKey :: string where "HeaderAPIKey = ''X-API-Key''"
definition HeaderCSRF :: string where "HeaderCSRF = ''X-Ctxt-CSRF''"
definition HeaderViewAs :: string where "HeaderViewAs = ''X-Ctxt-View-As''"

text \<open>\<open>strings.EqualFold\<close> against a prefix of ASCII letters without \<open>k\<close> or \<open>s\<close> folds ASCII only.\<close>

definition cutPrefixFold :: "string \<Rightarrow> string \<Rightarrow> string option" where
  "cutPrefixFold s prefix =
     (if length s < length prefix \<or> map ascii_fold (take (length prefix) s) \<noteq> map ascii_fold prefix then None
      else Some (drop (length prefix) s))"

definition credentialFromRequest :: "Request \<Rightarrow> Credential" where
  "credentialFromRequest r =
     (let auth = Header_Get r ''Authorization''; key = Header_Get r HeaderAPIKey;
          bearer = (if auth = [] then None else cutPrefixFold auth ''Bearer '');
          c0 = (case bearer of None \<Rightarrow> ([], []) | Some tok \<Rightarrow> (SchemeBearer, TrimSpace tok));
          c1 = (if snd c0 = [] \<and> key \<noteq> [] then (SchemeAPIKey, key) else c0)
      in \<lparr>cr_Scheme = fst c1, cr_Token = snd c1, cr_TLS = rq_TLS r,
          cr_Cookie = (case Request_Cookie r (SessionCookieName (rq_Host r)) of None \<Rightarrow> [] | Some v \<Rightarrow> v)\<rparr>)"

text \<open>\<open>browserRulesPass\<close>: the refusal, or \<open>None\<close> when the rules pass.\<close>

definition browserRules :: "http_env \<Rightarrow> string list \<Rightarrow> Request \<Rightarrow> string Response option" where
  "browserRules env cop r =
     (if isSafeMethod (rq_Method r) then
        (let site = Header_Get r ''Sec-Fetch-Site''
         in if site \<noteq> [] \<and> site \<noteq> ''same-origin'' \<and> site \<noteq> ''none''
            then Some (WriteError 403 ''CROSS_ORIGIN_REQUEST''
                    ''cross-origin request refused: the web UI session answers this instance's own pages only'') else None)
      else if \<not> sameOriginWrite env cop r
      then Some (WriteError 403 ''CROSS_ORIGIN_REQUEST''
              ''cross-origin request refused: changes must come from this instance's own pages'')
      else if Header_Get r HeaderCSRF \<noteq> ''1''
      then Some (WriteError 403 ''CSRF_HEADER_REQUIRED'' ''web UI session writes must send X-Ctxt-CSRF: 1'')
      else None)"

definition attachCaller ::
    "Context \<Rightarrow> AuthPrincipal \<Rightarrow> time \<Rightarrow> Resolver option \<Rightarrow> (ViewerError + Context) \<times> Resolver option" where
  "attachCaller ctx p now viewers =
     (case Resolve viewers now (ap_ID p) (ap_Kind p) (meta_str (ap_Meta p) MetaIdentityID) of
        (Inl e, viewers') \<Rightarrow> (Inl e, viewers')
      | (Inr v, viewers') \<Rightarrow>
          (Inr (ctx\<lparr>rc_auth := Attach (rc_auth ctx) (Some p), rc_viewer := WithViewer (rc_viewer ctx) v\<rparr>), viewers'))"

definition unauthorized :: "AuthErr \<Rightarrow> string Response" where
  "unauthorized e =
     SetHeader ''WWW-Authenticate'' ''Bearer realm=\"dpkms\"''
       (WriteError 401 ''UNAUTHORIZED'' (if is_no_credential e then ''authentication required'' else ''invalid credentials''))"

text \<open>
  A chain that answers no error answers a principal; the branch without one stands for the nil
  dereference that the router's recoverer turns into a 500.
\<close>

definition RequireAuth :: "http_env \<Rightarrow> Chain \<Rightarrow> bool \<Rightarrow> Handler \<Rightarrow> Handler" where
  "RequireAuth env chain devCORS next ctx r s =
     (case Chain_Authenticate chain (credentialFromRequest r) (rq_Now r) (it_world s) of
        ((res, err), w) \<Rightarrow>
          (let s1 = s\<lparr>it_world := w\<rparr>;
               clear = (if re_ClearCookie res then [sessionCookie r [] 0] else [])
           in case err of
                Some e \<Rightarrow> refuse ctx (SetCookies clear (unauthorized e)) (emit (AuthFailure (remoteHost r)) s1)
              | None \<Rightarrow>
                  (case (if re_Ambient res then browserRules env (newSessionCOP devCORS) r else None) of
                     Some resp \<Rightarrow> refuse ctx (SetCookies clear resp) s1
                   | None \<Rightarrow>
                       (case re_Principal res of
                          None \<Rightarrow> refuse ctx (SetCookies clear (WriteError 500 ''INTERNAL_ERROR'' ''internal error'')) s1
                        | Some p \<Rightarrow>
                            (case attachCaller ctx p (rq_Now r) (it_viewers s1) of
                               (Inl e, vs) \<Rightarrow>
                                 refuse ctx (SetCookies clear (WriteError 500 ''INTERNAL_ERROR'' ''viewer resolution failed''))
                                   (s1\<lparr>it_viewers := vs\<rparr>)
                             | (Inr ctx', vs) \<Rightarrow>
                                 (case next ctx' r (s1\<lparr>it_viewers := vs\<rparr>) of
                                    ((resp, l), s2) \<Rightarrow> ((SetCookies clear resp, l), s2)))))))"

section \<open>Scopes and capabilities\<close>

text \<open>A scope is letters and a colon, which \<open>%q\<close> puts between quotes as it is.\<close>

definition writeInsufficientScope :: "Scope_name \<Rightarrow> bool \<Rightarrow> string Response" where
  "writeInsufficientScope scope session =
     SetHeader ''WWW-Authenticate'' (''Bearer realm=\"dpkms\", error=\"insufficient_scope\", scope=\"'' @ scope @ ''\"'')
       (respond 403 (Refusal ''INSUFFICIENT_SCOPE''
          (''missing scope '' @ scope @
           (if session then '': not available to a web UI session; use the ctxt CLI or an API token'' else []))))"

definition RequireScope :: "Scope_name \<Rightarrow> Handler \<Rightarrow> Handler" where
  "RequireScope scope next ctx r s =
     (case FromContext_auth (rc_auth ctx) of
        None \<Rightarrow> refuse ctx (unauthorized ErrNoCredential) s
      | Some p \<Rightarrow>
          if \<not> HasScope (Some p) scope
          then refuse ctx (writeInsufficientScope scope (IsSession (Some p))) (emit (ACLDenial (ap_ID p)) s)
          else next ctx r s)"

definition RequireCapability :: "string \<Rightarrow> string \<Rightarrow> Handler \<Rightarrow> Handler" where
  "RequireCapability meth pattern next ctx r s =
     (let access = map_of routeAccessTable (routeKey meth pattern)
      in case FromContext (rc_viewer ctx) of
           (v, ok) \<Rightarrow>
             if ok \<and> IsUnrestricted v then next ctx r s
             else if \<not> ok \<or> (case access of
                                None \<Rightarrow> True
                              | Some a \<Rightarrow> ra_ownerOnly a \<or> (ra_capability a \<noteq> [] \<and> \<not> Allows v (ra_capability a)))
             then refuse ctx (WriteError 403 CodeNotShared notSharedMessage) s
             else next ctx r s)"

section \<open>The visibility middleware\<close>

record VisibilityConfig =
  vc_Strict :: bool

definition route_reads :: "string \<Rightarrow> Scope_name \<Rightarrow> bool" where
  "route_reads meth scope \<longleftrightarrow> meth = [] \<or> isSafeMethod meth \<or> Scope_Verb scope = ''read''"

text \<open>\<open>viewAs\<close>: a refusal that ends the request, or the previewed viewer.\<close>

definition viewAs ::
    "http_env \<Rightarrow> Resolver option \<Rightarrow> time \<Rightarrow> Viewer \<Rightarrow> bool \<Rightarrow> bool \<Rightarrow> string \<Rightarrow> (string Response + Viewer) \<times> Resolver option" where
  "viewAs env viewers now v ok reads target =
     (if \<not> ok \<or> \<not> IsUnrestricted v
      then (Inl (WriteError 403 ''VIEW_AS_OWNER_ONLY'' ''X-Ctxt-View-As is for the owner''), viewers)
      else if \<not> reads
      then (Inl (WriteError 400 ''VIEW_AS_READ_ONLY'' ''X-Ctxt-View-As previews read routes only''), viewers)
      else case ViewAs viewers now target of
             (Inl e, vs) \<Rightarrow>
               (Inl (if e = ViewAsUnknown then WriteError 404 CodeNotFound (''no principal or share policy named '' @ he_quote env target)
                     else WriteError 500 ''INTERNAL_ERROR'' ''view-as resolution failed''), vs)
           | (Inr pv, vs) \<Rightarrow> (Inr pv, vs))"

definition previewContext :: "Context \<Rightarrow> Viewer \<Rightarrow> string \<Rightarrow> Context" where
  "previewContext ctx pv target =
     ctx\<lparr>rc_viewer := WithViewer (rc_viewer ctx) pv,
         rc_preview := Some (case FromContext_auth (rc_auth ctx) of
            None \<Rightarrow> \<lparr>pv_Target = target, pv_Principal = OwnerPrincipal, pv_Identity = []\<rparr>
          | Some p \<Rightarrow> \<lparr>pv_Target = target, pv_Principal = ap_ID p, pv_Identity = meta_str (ap_Meta p) MetaIdentityID\<rparr>)\<rparr>"

text \<open>
  What happens to a recorded response: the audit entry, the backstop, and either an error or the
  checked body under the recorded status.
\<close>

definition check_response ::
    "http_env \<Rightarrow> bool \<Rightarrow> string \<Rightarrow> Shape \<Rightarrow> Viewer \<Rightarrow> Context \<Rightarrow> Request \<Rightarrow>
     (string Response \<times> Ledger option) \<times> Instance \<Rightarrow> (string Response \<times> Ledger option) \<times> Instance" where
  "check_response env strict route shape v ctx r answered =
     (case answered of
        ((resp, l), s) \<Rightarrow>
          (let s1 = s\<lparr>it_audit := Record (it_audit s) (Some (AccessEntryFor (rc_preview ctx) v route l (rq_Now r)))\<rparr>;
               keep = (\<lambda>out. out\<lparr>rp_Cookies := rp_Cookies resp @ rp_Cookies out, rp_Headers := rp_Headers out @ rp_Headers resp\<rparr>)
           in case Backstop (he_codec env) (wire env (rp_Reply resp)) (HTTPPaths shape) l of
                Inl e \<Rightarrow> ((keep (WriteError 500 ''INTERNAL_ERROR'' ''response cannot be checked for visibility''), l), s1)
              | Inr res \<Rightarrow>
                  (let who = (case FromContext_auth (rc_auth ctx) of None \<Rightarrow> [] | Some p \<Rightarrow> ap_ID p);
                       s2 = (if bs_Hits res \<noteq> [] then emit (VisibilityBackstop who route (PolicyKey v) (bs_Hits res)) s1 else s1)
                   in if bs_Hits res \<noteq> [] \<and> strict
                      then ((keep (WriteError 500 CodeVisibilityBackstop
                                   ''the response carried data outside the viewer's visibility and was refused''), l), s2)
                      else if bs_Absent res
                      then ((keep (WriteError 404 CodeNotFound ''resource not found''), l), s2)
                      else ((resp\<lparr>rp_Reply := Answer (bs_Body res)\<rparr>, l), s2))))"

definition Visibility :: "http_env \<Rightarrow> VisibilityConfig \<Rightarrow> string \<Rightarrow> string \<Rightarrow> Scope_name \<Rightarrow> Handler \<Rightarrow> Handler" where
  "Visibility env cfg meth pattern scope next ctx r s =
     (case FromContext (rc_viewer ctx) of
        (v0, ok0) \<Rightarrow>
          (let target = TrimSpace (Header_Get r HeaderViewAs);
               seen = (if target = [] then (Inr (v0, ok0, ctx), s)
                       else case viewAs env (it_viewers s) (rq_Now r) v0 ok0 (route_reads meth scope) target of
                              (Inl resp, vs) \<Rightarrow> (Inl resp, s\<lparr>it_viewers := vs\<rparr>)
                            | (Inr pv, vs) \<Rightarrow> (Inr (pv, True, previewContext ctx pv target), s\<lparr>it_viewers := vs\<rparr>))
           in case seen of
                (Inl resp, s1) \<Rightarrow> refuse ctx resp s1
              | (Inr (v, ok, ctx1), s1) \<Rightarrow>
                  if ok \<and> IsUnrestricted v then next ctx1 r s1
                  else case RouteShape meth pattern of
                         None \<Rightarrow> refuse ctx1 (WriteError 500 ''INTERNAL_ERROR'' ''route declares no response shape'') s1
                       | Some shape \<Rightarrow>
                           (let ctx2 = ctx1\<lparr>rc_ledger := Some NewLedger\<rparr>
                            in check_response env (vc_Strict cfg) (routeKey meth pattern) shape v ctx2 r (next ctx2 r s1))))"

section \<open>Sessions of long requests\<close>

text \<open>
  \<open>SessionGuard\<close> passes every request on; for a session on a stream it starts \<open>watchSession\<close>,
  which checks the session at every tick and ends the request at the first failure. The ticks
  with the state they find are a list.
\<close>

fun watchSession :: "Sessions \<Rightarrow> string \<Rightarrow> (time \<times> auth_world) list \<Rightarrow> time option" where
  "watchSession ss hash [] = None"
| "watchSession ss hash ((now, w) # ticks) =
     (case fst (Sessions_Check ss hash now w) of Inl e \<Rightarrow> Some now | Inr _ \<Rightarrow> watchSession ss hash ticks)"

definition streamRoutes :: "string list" where "streamRoutes = [''GET /api/v1/events'']"

definition guarded_hash :: "Context \<Rightarrow> Request \<Rightarrow> string \<Rightarrow> string option" where
  "guarded_hash ctx r pattern =
     (if IsSession (FromContext_auth (rc_auth ctx)) \<and> rq_Method r @ '' '' @ pattern \<in> set streamRoutes
      then map_option HashSecret (Request_Cookie r (SessionCookieName (rq_Host r))) else None)"

section \<open>The route table behind the gate\<close>

record RouterConfig =
  rr_Auth :: "Chain option"
  rr_DevCORS :: bool
  rr_Visibility :: VisibilityConfig

definition mountAPIRoute :: "http_env \<Rightarrow> RouterConfig \<Rightarrow> apiRoute \<Rightarrow> Handler \<Rightarrow> Handler" where
  "mountAPIRoute env rc rt h =
     (let h1 = RequireCapability (rt_Method rt) (rt_Pattern rt) h;
          h2 = (case rr_Auth rc of None \<Rightarrow> h1 | Some _ \<Rightarrow> RequireScope (rt_Scope rt) h1)
      in Visibility env (rr_Visibility rc) (rt_Method rt) (rt_Pattern rt) (rt_Scope rt) h2)"

definition WithViewer_mw :: "Viewer \<Rightarrow> Handler \<Rightarrow> Handler" where
  "WithViewer_mw v next ctx r s = next (ctx\<lparr>rc_viewer := WithViewer (rc_viewer ctx) v\<rparr>) r s"

definition serve :: "http_env \<Rightarrow> RouterConfig \<Rightarrow> apiRoute \<Rightarrow> Handler \<Rightarrow> Handler" where
  "serve env rc rt h =
     (case rr_Auth rc of
        None \<Rightarrow> WithViewer_mw Unrestricted (mountAPIRoute env rc rt h)
      | Some chain \<Rightarrow> RequireAuth env chain (rr_DevCORS rc) (mountAPIRoute env rc rt h))"

definition fresh_context :: Context where
  "fresh_context = \<lparr>rc_auth = \<lparr>cx_principal = None, cx_policy = None\<rparr>, rc_viewer = None, rc_ledger = None, rc_preview = None\<rparr>"

section \<open>Middlewares as gates\<close>

text \<open>
  What every middleware here promises: for a given request it either answers alone, whatever the
  handler behind it, or calls that handler exactly once, with a context and a state related to
  the request by its contract \<open>lets\<close>, and finishes the handler's answer. Gates stack.
\<close>

locale gate =
  fixes mw :: "Handler \<Rightarrow> Handler" and lets :: "Context \<Rightarrow> Request \<Rightarrow> Instance \<Rightarrow> Context \<Rightarrow> Instance \<Rightarrow> bool"
  assumes lawful: "(\<exists>out. \<forall>h. mw h ctx r s = out) \<or> (\<exists>c s' fin. lets ctx r s c s' \<and> (\<forall>h. mw h ctx r s = fin (h c r s')))"
begin

lemma blocks: "(\<And>c s'. \<not> lets ctx r s c s') \<Longrightarrow> mw h ctx r s = mw g ctx r s"
  using lawful [of ctx r s] by auto

lemma gateE:
  obtains out where "\<And>h. mw h ctx r s = out"
  | c s' fin where "lets ctx r s c s'" "\<And>h. mw h ctx r s = fin (h c r s')"
  using lawful [of ctx r s] by auto

end

locale gate_pair = outer: gate mw1 lets1 + inner: gate mw2 lets2
  for mw1 lets1 mw2 lets2
begin

lemma stacked:
  "gate (\<lambda>h. mw1 (mw2 h)) (\<lambda>ctx r s c s'. \<exists>c1 s1. lets1 ctx r s c1 s1 \<and> lets2 c1 r s1 c s')"
proof (unfold_locales, goal_cases)
  case (1 ctx r s)
  show ?case
  proof (rule outer.gateE [of ctx r s])
    fix out assume "\<And>h. mw1 h ctx r s = out"
    then show ?thesis by blast
  next
    fix c1 s1 fin1 assume lets1: "lets1 ctx r s c1 s1" and mw1: "\<And>h. mw1 h ctx r s = fin1 (h c1 r s1)"
    show ?thesis
    proof (rule inner.gateE [of c1 r s1])
      fix out assume "\<And>h. mw2 h c1 r s1 = out"
      then show ?thesis using mw1 by metis
    next
      fix c s' fin2 assume "lets2 c1 r s1 c s'" "\<And>h. mw2 h c1 r s1 = fin2 (h c r s')"
      with lets1 mw1 have "(\<exists>c1 s1. lets1 ctx r s c1 s1 \<and> lets2 c1 r s1 c s') \<and>
          (\<forall>h. mw1 (mw2 h) ctx r s = (\<lambda>a. fin1 (fin2 a)) (h c r s'))" by auto
      then show ?thesis by (intro disjI2 exI)
    qed
  qed
qed

end

sublocale gate_pair \<subseteq> stack: gate "\<lambda>h. mw1 (mw2 h)" "\<lambda>ctx r s c s'. \<exists>c1 s1. lets1 ctx r s c1 s1 \<and> lets2 c1 r s1 c s'"
  by (rule stacked)

subsection \<open>The contracts\<close>

definition auth_lets :: "http_env \<Rightarrow> Chain \<Rightarrow> bool \<Rightarrow> Context \<Rightarrow> Request \<Rightarrow> Instance \<Rightarrow> Context \<Rightarrow> Instance \<Rightarrow> bool" where
  "auth_lets env chain devCORS ctx r s c s' \<longleftrightarrow>
     (\<exists>res w p v vs.
        Chain_Authenticate chain (credentialFromRequest r) (rq_Now r) (it_world s) = ((res, None), w) \<and>
        re_Principal res = Some p \<and>
        (re_Ambient res \<longrightarrow> browserRules env (newSessionCOP devCORS) r = None) \<and>
        Resolve (it_viewers s) (rq_Now r) (ap_ID p) (ap_Kind p) (meta_str (ap_Meta p) MetaIdentityID) = (Inr v, vs) \<and>
        c = ctx\<lparr>rc_auth := Attach (rc_auth ctx) (Some p), rc_viewer := Some v\<rparr> \<and>
        s' = s\<lparr>it_world := w, it_viewers := vs\<rparr>)"

definition scope_lets :: "Scope_name \<Rightarrow> Context \<Rightarrow> Request \<Rightarrow> Instance \<Rightarrow> Context \<Rightarrow> Instance \<Rightarrow> bool" where
  "scope_lets scope ctx r s c s' \<longleftrightarrow> HasScope (cx_principal (rc_auth ctx)) scope \<and> c = ctx \<and> s' = s"

definition route_open :: "string \<Rightarrow> string \<Rightarrow> Viewer \<Rightarrow> bool" where
  "route_open meth pattern v \<longleftrightarrow>
     IsUnrestricted v \<or>
     (\<exists>a. map_of routeAccessTable (routeKey meth pattern) = Some a \<and> \<not> ra_ownerOnly a \<and>
          (ra_capability a = [] \<or> Allows v (ra_capability a)))"

definition capability_lets :: "string \<Rightarrow> string \<Rightarrow> Context \<Rightarrow> Request \<Rightarrow> Instance \<Rightarrow> Context \<Rightarrow> Instance \<Rightarrow> bool" where
  "capability_lets meth pattern ctx r s c s' \<longleftrightarrow>
     (\<exists>v. rc_viewer ctx = Some v \<and> route_open meth pattern v) \<and> c = ctx \<and> s' = s"

text \<open>The viewer of a request after \<open>X-Ctxt-View-As\<close>: its own, or for the owner on a read the previewed one.\<close>

definition seen_as ::
    "string \<Rightarrow> Scope_name \<Rightarrow> Context \<Rightarrow> Request \<Rightarrow> Instance \<Rightarrow> Context \<Rightarrow> Instance \<Rightarrow> bool" where
  "seen_as meth scope ctx r s c s' \<longleftrightarrow>
     (let target = TrimSpace (Header_Get r HeaderViewAs)
      in if target = [] then c = ctx \<and> s' = s
         else \<exists>v pv vs. rc_viewer ctx = Some v \<and> IsUnrestricted v \<and> route_reads meth scope \<and>
                ViewAs (it_viewers s) (rq_Now r) target = (Inr pv, vs) \<and>
                c = previewContext ctx pv target \<and> s' = s\<lparr>it_viewers := vs\<rparr>)"

definition visibility_lets ::
    "string \<Rightarrow> string \<Rightarrow> Scope_name \<Rightarrow> Context \<Rightarrow> Request \<Rightarrow> Instance \<Rightarrow> Context \<Rightarrow> Instance \<Rightarrow> bool" where
  "visibility_lets meth pattern scope ctx r s c s' \<longleftrightarrow>
     (\<exists>c1. seen_as meth scope ctx r s c1 s' \<and>
        (if \<exists>v. rc_viewer c1 = Some v \<and> IsUnrestricted v then c = c1
         else RouteShape meth pattern \<noteq> None \<and> c = c1\<lparr>rc_ledger := Some NewLedger\<rparr>))"

subsection \<open>The middlewares keep them\<close>

lemma answers_alone: "(\<And>h. mw h = out) \<Longrightarrow> (\<exists>out. \<forall>h. mw h = out) \<or> Q"
  by auto

lemma calls_once: "P c s' \<Longrightarrow> (\<And>h. mw h = fin (h c r s')) \<Longrightarrow>
   Q \<or> (\<exists>c s' fin. P c s' \<and> (\<forall>h. mw h = fin (h c r s')))"
  by auto

interpretation ra: gate "RequireAuth env chain devCORS" "auth_lets env chain devCORS" for env chain devCORS
proof (unfold_locales, goal_cases)
  case (1 ctx r s)
  obtain res err w where run: "Chain_Authenticate chain (credentialFromRequest r) (rq_Now r) (it_world s) = ((res, err), w)"
    by (metis prod.exhaust)
  define clear where "clear = (if re_ClearCookie res then [sessionCookie r [] 0] else [])"
  consider (stop) "err \<noteq> None \<or> re_Principal res = None \<or> (re_Ambient res \<and> browserRules env (newSessionCOP devCORS) r \<noteq> None)"
    | (go) p where "err = None" "re_Principal res = Some p" "re_Ambient res \<longrightarrow> browserRules env (newSessionCOP devCORS) r = None"
    by (metis not_None_eq)
  then show ?case
  proof cases
    case stop
    then have "RequireAuth env chain devCORS h ctx r s = RequireAuth env chain devCORS (\<lambda>c r s. undefined) ctx r s" for h
      by (auto simp: RequireAuth_def run Let_def split: option.split)
    then show ?thesis by (rule answers_alone)
  next
    case go
    obtain vr vs where v: "Resolve (it_viewers s) (rq_Now r) (ap_ID p) (ap_Kind p) (meta_str (ap_Meta p) MetaIdentityID) = (vr, vs)"
      by (metis prod.exhaust)
    show ?thesis
    proof (cases vr)
      case (Inl e)
      with go v have "RequireAuth env chain devCORS h ctx r s =
          RequireAuth env chain devCORS (\<lambda>c r s. undefined) ctx r s" for h
        by (auto simp: RequireAuth_def run Let_def attachCaller_def split: option.split)
      then show ?thesis by (rule answers_alone)
    next
      case (Inr x)
      let ?c = "ctx\<lparr>rc_auth := Attach (rc_auth ctx) (Some p), rc_viewer := Some x\<rparr>"
      let ?s = "s\<lparr>it_world := w, it_viewers := vs\<rparr>"
      from go v Inr have "auth_lets env chain devCORS ctx r s ?c ?s" by (auto simp: auth_lets_def run)
      moreover from go v Inr have "RequireAuth env chain devCORS h ctx r s =
          (\<lambda>a. case a of ((resp, l), s2) \<Rightarrow> ((SetCookies clear resp, l), s2)) (h ?c r ?s)" for h
        by (auto simp: RequireAuth_def run Let_def attachCaller_def WithViewer_def clear_def)
      ultimately show ?thesis by (rule calls_once)
    qed
  qed
qed

interpretation rs: gate "RequireScope scope" "scope_lets scope" for scope
proof (unfold_locales, goal_cases)
  case (1 ctx r s)
  show ?case
  proof (cases "HasScope (cx_principal (rc_auth ctx)) scope")
    case True
    then obtain p where "cx_principal (rc_auth ctx) = Some p" by (auto simp: HasScope_def split: option.splits)
    with True have "scope_lets scope ctx r s ctx s" "RequireScope scope h ctx r s = (\<lambda>a. a) (h ctx r s)" for h
      by (simp_all add: scope_lets_def RequireScope_def FromContext_auth_def)
    then show ?thesis by (rule calls_once)
  next
    case False
    then show ?thesis
      by (cases "cx_principal (rc_auth ctx)") (simp_all add: RequireScope_def FromContext_auth_def answers_alone)
  qed
qed

interpretation rcap: gate "RequireCapability meth pattern" "capability_lets meth pattern" for meth pattern
proof (unfold_locales, goal_cases)
  case (1 ctx r s)
  show ?case
  proof (cases "\<exists>v. rc_viewer ctx = Some v \<and> route_open meth pattern v")
    case True
    then have "capability_lets meth pattern ctx r s ctx s" "RequireCapability meth pattern h ctx r s = (\<lambda>a. a) (h ctx r s)" for h
      by (auto simp: capability_lets_def RequireCapability_def route_open_def FromContext_def Let_def)
    then show ?thesis by (rule calls_once)
  next
    case False
    then have "RequireCapability meth pattern h ctx r s = refuse ctx (WriteError 403 CodeNotShared notSharedMessage) s" for h
      by (auto simp: RequireCapability_def route_open_def FromContext_def Let_def split: option.splits)
    then show ?thesis by (rule answers_alone)
  qed
qed

text \<open>What stands between a request and a restricted answer, with the viewer settled.\<close>

definition behind_view :: "http_env \<Rightarrow> VisibilityConfig \<Rightarrow> string \<Rightarrow> string \<Rightarrow> Handler \<Rightarrow> Viewer \<times> bool \<Rightarrow> Handler" where
  "behind_view env cfg meth pattern next vo ctx r s =
     (if snd vo \<and> IsUnrestricted (fst vo) then next ctx r s
      else case RouteShape meth pattern of
             None \<Rightarrow> refuse ctx (WriteError 500 ''INTERNAL_ERROR'' ''route declares no response shape'') s
           | Some shape \<Rightarrow>
               (let ctx2 = ctx\<lparr>rc_ledger := Some NewLedger\<rparr>
                in check_response env (vc_Strict cfg) (routeKey meth pattern) shape (fst vo) ctx2 r (next ctx2 r s)))"

lemma preview_viewer: "FromContext (rc_viewer (previewContext ctx pv target)) = (pv, True)"
  by (simp add: previewContext_def FromContext_def WithViewer_def split: option.split)

lemma Visibility_cases:
  obtains (refused) resp vs where "\<And>h. Visibility env cfg meth pattern scope h ctx r s = refuse ctx resp (s\<lparr>it_viewers := vs\<rparr>)"
      "\<exists>code msg. rp_Reply resp = Refusal code msg"
  | (seen) c s' where "seen_as meth scope ctx r s c s'"
      "\<And>h. Visibility env cfg meth pattern scope h ctx r s =
         behind_view env cfg meth pattern h (FromContext (rc_viewer c)) c r s'"
proof -
  obtain v ok where vo: "FromContext (rc_viewer ctx) = (v, ok)" by (metis prod.exhaust)
  let ?t = "TrimSpace (Header_Get r HeaderViewAs)"
  obtain vr vs where view: "viewAs env (it_viewers s) (rq_Now r) v ok (route_reads meth scope) ?t = (vr, vs)"
    by (metis prod.exhaust)
  consider (own) "?t = []" | (bad) resp where "?t \<noteq> []" "vr = Inl resp" | (other) pv where "?t \<noteq> []" "vr = Inr pv"
    by (cases vr) auto
  then show thesis
  proof cases
    case own
    show thesis
    proof (rule seen)
      show "seen_as meth scope ctx r s ctx s" using own by (simp add: seen_as_def)
      show "Visibility env cfg meth pattern scope h ctx r s =
          behind_view env cfg meth pattern h (FromContext (rc_viewer ctx)) ctx r s" for h
        using own by (simp add: Visibility_def behind_view_def vo Let_def split: option.split)
    qed
  next
    case bad
    show thesis
    proof (rule refused)
      show "Visibility env cfg meth pattern scope h ctx r s = refuse ctx resp (s\<lparr>it_viewers := vs\<rparr>)" for h
        using bad view by (simp add: Visibility_def vo Let_def)
      show "\<exists>code msg. rp_Reply resp = Refusal code msg"
        using bad view by (auto simp: viewAs_def WriteError_def respond_def split: if_splits prod.splits sum.splits)
    qed
  next
    case other
    show thesis
    proof (rule seen)
      show "seen_as meth scope ctx r s (previewContext ctx pv ?t) (s\<lparr>it_viewers := vs\<rparr>)"
        using other view vo
        by (auto simp: seen_as_def viewAs_def FromContext_def Let_def split: if_splits prod.splits sum.splits option.splits)
      show "Visibility env cfg meth pattern scope h ctx r s =
          behind_view env cfg meth pattern h (FromContext (rc_viewer (previewContext ctx pv ?t)))
            (previewContext ctx pv ?t) r (s\<lparr>it_viewers := vs\<rparr>)" for h
        using other view by (simp add: Visibility_def behind_view_def vo preview_viewer Let_def split: option.split)
    qed
  qed
qed

interpretation vis: gate "Visibility env cfg meth pattern scope" "visibility_lets meth pattern scope" for env cfg meth pattern scope
proof (unfold_locales, goal_cases)
  case (1 ctx r s)
  show ?case
  proof (rule Visibility_cases [of env cfg meth pattern scope ctx r s])
    fix resp vs assume "\<And>h. Visibility env cfg meth pattern scope h ctx r s = refuse ctx resp (s\<lparr>it_viewers := vs\<rparr>)"
    then show ?thesis by (rule answers_alone)
  next
    fix c s' assume seen: "seen_as meth scope ctx r s c s'"
      and run: "\<And>h. Visibility env cfg meth pattern scope h ctx r s =
        behind_view env cfg meth pattern h (FromContext (rc_viewer c)) c r s'"
    obtain v ok where vo: "FromContext (rc_viewer c) = (v, ok)" by (metis prod.exhaust)
    have vo': "ok \<and> IsUnrestricted v \<longleftrightarrow> (\<exists>v. rc_viewer c = Some v \<and> IsUnrestricted v)"
      using vo by (auto simp: FromContext_def split: option.splits)
    show ?thesis
    proof (cases "ok \<and> IsUnrestricted v")
      case True
      with seen vo' have "visibility_lets meth pattern scope ctx r s c s'" unfolding visibility_lets_def by metis
      moreover have "Visibility env cfg meth pattern scope h ctx r s = (\<lambda>a. a) (h c r s')" for h
        using True by (simp add: run behind_view_def vo)
      ultimately show ?thesis by (rule calls_once)
    next
      case False
      show ?thesis
      proof (cases "RouteShape meth pattern")
        case None
        with False have "Visibility env cfg meth pattern scope h ctx r s =
            refuse c (WriteError 500 ''INTERNAL_ERROR'' ''route declares no response shape'') s'" for h
          by (auto simp: run behind_view_def vo)
        then show ?thesis by (rule answers_alone)
      next
        case (Some shape)
        let ?c = "c\<lparr>rc_ledger := Some NewLedger\<rparr>"
        have "visibility_lets meth pattern scope ctx r s ?c s'"
          unfolding visibility_lets_def using seen vo' False Some by auto
        moreover have "Visibility env cfg meth pattern scope h ctx r s =
            check_response env (vc_Strict cfg) (routeKey meth pattern) shape v ?c r (h ?c r s')" for h
          using False Some by (auto simp: run behind_view_def vo Let_def)
        ultimately show ?thesis by (rule calls_once)
      qed
    qed
  qed
qed

end
