(* ===== verification/Http_Registry.thy ===== *)
theory Http_Registry
  imports Http_Gate
begin

text \<open>
  The principal registry over the API: \<open>internal/server/http/handlers_principals.go\<close> (principals,
  their identities and keys, under \<open>admin:principals\<close>) and \<open>handlers_self.go\<close> (a caller's own
  keys, identities and sessions, under \<open>write:self\<close>), with \<open>expiryOf\<close> of \<open>handlers_share.go\<close>. A
  handler takes the wired routes, the caller of the request's context, its URL parameters, its
  decoded body (\<open>None\<close> when the body is not the JSON it should be) and the clock, and runs on the
  database of \<open>Auth_Store\<close>; its answer is the status and the body, or the error envelope.
\<close>

section \<open>Answers\<close>

record ownSession =
  os_Session :: UISession
  os_Status :: string
  os_Current :: bool

datatype RegistryBody =
    PrincipalBody PrincipalRow
  | PrincipalList "PrincipalRow list"
  | IdentityBody Identity
  | IdentityList "Identity list"
  | KeyBody string IssuedKey
  | KeyList "KeyInfo list"
  | SessionList "ownSession list"

text \<open>A handler over the database, for a kind of body; the plumbing is shared by the sharing routes.\<close>

type_synonym 'b handler_op = "auth_world \<Rightarrow> 'b Response \<times> auth_world"
type_synonym registry_op = "RegistryBody handler_op"

definition reply :: "'b Response \<Rightarrow> 'b handler_op" where
  "reply resp w = (resp, w)"

definition WriteJSON :: "int \<Rightarrow> 'b \<Rightarrow> 'b handler_op" where
  "WriteJSON status b = reply (respond status (Answer b))"

definition refuse_with :: "int \<Rightarrow> string \<Rightarrow> string \<Rightarrow> 'b handler_op" where
  "refuse_with status code msg = reply (WriteError status code msg)"

definition no_content :: "'b handler_op" where
  "no_content = reply (respond 204 NoContent)"

text \<open>A call of a store whose error the handler answers, and whose result it goes on with.\<close>

definition call :: "'a auth_op \<Rightarrow> (AuthErr \<Rightarrow> 'b handler_op) \<Rightarrow> ('a \<Rightarrow> 'b handler_op) \<Rightarrow> 'b handler_op" where
  "call m err k w = (case m w of (Inl e, w') \<Rightarrow> err e w' | (Inr x, w') \<Rightarrow> k x w')"

fun is_exists :: "AuthErr \<Rightarrow> bool" where
  "is_exists ErrAlreadyExists = True"
| "is_exists (ErrJoin a b) = (is_exists a \<or> is_exists b)"
| "is_exists _ = False"

fun is_owner_protected :: "AuthErr \<Rightarrow> bool" where
  "is_owner_protected ErrOwnerProtected = True"
| "is_owner_protected (ErrJoin a b) = (is_owner_protected a \<or> is_owner_protected b)"
| "is_owner_protected _ = False"

definition CodePrincipalInactive :: string where "CodePrincipalInactive = ''PRINCIPAL_INACTIVE''"
definition CodeOwnerProtected :: string where "CodeOwnerProtected = ''OWNER_PROTECTED''"
definition CodeAlreadyExists :: string where "CodeAlreadyExists = ''ALREADY_EXISTS''"
definition CodeNotSelf :: string where "CodeNotSelf = ''NOT_SELF''"
definition CodeInvalidScope :: string where "CodeInvalidScope = ''INVALID_SCOPE''"
definition CodeScopeNotHeld :: string where "CodeScopeNotHeld = ''SCOPE_NOT_HELD''"

definition writeRegistryError :: "string \<Rightarrow> AuthErr \<Rightarrow> 'b handler_op" where
  "writeRegistryError what e =
     (if is_not_found e then refuse_with 404 CodeNotFound (''no such '' @ what)
      else if is_exists e then refuse_with 409 CodeAlreadyExists (what @ '' already exists'')
      else if is_inactive e then refuse_with 409 CodePrincipalInactive ''the principal is suspended or revoked''
      else if is_owner_protected e
      then refuse_with 403 CodeOwnerProtected ''the owner principal cannot be created, suspended or revoked''
      else refuse_with 500 ''INTERNAL_ERROR'' (''could not '' @ what))"

section \<open>Guards\<close>

record registryRoutes =
  gr_reg :: bool
  gr_keys :: "KeyIssuer option"
  gr_sessions :: "Sessions option"
  gr_quote :: "string \<Rightarrow> string"

text \<open>\<open>ready\<close> hands the keys to the handler behind it.\<close>

definition ready :: "registryRoutes \<Rightarrow> (KeyIssuer \<Rightarrow> registry_op) \<Rightarrow> registry_op" where
  "ready g k =
     (if gr_reg g then (case gr_keys g of
          None \<Rightarrow> refuse_with 404 CodeNotFound ''this instance has no principal registry''
        | Some iss \<Rightarrow> k iss)
      else refuse_with 404 CodeNotFound ''this instance has no principal registry'')"

definition caller :: "AuthPrincipal option \<Rightarrow> AuthPrincipal" where
  "caller p = (case p of None \<Rightarrow> LocalPrincipal | Some q \<Rightarrow> q)"

definition ownerGuard :: "AuthPrincipal option \<Rightarrow> string \<Rightarrow> 'b handler_op \<Rightarrow> 'b handler_op" where
  "ownerGuard p principalID k =
     (if principalID = OwnerPrincipal \<and> \<not> IsSelf (Some (caller p)) OwnerPrincipal
      then refuse_with 403 CodeOwnerProtected
        ''only the owner manages the owner principal's credentials over the API; on the host, dpkms auth key create --principal owner --maintenance-override (dpkms stopped)''
      else k)"

definition callerCeiling :: "AuthPrincipal option \<Rightarrow> Scope_name list" where
  "callerCeiling p = filter (\<lambda>s. s \<in> set (ScopesForRoles (ap_Roles (caller p)))) (ap_Scopes (caller p))"

definition exceeds :: "Scope_name list \<Rightarrow> Scope_name list \<Rightarrow> Scope_name option" where
  "exceeds c scopes = find (\<lambda>s. s \<notin> set c) scopes"

definition withinCeiling :: "AuthPrincipal option \<Rightarrow> Scope_name list \<Rightarrow> string \<Rightarrow> 'b handler_op \<Rightarrow> 'b handler_op" where
  "withinCeiling p scopes what k =
     (case exceeds (callerCeiling p) scopes of
        Some s \<Rightarrow> refuse_with 403 CodeScopeNotHeld
          (what @ '' would hold '' @ s @
           '', which the caller does not: nothing yielded over the API holds more than the caller that asked for it'')
      | None \<Rightarrow> k)"

definition decodeRegistryBody :: "'r option \<Rightarrow> ('r \<Rightarrow> 'b handler_op) \<Rightarrow> 'b handler_op" where
  "decodeRegistryBody body k =
     (case body of None \<Rightarrow> refuse_with 400 ''INVALID_REQUEST'' ''invalid JSON'' | Some req \<Rightarrow> k req)"

section \<open>Principals\<close>

definition IdentityMethodProxy :: string where "IdentityMethodProxy = ''proxy''"
definition IdentityMethodOIDC :: string where "IdentityMethodOIDC = ''oidc''"
definition manualIdentityMethods :: "string list" where
  "manualIdentityMethods = [IdentityMethodProxy, IdentityMethodOIDC]"

definition defaultRolesByKind :: "string \<Rightarrow> string list" where
  "defaultRolesByKind kind =
     (if kind = PrincipalKindPerson then [RoleReader]
      else if kind = PrincipalKindDevice \<or> kind = PrincipalKindPeer then [RoleWriter] else [])"

definition ListPrincipals :: "registryRoutes \<Rightarrow> string \<Rightarrow> string \<Rightarrow> int \<Rightarrow> registry_op" where
  "ListPrincipals g kind status limit = ready g (\<lambda>_.
     if kind \<noteq> [] \<and> kind \<notin> set PrincipalKinds
     then refuse_with 400 ''INVALID_PARAM'' (''kind: want one of '' @ Join PrincipalKinds '', '')
     else if status \<noteq> [] \<and> status \<notin> set PrincipalStatuses
     then refuse_with 400 ''INVALID_PARAM'' (''status: want one of '' @ Join PrincipalStatuses '', '')
     else call (principal_List \<lparr>pf_Kind = kind, pf_Status = status, pf_Limit = limit\<rparr>) (writeRegistryError ''list principals'')
            (\<lambda>list. WriteJSON 200 (PrincipalList list)))"

record createPrincipalRequest =
  cp_Kind :: string
  cp_DisplayName :: string
  cp_Roles :: "string list"

definition role_error :: "(string \<Rightarrow> string) \<Rightarrow> RoleError \<Rightarrow> string" where
  "role_error quote e =
     (case e of NoRole \<Rightarrow> ''at least one role is required (valid: '' @ Join Roles '', '' @ '')''
              | UnknownRole r \<Rightarrow> ''unknown role '' @ quote r @ '' (valid: '' @ Join Roles '', '' @ '')'')"

definition new_principal :: "string \<Rightarrow> string \<Rightarrow> string list \<Rightarrow> PrincipalRow" where
  "new_principal kind nm roles =
     \<lparr>pw_ID = [], pw_Kind = kind, pw_DisplayName = nm, pw_Roles = roles, pw_Status = [], pw_CreatedAt = 0,
      pw_RevokedAt = None\<rparr>"

definition CreatePrincipal ::
    "registryRoutes \<Rightarrow> AuthPrincipal option \<Rightarrow> createPrincipalRequest option \<Rightarrow> time \<Rightarrow> registry_op" where
  "CreatePrincipal g p body now = ready g (\<lambda>_. decodeRegistryBody body (\<lambda>req.
     if cp_Kind req \<notin> set PrincipalKinds \<or> cp_Kind req = PrincipalKindOwner
     then refuse_with 400 ''INVALID_REQUEST'' ''kind: want person, device or peer''
     else if TrimSpace (cp_DisplayName req) = [] then refuse_with 400 ''INVALID_REQUEST'' ''display_name is required''
     else let roles = (if cp_Roles req = [] then defaultRolesByKind (cp_Kind req) else cp_Roles req)
          in case ValidateRoles roles of
               Some e \<Rightarrow> refuse_with 400 ''INVALID_REQUEST'' (''roles: '' @ role_error (gr_quote g) e)
             | None \<Rightarrow>
                 withinCeiling p (ScopesForRoles roles) (''a principal with roles '' @ Join roles '', '')
                   (call (principal_Create (new_principal (cp_Kind req) (TrimSpace (cp_DisplayName req)) roles) now)
                      (writeRegistryError ''create principal'') (\<lambda>q. WriteJSON 201 (PrincipalBody q)))))"

definition answerPrincipal :: "string \<Rightarrow> registry_op" where
  "answerPrincipal i = call (principal_Get i) (writeRegistryError ''principal'') (\<lambda>p. WriteJSON 200 (PrincipalBody p))"

definition GetPrincipal :: "registryRoutes \<Rightarrow> string \<Rightarrow> registry_op" where
  "GetPrincipal g i = ready g (\<lambda>_. answerPrincipal i)"

definition SuspendPrincipal :: "registryRoutes \<Rightarrow> AuthPrincipal option \<Rightarrow> string \<Rightarrow> registry_op" where
  "SuspendPrincipal g p i = ready g (\<lambda>_. ownerGuard p i
     (call (principal_Suspend i) (writeRegistryError ''principal'') (\<lambda>_. answerPrincipal i)))"

definition RevokePrincipal :: "registryRoutes \<Rightarrow> AuthPrincipal option \<Rightarrow> string \<Rightarrow> time \<Rightarrow> registry_op" where
  "RevokePrincipal g p i now = ready g (\<lambda>_. ownerGuard p i
     (call (principal_Revoke i now) (writeRegistryError ''principal'') (\<lambda>_. answerPrincipal i)))"

section \<open>Identities\<close>

definition writeIdentities :: "string \<Rightarrow> registry_op" where
  "writeIdentities i =
     call (identity_ListByPrincipal i) (writeRegistryError ''list identities'') (\<lambda>list. WriteJSON 200 (IdentityList list))"

definition ListIdentities :: "registryRoutes \<Rightarrow> string \<Rightarrow> registry_op" where
  "ListIdentities g i = ready g (\<lambda>_. call (principal_Get i) (writeRegistryError ''principal'') (\<lambda>_. writeIdentities i))"

record addIdentityRequest =
  ai_Method :: string
  ai_Issuer :: string
  ai_Subject :: string
  ai_Name :: string

definition bound_identity :: "string \<Rightarrow> addIdentityRequest \<Rightarrow> Identity" where
  "bound_identity i req =
     \<lparr>id_ID = [], id_PrincipalID = i, id_Method = ai_Method req, id_Issuer = TrimSpace (ai_Issuer req),
      id_Subject = TrimSpace (ai_Subject req), id_Name = TrimSpace (ai_Name req), id_CreatedAt = 0,
      id_RevokedAt = None, id_LastUsedAt = None\<rparr>"

definition AddIdentity ::
    "registryRoutes \<Rightarrow> AuthPrincipal option \<Rightarrow> string \<Rightarrow> addIdentityRequest option \<Rightarrow> time \<Rightarrow> registry_op" where
  "AddIdentity g p i body now = ready g (\<lambda>_. decodeRegistryBody body (\<lambda>req.
     if ai_Method req \<notin> set manualIdentityMethods
     then refuse_with 400 ''INVALID_REQUEST'' (''method: want '' @ Join manualIdentityMethods '' or '' @
            '' (keys, links and passkeys are bound by their own ceremonies)'')
     else if TrimSpace (ai_Subject req) = [] then refuse_with 400 ''INVALID_REQUEST'' ''subject is required''
     else ownerGuard p i (call (principal_Get i) (writeRegistryError ''principal'') (\<lambda>q.
       if \<not> Principal_Active q then refuse_with 409 CodePrincipalInactive ''the principal is suspended or revoked''
       else withinCeiling p (ScopesForRoles (pw_Roles q)) (''an identity on principal '' @ pw_ID q)
              (call (identity_Create (bound_identity (pw_ID q) req) now) (writeRegistryError ''identity'')
                (\<lambda>idn. WriteJSON 201 (IdentityBody idn)))))))"

definition revokeIdentity :: "KeyIssuer \<Rightarrow> Identity \<Rightarrow> time \<Rightarrow> unit auth_op" where
  "revokeIdentity iss idn now =
     (if id_Method idn = IdentityMethodAPIKey then Keys_Revoke iss (id_Subject idn) now
      else identity_Revoke (id_ID idn) now)"

definition RemoveIdentity ::
    "registryRoutes \<Rightarrow> AuthPrincipal option \<Rightarrow> string \<Rightarrow> string \<Rightarrow> time \<Rightarrow> registry_op" where
  "RemoveIdentity g p i identity now = ready g (\<lambda>iss. ownerGuard p i
     (call (identity_Get identity) (\<lambda>_. refuse_with 404 CodeNotFound ''no such identity on this principal'') (\<lambda>idn.
       if id_PrincipalID idn \<noteq> i then refuse_with 404 CodeNotFound ''no such identity on this principal''
       else call (revokeIdentity iss idn now) (writeRegistryError ''revoke identity'') (\<lambda>_. no_content))))"

section \<open>Keys\<close>

definition writeKeys :: "KeyIssuer \<Rightarrow> string \<Rightarrow> registry_op" where
  "writeKeys iss i =
     call (Keys_ListByPrincipal iss i) (writeRegistryError ''list keys'') (\<lambda>list. WriteJSON 200 (KeyList list))"

definition ListPrincipalKeys :: "registryRoutes \<Rightarrow> string \<Rightarrow> registry_op" where
  "ListPrincipalKeys g i = ready g (\<lambda>iss. call (principal_Get i) (writeRegistryError ''principal'') (\<lambda>_. writeKeys iss i))"

record createKeyRequest =
  ckr_Name :: string
  ckr_ExpiresIn :: int
  ckr_ExpiresAt :: time
  ckr_Scopes :: "Scope_name list"

text \<open>A product of two 64-bit durations wraps.\<close>

definition wrap64 :: "int \<Rightarrow> int" where
  "wrap64 x = (x + 2 ^ 63) mod 2 ^ 64 - 2 ^ 63"

definition expiryOf :: "int \<Rightarrow> time \<Rightarrow> time \<Rightarrow> string + time" where
  "expiryOf expiresIn expiresAt now =
     (if expiresIn < 0 then Inl ''expires_in must be positive''
      else if expiresIn > 0 \<and> expiresAt \<noteq> 0 then Inl ''give expires_in or expires_at, not both''
      else if expiresIn > 0 then Inr (now + wrap64 (expiresIn * second))
      else if expiresAt \<noteq> 0 \<and> \<not> now < expiresAt then Inl ''expires_at is not in the future''
      else Inr expiresAt)"

definition scope_fault :: "(string \<Rightarrow> string) \<Rightarrow> PrincipalRow \<Rightarrow> Scope_name list \<Rightarrow> Scope_name \<Rightarrow> string option" where
  "scope_fault quote target granted s =
     (if s \<notin> set AllScopes then Some (''unknown scope '' @ quote s)
      else if s \<notin> set granted
      then Some (''scope '' @ s @ '' is not granted to principal '' @ pw_ID target @ '' (roles '' @ Join (pw_Roles target) '', '' @ '')'')
      else None)"

definition mintKey ::
    "registryRoutes \<Rightarrow> KeyIssuer \<Rightarrow> AuthPrincipal option \<Rightarrow> string \<Rightarrow> createKeyRequest \<Rightarrow> bool \<Rightarrow> time \<Rightarrow> registry_op" where
  "mintKey g iss p principalID req forSelf now =
     (case expiryOf (ckr_ExpiresIn req) (ckr_ExpiresAt req) now of
        Inl msg \<Rightarrow> refuse_with 400 ''INVALID_REQUEST'' msg
      | Inr expiresAt \<Rightarrow>
          call (principal_Get principalID) (writeRegistryError ''principal'') (\<lambda>target.
            if \<not> Principal_Active target then refuse_with 409 CodePrincipalInactive ''the principal is suspended or revoked''
            else
              (let granted = ScopesForRoles (pw_Roles target);
                   scopes = (if ckr_Scopes req \<noteq> [] then ckr_Scopes req else if forSelf then callerCeiling p else granted)
               in case List.map_filter (scope_fault (gr_quote g) target granted) scopes of
                    msg # _ \<Rightarrow> refuse_with 400 CodeInvalidScope msg
                  | [] \<Rightarrow>
                      withinCeiling p scopes (''a key for principal '' @ pw_ID target)
                        (call (Keys_Mint iss \<lparr>mk_PrincipalID = pw_ID target, mk_Name = TrimSpace (ckr_Name req),
                                             mk_ExpiresAt = expiresAt, mk_Scopes = scopes\<rparr> now)
                           (writeRegistryError ''create key'') (\<lambda>sk. WriteJSON 201 (KeyBody (fst sk) (snd sk)))))))"

definition CreatePrincipalKey ::
    "registryRoutes \<Rightarrow> AuthPrincipal option \<Rightarrow> string \<Rightarrow> createKeyRequest option \<Rightarrow> time \<Rightarrow> registry_op" where
  "CreatePrincipalKey g p i body now =
     ready g (\<lambda>iss. decodeRegistryBody body (\<lambda>req. ownerGuard p i (mintKey g iss p i req False now)))"

definition RevokePrincipalKey :: "registryRoutes \<Rightarrow> AuthPrincipal option \<Rightarrow> string \<Rightarrow> string \<Rightarrow> time \<Rightarrow> registry_op" where
  "RevokePrincipalKey g p i key now = ready g (\<lambda>iss. ownerGuard p i
     (call (Keys_Get iss key) (\<lambda>_. refuse_with 404 CodeNotFound ''no such key on this principal'') (\<lambda>info.
       if ik_PrincipalID info \<noteq> i then refuse_with 404 CodeNotFound ''no such key on this principal''
       else call (Keys_Revoke iss (ik_ID info) now) (writeRegistryError ''revoke key'') (\<lambda>_. no_content))))"

section \<open>The caller's own\<close>

definition ListOwnKeys :: "registryRoutes \<Rightarrow> AuthPrincipal option \<Rightarrow> registry_op" where
  "ListOwnKeys g p = ready g (\<lambda>iss. writeKeys iss (ap_ID (caller p)))"

definition CreateOwnKey :: "registryRoutes \<Rightarrow> AuthPrincipal option \<Rightarrow> createKeyRequest option \<Rightarrow> time \<Rightarrow> registry_op" where
  "CreateOwnKey g p body now =
     ready g (\<lambda>iss. decodeRegistryBody body (\<lambda>req. mintKey g iss p (ap_ID (caller p)) req True now))"

definition RevokeOwnKey :: "registryRoutes \<Rightarrow> AuthPrincipal option \<Rightarrow> string \<Rightarrow> time \<Rightarrow> registry_op" where
  "RevokeOwnKey g p key now = ready g (\<lambda>iss.
     call (Keys_Get iss key) (writeRegistryError ''key'') (\<lambda>info.
       if \<not> IsSelf (Some (caller p)) (ik_PrincipalID info)
       then refuse_with 403 CodeNotSelf ''this key belongs to another principal; admin:principals manages others' keys''
       else call (Keys_Revoke iss (ik_ID info) now) (writeRegistryError ''revoke key'') (\<lambda>_. no_content)))"

definition ListOwnIdentities :: "registryRoutes \<Rightarrow> AuthPrincipal option \<Rightarrow> registry_op" where
  "ListOwnIdentities g p = ready g (\<lambda>_. writeIdentities (ap_ID (caller p)))"

definition RemoveOwnIdentity :: "registryRoutes \<Rightarrow> AuthPrincipal option \<Rightarrow> string \<Rightarrow> time \<Rightarrow> registry_op" where
  "RemoveOwnIdentity g p identity now = ready g (\<lambda>iss.
     call (identity_Get identity) (writeRegistryError ''identity'') (\<lambda>idn.
       if \<not> IsSelf (Some (caller p)) (id_PrincipalID idn)
       then refuse_with 403 CodeNotSelf ''this identity belongs to another principal; admin:principals manages others' identities''
       else call (revokeIdentity iss idn now) (writeRegistryError ''revoke identity'') (\<lambda>_. no_content)))"

definition sessionStatus :: "UISession \<Rightarrow> time \<Rightarrow> string" where
  "sessionStatus s now =
     (if us_RevokedAt s \<noteq> None then ''revoked'' else if \<not> UISession_Active s now then ''expired'' else ''active'')"

definition ListOwnSessions :: "registryRoutes \<Rightarrow> AuthPrincipal option \<Rightarrow> string \<Rightarrow> time \<Rightarrow> registry_op" where
  "ListOwnSessions g p allParam now = ready g (\<lambda>_.
     case gr_sessions g of
       None \<Rightarrow> WriteJSON 200 (SessionList [])
     | Some ss \<Rightarrow>
         call (Sessions_ListByPrincipal (ap_ID (caller p)) (allParam = ''1'' \<or> allParam = ''true'') now)
           (writeRegistryError ''list sessions'')
           (\<lambda>list. WriteJSON 200 (SessionList (map (\<lambda>s.
              \<lparr>os_Session = s, os_Status = sessionStatus s now,
               os_Current = (us_ID s = meta_str (ap_Meta (caller p)) MetaSessionID)\<rparr>) list))))"

definition RevokeReasonLogout :: string where "RevokeReasonLogout = ''logout''"

definition EndOwnSession :: "registryRoutes \<Rightarrow> AuthPrincipal option \<Rightarrow> string \<Rightarrow> Request \<Rightarrow> registry_op" where
  "EndOwnSession g p i r = ready g (\<lambda>_.
     case gr_sessions g of
       None \<Rightarrow> refuse_with 404 CodeNotFound ''no such session''
     | Some ss \<Rightarrow>
         call (session_Get i) (writeRegistryError ''session'') (\<lambda>s.
           if \<not> IsSelf (Some (caller p)) (us_PrincipalID s)
           then refuse_with 403 CodeNotSelf ''this session belongs to another principal; dpkms session revoke ends others' sessions''
           else call (Sessions_Revoke i RevokeReasonLogout (rq_Now r)) (writeRegistryError ''end session'') (\<lambda>_.
             reply (SetCookies (if IsSession (Some (caller p)) \<and> meta_str (ap_Meta (caller p)) MetaSessionID = i
                                then [sessionCookie r [] 0] else []) (respond 204 NoContent)))))"

section \<open>The routes of the registry\<close>

datatype registry_request =
    POSTPrincipals "createPrincipalRequest option"
  | POSTSuspend string
  | POSTRevoke string
  | POSTIdentities string "addIdentityRequest option"
  | DELETEIdentity string string
  | POSTKeys string "createKeyRequest option"
  | DELETEKey string string
  | POSTSelfKeys "createKeyRequest option"
  | DELETESelfKey string
  | DELETESelfIdentity string
  | DELETESelfSession string

fun registry_serve :: "registryRoutes \<Rightarrow> AuthPrincipal option \<Rightarrow> Request \<Rightarrow> registry_request \<Rightarrow> registry_op" where
  "registry_serve g p r (POSTPrincipals body) = CreatePrincipal g p body (rq_Now r)"
| "registry_serve g p r (POSTSuspend i) = SuspendPrincipal g p i"
| "registry_serve g p r (POSTRevoke i) = RevokePrincipal g p i (rq_Now r)"
| "registry_serve g p r (POSTIdentities i body) = AddIdentity g p i body (rq_Now r)"
| "registry_serve g p r (DELETEIdentity i identity) = RemoveIdentity g p i identity (rq_Now r)"
| "registry_serve g p r (POSTKeys i body) = CreatePrincipalKey g p i body (rq_Now r)"
| "registry_serve g p r (DELETEKey i key) = RevokePrincipalKey g p i key (rq_Now r)"
| "registry_serve g p r (POSTSelfKeys body) = CreateOwnKey g p body (rq_Now r)"
| "registry_serve g p r (DELETESelfKey key) = RevokeOwnKey g p key (rq_Now r)"
| "registry_serve g p r (DELETESelfIdentity identity) = RemoveOwnIdentity g p identity (rq_Now r)"
| "registry_serve g p r (DELETESelfSession i) = EndOwnSession g p i r"

text \<open>The principal whose credentials a write is about; a new principal has none yet.\<close>

fun registry_target :: "AuthPrincipal option \<Rightarrow> registry_request \<Rightarrow> string option" where
  "registry_target p (POSTPrincipals body) = None"
| "registry_target p (POSTSuspend i) = Some i"
| "registry_target p (POSTRevoke i) = Some i"
| "registry_target p (POSTIdentities i body) = Some i"
| "registry_target p (DELETEIdentity i identity) = Some i"
| "registry_target p (POSTKeys i body) = Some i"
| "registry_target p (DELETEKey i key) = Some i"
| "registry_target p (POSTSelfKeys body) = Some (ap_ID (caller p))"
| "registry_target p (DELETESelfKey key) = Some (ap_ID (caller p))"
| "registry_target p (DELETESelfIdentity identity) = Some (ap_ID (caller p))"
| "registry_target p (DELETESelfSession i) = Some (ap_ID (caller p))"

section \<open>Refusals change nothing\<close>

lemma answers_keep [simp]:
  "snd (reply resp w) = w" "snd (refuse_with st c m w) = w" "snd (WriteJSON st b w) = w" "snd (no_content w) = w"
  "snd (writeRegistryError what e w) = w"
  by (simp_all add: reply_def refuse_with_def WriteJSON_def no_content_def writeRegistryError_def)

lemma answers_body [simp]:
  "rp_Reply (fst (refuse_with st c m w)) \<noteq> Answer b" "rp_Reply (fst (no_content w)) \<noteq> Answer b"
  "rp_Reply (fst (writeRegistryError what e w)) \<noteq> Answer b"
  "rp_Reply (fst (WriteJSON st b' w)) = Answer b'"
  by (simp_all add: reply_def refuse_with_def WriteJSON_def no_content_def writeRegistryError_def WriteError_def respond_def)

text \<open>Operations that satisfy a predicate whatever the state they run in.\<close>

definition always :: "(RegistryBody Response \<Rightarrow> bool) \<Rightarrow> registry_op \<Rightarrow> bool" where
  "always P h \<longleftrightarrow> (\<forall>w. P (fst (h w)))"

lemma alwaysD: "always P h \<Longrightarrow> P (fst (h w))"
  by (simp add: always_def)

lemma always_rules:
  "(\<And>e. always P (err e)) \<Longrightarrow> (\<And>x. always P (k x)) \<Longrightarrow> always P (call m err k)"
  "always P h \<Longrightarrow> always P h' \<Longrightarrow> always P (if c then h else h')"
  by (simp_all add: always_def call_def split: prod.split sum.split)

lemma always_guards:
  assumes "\<And>c m. P (WriteError 404 c m)" "\<And>c m. P (WriteError 403 c m)"
  shows "(\<And>iss. always P (f iss)) \<Longrightarrow> always P (ready g f)" "always P h \<Longrightarrow> always P (ownerGuard p i h)"
  using assms by (simp_all add: always_def ready_def ownerGuard_def refuse_with_def reply_def split: option.split)

definition no_answer :: "RegistryBody Response \<Rightarrow> bool" where
  "no_answer resp \<longleftrightarrow> (\<forall>b. rp_Reply resp \<noteq> Answer b)"

definition not_created :: "RegistryBody Response \<Rightarrow> bool" where
  "not_created resp \<longleftrightarrow> rp_Status resp \<noteq> 201"

lemma no_answer_replies:
  "no_answer (WriteError st c m)" "always no_answer (refuse_with st c m)" "always no_answer no_content"
  "always no_answer (writeRegistryError what e)" "always no_answer (reply (SetCookies cs (respond st NoContent)))"
  by (simp_all add: no_answer_def always_def WriteError_def respond_def reply_def SetCookies_def)

lemma not_created_replies:
  "not_created (WriteError 404 c m)" "not_created (WriteError 403 c m)" "always not_created (writeRegistryError what e)"
  "always not_created (WriteJSON 200 b)"
  by (simp_all add: not_created_def always_def WriteError_def respond_def reply_def WriteJSON_def writeRegistryError_def refuse_with_def)

lemma endings:
  "always not_created (SuspendPrincipal g p i)" "always not_created (RevokePrincipal g p i now)"
  "always no_answer (RemoveIdentity g p i x now)" "always no_answer (RevokePrincipalKey g p i x now)"
  "always no_answer (RevokeOwnKey g p x now)" "always no_answer (RemoveOwnIdentity g p x now)"
  "always no_answer (EndOwnSession g p i r)"
proof -
  show "always not_created (SuspendPrincipal g p i)" "always not_created (RevokePrincipal g p i now)"
    unfolding SuspendPrincipal_def RevokePrincipal_def answerPrincipal_def
    by (intro always_guards always_rules not_created_replies)+
  show "always no_answer (RemoveIdentity g p i x now)" "always no_answer (RevokePrincipalKey g p i x now)"
    "always no_answer (RevokeOwnKey g p x now)" "always no_answer (RemoveOwnIdentity g p x now)"
    unfolding RemoveIdentity_def RevokePrincipalKey_def RevokeOwnKey_def RemoveOwnIdentity_def
    by (intro always_guards always_rules no_answer_replies)+
  show "always no_answer (EndOwnSession g p i r)"
    unfolding EndOwnSession_def
    by (cases "gr_sessions g"; simp only: option.case; intro always_guards always_rules no_answer_replies)
qed

section \<open>Nothing widens\<close>

lemma call_AnswerE:
  assumes "rp_Reply (fst (call m (writeRegistryError what) k w)) = Answer b"
  obtains x w1 where "m w = (Inr x, w1)" "rp_Reply (fst (k x w1)) = Answer b"
  using assms by (auto simp: call_def split: prod.splits sum.splits)

lemma ready_AnswerE:
  assumes "rp_Reply (fst (ready g k w)) = Answer b"
  obtains iss where "gr_keys g = Some iss" "rp_Reply (fst (k iss w)) = Answer b"
  using assms by (auto simp: ready_def split: if_splits option.splits)

lemma decode_AnswerE:
  assumes "rp_Reply (fst (decodeRegistryBody body k w)) = Answer b"
  obtains req where "body = Some req" "rp_Reply (fst (k req w)) = Answer b"
  using assms by (auto simp: decodeRegistryBody_def split: option.splits)

lemma ownerGuard_AnswerE:
  assumes "rp_Reply (fst (ownerGuard p i k w)) = Answer b"
  obtains "i = OwnerPrincipal \<Longrightarrow> ap_ID (caller p) = OwnerPrincipal" "rp_Reply (fst (k w)) = Answer b"
  using assms by (auto simp: ownerGuard_def IsSelf_def OwnerPrincipal_def split: if_splits)

lemma withinCeiling_AnswerE:
  assumes "rp_Reply (fst (withinCeiling p scopes what k w)) = Answer b"
  obtains "set scopes \<subseteq> set (ap_Scopes (caller p))" "rp_Reply (fst (k w)) = Answer b"
proof -
  from assms have "exceeds (callerCeiling p) scopes = None" "rp_Reply (fst (k w)) = Answer b"
    by (auto simp: withinCeiling_def split: option.splits)
  then show thesis by (intro that) (auto simp: exceeds_def find_None_iff callerCeiling_def)
qed

lemmas answerE = call_AnswerE ready_AnswerE decode_AnswerE ownerGuard_AnswerE withinCeiling_AnswerE

lemma principal_Create_roles:
  assumes "principal_Create p now w = (Inr q, w')" "pw_Roles p \<noteq> []"
  shows "pw_Roles q = pw_Roles p"
  using assms unfolding principal_Create_def PrepareNewPrincipal_def Let_def
  by (auto elim!: bnd_InrE ret_InrE simp: fail_with_def split: if_splits)

lemma keyScopes_within:
  assumes "keyScopes q asked = Inr scopes"
  shows "set scopes \<subseteq> set (ScopesForRoles (pw_Roles q))" "asked \<noteq> [] \<Longrightarrow> set scopes \<subseteq> set asked"
    "asked = [] \<Longrightarrow> scopes = ScopesForRoles (pw_Roles q)"
  using assms by (auto simp: keyScopes_def Let_def list_ex_iff split: if_splits)

lemma mintKey_yields:
  assumes "rp_Reply (fst (mintKey g (LocalKeys kc) p i req forSelf now w)) = Answer b"
    and "forSelf \<Longrightarrow> callerCeiling p \<noteq> []"
  obtains secret key q where "b = KeyBody secret key" "q \<in> set (wd_principals w)" "pw_ID q = i" "Principal_Active q"
    "ik_PrincipalID key = i" "set (ik_Scopes key) \<subseteq> set (ap_Scopes (caller p)) \<inter> set (ScopesForRoles (pw_Roles q))"
proof -
  from assms(1) obtain at target w1 where get: "principal_Get i w = (Inr target, w1)" and active: "Principal_Active target"
    and rest: "rp_Reply (fst ((let granted = ScopesForRoles (pw_Roles target);
                   scopes = (if ckr_Scopes req \<noteq> [] then ckr_Scopes req else if forSelf then callerCeiling p else granted)
               in case List.map_filter (scope_fault (gr_quote g) target granted) scopes of
                    msg # _ \<Rightarrow> refuse_with 400 CodeInvalidScope msg
                  | [] \<Rightarrow>
                      withinCeiling p scopes (''a key for principal '' @ pw_ID target)
                        (call (Keys_Mint (LocalKeys kc) \<lparr>mk_PrincipalID = pw_ID target, mk_Name = TrimSpace (ckr_Name req),
                                             mk_ExpiresAt = at, mk_Scopes = scopes\<rparr> now)
                           (writeRegistryError ''create key'') (\<lambda>sk. WriteJSON 201 (KeyBody (fst sk) (snd sk))))) w1)) = Answer b"
    unfolding mintKey_def by (auto split: sum.splits if_splits elim!: call_AnswerE)
  define granted where "granted = ScopesForRoles (pw_Roles target)"
  define scopes where "scopes = (if ckr_Scopes req \<noteq> [] then ckr_Scopes req else if forSelf then callerCeiling p else granted)"
  obtain fs where w1: "w1 = w\<lparr>wd_faults := fs\<rparr>" "target \<in> set (wd_principals w)" "pw_ID target = i"
      "find (\<lambda>p. pw_ID p = i) (wd_principals w) = Some target"
    using get by (rule principal_Get_facts)
  obtain secret key w2 where ceiling: "set scopes \<subseteq> set (ap_Scopes (caller p))" and b: "b = KeyBody secret key"
    and mint: "Keys_Mint (LocalKeys kc) \<lparr>mk_PrincipalID = pw_ID target, mk_Name = TrimSpace (ckr_Name req),
        mk_ExpiresAt = at, mk_Scopes = scopes\<rparr> now w1 = (Inr (secret, key), w2)"
    using rest unfolding Let_def granted_def [symmetric] scopes_def [symmetric]
    by (auto split: list.splits elim!: answerE)
  obtain q ks where q: "find (\<lambda>q. pw_ID q = pw_ID target) (wd_principals w1) = Some q" "keyScopes q scopes = Inr ks"
      "ik_Scopes key = ks" "ik_PrincipalID key = pw_ID q"
    by (rule Keys_Mint_facts [OF mint]) auto
  have "q = target" using q(1) w1 by simp
  then have ks: "set ks \<subseteq> set granted" "scopes \<noteq> [] \<Longrightarrow> set ks \<subseteq> set scopes" "scopes = [] \<Longrightarrow> ks = granted"
    using keyScopes_within [OF q(2)] by (simp_all add: granted_def)
  have "set ks \<subseteq> set (ap_Scopes (caller p))"
  proof (cases "scopes = []")
    case True
    with assms(2) have "granted = []" by (auto simp: scopes_def split: if_splits)
    with True ks(3) show ?thesis by simp
  next
    case False
    with ks(2) ceiling show ?thesis by blast
  qed
  with ks(1) have "set (ik_Scopes key) \<subseteq> set (ap_Scopes (caller p)) \<inter> set (ScopesForRoles (pw_Roles target))"
    by (simp add: q(3) granted_def)
  then show thesis using that [OF b w1(2,3) active] q(4) \<open>q = target\<close> w1(3) by simp
qed

text \<open>The scopes that what a route created holds: a principal's and an identity's are those of the roles.\<close>

fun yielded_scopes :: "auth_world \<Rightarrow> RegistryBody \<Rightarrow> Scope_name list" where
  "yielded_scopes w (PrincipalBody q) = ScopesForRoles (pw_Roles q)"
| "yielded_scopes w (IdentityBody x) =
     concat (map (\<lambda>q. ScopesForRoles (pw_Roles q)) (filter (\<lambda>q. pw_ID q = id_PrincipalID x) (wd_principals w)))"
| "yielded_scopes w (KeyBody secret key) = ik_Scopes key"
| "yielded_scopes w _ = []"

fun yielded_for :: "RegistryBody \<Rightarrow> string option" where
  "yielded_for (IdentityBody x) = Some (id_PrincipalID x)"
| "yielded_for (KeyBody secret key) = Some (ik_PrincipalID key)"
| "yielded_for _ = None"

lemma identity_Create_principal:
  "identity_Create x now w = (Inr y, w') \<Longrightarrow> id_PrincipalID y = id_PrincipalID x"
  unfolding identity_Create_def PrepareNewIdentity_def
  by (auto elim!: bnd_InrE ret_InrE simp: fail_with_def split: if_splits)

lemma AddIdentity_yields:
  assumes "rp_Reply (fst (AddIdentity g p i body now w)) = Answer b" "distinct (map pw_ID (wd_principals w))"
  shows "set (yielded_scopes w b) \<subseteq> set (ap_Scopes (caller p)) \<and> yielded_for b = Some i"
proof -
  from assms(1) obtain req q w1 x w2 where get: "principal_Get i w = (Inr q, w1)"
    and within: "set (ScopesForRoles (pw_Roles q)) \<subseteq> set (ap_Scopes (caller p))"
    and make: "identity_Create (bound_identity (pw_ID q) req) now w1 = (Inr x, w2)" and b: "b = IdentityBody x"
    unfolding AddIdentity_def by (auto elim!: answerE split: if_splits)
  obtain fs where q: "q \<in> set (wd_principals w)" "pw_ID q = i" using get by (rule principal_Get_facts)
  have x: "id_PrincipalID x = i" using identity_Create_principal [OF make] q by (simp add: bound_identity_def)
  have "r = q" if "r \<in> set (wd_principals w)" "pw_ID r = i" for r
    using that q assms(2) by (metis distinct_map inj_onD)
  with within show ?thesis by (auto simp: b x)
qed

lemma CreatePrincipal_yields:
  assumes "rp_Reply (fst (CreatePrincipal g p body now w)) = Answer b"
  shows "set (yielded_scopes w b) \<subseteq> set (ap_Scopes (caller p))"
proof -
  from assms obtain kind nm roles q w2 where within: "set (ScopesForRoles roles) \<subseteq> set (ap_Scopes (caller p))"
    and valid: "ValidateRoles roles = None"
    and make: "principal_Create (new_principal kind nm roles) now w = (Inr q, w2)" and b: "b = PrincipalBody q"
    unfolding CreatePrincipal_def Let_def
    by (auto elim!: ready_AnswerE decode_AnswerE split: if_splits option.splits)
       (auto elim!: answerE)
  have "pw_Roles q = roles"
    using principal_Create_roles [OF make] valid by (auto simp: ValidateRoles_def new_principal_def split: if_splits)
  with within show ?thesis by (simp add: b)
qed

text \<open>
  C24: nothing widens over the API. Whatever a write route of the registry creates for a caller, a
  principal, an identity bound to a principal or a key, holds only effective scopes of that
  caller; an identity or a key is for the principal of the route, and only the owner gets one for
  the owner. (A caller has here at least one scope that its roles grant, as everyone has who comes
  through the scope gate of these routes on the strength of its roles.)
\<close>

theorem nothing_widens:
  assumes "registry_serve g p r req w = (resp, w')" "rp_Status resp = 201" "rp_Reply resp = Answer b"
    and "gr_keys g = Some (LocalKeys kc)" "distinct (map pw_ID (wd_principals w))" "callerCeiling p \<noteq> []"
  shows "set (yielded_scopes w b) \<subseteq> set (ap_Scopes (caller p)) \<and>
    (yielded_for b = None \<or> yielded_for b = registry_target p req) \<and>
    (yielded_for b = Some OwnerPrincipal \<longrightarrow> ap_ID (caller p) = OwnerPrincipal)"
proof -
  have key: "set (yielded_scopes w b) \<subseteq> set (ap_Scopes (caller p)) \<and> yielded_for b = Some i"
    if "rp_Reply (fst (mintKey g (LocalKeys kc) p i body forSelf now w)) = Answer b" for i body forSelf now
    using mintKey_yields [OF that assms(6)] by (metis Int_subset_iff yielded_for.simps(2) yielded_scopes.simps(3))
  have run: "fst (registry_serve g p r req w) = resp" using assms(1) by simp
  show ?thesis
  proof (cases req)
    case (POSTPrincipals body)
    then have ans: "rp_Reply (fst (CreatePrincipal g p body (rq_Now r) w)) = Answer b" using run assms(3) by simp
    then have "yielded_for b = None"
      by (auto simp: CreatePrincipal_def Let_def elim!: answerE split: if_splits option.splits)
    then show ?thesis using CreatePrincipal_yields [OF ans] by simp
  next
    case (POSTIdentities i body)
    then have ans: "rp_Reply (fst (AddIdentity g p i body (rq_Now r) w)) = Answer b" using run assms(3) by simp
    moreover from ans have "i = OwnerPrincipal \<Longrightarrow> ap_ID (caller p) = OwnerPrincipal"
      by (auto simp: AddIdentity_def elim!: answerE split: if_splits)
    ultimately show ?thesis using AddIdentity_yields [OF ans assms(5)] POSTIdentities by auto
  next
    case (POSTKeys i body)
    then have "rp_Reply (fst (CreatePrincipalKey g p i body (rq_Now r) w)) = Answer b" using run assms(3) by simp
    then show ?thesis using POSTKeys assms(4) unfolding CreatePrincipalKey_def
      by (auto elim!: ready_AnswerE decode_AnswerE ownerGuard_AnswerE dest!: key)
  next
    case (POSTSelfKeys body)
    then have "rp_Reply (fst (CreateOwnKey g p body (rq_Now r) w)) = Answer b" using run assms(3) by simp
    then show ?thesis using POSTSelfKeys assms(4) unfolding CreateOwnKey_def
      by (auto elim!: ready_AnswerE decode_AnswerE dest!: key)
  qed (use run assms(2,3) endings [THEN alwaysD] in \<open>auto simp: not_created_def no_answer_def\<close>)
qed

end
