(* ===== verification/Share_Store.thy ===== *)
theory Share_Store
  imports Auth_Laws Share_Compile
begin

text \<open>
  The SQLite stores of the sharing registry (\<open>internal/storage/sqlite/sharing.go\<close>) over the
  database of \<open>Auth_Store\<close>: audiences and members, policies, grants, the class ceiling of a
  principal, the policy a key is bound to, and the read audit. As there, one SQL statement is
  one step that may fail and applies the constraints of the schema (\<open>sharingRegistryDDL\<close>). The
  columns \<open>deny_classes\<close> and \<open>share_policy_id\<close> are the tables \<open>wd_deny\<close> and \<open>wd_bound\<close>, absent
  for the column's default; a class column is kept as the list it decodes to.
\<close>

section \<open>Rows about to be stored\<close>

text \<open>
  The \<open>Prepare\<close> functions validate first and draw an identifier only for a row that has none.
\<close>

definition fresh_id :: "string \<Rightarrow> string \<Rightarrow> time \<Rightarrow> string auth_op" where
  "fresh_id pre i now = (if i = [] then bnd (NewULID now) (\<lambda>u. ret (pre @ u)) else ret i)"

definition prepared ::
    "string \<Rightarrow> (string \<Rightarrow> 'r option \<Rightarrow> time \<Rightarrow> RegistryError + 'r) \<Rightarrow> ('r \<Rightarrow> string) \<Rightarrow> string \<Rightarrow> 'r \<Rightarrow> time \<Rightarrow> 'r auth_op" where
  "prepared what prep row_id pre r now =
     (case prep [] (Some r) now of
        Inl e \<Rightarrow> fail_with (ErrRefused what)
      | Inr _ \<Rightarrow> bnd (fresh_id pre (row_id r) now) (\<lambda>i.
          case prep i (Some r) now of Inl e \<Rightarrow> fail_with (ErrRefused what) | Inr q \<Rightarrow> ret q))"

text \<open>\<open>expires_at IS NULL OR expires_at > now\<close>, in the milliseconds of the columns.\<close>

definition live :: "time option \<Rightarrow> time \<Rightarrow> bool" where
  "live e now = (case e of None \<Rightarrow> True | Some t \<Rightarrow> toMillis now < toMillis t)"

lemma live_stored: "live (map_option stored e) now \<longleftrightarrow> unexpired (map_option stored e) now"
  by (cases e) (simp_all add: live_def unexpired_def toMillis_less_stored)

definition one :: "('r \<Rightarrow> bool) \<Rightarrow> (auth_world \<Rightarrow> 'r list) \<Rightarrow> 'r auth_op" where
  "one c table = query (\<lambda>w. case find c (table w) of None \<Rightarrow> Inl ErrStoreNotFound | Some r \<Rightarrow> Inr r)"

section \<open>sharingStore\<close>

definition deny_of :: "auth_world \<Rightarrow> string \<Rightarrow> string list" where
  "deny_of w i = (case map_of (wd_deny w) i of None \<Rightarrow> [] | Some cs \<Rightarrow> cs)"

definition bound_of :: "auth_world \<Rightarrow> string \<Rightarrow> string" where
  "bound_of w i = (case map_of (wd_bound w) i of None \<Rightarrow> [] | Some p \<Rightarrow> p)"

definition sharing_DenyClasses :: "string \<Rightarrow> string list auth_op" where
  "sharing_DenyClasses i =
     query (\<lambda>w. if has_principal w i then Inr (NormalizeClasses (deny_of w i)) else Inl ErrStoreNotFound)"

definition SetDenyClasses :: "string \<Rightarrow> string list \<Rightarrow> unit auth_op" where
  "SetDenyClasses i classes =
     (if \<not> list_all ValidateClassName classes then fail_with (ErrRefused ''deny classes'')
      else stmt (\<lambda>w. if has_principal w i
                     then (Inr (), w\<lparr>wd_deny := AList.update i (NormalizeClasses classes) (wd_deny w)\<rparr>)
                     else (Inl ErrStoreNotFound, w)))"

definition sharing_IdentityPolicy :: "string \<Rightarrow> string auth_op" where
  "sharing_IdentityPolicy i =
     query (\<lambda>w. if has_identity w i then Inr (bound_of w i) else Inl ErrStoreNotFound)"

definition has_policy :: "auth_world \<Rightarrow> string \<Rightarrow> bool" where
  "has_policy w i = list_ex (\<lambda>p. sp_ID p = i) (wd_policies w)"

definition has_audience :: "auth_world \<Rightarrow> string \<Rightarrow> bool" where
  "has_audience w i = list_ex (\<lambda>a. aud_ID a = i) (wd_audiences w)"

text \<open>An update of no row breaks no foreign key: both ways the answer is that nothing was found.\<close>

definition BindIdentityPolicy :: "string \<Rightarrow> string \<Rightarrow> unit auth_op" where
  "BindIdentityPolicy i policyID =
     stmt (\<lambda>w. if \<not> has_identity w i then (Inl ErrStoreNotFound, w)
               else if policyID \<noteq> [] \<and> \<not> has_policy w policyID then (Inl ErrStoreNotFound, w)
               else (Inr (), w\<lparr>wd_bound := AList.update i policyID (wd_bound w)\<rparr>))"

section \<open>audienceStore\<close>

definition audience_Create :: "Audience \<Rightarrow> time \<Rightarrow> Audience auth_op" where
  "audience_Create a now =
     bnd (prepared ''audience'' PrepareNewAudience aud_ID ''aud_'' a now) (\<lambda>q.
       bnd (stmt (\<lambda>w. if has_audience w (aud_ID q) \<or> list_ex (\<lambda>x. aud_Name x = aud_Name q) (wd_audiences w)
                      then (Inl ErrAlreadyExists, w)
                      else (Inr (), w\<lparr>wd_audiences := wd_audiences w @ [q\<lparr>aud_CreatedAt := stored (aud_CreatedAt q)\<rparr>]\<rparr>)))
         (\<lambda>_. ret q))"

definition audience_GetByName :: "string \<Rightarrow> Audience auth_op" where
  "audience_GetByName n = one (\<lambda>a. aud_Name a = n) wd_audiences"

definition audience_List :: "Audience list auth_op" where
  "audience_List = query (\<lambda>w. Inr (sort_key aud_Name (wd_audiences w)))"

definition audience_RemoveMember :: "string \<Rightarrow> string \<Rightarrow> unit auth_op" where
  "audience_RemoveMember a p =
     stmt (\<lambda>w. let hit = (\<lambda>m. mem_AudienceID m = a \<and> mem_PrincipalID m = p)
               in if list_ex hit (wd_members w)
                  then (Inr (), w\<lparr>wd_members := filter (\<lambda>m. \<not> hit m) (wd_members w)\<rparr>)
                  else (Inl ErrStoreNotFound, w))"

definition audience_ListMembers :: "string \<Rightarrow> AudienceMember list auth_op" where
  "audience_ListMembers a =
     query (\<lambda>w. Inr (sort_key (\<lambda>m. (toMillis (mem_AddedAt m), mem_PrincipalID m))
                       (filter (\<lambda>m. mem_AudienceID m = a) (wd_members w))))"

definition audience_ListMemberships :: "string \<Rightarrow> time \<Rightarrow> AudienceMember list auth_op" where
  "audience_ListMemberships p now =
     query (\<lambda>w. Inr (sort_key (\<lambda>m. (toMillis (mem_AddedAt m), mem_AudienceID m))
                       (filter (\<lambda>m. mem_PrincipalID m = p \<and> live (mem_ExpiresAt m) now) (wd_members w))))"

section \<open>sharePolicyStore\<close>

definition policy_Create :: "SharePolicy \<Rightarrow> time \<Rightarrow> SharePolicy auth_op" where
  "policy_Create p now =
     bnd (prepared ''share policy'' PrepareNewSharePolicy sp_ID ''pol_'' p now) (\<lambda>q.
       bnd (stmt (\<lambda>w. if has_policy w (sp_ID q) \<or> list_ex (\<lambda>x. sp_Name x = sp_Name q) (wd_policies w)
                      then (Inl ErrAlreadyExists, w)
                      else (Inr (), w\<lparr>wd_policies := wd_policies w @ [q\<lparr>sp_UpdatedAt := stored (sp_UpdatedAt q)\<rparr>]\<rparr>)))
         (\<lambda>_. ret q))"

definition policy_Get :: "string \<Rightarrow> SharePolicy auth_op" where
  "policy_Get i = one (\<lambda>p. sp_ID p = i) wd_policies"

definition policy_GetByName :: "string \<Rightarrow> SharePolicy auth_op" where
  "policy_GetByName n = one (\<lambda>p. sp_Name p = n) wd_policies"

definition policy_List :: "SharePolicy list auth_op" where
  "policy_List = query (\<lambda>w. Inr (sort_key sp_Name (wd_policies w)))"

definition policy_Update :: "string \<Rightarrow> gval option \<Rightarrow> time \<Rightarrow> SharePolicy auth_op" where
  "policy_Update i spec now =
     (if \<not> ValidatePolicySpec spec then fail_with (ErrRefused ''share policy: spec must be a JSON object'')
      else bnd (stmt (\<lambda>w. if has_policy w i
                          then (Inr (), w\<lparr>wd_policies := update_where (\<lambda>p. sp_ID p = i)
                                  (\<lambda>p. p\<lparr>sp_Spec := spec, sp_Version := sp_Version p + 1, sp_UpdatedAt := stored now\<rparr>)
                                  (wd_policies w)\<rparr>)
                          else (Inl ErrStoreNotFound, w)))
             (\<lambda>_. policy_Get i))"

section \<open>shareGrantStore\<close>

record GrantFilter =
  gf_AudienceID :: string
  gf_PolicyID :: string
  gf_IncludeRevoked :: bool

definition grant_Create :: "ShareGrant \<Rightarrow> time \<Rightarrow> ShareGrant auth_op" where
  "grant_Create g now =
     bnd (prepared ''share grant'' PrepareNewShareGrant grant_ID ''grt_'' g now) (\<lambda>q.
       bnd (stmt (\<lambda>w. if list_ex (\<lambda>x. grant_ID x = grant_ID q) (wd_grants w) then (Inl ErrAlreadyExists, w)
                      else if \<not> has_audience w (grant_AudienceID q) \<or> \<not> has_policy w (grant_PolicyID q)
                      then (Inl ErrStoreNotFound, w)
                      else (Inr (), w\<lparr>wd_grants := wd_grants w @
                             [q\<lparr>grant_ExpiresAt := map_option stored (grant_ExpiresAt q),
                                grant_CreatedAt := stored (grant_CreatedAt q)\<rparr>]\<rparr>)))
         (\<lambda>_. ret q))"

definition grant_Get :: "string \<Rightarrow> ShareGrant auth_op" where
  "grant_Get i = one (\<lambda>g. grant_ID g = i) wd_grants"

definition grant_order :: "ShareGrant \<Rightarrow> int \<times> string" where
  "grant_order g = (toMillis (grant_CreatedAt g), grant_ID g)"

definition grant_List :: "GrantFilter \<Rightarrow> ShareGrant list auth_op" where
  "grant_List f =
     query (\<lambda>w. Inr (sort_key grant_order
       (filter (\<lambda>g. (gf_AudienceID f = [] \<or> grant_AudienceID g = gf_AudienceID f) \<and>
                    (gf_PolicyID f = [] \<or> grant_PolicyID g = gf_PolicyID f) \<and>
                    (gf_IncludeRevoked f \<or> grant_RevokedAt g = None)) (wd_grants w))))"

definition grant_Revoke :: "string \<Rightarrow> time \<Rightarrow> unit auth_op" where
  "grant_Revoke i at =
     bnd (grant_Get i) (\<lambda>g.
       if grant_RevokedAt g \<noteq> None then ret ()
       else stmt (\<lambda>w. (Inr (), w\<lparr>wd_grants := update_where (\<lambda>x. grant_ID x = i \<and> grant_RevokedAt x = None)
              (\<lambda>x. x\<lparr>grant_RevokedAt := Some (stored at)\<rparr>) (wd_grants w)\<rparr>)))"

text \<open>The four-way join of \<open>ListActiveForPrincipal\<close>.\<close>

definition active_grants :: "auth_world \<Rightarrow> string \<Rightarrow> time \<Rightarrow> ActiveGrant list" where
  "active_grants w i now =
     sort_key (\<lambda>ag. grant_order (ag_Grant ag))
       [\<lparr>ag_Grant = g, ag_Audience = a, ag_Policy = p\<rparr>.
         m \<leftarrow> wd_members w, mem_PrincipalID m = i \<and> live (mem_ExpiresAt m) now,
         a \<leftarrow> wd_audiences w, aud_ID a = mem_AudienceID m,
         g \<leftarrow> wd_grants w, grant_AudienceID g = mem_AudienceID m \<and> grant_RevokedAt g = None \<and> live (grant_ExpiresAt g) now,
         p \<leftarrow> wd_policies w, sp_ID p = grant_PolicyID g]"

definition ListActiveForPrincipal :: "string \<Rightarrow> time \<Rightarrow> ActiveGrant list auth_op" where
  "ListActiveForPrincipal i now = query (\<lambda>w. Inr (active_grants w i now))"

section \<open>accessLogStore\<close>

record AccessFilter =
  xf_PrincipalID :: string
  xf_ObjectID :: string
  xf_Since :: time
  xf_Until :: time
  xf_Limit :: int

fun prepare_entries :: "AccessEntry list \<Rightarrow> time \<Rightarrow> AccessEntry list auth_op" where
  "prepare_entries [] now = ret []"
| "prepare_entries (e # es) now =
     bnd (prepared ''access entry'' PrepareAccessEntry acc_ID ''acc_'' e now) (\<lambda>q.
       bnd (prepare_entries es now) (\<lambda>qs. ret (q # qs)))"

fun insert_objects :: "string \<Rightarrow> string list \<Rightarrow> unit auth_op" where
  "insert_objects a [] = ret ()"
| "insert_objects a (x # xs) =
     bnd (stmt (\<lambda>w. (Inr (), if (a, x) \<in> set (wd_access_objects w) then w
                             else w\<lparr>wd_access_objects := wd_access_objects w @ [(a, x)]\<rparr>)))
       (\<lambda>_. insert_objects a xs)"

fun insert_entries :: "AccessEntry list \<Rightarrow> unit auth_op" where
  "insert_entries [] = ret ()"
| "insert_entries (e # es) =
     bnd (stmt (\<lambda>w. if list_ex (\<lambda>x. acc_ID x = acc_ID e) (wd_access w) then (Inl ErrDatabase, w)
                    else (Inr (), w\<lparr>wd_access := wd_access w @ [e\<lparr>acc_At := stored (acc_At e), acc_ObjectIDs := []\<rparr>]\<rparr>)))
       (\<lambda>_. bnd (insert_objects (acc_ID e) (acc_ObjectIDs e)) (\<lambda>_. insert_entries es))"

definition access_Append :: "AccessEntry list \<Rightarrow> time \<Rightarrow> unit auth_op" where
  "access_Append es now =
     (if es = [] then ret ()
      else bnd (prepare_entries es now) (\<lambda>qs. in_tx (bnd (insert_entries qs) (\<lambda>_. ret True))))"

definition access_matches :: "auth_world \<Rightarrow> AccessFilter \<Rightarrow> AccessEntry \<Rightarrow> bool" where
  "access_matches w f e \<longleftrightarrow>
     (xf_PrincipalID f = [] \<or> acc_PrincipalID e = xf_PrincipalID f) \<and>
     (xf_ObjectID f = [] \<or> (acc_ID e, xf_ObjectID f) \<in> set (wd_access_objects w)) \<and>
     (xf_Since f = 0 \<or> toMillis (xf_Since f) \<le> toMillis (acc_At e)) \<and>
     (xf_Until f = 0 \<or> toMillis (acc_At e) < toMillis (xf_Until f))"

definition access_objectIDs :: "string \<Rightarrow> string list auth_op" where
  "access_objectIDs a = query (\<lambda>w. Inr (sort (map snd (filter (\<lambda>x. fst x = a) (wd_access_objects w)))))"

fun fill_objects :: "AccessEntry list \<Rightarrow> AccessEntry list auth_op" where
  "fill_objects [] = ret []"
| "fill_objects (e # es) =
     bnd (access_objectIDs (acc_ID e)) (\<lambda>ids.
       bnd (fill_objects es) (\<lambda>out. ret (e\<lparr>acc_ObjectIDs := ids\<rparr> # out)))"

definition access_Query :: "AccessFilter \<Rightarrow> AccessEntry list auth_op" where
  "access_Query f =
     bnd (query (\<lambda>w. Inr (sql_limit (xf_Limit f)
            (rev (sort_key (\<lambda>e. (toMillis (acc_At e), acc_ID e)) (filter (access_matches w f) (wd_access w))))))) fill_objects"

definition access_Prune :: "time \<Rightarrow> int auth_op" where
  "access_Prune before =
     stmt (\<lambda>w. let old = acc_ID ` {e \<in> set (wd_access w). toMillis (acc_At e) < toMillis before};
                   (gone, kept) = partition (\<lambda>x. fst x \<in> old) (wd_access_objects w)
               in (Inr (int (length gone)), w\<lparr>wd_access_objects := kept\<rparr>))"

end
