(* ===== verification/Share_System.thy ===== *)
theory Share_System
  imports Share_Store Share_Resolver Auth_System
begin

text \<open>
  The sharing registry as one system with the principal registry and the resolver's cache: any
  sequence of store operations, authentication events, resolved viewers and invalidations. A
  load of the resolver takes several statements, and other requests write between them; so
  the state keeps every database there has been, and each read of a load may be answered by any
  of them. The cache is shown never to be stale all the same, the tables decide what a
  principal sees, and a revoked grant stays without effect.
\<close>

section \<open>Identifiers\<close>

lemma length_crockford: "length crockford = 32"
  by (simp add: crockford_def)

lemma ulid_bit_le: "ulid_bit b k \<le> 1"
proof -
  have "n mod 2 \<le> 1" for n :: nat by linarith
  then show ?thesis by (simp only: ulid_bit_def Let_def) simp
qed

lemma encodeULID_chars: "set (encodeULID b) \<subseteq> set crockford"
proof -
  have u: "[0..<5] = [0, 1, 2, 3, 4 :: nat]" by (simp add: upt_rec)
  have "foldl (\<lambda>v j. v * 2 + ulid_bit b (i * 5 + j)) 0 [0..<5] < 32" for i
    using ulid_bit_le [of b "i * 5"] ulid_bit_le [of b "i * 5 + 1"] ulid_bit_le [of b "i * 5 + 2"]
      ulid_bit_le [of b "i * 5 + 3"] ulid_bit_le [of b "i * 5 + 4"]
    by (simp add: u)
  then show ?thesis by (auto simp: encodeULID_def length_crockford intro!: nth_mem)
qed

lemma crockford_clean: "set crockford \<inter> {CHR '';'', CHR '':'', CHR ''@'', CHR '','', CHR 0x00} = {}"
  by (simp add: crockford_def)

lemma clean_ULID: "clean pre \<Longrightarrow> clean (pre @ encodeULID b)"
  using encodeULID_chars [of b] crockford_clean unfolding clean_def by auto

lemma clean_name: "ValidateSharingName n \<Longrightarrow> clean n"
proof -
  assume v: "ValidateSharingName n"
  then obtain x xs where n: "n = x # xs" "is_lower x \<or> is_digit x" "list_all name_char xs"
    by (auto simp: ValidateSharingName_def split: list.splits)
  have "y \<notin> {CHR '';'', CHR '':'', CHR ''@'', CHR '','', CHR 0x00}" if "name_char y" for y
    using that by (auto simp: name_char_def byte_class_defs)
  moreover have "name_char x" using n(2) by (auto simp: name_char_def)
  ultimately show ?thesis using n by (auto simp: clean_def list_all_iff)
qed

lemma fresh_id_InrE:
  assumes "fresh_id pre i now w = (Inr j, w')"
  obtains "i \<noteq> []" "j = i" | u where "i = []" "j = pre @ encodeULID u"
  using assms unfolding fresh_id_def NewULID_def
  by (auto split: if_splits elim!: bnd_InrE ret_InrE simp: draw_def)

lemma prepared_InrE:
  assumes "prepared what prep row_id pre r now w = (Inr q, w')"
  obtains j where "prep j (Some r) now = Inr q" "row_id r \<noteq> [] \<Longrightarrow> j = row_id r" "row_id r = [] \<Longrightarrow> \<exists>u. j = pre @ encodeULID u"
proof -
  from assms obtain j w1 where f: "fresh_id pre (row_id r) now w = (Inr j, w1)" and p: "prep j (Some r) now = Inr q"
    unfolding prepared_def by (auto split: sum.splits elim!: bnd_InrE simp: ret_def fail_with_def)
  from f show thesis by (rule fresh_id_InrE) (use that p in auto)
qed

section \<open>The contract of the sharing stores\<close>

locale share_order = store_order +
  assumes SetDenyClasses: "obeys R (SetDenyClasses i cs)"
    and BindIdentityPolicy: "obeys R (BindIdentityPolicy i p)"
    and audience_Create: "obeys R (audience_Create a now)"
    and audience_RemoveMember: "obeys R (audience_RemoveMember aid p)"
    and policy_Create: "obeys R (policy_Create sp now)"
    and policy_Update: "obeys R (policy_Update i spec now)"
    and grant_Create: "clean (grant_ID g) \<Longrightarrow> obeys R (grant_Create g now)"
    and grant_Revoke: "obeys R (grant_Revoke i now)"
    and access_Append: "obeys R (access_Append es now)"
    and access_Prune: "obeys R (access_Prune now)"

context world_order
begin

lemma prepared: "obeys R (prepared what prep row_id pre r now)"
  unfolding prepared_def fresh_id_def by (auto split: sum.splits intro!: op_rules ids)

lemma share_reads: "obeys R (sharing_DenyClasses i)" "obeys R (sharing_IdentityPolicy i)"
  "obeys R (audience_GetByName n)" "obeys R audience_List" "obeys R (audience_ListMembers a)"
  "obeys R (audience_ListMemberships p now)" "obeys R (policy_Get i)" "obeys R (policy_GetByName n)"
  "obeys R policy_List" "obeys R (grant_Get i)" "obeys R (grant_List gf)" "obeys R (ListActiveForPrincipal p now)"
  "obeys R (access_objectIDs a)"
  unfolding sharing_DenyClasses_def sharing_IdentityPolicy_def audience_GetByName_def audience_List_def
    audience_ListMembers_def audience_ListMemberships_def policy_Get_def policy_GetByName_def policy_List_def
    grant_Get_def grant_List_def ListActiveForPrincipal_def access_objectIDs_def one_def
  by (rule query)+

lemma fill_objects: "obeys R (fill_objects es)"
  by (induction es) (auto intro!: op_rules share_reads)

lemma access_Query: "obeys R (access_Query f)"
  unfolding access_Query_def by (intro op_rules fill_objects)

end

section \<open>How the tables evolve\<close>

definition policy_step :: "SharePolicy \<Rightarrow> SharePolicy \<Rightarrow> bool" where
  "policy_step a b \<longleftrightarrow>
     sp_ID b = sp_ID a \<and> sp_Name b = sp_Name a \<and> sp_Version a \<le> sp_Version b \<and>
     (sp_Version b = sp_Version a \<longrightarrow> sp_Spec b = sp_Spec a)"

definition grant_step :: "ShareGrant \<Rightarrow> ShareGrant \<Rightarrow> bool" where
  "grant_step a b \<longleftrightarrow>
     grant_ID b = grant_ID a \<and> grant_AudienceID b = grant_AudienceID a \<and> grant_PolicyID b = grant_PolicyID a \<and>
     grant_ExpiresAt b = grant_ExpiresAt a \<and> (grant_RevokedAt a \<noteq> None \<longrightarrow> grant_RevokedAt b = grant_RevokedAt a)"

lemma share_step_refl [simp]: "policy_step p p" "grant_step g g"
  by (auto simp: policy_step_def grant_step_def)

lemma policy_step_trans: "policy_step p q \<Longrightarrow> policy_step q r \<Longrightarrow> policy_step p r"
  unfolding policy_step_def by (metis order.trans order_antisym)

lemma grant_step_trans: "grant_step g h \<Longrightarrow> grant_step h k \<Longrightarrow> grant_step g k"
  unfolding grant_step_def by metis

text \<open>The keys of the tables, and names and classes that went through validation.\<close>

definition share_ok :: "auth_world \<Rightarrow> bool" where
  "share_ok w \<longleftrightarrow>
     distinct (map sp_ID (wd_policies w)) \<and> distinct (map sp_Name (wd_policies w)) \<and>
     list_all clean (map sp_Name (wd_policies w)) \<and>
     distinct (map grant_ID (wd_grants w)) \<and> list_all clean (map grant_ID (wd_grants w)) \<and>
     distinct (map aud_ID (wd_audiences w)) \<and>
     list_all (\<lambda>(i, cs). list_all ValidateClassName cs) (wd_deny w)"

definition shares_order :: "auth_world \<Rightarrow> auth_world \<Rightarrow> bool" where
  "shares_order w w' \<longleftrightarrow>
     (share_ok w \<longrightarrow>
        share_ok w' \<and> evolves policy_step (wd_policies w) (wd_policies w') \<and>
        evolves grant_step (wd_grants w) (wd_grants w') \<and> evolves (=) (wd_audiences w) (wd_audiences w'))"

definition share_tables :: "auth_world \<Rightarrow> SharePolicy list \<times> ShareGrant list \<times> Audience list \<times> (string \<times> string list) list" where
  "share_tables w = (wd_policies w, wd_grants w, wd_audiences w, wd_deny w)"

lemma shares_order_same: "share_tables w' = share_tables w \<Longrightarrow> shares_order w w'"
  by (simp add: share_tables_def shares_order_def share_ok_def evolves_refl)

interpretation shr: world_order shares_order
proof
  show "shares_order w (w\<lparr>wd_faults := fs, wd_drawn := n\<rparr>)" for w fs n
    by (rule shares_order_same) (simp add: share_tables_def)
  show "shares_order a c" if ab: "shares_order a b" and bc: "shares_order b c" for a b c
    unfolding shares_order_def
  proof (intro impI conjI)
    assume "share_ok a"
    with ab have b: "share_ok b" "evolves policy_step (wd_policies a) (wd_policies b)"
      "evolves grant_step (wd_grants a) (wd_grants b)" "evolves (=) (wd_audiences a) (wd_audiences b)"
      by (simp_all add: shares_order_def)
    with bc have c: "share_ok c" "evolves policy_step (wd_policies b) (wd_policies c)"
      "evolves grant_step (wd_grants b) (wd_grants c)" "evolves (=) (wd_audiences b) (wd_audiences c)"
      by (simp_all add: shares_order_def)
    show "share_ok c" by (rule c(1))
    show "evolves policy_step (wd_policies a) (wd_policies c)" using b(2) c(2) policy_step_trans by (rule evolves_trans)
    show "evolves grant_step (wd_grants a) (wd_grants c)" using b(3) c(3) grant_step_trans by (rule evolves_trans)
    show "evolves (=) (wd_audiences a) (wd_audiences c)" using b(4) c(4) by (rule evolves_trans) simp
  qed
qed

text \<open>
  The principal registry writes none of these tables. What obeys an order obeys every weaker
  one, so this one interpretation serves every order on the sharing tables.
\<close>

definition keeps_shares :: "auth_world \<Rightarrow> auth_world \<Rightarrow> bool" where
  "keeps_shares w w' \<longleftrightarrow> share_tables w' = share_tables w \<and> wd_bound w' = wd_bound w"

lemma keeps_sharesI: "share_tables w' = share_tables w \<and> wd_bound w' = wd_bound w \<Longrightarrow> keeps_shares w w'"
  by (simp add: keeps_shares_def)

interpretation kst: world_order keeps_shares
  by unfold_locales (simp_all add: keeps_shares_def share_tables_def)

lemmas kst_same = kst.op_rules kst.ids kst.prepare kst.reads kst.stmt keeps_sharesI

interpretation kst: store_order keeps_shares
proof
  show "obeys keeps_shares (principal_Create p now)" for p now
    unfolding principal_Create_def by (intro kst_same) (auto simp: share_tables_def)
  show "obeys keeps_shares (principal_Suspend i)" for i
    unfolding principal_Suspend_def by (intro kst_same) (auto simp: share_tables_def)
  show "obeys keeps_shares (principal_Revoke i now)" for i now
    unfolding principal_Revoke_def revoke_sessions_def delete_codes_def
    by (intro kst_same) (simp_all add: share_tables_def)
  have identity_Create: "obeys keeps_shares (identity_Create ident now)" for ident now
    unfolding identity_Create_def by (intro kst_same) (auto simp: share_tables_def)
  show "obeys keeps_shares (identity_Create ident now)" "obeys keeps_shares (identity_Create ident now)" for ident now
    by (rule identity_Create)+
  show "obeys keeps_shares (identity_Revoke i now)" for i now
    unfolding identity_Revoke_def revoke_sessions_def delete_codes_def
    by (intro kst_same) (simp_all add: share_tables_def)
  show "obeys keeps_shares (identity_Touch i now)" for i now
    unfolding identity_Touch_def by (intro kst_same) (simp_all add: share_tables_def)
  show "obeys keeps_shares (ticket_Issue t now)" for t now
    unfolding ticket_Issue_def by (intro kst_same) (auto simp: share_tables_def)
  have "obeys keeps_shares (ticket_redeem_update kind hash now)" for kind hash now
    unfolding ticket_redeem_update_def by (intro kst.stmt keeps_sharesI) (simp add: share_tables_def Let_def split: option.split)
  then show "obeys keeps_shares (ticket_Redeem kind secret now)" for kind secret now
    unfolding ticket_Redeem_def by (intro kst.bnd) (auto split: option.split intro: kst.op_rules kst.reads)
  show "obeys keeps_shares (kv_Put k v)" for k v
    unfolding kv_Put_def by (intro kst_same) (simp add: share_tables_def)
  show "obeys keeps_shares (CreateLoginCode c)" for c
    unfolding CreateLoginCode_def by (intro kst_same) (auto simp: share_tables_def)
  show "obeys keeps_shares (ConsumeLoginCode h now)" for h now
    unfolding ConsumeLoginCode_def
    by (intro kst.op_rules kst.stmt) (auto intro: keeps_sharesI simp: share_tables_def split: option.split intro!: kst.op_rules)
  show "obeys keeps_shares (session_Create s)" for s
    unfolding session_Create_def by (intro kst_same) (auto simp: share_tables_def)
  show "obeys keeps_shares (session_Touch i now idle)" for i now idle
    unfolding session_Touch_def by (intro kst_same) (auto simp: share_tables_def)
  show "obeys keeps_shares (session_Revoke i now reason)" for i now reason
    unfolding session_Revoke_def by (intro kst_same) (auto simp: share_tables_def)
  show "obeys keeps_shares (session_Prune now)" for now
    unfolding session_Prune_def delete_codes_def by (intro kst_same) (auto simp: share_tables_def)
  show "obeys keeps_shares (audience_AddMember m now)" for m now
    unfolding audience_AddMember_def Let_def
    by (auto split: sum.split intro!: kst.op_rules kst.stmt keeps_sharesI simp: share_tables_def)
qed

lemma store_order_weaken:
  assumes "store_order R" "world_order Q" "\<And>w w'. R w w' \<Longrightarrow> Q w w'"
  shows "store_order Q"
proof -
  note R = store_order.axioms [OF assms(1)]
  note sign = signin_order.axioms [OF R(1)]
  show ?thesis
    using assms(2) R(2) sign(2) unfolding store_order_def store_order_axioms_def signin_order_def signin_order_axioms_def
    by (auto simp: obeys_def assms(3))
qed

interpretation shr: store_order shares_order
  by (rule store_order_weaken [OF kst.store_order_axioms shr.world_order_axioms])
     (simp add: keeps_shares_def shares_order_same)

text \<open>The sharing stores write them under their constraints.\<close>

lemmas shr_same = shr.op_rules shr.stmt shares_order_same

lemma distinct_map_update_where: "(\<And>x. f (u x) = f x) \<Longrightarrow> map f (update_where c u xs) = map f xs"
  by (simp add: update_where_def)

lemma list_all_AList_update:
  "list_all (\<lambda>(i, cs). P cs) xs \<Longrightarrow> P v \<Longrightarrow> list_all (\<lambda>(i, cs). P cs) (AList.update k v xs)"
  by (induction xs) auto

lemma new_policy_order:
  assumes "PrepareNewSharePolicy j (Some r) now = Inr q" "\<not> has_policy w (sp_ID q)" "\<not> list_ex (\<lambda>x. sp_Name x = sp_Name q) (wd_policies w)"
  shows "shares_order w (w\<lparr>wd_policies := wd_policies w @ [q\<lparr>sp_UpdatedAt := t\<rparr>]\<rparr>)"
proof -
  have "clean (sp_Name q)"
    using assms(1) by (auto simp: PrepareNewSharePolicy_def Let_def intro: clean_name split: if_splits)
  with assms(2,3) show ?thesis
    by (auto simp: shares_order_def share_ok_def has_policy_def list_ex_iff intro: update_evolves)
qed

lemma new_grant_order:
  assumes "clean (grant_ID q)" "\<not> list_ex (\<lambda>x. grant_ID x = grant_ID q) (wd_grants w)"
  shows "shares_order w (w\<lparr>wd_grants := wd_grants w @ [q\<lparr>grant_ExpiresAt := e, grant_CreatedAt := t\<rparr>]\<rparr>)"
  using assms by (auto simp: shares_order_def share_ok_def list_ex_iff intro: update_evolves)

lemma new_audience_order:
  assumes "\<not> has_audience w (aud_ID q)"
  shows "shares_order w (w\<lparr>wd_audiences := wd_audiences w @ [q\<lparr>aud_CreatedAt := t\<rparr>]\<rparr>)"
  using assms by (auto simp: shares_order_def share_ok_def has_audience_def list_ex_iff intro: update_evolves)

lemma policy_update_order:
  "shares_order w (w\<lparr>wd_policies := update_where c (\<lambda>p. p\<lparr>sp_Spec := spec, sp_Version := sp_Version p + 1, sp_UpdatedAt := t\<rparr>) (wd_policies w)\<rparr>)"
  unfolding shares_order_def share_ok_def
  by (auto simp: distinct_map_update_where policy_step_def intro!: evolves_update_where evolves_refl)

lemma grant_revoke_order:
  "shares_order w (w\<lparr>wd_grants := update_where (\<lambda>x. grant_ID x = i \<and> grant_RevokedAt x = None)
     (\<lambda>x. x\<lparr>grant_RevokedAt := t\<rparr>) (wd_grants w)\<rparr>)"
  unfolding shares_order_def share_ok_def
  by (auto simp: distinct_map_update_where grant_step_def intro!: evolves_update_where evolves_refl)

lemma deny_order:
  assumes "list_all ValidateClassName cs"
  shows "shares_order w (w\<lparr>wd_deny := AList.update i (NormalizeClasses cs) (wd_deny w)\<rparr>)"
proof -
  have "list_all ValidateClassName (NormalizeClasses cs)"
    using assms set_NormalizeClasses_valid [of cs] by (simp add: list_all_iff)
  then show ?thesis
    by (auto simp: shares_order_def share_ok_def intro!: evolves_refl list_all_AList_update)
qed

lemma prepared_clean_grant:
  assumes "prepared what PrepareNewShareGrant grant_ID ''grt_'' g now w = (Inr q, w')" "clean (grant_ID g)"
  shows "clean (grant_ID q)"
proof -
  have "clean ''grt_''" by (simp add: clean_def)
  from clean_ULID [OF this] have u: "clean (''grt_'' @ encodeULID u)" for u .
  from assms(1) obtain j where "PrepareNewShareGrant j (Some g) now = Inr q"
    "grant_ID g = [] \<Longrightarrow> \<exists>u. j = ''grt_'' @ encodeULID u" by (elim prepared_InrE) blast
  with assms(2) u show ?thesis by (metis grants.prepare_id)
qed

interpretation shr: share_order shares_order
proof
  show "obeys shares_order (SetDenyClasses i cs)" for i cs
    unfolding SetDenyClasses_def by (intro shr.op_rules shr.stmt) (auto intro: deny_order shr.refl)
  show "obeys shares_order (BindIdentityPolicy i p)" for i p
    unfolding BindIdentityPolicy_def by (intro shr_same) (simp add: share_tables_def)
  show "obeys shares_order (audience_Create a now)" for a now
    unfolding audience_Create_def
    by (intro shr.op_rules shr.prepared shr.stmt) (auto intro: new_audience_order shr.refl)
  show "obeys shares_order (audience_RemoveMember aid p)" for aid p
    unfolding audience_RemoveMember_def by (intro shr_same) (simp add: share_tables_def Let_def)
  show "obeys shares_order (policy_Create sp now)" for sp now
    unfolding policy_Create_def
    by (intro shr.bnd_info shr.op_rules shr.prepared shr.stmt)
       (auto intro: new_policy_order shr.refl elim!: prepared_InrE)
  show "obeys shares_order (policy_Update i spec now)" for i spec now
    unfolding policy_Update_def
    by (intro shr.op_rules shr.share_reads shr.stmt) (auto intro: policy_update_order shr.refl)
  show "obeys shares_order (grant_Create g now)" if "clean (grant_ID g)" for g now
    unfolding grant_Create_def
    by (intro shr.bnd_info shr.op_rules shr.prepared shr.stmt)
       (use that in \<open>auto intro!: new_grant_order shr.refl dest: prepared_clean_grant\<close>)
  show "obeys shares_order (grant_Revoke i now)" for i now
    unfolding grant_Revoke_def
    by (intro shr.op_rules shr.share_reads shr.stmt) (auto intro: grant_revoke_order)
  have objects: "obeys shares_order (insert_objects a xs)" for a xs
    by (induction xs) (auto intro!: shr_same simp: share_tables_def)
  have "obeys shares_order (insert_entries es)" for es
    by (induction es) (auto intro!: shr.op_rules shr.stmt shares_order_same objects simp: share_tables_def)
  moreover have "obeys shares_order (prepare_entries es now)" for es now
    by (induction es) (auto intro!: shr.op_rules shr.prepared)
  ultimately show "obeys shares_order (access_Append es now)" for es now
    unfolding access_Append_def by (intro shr.op_rules)
  show "obeys shares_order (access_Prune now)" for now
    unfolding access_Prune_def by (intro shr_same) (simp add: share_tables_def Let_def)
qed

section \<open>Histories\<close>

datatype share_event =
    PutCeiling string "string list"
  | PutKeyPolicy string string
  | NewAudience Audience
  | PutMember AudienceMember
  | DropMember string string
  | NewPolicy SharePolicy
  | EditPolicy string "gval option"
  | NewGrant ShareGrant
  | EndGrant string
  | LogAccess "AccessEntry list"
  | PruneLog time

fun run_share :: "share_event \<Rightarrow> time \<Rightarrow> auth_world \<Rightarrow> auth_world" where
  "run_share (PutCeiling i cs) now w = snd (SetDenyClasses i cs w)"
| "run_share (PutKeyPolicy i p) now w = snd (BindIdentityPolicy i p w)"
| "run_share (NewAudience a) now w = snd (audience_Create a now w)"
| "run_share (PutMember m) now w = snd (audience_AddMember m now w)"
| "run_share (DropMember a p) now w = snd (audience_RemoveMember a p w)"
| "run_share (NewPolicy sp) now w = snd (policy_Create sp now w)"
| "run_share (EditPolicy i spec) now w = snd (policy_Update i spec now w)"
| "run_share (NewGrant g) now w = snd (grant_Create g now w)"
| "run_share (EndGrant i) now w = snd (grant_Revoke i now w)"
| "run_share (LogAccess es) now w = snd (access_Append es now w)"
| "run_share (PruneLog t) now w = snd (access_Prune t w)"

text \<open>The callers leave the identifier of a new grant to the store, or give a clean one.\<close>

fun clean_event :: "share_event \<Rightarrow> bool" where
  "clean_event (NewGrant g) = clean (grant_ID g)"
| "clean_event _ = True"

context share_order
begin

lemmas share_rules = SetDenyClasses BindIdentityPolicy audience_Create audience_AddMember audience_RemoveMember
  policy_Create policy_Update grant_Create grant_Revoke access_Append access_Prune

lemma event_share: "clean_event ev \<Longrightarrow> R w (run_share ev now w)"
  by (cases ev) (auto intro: share_rules [THEN snd_obeys])

end

text \<open>What the tables of a database answer to a read of the resolver, a failed statement included.\<close>

definition answer :: "'a auth_op \<Rightarrow> auth_world \<Rightarrow> StoreError + 'a" where
  "answer m w = (case fst (m w) of
       Inr x \<Rightarrow> Inr x
     | Inl e \<Rightarrow> Inl (if is_not_found e then ErrNotFound else OtherError ''database''))"

definition sharing_at :: "auth_world \<Rightarrow> SharingStore" where
  "sharing_at w =
     \<lparr>ss_DenyClasses = (\<lambda>i. answer (sharing_DenyClasses i) w),
      ss_ListActiveForPrincipal = (\<lambda>i now. answer (ListActiveForPrincipal i now) w),
      ss_IdentityPolicy = (\<lambda>i. answer (sharing_IdentityPolicy i) w),
      ss_Policies_Get = (\<lambda>i. answer (policy_Get i) w),
      ss_Policies_GetByName = (\<lambda>n. answer (policy_GetByName n) w)\<rparr>"

definition reads_from :: "auth_world set \<Rightarrow> SharingStore \<Rightarrow> bool" where
  "reads_from W st \<longleftrightarrow>
     (\<forall>i. \<exists>w \<in> W. \<exists>fs. ss_DenyClasses st i = ss_DenyClasses (sharing_at (w\<lparr>wd_faults := fs\<rparr>)) i) \<and>
     (\<forall>i now. \<exists>w \<in> W. \<exists>fs. ss_ListActiveForPrincipal st i now = ss_ListActiveForPrincipal (sharing_at (w\<lparr>wd_faults := fs\<rparr>)) i now) \<and>
     (\<forall>i. \<exists>w \<in> W. \<exists>fs. ss_IdentityPolicy st i = ss_IdentityPolicy (sharing_at (w\<lparr>wd_faults := fs\<rparr>)) i) \<and>
     (\<forall>i. \<exists>w \<in> W. \<exists>fs. ss_Policies_Get st i = ss_Policies_Get (sharing_at (w\<lparr>wd_faults := fs\<rparr>)) i)"

lemma reads_from_at: "w \<in> W \<Longrightarrow> reads_from W (sharing_at w)"
proof -
  assume w: "w \<in> W"
  have "w\<lparr>wd_faults := wd_faults w\<rparr> = w" by simp
  with w show ?thesis unfolding reads_from_def by metis
qed

inductive sharing_run :: "Site \<Rightarrow> auth_world \<Rightarrow> auth_world list \<Rightarrow> viewer_cache \<Rightarrow> bool" for S w0 where
  start: "sharing_run S w0 [w0] []"
| auth: "sharing_run S w0 ws c \<Longrightarrow> mints_key ev \<longrightarrow> fresh_key (last ws) \<Longrightarrow>
     sharing_run S w0 (ws @ [run_event S ev now (last ws)]) c"
| share: "sharing_run S w0 ws c \<Longrightarrow> clean_event ev \<Longrightarrow> sharing_run S w0 (ws @ [run_share ev now (last ws)]) c"
| resolve: "sharing_run S w0 ws (rs_cache rs) \<Longrightarrow> rs_store rs = Some st \<Longrightarrow> reads_from (set ws) st \<Longrightarrow> clean p \<Longrightarrow> clean i \<Longrightarrow>
     snd (Resolve (Some rs) now p kind i) = Some rs' \<Longrightarrow> sharing_run S w0 ws (rs_cache rs')"
| invalidate: "sharing_run S w0 ws c \<Longrightarrow> sharing_run S w0 ws []"

lemma sharing_run_nonempty: "sharing_run S w0 ws c \<Longrightarrow> ws \<noteq> []"
  by (induction rule: sharing_run.induct) auto

lemma sorted_wrt_snoc_last:
  assumes "sorted_wrt R ws" "ws \<noteq> []" "R (last ws) w" and trans: "\<And>a b c. R a b \<Longrightarrow> R b c \<Longrightarrow> R a c"
  shows "sorted_wrt R (ws @ [w])"
proof -
  obtain vs v where ws: "ws = vs @ [v]" using assms(2) by (metis append_butlast_last_id)
  have "R u w" if "u \<in> set vs" for u using assms(1,3) that trans unfolding ws by (auto simp: sorted_wrt_append)
  with assms(1,3) show ?thesis unfolding ws by (auto simp: sorted_wrt_append)
qed

lemma sharing_run_chained:
  assumes "sharing_run S w0 ws c" "built_site S"
  shows "sorted_wrt shares_order ws"
  using assms
proof (induction rule: sharing_run.induct)
  case (auth ws c ev now)
  then show ?case using sharing_run_nonempty [OF auth.hyps(1)] shr.event_store [OF assms(2)] shr.trans
    by (intro sorted_wrt_snoc_last) auto
next
  case (share ws c ev now)
  then show ?case using sharing_run_nonempty [OF share.hyps(1)] shr.event_share shr.trans
    by (intro sorted_wrt_snoc_last) auto
qed auto

lemma sharing_run_ok:
  assumes "sharing_run S w0 ws c" "built_site S" "share_ok w0" "w \<in> set ws"
  shows "share_ok w"
proof -
  have "hd ws = w0 \<and> ws \<noteq> []" using assms(1) by (induction rule: sharing_run.induct) auto
  then obtain vs where "ws = w0 # vs" by (metis list.collapse)
  with sharing_run_chained [OF assms(1,2)] assms(3,4) show ?thesis by (auto simp: shares_order_def)
qed

section \<open>Inputs of the tables\<close>

definition policy_in :: "auth_world \<Rightarrow> Policy \<Rightarrow> bool" where
  "policy_in w p \<longleftrightarrow> (\<exists>sp \<in> set (wd_policies w). PolicyFromSpec (Some sp) = Inr p)"

definition audience_of :: "auth_world \<Rightarrow> string \<Rightarrow> string \<Rightarrow> bool" where
  "audience_of w gid name \<longleftrightarrow>
     (\<exists>g \<in> set (wd_grants w). \<exists>a \<in> set (wd_audiences w). grant_ID g = gid \<and> aud_ID a = grant_AudienceID g \<and> aud_Name a = name)"

definition loaded :: "auth_world set \<Rightarrow> Input \<Rightarrow> bool" where
  "loaded W inp \<longleftrightarrow>
     clean (in_PrincipalID inp) \<and> clean (in_IdentityID inp) \<and> list_all ValidateClassName (in_DenyClasses inp) \<and>
     (\<forall>g \<in> set (in_Grants inp). clean (gr_ID g) \<and> (\<exists>w \<in> W. audience_of w (gr_ID g) (gr_Audience g)) \<and> (\<exists>w \<in> W. policy_in w (gr_Policy g))) \<and>
     (\<forall>k. in_KeyPolicy inp = Some k \<longrightarrow> (\<exists>w \<in> W. policy_in w k))"

lemma loaded_mono: "loaded W inp \<Longrightarrow> W \<subseteq> V \<Longrightarrow> loaded V inp"
  unfolding loaded_def by blast

lemma PolicyFromSpec_row:
  "PolicyFromSpec (Some sp) = Inr p \<Longrightarrow> pol_Name p = sp_Name sp \<and> pol_Version p = sp_Version sp"
  by (auto simp: PolicyFromSpec_def Let_def split: option.splits if_splits)

lemma PolicyFromSpec_cong:
  "sp_Name a = sp_Name b \<Longrightarrow> sp_Version a = sp_Version b \<Longrightarrow> sp_Spec a = sp_Spec b \<Longrightarrow>
   PolicyFromSpec (Some a) = PolicyFromSpec (Some b)"
  unfolding PolicyFromSpec_def option.case by (simp only:)

lemma evolves_row: "evolves E xs ys \<Longrightarrow> x \<in> set xs \<Longrightarrow> \<exists>y \<in> set ys. E x y"
  by (fastforce simp: evolves_def list_all2_conv_all_nth in_set_conv_nth nth_append)

lemma row_of_key: "distinct (map f xs) \<Longrightarrow> x \<in> set xs \<Longrightarrow> y \<in> set xs \<Longrightarrow> f x = f y \<Longrightarrow> x = y"
  by (simp add: distinct_map inj_on_def)

lemma share_ok_keys:
  assumes "share_ok w"
  shows "distinct (map sp_ID (wd_policies w))" "distinct (map sp_Name (wd_policies w))"
    "distinct (map grant_ID (wd_grants w))" "distinct (map aud_ID (wd_audiences w))"
    "p \<in> set (wd_policies w) \<Longrightarrow> clean (sp_Name p)" "g \<in> set (wd_grants w) \<Longrightarrow> clean (grant_ID g)"
  using assms by (simp_all add: share_ok_def list_all_iff)

lemma policy_in_unique_later:
  assumes "shares_order v w" "share_ok v" "policy_in v p" "policy_in w q" "pol_Name p = pol_Name q" "pol_Version p = pol_Version q"
  shows "p = q"
proof -
  from assms(3,4) obtain a b where a: "a \<in> set (wd_policies v)" "PolicyFromSpec (Some a) = Inr p"
    and b: "b \<in> set (wd_policies w)" "PolicyFromSpec (Some b) = Inr q" by (auto simp: policy_in_def)
  from assms(1,2) have w: "share_ok w" "evolves policy_step (wd_policies v) (wd_policies w)" by (simp_all add: shares_order_def)
  from evolves_row [OF w(2) a(1)] obtain c where c: "c \<in> set (wd_policies w)" "policy_step a c" by blast
  have names: "sp_Name c = sp_Name b"
    using c(2) PolicyFromSpec_row [OF a(2)] PolicyFromSpec_row [OF b(2)] assms(5) by (simp add: policy_step_def)
  have "c = b" using share_ok_keys(2) [OF w(1)] c(1) b(1) names by (rule row_of_key)
  with c(2) have "sp_Name a = sp_Name b \<and> sp_Version a = sp_Version b \<and> sp_Spec a = sp_Spec b"
    using PolicyFromSpec_row [OF a(2)] PolicyFromSpec_row [OF b(2)] assms(6) by (auto simp: policy_step_def)
  then have "PolicyFromSpec (Some a) = PolicyFromSpec (Some b)" by (intro PolicyFromSpec_cong) simp_all
  with a(2) b(2) show ?thesis by simp
qed

lemma audience_of_unique_later:
  assumes "shares_order v w" "share_ok v" "audience_of v i m" "audience_of w i n"
  shows "m = n"
proof -
  from assms(3,4) obtain g a h b where v: "g \<in> set (wd_grants v)" "a \<in> set (wd_audiences v)" "grant_ID g = i"
      "aud_ID a = grant_AudienceID g" "aud_Name a = m"
    and w: "h \<in> set (wd_grants w)" "b \<in> set (wd_audiences w)" "grant_ID h = i" "aud_ID b = grant_AudienceID h" "aud_Name b = n"
    unfolding audience_of_def by blast
  from assms(1,2) have e: "share_ok w" "evolves grant_step (wd_grants v) (wd_grants w)" "evolves (=) (wd_audiences v) (wd_audiences w)"
    by (simp_all add: shares_order_def)
  from evolves_row [OF e(2) v(1)] obtain h' where h': "h' \<in> set (wd_grants w)" "grant_step g h'" by blast
  have "h' = h"
    by (rule row_of_key [OF share_ok_keys(3) [OF e(1)] h'(1) w(1)]) (use h'(2) v(3) w(3) in \<open>simp add: grant_step_def\<close>)
  with h'(2) have "grant_AudienceID h = grant_AudienceID g" by (simp add: grant_step_def)
  moreover have "a \<in> set (wd_audiences w)" using evolves_row [OF e(3) v(2)] by simp
  ultimately have "a = b" using row_of_key [OF share_ok_keys(4) [OF e(1)] _ w(2)] w(4) v(4) by simp
  with v(5) w(5) show ?thesis by simp
qed

lemma sorted_wrt_linear:
  "sorted_wrt R ws \<Longrightarrow> v \<in> set ws \<Longrightarrow> w \<in> set ws \<Longrightarrow> v = w \<or> R v w \<or> R w v"
  by (induction ws) auto

text \<open>
  The tables of a history are one registry in the sense of the cache: one policy per name and
  version, one audience per grant.
\<close>

lemma history_registered:
  assumes "sorted_wrt shares_order ws" "\<And>w. w \<in> set ws \<Longrightarrow> share_ok w"
  shows "\<exists>pols auds. \<forall>inp. loaded (set ws) inp \<longrightarrow> registered pols auds inp"
proof -
  have pol: "p = q" if "v \<in> set ws" "w \<in> set ws" "policy_in v p" "policy_in w q" "pol_Name p = pol_Name q" "pol_Version p = pol_Version q" for v w p q
    using sorted_wrt_linear [OF assms(1) that(1,2)] policy_in_unique_later that assms(2) shr.refl by metis
  have aud: "m = n" if "v \<in> set ws" "w \<in> set ws" "audience_of v i m" "audience_of w i n" for v w i m n
    using sorted_wrt_linear [OF assms(1) that(1,2)] audience_of_unique_later that assms(2) shr.refl by metis
  define pols where "pols n v = (SOME p. (\<exists>w \<in> set ws. policy_in w p) \<and> pol_Name p = n \<and> pol_Version p = v)" for n v
  define auds where "auds i = (SOME n. \<exists>w \<in> set ws. audience_of w i n)" for i
  have p: "policy_from pols p" if "w \<in> set ws" "policy_in w p" for w p
  proof -
    have "clean (pol_Name p)"
      using that(2) share_ok_keys(5) [OF assms(2) [OF that(1)]] PolicyFromSpec_row unfolding policy_in_def by metis
    moreover have "pols (pol_Name p) (pol_Version p) = p"
      unfolding pols_def by (rule some_equality) (use that pol in blast)+
    ultimately show ?thesis by (simp add: policy_from_def)
  qed
  have a: "n = auds i" if "w \<in> set ws" "audience_of w i n" for w i n
  proof -
    have "auds i = n" unfolding auds_def by (rule some_equality) (use that aud in blast)+
    then show ?thesis by simp
  qed
  show ?thesis
    by (intro exI [of _ pols] exI [of _ auds]) (use p a in \<open>auto simp: loaded_def registered_def list_all_iff split: option.split\<close>)
qed

section \<open>What a load reads\<close>

lemma answer_query:
  assumes "\<And>fs. f (w\<lparr>wd_faults := fs\<rparr>) = f w"
  shows "answer (query f) w = Inr x \<Longrightarrow> f w = Inr x"
    and "answer (query f) w = Inl ErrNotFound \<Longrightarrow> \<exists>e. f w = Inl e \<and> is_not_found e"
  using assms by (auto simp: answer_def query_def stmt_def split: list.splits sum.splits if_splits)

lemma faults_irrelevant [simp]:
  "active_grants (w\<lparr>wd_faults := fs\<rparr>) i now = active_grants w i now"
  "has_principal (w\<lparr>wd_faults := fs\<rparr>) i = has_principal w i"
  "has_identity (w\<lparr>wd_faults := fs\<rparr>) i = has_identity w i"
  "deny_of (w\<lparr>wd_faults := fs\<rparr>) i = deny_of w i" "bound_of (w\<lparr>wd_faults := fs\<rparr>) i = bound_of w i"
  by (simp_all add: active_grants_def has_principal_def has_identity_def deny_of_def bound_of_def cong: if_cong)

lemma read_DenyClasses:
  "ss_DenyClasses (sharing_at (w\<lparr>wd_faults := fs\<rparr>)) i = Inr cs \<Longrightarrow> has_principal w i \<and> cs = NormalizeClasses (deny_of w i)"
  "ss_DenyClasses (sharing_at (w\<lparr>wd_faults := fs\<rparr>)) i = Inl ErrNotFound \<Longrightarrow> \<not> has_principal w i"
  by (auto simp: sharing_at_def sharing_DenyClasses_def 
      dest!: answer_query [rotated] split: if_splits)

lemma read_ListActive:
  "ss_ListActiveForPrincipal (sharing_at (w\<lparr>wd_faults := fs\<rparr>)) i now = Inr ags \<Longrightarrow> ags = active_grants w i now"
  "ss_ListActiveForPrincipal (sharing_at (w\<lparr>wd_faults := fs\<rparr>)) i now \<noteq> Inl ErrNotFound"
  by (auto simp: sharing_at_def ListActiveForPrincipal_def dest!: answer_query [rotated])

lemma read_IdentityPolicy:
  "ss_IdentityPolicy (sharing_at (w\<lparr>wd_faults := fs\<rparr>)) i = Inr p \<Longrightarrow> has_identity w i \<and> p = bound_of w i"
  "ss_IdentityPolicy (sharing_at (w\<lparr>wd_faults := fs\<rparr>)) i = Inl ErrNotFound \<Longrightarrow> \<not> has_identity w i"
  by (auto simp: sharing_at_def sharing_IdentityPolicy_def 
      dest!: answer_query [rotated] split: if_splits)

lemma read_Policies_Get:
  "ss_Policies_Get (sharing_at (w\<lparr>wd_faults := fs\<rparr>)) i = Inr sp \<Longrightarrow> sp \<in> set (wd_policies w) \<and> sp_ID sp = i"
  "ss_Policies_Get (sharing_at (w\<lparr>wd_faults := fs\<rparr>)) i = Inl ErrNotFound \<Longrightarrow> sp \<in> set (wd_policies w) \<Longrightarrow> sp_ID sp \<noteq> i"
  by (auto simp: sharing_at_def policy_Get_def one_def find_Some_iff find_None_iff
      dest!: answer_query [rotated] split: option.splits)

lemma set_active_grants:
  "ag \<in> set (active_grants w i now) \<longleftrightarrow>
     (\<exists>m \<in> set (wd_members w). mem_PrincipalID m = i \<and> live (mem_ExpiresAt m) now \<and>
        aud_ID (ag_Audience ag) = mem_AudienceID m \<and> grant_AudienceID (ag_Grant ag) = mem_AudienceID m) \<and>
     ag_Audience ag \<in> set (wd_audiences w) \<and> ag_Grant ag \<in> set (wd_grants w) \<and>
     grant_RevokedAt (ag_Grant ag) = None \<and> live (grant_ExpiresAt (ag_Grant ag)) now \<and>
     ag_Policy ag \<in> set (wd_policies w) \<and> sp_ID (ag_Policy ag) = grant_PolicyID (ag_Grant ag)"
  by (cases ag) (force simp: active_grants_def)

lemma list_all2_row:
  assumes "list_all2 P xs ys"
  shows "x \<in> set xs \<Longrightarrow> \<exists>y \<in> set ys. P x y" and "y \<in> set ys \<Longrightarrow> \<exists>x \<in> set xs. P x y"
  using assms by (induction rule: list_all2_induct) auto

lemma load_grants_rows:
  "load_grants ags = Inr gs \<Longrightarrow>
   list_all2 (\<lambda>ag g. gr_ID g = grant_ID (ag_Grant ag) \<and> gr_Audience g = aud_Name (ag_Audience ag) \<and>
      PolicyFromSpec (Some (ag_Policy ag)) = Inr (gr_Policy g)) ags gs"
  by (induction ags arbitrary: gs) (auto split: sum.splits)

lemma loadInput_InrE:
  assumes "loadInput st p i now = Inr inp"
  obtains ags where "in_PrincipalID inp = p" "in_IdentityID inp = i" "ss_DenyClasses st p = Inr (in_DenyClasses inp)"
    "ss_ListActiveForPrincipal st p now = Inr ags" "load_grants ags = Inr (in_Grants inp)"
    "load_key_policy st i = Inr (in_KeyPolicy inp)"
  using assms unfolding loadInput_def by (auto split: sum.splits)

lemma load_key_policy_Some:
  assumes "load_key_policy st i = Inr (Some k)"
  obtains pid sp where "i \<noteq> []" "ss_IdentityPolicy st i = Inr pid" "pid \<noteq> []" "ss_Policies_Get st pid = Inr sp"
    "PolicyFromSpec (Some sp) = Inr k"
  using assms unfolding load_key_policy_def by (auto split: sum.splits if_splits)

lemma share_ok_deny: "share_ok w \<Longrightarrow> list_all ValidateClassName (deny_of w i)"
  unfolding share_ok_def deny_of_def
  by (cases "map_of (wd_deny w) i") (fastforce simp: list_all_iff dest: map_of_SomeD)+

lemma loadInput_loaded:
  assumes "reads_from W st" "\<And>w. w \<in> W \<Longrightarrow> share_ok w" "clean p" "clean i" "loadInput st p i now = Inr inp"
  shows "loaded W inp"
proof -
  from assms(5) obtain ags where l: "in_PrincipalID inp = p" "in_IdentityID inp = i" "ss_DenyClasses st p = Inr (in_DenyClasses inp)"
    "ss_ListActiveForPrincipal st p now = Inr ags" "load_grants ags = Inr (in_Grants inp)"
    "load_key_policy st i = Inr (in_KeyPolicy inp)" by (rule loadInput_InrE)
  from assms(1) l(3) obtain w where w: "w \<in> W" "in_DenyClasses inp = NormalizeClasses (deny_of w p)"
    unfolding reads_from_def using read_DenyClasses(1) by metis
  have "list_all ValidateClassName (deny_of w p)" using assms(2) [OF w(1)] by (rule share_ok_deny)
  with w(2) have deny: "list_all ValidateClassName (in_DenyClasses inp)"
    using set_NormalizeClasses_valid by (simp add: list_all_iff)
  from assms(1) l(4) obtain v where v: "v \<in> W" "ags = active_grants v p now"
    unfolding reads_from_def using read_ListActive(1) by metis
  have grants: "clean (gr_ID g) \<and> audience_of v (gr_ID g) (gr_Audience g) \<and> policy_in v (gr_Policy g)" if "g \<in> set (in_Grants inp)" for g
  proof -
    from load_grants_rows [OF l(5)] that obtain ag where ag: "ag \<in> set (active_grants v p now)" "gr_ID g = grant_ID (ag_Grant ag)"
      "gr_Audience g = aud_Name (ag_Audience ag)" "PolicyFromSpec (Some (ag_Policy ag)) = Inr (gr_Policy g)"
      unfolding v(2) by (blast dest: list_all2_row(2))
    then have "audience_of v (gr_ID g) (gr_Audience g)" "policy_in v (gr_Policy g)" "ag_Grant ag \<in> set (wd_grants v)"
      unfolding set_active_grants audience_of_def policy_in_def by metis+
    with share_ok_keys(6) [OF assms(2) [OF v(1)]] ag(2) show ?thesis by simp
  qed
  have key: "\<exists>w \<in> W. policy_in w k" if "in_KeyPolicy inp = Some k" for k
  proof -
    from l(6) that obtain pid sp where "ss_Policies_Get st pid = Inr sp" "PolicyFromSpec (Some sp) = Inr k"
      by (metis load_key_policy_Some)
    moreover from this(1) assms(1) obtain u where "u \<in> W" "sp \<in> set (wd_policies u)"
      unfolding reads_from_def using read_Policies_Get(1) by metis
    ultimately show ?thesis by (auto simp: policy_in_def)
  qed
  show ?thesis unfolding loaded_def l(1,2) using assms(3,4) deny grants key v(1) by blast
qed

section \<open>The cache over any history\<close>

lemma reachable_cache_mono:
  "reachable_cache P c \<Longrightarrow> (\<And>inp. P inp \<Longrightarrow> Q inp) \<Longrightarrow> reachable_cache Q c"
proof (induction rule: reachable_cache.induct)
  case (further c c')
  then have "reachable_cache Q c" by blast
  moreover have "cache_step Q c c'"
    using further.hyps(2) by (rule cache_stepE) (auto intro: cache_step.intros further.prems)
  ultimately show ?case by (rule reachable_cache.further)
qed (rule reachable_cache.initial)

lemma Resolve_cache:
  assumes "rs_store rs = Some st" "snd (Resolve (Some rs) now p kind i) = Some rs'"
  shows "rs_cache rs' = rs_cache rs \<or>
    (\<exists>inp v. loadInput st p i now = Inr inp \<and> Compile_viewer inp = Inr v \<and>
       rs_cache rs' = cache_put resolverCacheMax (cache_key inp) v (rs_cache rs))"
  using assms unfolding Resolve_def by (auto simp: Let_def split: if_splits sum.splits option.splits)

lemma sharing_run_cache:
  assumes "sharing_run S w0 ws c" "built_site S" "share_ok w0"
  shows "reachable_cache (loaded (set ws)) c"
  using assms
proof (induction rule: sharing_run.induct)
  case (resolve ws rs st p i now kind rs')
  have ok: "share_ok w" if "w \<in> set ws" for w using sharing_run_ok [OF resolve.hyps(1) resolve.prems that] .
  have "loaded (set ws) inp" if "loadInput st p i now = Inr inp" for inp
    using loadInput_loaded [OF resolve.hyps(3) ok resolve.hyps(4,5) that] .
  with Resolve_cache [OF resolve.hyps(2,6)] resolve.IH [OF resolve.prems] show ?case
    by (metis reachable_cache.further cache_step.store)
qed (auto intro: reachable_cache.initial reachable_cache_mono loaded_mono)

section \<open>What the tables let a principal see\<close>

definition granted_through :: "'r meaning \<Rightarrow> ('r \<Rightarrow> string list) \<Rightarrow> auth_world \<Rightarrow> string \<Rightarrow> time \<Rightarrow> ShareGrant \<Rightarrow> 'r \<Rightarrow> bool" where
  "granted_through sat cls w i now g row \<longleftrightarrow>
     g \<in> set (wd_grants w) \<and> grant_RevokedAt g = None \<and> live (grant_ExpiresAt g) now \<and>
     (\<exists>m \<in> set (wd_members w). mem_PrincipalID m = i \<and> mem_AudienceID m = grant_AudienceID g \<and> live (mem_ExpiresAt m) now) \<and>
     (\<exists>a \<in> set (wd_audiences w). aud_ID a = grant_AudienceID g) \<and>
     (\<exists>sp \<in> set (wd_policies w). \<exists>p. sp_ID sp = grant_PolicyID g \<and> PolicyFromSpec (Some sp) = Inr p \<and> admits sat cls p row)"

definition tables_allow :: "'r meaning \<Rightarrow> ('r \<Rightarrow> string list) \<Rightarrow> auth_world \<Rightarrow> string \<Rightarrow> string \<Rightarrow> time \<Rightarrow> 'r \<Rightarrow> bool" where
  "tables_allow sat cls w i ident now row \<longleftrightarrow>
     has_principal w i \<and> (\<exists>g. granted_through sat cls w i now g row) \<and>
     free_of (deny_of w i) (cls row) \<and>
     (ident = [] \<or> has_identity w ident \<and>
        (bound_of w ident = [] \<or>
         (\<exists>sp \<in> set (wd_policies w). \<exists>k. sp_ID sp = bound_of w ident \<and> PolicyFromSpec (Some sp) = Inr k \<and> admits sat cls k row)))"

lemma free_of_normal: "list_all ValidateClassName cs \<Longrightarrow> free_of (NormalizeClasses cs) xs = free_of cs xs"
  using set_NormalizeClasses_valid [of cs] set_NormalizeClasses_valid [of "NormalizeClasses cs"]
  by (simp add: free_of_def list_all_iff)

lemma grants_granted:
  assumes "load_grants (active_grants w i now) = Inr gs"
  shows "(\<exists>g \<in> set gs. admits sat cls (gr_Policy g) row) \<longleftrightarrow> (\<exists>g. granted_through sat cls w i now g row)"
proof
  note rows = list_all2_row [OF load_grants_rows [OF assms]]
  show "\<exists>g. granted_through sat cls w i now g row" if "\<exists>g \<in> set gs. admits sat cls (gr_Policy g) row"
  proof -
    from that obtain g where g: "g \<in> set gs" "admits sat cls (gr_Policy g) row" by blast
    from rows(2) [OF g(1)] obtain ag where ag: "ag \<in> set (active_grants w i now)"
      "PolicyFromSpec (Some (ag_Policy ag)) = Inr (gr_Policy g)" by blast
    from ag(1)[unfolded set_active_grants] ag(2) g(2) have "granted_through sat cls w i now (ag_Grant ag) row"
      unfolding granted_through_def by metis
    then show ?thesis ..
  qed
  show "\<exists>g \<in> set gs. admits sat cls (gr_Policy g) row" if "\<exists>g. granted_through sat cls w i now g row"
  proof -
    from that obtain g m a sp p where t: "g \<in> set (wd_grants w)" "grant_RevokedAt g = None" "live (grant_ExpiresAt g) now"
      "m \<in> set (wd_members w)" "mem_PrincipalID m = i" "mem_AudienceID m = grant_AudienceID g" "live (mem_ExpiresAt m) now"
      "a \<in> set (wd_audiences w)" "aud_ID a = grant_AudienceID g" "sp \<in> set (wd_policies w)" "sp_ID sp = grant_PolicyID g"
      "PolicyFromSpec (Some sp) = Inr p" "admits sat cls p row"
      unfolding granted_through_def by blast
    have "\<lparr>ag_Grant = g, ag_Audience = a, ag_Policy = sp\<rparr> \<in> set (active_grants w i now)"
      unfolding set_active_grants using t by auto
    from rows(1) [OF this] t(12,13) show ?thesis by auto
  qed
qed

lemma zero_viewer_blind: "\<not> viewer_sees sat cls zero_viewer row"
  by (simp add: viewer_sees_def zero_viewer_def IsUnrestricted_def PredicateNode_def)

lemma load_key_policy_None:
  assumes "load_key_policy (sharing_at w) i = Inr None"
  shows "i = [] \<or> has_identity w i \<and> bound_of w i = []"
proof -
  have st: "sharing_at w = sharing_at (w\<lparr>wd_faults := wd_faults w\<rparr>)" by simp
  show ?thesis
    using assms read_IdentityPolicy(1) [where w = w and fs = "wd_faults w"] unfolding load_key_policy_def
    by (auto split: sum.splits if_splits)
qed

lemma key_policy_admits:
  assumes "load_key_policy (sharing_at w) i = Inr kp" "share_ok w"
  shows "(case kp of None \<Rightarrow> True | Some k \<Rightarrow> admits sat cls k row) \<longleftrightarrow>
      (i = [] \<or> has_identity w i \<and> (bound_of w i = [] \<or>
         (\<exists>sp \<in> set (wd_policies w). \<exists>k. sp_ID sp = bound_of w i \<and> PolicyFromSpec (Some sp) = Inr k \<and> admits sat cls k row)))"
proof (cases kp)
  case None
  with assms(1) load_key_policy_None show ?thesis by auto
next
  case (Some k)
  with assms(1) obtain pid sp where k: "i \<noteq> []" "ss_IdentityPolicy (sharing_at w) i = Inr pid" "pid \<noteq> []"
    "ss_Policies_Get (sharing_at w) pid = Inr sp" "PolicyFromSpec (Some sp) = Inr k" by (metis load_key_policy_Some)
  have b: "has_identity w i" "pid = bound_of w i" "sp \<in> set (wd_policies w)" "sp_ID sp = pid"
    using read_IdentityPolicy(1) [where w = w and fs = "wd_faults w" and i = i and p = pid]
      read_Policies_Get(1) [where w = w and fs = "wd_faults w" and i = pid and sp = sp] k(2,4) by simp_all
  have "sp' = sp" if "sp' \<in> set (wd_policies w)" "sp_ID sp' = bound_of w i" for sp'
    by (rule row_of_key [OF share_ok_keys(1) [OF assms(2)] that(1) b(3)]) (simp add: that(2) b(2,4))
  then have "(\<exists>sp \<in> set (wd_policies w). \<exists>k. sp_ID sp = bound_of w i \<and> PolicyFromSpec (Some sp) = Inr k \<and> admits sat cls k row) \<longleftrightarrow>
      admits sat cls k row"
    using b k(5) by (metis sum.inject(2))
  moreover have "bound_of w i \<noteq> []" using b(2) k(3) by simp
  ultimately show ?thesis using Some k(1) b(1) by simp
qed

lemma not_found_blind:
  assumes "loadInput (sharing_at w) p i now = Inl StoreNotFound"
  shows "\<not> tables_allow sat cls w p i now row"
proof -
  have nf: "store_error e = StoreNotFound \<Longrightarrow> e = ErrNotFound" for e by (cases e) auto
  have gr: "load_grants ags \<noteq> Inl StoreNotFound" for ags by (induction ags) (auto split: sum.splits)
  from assms consider "ss_DenyClasses (sharing_at w) p = Inl ErrNotFound"
    | "ss_ListActiveForPrincipal (sharing_at w) p now = Inl ErrNotFound"
    | "i \<noteq> []" "ss_IdentityPolicy (sharing_at w) i = Inl ErrNotFound"
    | pid where "i \<noteq> []" "ss_IdentityPolicy (sharing_at w) i = Inr pid" "pid \<noteq> []" "ss_Policies_Get (sharing_at w) pid = Inl ErrNotFound"
    using nf gr unfolding loadInput_def load_key_policy_def by (auto split: sum.splits if_splits)
  then show ?thesis
    using read_DenyClasses(2) [where w = w and fs = "wd_faults w"] read_ListActive(2) [where w = w and fs = "wd_faults w"]
      read_IdentityPolicy [where w = w and fs = "wd_faults w"] read_Policies_Get(2) [where w = w and fs = "wd_faults w"]
    by cases (auto simp: tables_allow_def)
qed

section \<open>Properties\<close>

lemma Resolve_current:
  assumes "sharing_run S w0 ws (rs_cache rs)" "built_site S" "share_ok w0" "rs_store rs = Some st" "reads_from (set ws) st"
    and "kind \<noteq> ''owner''" "clean p" "clean i" "loadInput st p i now = Inr inp"
  shows "fst (Resolve (Some rs) now p kind i) = Compile_viewer inp"
proof -
  have ok: "share_ok w" if "w \<in> set ws" for w using sharing_run_ok [OF assms(1-3) that] .
  obtain pols auds where reg: "\<And>inp. loaded (set ws) inp \<Longrightarrow> registered pols auds inp"
    using history_registered [OF sharing_run_chained [OF assms(1,2)] ok] by blast
  have "reachable_cache (registered pols auds) (rs_cache rs)"
    using sharing_run_cache [OF assms(1-3)] reg by (rule reachable_cache_mono)
  moreover have "registered pols auds inp" using loadInput_loaded [OF assms(5) ok assms(7-9)] by (rule reg)
  ultimately show ?thesis using resolve_is_transparent assms(4,6,9) by blast
qed

text \<open>
  C27: the resolver's cache is never stale. Over any history of the registries (policies edited,
  grants and keys minted and revoked, members coming and going, statements failing), with
  viewers resolved and cached in between by loads whose reads other requests' writes may
  come between, a request whose reads succeed is given the viewer compiled from exactly what it
  read, as if there were no cache.
\<close>

theorem cache_never_stale:
  assumes "sharing_run S w0 ws (rs_cache rs)" "built_site S" "share_ok w0" "rs_store rs = Some st" "reads_from (set ws) st"
    and "kind \<noteq> ''owner''" "clean p" "clean i" "loadInput st p i now = Inr inp"
  shows "fst (Resolve (Some rs) now p kind i) = Compile_viewer inp"
  using assms by (rule Resolve_current)

text \<open>
  C13: the tables decide what a principal sees. Whatever happened before and whatever the cache
  holds, a request that reads the database as it is now is given a viewer that sees a row if
  and only if the tables of now allow it: the principal exists, an unexpired membership and an
  unrevoked, unexpired grant lead to a policy that admits the row, no class of the ceiling is
  on the row, and the policy bound to the key, when there is one, admits it too.
\<close>

theorem tables_decide_visibility:
  assumes "sharing_run S w0 ws (rs_cache rs)" "built_site S" "share_ok w0" "rs_store rs = Some (sharing_at (last ws))"
    and "kind \<noteq> ''owner''" "clean p" "clean i" "fst (Resolve (Some rs) now p kind i) = Inr v"
  shows "viewer_sees sat cls v row \<longleftrightarrow> tables_allow sat cls (last ws) p i now row"
proof -
  let ?w = "last ws" and ?st = "sharing_at (last ws)"
  have w: "?w \<in> set ws" using sharing_run_nonempty [OF assms(1)] by simp
  note ok = sharing_run_ok [OF assms(1-3) w]
  have st: "?st = sharing_at (?w\<lparr>wd_faults := wd_faults ?w\<rparr>)" by simp
  show ?thesis
  proof (cases "loadInput ?st p i now")
    case (Inr inp)
    from Resolve_current [OF assms(1-4) reads_from_at [OF w] assms(5-7) Inr] assms(8)
    have c: "Compile_viewer inp = Inr v" by simp
    from Inr obtain ags where l: "in_PrincipalID inp = p" "in_IdentityID inp = i" "ss_DenyClasses ?st p = Inr (in_DenyClasses inp)"
      "ss_ListActiveForPrincipal ?st p now = Inr ags" "load_grants ags = Inr (in_Grants inp)"
      "load_key_policy ?st i = Inr (in_KeyPolicy inp)" by (rule loadInput_InrE)
    have d: "has_principal ?w p" "in_DenyClasses inp = NormalizeClasses (deny_of ?w p)"
      using read_DenyClasses(1) l(3) st by metis+
    have g: "load_grants (active_grants ?w p now) = Inr (in_Grants inp)" using read_ListActive(1) l(4,5) st by metis
    have k: "(case in_KeyPolicy inp of None \<Rightarrow> True | Some k \<Rightarrow> admits sat cls k row) \<longleftrightarrow>
      (i = [] \<or> has_identity ?w i \<and> (bound_of ?w i = [] \<or>
         (\<exists>sp \<in> set (wd_policies ?w). \<exists>k. sp_ID sp = bound_of ?w i \<and> PolicyFromSpec (Some sp) = Inr k \<and> admits sat cls k row)))"
      using l(6) ok by (rule key_policy_admits)
    show ?thesis
      unfolding viewer_sees_may_see [OF c] may_see_def tables_allow_def grants_granted [OF g] k d(2)
        free_of_normal [OF share_ok_deny [OF ok]] using d(1) by blast
  next
    case (Inl e)
    then have e: "e = StoreNotFound" "v = zero_viewer"
      using assms(4,5,8) by (auto simp: Resolve_def PrincipalKindOwner_def split: if_splits)
    with Inl have "\<not> tables_allow sat cls ?w p i now row" by (simp add: not_found_blind)
    with e(2) zero_viewer_blind show ?thesis by metis
  qed
qed

lemma find_row: "find c xs = Some x \<Longrightarrow> x \<in> set xs \<and> c x"
  by (auto simp: find_Some_iff)

lemma grant_Revoke_row:
  assumes "grant_Revoke gid at u = (Inr (), w)"
  obtains g where "g \<in> set (wd_grants w)" "grant_ID g = gid" "grant_RevokedAt g \<noteq> None"
proof -
  from assms obtain g where g: "g \<in> set (wd_grants u)" "grant_ID g = gid"
    and w: "grant_RevokedAt g \<noteq> None \<and> wd_grants w = wd_grants u \<or>
      wd_grants w = update_where (\<lambda>x. grant_ID x = gid \<and> grant_RevokedAt x = None) (\<lambda>x. x\<lparr>grant_RevokedAt := Some (stored at)\<rparr>) (wd_grants u)"
    unfolding grant_Revoke_def grant_Get_def one_def query_def
    by (elim bnd_InrE stmt_InrE)
       (auto simp: ret_def split: option.splits if_splits elim!: stmt_InrE dest!: find_row)
  from w show thesis
  proof
    assume "grant_RevokedAt g \<noteq> None \<and> wd_grants w = wd_grants u"
    with g that show thesis by simp
  next
    assume "wd_grants w = update_where (\<lambda>x. grant_ID x = gid \<and> grant_RevokedAt x = None)
      (\<lambda>x. x\<lparr>grant_RevokedAt := Some (stored at)\<rparr>) (wd_grants u)"
    then have "(if grant_RevokedAt g = None then g\<lparr>grant_RevokedAt := Some (stored at)\<rparr> else g) \<in> set (wd_grants w)"
      using g by (auto simp: update_where_def image_iff intro!: bexI [of _ g])
    with g(2) that show thesis by (auto split: if_splits)
  qed
qed


end
