(* ===== verification/Http_Share.thy ===== *)
theory Http_Share
  imports Http_Registry Share_System
begin

text \<open>
  The sharing registry over the API: \<open>internal/server/http/handlers_share.go\<close> (audiences and
  members), \<open>handlers_share_policies.go\<close> (policies, templates, grants, ceilings, key policies)
  and \<open>handlers_share_audit.go\<close> (the read audit), as handlers over the database in the manner of
  \<open>Http_Registry\<close>. The YAML decoder, the texts of policy errors and the parsers of dates and durations
  are parameters, gathered in \<open>shareRoutes\<close>. Of the text of a database error an answer quotes, only the
  operation that failed is kept.
\<close>

section \<open>Answers and requests\<close>

record audienceRecord =
  ar_Audience :: Audience
  ar_Members :: "AudienceMember list"

record grantRecord =
  gt_ShareGrant :: ShareGrant
  gt_Audience :: string
  gt_Policy :: string
  gt_PolicyVersion :: int

record ceilingRecord =
  ce_PrincipalID :: string
  ce_DenyClasses :: "string list"

record keyPolicyRecord =
  kp_KeyID :: string
  kp_IdentityID :: string
  kp_PolicyID :: string
  kp_Policy :: string

datatype ShareBody =
    AudienceBody audienceRecord
  | AudienceListBody "audienceRecord list"
  | MemberBody AudienceMember
  | PolicyBody SharePolicy
  | PolicyListBody "SharePolicy list"
  | TemplateListBody "(string \<times> Policy) list"
  | GrantBody grantRecord
  | GrantListBody "grantRecord list"
  | CeilingBody ceilingRecord
  | KeyPolicyBody keyPolicyRecord
  | AccessListBody "AccessEntry list"

type_synonym share_op = "ShareBody handler_op"

record expiryRequest =
  er_ExpiresIn :: int
  er_ExpiresAt :: time

record createGrantRequest = expiryRequest +
  cgr_Audience :: string
  cgr_Policy :: string

record shareRoutes =
  sr_wired :: bool
  sr_keys :: "KeyIssuer option"
  sr_quote :: "string \<Rightarrow> string"
  sr_yaml :: "string \<Rightarrow> (unit + Policy) list"
  sr_policyError :: "PolicyError \<Rightarrow> string"
  sr_parseTime :: "string \<Rightarrow> time option"
  sr_parseDuration :: "string \<Rightarrow> int option"

definition share_ready :: "shareRoutes \<Rightarrow> share_op \<Rightarrow> share_op" where
  "share_ready s k = (if sr_wired s then k else refuse_with 404 CodeNotFound ''this instance has no sharing registry'')"

definition invalid_request :: "string \<Rightarrow> share_op" where
  "invalid_request msg = refuse_with 400 ''INVALID_REQUEST'' msg"

definition expiry :: "'a expiryRequest_scheme \<Rightarrow> time \<Rightarrow> string + time option" where
  "expiry req now =
     (case expiryOf (er_ExpiresIn req) (er_ExpiresAt req) now of
        Inl msg \<Rightarrow> Inl msg
      | Inr at \<Rightarrow> Inr (if at = 0 then None else Some at))"

section \<open>Audiences\<close>

definition resolveAudienceIn :: "string \<Rightarrow> Audience auth_op" where
  "resolveAudienceIn ref =
     on_err (audience_Get (TrimSpace ref))
       (\<lambda>e. if is_not_found e then audience_GetByName (TrimSpace ref) else fail_with e) ret"

definition resolvePolicy :: "string \<Rightarrow> SharePolicy auth_op" where
  "resolvePolicy ref =
     on_err (policy_Get (TrimSpace ref))
       (\<lambda>e. if is_not_found e then policy_GetByName (TrimSpace ref) else fail_with e) ret"

definition audienceRecordOf :: "Audience \<Rightarrow> audienceRecord auth_op" where
  "audienceRecordOf a =
     bnd (audience_ListMembers (aud_ID a)) (\<lambda>ms. ret \<lparr>ar_Audience = a, ar_Members = ms\<rparr>)"

fun audience_records :: "Audience list \<Rightarrow> audienceRecord list auth_op" where
  "audience_records [] = ret []"
| "audience_records (a # as) =
     bnd (audienceRecordOf a) (\<lambda>r. bnd (audience_records as) (\<lambda>rs. ret (r # rs)))"

definition ListAudiences :: "shareRoutes \<Rightarrow> share_op" where
  "ListAudiences s = share_ready s
     (call audience_List (writeRegistryError ''list audiences'') (\<lambda>list.
        call (audience_records list) (writeRegistryError ''list audience members'')
          (\<lambda>out. WriteJSON 200 (AudienceListBody out))))"

definition CreateAudience :: "shareRoutes \<Rightarrow> string option \<Rightarrow> time \<Rightarrow> share_op" where
  "CreateAudience s body now = share_ready s (decodeRegistryBody body (\<lambda>name.
     if \<not> ValidateSharingName (TrimSpace name)
     then invalid_request (''name: audience name '' @ sr_quote s (TrimSpace name) @
            '': want 1-64 chars of [a-z0-9._-], starting alphanumeric'')
     else call (audience_Create \<lparr>aud_ID = [], aud_Name = TrimSpace name, aud_CreatedAt = 0\<rparr> now)
            (writeRegistryError ''audience'')
            (\<lambda>a. WriteJSON 201 (AudienceBody \<lparr>ar_Audience = a, ar_Members = []\<rparr>))))"

definition GetAudience :: "shareRoutes \<Rightarrow> string \<Rightarrow> share_op" where
  "GetAudience s ref = share_ready s
     (call (resolveAudienceIn ref) (writeRegistryError ''audience'') (\<lambda>a.
        call (audienceRecordOf a) (writeRegistryError ''list audience members'') (\<lambda>r. WriteJSON 200 (AudienceBody r))))"

definition AddMember :: "shareRoutes \<Rightarrow> AuthPrincipal option \<Rightarrow> string \<Rightarrow> string \<Rightarrow> expiryRequest option \<Rightarrow> time \<Rightarrow> share_op" where
  "AddMember s p ref principalRef body now = share_ready s (decodeRegistryBody body (\<lambda>req.
     case expiry req now of
       Inl msg \<Rightarrow> invalid_request msg
     | Inr expiresAt \<Rightarrow>
         call (resolveAudienceIn ref) (writeRegistryError ''audience'') (\<lambda>a.
           if TrimSpace principalRef = OwnerPrincipal
           then invalid_request ''principal: the owner sees everything and joins no audience''
           else call (principal_Get (TrimSpace principalRef)) (writeRegistryError ''principal'') (\<lambda>row.
             if \<not> Principal_Active row
             then refuse_with 409 CodePrincipalInactive ''the principal is suspended or revoked''
             else (let m = \<lparr>mem_AudienceID = aud_ID a, mem_PrincipalID = pw_ID row, mem_ExpiresAt = expiresAt,
                            mem_AddedBy = ap_ID (caller p), mem_AddedAt = now\<rparr>
                   in call (audience_AddMember m now) (writeRegistryError ''add audience member'')
                        (\<lambda>_. WriteJSON 200 (MemberBody m)))))))"

definition RemoveMember :: "shareRoutes \<Rightarrow> string \<Rightarrow> string \<Rightarrow> share_op" where
  "RemoveMember s ref principalRef = share_ready s
     (call (resolveAudienceIn ref) (writeRegistryError ''audience'') (\<lambda>a.
        call (audience_RemoveMember (aud_ID a) (TrimSpace principalRef)) (writeRegistryError ''audience member'')
          (\<lambda>_. no_content)))"

section \<open>Policies and templates\<close>

definition readPolicyDocument :: "shareRoutes \<Rightarrow> string option \<Rightarrow> (Policy \<Rightarrow> share_op) \<Rightarrow> share_op" where
  "readPolicyDocument s body k =
     (case body of
        None \<Rightarrow> invalid_request ''invalid JSON''
      | Some doc \<Rightarrow>
          (if TrimSpace doc = [] then invalid_request ''document is required: the policy as YAML or JSON text''
           else case ParsePolicy (sr_yaml s doc) of
                  Inl e \<Rightarrow> invalid_request (''document: '' @ TrimPrefix (sr_policyError s e) ''policy document 1: '')
                | Inr p \<Rightarrow> k p))"

definition ListPolicies :: "shareRoutes \<Rightarrow> share_op" where
  "ListPolicies s = share_ready s
     (call policy_List (writeRegistryError ''list policies'') (\<lambda>list. WriteJSON 200 (PolicyListBody list)))"

definition storePolicy :: "shareRoutes \<Rightarrow> Policy \<Rightarrow> time \<Rightarrow> share_op" where
  "storePolicy s p now =
     (case Policy_Spec p of
        Inl e \<Rightarrow> invalid_request (sr_policyError s e)
      | Inr spec \<Rightarrow>
          call (policy_Create \<lparr>sp_ID = [], sp_Name = pol_Name p, sp_Version = 0, sp_Spec = Some spec, sp_UpdatedAt = 0\<rparr> now)
            (writeRegistryError ''policy'') (\<lambda>row. WriteJSON 201 (PolicyBody row)))"

definition CreatePolicy :: "shareRoutes \<Rightarrow> string option \<Rightarrow> time \<Rightarrow> share_op" where
  "CreatePolicy s body now = share_ready s (readPolicyDocument s body (\<lambda>p. storePolicy s p now))"

definition GetPolicy :: "shareRoutes \<Rightarrow> string \<Rightarrow> share_op" where
  "GetPolicy s ref = share_ready s
     (call (resolvePolicy ref) (writeRegistryError ''policy'') (\<lambda>row. WriteJSON 200 (PolicyBody row)))"

definition UpdatePolicy :: "shareRoutes \<Rightarrow> string \<Rightarrow> string option \<Rightarrow> time \<Rightarrow> share_op" where
  "UpdatePolicy s ref body now = share_ready s
     (call (resolvePolicy ref) (writeRegistryError ''policy'') (\<lambda>row.
        readPolicyDocument s body (\<lambda>p.
          if pol_Name p \<noteq> sp_Name row
          then invalid_request (''name: the document names '' @ pol_Name p @ '' but this is policy '' @ sp_Name row @
                 ''; a policy is not renamed through an edit'')
          else case Policy_Spec p of
                 Inl e \<Rightarrow> invalid_request (sr_policyError s e)
               | Inr spec \<Rightarrow>
                   call (policy_Update (sp_ID row) (Some spec) now) (writeRegistryError ''policy'')
                     (\<lambda>updated. WriteJSON 200 (PolicyBody updated)))))"

definition ListTemplates :: "shareRoutes \<Rightarrow> share_op" where
  "ListTemplates s = share_ready s (WriteJSON 200 (TemplateListBody (map (\<lambda>p. (pol_Name p, p)) Templates)))"

definition templateNames :: "string list" where
  "templateNames = map pol_Name Templates"

definition InstallTemplate :: "shareRoutes \<Rightarrow> string \<Rightarrow> time \<Rightarrow> share_op" where
  "InstallTemplate s name now = share_ready s
     (case Template (TrimSpace name) of
        None \<Rightarrow> refuse_with 404 CodeNotFound (''no such template: want '' @ Join templateNames '' or '')
      | Some p \<Rightarrow> storePolicy s p now)"

section \<open>Grants\<close>

definition CreateGrant :: "shareRoutes \<Rightarrow> AuthPrincipal option \<Rightarrow> createGrantRequest option \<Rightarrow> time \<Rightarrow> share_op" where
  "CreateGrant s p body now = share_ready s (decodeRegistryBody body (\<lambda>req.
     case expiry req now of
       Inl msg \<Rightarrow> invalid_request msg
     | Inr expiresAt \<Rightarrow>
         (if TrimSpace (cgr_Audience req) = [] then invalid_request ''audience is required''
          else if TrimSpace (cgr_Policy req) = [] then invalid_request ''policy is required''
          else call (resolveAudienceIn (cgr_Audience req)) (writeRegistryError ''audience'') (\<lambda>a.
            call (resolvePolicy (cgr_Policy req)) (writeRegistryError ''policy'') (\<lambda>row.
              call (grant_Create \<lparr>grant_ID = [], grant_AudienceID = aud_ID a, grant_PolicyID = sp_ID row,
                                  grant_ExpiresAt = expiresAt, grant_CreatedBy = ap_ID (caller p),
                                  grant_CreatedAt = now, grant_RevokedAt = None\<rparr> now)
                (writeRegistryError ''grant'') (\<lambda>g.
                  WriteJSON 201 (GrantBody \<lparr>gt_ShareGrant = g, gt_Audience = aud_Name a, gt_Policy = sp_Name row,
                                            gt_PolicyVersion = sp_Version row\<rparr>)))))))"

text \<open>\<open>grantRecords\<close> reads each audience and policy once.\<close>

definition cached :: "string \<Rightarrow> (string \<times> 'a) list \<Rightarrow> 'a auth_op \<Rightarrow> 'a auth_op" where
  "cached i m get = (case map_of m i of Some x \<Rightarrow> ret x | None \<Rightarrow> get)"

fun grantRecords :: "(string \<times> Audience) list \<Rightarrow> (string \<times> SharePolicy) list \<Rightarrow> ShareGrant list \<Rightarrow> grantRecord list auth_op" where
  "grantRecords as ps [] = ret []"
| "grantRecords as ps (g # gs) =
     bnd (cached (grant_AudienceID g) as (audience_Get (grant_AudienceID g))) (\<lambda>a.
       bnd (cached (grant_PolicyID g) ps (policy_Get (grant_PolicyID g))) (\<lambda>p.
         bnd (grantRecords ((grant_AudienceID g, a) # as) ((grant_PolicyID g, p) # ps) gs) (\<lambda>out.
           ret (\<lparr>gt_ShareGrant = g, gt_Audience = aud_Name a, gt_Policy = sp_Name p, gt_PolicyVersion = sp_Version p\<rparr> # out))))"

definition ref_ID :: "string \<Rightarrow> 'a auth_op \<Rightarrow> string \<Rightarrow> ('a \<Rightarrow> string) \<Rightarrow> (string \<Rightarrow> share_op) \<Rightarrow> share_op" where
  "ref_ID ref get what row_id k =
     (if ref = [] then k [] else call get (writeRegistryError what) (\<lambda>r. k (row_id r)))"

definition ListGrants :: "shareRoutes \<Rightarrow> string \<Rightarrow> string \<Rightarrow> string \<Rightarrow> string \<Rightarrow> time \<Rightarrow> share_op" where
  "ListGrants s principalParam audienceParam policyParam includeParam now = share_ready s
     (if TrimSpace principalParam \<noteq> []
      then call (ListActiveForPrincipal (TrimSpace principalParam) now) (writeRegistryError ''list grants'') (\<lambda>active.
             WriteJSON 200 (GrantListBody (map (\<lambda>ag.
               \<lparr>gt_ShareGrant = ag_Grant ag, gt_Audience = aud_Name (ag_Audience ag), gt_Policy = sp_Name (ag_Policy ag),
                gt_PolicyVersion = sp_Version (ag_Policy ag)\<rparr>) active)))
      else ref_ID audienceParam (resolveAudienceIn audienceParam) ''audience'' aud_ID (\<lambda>aid.
             ref_ID policyParam (resolvePolicy policyParam) ''policy'' sp_ID (\<lambda>pid.
               call (grant_List \<lparr>gf_AudienceID = aid, gf_PolicyID = pid, gf_IncludeRevoked = (includeParam = ''true'')\<rparr>)
                 (writeRegistryError ''list grants'') (\<lambda>list.
                   call (grantRecords [] [] list) (writeRegistryError ''list grants'')
                     (\<lambda>out. WriteJSON 200 (GrantListBody out))))))"

definition RevokeGrant :: "shareRoutes \<Rightarrow> string \<Rightarrow> time \<Rightarrow> share_op" where
  "RevokeGrant s grant now = share_ready s
     (call (grant_Revoke (TrimSpace grant) now) (writeRegistryError ''grant'') (\<lambda>_. no_content))"

section \<open>Ceilings and key policies\<close>

definition GetCeiling :: "shareRoutes \<Rightarrow> string \<Rightarrow> share_op" where
  "GetCeiling s i = share_ready s
     (call (sharing_DenyClasses (TrimSpace i)) (writeRegistryError ''principal'') (\<lambda>classes.
        WriteJSON 200 (CeilingBody \<lparr>ce_PrincipalID = TrimSpace i, ce_DenyClasses = classes\<rparr>)))"

definition SetCeiling :: "shareRoutes \<Rightarrow> string \<Rightarrow> string list option \<Rightarrow> share_op" where
  "SetCeiling s i body = share_ready s (decodeRegistryBody body (\<lambda>classes.
     case find (\<lambda>c. \<not> ValidateClassName c) classes of
       Some c \<Rightarrow> invalid_request (''deny_classes: class '' @ sr_quote s c @ '': want 1-64 chars of [a-z0-9_-], starting with a letter'')
     | None \<Rightarrow>
         call (SetDenyClasses (TrimSpace i) (NormalizeClasses classes)) (writeRegistryError ''principal'') (\<lambda>_.
           WriteJSON 200 (CeilingBody \<lparr>ce_PrincipalID = TrimSpace i, ce_DenyClasses = NormalizeClasses classes\<rparr>))))"

definition bindKeyPolicy :: "string \<Rightarrow> string \<Rightarrow> string option \<Rightarrow> share_op" where
  "bindKeyPolicy keyID identityID body = decodeRegistryBody body (\<lambda>policy.
     (let bind = (\<lambda>pid name.
        call (BindIdentityPolicy identityID pid) (writeRegistryError ''bind key policy'') (\<lambda>_.
          WriteJSON 200 (KeyPolicyBody \<lparr>kp_KeyID = keyID, kp_IdentityID = identityID, kp_PolicyID = pid, kp_Policy = name\<rparr>)))
      in if TrimSpace policy = [] then bind [] []
         else call (resolvePolicy (TrimSpace policy)) (writeRegistryError ''policy'') (\<lambda>p. bind (sp_ID p) (sp_Name p))))"

text \<open>Without keys the two bind handlers return and write nothing: the server sends an empty 200.\<close>

definition with_keys :: "shareRoutes \<Rightarrow> (KeyIssuer \<Rightarrow> share_op) \<Rightarrow> share_op" where
  "with_keys s k = share_ready s (case sr_keys s of None \<Rightarrow> reply (respond 200 NoContent) | Some iss \<Rightarrow> k iss)"

definition BindOwnKeyPolicy :: "shareRoutes \<Rightarrow> AuthPrincipal option \<Rightarrow> string \<Rightarrow> string option \<Rightarrow> share_op" where
  "BindOwnKeyPolicy s p key body = with_keys s (\<lambda>iss.
     call (Keys_Get iss key) (writeRegistryError ''key'') (\<lambda>info.
       if \<not> IsSelf (Some (caller p)) (ik_PrincipalID info)
       then refuse_with 403 CodeNotSelf ''this key belongs to another principal; admin:shares binds others' keys through /share/keys/{key}/policy''
       else bindKeyPolicy (ik_ID info) (ik_IdentityID info) body))"

definition BindKeyPolicy :: "shareRoutes \<Rightarrow> AuthPrincipal option \<Rightarrow> string \<Rightarrow> string option \<Rightarrow> share_op" where
  "BindKeyPolicy s p key body = with_keys s (\<lambda>iss.
     call (Keys_Get iss key) (writeRegistryError ''key'') (\<lambda>info.
       ownerGuard p (ik_PrincipalID info) (bindKeyPolicy (ik_ID info) (ik_IdentityID info) body)))"

section \<open>The read audit\<close>

definition defaultAuditLimit :: int where "defaultAuditLimit = 100"

type_synonym url_query = "(string \<times> string list) list"

definition q_Get :: "url_query \<Rightarrow> string \<Rightarrow> string" where
  "q_Get q n = (case map_of q n of Some (v # _) \<Rightarrow> v | _ \<Rightarrow> [])"

definition param_fault :: "string list \<Rightarrow> string \<times> string list \<Rightarrow> string option" where
  "param_fault known p =
     (let (n, vals) = p
      in if n \<notin> set known then Some (''unknown parameter '' @ n)
         else if length vals > 1
         then Some (''parameter '' @ n @ '' given '' @ Itoa (int (length vals)) @ '' times; want one value'')
         else if vals = [[]] then Some (''parameter '' @ n @ '' is empty'') else None)"

definition checkParams :: "url_query \<Rightarrow> string list \<Rightarrow> string option" where
  "checkParams q known =
     (case List.map_filter (param_fault known) (sort_key fst q) of [] \<Rightarrow> None | msg # _ \<Rightarrow> Some msg)"

definition parseSince :: "shareRoutes \<Rightarrow> string \<Rightarrow> time \<Rightarrow> time option" where
  "parseSince s v now =
     (case sr_parseTime s v of
        Some t \<Rightarrow> Some t
      | None \<Rightarrow>
          (let days = HasSuffix v ''d'';
               d = (if days then TrimSuffix v ''d'' @ ''h'' else v)
           in case sr_parseDuration s d of
                None \<Rightarrow> None
              | Some dur \<Rightarrow>
                  if dur \<le> 0 then None
                  else Some (now - (if days then wrap64 (dur * 24) else dur))))"

definition invalid_param :: "string \<Rightarrow> share_op" where
  "invalid_param msg = refuse_with 400 ''INVALID_PARAM'' msg"

definition ListShareAudit :: "shareRoutes \<Rightarrow> url_query \<Rightarrow> time \<Rightarrow> share_op" where
  "ListShareAudit s q now = share_ready s
     (case checkParams q [''principal'', ''object'', ''since'', ''limit''] of
        Some msg \<Rightarrow> invalid_param msg
      | None \<Rightarrow>
          (case (if map_of q ''limit'' = None \<or> q_Get q ''limit'' = [] then Some defaultAuditLimit
                 else case Atoi (q_Get q ''limit'') of
                        Some n \<Rightarrow> if 1 \<le> n \<and> n \<le> 10000 then Some n else None
                      | None \<Rightarrow> None) of
             None \<Rightarrow> invalid_param ''limit must be an integer from 1 to 10000''
           | Some limit \<Rightarrow>
               (let since = TrimSpace (q_Get q ''since'')
                in case (if since = [] then Some 0 else parseSince s since now) of
                     None \<Rightarrow> invalid_param ''since must be a date (YYYY-MM-DD), an RFC 3339 time or a duration (24h, 7d)''
                   | Some t \<Rightarrow>
                       call (access_Query \<lparr>xf_PrincipalID = TrimSpace (q_Get q ''principal''),
                                           xf_ObjectID = TrimSpace (q_Get q ''object''),
                                           xf_Since = t, xf_Until = 0, xf_Limit = limit\<rparr>)
                         (\<lambda>e. refuse_with 500 ''INTERNAL_ERROR'' ''access log query'') (\<lambda>entries.
                           WriteJSON 200 (AccessListBody entries)))))"

section \<open>The routes of the sharing registry\<close>

datatype share_request =
    GETAudiences
  | POSTAudiences "string option"
  | GETAudience string
  | PUTMember string string "expiryRequest option"
  | DELETEMember string string
  | GETPolicies
  | POSTPolicies "string option"
  | GETPolicy string
  | PUTPolicy string "string option"
  | GETTemplates
  | POSTTemplate string
  | GETGrants string string string string
  | POSTGrants "createGrantRequest option"
  | DELETEGrant string
  | GETCeiling string
  | PUTCeiling string "string list option"
  | PUTKeyPolicy string "string option"
  | PUTSelfKeyPolicy string "string option"
  | GETShareAudit url_query

fun share_serve :: "shareRoutes \<Rightarrow> AuthPrincipal option \<Rightarrow> time \<Rightarrow> share_request \<Rightarrow> share_op" where
  "share_serve s p now GETAudiences = ListAudiences s"
| "share_serve s p now (POSTAudiences body) = CreateAudience s body now"
| "share_serve s p now (GETAudience ref) = GetAudience s ref"
| "share_serve s p now (PUTMember ref i body) = AddMember s p ref i body now"
| "share_serve s p now (DELETEMember ref i) = RemoveMember s ref i"
| "share_serve s p now GETPolicies = ListPolicies s"
| "share_serve s p now (POSTPolicies body) = CreatePolicy s body now"
| "share_serve s p now (GETPolicy ref) = GetPolicy s ref"
| "share_serve s p now (PUTPolicy ref body) = UpdatePolicy s ref body now"
| "share_serve s p now GETTemplates = ListTemplates s"
| "share_serve s p now (POSTTemplate name) = InstallTemplate s name now"
| "share_serve s p now (GETGrants principalParam a pol incl) = ListGrants s principalParam a pol incl now"
| "share_serve s p now (POSTGrants body) = CreateGrant s p body now"
| "share_serve s p now (DELETEGrant g) = RevokeGrant s g now"
| "share_serve s p now (GETCeiling i) = GetCeiling s i"
| "share_serve s p now (PUTCeiling i body) = SetCeiling s i body"
| "share_serve s p now (PUTKeyPolicy key body) = BindKeyPolicy s p key body"
| "share_serve s p now (PUTSelfKeyPolicy key body) = BindOwnKeyPolicy s p key body"
| "share_serve s p now (GETShareAudit q) = ListShareAudit s q now"

end
