(* ===== verification/Http_Share_Laws.thy ===== *)
theory Http_Share_Laws
  imports Http_Share
begin

text \<open>
  What the sharing routes keep. Every policy that comes in over the API is one the compiler
  reads back, so the registry an instance builds through its API always gives its principals
  a viewer; and the policy a key is bound to changes only through the two routes that bind
  keys, under their guards.
\<close>

section \<open>Handlers under an order\<close>

context world_order
begin

lemma call_order:
  assumes "R w (snd (m w))" "\<And>e w'. m w = (Inl e, w') \<Longrightarrow> R w' (snd (err e w'))" "\<And>x w'. m w = (Inr x, w') \<Longrightarrow> R w' (snd (k x w'))"
  shows "R w (snd (call m err k w))"
proof -
  obtain r w1 where m: "m w = (r, w1)" by fastforce
  with assms have "R w w1" "R w1 (snd (call m err k w))" by (cases r; simp add: call_def)+
  then show ?thesis by (rule trans)
qed

lemma call_op: "obeys R m \<Longrightarrow> (\<And>x w'. m w = (Inr x, w') \<Longrightarrow> R w' (snd (k x w'))) \<Longrightarrow> R w (snd (call m (writeRegistryError what) k w))"
  by (rule call_order) (auto simp: refl intro: snd_obeys)

lemma answers_order: "R w (snd (WriteJSON st b w))" "R w (snd (refuse_with st c msg w))" "R w (snd (no_content w))"
  "R w (snd (invalid_request msg w))" "R w (snd (invalid_param msg w))" "R w (snd (reply resp w))"
  by (simp_all add: refl invalid_request_def invalid_param_def)

lemma guard_order:
  "R w (snd (k w)) \<Longrightarrow> R w (snd (share_ready s k w))"
  "(\<And>req. body = Some req \<Longrightarrow> R w (snd (f req w))) \<Longrightarrow> R w (snd (decodeRegistryBody body f w))"
  "(\<And>iss. sr_keys s = Some iss \<Longrightarrow> R w (snd (g iss w))) \<Longrightarrow> R w (snd (with_keys s g w))"
  "R w (snd (k w)) \<Longrightarrow> R w (snd (ownerGuard p i k w))"
  by (simp_all add: refl share_ready_def decodeRegistryBody_def with_keys_def ownerGuard_def split: option.split)

lemma if_order: "(c \<Longrightarrow> R w (snd (h w))) \<Longrightarrow> (\<not> c \<Longrightarrow> R w (snd (h' w))) \<Longrightarrow> R w (snd ((if c then h else h') w))"
  by simp

lemma option_order:
  "R w (snd (h w)) \<Longrightarrow> (\<And>y. R w (snd (k y w))) \<Longrightarrow> R w (snd ((case x of None \<Rightarrow> h | Some y \<Rightarrow> k y) w))"
  by (simp split: option.split)

lemma sum_order:
  "(\<And>e. R w (snd (h e w))) \<Longrightarrow> (\<And>y. x = Inr y \<Longrightarrow> R w (snd (k y w))) \<Longrightarrow> R w (snd ((case x of Inl e \<Rightarrow> h e | Inr y \<Rightarrow> k y) w))"
  by (simp split: sum.split)

lemma ref_order:
  "obeys R get \<Longrightarrow> (\<And>i w'. R w' (snd (k i w'))) \<Longrightarrow> R w (snd (ref_ID ref get what row_id k w))"
  by (simp add: ref_ID_def call_op)

lemma document_order:
  "(\<And>doc p. body = Some doc \<Longrightarrow> ParsePolicy (sr_yaml s doc) = Inr p \<Longrightarrow> R w (snd (k p w))) \<Longrightarrow> R w (snd (readPolicyDocument s body k w))"
  by (simp add: readPolicyDocument_def answers_order split: option.split sum.split)

lemma resolve_reads: "obeys R (resolveAudienceIn ref)" "obeys R (resolvePolicy ref)"
  unfolding resolveAudienceIn_def resolvePolicy_def by (intro op_rules reads share_reads)+

lemma record_reads: "obeys R (audienceRecordOf a)" "obeys R (audience_records as)"
proof -
  show one: "obeys R (audienceRecordOf a)" for a unfolding audienceRecordOf_def by (intro op_rules share_reads)
  show "obeys R (audience_records as)" by (induction as) (auto intro!: op_rules one)
qed

lemma grant_reads: "obeys R (grantRecords as ps gs)"
  by (induction gs arbitrary: as ps)
     (auto intro!: op_rules reads share_reads simp: cached_def split: option.split)

lemma key_reads: "obeys R (Keys_Get (LocalKeys kc) key)"
  unfolding Keys_Get_def by (intro op_rules reads) (simp add: lk_reads_order world_order_axioms)

text \<open>The routes that read leave the tables alone.\<close>

lemma read_routes:
  "R w (snd (ListAudiences s w))" "R w (snd (GetAudience s ref w))" "R w (snd (ListPolicies s w))" "R w (snd (GetPolicy s ref w))"
  "R w (snd (ListTemplates s w))" "R w (snd (ListGrants s a b c d now w))" "R w (snd (GetCeiling s i w))" "R w (snd (ListShareAudit s q now w))"
proof -
  show "R w (snd (ListAudiences s w))"
    unfolding ListAudiences_def by (intro guard_order call_op share_reads record_reads answers_order)
  show "R w (snd (GetAudience s ref w))"
    unfolding GetAudience_def by (intro guard_order call_op resolve_reads record_reads answers_order)
  show "R w (snd (ListPolicies s w))" unfolding ListPolicies_def by (intro guard_order call_op share_reads answers_order)
  show "R w (snd (GetPolicy s ref w))" unfolding GetPolicy_def by (intro guard_order call_op resolve_reads answers_order)
  show "R w (snd (ListTemplates s w))" unfolding ListTemplates_def by (intro guard_order answers_order)
  show "R w (snd (ListGrants s a b c d now w))"
    unfolding ListGrants_def
    by (rule guard_order(1), rule if_order) (rule call_op ref_order share_reads resolve_reads grant_reads answers_order)+
  show "R w (snd (GetCeiling s i w))" unfolding GetCeiling_def by (intro guard_order call_op share_reads answers_order)
  show "R w (snd (ListShareAudit s q now w))"
    unfolding ListShareAudit_def Let_def
    by (rule guard_order(1), rule option_order, rule option_order, rule answers_order, rule option_order, rule answers_order,
        rule call_order, rule snd_obeys, rule access_Query) (rule answers_order)+
qed

end

text \<open>The routes other than the two that bind keys, once their store operations obey the order.\<close>

fun binds_key :: "share_request \<Rightarrow> bool" where
  "binds_key (PUTKeyPolicy key body) = True"
| "binds_key (PUTSelfKeyPolicy key body) = True"
| "binds_key _ = False"

context store_order
begin

lemma plain_routes:
  assumes "\<And>i cs. obeys R (SetDenyClasses i cs)" "\<And>a now. obeys R (audience_Create a now)"
    and "\<And>a p. obeys R (audience_RemoveMember a p)" "\<And>g now. clean (grant_ID g) \<Longrightarrow> obeys R (grant_Create g now)"
    and "\<And>i now. obeys R (grant_Revoke i now)" "\<And>body. R w (snd (CreatePolicy s body now w))"
    and "\<And>ref body. R w (snd (UpdatePolicy s ref body now w))" "\<And>name. R w (snd (InstallTemplate s name now w))"
    and "\<not> binds_key req"
  shows "R w (snd (share_serve s p now req w))"
proof -
  have clean_nil: "clean []" by (simp add: clean_def)
  have "R w (snd (CreateAudience s body now w))" for body
    unfolding CreateAudience_def by (intro guard_order if_order call_op assms answers_order)
  moreover have "R w (snd (AddMember s p ref i body now w))" for ref i body
    unfolding AddMember_def Let_def
    by (intro guard_order sum_order if_order call_op resolve_reads reads audience_AddMember answers_order)
  moreover have "R w (snd (RemoveMember s ref i w))" for ref i
    unfolding RemoveMember_def by (intro guard_order call_op resolve_reads assms answers_order)
  moreover have "R w (snd (CreateGrant s p body now w))" for body
    unfolding CreateGrant_def
    by (intro guard_order sum_order if_order call_op resolve_reads assms(4) answers_order) (simp add: clean_nil)
  moreover have "R w (snd (RevokeGrant s g now w))" for g
    unfolding RevokeGrant_def by (intro guard_order call_op assms answers_order)
  moreover have "R w (snd (SetCeiling s i body w))" for i body
    unfolding SetCeiling_def by (intro guard_order option_order call_op assms answers_order)
  ultimately show ?thesis
    using assms(6-9) by (cases req) (simp_all add: read_routes)
qed

end

section \<open>Every stored policy is read back\<close>

definition decodable :: "auth_world \<Rightarrow> bool" where
  "decodable w \<longleftrightarrow> (\<forall>sp \<in> set (wd_policies w). \<exists>p. PolicyFromSpec (Some sp) = Inr p)"

definition bound_ok :: "auth_world \<Rightarrow> bool" where
  "bound_ok w \<longleftrightarrow> (\<forall>(i, p) \<in> set (wd_bound w). p = [] \<or> has_policy w p)"

definition loadable :: "auth_world \<Rightarrow> bool" where
  "loadable w \<longleftrightarrow> share_ok w \<and> decodable w \<and> bound_ok w"

definition keeps_loadable :: "auth_world \<Rightarrow> auth_world \<Rightarrow> bool" where
  "keeps_loadable w w' \<longleftrightarrow> (loadable w \<longrightarrow> loadable w')"

definition policies_same :: "auth_world \<Rightarrow> auth_world \<Rightarrow> bool" where
  "policies_same w w' \<longleftrightarrow> shares_order w w' \<and> wd_policies w' = wd_policies w \<and> wd_bound w' = wd_bound w"

lemma policies_same_loadable: "policies_same w w' \<Longrightarrow> keeps_loadable w w'"
  by (auto simp: policies_same_def keeps_loadable_def loadable_def decodable_def bound_ok_def has_policy_def shares_order_def)

lemma keeps_shares_loadable: "keeps_shares w w' \<Longrightarrow> keeps_loadable w w'"
  by (rule policies_same_loadable) (auto simp: policies_same_def keeps_shares_def share_tables_def intro: shares_order_same)

interpretation psm: world_order policies_same
proof
  show "policies_same w (w\<lparr>wd_faults := fs, wd_drawn := n\<rparr>)" for w fs n
    using shr.env by (simp add: policies_same_def)
  show "policies_same a c" if "policies_same a b" "policies_same b c" for a b c
    using that shr.trans by (auto simp: policies_same_def)
qed

interpretation ldb: world_order keeps_loadable
  by unfold_locales (auto simp: keeps_loadable_def intro: policies_same_loadable [OF psm.env, unfolded keeps_loadable_def, rule_format])

interpretation ldb: store_order keeps_loadable
  by (rule store_order_weaken [OF kst.store_order_axioms ldb.world_order_axioms keeps_shares_loadable])

lemma obeys_same: "obeys policies_same m \<Longrightarrow> obeys keeps_loadable m"
  by (simp add: obeys_def policies_same_loadable)

lemma other_writes:
  "obeys keeps_loadable (SetDenyClasses i cs)" "obeys keeps_loadable (audience_Create a now)"
  "obeys keeps_loadable (audience_RemoveMember aid p)" "clean (grant_ID g) \<Longrightarrow> obeys keeps_loadable (grant_Create g now)"
  "obeys keeps_loadable (grant_Revoke i now)"
proof -
  show "obeys keeps_loadable (SetDenyClasses i cs)"
    unfolding SetDenyClasses_def
    by (intro obeys_same psm.op_rules psm.stmt) (auto simp: policies_same_def intro: deny_order shr.refl)
  show "obeys keeps_loadable (audience_Create a now)"
    unfolding audience_Create_def
    by (intro obeys_same psm.op_rules psm.prepared psm.stmt) (auto simp: policies_same_def intro: new_audience_order shr.refl)
  show "obeys keeps_loadable (audience_RemoveMember aid p)"
    unfolding audience_RemoveMember_def
    by (intro obeys_same psm.stmt) (auto simp: policies_same_def Let_def share_tables_def intro: shares_order_same)
  show "obeys keeps_loadable (grant_Create g now)" if "clean (grant_ID g)"
    unfolding grant_Create_def
    by (intro obeys_same psm.bnd_info psm.op_rules psm.prepared psm.stmt)
       (use that in \<open>auto simp: policies_same_def intro!: new_grant_order shr.refl dest: prepared_clean_grant\<close>)
  show "obeys keeps_loadable (grant_Revoke i now)"
    unfolding grant_Revoke_def
    by (intro obeys_same psm.op_rules psm.share_reads psm.stmt) (auto simp: policies_same_def intro: grant_revoke_order)
qed

lemma update_value_rows:
  "\<forall>(j, q) \<in> set xs. P q \<Longrightarrow> P v \<Longrightarrow> \<forall>(j, q) \<in> set (AList.update i v xs). P q"
  by (induction xs) auto

lemma bind_loadable: "obeys keeps_loadable (BindIdentityPolicy i p)"
proof -
  have "bound_ok (w\<lparr>wd_bound := AList.update i p (wd_bound w)\<rparr>)" if "bound_ok w" "p = [] \<or> has_policy w p" for w
    using that update_value_rows [of "wd_bound w" "\<lambda>q. q = [] \<or> has_policy w q" p i]
    by (simp add: bound_ok_def has_policy_def)
  then show ?thesis
    unfolding BindIdentityPolicy_def
    by (intro ldb.stmt) (auto simp: keeps_loadable_def loadable_def share_ok_def decodable_def)
qed

lemma stored_policy:
  assumes "Policy_Spec p = Inr spec" "distinct (map fst (pol_Fields p))" "sp_Name row = pol_Name p" "sp_Spec row = Some spec"
  shows "PolicyFromSpec (Some row) = Inr (p\<lparr>pol_Version := sp_Version row\<rparr>)"
proof -
  from assms(1) have valid: "Policy_Validate p = []" and spec: "spec = policy_json p"
    by (auto simp: Policy_Spec_def split: if_splits)
  have "Policy_Validate (p\<lparr>pol_Version := v\<rparr>) = Policy_Validate p" for v
    by (simp add: Policy_Validate_def DataNode_def validateFields_def)
  with valid show ?thesis
    using assms(3,4) get_policy_json [OF assms(2)] spec by (simp add: PolicyFromSpec_def Let_def)
qed

lemma create_loadable:
  assumes "Policy_Spec p = Inr spec" "distinct (map fst (pol_Fields p))"
  shows "obeys keeps_loadable (policy_Create \<lparr>sp_ID = [], sp_Name = pol_Name p, sp_Version = 0, sp_Spec = Some spec, sp_UpdatedAt = 0\<rparr> now)"
proof -
  have "keeps_loadable w (w\<lparr>wd_policies := wd_policies w @ [q\<lparr>sp_UpdatedAt := t\<rparr>]\<rparr>)"
    if q: "PrepareNewSharePolicy j (Some \<lparr>sp_ID = [], sp_Name = pol_Name p, sp_Version = 0, sp_Spec = Some spec, sp_UpdatedAt = 0\<rparr>) now = Inr q"
      and new: "\<not> has_policy w (sp_ID q)" "\<not> list_ex (\<lambda>x. sp_Name x = sp_Name q) (wd_policies w)" for j q w t
  proof -
    have "Policy_Validate p = []" using assms(1) by (simp add: Policy_Spec_def split: if_splits)
    then have "ValidateSharingName (pol_Name p)" by (rule Policy_Validate_NilD(1))
    with q have "sp_Name q = pol_Name p" "sp_Spec q = Some spec"
      by (auto simp: PrepareNewSharePolicy_def Let_def ValidateSharingName_trim split: if_splits)
    with stored_policy [OF assms] have "\<exists>p. PolicyFromSpec (Some (q\<lparr>sp_UpdatedAt := t\<rparr>)) = Inr p" by simp
    moreover have "shares_order w (w\<lparr>wd_policies := wd_policies w @ [q\<lparr>sp_UpdatedAt := t\<rparr>]\<rparr>)" using q new by (rule new_policy_order)
    ultimately show ?thesis
      by (auto simp: keeps_loadable_def loadable_def decodable_def bound_ok_def has_policy_def shares_order_def)
  qed
  then show ?thesis
    unfolding policy_Create_def
    by (intro ldb.bnd_info ldb.op_rules ldb.prepared ldb.stmt) (auto intro: ldb.refl elim!: prepared_InrE)
qed

lemma has_policy_ids: "has_policy w i \<longleftrightarrow> i \<in> set (map sp_ID (wd_policies w))"
  by (auto simp: has_policy_def list_ex_iff)

lemma update_loadable:
  assumes "Policy_Spec p = Inr spec" "distinct (map fst (pol_Fields p))" "row \<in> set (wd_policies w)" "sp_Name row = pol_Name p"
  shows "keeps_loadable w (snd (policy_Update (sp_ID row) (Some spec) now w))"
proof -
  let ?f = "\<lambda>x. x\<lparr>sp_Spec := Some spec, sp_Version := sp_Version x + 1, sp_UpdatedAt := stored now\<rparr>"
  let ?up = "\<lambda>w. w\<lparr>wd_policies := update_where (\<lambda>x. sp_ID x = sp_ID row) ?f (wd_policies w)\<rparr>"
  have step: "loadable (?up (w\<lparr>wd_faults := fs\<rparr>))" if ok: "loadable w" for fs
  proof -
    have uniq: "x = row" if "x \<in> set (wd_policies w)" "sp_ID x = sp_ID row" for x
      using ok row_of_key [OF share_ok_keys(1) that(1) assms(3) that(2)] by (simp add: loadable_def)
    have "PolicyFromSpec (Some (?f row)) = Inr (p\<lparr>pol_Version := sp_Version (?f row)\<rparr>)"
      by (rule stored_policy [OF assms(1,2)]) (simp_all add: assms(4))
    then have dec: "\<exists>q. PolicyFromSpec (Some (?f x)) = Inr q" if "x \<in> set (wd_policies w)" "sp_ID x = sp_ID row" for x
      using uniq [OF that] by blast
    have "decodable (?up (w\<lparr>wd_faults := fs\<rparr>))" using ok dec by (auto simp: loadable_def decodable_def update_where_def)
    moreover have "share_ok (?up (w\<lparr>wd_faults := fs\<rparr>))"
      using ok policy_update_order [of "w\<lparr>wd_faults := fs\<rparr>"] shr.faults [of w fs] by (auto simp: loadable_def shares_order_def)
    moreover have "has_policy (?up (w\<lparr>wd_faults := fs\<rparr>)) i = has_policy w i" for i
      by (simp add: has_policy_ids distinct_map_update_where)
    ultimately show ?thesis using ok by (simp add: loadable_def bound_ok_def)
  qed
  have one: "keeps_loadable w (snd (stmt (\<lambda>w. if has_policy w (sp_ID row) then (Inr (), ?up w) else (Inl ErrStoreNotFound, w)) w))"
    using step [of "wd_faults w"] step [of "tl (wd_faults w)"] ldb.faults [of w]
    by (auto simp: stmt_def keeps_loadable_def split: list.split)
  then show ?thesis
    unfolding policy_Update_def by (auto simp: ldb.refl fail_with_def bnd_def split: prod.split sum.split
        intro: ldb.trans snd_obeys [OF ldb.share_reads(7)])
qed

text \<open>
  A policy document decodes into a Go map, which has one entry per type; keys are those of
  \<open>LocalKeys\<close>.
\<close>

definition wired :: "shareRoutes \<Rightarrow> key_codec \<Rightarrow> bool" where
  "wired s kc \<longleftrightarrow>
     (\<forall>doc p. Inr p \<in> set (sr_yaml s doc) \<longrightarrow> distinct (map fst (pol_Fields p))) \<and>
     (\<forall>iss. sr_keys s = Some iss \<longrightarrow> iss = LocalKeys kc)"

lemma policies_loop_set: "policies_loop i ds = Inr ps \<Longrightarrow> p \<in> set ps \<Longrightarrow> Inr p \<in> set ds"
  by (induction i ds arbitrary: ps rule: policies_loop.induct) (auto split: if_splits sum.splits)

lemma ParsePolicy_distinct:
  assumes "wired s kc" "ParsePolicy (sr_yaml s doc) = Inr p"
  shows "distinct (map fst (pol_Fields p))"
proof -
  from assms(2) obtain ps where "policies_loop 0 (sr_yaml s doc) = Inr ps" "ps \<noteq> []" "p = hd ps"
    by (auto simp: ParsePolicy_def ParsePolicies_def split: sum.splits if_splits)
  then have "Inr p \<in> set (sr_yaml s doc)" using policies_loop_set by fastforce
  with assms(1) show ?thesis unfolding wired_def by blast
qed

lemma Template_distinct: "Template n = Some p \<Longrightarrow> distinct (map fst (pol_Fields p))"
  by (auto simp: Template_def Templates_def find_Some_iff less_Suc_eq_0_disj split: if_splits)

lemma storePolicy_loadable: "distinct (map fst (pol_Fields p)) \<Longrightarrow> keeps_loadable w (snd (storePolicy s p now w))"
  unfolding storePolicy_def
  by (cases "Policy_Spec p") (auto intro!: ldb.answers_order ldb.call_op create_loadable)

lemma resolvePolicy_row:
  assumes "resolvePolicy ref w = (Inr row, w1)"
  shows "row \<in> set (wd_policies w)" "wd_policies w1 = wd_policies w"
proof -
  have get: "row \<in> set (wd_policies v) \<and> wd_policies v' = wd_policies v" if "one c wd_policies v = (Inr row, v')" for c v v'
    using that unfolding one_def by (elim query_InrE) (auto split: option.splits dest: find_row)
  have same: "wd_policies v' = wd_policies v" if "one c wd_policies v = (r, v')" for c v v' r
  proof -
    have "untouched v v'" using that unt.query unfolding one_def by (metis obeysD)
    then show ?thesis by (auto simp: untouched_def)
  qed
  from assms have "row \<in> set (wd_policies w) \<and> wd_policies w1 = wd_policies w"
    unfolding resolvePolicy_def policy_Get_def policy_GetByName_def
    by (auto simp: on_err_def ret_def fail_with_def split: prod.splits sum.splits if_splits dest!: get dest: same)
  then show "row \<in> set (wd_policies w)" "wd_policies w1 = wd_policies w" by auto
qed

lemma UpdatePolicy_loadable:
  assumes "wired s kc"
  shows "keeps_loadable w (snd (UpdatePolicy s ref body now w))"
proof -
  have "keeps_loadable w1 (snd (readPolicyDocument s body (\<lambda>p.
          if pol_Name p \<noteq> sp_Name row then invalid_request (msg p)
          else case Policy_Spec p of
                 Inl e \<Rightarrow> invalid_request (sr_policyError s e)
               | Inr spec \<Rightarrow>
                   call (policy_Update (sp_ID row) (Some spec) now) (writeRegistryError ''policy'')
                     (\<lambda>updated. WriteJSON 200 (PolicyBody updated))) w1))"
    if "resolvePolicy ref w = (Inr row, w1)" for row w1 msg
  proof (rule ldb.document_order, rule ldb.if_order, rule ldb.answers_order)
    fix doc p
    assume doc: "ParsePolicy (sr_yaml s doc) = Inr p" and name: "\<not> pol_Name p \<noteq> sp_Name row"
    have row: "row \<in> set (wd_policies w1)" using resolvePolicy_row [OF that] by simp
    show "keeps_loadable w1 (snd ((case Policy_Spec p of
                 Inl e \<Rightarrow> invalid_request (sr_policyError s e)
               | Inr spec \<Rightarrow>
                   call (policy_Update (sp_ID row) (Some spec) now) (writeRegistryError ''policy'')
                     (\<lambda>updated. WriteJSON 200 (PolicyBody updated))) w1))"
    proof (cases "Policy_Spec p")
      case (Inr spec)
      have "keeps_loadable w1 (snd (policy_Update (sp_ID row) (Some spec) now w1))"
        by (rule update_loadable [OF Inr ParsePolicy_distinct [OF assms doc] row]) (use name in simp)
      then show ?thesis unfolding Inr sum.case by (rule ldb.call_order) (simp_all add: ldb.refl)
    qed (simp add: ldb.answers_order)
  qed
  then show ?thesis
    unfolding UpdatePolicy_def by (intro ldb.guard_order ldb.call_op ldb.resolve_reads)
qed

lemma policy_routes_loadable:
  assumes "wired s kc"
  shows "keeps_loadable w (snd (CreatePolicy s body now w))" "keeps_loadable w (snd (InstallTemplate s name now w))"
proof -
  show "keeps_loadable w (snd (CreatePolicy s body now w))"
    unfolding CreatePolicy_def
    by (intro ldb.guard_order ldb.document_order storePolicy_loadable) (rule ParsePolicy_distinct [OF assms])
  show "keeps_loadable w (snd (InstallTemplate s name now w))"
    unfolding InstallTemplate_def
    by (intro ldb.guard_order) (auto split: option.split intro: ldb.refl storePolicy_loadable Template_distinct)
qed

lemma share_serve_loadable:
  assumes "wired s kc"
  shows "keeps_loadable w (snd (share_serve s p now req w))"
proof (cases "binds_key req")
  case False
  then show ?thesis
    by (rule ldb.plain_routes [rotated -1]) (simp_all add: other_writes policy_routes_loadable [OF assms] UpdatePolicy_loadable [OF assms])
next
  case True
  have bind: "keeps_loadable w (snd (bindKeyPolicy k i body w))" for k i body w
    unfolding bindKeyPolicy_def Let_def
    by (intro ldb.guard_order ldb.if_order ldb.call_op bind_loadable ldb.resolve_reads ldb.answers_order)
  have "keeps_loadable w (snd (BindOwnKeyPolicy s p key body w))" "keeps_loadable w (snd (BindKeyPolicy s p key body w))" for key body
    unfolding BindOwnKeyPolicy_def BindKeyPolicy_def
    by (rule ldb.guard_order(3), use assms in \<open>simp add: wired_def\<close>,
        (intro ldb.call_op ldb.key_reads ldb.if_order ldb.guard_order bind ldb.answers_order)?)+
  with True show ?thesis by (cases req) simp_all
qed

section \<open>An instance that is run through its API\<close>

inductive api_run :: "Site \<Rightarrow> shareRoutes \<Rightarrow> auth_world \<Rightarrow> auth_world \<Rightarrow> bool" for S s where
  start: "api_run S s w w"
| auth: "api_run S s w w1 \<Longrightarrow> api_run S s w (run_event S ev now w1)"
| request: "api_run S s w w1 \<Longrightarrow> api_run S s w (snd (share_serve s p now req w1))"

lemma api_run_loadable:
  assumes "api_run S s w0 w" "built_site S" "wired s kc" "loadable w0"
  shows "loadable w"
proof -
  have "keeps_loadable w0 w"
    using assms(1) by (induction rule: api_run.induct)
      (use assms(2,3) in \<open>blast intro: ldb.refl ldb.trans ldb.event_store share_serve_loadable\<close>)+
  with assms(4) show ?thesis by (simp add: keeps_loadable_def)
qed

lemma load_grants_total:
  "(\<And>ag. ag \<in> set ags \<Longrightarrow> \<exists>p. PolicyFromSpec (Some (ag_Policy ag)) = Inr p) \<Longrightarrow> \<exists>gs. load_grants ags = Inr gs"
proof (induction ags)
  case (Cons ag ags)
  then obtain p gs where "PolicyFromSpec (Some (ag_Policy ag)) = Inr p" "load_grants ags = Inr gs"
    by (metis list.set_intros)
  then show ?case by simp
qed simp

lemma PolicyFromSpec_valid: "PolicyFromSpec row = Inr p \<Longrightarrow> Policy_Validate p = []"
  by (auto simp: PolicyFromSpec_def Let_def split: option.splits if_splits)

lemma load_total:
  assumes "loadable w" "wd_faults w = []" "has_principal w p" "i = [] \<or> has_identity w i"
  shows "\<exists>inp. loadInput (sharing_at w) p i now = Inr inp"
proof -
  have ans: "answer (query f) w = (case f w of Inr x \<Rightarrow> Inr x | Inl e \<Rightarrow> Inl (if is_not_found e then ErrNotFound else OtherError ''database''))"
    for f :: "auth_world \<Rightarrow> AuthErr + 'a"
    using assms(2) by (simp add: answer_def query_def stmt_def)
  have deny: "ss_DenyClasses (sharing_at w) p = Inr (NormalizeClasses (deny_of w p))"
    by (simp add: sharing_at_def sharing_DenyClasses_def ans assms(3))
  have active: "ss_ListActiveForPrincipal (sharing_at w) p now = Inr (active_grants w p now)"
    by (simp add: sharing_at_def ListActiveForPrincipal_def ans)
  have "\<exists>gs. load_grants (active_grants w p now) = Inr gs"
    by (rule load_grants_total) (use assms(1) in \<open>auto simp: loadable_def decodable_def set_active_grants\<close>)
  moreover have "\<exists>kp. load_key_policy (sharing_at w) i = Inr kp"
  proof (cases "i = [] \<or> bound_of w i = []")
    case True
    with assms(4) show ?thesis by (auto simp: load_key_policy_def sharing_at_def sharing_IdentityPolicy_def ans)
  next
    case False
    then have "has_policy w (bound_of w i)"
      using assms(1) by (fastforce simp: loadable_def bound_ok_def bound_of_def split: option.splits dest: map_of_SomeD)
    then obtain sp where sp: "find (\<lambda>x. sp_ID x = bound_of w i) (wd_policies w) = Some sp"
      by (cases "find (\<lambda>x. sp_ID x = bound_of w i) (wd_policies w)") (auto simp: has_policy_def list_ex_iff find_None_iff)
    then have "\<exists>k. PolicyFromSpec (Some sp) = Inr k" using assms(1) find_row by (fastforce simp: loadable_def decodable_def)
    with False sp assms(4) show ?thesis
      by (auto simp: load_key_policy_def sharing_at_def sharing_IdentityPolicy_def policy_Get_def one_def ans)
  qed
  ultimately show ?thesis using deny active unfolding loadInput_def by auto
qed

lemma load_compiles:
  assumes "loadable w" "wd_faults w = []" "has_principal w p" "p \<noteq> []" "i = [] \<or> has_identity w i"
  shows "\<exists>inp v. loadInput (sharing_at w) p i now = Inr inp \<and> Compile_viewer inp = Inr v"
proof -
  from load_total [OF assms(1-3,5)] obtain inp where inp: "loadInput (sharing_at w) p i now = Inr inp" by blast
  from inp obtain ags where l: "in_PrincipalID inp = p" "load_grants ags = Inr (in_Grants inp)"
    "load_key_policy (sharing_at w) i = Inr (in_KeyPolicy inp)" by (rule loadInput_InrE)
  have "Policy_Validate (gr_Policy g) = []" if "g \<in> set (in_Grants inp)" for g
    using list_all2_row(2) [OF load_grants_rows [OF l(2)] that] PolicyFromSpec_valid by blast
  moreover have "Policy_Validate k = []" if "in_KeyPolicy inp = Some k" for k
    using load_key_policy_Some [of "sharing_at w" i k] l(3) that PolicyFromSpec_valid by metis
  ultimately have "policies_valid inp" by (simp add: policies_valid_def list_all_iff split: option.split)
  with l(1) assms(4) have "\<exists>v. Compile_viewer inp = Inr v" by (intro Compile_viewer_total) simp_all
  with inp show ?thesis by blast
qed

section \<open>Properties\<close>


text \<open>The column a key is bound by is written by the two routes for it alone.\<close>

definition same_bound :: "auth_world \<Rightarrow> auth_world \<Rightarrow> bool" where
  "same_bound w w' \<longleftrightarrow> wd_bound w' = wd_bound w"

interpretation sbd: world_order same_bound
  by unfold_locales (simp_all add: same_bound_def)

interpretation sbd: store_order same_bound
  by (rule store_order_weaken [OF kst.store_order_axioms sbd.world_order_axioms]) (simp add: keeps_shares_def same_bound_def)

lemma same_bound_writes:
  "obeys same_bound (SetDenyClasses i cs)" "obeys same_bound (audience_Create a now)"
  "obeys same_bound (audience_RemoveMember aid p)" "obeys same_bound (grant_Create g now)"
  "obeys same_bound (grant_Revoke i now)" "obeys same_bound (policy_Create sp now)" "obeys same_bound (policy_Update i spec now)"
  unfolding SetDenyClasses_def audience_Create_def audience_RemoveMember_def grant_Create_def grant_Revoke_def
    policy_Create_def policy_Update_def
  by (intro sbd.op_rules sbd.prepared sbd.share_reads sbd.stmt; simp add: same_bound_def Let_def)+

lemma plain_routes_same_bound:
  assumes "\<not> binds_key req"
  shows "same_bound w (snd (share_serve s p now req w))"
proof -
  have store: "same_bound w (snd (storePolicy s pol now w))" for pol
    unfolding storePolicy_def by (intro sbd.sum_order sbd.call_op same_bound_writes sbd.answers_order)
  have "same_bound w (snd (CreatePolicy s body now w))" for body
    unfolding CreatePolicy_def by (intro sbd.guard_order sbd.document_order store)
  moreover have "same_bound w (snd (UpdatePolicy s ref body now w))" for ref body
    unfolding UpdatePolicy_def
    by (intro sbd.guard_order sbd.call_op sbd.resolve_reads sbd.document_order sbd.if_order sbd.sum_order same_bound_writes sbd.answers_order)
  moreover have "same_bound w (snd (InstallTemplate s name now w))" for name
    unfolding InstallTemplate_def by (intro sbd.guard_order sbd.option_order sbd.answers_order store)
  ultimately show ?thesis using assms same_bound_writes by (intro sbd.plain_routes)
qed

definition binds_only :: "string \<Rightarrow> auth_world \<Rightarrow> auth_world \<Rightarrow> bool" where
  "binds_only i w w' \<longleftrightarrow> (\<forall>j. j \<noteq> i \<longrightarrow> bound_of w' j = bound_of w j)"

interpretation bon: world_order "binds_only i" for i
  by unfold_locales (simp_all add: binds_only_def bound_of_def)

lemma bindKeyPolicy_only: "binds_only i w (snd (bindKeyPolicy k i body w))"
proof -
  have bind: "obeys (binds_only i) (BindIdentityPolicy i p)" for p
    unfolding BindIdentityPolicy_def
    by (intro bon.stmt) (simp add: binds_only_def bound_of_def update_conv' split: option.split)
  show ?thesis
    unfolding bindKeyPolicy_def Let_def
    by (intro bon.guard_order bon.if_order bon.call_op bind bon.resolve_reads bon.answers_order)
qed

lemma Keys_Get_identity:
  assumes "Keys_Get (LocalKeys kc) key w = (Inr info, w')"
  obtains idn where "idn \<in> set (wd_identities w)" "id_Method idn = IdentityMethodAPIKey"
    "ik_IdentityID info = id_ID idn" "ik_PrincipalID info = id_PrincipalID idn"
proof -
  from assms obtain rec w1 idn w2 where "lk_Get kc key w = (Inr rec, w1)"
      "identity_Find IdentityMethodAPIKey [] (ak_ID rec) w1 = (Inr idn, w2)" and info: "info = keyInfo rec idn"
    unfolding Keys_Get_def by (auto elim!: on_err_InrE bnd_InrE ret_InrE simp: fail_with_def)
  then show thesis by (auto elim!: lk_Get_facts identity_Find_facts intro!: that simp: keyInfo_def)
qed

definition may_bind :: "AuthPrincipal option \<Rightarrow> share_request \<Rightarrow> string \<Rightarrow> bool" where
  "may_bind p req i \<longleftrightarrow>
     (\<exists>key body. req = PUTSelfKeyPolicy key body \<and> i = ap_ID (caller p)) \<or>
     (\<exists>key body. req = PUTKeyPolicy key body \<and> (i = OwnerPrincipal \<longrightarrow> ap_ID (caller p) = OwnerPrincipal))"

text \<open>
  C29: the policy a key is bound to changes only by whom it may. Whatever request reaches the
  sharing routes, with any body and in any state, when the binding of an identity is
  different afterwards the identity is that of an API key, and either the caller rebound a key of
  its own, or the request came over the administrative route and the key is not the owner's
  unless the caller is the owner.
\<close>

theorem key_bindings_guarded:
  assumes "wired s kc" "bound_of (snd (share_serve s p now req w)) j \<noteq> bound_of w j"
  shows "\<exists>idn \<in> set (wd_identities w). id_ID idn = j \<and> id_Method idn = IdentityMethodAPIKey \<and> may_bind p req (id_PrincipalID idn)"
proof -
  have "binds_key req"
  proof (rule ccontr)
    assume "\<not> binds_key req"
    from plain_routes_same_bound [OF this, of w s p now] assms(2) show False by (simp add: same_bound_def bound_of_def)
  qed
  then obtain key body where req: "req = PUTSelfKeyPolicy key body \<or> req = PUTKeyPolicy key body" by (cases req) auto
  obtain iss where iss: "sr_wired s" "sr_keys s = Some iss" using req assms(2)
    by (auto simp: BindOwnKeyPolicy_def BindKeyPolicy_def with_keys_def share_ready_def split: if_splits option.splits)
  with assms(1) have kc: "iss = LocalKeys kc" by (simp add: wired_def)
  obtain r w1 where get: "Keys_Get (LocalKeys kc) key w = (r, w1)" by fastforce
  have "untouched w w1" using unt.key_reads get by (rule obeysD)
  then have same: "bound_of w1 j = bound_of w j" by (auto simp: untouched_def bound_of_def)
  obtain info where info: "r = Inr info" using req assms(2) get same iss kc
    by (cases r) (auto simp: BindOwnKeyPolicy_def BindKeyPolicy_def with_keys_def share_ready_def call_def)
  have run: "may_bind p req (ik_PrincipalID info) \<and> bound_of (snd (bindKeyPolicy (ik_ID info) (ik_IdentityID info) body w1)) j \<noteq> bound_of w1 j"
    using req assms(2) get same iss kc info
    by (auto simp: BindOwnKeyPolicy_def BindKeyPolicy_def with_keys_def share_ready_def call_def ownerGuard_def may_bind_def IsSelf_def
        split: if_splits)
  then have "j = ik_IdentityID info" using bindKeyPolicy_only unfolding binds_only_def by metis
  moreover obtain idn where "idn \<in> set (wd_identities w)" "id_Method idn = IdentityMethodAPIKey"
    "ik_IdentityID info = id_ID idn" "ik_PrincipalID info = id_PrincipalID idn" using get info by (auto elim: Keys_Get_identity)
  ultimately show ?thesis using run by auto
qed

text \<open>
  A caller that is let in by a key may take the policy off that key itself, when the key was
  issued with the scope \<open>write:self\<close>, which every role grants.
\<close>

lemma bound_key_unbinds_itself:
  assumes "sr_wired s" "sr_keys s = Some (LocalKeys kc)" "Keys_Get (LocalKeys kc) key w = (Inr info, w1)" "wd_faults w1 = []"
    and "IsSelf (Some (caller p)) (ik_PrincipalID info)" "has_identity w1 (ik_IdentityID info)"
  shows "bound_of (snd (share_serve s p now (PUTSelfKeyPolicy key (Some [])) w)) (ik_IdentityID info) = []"
  using assms
  by (simp add: BindOwnKeyPolicy_def with_keys_def share_ready_def call_def bindKeyPolicy_def decodeRegistryBody_def
      BindIdentityPolicy_def stmt_def WriteJSON_def reply_def bound_of_def update_conv')

end
