(* ===== verification/Auth_Samples.thy ===== *)
theory Auth_Samples
  imports Auth_System
begin

text \<open>
  A small instance to run the model of authentication on: a codec for key records, a new database,
  one declared key for the owner and the chain that \<open>buildAuth\<close> makes of them. The theorems of
  \<open>Auth_Keys\<close>, \<open>Auth_Session\<close> and \<open>Auth_System\<close> are applied to it.
\<close>

section \<open>A codec for key records\<close>

text \<open>
  A list of strings as one string: \<open>1c\<close> is the byte \<open>c\<close> of an element, \<open>2\<close> ends an element and
  \<open>0\<close> the list.
\<close>

fun pack :: "string list \<Rightarrow> string" where
  "pack [] = ''0''"
| "pack ([] # ss) = CHR ''2'' # pack ss"
| "pack ((c # s) # ss) = CHR ''1'' # c # pack (s # ss)"

fun unpack :: "string \<Rightarrow> string list option" where
  "unpack [] = None"
| "unpack (d # r) =
     (if d = CHR ''0'' then (if r = [] then Some [] else None)
      else if d = CHR ''2'' then map_option (\<lambda>ss. [] # ss) (unpack r)
      else case r of
             [] \<Rightarrow> None
           | c # r' \<Rightarrow> (case unpack r' of Some (s # ss) \<Rightarrow> Some ((c # s) # ss) | _ \<Rightarrow> None))"

lemma unpack_pack [simp]: "unpack (pack ss) = Some ss"
  by (induction ss rule: pack.induct) auto

definition pack_int :: "int \<Rightarrow> string" where
  "pack_int i = (if i < 0 then CHR ''-'' # itoa (nat (- i)) else itoa (nat i))"

definition unpack_int :: "string \<Rightarrow> int" where
  "unpack_int s = (if hd s = CHR ''-'' then - digits_value (tl s) else digits_value s)"

lemma unpack_pack_int [simp]: "unpack_int (pack_int i) = i"
proof (cases "i < 0")
  case False
  have "hd (itoa (nat i)) \<in> set (itoa (nat i))" by simp
  then have "is_digit (hd (itoa (nat i)))" by (rule itoa_digits)
  then have "hd (itoa (nat i)) \<noteq> CHR ''-''" by (auto simp: is_digit_def byte_in_def byte_def)
  with False show ?thesis by (simp add: pack_int_def unpack_int_def digits_value_itoa)
qed (simp add: pack_int_def unpack_int_def digits_value_itoa)

definition key_sample_codec :: key_codec where
  "key_sample_codec =
     \<lparr>kc_Marshal = (\<lambda>r. pack (ak_ID r # ak_Principal r # pack_int (ak_CreatedAt r) # pack_int (ak_ExpiresAt r) #
                        pack_int (ak_RevokedAt r) # ak_Hash r # ak_Scopes r)),
      kc_Unmarshal = (\<lambda>s. case unpack s of
         Some (i # p # c # e # v # h # scopes) \<Rightarrow>
           Some \<lparr>ak_ID = i, ak_Principal = p, ak_Scopes = scopes, ak_CreatedAt = unpack_int c,
                 ak_ExpiresAt = unpack_int e, ak_RevokedAt = unpack_int v, ak_Hash = h\<rparr>
       | _ \<Rightarrow> None)\<rparr>"

lemma key_sample_codec_ok: "codec_ok key_sample_codec"
  by (simp add: codec_ok_def key_sample_codec_def)

section \<open>A small instance\<close>

definition sample_keys :: "ConfigKey list" where
  "sample_keys = [\<lparr>ck_Hash = sha256_Sum256 ''sesame'', ck_Principal = OwnerPrincipal, ck_Roles = [], ck_ExpiresAt = 0\<rparr>]"

definition sample_config :: AuthConfig where
  "sample_config =
     \<lparr>cf_Methods = None,
      cf_Keys = [\<lparr>ac_Hash = ''sha256:'' @ hex_EncodeToString (sha256_Sum256 ''sesame''), ac_Principal = OwnerPrincipal,
                  ac_Roles = [], ac_Expires = []\<rparr>],
      cf_IdleTTL = 0, cf_MaxTTL = 0\<rparr>"

definition sample_layouts :: time_layouts where
  "sample_layouts = \<lparr>tl_DateOnly = (\<lambda>_. None), tl_RFC3339 = (\<lambda>_. None)\<rparr>"

definition sample_sessions :: Sessions where
  "sample_sessions = backed_sessions key_sample_codec
     (withDefaults \<lparr>so_IdleTTL = 0, so_MaxTTL = 0, so_CodeTTL = 0, so_TouchEvery = 0\<rparr>)"

definition sample_chain :: Chain where
  "sample_chain = \<lparr>ch_methods = [APIKeyMethod (LocalKeys key_sample_codec) sample_keys, SessionMethod sample_sessions]\<rparr>"

definition sample_site :: Site where
  "sample_site = \<lparr>si_codec = key_sample_codec, si_chain = sample_chain, si_sessions = sample_sessions,
                  si_invites = \<lparr>ic_Marshal = ip_DisplayName, ic_Unmarshal = (\<lambda>s. Some \<lparr>ip_DisplayName = s, ip_AudienceID = []\<rparr>)\<rparr>,
                  si_sharing = False\<rparr>"

definition sample_rand :: "nat \<Rightarrow> char" where "sample_rand n = CHR 0x07"

definition seeded :: auth_world where
  "seeded = (empty_world sample_rand [])\<lparr>wd_principals := [owner_row 0]\<rparr>"

definition sesame :: Credential where
  "sesame = \<lparr>cr_Scheme = ''bearer'', cr_Token = ''sesame'', cr_TLS = None, cr_Cookie = []\<rparr>"

lemma seeded_tables [simp]:
  "wd_principals seeded = [owner_row 0]" "wd_identities seeded = []" "wd_kv seeded = []" "wd_faults seeded = []"
  "wd_sessions seeded = []" "wd_codes seeded = []" "wd_tickets seeded = []"
  by (simp_all add: seeded_def empty_world_def)

lemma owner_row_simps [simp]:
  "pw_ID (owner_row t) = OwnerPrincipal" "pw_Status (owner_row t) = PrincipalActive" "pw_Kind (owner_row t) = PrincipalKindOwner"
  "pw_Roles (owner_row t) = [RoleAdmin]" "Principal_Active (owner_row t)"
  by (simp_all add: owner_row_def Principal_Active_def)

lemma seeded_by_migration: "migrate048AuthRegistry 0 (empty_world sample_rand []) = (Inr (), seeded)"
  by (simp add: migrate048AuthRegistry_def op_defs seeded_def empty_world_def has_principal_def numeral_eq_Suc)

lemma sample_config_keys: "ConfigKeysFrom sample_layouts (cf_Keys sample_config) = Inr sample_keys"
  by (simp add: ConfigKeysFrom_def sample_config_def sample_keys_def TrimPrefix_def
        AuthKeyConfig_ExpiresAt_def Let_def)

lemma sample_chain_for:
  "ChainFor [MethodAPIKey, MethodSession] [APIKeyMethod (LocalKeys key_sample_codec) sample_keys, SessionMethod sample_sessions] =
     Inr sample_chain"
  by (simp add: ChainFor_def by_name_standard NewChain_def sample_chain_def)

lemma sample_built:
  "buildAuth (si_codec sample_site) sample_layouts sample_config 1 seeded =
     (Inr (si_chain sample_site, Some (si_sessions sample_site)), seeded)"
  using sample_config_keys sample_chain_for
  by (simp add: buildAuth_def sample_site_def RequireOwnerCredential_def sample_keys_def EffectiveMethods_def Let_def
        DefaultAuthMethods_def newUISessions_def NewSessions_def of_sum_def op_defs session_Prune_def delete_codes_def
        sample_sessions_def backed_sessions_def sample_config_def)

lemma sesame_opens:
  "Chain_Authenticate (si_chain sample_site) sesame 1 seeded =
     ((\<lparr>re_Principal = Some (config_principal (owner_row 0) (hd sample_keys)), re_Method = MethodAPIKey,
        re_Ambient = False, re_ClearCookie = False\<rparr>, None), seeded)"
  by (simp add: Chain_Authenticate_def sample_site_def sample_chain_def APIKeyMethod_def APIKeyMethod_Authenticate_def
        sesame_def configMatch_def sample_keys_def op_defs principal_Get_def)

section \<open>The system theorems on the instance\<close>

theorem authenticated_is_backed_witness:
  "history sample_site seeded seeded \<and> vouched seeded (config_principal (owner_row 0) (hd sample_keys))"
  using authenticated_is_backed [OF seeded_by_migration sample_built _ history.start sesame_opens] key_sample_codec_ok
  by (simp add: sample_site_def history.start)

definition guest :: PrincipalRow where
  "guest = \<lparr>pw_ID = ''prn_1'', pw_Kind = PrincipalKindPerson, pw_DisplayName = ''Guest'', pw_Roles = [RoleReader],
            pw_Status = PrincipalActive, pw_CreatedAt = 1000000, pw_RevokedAt = None\<rparr>"

definition with_guest :: auth_world where
  "with_guest = seeded\<lparr>wd_principals := [owner_row 0, guest]\<rparr>"

definition without_guest :: auth_world where
  "without_guest = seeded\<lparr>wd_principals := [owner_row 0, guest\<lparr>pw_Status := PrincipalSuspended\<rparr>]\<rparr>"

lemmas principal_consts = PrincipalKinds_def PrincipalStatuses_def PrincipalKindOwner_def PrincipalKindPerson_def
  PrincipalActive_def PrincipalSuspended_def PrincipalRevoked_def OwnerPrincipal_def RoleReader_def

lemma TrimSpace_Guest [simp]: "TrimSpace ''Guest'' = ''Guest''"
  by code_simp

lemma guest_created: "run_event sample_site (CreatePrincipal guest) 5 seeded = with_guest"
  by (simp add: principal_Create_def PrepareNewPrincipal_def op_defs guest_def with_guest_def principal_consts
        has_principal_def role_word_bad_def ContainsAny_def owner_row_def Let_def stored_def toMillis_def
        fromMillis_def)

lemma guest_suspended: "run_event sample_site (SuspendPrincipal ''prn_1'') 6 with_guest = without_guest"
  by (simp add: principal_Suspend_def principal_guard_def principal_Get_def op_defs with_guest_def without_guest_def guest_def
        owner_row_def principal_consts update_where_def)

lemma guest_histories: "history sample_site seeded with_guest" "history sample_site seeded without_guest"
proof -
  have "history sample_site seeded (run_event sample_site (CreatePrincipal guest) 5 seeded)"
    by (rule history.event [OF history.start]) simp
  then show with_it: "history sample_site seeded with_guest" by (simp only: guest_created)
  have "history sample_site seeded (run_event sample_site (SuspendPrincipal ''prn_1'') 6 with_guest)"
    by (rule history.event [OF with_it]) simp
  then show "history sample_site seeded without_guest" by (simp only: guest_suspended)
qed


theorem owner_always_active_witness:
  "history sample_site seeded without_guest \<and>
   (\<exists>p. filter (\<lambda>q. pw_Kind q = PrincipalKindOwner) (wd_principals without_guest) = [p] \<and> pw_ID p = OwnerPrincipal)"
  using owner_always_active [OF seeded_by_migration sample_built guest_histories(2)] guest_histories(2) by blast

theorem carried_credential_decides_witness:
  "Chain_Authenticate sample_chain (sesame\<lparr>cr_Cookie := ''stale''\<rparr>) 1 seeded =
     ((\<lparr>re_Principal = Some (config_principal (owner_row 0) (hd sample_keys)), re_Method = MethodAPIKey,
        re_Ambient = False, re_ClearCookie = False\<rparr>, None), seeded)"
  using carried_credential_decides [OF sample_chain_for, of "sesame\<lparr>cr_Cookie := ''stale''\<rparr>" 1 seeded]
  by (simp add: sesame_def APIKeyMethod_Authenticate_def configMatch_def sample_keys_def op_defs principal_Get_def)

lemma with_guest_ok: "db_ok with_guest"
  using dbo.history_store [OF guest_histories(1) built_site_from [OF sample_built]] migrated_backed [OF seeded_by_migration]
  by (simp add: keeps_db_ok_def backed_def)

theorem principal_revocation_cascades_witness:
  "\<exists>w'. principal_Revoke ''prn_1'' 9 with_guest = (Inr (), w') \<and> cut_off w' ''prn_1'' \<and>
        untouched (others with_guest ''prn_1'') (others w' ''prn_1'')"
proof -
  obtain w' where run: "principal_Revoke ''prn_1'' 9 with_guest = (Inr (), w')"
    by (simp add: principal_Revoke_def principal_guard_def principal_Get_def op_defs with_guest_def guest_def
          owner_row_def principal_consts revoke_sessions_def delete_codes_def)
  then show ?thesis
    using principal_revocation_cascades [OF with_guest_ok run]
    by (simp add: with_guest_def guest_def owner_row_def principal_consts)
qed

lemma admin_scopes_plain:
  "\<not> list_ex (\<lambda>s. s = [] \<or> ContainsAny s [CHR '' '', CHR 0x09, CHR 0x0D, CHR 0x0A]) (ScopesForRoles [RoleAdmin])"
  by code_simp

lemma hex_key_id: "hex_EncodeToString (map f [0..<apiKeyIDBytes]) \<noteq> []"
  by (simp add: apiKeyIDBytes_def flip: length_0_conv)

lemma OwnerPrincipal_named: "OwnerPrincipal \<noteq> []"
  by (simp add: OwnerPrincipal_def)

lemma TrimSpace_owner: "TrimSpace OwnerPrincipal = ''owner''"
  by code_simp

theorem minted_key_verifies_witness:
  "\<exists>raw key w' p idn w''.
     Keys_Mint (LocalKeys key_sample_codec) \<lparr>mk_PrincipalID = OwnerPrincipal, mk_Name = ''cli'', mk_ExpiresAt = 0, mk_Scopes = []\<rparr> 1 seeded
       = (Inr (raw, key), w') \<and>
     Keys_Verify (LocalKeys key_sample_codec) raw 2 w' = (Inr (p, idn), w'') \<and> ap_ID p = OwnerPrincipal"
proof -
  let ?spec = "\<lparr>mk_PrincipalID = OwnerPrincipal, mk_Name = ''cli'', mk_ExpiresAt = 0, mk_Scopes = []\<rparr>"
  have "\<exists>raw key w'. Keys_Mint (LocalKeys key_sample_codec) ?spec 1 seeded = (Inr (raw, key), w') \<and> wd_faults w' = [] \<and> ik_ExpiresAt key = 0"
    by (simp add: Keys_Mint_def principal_Get_def op_defs keyScopes_def of_sum_def issue_key_def lk_Create_def admin_scopes_plain
          TrimSpace_owner OwnerPrincipal_named hex_key_id draw_def lk_put_def kv_Put_def bind_key_def identity_Create_def PrepareNewIdentity_def mint_identity_def
          IdentityMethods_def IdentityMethodAPIKey_def NewIdentityID_def NewULID_def has_identity_def has_principal_def Let_def)
  then obtain raw key w' where mint: "Keys_Mint (LocalKeys key_sample_codec) ?spec 1 seeded = (Inr (raw, key), w')"
    and w': "wd_faults w' = []" "ik_ExpiresAt key = 0" by blast
  show ?thesis
    using minted_key_verifies [OF key_sample_codec_ok mint w'(1), of 2] w'(2) mint by fastforce
qed

definition signed_up :: auth_world where
  "signed_up = seeded\<lparr>
     wd_identities := [\<lparr>id_ID = ''idn_1'', id_PrincipalID = OwnerPrincipal, id_Method = IdentityMethodLink, id_Issuer = [],
        id_Subject = ''s'', id_Name = [], id_CreatedAt = 0, id_RevokedAt = None, id_LastUsedAt = None\<rparr>],
     wd_codes := [\<lparr>lc_CodeHash = HashSecret ''code'', lc_PrincipalID = OwnerPrincipal, lc_IdentityID = ''idn_1'',
        lc_Scope = SessionKindUI, lc_CreatedAt = 0, lc_ExpiresAt = 1000\<rparr>],
     wd_tickets := [(TicketHash ''ticket'', \<lparr>tk_Kind = TicketKindInvite, tk_PrincipalID = [], tk_Payload = [],
        tk_CreatedBy = OwnerPrincipal, tk_CreatedAt = 0, tk_ExpiresAt = 2000000, tk_RedeemedAt = None\<rparr>)]\<rparr>"

theorem login_code_single_use_witness:
  "\<exists>m w' e. Exchange sample_sessions ''code'' \<lparr>ci_UserAgent = [], ci_RemoteAddr = []\<rparr> 1 signed_up = (Inr m, w') \<and>
     fst (Exchange sample_sessions ''code'' \<lparr>ci_UserAgent = [], ci_RemoteAddr = []\<rparr> 2 w') = Inl e"
proof -
  let ?ci = "\<lparr>ci_UserAgent = [], ci_RemoteAddr = []\<rparr>"
  obtain m w' where first: "Exchange sample_sessions ''code'' ?ci 1 signed_up = (Inr m, w')"
    by (simp add: Exchange_def ConsumeLoginCode_def op_defs signed_up_def mintFor_def resolve_def identity_Get_def
          Identity_Active_def principal_Get_def resolve_scopes_def sample_sessions_def backed_sessions_def Keys_ScopesOf_def
          IdentityMethodAPIKey_def IdentityMethodLink_def randomSecret_def newSessionID_def draw_def session_Create_def
          has_identity_def new_session_def Let_def)
  have "local_sessions key_sample_codec sample_sessions" by (simp add: sample_sessions_def local_backed_sessions)
  from login_code_single_use [OF this first subset_refl] first show ?thesis by blast
qed

theorem ticket_single_use_witness:
  "\<exists>t w' e. redeem TicketKindInvite ''ticket'' 1 signed_up = (Inr t, w') \<and>
     fst (redeem TicketKindInvite ''ticket'' 2 w') = Inl e"
proof -
  obtain t w' where first: "redeem TicketKindInvite ''ticket'' 1 signed_up = (Inr t, w')"
    by (simp add: redeem_def ticket_Redeem_def ticket_redeem_update_def op_defs signed_up_def ticket_open_def
          ticket_principal_active_def toMillis_def Let_def)
  have "db_ok signed_up"
    by (simp add: signed_up_def db_ok_def principals_ok_def identities_ok_def sessions_ok_def codes_ok_def
          has_principal_def has_identity_def)
  with obeysD [OF dbo.redeem first] have "db_ok w'" by (simp add: keeps_db_ok_def)
  from ticket_single_use [OF first reg.refl this] first show ?thesis by blast
qed

end
