(* ===== verification/Http_Share_Samples.thy ===== *)
theory Http_Share_Samples
  imports Http_Share_Laws Auth_Samples
begin

text \<open>
  The sharing registry on a small instance: a guest in one audience, one grant of the built-in
  policy for colleagues, and an API key of the guest. The theorems about histories of the
  registry and about its routes are applied to it.
\<close>

definition colleagues :: SharePolicy where
  "colleagues = \<lparr>sp_ID = ''pol_1'', sp_Name = pol_Name (Templates ! 0), sp_Version = 1,
     sp_Spec = Some (policy_json (Templates ! 0)), sp_UpdatedAt = 0\<rparr>"

definition team :: Audience where
  "team = \<lparr>aud_ID = ''aud_1'', aud_Name = ''team'', aud_CreatedAt = 0\<rparr>"

definition team_grant :: ShareGrant where
  "team_grant = \<lparr>grant_ID = ''grt_1'', grant_AudienceID = ''aud_1'', grant_PolicyID = ''pol_1'', grant_ExpiresAt = None,
     grant_CreatedBy = ''owner'', grant_CreatedAt = 0, grant_RevokedAt = None\<rparr>"

definition guest_key :: Identity where
  "guest_key = \<lparr>id_ID = ''idn_1'', id_PrincipalID = ''prn_1'', id_Method = IdentityMethodAPIKey, id_Issuer = [],
     id_Subject = ''k1'', id_Name = ''agent'', id_CreatedAt = 0, id_RevokedAt = None, id_LastUsedAt = None\<rparr>"

definition guest_key_record :: APIKey where
  "guest_key_record = \<lparr>ak_ID = ''k1'', ak_Principal = ''prn_1'', ak_Scopes = [''write:self''], ak_CreatedAt = 0,
     ak_ExpiresAt = 0, ak_RevokedAt = 0, ak_Hash = []\<rparr>"

definition shared_world :: auth_world where
  "shared_world = with_guest\<lparr>wd_identities := [guest_key],
     wd_kv := [(apiKeyStorePrefix @ ''k1'', kc_Marshal key_sample_codec guest_key_record)],
     wd_audiences := [team],
     wd_members := [\<lparr>mem_AudienceID = ''aud_1'', mem_PrincipalID = ''prn_1'', mem_ExpiresAt = None,
                     mem_AddedBy = ''owner'', mem_AddedAt = 0\<rparr>],
     wd_policies := [colleagues], wd_grants := [team_grant], wd_bound := [(''idn_1'', ''pol_1'')]\<rparr>"

definition ended_world :: auth_world where
  "ended_world = shared_world\<lparr>wd_grants := [team_grant\<lparr>grant_RevokedAt := Some (stored 9)\<rparr>]\<rparr>"

definition sample_share :: shareRoutes where
  "sample_share = \<lparr>sr_wired = True, sr_keys = Some (LocalKeys key_sample_codec), sr_quote = (\<lambda>x. x),
     sr_yaml = (\<lambda>doc. [Inr (Templates ! 0)]), sr_policyError = (\<lambda>e. []), sr_parseTime = (\<lambda>x. None),
     sr_parseDuration = (\<lambda>x. None)\<rparr>"

lemma shared_tables [simp]:
  "wd_faults shared_world = []" "wd_principals shared_world = [owner_row 0, guest]" "wd_identities shared_world = [guest_key]"
  "wd_policies shared_world = [colleagues]" "wd_grants shared_world = [team_grant]" "wd_audiences shared_world = [team]"
  "wd_deny shared_world = []" "wd_bound shared_world = [(''idn_1'', ''pol_1'')]"
  by (simp_all add: shared_world_def with_guest_def seeded_def empty_world_def)

lemma template_distinct: "distinct (map fst (pol_Fields (Templates ! 0)))"
  by (simp add: Templates_def)

lemma colleagues_policy: "PolicyFromSpec (Some colleagues) = Inr ((Templates ! 0)\<lparr>pol_Version := 1\<rparr>)"
  using stored_policy [of "Templates ! 0" "policy_json (Templates ! 0)" colleagues] template_valid [of 0] template_distinct
  by (simp add: Policy_Spec_def colleagues_def)

lemma shared_loadable: "loadable shared_world"
proof -
  have "clean (pol_Name (Templates ! 0))" by (simp add: Templates_def TemplateColleagues_def clean_def)
  then have "share_ok shared_world" by (simp add: share_ok_def colleagues_def team_grant_def clean_def)
  then show ?thesis
    using colleagues_policy by (simp add: loadable_def decodable_def bound_ok_def has_policy_def colleagues_def)
qed

lemma shared_ok: "share_ok shared_world"
  using shared_loadable by (simp add: loadable_def)

lemma shared_run: "sharing_run sample_site shared_world [shared_world] []"
  by (rule sharing_run.start)

lemma shared_site: "built_site sample_site"
  using sample_built by (rule built_site_from)

lemma sample_wired: "wired sample_share key_sample_codec"
  using template_distinct by (simp add: wired_def sample_share_def)

lemma shared_known: "has_principal shared_world ''prn_1''" "has_identity shared_world ''idn_1''"
  by (simp_all add: has_principal_def has_identity_def guest_def guest_key_def)

lemma clean_names: "clean ''prn_1''" "clean ''idn_1''" "clean []"
  by (simp_all add: clean_def)

lemma shared_admits:
  "admits (\<lambda>row f op x. True) (\<lambda>row. [''work'']) ((Templates ! 0)\<lparr>pol_Version := 1\<rparr>) ()"
proof -
  have norm: "NormalizeClasses [''personal''] = [''personal'']" by code_simp
  have "DataNode ((Templates ! 0)\<lparr>pol_Version := 1\<rparr>) = DataNode (Templates ! 0)" by (simp add: DataNode_def)
  then show ?thesis
    using DataNode_templates(1) by (simp add: admits_def free_of_def Templates_def norm)
qed

theorem cache_never_stale_witness:
  "\<exists>inp v. loadInput (sharing_at shared_world) ''prn_1'' ''idn_1'' 7 = Inr inp \<and> Compile_viewer inp = Inr v \<and>
     fst (Resolve (Some (NewResolver (Some (sharing_at shared_world)))) 7 ''prn_1'' ''person'' ''idn_1'') = Inr v"
proof -
  obtain inp v where inp: "loadInput (sharing_at shared_world) ''prn_1'' ''idn_1'' 7 = Inr inp" "Compile_viewer inp = Inr v"
    using load_compiles [OF shared_loadable _ shared_known(1), of "''idn_1''" 7] shared_known(2) by auto
  let ?rs = "NewResolver (Some (sharing_at shared_world))"
  have run: "sharing_run sample_site shared_world [shared_world] (rs_cache ?rs)" using shared_run by (simp add: NewResolver_def)
  have st: "rs_store ?rs = Some (sharing_at shared_world)" by (simp add: NewResolver_def)
  have reads: "reads_from (set [shared_world]) (sharing_at shared_world)" by (rule reads_from_at) simp
  from cache_never_stale [OF run shared_site shared_ok st reads _ clean_names(1,2) inp(1), of "''person''"] inp
  show ?thesis by auto
qed


lemma shared_allows:
  "tables_allow (\<lambda>row f op x. True) (\<lambda>row. [''work'']) shared_world ''prn_1'' [] 7 ()"
proof -
  have "granted_through (\<lambda>row f op x. True) (\<lambda>row. [''work'']) shared_world ''prn_1'' 7 team_grant ()"
    using shared_admits colleagues_policy
    by (simp add: granted_through_def shared_world_def live_def team_grant_def team_def) (simp add: colleagues_def)
  moreover have "NormalizeClasses [] = []" by code_simp
  ultimately show ?thesis
    using shared_known(1) by (auto simp: tables_allow_def free_of_def deny_of_def)
qed

lemma ended_blind: "\<not> tables_allow sat cls ended_world i ident now row"
  by (simp add: tables_allow_def granted_through_def ended_world_def)

lemma grant_ended: "grant_Revoke ''grt_1'' 9 shared_world = (Inr (), ended_world)"
  by (simp add: grant_Revoke_def grant_Get_def one_def op_defs ended_world_def update_where_def team_grant_def)

lemma ended_run: "sharing_run sample_site shared_world ([shared_world] @ ended_world # []) []"
  using sharing_run.share [OF shared_run, of "EndGrant ''grt_1''" 9] by (simp add: grant_ended)

lemma ended_loadable: "loadable ended_world"
  using ldb.trans [OF _ ldb.refl] other_writes(5) [of "''grt_1''" 9] grant_ended shared_loadable
  by (metis keeps_loadable_def obeysD)

lemma ended_tables [simp]: "wd_faults ended_world = []" "has_principal ended_world i = has_principal shared_world i"
  by (simp_all add: ended_world_def has_principal_def)

text \<open>Before the grant is revoked the guest sees the row, afterwards not.\<close>

theorem tables_decide_visibility_witness:
  "\<exists>v v'. fst (Resolve (Some (NewResolver (Some (sharing_at shared_world)))) 7 ''prn_1'' ''person'' []) = Inr v \<and>
     fst (Resolve (Some (NewResolver (Some (sharing_at ended_world)))) 10 ''prn_1'' ''person'' []) = Inr v' \<and>
     viewer_sees (\<lambda>row f op x. True) (\<lambda>row. [''work'']) v () \<and>
     \<not> viewer_sees (\<lambda>row f op x. True) (\<lambda>row. [''work'']) v' ()"
proof -
  let ?rs = "\<lambda>w. NewResolver (Some (sharing_at w))"
  have get: "\<exists>v. fst (Resolve (Some (?rs w)) now ''prn_1'' ''person'' []) = Inr v"
    if "loadable w" "wd_faults w = []" "has_principal w ''prn_1''" for w now
    using load_compiles [OF that, of "[]" now] by (auto simp: Resolve_def NewResolver_def PrincipalKindOwner_def Let_def)
  obtain v where v: "fst (Resolve (Some (?rs shared_world)) 7 ''prn_1'' ''person'' []) = Inr v"
    using get [OF shared_loadable] shared_known(1) by auto
  obtain v' where v': "fst (Resolve (Some (?rs ended_world)) 10 ''prn_1'' ''person'' []) = Inr v'"
    using get [OF ended_loadable] shared_known(1) by auto
  have k: "''person'' \<noteq> ''owner''" by simp
  have runs: "sharing_run sample_site shared_world [shared_world] (rs_cache (?rs shared_world))"
    "sharing_run sample_site shared_world [shared_world, ended_world] (rs_cache (?rs ended_world))"
    using shared_run ended_run by (simp_all add: NewResolver_def)
  have st: "rs_store (?rs shared_world) = Some (sharing_at (last [shared_world]))"
    "rs_store (?rs ended_world) = Some (sharing_at (last [shared_world, ended_world]))" by (simp_all add: NewResolver_def)
  note sees = tables_decide_visibility [OF runs(1) shared_site shared_ok st(1) k clean_names(1,3) v]
    tables_decide_visibility [OF runs(2) shared_site shared_ok st(2) k clean_names(1,3) v']
  show ?thesis
    using v v' sees(1) [of "\<lambda>row f op x. True" "\<lambda>row. [''work'']" "()"] sees(2) [of "\<lambda>row f op x. True" "\<lambda>row. [''work'']" "()"]
      shared_allows by (auto simp: ended_blind)
qed



definition guest_caller :: AuthPrincipal where
  "guest_caller = LocalPrincipal\<lparr>ap_ID := ''prn_1''\<rparr>"

theorem key_bindings_guarded_witness:
  "bound_of (snd (share_serve sample_share (Some guest_caller) 9 (PUTSelfKeyPolicy ''k1'' (Some [])) shared_world)) ''idn_1'' = [] \<and>
   may_bind (Some guest_caller) (PUTSelfKeyPolicy ''k1'' (Some [])) ''prn_1''"
proof -
  have codec: "kc_Unmarshal key_sample_codec (kc_Marshal key_sample_codec guest_key_record) = Some guest_key_record"
    using key_sample_codec_ok by (simp add: codec_ok_def)
  have get: "Keys_Get (LocalKeys key_sample_codec) ''k1'' shared_world = (Inr (keyInfo guest_key_record guest_key), shared_world)"
    using codec
    by (simp add: Keys_Get_def lk_Get_def lk_get_def kv_Get_def identity_Find_def op_defs shared_world_def guest_key_record_def guest_key_def
        with_guest_def)
  have self: "IsSelf (Some (caller (Some guest_caller))) (ik_PrincipalID (keyInfo guest_key_record guest_key))"
    by (simp add: IsSelf_def caller_def guest_caller_def keyInfo_def guest_key_def)
  have b: "bound_of (snd (share_serve sample_share (Some guest_caller) 9 (PUTSelfKeyPolicy ''k1'' (Some [])) shared_world)) ''idn_1'' = []"
    using bound_key_unbinds_itself [OF _ _ get _ self, of sample_share 9] shared_known(2)
    by (simp add: sample_share_def keyInfo_def guest_key_def)
  moreover have "bound_of shared_world ''idn_1'' \<noteq> []" by (simp add: bound_of_def)
  ultimately show ?thesis
    using key_bindings_guarded [OF sample_wired, of "Some guest_caller" 9 "PUTSelfKeyPolicy ''k1'' (Some [])" shared_world "''idn_1''"]
    by (auto simp: guest_key_def)
qed

end
