(* ===== verification/Http_Limiter.thy ===== *)
theory Http_Limiter
  imports Complex_Main Http_Gate
begin

text \<open>
  The rate limit of the sign-in ceremonies, \<open>internal/server/http/ratelimit.go\<close>: a token bucket
  per client address, the sweep of idle buckets and the middleware that answers 429. The
  \<open>float64\<close> arithmetic of the buckets is taken as exact, on rationals; times and durations are
  integer nanoseconds, and \<open>time.Sub\<close> saturates as Go's does.
\<close>

section \<open>The buckets\<close>

record addrBucket =
  ab_tokens :: rat
  ab_seen :: time

record AddrLimiter =
  al_attempts :: rat
  al_window :: int
  al_buckets :: "string \<Rightarrow> addrBucket option"
  al_lastSweep :: time

definition DefaultCeremonyAttempts :: int where "DefaultCeremonyAttempts = 10"
definition DefaultCeremonyWindow :: int where "DefaultCeremonyWindow = 60 * second"
definition limiterSweepEvery :: int where "limiterSweepEvery = 5 * 60 * second"
definition CodeRateLimited :: string where "CodeRateLimited = ''RATE_LIMITED''"

definition NewAddrLimiter :: "int \<Rightarrow> int \<Rightarrow> time \<Rightarrow> AddrLimiter" where
  "NewAddrLimiter attempts window now =
     \<lparr>al_attempts = of_int (if attempts \<le> 0 then DefaultCeremonyAttempts else attempts),
      al_window = (if window \<le> 0 then DefaultCeremonyWindow else window),
      al_buckets = Map.empty, al_lastSweep = now\<rparr>"

definition Duration_Seconds :: "int \<Rightarrow> rat" where "Duration_Seconds d = of_int d / of_int second"

text \<open>\<open>time.Duration(x)\<close> of a float cuts towards zero.\<close>

definition Duration_of :: "rat \<Rightarrow> int" where
  "Duration_of x = (if x < 0 then - \<lfloor>- x\<rfloor> else \<lfloor>x\<rfloor>)"

definition sweep :: "time \<Rightarrow> AddrLimiter \<Rightarrow> AddrLimiter" where
  "sweep now l =
     (if time_Sub now (al_lastSweep l) < limiterSweepEvery then l
      else l\<lparr>al_lastSweep := now,
             al_buckets := (\<lambda>a. case al_buckets l a of
                None \<Rightarrow> None
              | Some b \<Rightarrow> if time_Sub now (ab_seen b) \<ge> al_window l then None else Some b)\<rparr>)"

definition refilled :: "AddrLimiter \<Rightarrow> addrBucket \<Rightarrow> time \<Rightarrow> rat" where
  "refilled l b now =
     (let refill = Duration_Seconds (time_Sub now (ab_seen b)) / Duration_Seconds (al_window l) * al_attempts l
      in min (al_attempts l) (ab_tokens b + max refill 0))"

definition Allow :: "string \<Rightarrow> time \<Rightarrow> AddrLimiter \<Rightarrow> (bool \<times> int) \<times> AddrLimiter" where
  "Allow addr now l0 =
     (let l = sweep now l0;
          b = (case al_buckets l addr of None \<Rightarrow> \<lparr>ab_tokens = al_attempts l, ab_seen = now\<rparr> | Some b \<Rightarrow> b);
          tokens = refilled l b now;
          put = (\<lambda>t. l\<lparr>al_buckets := (al_buckets l)(addr \<mapsto> \<lparr>ab_tokens = t, ab_seen = now\<rparr>)\<rparr>);
          perToken = Duration_Seconds (al_window l) / al_attempts l
      in if tokens \<ge> 1 then ((True, 0), put (tokens - 1))
         else ((False, Duration_of ((1 - tokens) * perToken * of_int second)), put tokens))"

definition retry_secs :: "int \<Rightarrow> int" where
  "retry_secs retry = (let secs = \<lceil>Duration_Seconds retry\<rceil> in if secs < 1 then 1 else secs)"

text \<open>\<open>LimitByAddr\<close> with the limiter's state beside the instance's.\<close>

definition LimitByAddr ::
    "Handler \<Rightarrow> Context \<Rightarrow> Request \<Rightarrow> AddrLimiter \<times> Instance \<Rightarrow> (string Response \<times> Ledger option) \<times> AddrLimiter \<times> Instance" where
  "LimitByAddr next ctx r ls =
     (let addr = remoteHost r; al = Allow addr (rq_Now r) (fst ls)
      in if fst (fst al) then (case next ctx r (snd ls) of (out, s) \<Rightarrow> (out, snd al, s))
         else (let secs = retry_secs (snd (fst al))
               in ((SetHeader ''Retry-After'' (Itoa secs) (SetHeader ''Cache-Control'' ''no-store''
                      (WriteError 429 CodeRateLimited
                        (''too many sign-in attempts from this address; try again in '' @ Itoa secs @ ''s''))), rc_ledger ctx),
                   snd al, emit (AuthFailure addr) (snd ls))))"

section \<open>The budget of a bucket\<close>

fun grants :: "(string \<Rightarrow> time \<Rightarrow> 's \<Rightarrow> bool \<times> 's) \<Rightarrow> string \<Rightarrow> (time \<times> string) list \<Rightarrow> 's \<Rightarrow> nat" where
  "grants attempt a [] s = 0"
| "grants attempt a ((t, b) # es) s =
     (if b = a \<and> fst (attempt b t s) then 1 else 0) + grants attempt a es (snd (attempt b t s))"

text \<open>
  A budget: attempts are charged to a level that never falls below zero, grows no faster than a
  rate and is untouched by the attempts of others. Whoever keeps these laws grants at most the
  level at the start and what the time adds.
\<close>

locale token_budget =
  fixes attempt :: "string \<Rightarrow> time \<Rightarrow> 's \<Rightarrow> bool \<times> 's" and level :: "string \<Rightarrow> 's \<Rightarrow> time \<Rightarrow> rat"
    and ok :: "'s \<Rightarrow> bool" and rate :: rat
  assumes kept: "ok s \<Longrightarrow> ok (snd (attempt b t s))"
    and nonneg: "ok s \<Longrightarrow> 0 \<le> level a s t"
    and grows: "ok s \<Longrightarrow> t \<le> t' \<Longrightarrow> level a s t' \<le> level a s t + rate * of_int (t' - t)"
    and charged: "ok s \<Longrightarrow> level a (snd (attempt a t s)) t + (if fst (attempt a t s) then 1 else 0) \<le> level a s t"
    and others: "ok s \<Longrightarrow> b \<noteq> a \<Longrightarrow> level a (snd (attempt b t s)) t \<le> level a s t"
begin

lemma granted_within:
  assumes "ok s" "sorted (t0 # map fst es @ [t1])"
  shows "of_nat (grants attempt a es s) \<le> level a s t0 + rate * of_int (t1 - t0)"
  using assms
proof (induction es arbitrary: s t0)
  case Nil
  then show ?case using nonneg [of s a t1] grows [of s t0 t1 a] by (simp add: order_trans)
next
  case (Cons e es)
  obtain t b where e: "e = (t, b)" by (cases e)
  let ?s = "snd (attempt b t s)" and ?g = "if b = a \<and> fst (attempt b t s) then 1 else 0"
  from Cons.prems have t: "t0 \<le> t" and sorted: "sorted (t # map fst es @ [t1])" by (simp_all add: e)
  have "of_nat (grants attempt a es ?s) \<le> level a ?s t + rate * of_int (t1 - t)"
    using Cons.IH [OF kept [OF Cons.prems(1)] sorted] .
  moreover have "level a ?s t + ?g \<le> level a s t"
    using charged [OF Cons.prems(1), of a t] others [OF Cons.prems(1), of b a t] by (cases "b = a") auto
  moreover have "level a s t \<le> level a s t0 + rate * of_int (t - t0)" using grows [OF Cons.prems(1) t] .
  moreover have "rate * of_int (t1 - t0) = rate * of_int (t - t0) + rate * of_int (t1 - t)"
    by (simp add: algebra_simps)
  ultimately show ?case by (auto simp: e split: if_splits)
qed

end

section \<open>The limiter keeps a budget\<close>

definition limiter_ok :: "rat \<Rightarrow> int \<Rightarrow> AddrLimiter \<Rightarrow> bool" where
  "limiter_ok n w l \<longleftrightarrow> al_attempts l = n \<and> al_window l = w \<and> 1 \<le> n \<and> 0 < w \<and> w < 2 ^ 63 \<and>
     (\<forall>a b. al_buckets l a = Some b \<longrightarrow> 0 \<le> ab_tokens b \<and> ab_tokens b \<le> n)"

definition level_of :: "string \<Rightarrow> AddrLimiter \<Rightarrow> time \<Rightarrow> rat" where
  "level_of a l now = (case al_buckets l a of None \<Rightarrow> al_attempts l | Some b \<Rightarrow> refilled l b now)"

lemma refilled_alt:
  "0 < al_window l \<Longrightarrow>
   refilled l b now = min (al_attempts l) (ab_tokens b + max (of_int (time_Sub now (ab_seen b)) * al_attempts l / of_int (al_window l)) 0)"
  by (simp add: refilled_def Duration_Seconds_def second_def)

lemma sweep_simps [simp]: "al_attempts (sweep now l) = al_attempts l" "al_window (sweep now l) = al_window l"
  by (simp_all add: sweep_def)

lemma sweep_ok: "limiter_ok n w l \<Longrightarrow> limiter_ok n w (sweep now l)"
  by (auto simp: limiter_ok_def sweep_def split: option.splits if_splits)

lemma sweep_level:
  assumes "limiter_ok n w l"
  shows "level_of a (sweep now l) now = level_of a l now"
proof (cases "al_buckets l a")
  case None
  then show ?thesis by (simp add: level_of_def sweep_def)
next
  case (Some b)
  have w: "0 < al_window l" "al_attempts l \<ge> 1" "0 \<le> ab_tokens b" using assms Some by (auto simp: limiter_ok_def)
  have "refilled l b now = al_attempts l" if "al_window l \<le> time_Sub now (ab_seen b)"
  proof -
    have "al_attempts l * of_int (al_window l) \<le> of_int (time_Sub now (ab_seen b)) * al_attempts l"
      using that w by (simp add: mult.commute mult_left_mono)
    then have "al_attempts l \<le> of_int (time_Sub now (ab_seen b)) * al_attempts l / of_int (al_window l)"
      using w(1) by (simp add: pos_le_divide_eq)
    then show ?thesis using w by (simp add: refilled_alt)
  qed
  then show ?thesis using Some by (auto simp: level_of_def sweep_def refilled_def)
qed

lemma level_bounds:
  assumes "limiter_ok n w l"
  shows "0 \<le> level_of a l now" "level_of a l now \<le> n"
  using assms by (auto simp: level_of_def limiter_ok_def refilled_def Let_def split: option.splits)

text \<open>What \<open>Allow\<close> does, in terms of the level alone.\<close>

definition Allow_ok :: "string \<Rightarrow> time \<Rightarrow> AddrLimiter \<Rightarrow> bool \<times> AddrLimiter" where
  "Allow_ok a now l = (fst (fst (Allow a now l)), snd (Allow a now l))"

lemma fresh_bucket: "0 < al_window l \<Longrightarrow> 0 \<le> al_attempts l \<Longrightarrow> refilled l \<lparr>ab_tokens = al_attempts l, ab_seen = now\<rparr> now = al_attempts l"
  by (simp add: refilled_alt time_Sub_def)

lemma Allow_level:
  fixes a now
  assumes "limiter_ok n w l"
  defines "t \<equiv> level_of a l now"
  shows "Allow a now l =
    (if t \<ge> 1 then ((True, 0), (sweep now l)\<lparr>al_buckets := (al_buckets (sweep now l))(a \<mapsto> \<lparr>ab_tokens = t - 1, ab_seen = now\<rparr>)\<rparr>)
     else ((False, Duration_of ((1 - t) * (Duration_Seconds w / n) * of_int second)),
           (sweep now l)\<lparr>al_buckets := (al_buckets (sweep now l))(a \<mapsto> \<lparr>ab_tokens = t, ab_seen = now\<rparr>)\<rparr>))"
proof -
  have wn: "al_window l = w" "al_attempts l = n" "0 < w" "0 \<le> n" using assms(1) by (auto simp: limiter_ok_def)
  have "level_of a (sweep now l) now = t" using sweep_level [OF assms(1)] by (simp add: t_def)
  then have "refilled (sweep now l) (case al_buckets (sweep now l) a of
      None \<Rightarrow> \<lparr>ab_tokens = al_attempts (sweep now l), ab_seen = now\<rparr> | Some b \<Rightarrow> b) now = t"
    using fresh_bucket [of "sweep now l" now] wn
    by (cases "al_buckets (sweep now l) a") (simp_all add: level_of_def)
  then show ?thesis by (simp add: Allow_def Let_def wn)
qed

lemma put_level:
  fixes b now
  assumes "limiter_ok n w l" "0 \<le> x" "x \<le> n"
  defines "l' \<equiv> (sweep now l)\<lparr>al_buckets := (al_buckets (sweep now l))(b \<mapsto> \<lparr>ab_tokens = x, ab_seen = now\<rparr>)\<rparr>"
  shows "limiter_ok n w l'" "level_of b l' now = x" "a \<noteq> b \<Longrightarrow> level_of a l' now = level_of a l now"
proof -
  have ok: "limiter_ok n w (sweep now l)" using sweep_ok [OF assms(1)] .
  then show "limiter_ok n w l'" using assms(2,3) by (auto simp: limiter_ok_def l'_def)
  have w: "0 < al_window l" "al_attempts l = n" using assms(1) by (auto simp: limiter_ok_def)
  show "level_of b l' now = x" using assms(2,3) w by (simp add: level_of_def l'_def refilled_alt time_Sub_def)
  show "level_of a l' now = level_of a l now" if "a \<noteq> b"
    using that sweep_level [OF assms(1), of a now]
    by (simp add: level_of_def l'_def refilled_def split: option.splits)
qed

lemma level_grows:
  assumes "limiter_ok n w l" "t \<le> t'"
  shows "level_of a l t' \<le> level_of a l t + n / of_int w * of_int (t' - t)"
proof (cases "al_buckets l a")
  case None
  then show ?thesis using assms by (simp add: level_of_def limiter_ok_def)
next
  case (Some b)
  have w: "al_window l = w" "al_attempts l = n" "0 < w" "1 \<le> n" using assms(1) by (auto simp: limiter_ok_def)
  let ?e = "\<lambda>t. max (of_int (time_Sub t (ab_seen b)) * n / of_int w) 0"
  have "max (time_Sub t' (ab_seen b)) 0 \<le> max (time_Sub t (ab_seen b)) 0 + (t' - t)" using assms(2) by (auto simp: time_Sub_def)
  then have "of_int (max (time_Sub t' (ab_seen b)) 0) * (n / of_int w) \<le> (of_int (max (time_Sub t (ab_seen b)) 0 + (t' - t)) :: rat) * (n / of_int w)"
    using w by (intro mult_right_mono) (auto simp only: of_int_le_iff intro!: divide_nonneg_pos)
  moreover have "?e t = of_int (max (time_Sub t (ab_seen b)) 0) * (n / of_int w)" for t
    using w by (auto simp: max_def divide_le_0_iff mult_le_0_iff zero_le_divide_iff zero_le_mult_iff)
  ultimately have "?e t' \<le> ?e t + n / of_int w * of_int (t' - t)" by (simp add: algebra_simps)
  moreover have "0 \<le> n / of_int w * of_int (t' - t)" using w assms(2) by simp
  ultimately show ?thesis using Some w by (auto simp: level_of_def refilled_alt min_def)
qed

interpretation lim: token_budget Allow_ok level_of "limiter_ok n w" "n / of_int w" for n w
proof
  fix s :: AddrLimiter and a b :: string and t t' :: time
  assume ok: "limiter_ok n w s"
  note lev = level_bounds [OF ok]
  have le: "level_of b s t - 1 \<le> n" for b using lev(2) [of b t] by linarith
  show "limiter_ok n w (snd (Allow_ok b t s))"
    using put_level(1) [OF ok] lev le by (simp add: Allow_ok_def Allow_level [OF ok])
  show "0 \<le> level_of a s t" by (rule lev)
  show "level_of a (snd (Allow_ok a t s)) t + (if fst (Allow_ok a t s) then 1 else 0) \<le> level_of a s t"
    using put_level(2) [OF ok] lev le by (simp add: Allow_ok_def Allow_level [OF ok])
  show "level_of a (snd (Allow_ok b t s)) t \<le> level_of a s t" if "b \<noteq> a"
    using put_level(3) [OF ok] lev le that by (auto simp: Allow_ok_def Allow_level [OF ok])
  show "level_of a s t' \<le> level_of a s t + n / of_int w * of_int (t' - t)" if "t \<le> t'"
    using level_grows [OF ok that] .
qed

section \<open>What the limiter guarantees\<close>

fun after :: "(time \<times> string) list \<Rightarrow> AddrLimiter \<Rightarrow> AddrLimiter" where
  "after [] l = l"
| "after ((t, b) # es) l = after es (snd (Allow b t l))"

lemma after_ok: "limiter_ok n w l \<Longrightarrow> limiter_ok n w (after es l)"
proof (induction es arbitrary: l)
  case (Cons e es)
  then show ?case using lim.kept [of n w l "snd e" "fst e"] by (cases e) (simp add: Allow_ok_def)
qed simp

lemma new_ok:
  assumes "window < 2 ^ 63"
  shows "limiter_ok (al_attempts (NewAddrLimiter attempts window now)) (al_window (NewAddrLimiter attempts window now))
     (NewAddrLimiter attempts window now)"
  using assms by (simp add: limiter_ok_def NewAddrLimiter_def DefaultCeremonyAttempts_def DefaultCeremonyWindow_def second_def)



text \<open>
  The wait that a refusal names is enough. When an address is refused after any past, the wait
  is at most the time of one attempt, and its next attempt later than the whole seconds of the
  Retry-After header, with no attempt of its own in between, is granted.
\<close>

theorem retry_after_suffices:
  assumes "window < 2 ^ 63" "Allow a now (after past (NewAddrLimiter attempts window now0)) = ((False, d), l)"
    and "now + retry_secs d * second < now'"
  shows "fst (fst (Allow a now' l)) \<and> 0 \<le> d \<and> d \<le> al_window l"
proof -
  let ?new = "NewAddrLimiter attempts window now0" and ?l = "after past (NewAddrLimiter attempts window now0)"
  define n w where "n = al_attempts ?new" and "w = al_window ?new"
  have ok: "limiter_ok n w ?l" unfolding n_def w_def using after_ok [OF new_ok [OF assms(1)]] .
  then have nw: "1 \<le> n" "0 < w" "w < 2 ^ 63" by (auto simp: limiter_ok_def)
  define t where "t = level_of a ?l now"
  have t: "0 \<le> t" "t < 1" and d: "d = Duration_of ((1 - t) * (Duration_Seconds w / n) * of_int second)"
    and l: "l = (sweep now ?l)\<lparr>al_buckets := (al_buckets (sweep now ?l))(a \<mapsto> \<lparr>ab_tokens = t, ab_seen = now\<rparr>)\<rparr>"
    using assms(2) level_bounds(1) [OF ok, of a now] by (auto simp: Allow_level [OF ok] t_def split: if_splits)
  have l_ok: "limiter_ok n w l" using put_level(1) [OF ok t(1)] t(2) nw(1) by (simp add: l)
  define x where "x = (1 - t) * (of_int w / n)"
  have x: "0 \<le> x" using t nw by (simp add: x_def)
  have "x \<le> 1 * (of_int w / 1)" unfolding x_def using t nw by (intro mult_mono divide_left_mono) auto
  then have xw: "x \<le> of_int w" by simp
  have dx: "d = \<lfloor>x\<rfloor>" using x by (simp add: d x_def Duration_of_def Duration_Seconds_def second_def mult.assoc)
  have "d \<le> retry_secs d * second"
  proof -
    have "of_int d / of_int second \<le> (of_int \<lceil>Duration_Seconds d\<rceil> :: rat)" by (simp add: Duration_Seconds_def)
    then have "of_int d \<le> (of_int (\<lceil>Duration_Seconds d\<rceil> * second) :: rat)" by (simp add: second_def field_simps)
    then have "d \<le> \<lceil>Duration_Seconds d\<rceil> * second" by (simp only: of_int_le_iff)
    moreover have "\<lceil>Duration_Seconds d\<rceil> * second \<le> retry_secs d * second"
      unfolding retry_secs_def Let_def second_def by auto
    ultimately show ?thesis by linarith
  qed
  with assms(3) have "d + 1 \<le> now' - now" by linarith
  then have "\<lfloor>x\<rfloor> + 1 \<le> now' - now" "x \<le> of_int (2 ^ 63 - 1)" using dx xw nw(3) by linarith+
  then have "x \<le> of_int (time_Sub now' now)"
    by (simp add: time_Sub_def max_def min_def) linarith
  then have "1 - t \<le> of_int (time_Sub now' now) * n / of_int w"
    using nw by (simp add: x_def field_simps)
  then have "1 \<le> level_of a l now'" using nw t l_ok by (simp add: level_of_def l refilled_alt limiter_ok_def)
  then have "fst (fst (Allow a now' l))" by (simp add: Allow_level [OF l_ok])
  moreover have "0 \<le> d" "d \<le> al_window l" using dx x xw l_ok by (auto simp: limiter_ok_def floor_le_iff) 
  ultimately show ?thesis by blast
qed

theorem retry_after_suffices_witness:
  "\<exists>l. Allow ''10.0.0.7'' 0 (after [(0, ''10.0.0.7'')] (NewAddrLimiter 1 1000000000 0)) = ((False, 1000000000), l) \<and>
     fst (fst (Allow ''10.0.0.7'' 1000000001 l))"
proof -
  let ?a = "Allow ''10.0.0.7'' 0 (after [(0, ''10.0.0.7'')] (NewAddrLimiter 1 1000000000 0))"
  have "fst ?a = (False, 1000000000)" by code_simp
  then have run: "?a = ((False, 1000000000), snd ?a)" by (metis prod.collapse)
  have "0 + retry_secs 1000000000 * second < 1000000001" by code_simp
  from retry_after_suffices [OF _ run this] run show ?thesis by auto
qed

text \<open>
  The comment on the limit calls the attempt after the last of a window's refused; the bucket
  refills while the window runs, so a minute grants more than ten: eleven in six seconds.
\<close>

lemma eleven_in_six_seconds:
  "grants Allow_ok ''10.0.0.7'' (replicate 10 (0, ''10.0.0.7'') @ [(6 * second, ''10.0.0.7'')]) (NewAddrLimiter 0 0 0) = 11"
  by code_simp

end
