(* ===== verification/Http_Ceremony.thy ===== *)
theory Http_Ceremony
  imports Http_Share Http_Limiter
begin

text \<open>
  Signing a browser in and out, and saying who is signed in:
  \<open>internal/server/http/ui_session.go\<close> (login codes, their exchange for a cookie, sign-out),
  \<open>ui_ceremony.go\<close> (invites and sign-in links) and \<open>Whoami\<close> of \<open>scope.go\<close>. The routes of the API
  are handlers over the database as in \<open>Http_Registry\<close>; the three ceremonies a browser without
  a credential may call run over the instance, as they report failures to the security log. The
  clock is read once per request. Whether an address is a loopback address (\<open>net.ParseIP\<close>,
  \<open>IP.IsLoopback\<close>) is a parameter.
\<close>

section \<open>Bodies\<close>

record sessionInfo =
  si_ID :: string
  si_Kind :: string
  si_CreatedAt :: time
  si_IdleExpiresAt :: time
  si_ExpiresAt :: time

record sharedInfo =
  sh_Owner :: string
  sh_Policies :: "string list"

record whoamiResponse =
  wh_Principal :: string
  wh_Name :: string
  wh_Provider :: string
  wh_Roles :: "string list"
  wh_Scopes :: "Scope_name list"
  wh_Via :: string
  wh_Session :: "sessionInfo option"
  wh_Shared :: "sharedInfo option"

record loginCodeResponse =
  lr_SessionRequired :: bool
  lr_Code :: string
  lr_ExpiresAt :: time
  lr_ExpiresIn :: int
  lr_LoginPath :: string

record linkResponse =
  li_URL :: string
  li_ExpiresAt :: time
  li_ExpiresIn :: int

datatype CeremonyBody =
    WhoamiBody whoamiResponse
  | LoginCodeBody loginCodeResponse
  | ExchangeBody whoamiResponse string
  | LinkBody linkResponse

type_synonym ceremony_op = "CeremonyBody handler_op"
type_synonym browser_op = "Instance \<Rightarrow> CeremonyBody Response \<times> Instance"

record uiSessionRoutes =
  ur_sessions :: "Sessions option"
  ur_cop :: "string list"
  ur_tickets :: "Tickets option"
  ur_signIn :: "string list"
  ur_publicURL :: string
  ur_sharing :: bool
  ur_env :: http_env
  ur_isLoopback :: "string \<Rightarrow> bool"

definition no_store :: "('s \<Rightarrow> CeremonyBody Response \<times> 's) \<Rightarrow> 's \<Rightarrow> CeremonyBody Response \<times> 's" where
  "no_store m s = (case m s of (resp, s') \<Rightarrow> (SetHeader ''Cache-Control'' ''no-store'' resp, s'))"

definition LoginPath :: string where "LoginPath = ''/ui/auth''"
definition InvitePath :: string where "InvitePath = ''/ui/invite''"
definition SignInPath :: string where "SignInPath = ''/ui/signin''"
definition AuthSignInInvite :: string where "AuthSignInInvite = ''invite''"
definition AuthSignInLink :: string where "AuthSignInLink = ''link''"
definition CodeSignInDisabled :: string where "CodeSignInDisabled = ''SIGN_IN_DISABLED''"
definition CodeSessionActive :: string where "CodeSessionActive = ''SESSION_ACTIVE''"
definition CodeInvalidTicket :: string where "CodeInvalidTicket = ''INVALID_TICKET''"
definition viaToken :: string where "viaToken = ''token''"
definition viaNone :: string where "viaNone = ''none''"

section \<open>Whoami\<close>

definition toSessionInfo :: "UISession \<Rightarrow> sessionInfo" where
  "toSessionInfo s =
     \<lparr>si_ID = us_ID s, si_Kind = us_Scope s, si_CreatedAt = us_CreatedAt s,
      si_IdleExpiresAt = us_IdleExpiresAt s, si_ExpiresAt = us_ExpiresAt s\<rparr>"

definition whoamiFor :: "AuthPrincipal \<Rightarrow> string \<Rightarrow> Sessions option \<Rightarrow> auth_world \<Rightarrow> whoamiResponse \<times> auth_world" where
  "whoamiFor p via sessions w =
     (let resp = \<lparr>wh_Principal = ap_ID p, wh_Name = ap_Name p, wh_Provider = ap_Provider p, wh_Roles = ap_Roles p,
                  wh_Scopes = ap_Scopes p, wh_Via = via, wh_Session = None, wh_Shared = None\<rparr>
      in if \<not> IsSession (Some p) then (resp, w)
         else case sessions of
                None \<Rightarrow> (resp\<lparr>wh_Via := ViaSession\<rparr>, w)
              | Some _ \<Rightarrow>
                  (case session_Get (meta_str (ap_Meta p) MetaSessionID) w of
                     (Inl e, w') \<Rightarrow> (resp\<lparr>wh_Via := ViaSession\<rparr>, w')
                   | (Inr s, w') \<Rightarrow> (resp\<lparr>wh_Via := ViaSession, wh_Session := Some (toSessionInfo s)\<rparr>, w')))"

definition sharedWith :: "AuthPrincipal \<Rightarrow> bool \<Rightarrow> bool \<Rightarrow> time \<Rightarrow> auth_world \<Rightarrow> sharedInfo option \<times> auth_world" where
  "sharedWith p reg shares now w =
     (if ap_ID p = OwnerPrincipal \<or> \<not> shares then (None, w)
      else case ListActiveForPrincipal (ap_ID p) now w of
             (Inl e, w1) \<Rightarrow> (None, w1)
           | (Inr active, w1) \<Rightarrow>
               if active = [] then (None, w1)
               else let (owner, w2) =
                          (if reg then (case principal_Get OwnerPrincipal w1 of
                              (Inl e, w2) \<Rightarrow> (OwnerPrincipal, w2)
                            | (Inr o', w2) \<Rightarrow> (if pw_DisplayName o' = [] then OwnerPrincipal else pw_DisplayName o', w2))
                           else (OwnerPrincipal, w1))
                    in (Some \<lparr>sh_Owner = owner, sh_Policies = sort (remdups (map (\<lambda>g. sp_Name (ag_Policy g)) active))\<rparr>, w2))"

definition Whoami ::
    "bool \<Rightarrow> Sessions option \<Rightarrow> bool \<Rightarrow> bool \<Rightarrow> AuthPrincipal option \<Rightarrow> time \<Rightarrow> ceremony_op" where
  "Whoami authEnabled sessions reg shares p now = no_store (\<lambda>w.
     if p = None \<and> authEnabled then refuse_with 401 ''UNAUTHORIZED'' ''authentication required'' w
     else (case whoamiFor (caller p) (if p = None then viaNone else viaToken) sessions w of
             (resp, w1) \<Rightarrow>
               (case sharedWith (caller p) reg shares now w1 of
                  (shared, w2) \<Rightarrow> WriteJSON 200 (WhoamiBody (resp\<lparr>wh_Shared := shared\<rparr>)) w2)))"

section \<open>Login codes and sign-out\<close>

definition mintCode :: "uiSessionRoutes \<Rightarrow> AuthPrincipal option \<Rightarrow> time \<Rightarrow> ceremony_op" where
  "mintCode u p now = no_store
     (case ur_sessions u of
        None \<Rightarrow> WriteJSON 200 (LoginCodeBody \<lparr>lr_SessionRequired = False, lr_Code = [], lr_ExpiresAt = 0, lr_ExpiresIn = 0,
                                               lr_LoginPath = ''/ui/''\<rparr>)
      | Some ss \<Rightarrow>
          call (MintCode ss p now)
            (\<lambda>e. if e = ErrNoIdentity
                  then refuse_with 403 ''KEY_HAS_NO_IDENTITY''
                    ''login codes need an API key created with dpkms auth key create (--maintenance-override on this host, dpkms stopped); a key declared in server.auth.keys cannot sign a browser in''
                  else if is_invalid e \<or> is_no_credential e
                  then refuse_with 401 ''UNAUTHORIZED'' ''login codes need an API key''
                  else refuse_with 500 ''INTERNAL_ERROR'' ''could not mint a login code'')
            (\<lambda>(code, expires). WriteJSON 201 (LoginCodeBody
                \<lparr>lr_SessionRequired = True, lr_Code = code, lr_ExpiresAt = expires,
                 lr_ExpiresIn = so_CodeTTL (ss_opts ss) div second, lr_LoginPath = LoginPath\<rparr>)))"

definition with_cookies :: "Cookie list \<Rightarrow> ('s \<Rightarrow> CeremonyBody Response \<times> 's) \<Rightarrow> 's \<Rightarrow> CeremonyBody Response \<times> 's" where
  "with_cookies cs m s = (case m s of (resp, s') \<Rightarrow> (SetCookies cs resp, s'))"

definition signOut :: "uiSessionRoutes \<Rightarrow> AuthPrincipal option \<Rightarrow> Request \<Rightarrow> ceremony_op" where
  "signOut u p r = no_store
     (if ur_sessions u = None \<or> \<not> IsSession p
      then refuse_with 400 ''NO_SESSION'' ''this request is not signed in with a browser session''
      else call (Sessions_Revoke (meta_str (ap_Meta (caller p)) MetaSessionID) RevokeReasonLogout (rq_Now r))
             (\<lambda>e. if is_not_found e then with_cookies [sessionCookie r [] 0] no_content
                  else refuse_with 500 ''INTERNAL_ERROR'' ''could not end the session'')
             (\<lambda>_. with_cookies [sessionCookie r [] 0] no_content))"

section \<open>What every ceremony checks\<close>

definition browserChecks :: "uiSessionRoutes \<Rightarrow> Sessions \<Rightarrow> Request \<Rightarrow> browser_op \<Rightarrow> browser_op" where
  "browserChecks u ss r k s =
     (if \<not> sameOriginWrite (ur_env u) (ur_cop u) r
      then (WriteError 403 ''CROSS_ORIGIN_REQUEST'' ''sign-in must come from this instance's own web UI'', s)
      else if Header_Get r HeaderCSRF \<noteq> ''1''
      then (WriteError 403 ''CSRF_HEADER_REQUIRED'' (''sign-in must send '' @ HeaderCSRF @ '': 1''), s)
      else case Request_Cookie r (SessionCookieName (rq_Host r)) of
             None \<Rightarrow> k s
           | Some v \<Rightarrow>
               if v = [] then k s
               else case Sessions_Authenticate ss v (rq_Now r) (it_world s) of
                      (Inr (p, _), w) \<Rightarrow>
                        (WriteError 409 CodeSessionActive
                           (''this browser is already signed in as '' @ ap_ID p @ '': sign out first, then open the link again''),
                         s\<lparr>it_world := w\<rparr>)
                    | (Inl e, w) \<Rightarrow> with_cookies [sessionCookie r [] 0] k (s\<lparr>it_world := w\<rparr>))"

text \<open>
  \<open>strings.EqualFold\<close> with \<open>https\<close>: the ASCII letters in either case, and the long s, which
  folds to \<open>s\<close>.
\<close>

definition says_https :: "string \<Rightarrow> bool" where
  "says_https v \<longleftrightarrow> ToLower (ReplaceAll v [CHR 0xC5, CHR 0xBF] ''s'') = ''https''"

definition trim_brackets :: "string \<Rightarrow> string" where
  "trim_brackets s =
     rev (dropWhile (\<lambda>c. c = CHR ''['' \<or> c = CHR '']'') (rev (dropWhile (\<lambda>c. c = CHR ''['' \<or> c = CHR '']'') s)))"

definition plainHTTPRemote :: "uiSessionRoutes \<Rightarrow> Request \<Rightarrow> bool" where
  "plainHTTPRemote u r \<longleftrightarrow>
     (if rq_TLS r \<noteq> None \<or> says_https (Header_Get r ''X-Forwarded-Proto'') then False
      else let host = trim_brackets (ToLower (case SplitHostPort (rq_Host r) of None \<Rightarrow> rq_Host r | Some (h, _) \<Rightarrow> h))
           in if host = ''localhost'' \<or> HasSuffix host ''.localhost'' then False else \<not> ur_isLoopback u host)"

definition plainHTTPWarning :: string where
  "plainHTTPWarning = ''this instance is reached over plain HTTP: browsers keep the Secure session cookie only over HTTPS or on localhost, so the sign-in will not stick''"

definition finishSignIn :: "uiSessionRoutes \<Rightarrow> Request \<Rightarrow> Minted \<Rightarrow> browser_op" where
  "finishSignIn u r m s =
     (case whoamiFor (mi_Principal m) ViaSession None (it_world s) of
        (who, w) \<Rightarrow>
          with_cookies [sessionCookie r (mi_Secret m) (us_ExpiresAt (mi_Session m))]
            (\<lambda>s. (respond 200 (Answer (ExchangeBody (who\<lparr>wh_Session := Some (toSessionInfo (mi_Session m))\<rparr>)
                     (if plainHTTPRemote u r then plainHTTPWarning else []))), s)) (s\<lparr>it_world := w\<rparr>))"

definition client :: "Request \<Rightarrow> ClientInfo" where
  "client r = \<lparr>ci_UserAgent = Header_Get r ''User-Agent'', ci_RemoteAddr = remoteHost r\<rparr>"

text \<open>The last step of a ceremony: spend the secret and set the cookie, or record the failure.\<close>

definition spend :: "uiSessionRoutes \<Rightarrow> Request \<Rightarrow> string \<Rightarrow> string \<Rightarrow> Minted auth_op \<Rightarrow> browser_op" where
  "spend u r code msg m s =
     (case m (it_world s) of
        (Inr minted, w) \<Rightarrow> finishSignIn u r minted (s\<lparr>it_world := w\<rparr>)
      | (Inl e, w) \<Rightarrow>
          if is_invalid e \<or> is_no_credential e
          then (WriteError 401 code msg, emit (AuthFailure (remoteHost r)) (s\<lparr>it_world := w\<rparr>))
          else (WriteError 500 ''INTERNAL_ERROR'' ''could not start a session'', s\<lparr>it_world := w\<rparr>))"

definition decode_secret :: "string option \<Rightarrow> (string \<Rightarrow> browser_op) \<Rightarrow> browser_op" where
  "decode_secret body k s =
     (case body of None \<Rightarrow> (WriteError 400 ''INVALID_REQUEST'' ''invalid JSON'', s) | Some secret \<Rightarrow> k secret s)"

definition needs_no_sign_in :: "browser_op" where
  "needs_no_sign_in s = (WriteError 404 CodeNotFound ''this instance needs no sign-in; open /ui/'', s)"

definition exchange :: "uiSessionRoutes \<Rightarrow> string option \<Rightarrow> Request \<Rightarrow> browser_op" where
  "exchange u body r = no_store
     (case ur_sessions u of
        None \<Rightarrow> needs_no_sign_in
      | Some ss \<Rightarrow> browserChecks u ss r (decode_secret body (\<lambda>code.
          spend u r ''INVALID_LOGIN_CODE'' ''this sign-in link is invalid, used or expired: run `ctxt ui open` again''
            (Exchange ss code (client r) (rq_Now r)))))"

section \<open>Invites and sign-in links\<close>

definition ceremony_fault :: "uiSessionRoutes \<Rightarrow> string \<Rightarrow> string option" where
  "ceremony_fault u name =
     (if ur_sessions u = None \<or> ur_tickets u = None
      then Some ''this instance has no browser sign-in: links need a protected or public instance running the session method''
      else if name \<notin> set (ur_signIn u)
      then Some (name @ '' links are not enabled on this instance: add '' @ he_quote (ur_env u) name @ '' to server.auth.sign_in'')
      else None)"

text \<open>\<open>ceremonyOn\<close> hands the tickets to what follows it.\<close>

definition ceremonyOn ::
    "uiSessionRoutes \<Rightarrow> string \<Rightarrow> (Tickets \<Rightarrow> 's \<Rightarrow> CeremonyBody Response \<times> 's) \<Rightarrow> 's \<Rightarrow> CeremonyBody Response \<times> 's" where
  "ceremonyOn u name k s =
     (case (ceremony_fault u name, ur_tickets u) of
        (None, Some ts) \<Rightarrow> k ts s
      | (None, None) \<Rightarrow> (WriteError 404 CodeSignInDisabled [], s)
      | (Some msg, _) \<Rightarrow> (WriteError 404 CodeSignInDisabled msg, s))"

definition round_seconds :: "int \<Rightarrow> int" where
  "round_seconds d =
     (if d < 0 then - ((- d + second div 2) div second) else (d + second div 2) div second)"

definition ticket_link :: "uiSessionRoutes \<Rightarrow> string \<Rightarrow> Issued \<Rightarrow> time \<Rightarrow> linkResponse" where
  "ticket_link u path issued now =
     \<lparr>li_URL = rev (dropWhile (\<lambda>c. c = CHR ''/'') (rev (ur_publicURL u))) @ path @ ''#t='' @ is_Secret issued,
      li_ExpiresAt = is_ExpiresAt issued, li_ExpiresIn = round_seconds (is_ExpiresAt issued - now)\<rparr>"

record inviteRequest =
  ir_DisplayName :: string
  ir_ExpiresIn :: int
  ir_Audience :: string

text \<open>The errors of \<open>MintInvite\<close> whose text starts with the package's name are the caller's.\<close>

fun callers_fault :: "AuthErr \<Rightarrow> string option" where
  "callers_fault (ErrRefused msg) = (if HasPrefix msg ''auth: '' then Some (TrimPrefix msg ''auth: '') else None)"
| "callers_fault _ = None"

definition invite_error :: "AuthErr \<Rightarrow> ceremony_op" where
  "invite_error e =
     (if is_no_credential e then refuse_with 401 ''UNAUTHORIZED'' ''authentication required''
      else if is_not_found e then refuse_with 500 ''INTERNAL_ERROR'' ''could not mint an invite''
      else case callers_fault e of
             Some msg \<Rightarrow> refuse_with 400 ''INVALID_REQUEST'' msg
           | None \<Rightarrow> refuse_with 500 ''INTERNAL_ERROR'' ''could not mint an invite'')"

definition invite_audience :: "uiSessionRoutes \<Rightarrow> string \<Rightarrow> (string \<Rightarrow> ceremony_op) \<Rightarrow> ceremony_op" where
  "invite_audience u aud k =
     (let ref = TrimSpace aud
      in if ref = [] then k []
         else if \<not> ur_sharing u then refuse_with 404 CodeNotFound ''this instance has no sharing registry''
         else call (resolveAudienceIn ref)
                (\<lambda>e. if is_not_found e then refuse_with 400 ''INVALID_REQUEST'' (''audience: no such audience '' @ ref)
                     else writeRegistryError ''audience'' e)
                (\<lambda>a. k (aud_ID a)))"

definition mintInvite :: "uiSessionRoutes \<Rightarrow> AuthPrincipal option \<Rightarrow> inviteRequest option \<Rightarrow> time \<Rightarrow> ceremony_op" where
  "mintInvite u p body now = no_store (ceremonyOn u AuthSignInInvite (\<lambda>ts. decodeRegistryBody body (\<lambda>req.
     if ir_ExpiresIn req < 0 then refuse_with 400 ''INVALID_REQUEST'' ''expires_in must be positive''
     else invite_audience u (ir_Audience req) (\<lambda>aud.
       call (MintInvite ts p \<lparr>iv_DisplayName = ir_DisplayName req, iv_AudienceID = aud,
                              iv_TTL = wrap64 (ir_ExpiresIn req * second)\<rparr> now)
         invite_error (\<lambda>issued. WriteJSON 201 (LinkBody (ticket_link u InvitePath issued now)))))))"

definition link_error :: "AuthErr \<Rightarrow> ceremony_op" where
  "link_error e =
     (if is_no_credential e then refuse_with 401 ''UNAUTHORIZED'' ''authentication required''
      else if is_not_found e then refuse_with 404 CodeNotFound ''no such principal''
      else if is_inactive e
      then refuse_with 409 CodePrincipalInactive ''the principal is suspended or revoked; a sign-in link needs an active one''
      else refuse_with 500 ''INTERNAL_ERROR'' ''could not mint a sign-in link'')"

definition mintLink :: "uiSessionRoutes \<Rightarrow> AuthPrincipal option \<Rightarrow> string \<Rightarrow> time \<Rightarrow> ceremony_op" where
  "mintLink u p i now = no_store (ceremonyOn u AuthSignInLink (\<lambda>ts. ownerGuard p i
     (call (principal_Get i) (writeRegistryError ''principal'') (\<lambda>target.
        withinCeiling p (ScopesForRoles (pw_Roles target)) (''a sign-in link for principal '' @ pw_ID target)
          (call (MintLink p i now) link_error
             (\<lambda>issued. WriteJSON 201 (LinkBody (ticket_link u SignInPath issued now))))))))"

definition redeem_ceremony ::
    "uiSessionRoutes \<Rightarrow> string \<Rightarrow> (Tickets \<Rightarrow> string \<Rightarrow> Minted auth_op) \<Rightarrow> string option \<Rightarrow> Request \<Rightarrow> browser_op" where
  "redeem_ceremony u name redeemFn body r = no_store
     (case ur_sessions u of
        None \<Rightarrow> needs_no_sign_in
      | Some ss \<Rightarrow> ceremonyOn u name (\<lambda>ts. browserChecks u ss r (decode_secret body (\<lambda>ticket.
          spend u r CodeInvalidTicket ''this link is invalid, already used or expired: ask for a new one''
            (redeemFn ts ticket)))))"

definition redeemInvite :: "uiSessionRoutes \<Rightarrow> string option \<Rightarrow> Request \<Rightarrow> browser_op" where
  "redeemInvite u body r =
     redeem_ceremony u AuthSignInInvite (\<lambda>ts secret. RedeemInvite ts secret (client r) (rq_Now r)) body r"

definition redeemLink :: "uiSessionRoutes \<Rightarrow> string option \<Rightarrow> Request \<Rightarrow> browser_op" where
  "redeemLink u body r =
     redeem_ceremony u AuthSignInLink (\<lambda>ts secret. RedeemLink ts secret (client r) (rq_Now r)) body r"

end
