(* ===== verification/Http_Ceremony_Laws.thy ===== *)
theory Http_Ceremony_Laws
  imports Http_Ceremony
begin

text \<open>
  What signing in guarantees: which browsers a ceremony signs in, what their cookie is worth,
  and that a sign-in link hands nobody more than its minter holds.
\<close>

section \<open>The three ceremonies\<close>

datatype ceremony = CodeExchange | InviteRedemption | LinkRedemption

fun run_ceremony :: "uiSessionRoutes \<Rightarrow> ceremony \<Rightarrow> string option \<Rightarrow> Request \<Rightarrow> browser_op" where
  "run_ceremony u CodeExchange body r = exchange u body r"
| "run_ceremony u InviteRedemption body r = redeemInvite u body r"
| "run_ceremony u LinkRedemption body r = redeemLink u body r"

text \<open>What a ceremony spends once the checks have passed.\<close>

fun spends :: "ceremony \<Rightarrow> Sessions \<Rightarrow> Tickets option \<Rightarrow> string \<Rightarrow> Request \<Rightarrow> Minted auth_op" where
  "spends CodeExchange ss ts secret r = Exchange ss secret (client r) (rq_Now r)"
| "spends InviteRedemption ss ts secret r = RedeemInvite (the ts) secret (client r) (rq_Now r)"
| "spends LinkRedemption ss ts secret r = RedeemLink (the ts) secret (client r) (rq_Now r)"

lemma no_store_simps [simp]:
  "rp_Cookies (fst (no_store m s)) = rp_Cookies (fst (m s))" "rp_Reply (fst (no_store m s)) = rp_Reply (fst (m s))"
  "rp_Status (fst (no_store m s)) = rp_Status (fst (m s))" "snd (no_store m s) = snd (m s)"
  by (simp_all add: no_store_def SetHeader_def split: prod.split)

lemma with_cookies_simps [simp]:
  "rp_Cookies (fst (with_cookies cs m s)) = cs @ rp_Cookies (fst (m s))" "rp_Reply (fst (with_cookies cs m s)) = rp_Reply (fst (m s))"
  "snd (with_cookies cs m s) = snd (m s)"
  by (simp_all add: with_cookies_def SetCookies_def split: prod.split)

lemma WriteError_simps [simp]:
  "rp_Cookies (WriteError status code msg) = []" "\<exists>c m. rp_Reply (WriteError status code msg) = Refusal c m"
  by (simp_all add: WriteError_def respond_def)

text \<open>
  Every ceremony answers before the checks, touching nothing, or is the checks around a spending.
\<close>

lemma redeem_on:
  assumes "ur_sessions u = Some ss" "ceremony_fault u name = None"
  obtains ts where "ur_tickets u = Some ts"
    "redeem_ceremony u name f body r s = no_store (browserChecks u ss r
       (decode_secret body (\<lambda>secret. spend u r CodeInvalidTicket
          ''this link is invalid, already used or expired: ask for a new one'' (f ts secret)))) s"
proof -
  from assms(2) obtain ts where "ur_tickets u = Some ts" by (auto simp: ceremony_fault_def split: if_splits)
  with assms show thesis by (intro that) (simp_all add: redeem_ceremony_def no_store_def ceremonyOn_def)
qed

lemma redeem_off:
  assumes "ur_sessions u = None \<or> ceremony_fault u name \<noteq> None"
  shows "snd (redeem_ceremony u name f body r s) = s" "rp_Cookies (fst (redeem_ceremony u name f body r s)) = []"
    "\<exists>code msg. rp_Reply (fst (redeem_ceremony u name f body r s)) = Refusal code msg"
  using assms
  by (auto simp: redeem_ceremony_def needs_no_sign_in_def ceremonyOn_def split: option.splits)

fun sign_in_name :: "ceremony \<Rightarrow> string" where
  "sign_in_name InviteRedemption = AuthSignInInvite"
| "sign_in_name _ = AuthSignInLink"

lemma ceremony_cases:
  obtains (off) code msg where "snd (run_ceremony u c body r s) = s" "rp_Cookies (fst (run_ceremony u c body r s)) = []"
      "rp_Reply (fst (run_ceremony u c body r s)) = Refusal code msg"
  | (on) ss code msg where "ur_sessions u = Some ss" "c \<noteq> CodeExchange \<longrightarrow> ur_tickets u \<noteq> None"
      "run_ceremony u c body r s = no_store (browserChecks u ss r
         (decode_secret body (\<lambda>secret. spend u r code msg (spends c ss (ur_tickets u) secret r)))) s"
proof (cases "ur_sessions u = None \<or> (c \<noteq> CodeExchange \<and> ceremony_fault u (sign_in_name c) \<noteq> None)")
  case True
  have "snd (run_ceremony u c body r s) = s \<and> rp_Cookies (fst (run_ceremony u c body r s)) = [] \<and>
    (\<exists>code msg. rp_Reply (fst (run_ceremony u c body r s)) = Refusal code msg)"
  proof (cases c)
    case CodeExchange
    with True show ?thesis by (simp add: exchange_def needs_no_sign_in_def)
  next
    case InviteRedemption
    with True redeem_off [of u AuthSignInInvite] show ?thesis by (simp add: redeemInvite_def)
  next
    case LinkRedemption
    with True redeem_off [of u AuthSignInLink] show ?thesis by (simp add: redeemLink_def)
  qed
  then show thesis using off by blast
next
  case False
  then obtain ss where ss: "ur_sessions u = Some ss" by auto
  show thesis
  proof (cases c)
    case CodeExchange
    show thesis
      by (rule on [OF ss, of "''INVALID_LOGIN_CODE''" "''this sign-in link is invalid, used or expired: run `ctxt ui open` again''"])
         (simp_all add: CodeExchange exchange_def ss)
  next
    case InviteRedemption
    with False have "ceremony_fault u AuthSignInInvite = None" by simp
    with ss show thesis
      by (rule redeem_on) (rule on [OF ss], simp_all add: InviteRedemption redeemInvite_def)
  next
    case LinkRedemption
    with False have "ceremony_fault u AuthSignInLink = None" by simp
    with ss show thesis
      by (rule redeem_on) (rule on [OF ss], simp_all add: LinkRedemption redeemLink_def)
  qed
qed

section \<open>A browser that is signed in stays who it is\<close>

text \<open>
  C22: no sign-in ceremony runs in a browser that is already somebody. Whatever login code, invite
  or sign-in link a request carries, when its cookie belongs to a live session the ceremony is
  refused and sets no cookie, the secret is not spent, and the database is as the look at the
  session left it: a link sent to another person's browser cannot sign it in as someone else.
\<close>

theorem live_session_is_never_replaced:
  assumes "ur_sessions u = Some ss" "Request_Cookie r (SessionCookieName (rq_Host r)) = Some v" "v \<noteq> []"
    and "Sessions_Authenticate ss v (rq_Now r) (it_world s) = (Inr (p, sess), w)"
  shows "(snd (run_ceremony u c body r s) = s \<or> snd (run_ceremony u c body r s) = s\<lparr>it_world := w\<rparr>) \<and>
    rp_Cookies (fst (run_ceremony u c body r s)) = [] \<and>
    (\<exists>code msg. rp_Reply (fst (run_ceremony u c body r s)) = Refusal code msg)"
proof (cases rule: ceremony_cases [of u c body r s])
  case (on ss' code msg)
  then show ?thesis using assms by (simp add: browserChecks_def)
qed auto

section \<open>The cookie a ceremony sets\<close>

lemma finishSignIn_run:
  "\<exists>who warn. finishSignIn u r m s =
     (\<lparr>rp_Status = 200, rp_Reply = Answer (ExchangeBody who warn),
       rp_Cookies = [sessionCookie r (mi_Secret m) (us_ExpiresAt (mi_Session m))], rp_Headers = []\<rparr>, s) \<and>
     wh_Principal who = ap_ID (mi_Principal m) \<and> wh_Scopes who = ap_Scopes (mi_Principal m) \<and>
     wh_Session who = Some (toSessionInfo (mi_Session m))"
  by (simp add: finishSignIn_def whoamiFor_def with_cookies_def SetCookies_def respond_def Let_def)

lemma spend_cookies:
  assumes "k \<in> set (rp_Cookies (fst (spend u r code msg m s)))"
  obtains minted w who warn where "m (it_world s) = (Inr minted, w)"
    "k = sessionCookie r (mi_Secret minted) (us_ExpiresAt (mi_Session minted))" "snd (spend u r code msg m s) = s\<lparr>it_world := w\<rparr>"
    "rp_Reply (fst (spend u r code msg m s)) = Answer (ExchangeBody who warn)" "wh_Principal who = ap_ID (mi_Principal minted)"
    "wh_Scopes who = ap_Scopes (mi_Principal minted)" "wh_Session who = Some (toSessionInfo (mi_Session minted))"
proof -
  obtain res w where run: "m (it_world s) = (res, w)" by (metis prod.exhaust)
  show thesis
  proof (cases res)
    case (Inl e)
    with assms run show thesis by (simp add: spend_def split: if_splits)
  next
    case (Inr minted)
    obtain who warn where "finishSignIn u r minted (s\<lparr>it_world := w\<rparr>) =
     (\<lparr>rp_Status = 200, rp_Reply = Answer (ExchangeBody who warn),
       rp_Cookies = [sessionCookie r (mi_Secret minted) (us_ExpiresAt (mi_Session minted))], rp_Headers = []\<rparr>, s\<lparr>it_world := w\<rparr>)"
     "wh_Principal who = ap_ID (mi_Principal minted)" "wh_Scopes who = ap_Scopes (mi_Principal minted)"
     "wh_Session who = Some (toSessionInfo (mi_Session minted))"
      using finishSignIn_run by blast
    with assms run Inr show thesis by (intro that [of minted w who warn]) (simp_all add: spend_def)
  qed
qed

text \<open>
  A settled operation reads the registry's tables only: unless a statement failed, it answers the
  same again on every quiet database with these tables.
\<close>

definition same_reads :: "auth_world \<Rightarrow> auth_world \<Rightarrow> bool" where
  "same_reads w v \<longleftrightarrow> wd_principals v = wd_principals w \<and> wd_identities v = wd_identities w \<and> wd_kv v = wd_kv w"

definition settled :: "'a auth_op \<Rightarrow> bool" where
  "settled m \<longleftrightarrow> (\<forall>w r w1 v. m w = (r, w1) \<longrightarrow> same_reads w w1 \<and>
     (r \<noteq> Inl ErrDatabase \<and> same_reads w v \<and> wd_faults v = [] \<longrightarrow> m v = (r, v)))"

lemma settled_base: "settled (ret x)" "settled (fail_with e)"
  by (simp_all add: settled_def ret_def fail_with_def same_reads_def)

lemma settled_query:
  assumes "\<And>w v. same_reads w v \<Longrightarrow> f v = f w"
  shows "settled (query f)"
proof -
  have same: "f (w\<lparr>wd_faults := fs\<rparr>) = f w" for w fs by (rule assms) (simp add: same_reads_def)
  have "\<exists>fs. w1 = w\<lparr>wd_faults := fs\<rparr> \<and> (r = f w \<or> r = Inl ErrDatabase)" if "query f w = (r, w1)" for w r w1
  proof (cases "wd_faults w")
    case Nil
    with that have "r = f w" "w1 = w" by (auto simp: query_def stmt_def)
    then show ?thesis by (intro exI [of _ "wd_faults w"]) simp
  next
    case (Cons b bs)
    with that same show ?thesis by (auto simp: query_def stmt_def split: if_splits)
  qed
  moreover have "query f v = (f w, v)" if "same_reads w v" "wd_faults v = []" for w v
    using assms [OF that(1)] that(2) by (simp add: query_def stmt_def)
  moreover have "same_reads w (w\<lparr>wd_faults := fs\<rparr>)" for w fs by (simp add: same_reads_def)
  ultimately show ?thesis unfolding settled_def by metis
qed

lemma settled_on_err:
  assumes "settled m" "\<And>e. settled (h e)" "h ErrDatabase = fail_with ErrDatabase" "\<And>x. settled (f x)"
  shows "settled (on_err m h f)"
proof -
  have "same_reads w w1 \<and> (r \<noteq> Inl ErrDatabase \<and> same_reads w v \<and> wd_faults v = [] \<longrightarrow> on_err m h f v = (r, v))"
    if run: "on_err m h f w = (r, w1)" for w r w1 v
  proof -
    obtain r0 w0 where m: "m w = (r0, w0)" by (metis prod.exhaust)
    with assms(1) have keep: "same_reads w w0"
      and again: "r0 \<noteq> Inl ErrDatabase \<Longrightarrow> same_reads w v \<Longrightarrow> wd_faults v = [] \<Longrightarrow> m v = (r0, v)"
      unfolding settled_def by blast+
    let ?k = "case r0 of Inl e \<Rightarrow> h e | Inr x \<Rightarrow> f x"
    have k: "?k w0 = (r, w1)" using run m by (simp add: on_err_def split: sum.splits)
    have "settled ?k" using assms(2,4) by (simp split: sum.split)
    with k keep have "same_reads w w1"
      and "r \<noteq> Inl ErrDatabase \<Longrightarrow> same_reads w v \<Longrightarrow> wd_faults v = [] \<Longrightarrow> ?k v = (r, v)"
      unfolding settled_def same_reads_def by metis+
    moreover have "r0 \<noteq> Inl ErrDatabase" if "r \<noteq> Inl ErrDatabase"
      using that k assms(3) by (auto simp: fail_with_def)
    ultimately show ?thesis using again by (auto simp: on_err_def split: sum.splits)
  qed
  then show ?thesis unfolding settled_def by blast
qed

lemma bnd_on_err: "bnd m f = on_err m fail_with f"
  by (rule ext) (simp add: bnd_def on_err_def fail_with_def split: prod.split sum.split)

lemma settled_bnd: "settled m \<Longrightarrow> (\<And>x. settled (f x)) \<Longrightarrow> settled (bnd m f)"
  unfolding bnd_on_err by (rule settled_on_err) (simp_all add: settled_base)

lemma settled_reads: "settled (identity_Get i)" "settled (principal_Get i)" "settled (kv_Get k)"
  unfolding identity_Get_def principal_Get_def kv_Get_def by (rule settled_query, simp add: same_reads_def)+

lemma settled_lk_Get: "settled (lk_Get kc k)"
  unfolding lk_Get_def lk_get_def
  by (intro settled_bnd settled_reads) (auto intro: settled_base split: option.split)

lemma settled_scopes: "local_sessions kc ss \<Longrightarrow> settled (resolve_scopes ss p idn)"
  unfolding resolve_scopes_def local_sessions_def Keys_ScopesOf_def LocalKeys_def
  by (auto intro!: settled_base settled_on_err settled_lk_Get)

lemma settled_missing: "settled (missing_invalid msg e)" "missing_invalid msg ErrDatabase = fail_with ErrDatabase"
  by (simp_all add: missing_invalid_def settled_base)

lemma settled_resolve: "local_sessions kc ss \<Longrightarrow> settled (resolve ss i pid)"
  unfolding resolve_def
  by (auto intro!: settled_on_err settled_bnd settled_reads settled_base settled_missing settled_scopes)

lemma session_Create_facts:
  assumes "session_Create x w = (Inr (), w')"
  obtains fs where "w' = w\<lparr>wd_faults := fs, wd_sessions := wd_sessions w @ [store_session x]\<rparr>"
    "\<not> list_ex (\<lambda>y. us_ID y = us_ID x \<or> us_SecretHash y = us_SecretHash x) (wd_sessions w)"
  using assms unfolding session_Create_def
  by (elim stmt_InrE) (auto split: if_splits intro: that)

lemma draws: "randomSecret w = (Inr secret, w') \<Longrightarrow> \<exists>n. w' = w\<lparr>wd_drawn := n\<rparr>"
  "newSessionID w = (Inr sid, w') \<Longrightarrow> \<exists>n. w' = w\<lparr>wd_drawn := n\<rparr>"
  unfolding randomSecret_def newSessionID_def by (auto simp: draw_def ret_def elim!: bnd_InrE)

lemma mintFor_facts:
  assumes "mintFor ss i pid kind ci now w = (Inr m, w')" "local_sessions kc ss"
  obtains p idn scopes where "\<And>v. same_reads w' v \<Longrightarrow> wd_faults v = [] \<Longrightarrow> resolve ss i pid v = (Inr (p, idn, scopes), v)"
    "mi_Principal m = sessionPrincipal p scopes (mi_Session m)"
    "us_SecretHash (mi_Session m) = HashSecret (mi_Secret m)" "us_PrincipalID (mi_Session m) = pid" "us_IdentityID (mi_Session m) = i"
    "us_RevokedAt (mi_Session m) = None" "us_IdleExpiresAt (mi_Session m) \<le> us_ExpiresAt (mi_Session m)"
    "find (\<lambda>x. us_SecretHash x = HashSecret (mi_Secret m)) (wd_sessions w') = Some (store_session (mi_Session m))"
proof -
  from assms(1) obtain p idn scopes w1 secret w2 sid w3 where res: "resolve ss i pid w = (Inr (p, idn, scopes), w1)"
    and secret: "randomSecret w1 = (Inr secret, w2)" and sid: "newSessionID w2 = (Inr sid, w3)"
    and create: "session_Create (new_session ss p idn kind ci now secret sid) w3 = (Inr (), w')"
    and m: "m = \<lparr>mi_Secret = secret, mi_Session = new_session ss p idn kind ci now secret sid,
       mi_Principal = sessionPrincipal p scopes (new_session ss p idn kind ci now secret sid)\<rparr>"
    unfolding mintFor_def Let_def by (auto simp: ret_def elim!: bnd_InrE split: prod.splits)
  obtain n n' fs where w2: "w2 = w1\<lparr>wd_drawn := n\<rparr>" and w3: "w3 = w2\<lparr>wd_drawn := n'\<rparr>"
    and w': "w' = w3\<lparr>wd_faults := fs, wd_sessions := wd_sessions w3 @ [store_session (mi_Session m)]\<rparr>"
    and new: "\<not> list_ex (\<lambda>y. us_ID y = us_ID (mi_Session m) \<or> us_SecretHash y = us_SecretHash (mi_Session m)) (wd_sessions w3)"
    using draws(1) [OF secret] draws(2) [OF sid] create by (auto simp: m elim!: session_Create_facts)
  have res_again: "same_reads w w1"
    "\<And>v. same_reads w v \<Longrightarrow> wd_faults v = [] \<Longrightarrow> resolve ss i pid v = (Inr (p, idn, scopes), v)"
    using settled_resolve [OF assms(2), of i pid] res unfolding settled_def by blast+
  have ids: "pw_ID p = pid" "id_ID idn = i" using resolve_facts [OF res assms(2)] by blast+
  show thesis
  proof (rule that)
    show "resolve ss i pid v = (Inr (p, idn, scopes), v)" if "same_reads w' v" "wd_faults v = []" for v
      using that res_again by (simp add: same_reads_def w' w3 w2)
    show "find (\<lambda>x. us_SecretHash x = HashSecret (mi_Secret m)) (wd_sessions w') = Some (store_session (mi_Session m))"
    proof -
      have hash: "us_SecretHash (mi_Session m) = HashSecret (mi_Secret m)" by (simp add: m new_session_def Let_def)
      have "\<not> list_ex (\<lambda>x. us_SecretHash x = HashSecret (mi_Secret m)) (wd_sessions w3)"
        using new unfolding hash by (auto simp: list_ex_iff)
      then show ?thesis unfolding w' by (simp add: find_append_new hash store_session_def)
    qed
  qed (simp_all add: m new_session_def Let_def ids)
qed

lemma mintFor_sticks:
  assumes "mintFor ss i pid kind ci now w = (Inr m, w')" "local_sessions kc ss" "wd_faults w' = []"
    and "toMillis t < toMillis (us_IdleExpiresAt (mi_Session m))" "mi_Secret m \<noteq> []"
  shows "\<exists>p sess v. Sessions_Authenticate ss (mi_Secret m) t w' = (Inr (p, sess), v) \<and>
    ap_ID p = ap_ID (mi_Principal m) \<and> ap_Scopes p = ap_Scopes (mi_Principal m)"
proof -
  let ?row = "store_session (mi_Session m)"
  obtain p idn scopes where res: "\<And>v. same_reads w' v \<Longrightarrow> wd_faults v = [] \<Longrightarrow> resolve ss i pid v = (Inr (p, idn, scopes), v)"
    and mp: "mi_Principal m = sessionPrincipal p scopes (mi_Session m)" and ids: "us_PrincipalID (mi_Session m) = pid" "us_IdentityID (mi_Session m) = i"
    and open_row: "us_RevokedAt (mi_Session m) = None" "us_IdleExpiresAt (mi_Session m) \<le> us_ExpiresAt (mi_Session m)"
    and row: "find (\<lambda>x. us_SecretHash x = HashSecret (mi_Secret m)) (wd_sessions w') = Some ?row"
    using mintFor_facts [OF assms(1,2)] by metis
  have "toMillis (us_IdleExpiresAt (mi_Session m)) \<le> toMillis (us_ExpiresAt (mi_Session m))"
    using open_row(2) by (simp add: toMillis_def zdiv_mono1)
  then have live: "session_live t ?row"
    using assms(4) open_row(1) by (simp add: session_live_def store_session_def)
  have "find (\<lambda>x. us_SecretHash x = HashSecret (mi_Secret m) \<and> session_live t x) (wd_sessions w') = Some ?row"
    using row live unfolding find_Some_iff by metis
  then have look: "session_Lookup (HashSecret (mi_Secret m)) t w' = (Inr ?row, w')"
    using assms(3) by (simp add: session_Lookup_def run_simps)
  have keep: "us_IdentityID ?row = i" "us_PrincipalID ?row = pid" "us_Scope ?row = us_Scope (mi_Session m)"
    by (simp_all add: store_session_def ids)
  have "resolve ss i pid w' = (Inr (p, idn, scopes), w')" using res assms(3) by (simp add: same_reads_def)
  then have active: "session_active ss (HashSecret (mi_Secret m)) t w' = (Inr (?row, p, scopes), w')"
    by (simp add: session_active_def run_simps look keep ids)
  have same: "ap_ID (sessionPrincipal p scopes x) = ap_ID (mi_Principal m) \<and> ap_Scopes (sessionPrincipal p scopes x) = ap_Scopes (mi_Principal m)"
    if "us_Scope x = us_Scope (mi_Session m)" for x
    using that by (simp add: mp sessionPrincipal_def registryPrincipal_def)
  have "\<exists>v. session_Touch (us_ID ?row) t idle w' = (Inr (), v)" for idle
  proof -
    have "?row \<in> set (wd_sessions w')" using row by (auto simp: find_Some_iff in_set_conv_nth)
    moreover have "us_RevokedAt ?row = None" using open_row by (simp add: store_session_def)
    ultimately have "filter (\<lambda>s. us_ID s = us_ID ?row \<and> us_RevokedAt s = None) (wd_sessions w') \<noteq> []"
      unfolding filter_empty_conv by blast
    then show ?thesis using assms(3) by (simp add: session_Touch_def run_simps)
  qed
  then obtain v where "session_Touch (us_ID ?row) t (t + so_IdleTTL (ss_opts ss)) w' = (Inr (), v)" by blast
  then show ?thesis
    using same [of ?row] same [of "?row\<lparr>us_LastSeenAt := _, us_IdleExpiresAt := _\<rparr>"] keep(3) assms(5)
    by (simp add: Sessions_Authenticate_def run_simps active Let_def)
qed

lemma spends_mint:
  assumes "spends c ss ts secret r w = (Inr m, w')" "c \<noteq> CodeExchange \<longrightarrow> (\<exists>t. ts = Some t \<and> ts_sessions t = ss)"
  obtains i pid kind w1 where "mintFor ss i pid kind (client r) (rq_Now r) w1 = (Inr m, w')"
proof (cases c)
  case CodeExchange
  with assms(1) show thesis
    by (auto simp: Exchange_def fail_with_def elim!: on_err_InrE split: if_splits intro: that)
next
  case InviteRedemption
  with assms show thesis
    by (auto simp: RedeemInvite_def bindAndMint_def MintFor_def fail_with_def elim!: bnd_InrE split: option.splits intro: that)
next
  case LinkRedemption
  with assms show thesis
    by (auto simp: RedeemLink_def bindAndMint_def MintFor_def elim!: bnd_InrE intro: that)
qed

lemma browserChecks_cookie:
  assumes "k \<in> set (rp_Cookies (fst (browserChecks u ss r f s)))" "ck_Value k \<noteq> []"
  obtains w cs where "sameOriginWrite (ur_env u) (ur_cop u) r" "Header_Get r HeaderCSRF = ''1''"
    "k \<in> set (rp_Cookies (fst (f (s\<lparr>it_world := w\<rparr>))))" "snd (browserChecks u ss r f s) = snd (f (s\<lparr>it_world := w\<rparr>))"
    "rp_Reply (fst (browserChecks u ss r f s)) = rp_Reply (fst (f (s\<lparr>it_world := w\<rparr>)))"
proof -
  have pass: "sameOriginWrite (ur_env u) (ur_cop u) r" "Header_Get r HeaderCSRF = ''1''"
    using assms(1) by (auto simp: browserChecks_def split: if_splits)
  have run: "browserChecks u ss r f s = (case Request_Cookie r (SessionCookieName (rq_Host r)) of
       None \<Rightarrow> f s
     | Some v \<Rightarrow> if v = [] then f s else case Sessions_Authenticate ss v (rq_Now r) (it_world s) of
           (Inr (p, _), w) \<Rightarrow> (WriteError 409 CodeSessionActive
               (''this browser is already signed in as '' @ ap_ID p @ '': sign out first, then open the link again''), s\<lparr>it_world := w\<rparr>)
         | (Inl e, w) \<Rightarrow> with_cookies [sessionCookie r [] 0] f (s\<lparr>it_world := w\<rparr>))"
    using pass by (simp add: browserChecks_def)
  show thesis
  proof (cases "\<exists>v e w. Request_Cookie r (SessionCookieName (rq_Host r)) = Some v \<and> v \<noteq> [] \<and>
      Sessions_Authenticate ss v (rq_Now r) (it_world s) = (Inl e, w)")
    case True
    then obtain v e w where "browserChecks u ss r f s = with_cookies [sessionCookie r [] 0] f (s\<lparr>it_world := w\<rparr>)"
      unfolding run by auto
    with assms pass show thesis by (intro that [of w]) (auto simp: sessionCookie_def)
  next
    case False
    then have "browserChecks u ss r f s = f s \<or> rp_Cookies (fst (browserChecks u ss r f s)) = []"
      unfolding run by (auto split: option.split sum.split prod.split)
    with assms(1) pass show thesis by (intro that [of "it_world s"]) auto
  qed
qed

text \<open>
  C23: signing in works, and only from the instance's own page. When one of the three ceremonies
  sets a cookie with a value, the request came from the instance's own pages and carried the
  CSRF header; the cookie is readable by no script, sent over secure connections and to the same
  site only; and from the state the ceremony leaves, as long as the database answers, the
  value of that cookie authenticates until the session's announced idle expiry as the principal,
  with the scopes, that the answer names.
\<close>

theorem sign_in_sticks:
  assumes "ur_sessions u = Some ss" "\<And>ts. ur_tickets u = Some ts \<Longrightarrow> ts_sessions ts = ss" "local_sessions kc ss"
    and "run_ceremony u c body r s = (resp, s')" "k \<in> set (rp_Cookies resp)" "ck_Value k \<noteq> []" "wd_faults (it_world s') = []"
  shows "sameOriginWrite (ur_env u) (ur_cop u) r \<and> Header_Get r HeaderCSRF = ''1'' \<and>
    ck_Name k = SessionCookieName (rq_Host r) \<and> ck_HttpOnly k \<and> ck_Secure k \<and> ck_SameSiteStrict k \<and>
    (\<exists>who warn info. rp_Reply resp = Answer (ExchangeBody who warn) \<and> wh_Session who = Some info \<and>
       (\<forall>t. toMillis t < toMillis (si_IdleExpiresAt info) \<longrightarrow>
          (\<exists>p sess v. Sessions_Authenticate ss (ck_Value k) t (it_world s') = (Inr (p, sess), v) \<and>
             ap_ID p = wh_Principal who \<and> ap_Scopes p = wh_Scopes who)))"
proof (cases rule: ceremony_cases [of u c body r s])
  case (off code msg)
  with assms(4,5) show ?thesis by simp
next
  case (on ss' code msg)
  then have [simp]: "ss' = ss" using assms(1) by simp
  let ?f = "decode_secret body (\<lambda>secret. spend u r code msg (spends c ss (ur_tickets u) secret r))"
  have "no_store (browserChecks u ss r ?f) s = (resp, s')" using on(3) assms(4) by simp
  then have checks: "rp_Cookies resp = rp_Cookies (fst (browserChecks u ss r ?f s))"
    "rp_Reply resp = rp_Reply (fst (browserChecks u ss r ?f s))" "s' = snd (browserChecks u ss r ?f s)"
    by (metis fst_conv snd_conv no_store_simps)+
  obtain w where own: "sameOriginWrite (ur_env u) (ur_cop u) r" "Header_Get r HeaderCSRF = ''1''"
    and k: "k \<in> set (rp_Cookies (fst (?f (s\<lparr>it_world := w\<rparr>))))" and s': "s' = snd (?f (s\<lparr>it_world := w\<rparr>))"
    and reply: "rp_Reply resp = rp_Reply (fst (?f (s\<lparr>it_world := w\<rparr>)))"
    using browserChecks_cookie [OF assms(5) [unfolded checks(1)] assms(6)] checks(2,3) by metis
  obtain secret where "body = Some secret" using k by (auto simp: decode_secret_def split: option.splits)
  then have f: "?f (s\<lparr>it_world := w\<rparr>) = spend u r code msg (spends c ss (ur_tickets u) secret r) (s\<lparr>it_world := w\<rparr>)"
    by (simp add: decode_secret_def)
  obtain m w' who warn where run: "spends c ss (ur_tickets u) secret r w = (Inr m, w')"
    and cookie: "k = sessionCookie r (mi_Secret m) (us_ExpiresAt (mi_Session m))" and w': "it_world s' = w'"
    and who: "rp_Reply resp = Answer (ExchangeBody who warn)" "wh_Principal who = ap_ID (mi_Principal m)"
      "wh_Scopes who = ap_Scopes (mi_Principal m)" "wh_Session who = Some (toSessionInfo (mi_Session m))"
    by (rule spend_cookies [OF k [unfolded f]]) (simp add: s' reply f)
  have "c \<noteq> CodeExchange \<longrightarrow> (\<exists>t. ur_tickets u = Some t \<and> ts_sessions t = ss)"
    using assms(2,4,5) on by (cases "ur_tickets u") auto
  with run obtain i pid kind w1 where "mintFor ss i pid kind (client r) (rq_Now r) w1 = (Inr m, w')" by (rule spends_mint)
  note stick = mintFor_sticks [OF this assms(3)]
  have "mi_Secret m = ck_Value k" by (simp add: cookie sessionCookie_def)
  with stick assms(6,7) w' have "\<exists>p sess v. Sessions_Authenticate ss (ck_Value k) t (it_world s') = (Inr (p, sess), v) \<and>
      ap_ID p = wh_Principal who \<and> ap_Scopes p = wh_Scopes who"
    if "toMillis t < toMillis (si_IdleExpiresAt (toSessionInfo (mi_Session m)))" for t
    using that by (simp add: who toSessionInfo_def)
  with own who show ?thesis by (simp add: cookie sessionCookie_def)
qed

section \<open>What a sign-in link is worth\<close>

lemma ticket_Issue_facts:
  assumes "ticket_Issue t now w = (Inr secret, w')"
  obtains tk where "map_of (wd_tickets w') (TicketHash secret) = Some tk" "tk_PrincipalID tk = ti_PrincipalID t" "tk_Kind tk = ti_Kind t"
proof -
  from assms obtain t1 w1 w2 fs where prep: "PrepareTicketIssue t now w = (Inr t1, w1)"
    and free: "map_of (wd_tickets w2) (TicketHash secret) = None"
    and w': "w' = w2\<lparr>wd_faults := fs, wd_tickets := wd_tickets w2 @
       [(TicketHash secret, \<lparr>tk_Kind = ti_Kind t1, tk_PrincipalID = ti_PrincipalID t1, tk_Payload = ti_Payload t1,
          tk_CreatedBy = ti_CreatedBy t1, tk_CreatedAt = stored (ti_Now t1),
          tk_ExpiresAt = stored (ti_Now t1 + ti_TTL t1), tk_RedeemedAt = None\<rparr>)]\<rparr>"
    unfolding ticket_Issue_def
    by (elim bnd_InrE stmt_InrE ret_InrE) (auto split: if_splits simp: ret_def)
  have "ti_PrincipalID t1 = ti_PrincipalID t" "ti_Kind t1 = ti_Kind t"
    using prep by (auto simp: PrepareTicketIssue_def ret_def fail_with_def split: if_splits)
  moreover have "map_of (wd_tickets w') (TicketHash secret) = Some \<lparr>tk_Kind = ti_Kind t1, tk_PrincipalID = ti_PrincipalID t1,
      tk_Payload = ti_Payload t1, tk_CreatedBy = ti_CreatedBy t1, tk_CreatedAt = stored (ti_Now t1),
      tk_ExpiresAt = stored (ti_Now t1 + ti_TTL t1), tk_RedeemedAt = None\<rparr>"
    using free by (simp add: w' map_add_def)
  ultimately show thesis using that by fastforce
qed

lemma MintLink_facts:
  assumes "MintLink p i now w = (Inr issued, w')"
  obtains tk where "map_of (wd_tickets w') (TicketHash (is_Secret issued)) = Some tk" "tk_PrincipalID tk = i"
proof -
  obtain q where p: "p = Some q" using assms by (cases p) (auto simp: MintLink_def fail_with_def)
  let ?issue = "\<lambda>row. ticket_Issue \<lparr>ti_Kind = TicketKindMagicLink, ti_Payload = [], ti_TTL = MagicLinkTTL,
       ti_CreatedBy = ap_ID q, ti_PrincipalID = pw_ID row, ti_Now = now\<rparr> now"
  from assms obtain row w1 where get: "principal_Get i w = (Inr row, w1)"
    and rest: "bnd (?issue row) (\<lambda>secret. ret \<lparr>is_Secret = secret, is_ExpiresAt = now + MagicLinkTTL\<rparr>) w1 = (Inr issued, w')"
    unfolding MintLink_def p by (auto simp: fail_with_def split: if_splits elim!: bnd_InrE)
  from rest have issue: "?issue row w1 = (Inr (is_Secret issued), w')" by (rule bnd_InrE) (auto simp: ret_def)
  have "pw_ID row = i" using get by (rule principal_Get_facts)
  with issue show thesis by (elim ticket_Issue_facts) (auto intro: that)
qed

lemma ticket_keeps_principal:
  assumes "registry_order w w'" "db_ok w'" "map_of (wd_tickets w) h = Some t"
  obtains t' where "map_of (wd_tickets w') h = Some t'" "tk_PrincipalID t' = tk_PrincipalID t"
proof -
  obtain y where y: "y \<in> set (wd_tickets w')" "ticket_step (h, t) y"
    using assms(1) map_of_SomeD [OF assms(3)] unfolding registry_order_def by (blast dest: evolvesD)
  then have "(h, snd y) \<in> set (wd_tickets w')" "tk_PrincipalID (snd y) = tk_PrincipalID t"
    by (cases y, auto simp: ticket_step_def)+
  with assms(2) show thesis by (intro that [of "snd y"]) (auto simp: db_ok_def intro: map_of_is_SomeI)
qed

lemma principal_keeps_roles:
  assumes "registry_order w w'" "db_ok w'" "p \<in> set (wd_principals w)" "q \<in> set (wd_principals w')" "pw_ID q = pw_ID p"
  shows "pw_Roles q = pw_Roles p"
proof -
  obtain p' where p': "p' \<in> set (wd_principals w')" "principal_step p p'"
    using assms(1,3) unfolding registry_order_def by (blast dest: evolvesD)
  then have "q = p'" using principal_unique [OF assms(2,4) p'(1)] assms(5) by (simp add: principal_step_def)
  with p' show ?thesis by (simp add: principal_step_def)
qed

lemma refusal_no_answer [simp]: "rp_Reply (WriteError status code msg) \<noteq> Answer b"
  by (simp add: WriteError_def respond_def)

lemma mintLink_minted:
  assumes "mintLink u p i now w = (resp, w')" "rp_Reply resp = Answer (LinkBody l)"
  obtains target w1 issued where "principal_Get i w = (Inr target, w1)" "MintLink p i now w1 = (Inr issued, w')"
    "l = ticket_link u SignInPath issued now" "set (ScopesForRoles (pw_Roles target)) \<subseteq> set (callerCeiling p)"
    "i = OwnerPrincipal \<longrightarrow> IsSelf (Some (caller p)) OwnerPrincipal"
proof -
  have answers: "rp_Reply (fst (mintLink u p i now w)) = Answer (LinkBody l)" "snd (mintLink u p i now w) = w'"
    using assms by simp_all
  have guard: "i = OwnerPrincipal \<longrightarrow> IsSelf (Some (caller p)) OwnerPrincipal"
    using answers(1) by (auto simp: mintLink_def ceremonyOn_def ownerGuard_def refuse_with_def reply_def split: option.splits if_splits)
  let ?mint = "call (MintLink p i now) link_error (\<lambda>issued. WriteJSON 201 (LinkBody (ticket_link u SignInPath issued now)))"
  have run: "rp_Reply (fst (call (principal_Get i) (writeRegistryError ''principal'') (\<lambda>target.
        withinCeiling p (ScopesForRoles (pw_Roles target)) (''a sign-in link for principal '' @ pw_ID target) ?mint) w)) = Answer (LinkBody l)"
    "snd (call (principal_Get i) (writeRegistryError ''principal'') (\<lambda>target.
        withinCeiling p (ScopesForRoles (pw_Roles target)) (''a sign-in link for principal '' @ pw_ID target) ?mint) w) = w'"
    using answers by (auto simp: mintLink_def ceremonyOn_def ownerGuard_def refuse_with_def reply_def split: option.splits if_splits)
  obtain target w1 where get: "principal_Get i w = (Inr target, w1)"
    and within: "exceeds (callerCeiling p) (ScopesForRoles (pw_Roles target)) = None"
    and mint: "rp_Reply (fst (?mint w1)) = Answer (LinkBody l)" "snd (?mint w1) = w'"
    using run by (auto simp: call_def withinCeiling_def writeRegistryError_def refuse_with_def reply_def
        split: prod.splits sum.splits option.splits if_splits)
  obtain issued where "MintLink p i now w1 = (Inr issued, w')" "l = ticket_link u SignInPath issued now"
    using mint by (auto simp: call_def link_error_def refuse_with_def reply_def WriteJSON_def respond_def
        split: prod.splits sum.splits if_splits)
  moreover have "set (ScopesForRoles (pw_Roles target)) \<subseteq> set (callerCeiling p)"
    using within by (auto simp: exceeds_def find_None_iff)
  ultimately show thesis using get guard by (intro that)
qed

lemma ticket_link_secret:
  "ticket_link u path a now = ticket_link u path b now \<Longrightarrow> is_Secret a = is_Secret b"
  by (simp add: ticket_link_def)

lemma redeemed_link:
  assumes "RedeemLink ts secret ci t w = (Inr m, w')" "local_sessions kc (ts_sessions ts)" "backed kc w"
    and "map_of (wd_tickets w) (TicketHash secret) = Some tk"
  obtains q w1 where "q \<in> set (wd_principals w1)" "pw_ID q = tk_PrincipalID tk" "registry_order w w1" "db_ok w1"
    "ap_ID (mi_Principal m) = tk_PrincipalID tk"
    "set (ap_Scopes (mi_Principal m)) \<subseteq> set (ScopesForRoles (pw_Roles q)) \<union> set sessionOnlyScopes"
proof -
  from assms(1) obtain tk' wa idn wb where red: "redeem TicketKindMagicLink secret t w = (Inr tk', wa)"
    and bind: "identity_Create (link_identity (tk_PrincipalID tk') (TicketHash secret) ''sign-in link'' t) t wa = (Inr idn, wb)"
    and mint: "mintFor (ts_sessions ts) (id_ID idn) (tk_PrincipalID tk') SessionKindUI ci t wb = (Inr m, w')"
    unfolding RedeemLink_def bindAndMint_def MintFor_def by (auto elim!: bnd_InrE)
  have link: "id_Method (link_identity (tk_PrincipalID tk') (TicketHash secret) ''sign-in link'' t) \<noteq> IdentityMethodAPIKey"
    by (simp add: link_identity_def IdentityMethodLink_def IdentityMethodAPIKey_def)
  have order: "registry_order w wa" "registry_order wa wb" "backed_order w wa" "backed_order wa wb"
    using obeysD [OF reg.redeem red] obeysD [OF reg.link_Create [OF link] bind]
      obeysD [OF bko.redeem red] obeysD [OF bko.link_Create [OF link] bind] by simp_all
  have ok: "backed kc wa" "backed kc wb" using backed_closed order(3,4) assms(3) by blast+
  have pid: "tk_PrincipalID tk' = tk_PrincipalID tk"
    using redeem_facts(1) [OF red] ticket_keeps_principal [OF order(1) _ assms(4)] ok(1) by (auto simp: backed_def)
  obtain q idn2 scopes wc sess where res: "resolve (ts_sessions ts) (id_ID idn) (tk_PrincipalID tk) wb = (Inr (q, idn2, scopes), wc)"
    and m: "mi_Principal m = sessionPrincipal q scopes sess"
    using mint unfolding mintFor_def pid Let_def by (auto simp: ret_def elim!: bnd_InrE split: prod.splits)
  have q: "q \<in> set (wd_principals wb)" "pw_ID q = tk_PrincipalID tk" "set scopes \<subseteq> set (ScopesForRoles (pw_Roles q))"
    using resolve_facts [OF res assms(2)] ok(2) by (auto simp: backed_def)
  show thesis
  proof (rule that [OF q(1,2)])
    show "registry_order w wb" using order(1,2) by (rule reg.trans)
    show "db_ok wb" using ok(2) by (simp add: backed_def)
    show "ap_ID (mi_Principal m) = tk_PrincipalID tk" by (simp add: m sessionPrincipal_def registryPrincipal_def q(2))
    show "set (ap_Scopes (mi_Principal m)) \<subseteq> set (ScopesForRoles (pw_Roles q)) \<union> set sessionOnlyScopes"
      using q(3) SessionScopesFor_within by (fastforce simp: m sessionPrincipal_def registryPrincipal_def)
  qed
qed

text \<open>
  C21: a sign-in link hands out nothing its minter does not hold. On an instance that some history
  of a new database led to, when the link route answers a link, then whenever that link is
  followed later, after any further history, the browser is signed in as the principal the link was
  asked for, with scopes the minter held within its roles when it asked (and those only browser
  sessions have); and a link for the owner was minted by the owner.
\<close>

theorem minted_link_never_widens:
  assumes "migrate048AuthRegistry t0 (empty_world rnd fs) = (Inr (), w0)" "built_site S" "codec_ok (si_codec S)" "history S w0 w"
    and "mintLink u p i now w = (resp, w1)" "rp_Reply resp = Answer (LinkBody (ticket_link u SignInPath issued now))"
    and "history S w1 w2" "RedeemLink (site_tickets S) (is_Secret issued) ci t w2 = (Inr m, w3)"
  shows "ap_ID (mi_Principal m) = i \<and> set (ap_Scopes (mi_Principal m)) \<subseteq> set (callerCeiling p) \<union> set sessionOnlyScopes \<and>
    (i = OwnerPrincipal \<longrightarrow> IsSelf (Some (caller p)) OwnerPrincipal)"
proof -
  obtain target wa iss where get: "principal_Get i w = (Inr target, wa)" and mint: "MintLink p i now wa = (Inr iss, w1)"
    and l: "ticket_link u SignInPath issued now = ticket_link u SignInPath iss now"
    and ceiling: "set (ScopesForRoles (pw_Roles target)) \<subseteq> set (callerCeiling p)"
    and owner: "i = OwnerPrincipal \<longrightarrow> IsSelf (Some (caller p)) OwnerPrincipal"
    using mintLink_minted [OF assms(5,6)] by metis
  obtain tk where tk: "map_of (wd_tickets w1) (TicketHash (is_Secret issued)) = Some tk" "tk_PrincipalID tk = i"
    using mint ticket_link_secret [OF l] by (metis MintLink_facts)
  have target: "target \<in> set (wd_principals w)" "pw_ID target = i" using get by (auto elim: principal_Get_facts)
  have reg1: "registry_order w w1" using reg.trans [OF obeysD [OF reg.reads(1) get] obeysD [OF reg.MintLink mint]] .
  have bk: "backed (si_codec S) w" by (rule history_backed [OF assms(4,2,3) migrated_backed [OF assms(1)]])
  have bk1: "backed (si_codec S) w1"
    by (rule backed_closed [OF bk bko.trans [OF obeysD [OF bko.reads(1) get] obeysD [OF bko.MintLink mint]]])
  have bk2: "backed (si_codec S) w2" by (rule history_backed [OF assms(7,2,3) bk1])
  have reg2: "registry_order w1 w2" by (rule reg.history_store [OF assms(7,2)])
  obtain tk2 where tk2: "map_of (wd_tickets w2) (TicketHash (is_Secret issued)) = Some tk2" "tk_PrincipalID tk2 = i"
    using ticket_keeps_principal [OF reg2 _ tk(1)] bk2 tk(2) by (auto simp: backed_def)
  have ss: "local_sessions (si_codec S) (ts_sessions (site_tickets S))" using assms(2) by (simp add: built_site_def site_tickets_def)
  obtain q wq where q: "q \<in> set (wd_principals wq)" "pw_ID q = i" "registry_order w2 wq" "db_ok wq" "ap_ID (mi_Principal m) = i"
    "set (ap_Scopes (mi_Principal m)) \<subseteq> set (ScopesForRoles (pw_Roles q)) \<union> set sessionOnlyScopes"
    using redeemed_link [OF assms(8) ss bk2 tk2(1)] unfolding tk2(2) by metis
  have "pw_Roles q = pw_Roles target"
    using principal_keeps_roles [OF reg.trans [OF reg.trans [OF reg1 reg2] q(3)] q(4) target(1) q(1)] q(2) target(2) by simp
  with q ceiling owner show ?thesis by auto
qed

end
