(* ===== verification/Http_Access.thy ===== *)
theory Http_Access
  imports Http_Gate
begin

text \<open>
  What the gate of the HTTP API guarantees: the middlewares of \<open>Http_Gate\<close> stacked the way
  \<open>serve\<close> stacks them, on the chain that \<open>buildAuth\<close> makes, for every handler.
\<close>

section \<open>The stack\<close>

interpretation scp: gate_pair "RequireScope scope" "scope_lets scope"
  "RequireCapability meth pattern" "capability_lets meth pattern" for scope meth pattern ..

interpretation mnt: gate_pair "Visibility env cfg meth pattern scope" "visibility_lets meth pattern scope"
  "\<lambda>h. RequireScope scope (RequireCapability meth pattern h)"
  "\<lambda>ctx r s c s'. \<exists>c1 s1. scope_lets scope ctx r s c1 s1 \<and> capability_lets meth pattern c1 r s1 c s'"
  for env cfg meth pattern scope ..

interpretation srv: gate_pair "RequireAuth env chain devCORS" "auth_lets env chain devCORS"
  "\<lambda>h. Visibility env cfg meth pattern scope (RequireScope scope (RequireCapability meth pattern h))"
  "\<lambda>ctx r s c s'. \<exists>c1 s1. visibility_lets meth pattern scope ctx r s c1 s1 \<and>
     (\<exists>c2 s2. scope_lets scope c1 r s1 c2 s2 \<and> capability_lets meth pattern c2 r s2 c s')"
  for env chain devCORS cfg meth pattern scope ..

lemma serve_stack:
  "rr_Auth rc = Some chain \<Longrightarrow>
   serve env rc rt h = RequireAuth env chain (rr_DevCORS rc)
     (Visibility env (rr_Visibility rc) (rt_Method rt) (rt_Pattern rt) (rt_Scope rt)
       (RequireScope (rt_Scope rt) (RequireCapability (rt_Method rt) (rt_Pattern rt) h)))"
  by (simp add: serve_def mountAPIRoute_def Let_def)

lemma previewContext_simps [simp]:
  "rc_auth (previewContext ctx pv t) = rc_auth ctx" "rc_viewer (previewContext ctx pv t) = Some pv"
  by (simp_all add: previewContext_def WithViewer_def)

lemma seen_as_auth: "seen_as meth scope ctx r s c s' \<Longrightarrow> rc_auth c = rc_auth ctx"
  by (auto simp: seen_as_def Let_def split: if_splits)

lemma seen_as_restricted:
  "seen_as meth scope ctx r s c s' \<Longrightarrow> rc_viewer ctx = Some v \<Longrightarrow> \<not> IsUnrestricted v \<Longrightarrow> c = ctx \<and> s' = s"
  by (auto simp: seen_as_def Let_def split: if_splits)

lemma visibility_lets_facts:
  assumes "visibility_lets meth pattern scope ctx r s c s'" "rc_viewer ctx = Some v"
  shows "rc_auth c = rc_auth ctx \<and>
    (IsUnrestricted v \<or> rc_viewer c = Some v) \<and>
    ((\<exists>v'. rc_viewer c = Some v' \<and> IsUnrestricted v') \<or> rc_ledger c = Some NewLedger)"
proof -
  from assms(1) obtain c1 where seen: "seen_as meth scope ctx r s c1 s'"
    and c: "c = c1 \<and> (\<exists>v. rc_viewer c1 = Some v \<and> IsUnrestricted v) \<or> c = c1\<lparr>rc_ledger := Some NewLedger\<rparr>"
    by (auto simp: visibility_lets_def split: if_splits)
  have "IsUnrestricted v \<or> c1 = ctx" using seen_as_restricted [OF seen assms(2)] by blast
  with c assms(2) seen_as_auth [OF seen] show ?thesis by auto
qed

text \<open>Everything a request that reaches its handler has passed.\<close>

definition admitted ::
    "http_env \<Rightarrow> Chain \<Rightarrow> bool \<Rightarrow> apiRoute \<Rightarrow> Request \<Rightarrow> Instance \<Rightarrow> Context \<Rightarrow> AuthPrincipal \<Rightarrow> Viewer \<Rightarrow> bool" where
  "admitted env chain devCORS rt r s c p v \<longleftrightarrow>
     (\<exists>res. fst (Chain_Authenticate chain (credentialFromRequest r) (rq_Now r) (it_world s)) = (res, None) \<and>
        re_Principal res = Some p \<and> (re_Ambient res \<longrightarrow> browserRules env (newSessionCOP devCORS) r = None)) \<and>
     cx_principal (rc_auth c) = Some p \<and> rt_Scope rt \<in> set (ap_Scopes p) \<and>
     rc_viewer c = Some v \<and> route_open (rt_Method rt) (rt_Pattern rt) v"

lemma cx_Attach: "cx_principal (Attach ctx (Some p)) = Some p"
  by (simp add: Attach_def WithPrincipal_def)

lemma serve_lawful:
  assumes "rr_Auth rc = Some chain"
  obtains (refused) out where "\<And>h. serve env rc rt h ctx r s = out"
  | (reached) c s' fin p v v0 where "\<And>h. serve env rc rt h ctx r s = fin (h c r s')"
      "admitted env chain (rr_DevCORS rc) rt r s c p v"
      "fst (Resolve (it_viewers s) (rq_Now r) (ap_ID p) (ap_Kind p) (meta_str (ap_Meta p) MetaIdentityID)) = Inr v0"
      "IsUnrestricted v0 \<or> v = v0" "IsUnrestricted v \<or> rc_ledger c = Some NewLedger"
proof (rule srv.stack.gateE [of env chain "rr_DevCORS rc" "rr_Visibility rc" "rt_Method rt" "rt_Pattern rt" "rt_Scope rt" ctx r s])
  fix out
  assume "\<And>h. RequireAuth env chain (rr_DevCORS rc)
     (Visibility env (rr_Visibility rc) (rt_Method rt) (rt_Pattern rt) (rt_Scope rt)
       (RequireScope (rt_Scope rt) (RequireCapability (rt_Method rt) (rt_Pattern rt) h))) ctx r s = out"
  then show thesis using refused serve_stack [OF assms] by metis
next
  fix c s' fin
  assume lets: "\<exists>c1 s1. auth_lets env chain (rr_DevCORS rc) ctx r s c1 s1 \<and>
      (\<exists>c2 s2. visibility_lets (rt_Method rt) (rt_Pattern rt) (rt_Scope rt) c1 r s1 c2 s2 \<and>
        (\<exists>c3 s3. scope_lets (rt_Scope rt) c2 r s2 c3 s3 \<and> capability_lets (rt_Method rt) (rt_Pattern rt) c3 r s3 c s'))"
    and fin: "\<And>h. RequireAuth env chain (rr_DevCORS rc)
     (Visibility env (rr_Visibility rc) (rt_Method rt) (rt_Pattern rt) (rt_Scope rt)
       (RequireScope (rt_Scope rt) (RequireCapability (rt_Method rt) (rt_Pattern rt) h))) ctx r s = fin (h c r s')"
  from lets obtain c1 s1 where auth: "auth_lets env chain (rr_DevCORS rc) ctx r s c1 s1"
    and vis: "visibility_lets (rt_Method rt) (rt_Pattern rt) (rt_Scope rt) c1 r s1 c s'"
    and scope: "HasScope (cx_principal (rc_auth c)) (rt_Scope rt)"
    and acc: "\<exists>v. rc_viewer c = Some v \<and> route_open (rt_Method rt) (rt_Pattern rt) v"
    by (auto simp: scope_lets_def capability_lets_def)
  from auth obtain res w p v0 vs where chain:
      "Chain_Authenticate chain (credentialFromRequest r) (rq_Now r) (it_world s) = ((res, None), w)"
      "re_Principal res = Some p" "re_Ambient res \<longrightarrow> browserRules env (newSessionCOP (rr_DevCORS rc)) r = None"
    and v0: "Resolve (it_viewers s) (rq_Now r) (ap_ID p) (ap_Kind p) (meta_str (ap_Meta p) MetaIdentityID) = (Inr v0, vs)"
    and c1: "rc_auth c1 = Attach (rc_auth ctx) (Some p)" "rc_viewer c1 = Some v0"
    by (auto simp: auth_lets_def)
  from acc obtain v where v: "rc_viewer c = Some v" "route_open (rt_Method rt) (rt_Pattern rt) v" by blast
  from visibility_lets_facts [OF vis c1(2)] v c1(1)
  have facts: "rc_auth c = Attach (rc_auth ctx) (Some p)" "IsUnrestricted v0 \<or> v = v0"
      "IsUnrestricted v \<or> rc_ledger c = Some NewLedger" by auto
  show thesis
  proof (rule reached)
    show "serve env rc rt h ctx r s = fin (h c r s')" for h using fin by (simp add: serve_stack [OF assms])
    show "admitted env chain (rr_DevCORS rc) rt r s c p v"
      using chain scope v facts(1) by (simp add: admitted_def cx_Attach HasScope_def)
    show "fst (Resolve (it_viewers s) (rq_Now r) (ap_ID p) (ap_Kind p) (meta_str (ap_Meta p) MetaIdentityID)) = Inr v0"
      using v0 by simp
  qed (use facts in blast)+
qed

section \<open>Who reaches a handler\<close>


section \<open>What a browser session reaches\<close>

lemma session_method_scopes:
  assumes "SessionMethod_Authenticate ss cred now w = (Inr (Some p), w')"
  shows "set (ap_Scopes p) \<subseteq> set UISessionScopes"
proof -
  from assms obtain q sess w1 where "Sessions_Authenticate ss (cr_Cookie cred) now w = (Inr (q, sess), w1)" "p = q"
    by (auto simp: SessionMethod_Authenticate_def ret_def fail_with_def split: if_splits elim!: on_err_InrE)
  then obtain row scopes s1 where "p = sessionPrincipal row scopes s1"
    by (auto simp: Sessions_Authenticate_def ret_def fail_with_def Let_def split: if_splits prod.splits elim!: bnd_InrE)
  then show ?thesis
    by (auto simp: sessionPrincipal_def registryPrincipal_def SessionScopesFor_def SessionScopes_def split: if_splits)
qed

lemma ambient_scopes:
  assumes "built_chain kc ms" "run_methods ms cred now w = ((res, None), w')" "re_Ambient res" "re_Principal res = Some p"
  shows "set (ap_Scopes p) \<subseteq> set UISessionScopes"
  using assms
proof (induction ms arbitrary: w)
  case (Cons m ms)
  obtain a w1 where a: "am_Authenticate m cred now w = (a, w1)" by (metis prod.exhaust)
  show ?case
  proof (cases "a = Inr None")
    case True
    with Cons.prems a show ?thesis by (intro Cons.IH [of w1]) (auto simp: built_chain_def)
  next
    case False
    with Cons.prems(2,3,4) a have p: "a = Inr (Some p)" and "am_Ambient m"
      by (auto split: sum.splits option.splits)
    with Cons.prems(1) obtain opts where "m = SessionMethod (backed_sessions kc opts)"
      by (auto simp: built_chain_def APIKeyMethod_def)
    with a p show ?thesis by (auto simp: SessionMethod_def intro!: session_method_scopes)
  qed
qed simp

text \<open>\<open>chi\<close> serves a request on a route of its method, or on one mounted on every method.\<close>

definition matches_route :: "apiRoute \<Rightarrow> Request \<Rightarrow> bool" where
  "matches_route rt r \<longleftrightarrow> rt_Method rt = [] \<or> rq_Method r = rt_Method rt"

definition same_origin_evidence :: "http_env \<Rightarrow> bool \<Rightarrow> Request \<Rightarrow> bool" where
  "same_origin_evidence env devCORS r \<longleftrightarrow>
     Header_Get r ''Sec-Fetch-Site'' \<in> {''same-origin'', ''none''} \<or>
     (devCORS \<and> Header_Get r ''Origin'' \<in> set allowedDevOrigins) \<or>
     (Header_Get r ''Sec-Fetch-Site'' = [] \<and> Header_Get r ''Origin'' \<noteq> [] \<and>
      he_url_host env (Header_Get r ''Origin'') = Some (rq_Host r))"

lemma browserRules_write:
  assumes "browserRules env (newSessionCOP devCORS) r = None" "\<not> isSafeMethod (rq_Method r)"
  shows "Header_Get r HeaderCSRF = ''1''" "same_origin_evidence env devCORS r"
  using assms
  by (auto simp: browserRules_def sameOriginWrite_def cop_Check_def newSessionCOP_def same_origin_evidence_def Let_def
      split: if_splits)

lemma session_route_write:
  assumes "rt \<in> set apiRoutes" "rt_Scope rt \<in> set UISessionScopes" "\<not> isSafeMethod (rt_Method rt)"
  shows "(rt_Method rt, rt_Pattern rt) \<in> set session_writes"
  unfolding session_writes_exact [symmetric] using assms by auto

text \<open>
  C19: a page of another site can change nothing with the cookie of a browser session. When a
  request that is not a read was authenticated by an ambient credential and its handler makes a
  difference, it carries the CSRF header and evidence that it comes from the instance's own pages
  (or, only with devCORS, from the development server), its route needs a scope of the web UI's
  sessions, and it is one of the twenty such routes that are listed in session_writes.
\<close>

theorem ambient_writes_are_guarded:
  assumes "buildAuth kc lay cfg t1 wb = (Inr (chain, so), wb')" "rr_Auth rc = Some chain"
    and "serve env rc rt h fresh_context r s \<noteq> serve env rc rt g fresh_context r s"
    and "fst (Chain_Authenticate chain (credentialFromRequest r) (rq_Now r) (it_world s)) = (res, err)" "re_Ambient res"
    and "rt \<in> set apiRoutes" "matches_route rt r" "\<not> isSafeMethod (rq_Method r)"
  shows "Header_Get r HeaderCSRF = ''1'' \<and> same_origin_evidence env (rr_DevCORS rc) r \<and>
    rt_Scope rt \<in> set UISessionScopes \<and> (rt_Method rt, rt_Pattern rt) \<in> set session_writes"
  using assms(2)
proof (cases rule: serve_lawful [of rc chain env rt fresh_context r s])
  case (refused out)
  with assms(3) show ?thesis by simp
next
  case (reached c s' fin p v v0)
  then have p: "re_Principal res = Some p" "err = None" "browserRules env (newSessionCOP (rr_DevCORS rc)) r = None"
      "rt_Scope rt \<in> set (ap_Scopes p)"
    using assms(4,5) by (auto simp: admitted_def)
  obtain w where "run_methods (ch_methods chain) (credentialFromRequest r) (rq_Now r) (it_world s) = ((res, None), w)"
    using assms(4) p(2) by (metis Chain_Authenticate_def prod.collapse)
  then have ui: "rt_Scope rt \<in> set UISessionScopes"
    using ambient_scopes [of kc "ch_methods chain"] buildAuth_facts [OF assms(1)] assms(5) p(1,4) by blast
  have "\<not> isSafeMethod (rt_Method rt)" using assms(7,8) by (auto simp: matches_route_def)
  from session_route_write [OF assms(6) ui this] ui browserRules_write [OF p(3) assms(8)] show ?thesis by blast
qed

section \<open>What leaves for a restricted viewer\<close>

text \<open>
  What a body that passed the backstop is: the text that the handler wrote, checked against the
  ledger the handler left.
\<close>

definition checked_body :: "http_env \<Rightarrow> bool \<Rightarrow> Shape \<Rightarrow> string \<Rightarrow> Ledger option \<Rightarrow> string \<Rightarrow> bool" where
  "checked_body env strict shape written l body \<longleftrightarrow>
     (\<exists>res. Backstop (he_codec env) written (HTTPPaths shape) l = Inr res \<and> \<not> bs_Absent res \<and>
        body = bs_Body res \<and> (bs_Hits res = [] \<or> \<not> strict))"

lemma WriteError_reply [simp]: "rp_Reply (WriteError status code msg) \<noteq> Answer body"
  by (simp add: WriteError_def respond_def)

lemma check_response_answer:
  assumes "check_response env strict route shape v ctx r ((resp0, l0), s0) = ((resp, l), s')" "rp_Reply resp = Answer body"
  shows "l = l0 \<and> checked_body env strict shape (wire env (rp_Reply resp0)) l body \<and>
    it_audit s' = Record (it_audit s0) (Some (AccessEntryFor (rc_preview ctx) v route l (rq_Now r))) \<and>
    rp_Status resp = rp_Status resp0"
proof (cases "Backstop (he_codec env) (wire env (rp_Reply resp0)) (HTTPPaths shape) l0")
  case (Inl e)
  then show ?thesis using assms by (auto simp: check_response_def Let_def)
next
  case (Inr res)
  consider (hit) "bs_Hits res \<noteq> [] \<and> strict" | (absent) "\<not> (bs_Hits res \<noteq> [] \<and> strict)" "bs_Absent res"
    | (sent) "\<not> (bs_Hits res \<noteq> [] \<and> strict)" "\<not> bs_Absent res" by blast
  then show ?thesis
  proof cases
    case hit
    then show ?thesis using assms Inr by (auto simp: check_response_def Let_def)
  next
    case absent
    then show ?thesis using assms Inr by (auto simp: check_response_def Let_def split: if_splits)
  next
    case sent
    then have "resp = resp0\<lparr>rp_Reply := Answer (bs_Body res)\<rparr>" "l = l0"
        "it_audit s' = Record (it_audit s0) (Some (AccessEntryFor (rc_preview ctx) v route l (rq_Now r)))"
      using assms Inr by (auto simp: check_response_def Let_def emit_def split: if_splits)
    then show ?thesis using assms(2) Inr sent by (auto simp: checked_body_def)
  qed
qed

lemma behind_restricted:
  assumes "\<not> IsUnrestricted v"
    and "RequireScope scope (RequireCapability meth pattern h) c r s = ((resp, l), s')"
  shows "h c r s = ((resp, l), s') \<or> ((\<exists>code msg. rp_Reply resp = Refusal code msg) \<and> l = rc_ledger c \<and> it_audit s' = it_audit s)"
  using assms
  by (auto simp: RequireScope_def RequireCapability_def refuse_def unauthorized_def SetHeader_def writeInsufficientScope_def
      WriteError_def respond_def emit_def Let_def split: option.splits prod.splits if_splits)

text \<open>
  C12: nothing leaves for a restricted viewer unchecked. For a principal whose viewer is
  restricted, whatever handler stands on the route, an answer that is not one of the gate's own
  refusals has a declared shape, was computed with that viewer and a fresh ledger in the context
  (or is an inner refusal), passed the backstop against the ledger that the handler left, with no
  hit at all on a strict instance; and its read is in the audit, under the principal's own viewer.
\<close>

theorem restricted_answers_are_checked:
  assumes "rr_Auth rc = Some chain"
    and "fst (Chain_Authenticate chain (credentialFromRequest r) (rq_Now r) (it_world s)) = (res, None)"
    and "re_Principal res = Some p"
    and "fst (Resolve (it_viewers s) (rq_Now r) (ap_ID p) (ap_Kind p) (meta_str (ap_Meta p) MetaIdentityID)) = Inr v"
    and "\<not> IsUnrestricted v"
    and "serve env rc rt h fresh_context r s = ((resp, l), s')" "rp_Reply resp = Answer body"
  shows "\<exists>shape c s0 resp0 s1. RouteShape (rt_Method rt) (rt_Pattern rt) = Some shape \<and>
    cx_principal (rc_auth c) = Some p \<and> rc_viewer c = Some v \<and> rc_ledger c = Some NewLedger \<and>
    (h c r s0 = ((resp0, l), s1) \<or> (\<exists>code msg. rp_Reply resp0 = Refusal code msg) \<and> l = Some NewLedger \<and> it_audit s1 = it_audit s) \<and>
    checked_body env (vc_Strict (rr_Visibility rc)) shape (wire env (rp_Reply resp0)) l body \<and>
    it_audit s' = Record (it_audit s1) (Some (AccessEntryFor None v (routeKey (rt_Method rt) (rt_Pattern rt)) l (rq_Now r)))"
proof -
  let ?m = "rt_Method rt" and ?p = "rt_Pattern rt"
  let ?inner = "RequireScope (rt_Scope rt) (RequireCapability ?m ?p h)"
  let ?vis = "Visibility env (rr_Visibility rc) ?m ?p (rt_Scope rt) ?inner"
  obtain w where run: "Chain_Authenticate chain (credentialFromRequest r) (rq_Now r) (it_world s) = ((res, None), w)"
    using assms(2) by (metis prod.collapse)
  obtain vs where vw: "Resolve (it_viewers s) (rq_Now r) (ap_ID p) (ap_Kind p) (meta_str (ap_Meta p) MetaIdentityID) = (Inr v, vs)"
    using assms(4) by (metis prod.collapse)
  define c1 where "c1 = fresh_context\<lparr>rc_auth := Attach (rc_auth fresh_context) (Some p), rc_viewer := Some v\<rparr>"
  define s1 where "s1 = s\<lparr>it_world := w, it_viewers := vs\<rparr>"
  have "\<exists>resp1. ?vis c1 r s1 = ((resp1, l), s') \<and> rp_Reply resp1 = Answer body"
    using assms(3,6,7) run vw
    by (auto simp: serve_stack [OF assms(1)] RequireAuth_def attachCaller_def WithViewer_def c1_def s1_def refuse_def
        SetCookies_def Let_def browserRules_def unauthorized_def SetHeader_def split: prod.splits option.splits if_splits)
  then obtain resp1 where vis: "?vis c1 r s1 = ((resp1, l), s')" "rp_Reply resp1 = Answer body" by blast
  have c1: "rc_viewer c1 = Some v" "cx_principal (rc_auth c1) = Some p" "rc_preview c1 = None"
    by (simp_all add: c1_def cx_Attach fresh_context_def)
  show ?thesis
  proof (cases rule: Visibility_cases [of env "rr_Visibility rc" ?m ?p "rt_Scope rt" c1 r s1])
    case (refused resp2 vs2)
    with vis show ?thesis by (auto simp: refuse_def)
  next
    case (seen c s2)
    from seen_as_restricted [OF seen(1) c1(1) assms(5)] have same: "c = c1" "s2 = s1" by auto
    let ?c = "c1\<lparr>rc_ledger := Some NewLedger\<rparr>"
    obtain shape where shape: "RouteShape ?m ?p = Some shape"
        and checked: "check_response env (vc_Strict (rr_Visibility rc)) (routeKey ?m ?p) shape v ?c r (?inner ?c r s1) = ((resp1, l), s')"
      using seen(2) [of ?inner] vis assms(5) c1(1)
      by (auto simp: same behind_view_def FromContext_def refuse_def Let_def split: option.splits)
    obtain resp0 l0 s3 where inner: "?inner ?c r s1 = ((resp0, l0), s3)" by (metis prod.exhaust)
    from check_response_answer [OF checked [unfolded inner] vis(2)]
    have facts: "l = l0" "checked_body env (vc_Strict (rr_Visibility rc)) shape (wire env (rp_Reply resp0)) l body"
      "it_audit s' = Record (it_audit s3) (Some (AccessEntryFor None v (routeKey ?m ?p) l (rq_Now r)))"
      by (auto simp: c1(3))
    from behind_restricted [OF assms(5) inner] facts(1)
    have "h ?c r s1 = ((resp0, l), s3) \<or> (\<exists>code msg. rp_Reply resp0 = Refusal code msg) \<and> l = Some NewLedger \<and> it_audit s3 = it_audit s"
      by (auto simp: s1_def)
    moreover have "rc_viewer ?c = Some v" "cx_principal (rc_auth ?c) = Some p" "rc_ledger ?c = Some NewLedger"
      using c1 by simp_all
    ultimately show ?thesis using shape facts by blast
  qed
qed

end
