(* ===== verification/Http_Perimeter.thy ===== *)
theory Http_Perimeter
  imports Http_Access
begin

text \<open>
  What the router puts in front of every route, before authentication:
  \<open>internal/server/http/middleware_host.go\<close> (the Host allowlist), \<open>middleware_ui.go\<close>,
  \<open>middleware_cors.go\<close>, \<open>middleware_csrf.go\<close>, \<open>RequestID\<close> of \<open>middleware.go\<close>, in the order of
  \<open>NewRouterWithConfig\<close>, with \<open>ParseAllowedHost\<close> of \<open>config/validate.go\<close> and \<open>HostAllowlist\<close> of
  \<open>server/stack/stack.go\<close>. A private instance authenticates nobody: there this perimeter alone
  keeps other pages of the browser out. \<open>net.ParseIP\<close>, \<open>mime.ParseMediaType\<close> and the random
  identifier are parameters. \<open>Recoverer\<close> passes every request on, as no handler of the model panics.
\<close>

section \<open>The Host allowlist\<close>

record perimeter_env =
  pe_isIP :: "string \<Rightarrow> bool"
  pe_MediaType :: "string \<Rightarrow> string option"
  pe_uuid :: "Request \<Rightarrow> string"

definition JoinHostPort :: "string \<Rightarrow> string \<Rightarrow> string" where
  "JoinHostPort h p =
     (if CHR '':'' \<in> set h then ''['' @ h @ '']:'' @ p else h @ '':'' @ p)"

datatype HostError = EmptyEntry | NotAHost | UnsplitEntry | MissingHost | NotIPv6 | BadPort

definition not_in_host :: "char list" where
  "not_in_host = [CHR '' '', CHR 0x09, CHR 0x0D, CHR 0x0A, CHR ''/'', CHR 0x5C, CHR ''*'', CHR ''@'', CHR ''?'', CHR ''#'', CHR '','']"

definition check_host :: "(string \<Rightarrow> bool) \<Rightarrow> string \<Rightarrow> string \<Rightarrow> HostError + string \<times> string" where
  "check_host isIP host port =
     (if host = [] then Inl MissingHost
      else if CHR '':'' \<in> set host \<and> \<not> isIP host then Inl NotIPv6
      else if port \<noteq> [] \<and> (case Atoi port of None \<Rightarrow> True | Some n \<Rightarrow> n < 1 \<or> n > 65535) then Inl BadPort
      else Inr (ToLower host, port))"

definition ParseAllowedHost :: "(string \<Rightarrow> bool) \<Rightarrow> string \<Rightarrow> HostError + string \<times> string" where
  "ParseAllowedHost isIP entry =
     (if entry = [] then Inl EmptyEntry
      else if \<exists>c \<in> set not_in_host. c \<in> set entry then Inl NotAHost
      else if HasPrefix entry ''['' \<and> HasSuffix entry '']''
      then check_host isIP (take (length entry - 2) (drop 1 entry)) []
      else if HasPrefix entry ''['' \<or> count_list entry (CHR '':'') = 1
      then (case SplitHostPort entry of None \<Rightarrow> Inl UnsplitEntry | Some (h, p) \<Rightarrow> check_host isIP h p)
      else check_host isIP entry [])"

record HostAllowlist =
  ha_exact :: "string list"
  ha_anyPort :: "string list"

fun add_entries :: "(string \<Rightarrow> bool) \<Rightarrow> string list \<Rightarrow> HostAllowlist \<Rightarrow> HostError + HostAllowlist" where
  "add_entries isIP [] a = Inr a"
| "add_entries isIP (e # es) a =
     (case ParseAllowedHost isIP e of
        Inl err \<Rightarrow> Inl err
      | Inr (host, port) \<Rightarrow>
          if port = [] then add_entries isIP es (a\<lparr>ha_anyPort := host # ha_anyPort a\<rparr>)
          else add_entries isIP es (a\<lparr>ha_exact := JoinHostPort host port # ha_exact a\<rparr>))"

definition NewHostAllowlist :: "(string \<Rightarrow> bool) \<Rightarrow> string list \<Rightarrow> HostError + HostAllowlist" where
  "NewHostAllowlist isIP entries = add_entries isIP entries \<lparr>ha_exact = [], ha_anyPort = []\<rparr>"

text \<open>The name and the port a Host header asks for; without a port, the default one of the scheme.\<close>

definition asked_host :: "string \<Rightarrow> bool \<Rightarrow> string \<times> string" where
  "asked_host hostHeader tls =
     (let (host, port) = (case SplitHostPort hostHeader of
            Some hp \<Rightarrow> hp
          | None \<Rightarrow> (TrimSuffix (TrimPrefix hostHeader ''['') '']'', if tls then ''443'' else ''80''))
      in (ToLower host, port))"

definition HostAllowlist_Allows :: "HostAllowlist \<Rightarrow> string \<Rightarrow> bool \<Rightarrow> bool" where
  "HostAllowlist_Allows a hostHeader tls \<longleftrightarrow>
     (let (host, port) = asked_host hostHeader tls
      in host \<noteq> [] \<and> (host \<in> set (ha_anyPort a) \<or> JoinHostPort host port \<in> set (ha_exact a)))"

definition HostAllowlist_Middleware :: "http_env \<Rightarrow> HostAllowlist \<Rightarrow> Handler \<Rightarrow> Handler" where
  "HostAllowlist_Middleware env a next ctx r s =
     (if \<not> HostAllowlist_Allows a (rq_Host r) (rq_TLS r \<noteq> None)
      then refuse ctx (WriteError 403 ''HOST_NOT_ALLOWED''
             (''host '' @ he_quote env (rq_Host r) @
              '' is not allowed; to reach this instance by that name, add it to server.allowed_hosts'')) s
      else next ctx r s)"

definition AccessPrivate :: string where "AccessPrivate = ''private''"

definition stack_HostAllowlist :: "(string \<Rightarrow> bool) \<Rightarrow> string \<Rightarrow> int \<Rightarrow> string list \<Rightarrow> HostError + HostAllowlist option" where
  "stack_HostAllowlist isIP access port extra =
     (if access \<noteq> AccessPrivate \<and> extra = [] then Inr None
      else case NewHostAllowlist isIP
                  ([JoinHostPort ''127.0.0.1'' (Itoa port), JoinHostPort ''localhost'' (Itoa port)] @ extra) of
             Inl err \<Rightarrow> Inl err
           | Inr a \<Rightarrow> Inr (Some a))"

section \<open>Headers of the answer\<close>

text \<open>Headers set before the handler runs: one the handler sets itself replaces them.\<close>

definition under_headers :: "(string \<times> string) list \<Rightarrow> string Response \<Rightarrow> string Response" where
  "under_headers hs resp = resp\<lparr>rp_Headers := rp_Headers resp @ hs\<rparr>"

definition finishing :: "(string Response \<Rightarrow> string Response) \<Rightarrow>
    (string Response \<times> Ledger option) \<times> Instance \<Rightarrow> (string Response \<times> Ledger option) \<times> Instance" where
  "finishing f out = (case out of ((resp, l), s) \<Rightarrow> ((f resp, l), s))"

definition RequestID :: "perimeter_env \<Rightarrow> Handler \<Rightarrow> Handler" where
  "RequestID pe next ctx r s =
     (let i = Header_Get r ''X-Request-ID''
      in finishing (under_headers [(''X-Request-ID'', if i = [] then pe_uuid pe r else i)]) (next ctx r s))"

definition uiCSP :: string where "uiCSP = ''frame-ancestors '' @ [CHR 0x27] @ ''none'' @ [CHR 0x27]"

definition UISecurityHeaders :: "Handler \<Rightarrow> Handler" where
  "UISecurityHeaders next ctx r s =
     finishing (under_headers
       (if rq_Path r = ''/ui'' \<or> HasPrefix (rq_Path r) ''/ui/''
        then [(''Content-Security-Policy'', uiCSP), (''X-Frame-Options'', ''DENY''),
              (''X-Content-Type-Options'', ''nosniff''), (''Referrer-Policy'', ''no-referrer'')] else []))
       (next ctx r s)"

section \<open>Origins\<close>

definition corsAllowedPrefixes :: "string list" where
  "corsAllowedPrefixes = [''chrome-extension://'', ''moz-extension://'', ''safari-web-extension://'']"

definition IsExtensionOrigin :: "string \<Rightarrow> bool" where
  "IsExtensionOrigin origin \<longleftrightarrow> (\<exists>p \<in> set corsAllowedPrefixes. HasPrefix origin p)"

definition isLocalhostHost :: "string \<Rightarrow> bool" where
  "isLocalhostHost host \<longleftrightarrow>
     (let h = (case last_colon host of None \<Rightarrow> host | Some i \<Rightarrow> take i host)
      in h = ''localhost'' \<or> h = ''127.0.0.1'' \<or> h = ''::1'')"

definition cors_headers :: "bool \<Rightarrow> string \<Rightarrow> (string \<times> string) list" where
  "cors_headers devCORS origin =
     (if IsExtensionOrigin origin \<or> (devCORS \<and> origin \<in> set allowedDevOrigins)
      then [(''Access-Control-Allow-Origin'', origin),
            (''Access-Control-Allow-Methods'', ''GET, POST, PATCH, DELETE, OPTIONS''),
            (''Access-Control-Allow-Headers'', ''Content-Type, Authorization, X-Request-ID''),
            (''Access-Control-Expose-Headers'', ''X-Request-ID''), (''Vary'', ''Origin'')] else [])"

definition CORS :: "bool \<Rightarrow> Handler \<Rightarrow> Handler" where
  "CORS devCORS next ctx r s =
     (let origin = Header_Get r ''Origin''
      in if \<not> isLocalhostHost (rq_Host r) then next ctx r s
         else if origin = [] then next ctx r s
         else if rq_Method r = ''OPTIONS''
         then refuse ctx (under_headers (cors_headers devCORS origin) (respond 204 NoContent)) s
         else finishing (under_headers (cors_headers devCORS origin)) (next ctx r s))"

definition CrossOriginGuard :: "http_env \<Rightarrow> bool \<Rightarrow> Handler \<Rightarrow> Handler" where
  "CrossOriginGuard env devCORS next ctx r s =
     (if IsExtensionOrigin (Header_Get r ''Origin'') then next ctx r s
      else if cop_Check env (newSessionCOP devCORS) r then next ctx r s
      else refuse ctx (WriteError 403 ''CROSS_ORIGIN_REQUEST''
             ''cross-origin request refused: changes must come from this instance's own pages, the ctxt CLI or the ctxt browser extension'') s)"

definition RequireJSONBody :: "perimeter_env \<Rightarrow> Handler \<Rightarrow> Handler" where
  "RequireJSONBody pe next ctx r s =
     (if rq_Method r \<in> {''GET'', ''HEAD'', ''OPTIONS''} then next ctx r s
      else if rq_ContentLength r = 0 then next ctx r s
      else if pe_MediaType pe (Header_Get r ''Content-Type'') \<noteq> Some ''application/json''
      then refuse ctx (WriteError 415 ''UNSUPPORTED_MEDIA_TYPE''
             ''request body must be JSON: send Content-Type: application/json'') s
      else next ctx r s)"

section \<open>The router\<close>

definition with_hosts :: "http_env \<Rightarrow> HostAllowlist option \<Rightarrow> Handler \<Rightarrow> Handler" where
  "with_hosts env hosts h = (case hosts of None \<Rightarrow> h | Some a \<Rightarrow> HostAllowlist_Middleware env a h)"

definition perimeter :: "http_env \<Rightarrow> perimeter_env \<Rightarrow> HostAllowlist option \<Rightarrow> bool \<Rightarrow> Handler \<Rightarrow> Handler" where
  "perimeter env pe hosts devCORS h =
     RequestID pe (with_hosts env hosts (UISecurityHeaders (CORS devCORS
       (CrossOriginGuard env devCORS (RequireJSONBody pe h)))))"

definition router ::
    "http_env \<Rightarrow> perimeter_env \<Rightarrow> HostAllowlist option \<Rightarrow> RouterConfig \<Rightarrow> apiRoute \<Rightarrow> Handler \<Rightarrow> Handler" where
  "router env pe hosts rc rt h = perimeter env pe hosts (rr_DevCORS rc) (serve env rc rt h)"

section \<open>Screens\<close>

text \<open>
  A screen is a gate that looks at the request only: it refuses it, or passes it on in its own
  context and state and finishes the answer. Screens stack.
\<close>

definition passing :: "(Request \<Rightarrow> bool) \<Rightarrow> Context \<Rightarrow> Request \<Rightarrow> Instance \<Rightarrow> Context \<Rightarrow> Instance \<Rightarrow> bool" where
  "passing P ctx r s c s' \<longleftrightarrow> P r \<and> c = ctx \<and> s' = s"

locale screen =
  fixes mw :: "Handler \<Rightarrow> Handler" and P :: "Request \<Rightarrow> bool"
    and fin :: "Request \<Rightarrow> string Response \<Rightarrow> string Response" and out :: "Request \<Rightarrow> string Response"
  assumes screens: "mw h ctx r s = (if P r then finishing (fin r) (h ctx r s) else refuse ctx (out r) s)"
begin

lemma is_gate: "gate mw (passing P)"
proof (unfold_locales, goal_cases)
  case (1 ctx r s)
  show ?case by (cases "P r") (auto simp: screens passing_def)
qed

lemma decided: "mw h ctx r s \<noteq> mw g ctx r s \<Longrightarrow> P r"
  by (simp add: screens split: if_splits)

end

sublocale screen \<subseteq> gate mw "passing P"
  by (rule is_gate)

lemma finishing_simps [simp]:
  "finishing (\<lambda>x. x) out = out" "finishing f (refuse ctx resp s) = refuse ctx (f resp) s"
  "finishing f (finishing g out) = finishing (\<lambda>x. f (g x)) out"
  by (simp_all add: finishing_def refuse_def split: prod.split)

locale screen_pair = outer: screen mw1 P1 fin1 out1 + inner: screen mw2 P2 fin2 out2
  for mw1 P1 fin1 out1 mw2 P2 fin2 out2
begin

lemma stacked:
  "screen (\<lambda>h. mw1 (mw2 h)) (\<lambda>r. P1 r \<and> P2 r) (\<lambda>r x. fin1 r (fin2 r x)) (\<lambda>r. if P1 r then fin1 r (out2 r) else out1 r)"
  by unfold_locales (simp add: outer.screens inner.screens)

end

sublocale screen_pair \<subseteq> stack: screen "\<lambda>h. mw1 (mw2 h)" "\<lambda>r. P1 r \<and> P2 r" "\<lambda>r x. fin1 r (fin2 r x)"
  "\<lambda>r. if P1 r then fin1 r (out2 r) else out1 r"
  by (rule stacked)

subsection \<open>What each lets pass\<close>

definition host_known :: "HostAllowlist option \<Rightarrow> Request \<Rightarrow> bool" where
  "host_known hosts r \<longleftrightarrow>
     (case hosts of None \<Rightarrow> True | Some a \<Rightarrow> HostAllowlist_Allows a (rq_Host r) (rq_TLS r \<noteq> None))"

definition preflight :: "Request \<Rightarrow> bool" where
  "preflight r \<longleftrightarrow> isLocalhostHost (rq_Host r) \<and> Header_Get r ''Origin'' \<noteq> [] \<and> rq_Method r = ''OPTIONS''"

definition from_own_page :: "http_env \<Rightarrow> bool \<Rightarrow> Request \<Rightarrow> bool" where
  "from_own_page env devCORS r \<longleftrightarrow>
     (let site = Header_Get r ''Sec-Fetch-Site''; origin = Header_Get r ''Origin''
      in IsExtensionOrigin origin \<or> site = ''same-origin'' \<or> site = ''none'' \<or>
         (site = [] \<and> (origin = [] \<or> he_url_host env origin = Some (rq_Host r))) \<or>
         (devCORS \<and> origin \<in> set allowedDevOrigins))"

definition json_or_empty :: "perimeter_env \<Rightarrow> Request \<Rightarrow> bool" where
  "json_or_empty pe r \<longleftrightarrow>
     rq_ContentLength r = 0 \<or> pe_MediaType pe (Header_Get r ''Content-Type'') = Some ''application/json''"

definition cross_refusal :: "string Response" where
  "cross_refusal = WriteError 403 ''CROSS_ORIGIN_REQUEST''
     ''cross-origin request refused: changes must come from this instance's own pages, the ctxt CLI or the ctxt browser extension''"

lemma cross_origin_passes:
  "IsExtensionOrigin (Header_Get r ''Origin'') \<or> cop_Check env (newSessionCOP devCORS) r \<longleftrightarrow>
   isSafeMethod (rq_Method r) \<or> from_own_page env devCORS r"
  by (auto simp: cop_Check_def from_own_page_def newSessionCOP_def Let_def)

interpretation rid: screen "RequestID pe" "\<lambda>r. True"
  "\<lambda>r. under_headers [(''X-Request-ID'', if Header_Get r ''X-Request-ID'' = [] then pe_uuid pe r else Header_Get r ''X-Request-ID'')]"
  "\<lambda>r. cross_refusal" for pe
  by unfold_locales (simp add: RequestID_def Let_def)

interpretation hst: screen "with_hosts env hosts" "host_known hosts" "\<lambda>r x. x"
  "\<lambda>r. WriteError 403 ''HOST_NOT_ALLOWED'' (''host '' @ he_quote env (rq_Host r) @
     '' is not allowed; to reach this instance by that name, add it to server.allowed_hosts'')" for env hosts
  by unfold_locales (auto simp: with_hosts_def host_known_def HostAllowlist_Middleware_def split: option.split)

interpretation uis: screen UISecurityHeaders "\<lambda>r. True"
  "\<lambda>r. under_headers (if rq_Path r = ''/ui'' \<or> HasPrefix (rq_Path r) ''/ui/''
        then [(''Content-Security-Policy'', uiCSP), (''X-Frame-Options'', ''DENY''),
              (''X-Content-Type-Options'', ''nosniff''), (''Referrer-Policy'', ''no-referrer'')] else [])"
  "\<lambda>r. cross_refusal"
  by unfold_locales (simp add: UISecurityHeaders_def)

interpretation cor: screen "CORS devCORS" "\<lambda>r. \<not> preflight r"
  "\<lambda>r. if isLocalhostHost (rq_Host r) \<and> Header_Get r ''Origin'' \<noteq> [] then under_headers (cors_headers devCORS (Header_Get r ''Origin'')) else (\<lambda>x. x)"
  "\<lambda>r. under_headers (cors_headers devCORS (Header_Get r ''Origin'')) (respond 204 NoContent)" for devCORS
  by unfold_locales (auto simp: CORS_def preflight_def Let_def)

interpretation csr: screen "CrossOriginGuard env devCORS" "\<lambda>r. isSafeMethod (rq_Method r) \<or> from_own_page env devCORS r"
  "\<lambda>r x. x" "\<lambda>r. cross_refusal" for env devCORS
  by unfold_locales (auto simp: CrossOriginGuard_def cross_refusal_def simp flip: cross_origin_passes)

interpretation jsn: screen "RequireJSONBody pe" "\<lambda>r. isSafeMethod (rq_Method r) \<or> json_or_empty pe r"
  "\<lambda>r x. x" "\<lambda>r. WriteError 415 ''UNSUPPORTED_MEDIA_TYPE'' ''request body must be JSON: send Content-Type: application/json''" for pe
  by unfold_locales (auto simp: RequireJSONBody_def isSafeMethod_def json_or_empty_def)

text \<open>The stack of the router.\<close>

definition let_in :: "http_env \<Rightarrow> perimeter_env \<Rightarrow> HostAllowlist option \<Rightarrow> bool \<Rightarrow> Request \<Rightarrow> bool" where
  "let_in env pe hosts devCORS r \<longleftrightarrow>
     host_known hosts r \<and> \<not> preflight r \<and>
     (isSafeMethod (rq_Method r) \<or> from_own_page env devCORS r \<and> json_or_empty pe r)"

lemma perimeter_screen:
  obtains fin out where "screen (perimeter env pe hosts devCORS) (let_in env pe hosts devCORS) fin out"
proof -
  note pairs = screen_pair.stacked [OF screen_pair.intro]
  note stack = pairs [OF rid.screen_axioms [of pe] pairs [OF hst.screen_axioms [of env hosts]
    pairs [OF uis.screen_axioms pairs [OF cor.screen_axioms [of devCORS]
      pairs [OF csr.screen_axioms [of env devCORS] jsn.screen_axioms [of pe]]]]]]
  show thesis
    by (rule that, rule back_subst [of "\<lambda>P. screen _ P _ _"], rule stack [folded perimeter_def])
       (auto simp: let_in_def)
qed

text \<open>
  \<open>isLocalhostHost\<close> cuts at the last colon, so no form of the IPv6 loopback address a browser sends
  is recognised: its third alternative is met by a malformed header only.
\<close>

lemma isLocalhostHost_IPv6:
  "\<not> isLocalhostHost ''[::1]:8080''" "\<not> isLocalhostHost ''[::1]''" "\<not> isLocalhostHost ''::1''"
  "isLocalhostHost ''::1:8080''"
  by (simp_all add: isLocalhostHost_def last_colon_def numeral_eq_Suc)

section \<open>Names of the instance\<close>

definition names_host :: "(string \<Rightarrow> bool) \<Rightarrow> string \<times> string \<Rightarrow> string \<Rightarrow> bool" where
  "names_host isIP hp e \<longleftrightarrow>
     (\<exists>h p. ParseAllowedHost isIP e = Inr (h, p) \<and>
        (if p = [] then fst hp = h else JoinHostPort (fst hp) (snd hp) = JoinHostPort h p))"

lemma add_entries_names:
  "add_entries isIP es a = Inr b \<Longrightarrow> h \<in> set (ha_anyPort b) \<or> JoinHostPort h p \<in> set (ha_exact b) \<Longrightarrow>
   h \<in> set (ha_anyPort a) \<or> JoinHostPort h p \<in> set (ha_exact a) \<or> (\<exists>e \<in> set es. names_host isIP (h, p) e)"
proof (induction es arbitrary: a)
  case (Cons e es)
  obtain h' p' where e: "ParseAllowedHost isIP e = Inr (h', p')"
    using Cons.prems(1) by (auto split: sum.splits prod.splits)
  have now: "names_host isIP (h, p) e" if "if p' = [] then h = h' else JoinHostPort h p = JoinHostPort h' p'"
    using e that by (auto simp: names_host_def)
  show ?case
  proof (cases "p' = []")
    case True
    with Cons.prems(1) e have "add_entries isIP es (a\<lparr>ha_anyPort := h' # ha_anyPort a\<rparr>) = Inr b" by simp
    from Cons.IH [OF this Cons.prems(2)] show ?thesis using now True by auto
  next
    case False
    with Cons.prems(1) e have "add_entries isIP es (a\<lparr>ha_exact := JoinHostPort h' p' # ha_exact a\<rparr>) = Inr b" by simp
    from Cons.IH [OF this Cons.prems(2)] show ?thesis using now False by auto
  qed
qed simp

lemma last_colon_port: "CHR '':'' \<notin> set p \<Longrightarrow> last_colon (h @ CHR '':'' # p) = Some (length h)"
proof -
  assume p: "CHR '':'' \<notin> set p"
  have "find (\<lambda>i. (h @ CHR '':'' # p) ! i = CHR '':'') (rev [0..<length (h @ CHR '':'' # p)]) = Some (length h)"
    unfolding find_Some_iff
    by (rule exI [of _ "length p"])
       (use p in \<open>auto simp del: upt_Suc simp: rev_nth nth_append nth_Cons' in_set_conv_nth\<close>)
  then show ?thesis by (simp add: last_colon_def)
qed

lemma Join_plain:
  assumes "JoinHostPort h p = JoinHostPort n q" "CHR '':'' \<notin> set n" "CHR '':'' \<notin> set q" "n \<noteq> []" "hd n \<noteq> CHR ''[''"
  shows "h = n \<and> p = q"
proof (cases "CHR '':'' \<in> set h")
  case True
  with assms show ?thesis by (cases n) (auto simp: JoinHostPort_def)
next
  case False
  with assms have "n @ CHR '':'' # q = h @ CHR '':'' # p" by (simp add: JoinHostPort_def)
  then show ?thesis using assms(2,3) by (simp add: append_Cons_eq_iff)
qed

lemma Itoa_no_colon: "CHR '':'' \<notin> set (Itoa n)"
  using itoa_digits [of "CHR '':''"] by (auto simp: Itoa_def is_digit_def byte_in_def byte_def)

lemma plain_entry:
  assumes "names_host isIP hp (JoinHostPort n q)" "CHR '':'' \<notin> set n" "CHR '':'' \<notin> set q" "n \<noteq> []" "q \<noteq> []"
    and "CHR ''['' \<notin> set n" "CHR '']'' \<notin> set n" "CHR ''['' \<notin> set q" "CHR '']'' \<notin> set q" "ToLower n = n"
  shows "hp = (n, q)"
proof -
  have hd: "hd n \<noteq> CHR ''[''" using assms(4,6) by (cases n) auto
  have entry: "JoinHostPort n q = n @ CHR '':'' # q" using assms(2) by (simp add: JoinHostPort_def)
  have "SplitHostPort (n @ CHR '':'' # q) = Some (n, q)"
    using assms hd by (simp add: SplitHostPort_def last_colon_port)
  moreover have "count_list (n @ CHR '':'' # q) (CHR '':'') = 1"
    using assms(2,3) by (simp add: count_list_append count_notin)
  moreover have "\<not> HasPrefix (n @ CHR '':'' # q) ''[''" using hd assms(4) by (cases n) auto
  ultimately have "ParseAllowedHost isIP (JoinHostPort n q) = Inr (h, p) \<Longrightarrow> h = n \<and> p = q" for h p
    using assms(2,4,10) by (auto simp: ParseAllowedHost_def entry check_host_def split: if_splits)
  with assms(1,5) have "JoinHostPort (fst hp) (snd hp) = JoinHostPort n q"
    by (auto simp: names_host_def split: if_splits)
  from Join_plain [OF this assms(2,3,4) hd] show ?thesis by (metis prod.collapse)
qed

lemma Itoa_no_bracket: "CHR ''['' \<notin> set (Itoa n)" "CHR '']'' \<notin> set (Itoa n)"
  using itoa_digits [of "CHR ''[''"] itoa_digits [of "CHR '']''"] by (auto simp: Itoa_def is_digit_def byte_in_def byte_def)

lemma Itoa_not_Nil: "Itoa n \<noteq> []"
  by (simp add: Itoa_def)

lemma loopback_entries:
  assumes "names_host isIP hp (JoinHostPort n (Itoa port))" "n \<in> {''127.0.0.1'', ''localhost''}"
  shows "hp = (n, Itoa port)"
  by (rule plain_entry [OF assms(1)])
     (use assms(2) in \<open>auto simp: Itoa_no_colon Itoa_no_bracket Itoa_not_Nil ToLower_def to_lower_byte_def is_upper_def byte_in_def byte_def\<close>)

lemma allowlist_names:
  assumes "stack_HostAllowlist isIP AccessPrivate port extra = Inr hosts" "host_known hosts r"
  shows "asked_host (rq_Host r) (rq_TLS r \<noteq> None) \<in> {(''127.0.0.1'', Itoa port), (''localhost'', Itoa port)} \<or>
    (\<exists>e \<in> set extra. names_host isIP (asked_host (rq_Host r) (rq_TLS r \<noteq> None)) e)"
proof -
  let ?own = "[JoinHostPort ''127.0.0.1'' (Itoa port), JoinHostPort ''localhost'' (Itoa port)]"
  obtain a where a: "add_entries isIP (?own @ extra) \<lparr>ha_exact = [], ha_anyPort = []\<rparr> = Inr a" "hosts = Some a"
    using assms(1) by (auto simp only: stack_HostAllowlist_def NewHostAllowlist_def split: sum.splits if_splits)
  obtain h p where hp: "asked_host (rq_Host r) (rq_TLS r \<noteq> None) = (h, p)" by (metis prod.exhaust)
  with assms(2) a(2) have "h \<in> set (ha_anyPort a) \<or> JoinHostPort h p \<in> set (ha_exact a)"
    by (simp add: host_known_def HostAllowlist_Allows_def)
  from add_entries_names [OF a(1) this] have "\<exists>e \<in> set (?own @ extra). names_host isIP (h, p) e" by simp
  then show ?thesis using loopback_entries [of isIP "(h, p)"] unfolding hp by auto
qed

section \<open>Who gets through\<close>

text \<open>
  C20: no page of another site reaches a private instance through the user's browser. With the
  allowlist that the stack builds for a private instance: if it makes any difference to the
  answer or the state which handler stands on a route, then the request named the instance by a
  loopback name with its port or by a configured entry (so a rebound DNS name is refused, for reads
  too), and if it may change something it came from the instance's own pages, a browser
  extension, a client that is no browser, or the development origins when they are on, and its
  body, when it has one, is labelled JSON. Such a request is handed to the gate of the API
  unchanged; the perimeter only adds headers to the answer.
\<close>

theorem private_instance_keeps_pages_out:
  assumes "stack_HostAllowlist (pe_isIP pe) AccessPrivate port extra = Inr hosts"
    and "router env pe hosts rc rt h ctx r s \<noteq> router env pe hosts rc rt g ctx r s"
  shows "(asked_host (rq_Host r) (rq_TLS r \<noteq> None) \<in> {(''127.0.0.1'', Itoa port), (''localhost'', Itoa port)} \<or>
      (\<exists>e \<in> set extra. names_host (pe_isIP pe) (asked_host (rq_Host r) (rq_TLS r \<noteq> None)) e)) \<and>
    (isSafeMethod (rq_Method r) \<or> from_own_page env (rr_DevCORS rc) r \<and> json_or_empty pe r) \<and>
    (\<exists>fin. \<forall>k. router env pe hosts rc rt k ctx r s = finishing fin (serve env rc rt k ctx r s))"
proof -
  obtain fin out where sc: "screen (perimeter env pe hosts (rr_DevCORS rc)) (let_in env pe hosts (rr_DevCORS rc)) fin out"
    by (rule perimeter_screen)
  have pass: "let_in env pe hosts (rr_DevCORS rc) r"
    using assms(2) by (auto simp: router_def intro: screen.decided [OF sc])
  then have "router env pe hosts rc rt k ctx r s = finishing (fin r) (serve env rc rt k ctx r s)" for k
    by (simp add: router_def screen.screens [OF sc])
  with pass show ?thesis
    using allowlist_names [OF assms(1)] unfolding let_in_def by blast
qed

end
