(* ===== verification/Http_Registry_Laws.thy ===== *)
theory Http_Registry_Laws
  imports Http_Registry
begin

text \<open>
  What the write routes of the principal registry leave alone: the rows of every principal but
  the one a request is about. The frame is an order on databases that the operations of the
  stores keep when they are run for that principal.
\<close>

section \<open>The rows of the others\<close>

text \<open>
  A session or login code is another's when neither it nor the identity that minted it is the
  principal's; \<open>J\<close> are the identities of the principal.
\<close>

definition foreign ::
    "string \<Rightarrow> string set \<Rightarrow> auth_world \<Rightarrow> PrincipalRow list \<times> Identity list \<times> UISession list \<times> UILoginCode list" where
  "foreign i J w =
     (filter (\<lambda>p. pw_ID p \<noteq> i) (wd_principals w),
      filter (\<lambda>x. id_PrincipalID x \<noteq> i) (wd_identities w),
      filter (\<lambda>s. us_PrincipalID s \<noteq> i \<and> us_IdentityID s \<notin> J) (wd_sessions w),
      filter (\<lambda>c. lc_PrincipalID c \<noteq> i \<and> lc_IdentityID c \<notin> J) (wd_codes w))"

definition idents_of :: "auth_world \<Rightarrow> string \<Rightarrow> string set" where
  "idents_of w i = id_ID ` {x \<in> set (wd_identities w). id_PrincipalID x = i}"

text \<open>The identities \<open>J\<close>, the sessions \<open>K\<close> and the keys \<open>M\<close> are the principal's.\<close>

definition held :: "string \<Rightarrow> string set \<Rightarrow> string set \<Rightarrow> string set \<Rightarrow> auth_world \<Rightarrow> bool" where
  "held i J K M w \<longleftrightarrow>
     (\<forall>x \<in> set (wd_identities w). id_ID x \<in> J \<longrightarrow> id_PrincipalID x = i) \<and>
     (\<forall>s \<in> set (wd_sessions w). us_ID s \<in> K \<longrightarrow> us_PrincipalID s = i) \<and>
     (\<forall>x \<in> set (wd_identities w). id_Method x = IdentityMethodAPIKey \<longrightarrow> id_Subject x \<in> M \<longrightarrow> id_ID x \<in> J)"

definition home :: "string \<Rightarrow> string set \<Rightarrow> string set \<Rightarrow> string set \<Rightarrow> auth_world \<Rightarrow> auth_world \<Rightarrow> bool" where
  "home i J K M w w' \<longleftrightarrow> (held i J K M w \<longrightarrow> held i J K M w' \<and> foreign i J w' = foreign i J w)"

interpretation hom: world_order "home i J K M" for i J K M
proof
  show "home i J K M w (w\<lparr>wd_faults := fs, wd_drawn := n\<rparr>)" for w fs n
    by (simp add: home_def held_def foreign_def)
  show "home i J K M a c" if "home i J K M a b" "home i J K M b c" for a b c
    using that by (simp add: home_def)
qed

text \<open>Updates that keep the keys of the rows keep what is held.\<close>

lemma held_cong:
  assumes "map (\<lambda>x. (id_ID x, id_PrincipalID x, id_Method x, id_Subject x)) (wd_identities w') =
      map (\<lambda>x. (id_ID x, id_PrincipalID x, id_Method x, id_Subject x)) (wd_identities w)"
    and "map (\<lambda>s. (us_ID s, us_PrincipalID s)) (wd_sessions w') = map (\<lambda>s. (us_ID s, us_PrincipalID s)) (wd_sessions w)"
  shows "held i J K M w' = held i J K M w"
proof -
  have "held i J K M w \<longleftrightarrow>
      (\<forall>(a, b, m, t) \<in> set (map (\<lambda>x. (id_ID x, id_PrincipalID x, id_Method x, id_Subject x)) (wd_identities w)).
         (a \<in> J \<longrightarrow> b = i) \<and> (m = IdentityMethodAPIKey \<longrightarrow> t \<in> M \<longrightarrow> a \<in> J)) \<and>
      (\<forall>(a, b) \<in> set (map (\<lambda>s. (us_ID s, us_PrincipalID s)) (wd_sessions w)). a \<in> K \<longrightarrow> b = i)" for w
    unfolding held_def by (simp, blast)
  then show ?thesis by (simp only: assms)
qed

lemma held_updates [simp]:
  "held i J K M (w\<lparr>wd_sessions := update_where c (\<lambda>s. s\<lparr>us_RevokedAt := t, us_RevokeReason := m\<rparr>) (wd_sessions w)\<rparr>) = held i J K M w"
  "held i J K M (w\<lparr>wd_identities := update_where d (\<lambda>x. x\<lparr>id_RevokedAt := t\<rparr>) (wd_identities w)\<rparr>) = held i J K M w"
  "held i J K M (w\<lparr>wd_principals := ps\<rparr>) = held i J K M w" "held i J K M (w\<lparr>wd_codes := cs\<rparr>) = held i J K M w"
  "held i J K M (w\<lparr>wd_kv := kv\<rparr>) = held i J K M w"
  by (rule held_cong; simp add: map_update_where)+

lemma filter_update_where_on:
  assumes "\<And>x. x \<in> set xs \<Longrightarrow> c x \<Longrightarrow> \<not> P x \<and> \<not> P (f x)"
  shows "filter P (update_where c f xs) = filter P xs"
  using assms unfolding update_where_def by (induction xs) auto

lemma home_sessions:
  assumes "\<And>s. c s \<Longrightarrow> us_PrincipalID s = i \<or> us_IdentityID s \<in> J"
  shows "home i J K M w (w\<lparr>wd_sessions := update_where c (\<lambda>s. s\<lparr>us_RevokedAt := t, us_RevokeReason := m\<rparr>) (wd_sessions w)\<rparr>)"
proof -
  have "filter (\<lambda>s. us_PrincipalID s \<noteq> i \<and> us_IdentityID s \<notin> J)
      (update_where c (\<lambda>s. s\<lparr>us_RevokedAt := t, us_RevokeReason := m\<rparr>) (wd_sessions w)) =
      filter (\<lambda>s. us_PrincipalID s \<noteq> i \<and> us_IdentityID s \<notin> J) (wd_sessions w)"
    by (rule filter_update_where) (use assms in auto)
  then show ?thesis by (simp add: home_def foreign_def)
qed

lemma home_codes:
  assumes "\<And>c. d c \<Longrightarrow> lc_PrincipalID c = i \<or> lc_IdentityID c \<in> J"
  shows "obeys (home i J K M) (delete_codes d)"
proof -
  have "filter (\<lambda>c. lc_PrincipalID c \<noteq> i \<and> lc_IdentityID c \<notin> J) (filter (\<lambda>x. \<not> d x) cs) =
      filter (\<lambda>c. lc_PrincipalID c \<noteq> i \<and> lc_IdentityID c \<notin> J) cs" for cs
    using assms by (auto simp: filter_filter intro!: filter_cong)
  then show ?thesis
    unfolding delete_codes_def by (intro hom.stmt) (simp add: home_def foreign_def)
qed

lemma home_principals:
  assumes "\<And>p. c p \<Longrightarrow> pw_ID p = i" "\<And>p. pw_ID (f p) = pw_ID p"
  shows "home i J K M w (w\<lparr>wd_principals := update_where c f (wd_principals w)\<rparr>)"
proof -
  have "filter (\<lambda>p. pw_ID p \<noteq> i) (update_where c f (wd_principals w)) = filter (\<lambda>p. pw_ID p \<noteq> i) (wd_principals w)"
    by (rule filter_update_where) (use assms in auto)
  then show ?thesis by (simp add: home_def foreign_def)
qed

lemma home_identities:
  assumes "held i J K M w \<Longrightarrow> (\<And>x. x \<in> set (wd_identities w) \<Longrightarrow> c x \<Longrightarrow> id_PrincipalID x = i)"
  shows "home i J K M w (w\<lparr>wd_identities := update_where c (\<lambda>x. x\<lparr>id_RevokedAt := t\<rparr>) (wd_identities w)\<rparr>)"
proof -
  have "filter (\<lambda>x. id_PrincipalID x \<noteq> i) (update_where c (\<lambda>x. x\<lparr>id_RevokedAt := t\<rparr>) xs) = filter (\<lambda>x. id_PrincipalID x \<noteq> i) xs"
    if "\<And>x. x \<in> set xs \<Longrightarrow> c x \<Longrightarrow> id_PrincipalID x = i" for xs
    by (rule filter_update_where_on) (use that in auto)
  with assms show ?thesis by (simp add: home_def foreign_def)
qed

section \<open>The operations of a principal keep the frame\<close>

lemma home_principal_ops:
  "obeys (home i J K M) (principal_Suspend i)" "obeys (home i J K M) (principal_Revoke i at)"
  unfolding principal_Suspend_def principal_Revoke_def revoke_sessions_def
  by (intro hom.op_rules hom.reads hom.stmt home_codes; auto intro: home_principals home_identities home_sessions)+

lemma home_identity_Revoke:
  assumes "j \<in> J"
  shows "obeys (home i J K M) (identity_Revoke j at)"
proof -
  have "home i J K M w (w\<lparr>wd_identities := update_where (\<lambda>r. id_ID r = j \<and> id_RevokedAt r = None)
      (\<lambda>r. r\<lparr>id_RevokedAt := Some (stored at)\<rparr>) (wd_identities w)\<rparr>)" for w
    by (rule home_identities) (use assms in \<open>auto simp: held_def\<close>)
  then show ?thesis
    unfolding identity_Revoke_def revoke_sessions_def using assms
    by (intro hom.op_rules hom.reads hom.stmt home_codes) (auto intro: home_sessions)
qed

lemma home_insert:
  "id_PrincipalID q = i \<Longrightarrow> home i J K {} w (w\<lparr>wd_identities := wd_identities w @ [q]\<rparr>)"
  by (simp add: home_def held_def foreign_def)

lemma home_identity_Create:
  assumes "id_PrincipalID x = i"
  shows "obeys (home i J K {}) (identity_Create x now)"
  unfolding identity_Create_def
proof (rule hom.bnd_info [OF hom.prepare(2)])
  fix w q w' assume "PrepareNewIdentity x now w = (Inr q, w')"
  then have "id_PrincipalID q = i" using assms unfolding PrepareNewIdentity_def
    by (auto elim!: bnd_InrE ret_InrE simp: fail_with_def split: if_splits)
  then show "obeys (home i J K {}) (bnd (stmt (\<lambda>w.
              if has_identity w (id_ID q) \<or> list_ex (same_triple q) (wd_identities w) then (Inl ErrAlreadyExists, w)
              else if \<not> has_principal w (id_PrincipalID q) then (Inl ErrStoreNotFound, w)
              else (Inr (), w\<lparr>wd_identities := wd_identities w @
                     [q\<lparr>id_CreatedAt := stored (id_CreatedAt q),
                        id_RevokedAt := map_option stored (id_RevokedAt q),
                        id_LastUsedAt := map_option stored (id_LastUsedAt q)\<rparr>]\<rparr>))) (\<lambda>_. ret q))"
    by (intro hom.op_rules hom.stmt) (simp add: home_insert hom.refl)
qed

lemma held_sessions: "held i J K M w \<Longrightarrow> \<forall>s \<in> set (wd_sessions w). us_ID s \<in> K \<longrightarrow> us_PrincipalID s = i"
  by (simp add: held_def)

lemma home_session_Revoke:
  assumes "j \<in> K"
  shows "obeys (home i J K M) (session_Revoke j at reason)"
proof -
  have "home i J K M w (w\<lparr>wd_sessions := update_where (\<lambda>s. us_ID s = j \<and> us_RevokedAt s = None)
      (\<lambda>s. s\<lparr>us_RevokedAt := Some (stored at), us_RevokeReason := reason\<rparr>) (wd_sessions w)\<rparr>)" for w
  proof -
    have "filter (\<lambda>s. us_PrincipalID s \<noteq> i \<and> us_IdentityID s \<notin> J)
        (update_where (\<lambda>s. us_ID s = j \<and> us_RevokedAt s = None)
          (\<lambda>s. s\<lparr>us_RevokedAt := Some (stored at), us_RevokeReason := reason\<rparr>) xs) =
        filter (\<lambda>s. us_PrincipalID s \<noteq> i \<and> us_IdentityID s \<notin> J) xs"
      if "\<forall>s \<in> set xs. us_ID s \<in> K \<longrightarrow> us_PrincipalID s = i" for xs
      by (rule filter_update_where_on) (use that assms in auto)
    then show ?thesis by (auto simp: home_def foreign_def dest!: held_sessions)
  qed
  then show ?thesis
    unfolding session_Revoke_def by (intro hom.op_rules hom.reads hom.stmt) simp
qed

lemma home_kv: "obeys (home i J K M) (kv_Put k v)"
  unfolding kv_Put_def by (rule hom.stmt) (simp add: home_def foreign_def)

lemma home_lk: "obeys (home i J K M) (lk_Create kc spec now)" "obeys (home i J K M) (lk_Revoke kc key now)"
  unfolding lk_Create_def lk_Revoke_def lk_put_def Let_def
  by (intro hom.op_rules home_kv lk_reads_order(2) hom.world_order_axioms)+

lemma home_Keys_Mint: "obeys (home i J K {}) (Keys_Mint (LocalKeys kc) (spec\<lparr>mk_PrincipalID := i\<rparr>) now)"
proof -
  have bind: "obeys (home i J K {}) (bind_key (LocalKeys kc) q rec nm now)" if "pw_ID q = i" for q rec nm
    unfolding bind_key_def using that
    by (intro hom.op_rules home_identity_Create) (simp_all add: mint_identity_def home_lk)
  have "obeys (home i J K {}) (issue_key (LocalKeys kc) spec' q scopes now)" if "pw_ID q = i" for spec' q scopes
    unfolding issue_key_def Let_def using that by (intro hom.op_rules bind) (simp_all add: home_lk)
  then show ?thesis
    unfolding Keys_Mint_def of_sum_def
    by (intro hom.If hom.fail hom.bnd_info [OF hom.reads(1)])
       (auto split: sum.split intro!: hom.op_rules elim: principal_Get_facts)
qed

lemma home_Keys_Revoke:
  assumes "key \<in> M"
  shows "obeys (home i J K M) (Keys_Revoke (LocalKeys kc) key now)"
proof -
  let ?R = "home i J K M"
  let ?tail = "on_err (identity_Find IdentityMethodAPIKey [] key) (\<lambda>e. if is_not_found e then ret () else fail_with e)
      (\<lambda>idn. identity_Revoke (id_ID idn) now)"
  have "?R w (snd (?tail w))" for w
  proof (cases "held i J K M w")
    case held: True
    obtain r w1 where find: "identity_Find IdentityMethodAPIKey [] key w = (r, w1)" by fastforce
    have w1: "?R w w1" using hom.reads(5) find by (rule obeysD)
    show ?thesis
    proof (cases r)
      case (Inl e)
      then show ?thesis using find w1 by (simp add: on_err_def ret_def fail_with_def)
    next
      case (Inr idn)
      with find held assms have "id_ID idn \<in> J" by (auto simp: held_def elim!: identity_Find_facts)
      then have "?R w1 (snd (identity_Revoke (id_ID idn) now w1))"
        using home_identity_Revoke by (simp add: obeys_def)
      with w1 show ?thesis using Inr find hom.trans by (simp add: on_err_def)
    qed
  qed (simp add: home_def)
  then have tail: "obeys ?R ?tail" by (simp add: obeys_def)
  show ?thesis unfolding Keys_Revoke_def by (intro hom.on_err hom.fail tail) (simp_all add: home_lk hom.op_rules)
qed

section \<open>The handlers keep the frame\<close>

lemma call_home:
  assumes "home i J K M w (snd (m w))"
    and "\<And>e w1. m w = (Inl e, w1) \<Longrightarrow> home i J K M w1 (snd (err e w1))"
    and "\<And>x w1. m w = (Inr x, w1) \<Longrightarrow> home i J K M w1 (snd (k x w1))"
  shows "home i J K M w (snd (call m err k w))"
proof -
  obtain r w1 where m: "m w = (r, w1)" by fastforce
  with assms(1) have w1: "home i J K M w w1" by simp
  show ?thesis
  proof (cases r)
    case (Inl e)
    then show ?thesis using m hom.trans [OF w1 assms(2) [of e w1]] by (simp add: call_def)
  next
    case (Inr x)
    then show ?thesis using m hom.trans [OF w1 assms(3) [of x w1]] by (simp add: call_def)
  qed
qed

lemma obeys_snd: "obeys R m \<Longrightarrow> R w (snd (m w))"
  by (simp add: obeys_def)

lemma guard_home:
  "(\<And>iss. gr_keys g = Some iss \<Longrightarrow> home i J K M w (snd (f iss w))) \<Longrightarrow> home i J K M w (snd (ready g f w))"
  "home i J K M w (snd (h w)) \<Longrightarrow> home i J K M w (snd (ownerGuard p j h w))"
  "home i J K M w (snd (h w)) \<Longrightarrow> home i J K M w (snd (withinCeiling p scopes what h w))"
  "(\<And>req. home i J K M w (snd (d req w))) \<Longrightarrow> home i J K M w (snd (decodeRegistryBody body d w))"
  by (simp_all add: ready_def ownerGuard_def withinCeiling_def decodeRegistryBody_def hom.refl split: option.split)

lemma answerPrincipal_home: "home i J K M w (snd (answerPrincipal j w))"
  unfolding answerPrincipal_def
  by (rule call_home) (simp_all add: obeys_snd [OF hom.reads(1)] hom.refl)

lemma principal_handlers_home:
  "home i J K M w (snd (SuspendPrincipal g p i w))" "home i J K M w (snd (RevokePrincipal g p i now w))"
  unfolding SuspendPrincipal_def RevokePrincipal_def
  by (intro guard_home call_home; simp add: obeys_snd [OF home_principal_ops(1)] obeys_snd [OF home_principal_ops(2)]
        answerPrincipal_home hom.refl)+

lemma AddIdentity_home: "home i J K {} w (snd (AddIdentity g p i body now w))"
proof -
  have "home i J K {} w1 (snd (call (identity_Create (bound_identity (pw_ID q) req) now) (writeRegistryError ''identity'')
      (\<lambda>idn. WriteJSON 201 (IdentityBody idn)) w1))" if "principal_Get i w = (Inr q, w1)" for q w1 w req
    using that home_identity_Create [of "bound_identity i req" i]
    by (intro call_home) (auto simp: hom.refl obeys_snd bound_identity_def elim: principal_Get_facts)
  then show ?thesis
    unfolding AddIdentity_def
    by (intro guard_home; simp add: hom.refl; intro impI guard_home call_home)
       (auto simp: hom.refl obeys_snd [OF hom.reads(1)] intro: guard_home)
qed

lemma mintKey_home: "home i J K {} w (snd (mintKey g (LocalKeys kc) p i req forSelf now w))"
proof -
  have mint: "home i J K {} w1 (snd (call (Keys_Mint (LocalKeys kc) \<lparr>mk_PrincipalID = pw_ID q, mk_Name = nm, mk_ExpiresAt = at, mk_Scopes = scopes\<rparr> now)
      (writeRegistryError ''create key'') (\<lambda>sk. WriteJSON 201 (KeyBody (fst sk) (snd sk))) w1))"
    if "principal_Get i w = (Inr q, w1)" for q w1 w nm at scopes
  proof -
    have "pw_ID q = i" using that by (rule principal_Get_facts)
    then show ?thesis
      using home_Keys_Mint [of i J K kc "\<lparr>mk_PrincipalID = i, mk_Name = nm, mk_ExpiresAt = at, mk_Scopes = scopes\<rparr>" now]
      by (intro call_home) (simp_all add: obeys_snd hom.refl)
  qed
  show ?thesis
  proof (cases "expiryOf (ckr_ExpiresIn req) (ckr_ExpiresAt req) now")
    case (Inl msg)
    then show ?thesis by (simp add: mintKey_def hom.refl)
  next
    case (Inr at)
    have get: "home i J K {} w (snd (call (principal_Get i) (writeRegistryError ''principal'') k w))"
      if "\<And>q w1. principal_Get i w = (Inr q, w1) \<Longrightarrow> home i J K {} w1 (snd (k q w1))" for k
      by (rule call_home) (simp_all add: that obeys_snd [OF hom.reads(1)] hom.refl)
    show ?thesis
      unfolding mintKey_def Inr sum.case
      by (rule get) (auto simp: Let_def hom.refl split: list.split intro!: guard_home mint)
  qed
qed

section \<open>Revoking what is one's own\<close>

definition sessions_of :: "auth_world \<Rightarrow> string \<Rightarrow> string set" where
  "sessions_of w i = us_ID ` {s \<in> set (wd_sessions w). us_PrincipalID s = i}"

definition keys_of :: "auth_world \<Rightarrow> string \<Rightarrow> string set" where
  "keys_of w i =
     {m. \<forall>x \<in> set (wd_identities w). id_Method x = IdentityMethodAPIKey \<longrightarrow> id_Subject x = m \<longrightarrow> id_PrincipalID x = i}"

lemma held_own:
  assumes "db_ok w" "M \<subseteq> keys_of w i"
  shows "held i (idents_of w i) (sessions_of w i) M w"
proof -
  have ids: "distinct (map id_ID (wd_identities w))" and ses: "distinct (map us_ID (wd_sessions w))"
    using assms(1) by (simp_all add: db_ok_def identities_ok_def sessions_ok_def)
  have "x = y" if "x \<in> set (wd_identities w)" "y \<in> set (wd_identities w)" "id_ID x = id_ID y" for x y
    using that ids by (simp add: distinct_map inj_on_def)
  moreover have "x = y" if "x \<in> set (wd_sessions w)" "y \<in> set (wd_sessions w)" "us_ID x = us_ID y" for x y
    using that ses by (simp add: distinct_map inj_on_def)
  ultimately show ?thesis
    using assms(2) by (fastforce simp: held_def idents_of_def sessions_of_def keys_of_def)
qed

lemma own_key:
  assumes "keys_ok kc w" "idn \<in> set (wd_identities w)" "id_Method idn = IdentityMethodAPIKey" "id_PrincipalID idn = i"
  shows "id_Subject idn \<in> keys_of w i"
proof -
  obtain rec where "key_at kc w (id_Subject idn) = Some rec" "ak_Principal rec = i"
    using assms unfolding keys_ok_def by blast
  moreover have "\<exists>rec. key_at kc w (id_Subject x) = Some rec \<and> ak_Principal rec = id_PrincipalID x"
    if "x \<in> set (wd_identities w)" "id_Method x = IdentityMethodAPIKey" for x
    using assms(1) that unfolding keys_ok_def by blast
  ultimately show ?thesis by (force simp: keys_of_def)
qed

lemma revokeIdentity_home:
  assumes "keys_ok kc w" "idn \<in> set (wd_identities w)" "id_PrincipalID idn = i"
  shows "obeys (home i (idents_of w i) K (keys_of w i)) (revokeIdentity (LocalKeys kc) idn now)"
proof (cases "id_Method idn = IdentityMethodAPIKey")
  case True
  then show ?thesis using own_key [OF assms(1,2) True assms(3)] by (simp add: revokeIdentity_def home_Keys_Revoke)
next
  case False
  have "id_ID idn \<in> idents_of w i" using assms(2,3) by (auto simp: idents_of_def)
  with False show ?thesis by (simp add: revokeIdentity_def home_identity_Revoke)
qed

lemma Keys_Get_facts:
  assumes "Keys_Get (LocalKeys kc) key w = (Inr info, w')"
  obtains idn where "idn \<in> set (wd_identities w)" "id_Method idn = IdentityMethodAPIKey"
    "ik_ID info = id_Subject idn" "ik_PrincipalID info = id_PrincipalID idn"
proof -
  from assms obtain rec w1 idn w2 where "lk_Get kc key w = (Inr rec, w1)"
      "identity_Find IdentityMethodAPIKey [] (ak_ID rec) w1 = (Inr idn, w2)" and info: "info = keyInfo rec idn"
    unfolding Keys_Get_def by (auto elim!: on_err_InrE bnd_InrE ret_InrE simp: fail_with_def)
  then show thesis by (auto elim!: lk_Get_facts identity_Find_facts intro!: that simp: keyInfo_def)
qed

lemma reads_home:
  "home i J K M w (snd (identity_Get x w))" "home i J K M w (snd (Keys_Get (LocalKeys kc) x w))"
  "home i J K M w (snd (session_Get x w))"
  by (rule obeys_snd [OF hom.reads(4)], unfold Keys_Get_def, rule obeys_snd,
      intro hom.op_rules hom.reads, simp add: lk_reads_order hom.world_order_axioms, rule obeys_snd [OF hom.reads(12)])

lemma identity_removal_home:
  assumes "keys_ok kc w" "gr_keys g = Some (LocalKeys kc)"
  shows "home i (idents_of w i) K (keys_of w i) w (snd (RemoveIdentity g p i x now w))"
    and "home (ap_ID (caller p)) (idents_of w (ap_ID (caller p))) K (keys_of w (ap_ID (caller p))) w (snd (RemoveOwnIdentity g p x now w))"
proof -
  have run: "home i (idents_of w i) K (keys_of w i) w1
      (snd (call (revokeIdentity (LocalKeys kc) idn now) (writeRegistryError ''revoke identity'') (\<lambda>_. no_content) w1))"
    if "identity_Get x w = (Inr idn, w1)" "id_PrincipalID idn = i" for idn w1 i
  proof -
    have "idn \<in> set (wd_identities w)" using that(1) by (rule identity_Get_facts)
    from revokeIdentity_home [OF assms(1) this that(2)] show ?thesis
      by (intro call_home) (simp_all add: obeys_snd hom.refl)
  qed
  show "home i (idents_of w i) K (keys_of w i) w (snd (RemoveIdentity g p i x now w))"
    unfolding RemoveIdentity_def
    by (intro guard_home call_home) (use assms(2) in \<open>auto simp: reads_home hom.refl run\<close>)
  show "home (ap_ID (caller p)) (idents_of w (ap_ID (caller p))) K (keys_of w (ap_ID (caller p))) w (snd (RemoveOwnIdentity g p x now w))"
    unfolding RemoveOwnIdentity_def
    by (intro guard_home call_home) (use assms(2) in \<open>auto simp: reads_home hom.refl run IsSelf_def\<close>)
qed

lemma key_removal_home:
  assumes "keys_ok kc w" "gr_keys g = Some (LocalKeys kc)"
  shows "home i J K (keys_of w i) w (snd (RevokePrincipalKey g p i x now w))"
    and "home (ap_ID (caller p)) J K (keys_of w (ap_ID (caller p))) w (snd (RevokeOwnKey g p x now w))"
proof -
  have run: "home i J K (keys_of w i) w1
      (snd (call (Keys_Revoke (LocalKeys kc) (ik_ID info) now) (writeRegistryError ''revoke key'') (\<lambda>_. no_content) w1))"
    if get: "Keys_Get (LocalKeys kc) x w = (Inr info, w1)" and "ik_PrincipalID info = i" for info w1 i
  proof -
    obtain idn where "idn \<in> set (wd_identities w)" "id_Method idn = IdentityMethodAPIKey"
        "ik_ID info = id_Subject idn" "ik_PrincipalID info = id_PrincipalID idn" using get by (rule Keys_Get_facts)
    with that(2) own_key [OF assms(1)] have "ik_ID info \<in> keys_of w i" by simp
    then show ?thesis by (intro call_home) (simp_all add: obeys_snd home_Keys_Revoke hom.refl)
  qed
  show "home i J K (keys_of w i) w (snd (RevokePrincipalKey g p i x now w))"
    unfolding RevokePrincipalKey_def
    by (intro guard_home call_home) (use assms(2) in \<open>auto simp: reads_home hom.refl run\<close>)
  show "home (ap_ID (caller p)) J K (keys_of w (ap_ID (caller p))) w (snd (RevokeOwnKey g p x now w))"
    unfolding RevokeOwnKey_def
    by (intro guard_home call_home) (use assms(2) in \<open>auto simp: reads_home hom.refl run IsSelf_def\<close>)
qed

lemma session_Get_facts:
  assumes "session_Get i w = (Inr s, w')"
  obtains "s \<in> set (wd_sessions w)" "us_ID s = i"
  using assms unfolding session_Get_def
  by (elim query_InrE) (auto split: option.splits simp: find_Some_iff in_set_conv_nth intro: that)

lemma session_end_home:
  "home (ap_ID (caller p)) J (sessions_of w (ap_ID (caller p))) M w (snd (EndOwnSession g p x r w))"
proof -
  have run: "home i J (sessions_of w i) M w1 (snd (call (Sessions_Revoke x RevokeReasonLogout now) (writeRegistryError ''end session'')
      (\<lambda>_. reply resp) w1))"
    if "session_Get x w = (Inr s, w1)" "us_PrincipalID s = i" for s w1 i now resp
  proof -
    have "x \<in> sessions_of w i" using that by (auto elim!: session_Get_facts simp: sessions_of_def)
    then show ?thesis by (intro call_home) (simp_all add: obeys_snd home_session_Revoke Sessions_Revoke_def hom.refl)
  qed
  show ?thesis
    unfolding EndOwnSession_def
    by (cases "gr_sessions g"; simp only: option.case; intro guard_home call_home)
       (auto simp: reads_home hom.refl run IsSelf_def)
qed

section \<open>The theorem\<close>

lemma owner_guarded: "i = OwnerPrincipal \<Longrightarrow> ap_ID (caller p) \<noteq> OwnerPrincipal \<Longrightarrow> snd (ownerGuard p i h w) = w"
  by (simp add: ownerGuard_def IsSelf_def)

lemma guarded_unchanged:
  "(\<And>iss. snd (f iss w) = w) \<Longrightarrow> snd (ready g f w) = w"
  "(\<And>req. snd (d req w) = w) \<Longrightarrow> snd (decodeRegistryBody body d w) = w"
  by (simp_all add: ready_def decodeRegistryBody_def split: option.split)

lemma owner_untouched:
  assumes "registry_target p req = Some OwnerPrincipal" "ap_ID (caller p) \<noteq> OwnerPrincipal"
  shows "snd (registry_serve g p r req w) = w"
  using assms
  by (cases req)
     (auto simp: SuspendPrincipal_def RevokePrincipal_def AddIdentity_def RemoveIdentity_def CreatePrincipalKey_def
        RevokePrincipalKey_def owner_guarded intro!: guarded_unchanged)


section \<open>Expiry\<close>

text \<open>
  A lifetime of at most 9223372036 seconds, the longest a 64-bit count of nanoseconds holds, is
  added exactly; a longer one wraps, and 584 years become 0.29 seconds.
\<close>

lemma expiryOf_exact:
  assumes "0 < n" "n \<le> 9223372036"
  shows "expiryOf n 0 now = Inr (now + n * second)"
proof -
  have "wrap64 (n * second) = n * second" using assms by (simp add: wrap64_def second_def)
  then show ?thesis using assms by (simp add: expiryOf_def)
qed

lemma expiryOf_wraps: "expiryOf 18446744074 0 now = Inr (now + 290448384)"
  by (simp add: expiryOf_def wrap64_def second_def)

end
