(* ===== verification/Http_Samples.thy ===== *)
theory Http_Samples
  imports Http_Access Http_Perimeter Http_Registry_Laws Http_Limiter Auth_Samples
begin

text \<open>
  The gate on concrete requests: the owner's key on a read, a guest's key on a read whose answer
  is checked, and a browser session on a write. They are the witnesses of the theorems of
  \<open>Http_Access\<close>.
\<close>

section \<open>Requests\<close>

definition sample_env :: http_env where
  "sample_env = \<lparr>he_url_host = (\<lambda>_. None), he_error_json = (\<lambda>code msg. code), he_quote = (\<lambda>s. s), he_codec = sample_codec\<rparr>"

definition get_objects :: apiRoute where
  "get_objects = \<lparr>rt_Method = ''GET'', rt_Pattern = ''/objects'', rt_Scope = ScopeReadObjects\<rparr>"

definition with_key :: "string \<Rightarrow> Request" where
  "with_key key = \<lparr>rq_Method = ''GET'', rq_Path = ''/api/v1/objects'', rq_Host = ''ctxt.lan'', rq_RemoteAddr = ''10.0.0.7:4711'', rq_TLS = None,
     rq_Header = [(''Authorization'', ''Bearer '' @ key)], rq_Cookies = [], rq_ContentLength = 0, rq_Now = 1\<rparr>"

definition instance_of :: "auth_world \<Rightarrow> Instance" where
  "instance_of w = \<lparr>it_world = w, it_viewers = None, it_audit = None, it_security = None\<rparr>"

definition sample_router :: "Chain \<Rightarrow> RouterConfig" where
  "sample_router chain = \<lparr>rr_Auth = Some chain, rr_DevCORS = False, rr_Visibility = \<lparr>vc_Strict = False\<rparr>\<rparr>"

definition echo :: "string \<Rightarrow> Handler" where
  "echo body c r s = ((respond 200 (Answer body), rc_ledger c), s)"

lemma TrimSpace_sesame [simp]: "TrimSpace ''sesame'' = ''sesame''"
  by code_simp

lemma sesame_request: "credentialFromRequest (with_key ''sesame'') = sesame"
  by (simp add: credentialFromRequest_def with_key_def Header_Get_def cutPrefixFold_def sesame_def Request_Cookie_def
        SchemeBearer_def SchemeAPIKey_def HeaderAPIKey_def ascii_fold_def Let_def)

section \<open>The owner reads\<close>

lemma reading_roles: "ScopeReadObjects \<in> set (ScopesForRoles [RoleAdmin])" "ScopeReadObjects \<in> set (ScopesForRoles [RoleReader])"
  by code_simp+

lemma owner_scope: "ScopeReadObjects \<in> set (ap_Scopes (config_principal (owner_row 0) (hd sample_keys)))"
  by (simp add: config_principal_def registryPrincipal_def sample_keys_def reading_roles)

lemma owner_kind: "ap_Kind (config_principal (owner_row 0) (hd sample_keys)) = PrincipalKindOwner"
  by (simp add: config_principal_def registryPrincipal_def Let_def)

lemma no_preview: "Header_Get (with_key key) HeaderViewAs = []"
  by (simp add: Header_Get_def with_key_def HeaderViewAs_def)

lemma serve_owner:
  "\<exists>c. serve sample_env (sample_router (si_chain sample_site)) get_objects h fresh_context (with_key ''sesame'') (instance_of seeded) =
     (case h c (with_key ''sesame'') (instance_of seeded) of ((resp, l), s) \<Rightarrow> ((SetCookies [] resp, l), s))"
proof -
  let ?p = "config_principal (owner_row 0) (hd sample_keys)"
  have now: "rq_Now (with_key ''sesame'') = 1" by (simp add: with_key_def)
  have "Resolve None 1 (ap_ID ?p) (ap_Kind ?p) i = (Inr Unrestricted, None)" for i by (simp add: Resolve_def owner_kind)
  moreover have "IsUnrestricted Unrestricted" by (simp add: IsUnrestricted_def Unrestricted_def)
  ultimately show ?thesis
    using sesame_opens owner_scope
    by (simp add: serve_stack [of _ "si_chain sample_site"] sample_router_def RequireAuth_def sesame_request now instance_of_def attachCaller_def WithViewer_def
        Visibility_def no_preview FromContext_def RequireScope_def FromContext_auth_def
        RequireCapability_def HasScope_def cx_Attach get_objects_def Let_def) blast
qed


section \<open>A guest reads\<close>

definition guest_keys :: "ConfigKey list" where
  "guest_keys = [\<lparr>ck_Hash = sha256_Sum256 ''sesame'', ck_Principal = ''prn_1'', ck_Roles = [], ck_ExpiresAt = 0\<rparr>]"

definition guest_chain :: Chain where
  "guest_chain = \<lparr>ch_methods = [APIKeyMethod (LocalKeys key_sample_codec) guest_keys]\<rparr>"

definition guest_principal :: AuthPrincipal where
  "guest_principal = config_principal guest (hd guest_keys)"

definition listing :: Handler where
  "listing c r s = ((respond 200 (Answer sample_body), Some sample_ledger), s)"

lemma guest_opens:
  "Chain_Authenticate guest_chain sesame 1 with_guest =
     ((\<lparr>re_Principal = Some guest_principal, re_Method = MethodAPIKey, re_Ambient = False, re_ClearCookie = False\<rparr>, None), with_guest)"
  by (simp add: Chain_Authenticate_def guest_chain_def APIKeyMethod_def APIKeyMethod_Authenticate_def guest_principal_def
        sesame_def configMatch_def guest_keys_def op_defs principal_Get_def with_guest_def guest_def owner_row_def
        Principal_Active_def OwnerPrincipal_def)

lemma guest_facts: "ap_Kind guest_principal \<noteq> PrincipalKindOwner" "ScopeReadObjects \<in> set (ap_Scopes guest_principal)"
  by (simp_all add: guest_principal_def config_principal_def registryPrincipal_def guest_keys_def guest_def principal_consts
        reading_roles [unfolded RoleReader_def])

lemma guest_viewer: "Resolve None 1 (ap_ID guest_principal) (ap_Kind guest_principal) i = (Inr zero_viewer, None)"
  using guest_facts by (simp add: Resolve_def)

lemma zero_restricted: "\<not> IsUnrestricted zero_viewer"
  by (simp add: zero_viewer_def IsUnrestricted_def)

lemma objects_access: "map_of routeAccessTable (routeKey ''GET'' ''/objects'') = Some routeObjects"
  by (simp add: routeAccessTable_def routeKey_def)

lemma objects_shape: "RouteShape ''GET'' ''/objects'' = Some ShapeObjects"
  by (simp add: RouteShape_def objects_access routeObjects_def)

lemma guest_served:
  "\<exists>resp s'. serve sample_env (sample_router guest_chain) get_objects listing fresh_context (with_key ''sesame'') (instance_of with_guest) =
     ((resp, Some sample_ledger), s') \<and> rp_Reply resp = Answer ''o1,see [content]''"
proof -
  have now: "rq_Now (with_key ''sesame'') = 1" by (simp add: with_key_def)
  show ?thesis
    using guest_opens guest_facts(2) guest_viewer zero_restricted sample_backstop
    by (simp add: serve_stack [of _ guest_chain] sample_router_def RequireAuth_def sesame_request now instance_of_def attachCaller_def WithViewer_def
        Visibility_def no_preview FromContext_def RequireScope_def FromContext_auth_def objects_shape objects_access
        RequireCapability_def HasScope_def cx_Attach get_objects_def routeObjects_def listing_def check_response_def
        sample_env_def wire_def respond_def SetCookies_def Record_def emit_def Let_def)
qed

theorem restricted_answers_are_checked_witness:
  "\<exists>(c :: Context) (resp0 :: string Response). cx_principal (rc_auth c) = Some guest_principal \<and> rc_viewer c = Some zero_viewer \<and>
     checked_body sample_env False ShapeObjects (wire sample_env (rp_Reply resp0)) (Some sample_ledger) ''o1,see [content]''"
proof -
  let ?r = "with_key ''sesame''" and ?s = "instance_of with_guest" and ?rc = "sample_router guest_chain"
  obtain resp s' where run:
      "serve sample_env ?rc get_objects listing fresh_context ?r ?s = ((resp, Some sample_ledger), s')"
      "rp_Reply resp = Answer ''o1,see [content]''"
    using guest_served by blast
  have now: "rq_Now ?r = 1" "it_world ?s = with_guest" "it_viewers ?s = None" "rr_Auth ?rc = Some guest_chain"
    by (simp_all add: with_key_def instance_of_def sample_router_def)
  have opened: "fst (Chain_Authenticate guest_chain (credentialFromRequest ?r) (rq_Now ?r) (it_world ?s)) =
      (\<lparr>re_Principal = Some guest_principal, re_Method = MethodAPIKey, re_Ambient = False, re_ClearCookie = False\<rparr>, None)"
    by (simp add: now sesame_request guest_opens)
  have viewer: "fst (Resolve (it_viewers ?s) (rq_Now ?r) (ap_ID guest_principal) (ap_Kind guest_principal)
      (meta_str (ap_Meta guest_principal) MetaIdentityID)) = Inr zero_viewer"
    by (simp add: now guest_viewer)
  have caller: "re_Principal \<lparr>re_Principal = Some guest_principal, re_Method = MethodAPIKey, re_Ambient = False, re_ClearCookie = False\<rparr> =
      Some guest_principal" by simp
  from restricted_answers_are_checked [OF now(4) opened caller viewer zero_restricted run]
  obtain shape and c :: Context and resp0 :: "string Response" where "RouteShape (rt_Method get_objects) (rt_Pattern get_objects) = Some shape"
      "cx_principal (rc_auth c) = Some guest_principal" "rc_viewer c = Some zero_viewer"
      "checked_body sample_env (vc_Strict (rr_Visibility ?rc)) shape (wire sample_env (rp_Reply resp0)) (Some sample_ledger) ''o1,see [content]''"
    by blast
  moreover have "shape = ShapeObjects" "\<not> vc_Strict (rr_Visibility ?rc)"
    using calculation(1) by (simp_all add: get_objects_def objects_shape sample_router_def)
  ultimately show ?thesis by auto
qed

section \<open>A browser session writes\<close>

definition cookie_secret :: string where "cookie_secret = replicate 43 CHR ''A''"

definition browsing :: auth_world where
  "browsing = signed_up\<lparr>wd_sessions :=
     [\<lparr>us_ID = ''uis_1'', us_SecretHash = HashSecret cookie_secret, us_PrincipalID = OwnerPrincipal, us_IdentityID = ''idn_1'',
       us_Scope = SessionKindUI, us_UserAgent = [], us_RemoteAddr = [], us_CreatedAt = 0, us_LastSeenAt = 1,
       us_IdleExpiresAt = 3000000, us_ExpiresAt = 3000000, us_RevokedAt = None, us_RevokeReason = []\<rparr>]\<rparr>"

definition delete_object :: apiRoute where
  "delete_object = \<lparr>rt_Method = ''DELETE'', rt_Pattern = ''/objects/{id}'', rt_Scope = ScopeDeleteObjects\<rparr>"

definition from_ui :: Request where
  "from_ui = \<lparr>rq_Method = ''DELETE'', rq_Path = ''/api/v1/objects/x'', rq_Host = ''ctxt.lan'', rq_RemoteAddr = ''10.0.0.7:4711'', rq_TLS = None,
     rq_Header = [(''Sec-Fetch-Site'', ''same-origin''), (''X-Ctxt-CSRF'', ''1'')],
     rq_Cookies = [(SessionCookieName ''ctxt.lan'', cookie_secret)], rq_ContentLength = 0, rq_Now = 2\<rparr>"

definition ui_credential :: Credential where
  "ui_credential = \<lparr>cr_Scheme = [], cr_Token = [], cr_TLS = None, cr_Cookie = cookie_secret\<rparr>"

lemma from_ui_credential: "credentialFromRequest from_ui = ui_credential"
  by (simp add: credentialFromRequest_def from_ui_def Header_Get_def ui_credential_def Request_Cookie_def
        HeaderAPIKey_def Let_def)

lemma cookie_formed: "wellFormedSecret cookie_secret" "cookie_secret \<noteq> []"
  by code_simp+

lemma touch_later: "so_TouchEvery (ss_opts sample_sessions) > 1"
  by code_simp

lemma sample_session_keys: "ss_keys sample_sessions = Some (LocalKeys key_sample_codec)"
  by (simp add: sample_sessions_def backed_sessions_def)

lemma session_opens:
  "\<exists>p. Chain_Authenticate (si_chain sample_site) ui_credential 2 browsing =
     ((\<lparr>re_Principal = Some p, re_Method = MethodSession, re_Ambient = True, re_ClearCookie = False\<rparr>, None), browsing) \<and>
     ScopeDeleteObjects \<in> set (ap_Scopes p) \<and> ap_Kind p = PrincipalKindOwner"
proof -
  have del: "ScopeDeleteObjects \<in> set (SessionScopesFor (ScopesForRoles [RoleAdmin]) SessionKindUI)" by code_simp
  show ?thesis
    using cookie_formed touch_later del
    by (simp add: Chain_Authenticate_def sample_site_def sample_chain_def APIKeyMethod_def SessionMethod_def
        APIKeyMethod_Authenticate_def ui_credential_def SessionMethod_Authenticate_def Sessions_Authenticate_def
        session_active_def session_Lookup_def session_live_def op_defs browsing_def signed_up_def resolve_def identity_Get_def
        Identity_Active_def principal_Get_def resolve_scopes_def Keys_ScopesOf_def time_Sub_def sample_session_keys toMillis_def
        IdentityMethodAPIKey_def IdentityMethodLink_def sessionPrincipal_def registryPrincipal_def)
qed

lemma session_served:
  "\<exists>c. serve sample_env (sample_router (si_chain sample_site)) delete_object h fresh_context from_ui (instance_of browsing) =
     (case h c from_ui (instance_of browsing) of ((resp, l), s) \<Rightarrow> ((SetCookies [] resp, l), s))"
proof -
  obtain p where p: "Chain_Authenticate (si_chain sample_site) ui_credential 2 browsing =
     ((\<lparr>re_Principal = Some p, re_Method = MethodSession, re_Ambient = True, re_ClearCookie = False\<rparr>, None), browsing)"
     "ScopeDeleteObjects \<in> set (ap_Scopes p)" "ap_Kind p = PrincipalKindOwner"
    using session_opens by blast
  have rules: "browserRules sample_env [] from_ui = None" "rq_Now from_ui = 2" "Header_Get from_ui HeaderViewAs = []"
    by (simp_all add: browserRules_def from_ui_def Header_Get_def sameOriginWrite_def cop_Check_def HeaderCSRF_def HeaderViewAs_def)
  have "Resolve None 2 (ap_ID p) (ap_Kind p) i = (Inr Unrestricted, None)" for i by (simp add: Resolve_def p)
  moreover have "IsUnrestricted Unrestricted" by (simp add: IsUnrestricted_def Unrestricted_def)
  ultimately show ?thesis
    using p rules
    by (simp add: serve_stack [of _ "si_chain sample_site"] sample_router_def RequireAuth_def from_ui_credential instance_of_def
        attachCaller_def WithViewer_def newSessionCOP_def
        Visibility_def FromContext_def RequireScope_def FromContext_auth_def
        RequireCapability_def HasScope_def cx_Attach delete_object_def Let_def) blast
qed

theorem ambient_writes_are_guarded_witness:
  "delete_object \<in> set apiRoutes \<and> Header_Get from_ui HeaderCSRF = ''1'' \<and> same_origin_evidence sample_env False from_ui \<and>
   (rt_Method delete_object, rt_Pattern delete_object) \<in> set session_writes"
proof -
  let ?serve = "\<lambda>h. serve sample_env (sample_router (si_chain sample_site)) delete_object h fresh_context from_ui (instance_of browsing)"
  have "rp_Reply (fst (fst (?serve (echo b)))) = Answer b" for b
    using session_served [of "echo b"] by (auto simp: echo_def respond_def SetCookies_def)
  from this [of "''a''"] this [of "''b''"] have differ: "?serve (echo ''a'') \<noteq> ?serve (echo ''b'')" by auto
  have now: "rq_Now from_ui = 2" by (simp add: from_ui_def)
  obtain res where res: "fst (Chain_Authenticate (si_chain sample_site) (credentialFromRequest from_ui) (rq_Now from_ui)
      (it_world (instance_of browsing))) = (res, None)" "re_Ambient res"
    using session_opens now by (auto simp: from_ui_credential instance_of_def)
  have rt: "delete_object \<in> set apiRoutes" unfolding apiRoutes_def route_table_def delete_object_def by simp
  have "matches_route delete_object from_ui" "\<not> isSafeMethod (rq_Method from_ui)"
    by (simp_all add: matches_route_def delete_object_def from_ui_def)
  from ambient_writes_are_guarded [OF sample_built _ differ res rt this] rt show ?thesis by (simp add: sample_router_def)
qed

section \<open>The registry\<close>

definition sample_registry :: registryRoutes where
  "sample_registry = \<lparr>gr_reg = True, gr_keys = Some (LocalKeys key_sample_codec), gr_sessions = None, gr_quote = (\<lambda>s. s)\<rparr>"

definition ana :: createPrincipalRequest where
  "ana = \<lparr>cp_Kind = PrincipalKindPerson, cp_DisplayName = ''Ana'', cp_Roles = []\<rparr>"

lemma ana_facts:
  "TrimSpace ''Ana'' = ''Ana''" "ValidateRoles [RoleReader] = None"
  "exceeds (callerCeiling None) (ScopesForRoles [RoleReader]) = None" "callerCeiling None \<noteq> []"
  "\<not> list_ex role_word_bad [RoleReader]"
  by code_simp+

lemma ana_created:
  "\<exists>resp w' q. registry_serve sample_registry None from_ui (POSTPrincipals (Some ana)) seeded = (resp, w') \<and>
     rp_Status resp = 201 \<and> rp_Reply resp = Answer (PrincipalBody q) \<and> pw_Roles q = [RoleReader]"
  using ana_facts
  by (simp add: CreatePrincipal_def ready_def sample_registry_def decodeRegistryBody_def ana_def PrincipalKinds_def
      PrincipalKindPerson_def PrincipalKindOwner_def defaultRolesByKind_def withinCeiling_def call_def principal_Create_def
      PrepareNewPrincipal_def new_principal_def NewPrincipalID_def NewULID_def draw_def op_defs has_principal_def
      OwnerPrincipal_def PrincipalStatuses_def PrincipalActive_def WriteJSON_def reply_def respond_def Let_def owner_row_def)

theorem nothing_widens_witness:
  "\<exists>q. pw_Roles q = [RoleReader] \<and> set (yielded_scopes seeded (PrincipalBody q)) \<subseteq> set (ap_Scopes (caller None))"
proof -
  obtain resp w' q where run: "registry_serve sample_registry None from_ui (POSTPrincipals (Some ana)) seeded = (resp, w')"
      "rp_Status resp = 201" "rp_Reply resp = Answer (PrincipalBody q)" and q: "pw_Roles q = [RoleReader]"
    using ana_created by blast
  have "gr_keys sample_registry = Some (LocalKeys key_sample_codec)" "distinct (map pw_ID (wd_principals seeded))"
    by (simp_all add: sample_registry_def)
  from nothing_widens [OF run this ana_facts(4)] q show ?thesis by blast
qed


section \<open>The perimeter of a private instance\<close>

definition sample_perimeter :: perimeter_env where
  "sample_perimeter = \<lparr>pe_isIP = (\<lambda>h. h = ''::1''), pe_MediaType = Some, pe_uuid = (\<lambda>r. ''4d3c'')\<rparr>"

definition from_cli :: Request where
  "from_cli = \<lparr>rq_Method = ''POST'', rq_Path = ''/api/v1/capture'', rq_Host = ''localhost:8080'',
     rq_RemoteAddr = ''127.0.0.1:4711'', rq_TLS = None, rq_Header = [(''Content-Type'', ''application/json'')],
     rq_Cookies = [], rq_ContentLength = 12, rq_Now = 2\<rparr>"

definition private_hosts :: HostAllowlist where
  "private_hosts = \<lparr>ha_exact = [''localhost:8080'', ''127.0.0.1:8080''], ha_anyPort = []\<rparr>"

definition private_router :: RouterConfig where
  "private_router = \<lparr>rr_Auth = None, rr_DevCORS = False, rr_Visibility = \<lparr>vc_Strict = False\<rparr>\<rparr>"

lemma port_text: "Itoa 8080 = ''8080''" "itoa 8080 = ''8080''"
  by (simp_all add: Itoa_def itoa.simps [of 8080] itoa.simps [of 808] itoa.simps [of 80] itoa.simps [of 8] char_of_def bit_0)

lemma loopback_parsed:
  "ParseAllowedHost isIP ''127.0.0.1:8080'' = Inr (''127.0.0.1'', ''8080'')" "ParseAllowedHost isIP ''localhost:8080'' = Inr (''localhost'', ''8080'')"
proof -
  have "Atoi ''8080'' = Some 8080" using Atoi_itoa [of 8080] by (simp add: port_text Itoa_def)
  moreover have "SplitHostPort ''127.0.0.1:8080'' = Some (''127.0.0.1'', ''8080'')" "SplitHostPort ''localhost:8080'' = Some (''localhost'', ''8080'')"
    "ToLower ''127.0.0.1'' = ''127.0.0.1''" "ToLower ''localhost'' = ''localhost''" by code_simp+
  ultimately show "ParseAllowedHost isIP ''127.0.0.1:8080'' = Inr (''127.0.0.1'', ''8080'')"
    "ParseAllowedHost isIP ''localhost:8080'' = Inr (''localhost'', ''8080'')"
    by (simp_all add: ParseAllowedHost_def check_host_def not_in_host_def)
qed

lemma private_hosts_built: "stack_HostAllowlist (pe_isIP sample_perimeter) AccessPrivate 8080 [] = Inr (Some private_hosts)"
proof -
  have "JoinHostPort ''127.0.0.1'' (Itoa 8080) = ''127.0.0.1:8080''" "JoinHostPort ''localhost'' (Itoa 8080) = ''localhost:8080''"
    "JoinHostPort ''127.0.0.1'' ''8080'' = ''127.0.0.1:8080''" "JoinHostPort ''localhost'' ''8080'' = ''localhost:8080''" by (simp_all add: JoinHostPort_def port_text)
  then show ?thesis
    by (simp add: stack_HostAllowlist_def NewHostAllowlist_def loopback_parsed private_hosts_def)
qed

lemma from_cli_facts:
  "HostAllowlist_Allows private_hosts ''localhost:8080'' False" "isLocalhostHost ''localhost:8080''"
  "\<not> IsExtensionOrigin []" "Header_Get from_cli HeaderViewAs = []" "TrimSpace [] = []"
  by code_simp+

lemma from_cli_reaches:
  "router sample_env sample_perimeter (Some private_hosts) private_router get_objects (echo body) fresh_context from_cli s =
   ((\<lparr>rp_Status = 200, rp_Reply = Answer body, rp_Cookies = [], rp_Headers = [(''X-Request-ID'', ''4d3c'')]\<rparr>, None), s)"
  using from_cli_facts
  by (simp add: router_def perimeter_def RequestID_def with_hosts_def HostAllowlist_Middleware_def UISecurityHeaders_def CORS_def
        CrossOriginGuard_def RequireJSONBody_def from_cli_def Header_Get_def finishing_def under_headers_def cop_Check_def
        serve_def private_router_def WithViewer_mw_def mountAPIRoute_def Visibility_def RequireCapability_def FromContext_def WithViewer_def
        fresh_context_def echo_def respond_def sample_perimeter_def Unrestricted_def IsUnrestricted_def Let_def)

theorem private_instance_keeps_pages_out_witness:
  "asked_host ''localhost:8080'' False = (''localhost'', Itoa 8080) \<and>
   from_own_page sample_env False from_cli \<and> json_or_empty sample_perimeter from_cli"
proof -
  have "router sample_env sample_perimeter (Some private_hosts) private_router get_objects (echo ''a'') fresh_context from_cli (instance_of seeded) \<noteq>
    router sample_env sample_perimeter (Some private_hosts) private_router get_objects (echo ''b'') fresh_context from_cli (instance_of seeded)"
    by (simp add: from_cli_reaches)
  note facts = private_instance_keeps_pages_out [OF private_hosts_built this, THEN conjunct1]
    private_instance_keeps_pages_out [OF private_hosts_built this, THEN conjunct2, THEN conjunct1]
  have "rq_Host from_cli = ''localhost:8080'' \<and> rq_TLS from_cli = None \<and> \<not> isSafeMethod (rq_Method from_cli)"
    by (simp add: from_cli_def isSafeMethod_def)
  moreover have "fst (asked_host ''localhost:8080'' False) = ''localhost''" by code_simp
  ultimately show ?thesis using facts by (auto simp: private_router_def)
qed

end
