(* ===== verification/Http_Ceremony_Samples.thy ===== *)
theory Http_Ceremony_Samples
  imports Http_Ceremony_Laws Http_Samples
begin

text \<open>
  The sign-in ceremonies on the instance of \<open>Auth_Samples\<close>: a browser that is signed in already, a
  login code that is exchanged, and a sign-in link for a guest that is minted and followed.
\<close>

definition sample_ui :: uiSessionRoutes where
  "sample_ui = \<lparr>ur_sessions = Some sample_sessions, ur_cop = [], ur_tickets = Some (site_tickets sample_site),
     ur_signIn = [AuthSignInInvite, AuthSignInLink], ur_publicURL = ''https://ctxt.lan'', ur_sharing = False,
     ur_env = sample_env, ur_isLoopback = (\<lambda>h. h = ''127.0.0.1'')\<rparr>"

lemma browsing_live: "\<exists>p sess. Sessions_Authenticate sample_sessions cookie_secret 2 browsing = (Inr (p, sess), browsing)"
  using cookie_formed touch_later
  by (simp add: Sessions_Authenticate_def session_active_def session_Lookup_def session_live_def op_defs browsing_def signed_up_def
      resolve_def identity_Get_def Identity_Active_def principal_Get_def resolve_scopes_def Keys_ScopesOf_def time_Sub_def
      sample_session_keys toMillis_def IdentityMethodAPIKey_def IdentityMethodLink_def)

theorem live_session_is_never_replaced_witness:
  "snd (run_ceremony sample_ui LinkRedemption (Some ''ticket'') from_ui (instance_of browsing)) = instance_of browsing \<and>
   rp_Cookies (fst (run_ceremony sample_ui LinkRedemption (Some ''ticket'') from_ui (instance_of browsing))) = []"
proof -
  obtain p sess where live: "Sessions_Authenticate sample_sessions cookie_secret (rq_Now from_ui) (it_world (instance_of browsing)) =
      (Inr (p, sess), browsing)"
    using browsing_live by (auto simp: from_ui_def instance_of_def)
  have "ur_sessions sample_ui = Some sample_sessions" "Request_Cookie from_ui (SessionCookieName (rq_Host from_ui)) = Some cookie_secret"
    by (simp_all add: sample_ui_def from_ui_def Request_Cookie_def)
  from live_session_is_never_replaced [OF this cookie_formed(2) live, of LinkRedemption "Some ''ticket''"]
  show ?thesis by (auto simp: instance_of_def)
qed

section \<open>A login code is exchanged\<close>

definition ui_login :: Request where
  "ui_login = from_ui\<lparr>rq_Method := ''POST'', rq_Path := ''/ui/auth/session'', rq_Cookies := []\<rparr>"

lemma sample_parts:
  "ur_sessions sample_ui = Some sample_sessions" "rq_Now ui_login = 2" "it_world (instance_of w) = w"
  "(instance_of w)\<lparr>it_world := v\<rparr> = instance_of v"
  by (simp_all add: sample_ui_def ui_login_def from_ui_def instance_of_def)

lemma b64_named: assumes "b \<noteq> []" shows "b64_EncodeToString b \<noteq> []"
proof -
  have "1 \<le> length b" using assms by (cases b) simp_all
  then have "0 < length (b64_EncodeToString b)" by (simp add: b64_EncodedLen_def div_greater_zero_iff)
  then show ?thesis by (metis less_nat_zero_code list.size(3))
qed

lemma code_exchanged:
  "\<exists>m w'. Exchange sample_sessions ''code'' (client ui_login) 2 signed_up = (Inr m, w') \<and> wd_faults w' = [] \<and> mi_Secret m \<noteq> [] \<and>
     us_IdleExpiresAt (mi_Session m) = 2 + 12 * 3600 * second"
  by (simp add: b64_named Exchange_def ConsumeLoginCode_def op_defs signed_up_def mintFor_def resolve_def identity_Get_def
      Identity_Active_def principal_Get_def resolve_scopes_def sample_sessions_def backed_sessions_def Keys_ScopesOf_def
      IdentityMethodAPIKey_def IdentityMethodLink_def randomSecret_def newSessionID_def draw_def session_Create_def
      has_identity_def new_session_def secretBytes_def withDefaults_def DefaultSessionIdleTTL_def DefaultSessionMaxTTL_def second_def Let_def)

lemma ui_login_checks:
  "browserChecks sample_ui sample_sessions ui_login k s = k s"
  by (simp add: browserChecks_def ui_login_def from_ui_def sample_ui_def Header_Get_def sameOriginWrite_def cop_Check_def HeaderCSRF_def
      Request_Cookie_def)

theorem sign_in_sticks_witness:
  "\<exists>resp s' k p sess v. run_ceremony sample_ui CodeExchange (Some ''code'') ui_login (instance_of signed_up) = (resp, s') \<and>
     k \<in> set (rp_Cookies resp) \<and> ck_HttpOnly k \<and> ck_Secure k \<and>
     Sessions_Authenticate sample_sessions (ck_Value k) 3000000 (it_world s') = (Inr (p, sess), v)"
proof -
  obtain m w' where m: "Exchange sample_sessions ''code'' (client ui_login) 2 signed_up = (Inr m, w')" "wd_faults w' = []"
      "mi_Secret m \<noteq> []" "us_IdleExpiresAt (mi_Session m) = 2 + 12 * 3600 * second"
    using code_exchanged by blast
  obtain who warn where fin: "finishSignIn sample_ui ui_login m (instance_of w') =
     (\<lparr>rp_Status = 200, rp_Reply = Answer (ExchangeBody who warn),
       rp_Cookies = [sessionCookie ui_login (mi_Secret m) (us_ExpiresAt (mi_Session m))], rp_Headers = []\<rparr>, instance_of w')"
     "wh_Session who = Some (toSessionInfo (mi_Session m))"
    using finishSignIn_run by blast
  define resp where "resp = SetHeader ''Cache-Control'' ''no-store''
    \<lparr>rp_Status = 200, rp_Reply = Answer (ExchangeBody who warn),
       rp_Cookies = [sessionCookie ui_login (mi_Secret m) (us_ExpiresAt (mi_Session m))], rp_Headers = []\<rparr>"
  let ?k = "sessionCookie ui_login (mi_Secret m) (us_ExpiresAt (mi_Session m))"
  have run: "run_ceremony sample_ui CodeExchange (Some ''code'') ui_login (instance_of signed_up) = (resp, instance_of w')"
    using m(1) fin(1)
    by (simp add: exchange_def no_store_def ui_login_checks decode_secret_def spend_def resp_def sample_parts)
  have cookie: "?k \<in> set (rp_Cookies resp)" "ck_Value ?k = mi_Secret m"
    by (simp_all add: resp_def SetHeader_def sessionCookie_def)
  have site: "ur_sessions sample_ui = Some sample_sessions" "\<And>ts. ur_tickets sample_ui = Some ts \<Longrightarrow> ts_sessions ts = sample_sessions"
    "local_sessions key_sample_codec sample_sessions" "wd_faults (it_world (instance_of w')) = []"
    using m(2) by (simp_all add: sample_ui_def site_tickets_def sample_site_def sample_sessions_def local_backed_sessions instance_of_def)
  have "ck_Value ?k \<noteq> []" using m(3) cookie(2) by simp
  note sticks = sign_in_sticks [OF site(1,2,3) run cookie(1) this site(4)]
  have "3000000 div 1000000 < (12 * 3600 * second + 2) div 1000000" by (simp add: second_def)
  then have "toMillis 3000000 < toMillis (si_IdleExpiresAt (toSessionInfo (mi_Session m)))"
    by (simp add: toMillis_def toSessionInfo_def m(4) add.commute)
  moreover have "rp_Reply resp = Answer (ExchangeBody who warn)" by (simp add: resp_def SetHeader_def)
  ultimately have "\<exists>p sess v. Sessions_Authenticate sample_sessions (ck_Value ?k) 3000000 (it_world (instance_of w')) = (Inr (p, sess), v)"
    using sticks fin(2) by (metis CeremonyBody.inject(3) option.inject reply.inject(2))
  moreover have "ck_HttpOnly ?k" "ck_Secure ?k" using sticks by blast+
  ultimately show ?thesis using run cookie(1) by blast
qed

section \<open>A sign-in link is followed\<close>

lemma guest_within: "exceeds (callerCeiling (Some LocalPrincipal)) (ScopesForRoles [RoleReader]) = None"
  using ana_facts(3) by (simp add: callerCeiling_def caller_def)

definition guest_issued :: Issued where
  "guest_issued = \<lparr>is_Secret = b64_EncodeToString (map (\<lambda>i. wd_rand seeded (wd_drawn seeded + i)) [0..<32]), is_ExpiresAt = 2 + MagicLinkTTL\<rparr>"

definition guest_linked :: auth_world where
  "guest_linked = with_guest\<lparr>wd_drawn := wd_drawn seeded + 32, wd_tickets := [(TicketHash (is_Secret guest_issued),
     \<lparr>tk_Kind = TicketKindMagicLink, tk_PrincipalID = ''prn_1'', tk_Payload = ''{}'', tk_CreatedBy = OwnerPrincipal,
      tk_CreatedAt = stored 2, tk_ExpiresAt = stored (2 + MagicLinkTTL), tk_RedeemedAt = None\<rparr>)]\<rparr>"

lemma guest_MintLink: "MintLink (Some LocalPrincipal) ''prn_1'' 2 with_guest = (Inr guest_issued, guest_linked)"
  by (simp add: MintLink_def principal_Get_def op_defs with_guest_def guest_def owner_row_def OwnerPrincipal_def Principal_Active_def
      ticket_Issue_def PrepareTicketIssue_def TicketKinds_def NewTicketSecret_def draw_def has_principal_def LocalPrincipal_def
      MagicLinkTTL_def second_def guest_linked_def guest_issued_def)

lemma guest_link:
  "\<exists>resp. mintLink sample_ui (Some LocalPrincipal) ''prn_1'' 2 with_guest = (resp, guest_linked) \<and>
     rp_Reply resp = Answer (LinkBody (ticket_link sample_ui SignInPath guest_issued 2))"
proof -
  have "principal_Get ''prn_1'' with_guest = (Inr guest, with_guest)" "pw_Roles guest = [RoleReader]" "''prn_1'' \<noteq> OwnerPrincipal"
    by (simp_all add: principal_Get_def op_defs with_guest_def guest_def owner_row_def OwnerPrincipal_def)
  moreover have "ceremony_fault sample_ui AuthSignInLink = None" "ur_tickets sample_ui = Some (site_tickets sample_site)"
    by (simp_all add: ceremony_fault_def sample_ui_def)
  ultimately show ?thesis
    using guest_within
    by (simp add: mintLink_def no_store_def SetHeader_def ceremonyOn_def ownerGuard_def call_def withinCeiling_def guest_MintLink
        WriteJSON_def reply_def respond_def)
qed

lemma guest_follows:
  "\<exists>m w3. RedeemLink (site_tickets sample_site) (is_Secret guest_issued) (client ui_login) 3 guest_linked = (Inr m, w3)"
proof -
  have "is_Secret guest_issued \<noteq> []" by (simp add: guest_issued_def b64_named)
  moreover have "toMillis 3 < toMillis (2 + MagicLinkTTL)" by (simp add: toMillis_def MagicLinkTTL_def second_def)
  moreover have "TicketHash secret \<noteq> []" for secret by (simp add: TicketHash_def flip: length_0_conv)
  ultimately show ?thesis
    by (simp add: RedeemLink_def redeem_def ticket_Redeem_def ticket_redeem_update_def op_defs guest_linked_def with_guest_def guest_def
        owner_row_def ticket_open_def ticket_principal_active_def Principal_Active_def
        bindAndMint_def identity_Create_def PrepareNewIdentity_def link_identity_def IdentityMethods_def NewIdentityID_def NewULID_def
        has_identity_def has_principal_def MintFor_def mintFor_def resolve_def identity_Get_def Identity_Active_def principal_Get_def
        resolve_scopes_def site_tickets_def sample_site_def sample_session_keys Keys_ScopesOf_def IdentityMethodAPIKey_def
        IdentityMethodLink_def randomSecret_def newSessionID_def draw_def session_Create_def OwnerPrincipal_def new_session_def Let_def)
qed

theorem minted_link_never_widens_witness:
  "\<exists>m w3. RedeemLink (site_tickets sample_site) (is_Secret guest_issued) (client ui_login) 3 guest_linked = (Inr m, w3) \<and>
     ap_ID (mi_Principal m) = ''prn_1'' \<and>
     set (ap_Scopes (mi_Principal m)) \<subseteq> set (callerCeiling (Some LocalPrincipal)) \<union> set sessionOnlyScopes"
proof -
  obtain resp where mint: "mintLink sample_ui (Some LocalPrincipal) ''prn_1'' 2 with_guest = (resp, guest_linked)"
      "rp_Reply resp = Answer (LinkBody (ticket_link sample_ui SignInPath guest_issued 2))"
    using guest_link by blast
  obtain m w3 where follow: "RedeemLink (site_tickets sample_site) (is_Secret guest_issued) (client ui_login) 3 guest_linked = (Inr m, w3)"
    using guest_follows by blast
  have "codec_ok (si_codec sample_site)" using key_sample_codec_ok by (simp add: sample_site_def)
  from minted_link_never_widens [OF seeded_by_migration built_site_from [OF sample_built] this guest_histories(1) mint history.start follow] follow
  show ?thesis by blast
qed

end
