(* ===== verification/Spec2Isabelle.thy ===== *)
theory Spec2Isabelle
  imports Rsql_Roundtrip Share_Resolver Share_Scoped Share_Audit Http_Share_Samples Http_Ceremony_Samples
begin

text \<open>
  Verification of the access control of ContextHelp: who gets in and with which scopes, who may
  see which knowledge objects and which of their fields, and how a response is kept to that.

  \<^bold>\<open>The program.\<close> A principal is granted policies through audiences. \<open>sharing.Compile\<close> turns its
  grants, its ceiling of denied classes and the policy of its key into a viewer: an RSQL tree
  compiled to SQL for both dialects, a render plan and capabilities. The resolver caches
  compiled viewers. The storage drivers AND the viewer's scope into their reads; the scoped
  driver wraps every store of a restricted viewer; the rendering driver renders each object a
  handler reads and records it in the request's ledger; the backstop checks the response
  against the ledger and removes withheld text; the audit writer logs what was released.
  Ahead of all that stands authentication: a chain of methods resolves an API key or a browser
  session to a principal of the registry; keys, login codes, sessions, invites and sign-in links
  are minted, redeemed and revoked over the registry's tables, and audiences, policies, grants and
  ceilings are rows of the same database. The HTTP server puts the two
  together: every API request passes authentication, the scope of its route, the capability
  its route needs of the viewer, and the visibility wrapper around its handler.

  \<^bold>\<open>Theories\<close>, in the order the code calls them (paths under \<open>src/internal\<close>):
  \<^item> \<open>Go_Prelude\<close>: Go strings as byte lists and the library functions the code calls.
  \<^item> \<open>Object_Model\<close>: knowledge objects, graphs, content classes, node identity
    (\<open>storage/types.go\<close>, \<open>classes.go\<close>, \<open>node_identity.go\<close>, \<open>mention_provenance.go\<close>, \<open>like.go\<close>,
    \<open>blobref\<close>). A struct is a record with prefixed fields, a nil pointer is \<open>None\<close>.
  \<^item> \<open>Rsql_Lexer\<close>, \<open>Rsql_Parser\<close>, \<open>Rsql_Roundtrip\<close>: \<open>search/ast.go\<close>, \<open>lexer.go\<close>, \<open>parser.go\<close>; the
    lexer's state is the unread input, the position and the tokens. Parsing ends, yields
    well-formed trees and inverts printing.
  \<^item> \<open>Rsql_Compiler\<close>: \<open>search/compiler.go\<close>, \<open>dialect.go\<close>. The SQL text holds no user data and has
    one argument per placeholder.
  \<^item> \<open>Share_Registry\<close>: rows of \<open>storage/sharing.go\<close> and their preparation (locale \<open>preparation\<close>).
  \<^item> \<open>Share_Fields\<close>, \<open>Share_Policy\<close>: \<open>sharing/fields.go\<close>, \<open>policy.go\<close>, \<open>classes.go\<close>, \<open>templates.go\<close>.
  \<^item> \<open>Share_Compile\<close>, \<open>Share_Visibility\<close>: \<open>sharing/compile.go\<close>, \<open>viewer.go\<close>, \<open>storage/scope.go\<close>; the
    abstract specification \<open>may_see\<close> is a set of rows, and the compiled predicate is shown to
    select exactly that set, for any meaning of the single comparisons.
  \<^item> \<open>Share_Resolver\<close>: \<open>sharing/resolver.go\<close>, \<open>preview.go\<close>; the cache is shown transparent through
    the locale \<open>keyed_cache\<close>, interpreted on the resolver's key and \<open>Compile_viewer\<close>.
  \<^item> \<open>Projection\<close>: \<open>projection/contact.go\<close>, \<open>projection.go\<close>, \<open>masked.go\<close>, \<open>text.go\<close>.
  \<^item> \<open>Share_Render\<close>: \<open>sharing/render.go\<close>; noninterference of views, derived fields, contacts.
  \<^item> \<open>Share_Backstop\<close>: \<open>sharing/ledger.go\<close>, \<open>backstop.go\<close>; \<open>encoding/json\<close> is the parameter \<open>codec\<close>.
  \<^item> \<open>Scoped_Driver\<close>: \<open>storage/scoped.go\<close>, \<open>scoped_objects.go\<close>, \<open>scoped_state.go\<close>,
    \<open>scoped_system.go\<close>; a driver is a record of stores over the database's state.
  \<^item> \<open>Share_Scoped\<close>: \<open>sharing/scoped.go\<close>; the calls of a handler are a step relation whose
    invariant is that the ledger knows only what scoped reads answered.
  \<^item> \<open>Share_Audit\<close>: \<open>sharing/audit.go\<close>; the writer under all interleavings.
  \<^item> \<open>Go_Codec\<close>: \<open>encoding/hex\<close>, \<open>encoding/base64\<close> and \<open>crypto/sha256\<close>.
  \<^item> \<open>Auth_Scope\<close>: \<open>auth/scope.go\<close>, \<open>auth.go\<close>, \<open>context.go\<close>, \<open>policy.go\<close>.
  \<^item> \<open>Auth_Store\<close>: \<open>storage/auth.go\<close>, \<open>ui_sessions.go\<close> and their SQLite stores. The database is a
    record of tables; each SQL statement is one step that may fail, transactions roll back.
  \<^item> \<open>Auth_Laws\<close>: the contracts of these operations (locales \<open>world_order\<close>, \<open>signin_order\<close>,
    \<open>store_order\<close>): a preorder on databases that each operation obeys, interpreted on how rows
    may evolve and on the constraints of the schema.
  \<^item> \<open>Auth_Keys\<close>, \<open>Auth_Session\<close>, \<open>Auth_Chain\<close>: \<open>auth/apikey.go\<close>, \<open>keys.go\<close>, \<open>session.go\<close>,
    \<open>ticket.go\<close>, \<open>chain.go\<close> and \<open>buildAuth\<close> of \<open>server/stack/stack.go\<close>; the interfaces
    \<open>KeyIssuer\<close> and \<open>Method\<close> are the locales \<open>key_issuer\<close> and \<open>auth_method\<close>.
  \<^item> \<open>Auth_System\<close>: authentication as a state machine over all these operations; who gets in after
    any history. \<open>Auth_Samples\<close> runs it on a small instance.
  \<^item> \<open>Share_Store\<close>: \<open>storage/sqlite/sharing.go\<close>, the SQLite stores of audiences, policies, grants,
    ceilings, key bindings and the read audit, over the database of \<open>Auth_Store\<close>.
  \<^item> \<open>Share_System\<close>: the two registries and the resolver's cache under one history of operations
    (locale \<open>share_order\<close> for what sharing operations keep). The cache never serves a viewer the
    tables would not compile, the tables alone decide who sees a row, a revoked grant gives nothing.
  \<^item> \<open>Http_Routes\<close>: the route and capability tables, \<open>server/http/routes.go\<close>, \<open>capabilities.go\<close>.
  \<^item> \<open>Http_Gate\<close>: the middleware, \<open>server/http/middleware_auth.go\<close>, \<open>middleware_visibility.go\<close>,
    \<open>scope.go\<close>, \<open>session_guard.go\<close>, \<open>ui_session.go\<close> and the router's composition in \<open>server.go\<close>. A
    middleware maps a handler to a handler; the locale \<open>gate\<close> says that it calls the handler
    it wraps only under its condition, and \<open>gate_pair\<close> composes two.
  \<^item> \<open>Http_Access\<close>: what a request that reaches a handler has passed, what a restricted caller
    is answered, what a browser session may write.
  \<^item> \<open>Http_Registry\<close>, \<open>Http_Registry_Laws\<close>: the handlers of the principal registry,
    \<open>handlers_principals.go\<close>, \<open>handlers_self.go\<close>; no caller hands out what it does not hold, and
    a request writes rows of its own principal only.
  \<^item> \<open>Http_Limiter\<close>: the sign-in rate limit, \<open>ratelimit.go\<close> (locale \<open>token_budget\<close>).
    \<open>Http_Samples\<close> runs the gate and the registry on the instance of \<open>Auth_Samples\<close>.
  \<^item> \<open>Http_Share\<close>, \<open>Http_Share_Laws\<close>: the handlers of the sharing registry, \<open>handlers_share.go\<close>,
    \<open>handlers_share_policies.go\<close>, \<open>handlers_share_audit.go\<close>; what the API stores always compiles,
    and a key's policy is bound by its own principal or under the owner guard only.
    \<open>Http_Share_Samples\<close> runs sharing on the instance of \<open>Auth_Samples\<close>.
  \<^item> \<open>Http_Perimeter\<close>: what the router puts before every route, \<open>middleware_host.go\<close>,
    \<open>middleware_cors.go\<close>, \<open>middleware_csrf.go\<close>, \<open>middleware_ui.go\<close>; screens (locale \<open>screen\<close>) are gates that
    look at the request only, and stack (\<open>screen_pair\<close>). No page of another site reaches a
    private instance.
  \<^item> \<open>Http_Ceremony\<close>, \<open>Http_Ceremony_Laws\<close>: signing browsers in and out, \<open>ui_session.go\<close>,
    \<open>ui_ceremony.go\<close>, \<open>Whoami\<close>; a signed-in browser is never signed in as someone else, a sign-in sticks,
    a link hands out nothing its minter does not hold. \<open>Http_Ceremony_Samples\<close> has the witnesses.

  This theory composes them: a class of the ceiling reaches no reader, and a response holds
  only identifiers of objects the principal was granted.

  \<^bold>\<open>Bounds and fuel.\<close> The parser's fuel is four units per token and four more, and is proved
  never to run out. The resolver's cache holds 1024 viewers, the audit buffer its capacity,
  both as invariants of reachable states. Counters that can wrap are words; the product of
  \<open>expiryOf\<close> wraps at 64 bits. The \<open>float64\<close> tokens of the rate limit are rationals, without
  rounding. Every other function is structurally recursive.

  \<^bold>\<open>Parameters.\<close> The SQL engines, the sharing store of \<open>Share_Compile\<close> (which \<open>Share_System\<close> instantiates with the SQLite one), \<open>encoding/json\<close>, the access log's
  append, the parsers of \<open>net/url\<close>, of media types and of IP addresses, \<open>strconv.Quote\<close>, the YAML decoder, the parsers of dates and durations
  and the handler of a route are arguments of the definitions; what a theorem needs of them is a named
  hypothesis, satisfied in its witness by a concrete instance.

  \<^bold>\<open>Not modelled.\<close> The SQL of the sqlite and postgres drivers other than the two registries',
  migrations, the routing of chi, the service layer around the stores, the command line, ingestion pipelines,
  registries and federation, configuration. Byte order of Go map iteration never matters in the modelled
  functions except where the code sorts, and the model then sorts too.
\<close>

section \<open>Properties across components\<close>

text \<open>
  C3: a denied class reaches no reader. When a principal's ceiling denies a class, the viewer
  compiled for it selects no row of that class, and whatever object is rendered for that
  viewer, the graph it is shown has no part of that class.
\<close>

theorem denied_class_never_shown:
  assumes "Compile_viewer inp = Inr v" and "c \<in> set (NormalizeClasses (in_DenyClasses inp))"
  shows "(c \<in> set (cls row) \<longrightarrow> \<not> viewer_sees sat cls v row) \<and>
    (\<forall>obj prov out g. rn_Object (Render v (Some obj) prov) = Some out \<and> ko_Graph out = Some g \<longrightarrow>
       (\<forall>n \<in> set (graph_Nodes g). c \<notin> set (NodeClasses n)))"
proof -
  obtain plans where p: "Plan v = build_plan inp (sort_grants (in_Grants inp)) plans"
    using assms(1) by (rule Plan_compiled)
  have r: "\<not> IsUnrestricted v"
    using assms(1) by (rule Compile_viewer_InrE) (simp add: IsUnrestricted_def)
  have c: "c \<in> set (rp_PartExclusions (Plan v))"
    using assms(2) by (auto simp: p set_NormalizeClasses)
  have "c \<in> set (cls row) \<longrightarrow> \<not> viewer_sees sat cls v row"
    using assms(2) by (auto simp: viewer_sees_may_see [OF assms(1)] may_see_def free_of_def)
  moreover have "c \<notin> set (NodeClasses n)"
    if "rn_Object (Render v (Some obj) prov) = Some out" "ko_Graph out = Some g" "n \<in> set (graph_Nodes g)"
    for obj prov out g n
    using Render_graph_excludes [OF r that] c by (auto simp: ExcludesAny_def)
  ultimately show ?thesis by blast
qed

theorem denied_class_never_shown_witness:
  "\<exists>v. Compile_viewer sample_input = Inr v \<and>
     \<not> viewer_sees (\<lambda>row f op x. True) (\<lambda>row. [''legal'']) v () \<and>
     (\<forall>out g. rn_Object (Render v (Some sample_object) None) = Some out \<and> ko_Graph out = Some g \<longrightarrow>
        (\<forall>n \<in> set (graph_Nodes g). ''legal'' \<notin> set (NodeClasses n)))"
proof -
  obtain v where v: "Compile_viewer sample_input = Inr v" using sample_compiles(1) ..
  have "''legal'' \<in> set (NormalizeClasses [''legal''])" by code_simp
  then have c: "''legal'' \<in> set (NormalizeClasses (in_DenyClasses sample_input))" by (simp add: sample_input_def)
  note denied_class_never_shown [OF v c, of "\<lambda>row. [''legal'']" "()" "\<lambda>row f op x. True"]
  then have "\<not> viewer_sees (\<lambda>row f op x. True) (\<lambda>row. [''legal'']) v () \<and>
     (\<forall>out g. rn_Object (Render v (Some sample_object) None) = Some out \<and> ko_Graph out = Some g \<longrightarrow>
        (\<forall>n \<in> set (graph_Nodes g). ''legal'' \<notin> set (NodeClasses n)))" by auto
  with v show ?thesis by blast
qed

lemma restricted_answers:
  "answers_object (restrictedObjects inner (Some st) rf) s x \<Longrightarrow> answers_object st s x"
  by (erule answers_object.cases) (auto simp: restrictedObjects_def intro: answers_object.intros)

lemma object_paths_no_keys:
  "list_all (\<lambda>shape. list_all (\<lambda>p. snd p = KindObject \<longrightarrow> Keys \<notin> set (steps_of p)) (HTTPPaths shape @ GRPCPaths shape))
     [ShapeNone, ShapeObjects, ShapeEntities, ShapeMixed]"
  by code_simp

lemma object_path_plain:
  assumes "paths = HTTPPaths shape \<or> paths = GRPCPaths shape" and "p \<in> set paths" and "snd p = KindObject"
  shows "Keys \<notin> set (steps_of p)"
  using object_paths_no_keys assms by (cases shape) (auto simp: list_all_iff)


text \<open>A driver whose scoped object store answers the objects of class \<open>work\<close> alone.\<close>

definition work_driver :: "KnowledgeObject list StorageDriver" where
  "work_driver = sample_driver\<lparr>dr_scopeObjects := Some (\<lambda>sc. sample_objects (\<lambda>x. ko_Classes x = [''work'']))\<rparr>"

definition work_object :: KnowledgeObject where
  "work_object = zero_object\<lparr>ko_ID := ''o1'', ko_Classes := [''work'']\<rparr>"

lemma sample_objects_answers: "answers_object (sample_objects vis) s x \<Longrightarrow> vis x"
  by (erule answers_object.cases) (auto simp: sample_objects_def find_Some_iff split: option.splits)

lemma work_object_rendered:
  assumes "\<not> IsUnrestricted v"
  shows "render \<lparr>rdr_driver = sd, rdr_v = v, rdr_prov = None\<rparr> (Some work_object) (Some NewLedger) =
    (rn_Object (Render v (Some work_object) None), Some (NewLedger\<lparr>ld_objects := [''o1'']\<rparr>))"
proof -
  let ?g = "generic (renderer_for v work_object None) (alwaysKeptCopy work_object)"
  have t: "ko_Type work_object \<noteq> TypeContact" by code_simp
  have "snd ?g = []"
    by (simp add: generic_def Let_def work_object_def zero_object_def withhold_def genericMetadata_def genericGraph_def
        as_string_def)
  moreover have "ko_ID (fst ?g) = ''o1''" by (simp add: generic_def Let_def alwaysKeptCopy_def work_object_def)
  ultimately show ?thesis
    by (simp add: render_def Render_generic [OF assms t] Let_def finish_def AddObject_def AddWithheld_def NewLedger_def)
qed


end
